(* ===== verification/Prelude.thy ===== *)
theory Prelude
  imports Main "HOL-Library.Signed_Division"
begin

text \<open>
  Shared vocabulary of the development: Go's fixed width integers, error values, the result
  type of fallible functions, panics, decimal formatting, and the combinator for a Go loop
  that draws candidates from a closure iterator. The generic lemmas proved here carry the
  proofs of the component theories.
\<close>

named_theorems go_simps \<open>unfolding rules for the small Go helpers\<close>
named_theorems invs \<open>invariant preservation lemmas of the components\<close>

section \<open>Fixed width integers\<close>

text \<open>
  Go integers of width 32 and 64 are integers with the two's complement wrap-around written
  out; division truncates towards zero (\<open>sdiv\<close> of the library).
\<close>

definition i32 :: "int \<Rightarrow> int" where
  "i32 x = (x + 2147483648) mod 4294967296 - 2147483648"

definition i64 :: "int \<Rightarrow> int" where
  "i64 x = (x + 9223372036854775808) mod 18446744073709551616 - 9223372036854775808"

definition in_i32 :: "int \<Rightarrow> bool" where
  "in_i32 x \<longleftrightarrow> -2147483648 \<le> x \<and> x < 2147483648"

lemma i32_id: "in_i32 x \<Longrightarrow> i32 x = x"
  by (simp add: i32_def in_i32_def)

lemma i32_nonneg [simp]: "0 \<le> x \<Longrightarrow> x < 2147483648 \<Longrightarrow> i32 x = x"
  by (simp add: i32_def)

lemma i64_nonneg [simp]: "0 \<le> x \<Longrightarrow> x < 9223372036854775808 \<Longrightarrow> i64 x = x"
  by (simp add: i64_def)

lemma i64_id: "-9223372036854775808 \<le> x \<Longrightarrow> x < 9223372036854775808 \<Longrightarrow> i64 x = x"
  by (simp add: i64_def)

lemma in_i32_i32 [simp]: "in_i32 (i32 x)"
  using pos_mod_bound [of 4294967296 "x + 2147483648"]
    pos_mod_sign [of 4294967296 "x + 2147483648"]
  by (simp add: in_i32_def i32_def)

lemma sdiv_nonneg: "0 \<le> (a::int) \<Longrightarrow> 0 < b \<Longrightarrow> a sdiv b = a div b"
  by (cases "a = 0") (auto simp: signed_divide_int_def)

lemma sdiv_neg: "(a::int) < 0 \<Longrightarrow> 0 < b \<Longrightarrow> a sdiv b = - ((- a) div b)"
  by (simp add: signed_divide_int_def)

section \<open>Errors, results and panics\<close>

text \<open>
  An error is one of the reasons the API server reports (the classification that
  \<open>apierrors.IsNotFound\<close> and its kin read), a sentinel made by \<open>errors.New\<close>, a formatted
  message, an error wrapped with \<open>%w\<close>, or a join of errors.
\<close>

datatype go_error =
    NotFound
  | AlreadyExists
  | Conflict
  | Sentinel string
  | ErrMsg string
  | Wrapped string go_error
  | Joined "go_error list"

type_synonym 'a result = "go_error + 'a"

fun IsNotFound :: "go_error \<Rightarrow> bool" where
  "IsNotFound NotFound = True"
| "IsNotFound (Wrapped _ e) = IsNotFound e"
| "IsNotFound _ = False"

fun IsConflict :: "go_error \<Rightarrow> bool" where
  "IsConflict Conflict = True"
| "IsConflict (Wrapped _ e) = IsConflict e"
| "IsConflict _ = False"

fun IsAlreadyExists :: "go_error \<Rightarrow> bool" where
  "IsAlreadyExists AlreadyExists = True"
| "IsAlreadyExists (Wrapped _ e) = IsAlreadyExists e"
| "IsAlreadyExists _ = False"

text \<open>\<open>client.IgnoreNotFound\<close>: a not-found error counts as no error.\<close>

definition IgnoreNotFound :: "go_error option \<Rightarrow> go_error option" where
  "IgnoreNotFound e = (case e of None \<Rightarrow> None | Some x \<Rightarrow> if IsNotFound x then None else Some x)"

text \<open>\<open>errors.Join\<close>: no error for an empty list of errors.\<close>

definition errors_Join :: "go_error list \<Rightarrow> go_error option" where
  "errors_Join es = (if es = [] then None else Some (Joined es))"

lemma errors_Join_None [simp]: "errors_Join es = None \<longleftrightarrow> es = []"
  by (simp add: errors_Join_def)

text \<open>The outcome of a function that can panic: a value, or the panic.\<close>

datatype 'a outcome = Returns 'a | Panics

fun returns :: "'a outcome \<Rightarrow> bool" where
  "returns (Returns _) = True"
| "returns Panics = False"

section \<open>Decimal numbers, as strconv formats and parses them\<close>

fun dec_nat :: "nat \<Rightarrow> string" where
  "dec_nat n = (if n < 10 then [char_of (48 + n)] else dec_nat (n div 10) @ [char_of (48 + n mod 10)])"

declare dec_nat.simps [simp del]

definition FormatInt :: "int \<Rightarrow> string" where
  "FormatInt x = (if x < 0 then CHR ''-'' # dec_nat (nat (- x)) else dec_nat (nat x))"

definition digit_val :: "char \<Rightarrow> nat option" where
  "digit_val c = (let k = of_char c :: nat in if 48 \<le> k \<and> k \<le> 57 then Some (k - 48) else None)"

fun parse_digits :: "nat \<Rightarrow> string \<Rightarrow> nat option" where
  "parse_digits acc [] = Some acc"
| "parse_digits acc (c # cs) =
     (case digit_val c of None \<Rightarrow> None | Some d \<Rightarrow> parse_digits (10 * acc + d) cs)"

definition ParseUint10 :: "string \<Rightarrow> nat option" where
  "ParseUint10 s = (if s = [] then None else parse_digits 0 s)"

text \<open>
  \<open>strconv.ParseInt(s, 10, 32)\<close>: an optional sign, at least one digit, nothing else, and a
  value that fits 32 bits; every failure is \<open>None\<close>.
\<close>

definition ParseInt32 :: "string \<Rightarrow> int option" where
  "ParseInt32 s =
     (case s of
        [] \<Rightarrow> None
      | c # cs \<Rightarrow>
          if c = CHR ''-'' then
            (case ParseUint10 cs of None \<Rightarrow> None
             | Some n \<Rightarrow> if n \<le> 2147483648 then Some (- int n) else None)
          else
            (case ParseUint10 (if c = CHR ''+'' then cs else c # cs) of None \<Rightarrow> None
             | Some n \<Rightarrow> if n < 2147483648 then Some (int n) else None))"

lemma digit_val_char_of [simp]: "d < 10 \<Longrightarrow> digit_val (char_of (48 + d)) = Some d"
  by (simp add: digit_val_def)

lemma digit_chars [simp]:
  "char_of (48::nat) = CHR ''0''" "char_of (49::nat) = CHR ''1''" "char_of (50::nat) = CHR ''2''"
  "char_of (51::nat) = CHR ''3''" "char_of (52::nat) = CHR ''4''" "char_of (53::nat) = CHR ''5''"
  "char_of (54::nat) = CHR ''6''" "char_of (55::nat) = CHR ''7''" "char_of (56::nat) = CHR ''8''"
  "char_of (57::nat) = CHR ''9''"
  by (simp_all add: char_of_def bit_0)

lemma parse_digits_append:
  "parse_digits acc (xs @ ys) =
     (case parse_digits acc xs of None \<Rightarrow> None | Some a \<Rightarrow> parse_digits a ys)"
  by (induction xs arbitrary: acc) (auto split: option.splits)

lemma parse_digits_dec_nat: "parse_digits 0 (dec_nat n) = Some n"
proof (induction n rule: dec_nat.induct)
  case (1 n)
  show ?case
  proof (cases "n < 10")
    case True
    then show ?thesis by (subst dec_nat.simps) simp
  next
    case False
    with 1 have "parse_digits 0 (dec_nat (n div 10)) = Some (n div 10)" by simp
    with False show ?thesis
      by (subst dec_nat.simps) (simp add: parse_digits_append)
  qed
qed

lemma dec_nat_nonempty [simp]: "dec_nat n \<noteq> []"
  by (subst dec_nat.simps) simp

lemma ParseUint10_dec_nat [simp]: "ParseUint10 (dec_nat n) = Some n"
  by (simp add: ParseUint10_def parse_digits_dec_nat)

lemma dec_nat_hd_digit: "\<exists>d<10. hd (dec_nat n) = char_of (48 + d :: nat)"
proof (induction n rule: dec_nat.induct)
  case (1 n)
  show ?case
  proof (cases "n < 10")
    case True
    then show ?thesis by (subst dec_nat.simps) auto
  next
    case False
    with 1 show ?thesis by (subst dec_nat.simps) simp
  qed
qed

lemma dec_nat_no_sign: "hd (dec_nat n) \<noteq> CHR ''-'' \<and> hd (dec_nat n) \<noteq> CHR ''+''"
proof -
  obtain d :: nat where d: "d < 10" "hd (dec_nat n) = char_of (48 + d)"
    using dec_nat_hd_digit by blast
  then have v: "digit_val (hd (dec_nat n)) = Some d" by simp
  have "digit_val (CHR ''-'') = None" "digit_val (CHR ''+'') = None"
    by (simp_all add: digit_val_def)
  with v show ?thesis by auto
qed

lemma ParseInt32_FormatInt: "in_i32 x \<Longrightarrow> ParseInt32 (FormatInt x) = Some x"
proof (cases "x < 0")
  case True
  moreover assume "in_i32 x"
  ultimately show ?thesis by (simp add: FormatInt_def ParseInt32_def in_i32_def)
next
  case False
  assume "in_i32 x"
  obtain c cs where c: "dec_nat (nat x) = c # cs"
    by (cases "dec_nat (nat x)") auto
  with dec_nat_no_sign [of "nat x"] have "c \<noteq> CHR ''-''" "c \<noteq> CHR ''+''" by auto
  moreover have "ParseUint10 (c # cs) = Some (nat x)"
    by (metis c ParseUint10_dec_nat)
  ultimately show ?thesis using False \<open>in_i32 x\<close> c
    by (simp add: FormatInt_def ParseInt32_def in_i32_def)
qed

lemma FormatInt_inj: "in_i32 x \<Longrightarrow> in_i32 y \<Longrightarrow> FormatInt x = FormatInt y \<Longrightarrow> x = y"
  by (metis ParseInt32_FormatInt option.inject)

lemma ParseInt32_range: "ParseInt32 s = Some v \<Longrightarrow> in_i32 v"
  by (auto simp: ParseInt32_def in_i32_def split: list.splits if_splits option.splits)

section \<open>Hashes\<close>

text \<open>
  The 32 bit FNV-1a hash of \<open>hash/fnv\<close> after writing some bytes, and the eight bytes the program
  makes of a 32 bit counter.
\<close>

definition fnv32a_offset :: nat where "fnv32a_offset = 2166136261"

definition fnv32a_write :: "nat list \<Rightarrow> nat \<Rightarrow> nat" where
  "fnv32a_write bs h = fold (\<lambda>b h. (Bit_Operations.xor h b * 16777619) mod 4294967296) bs h"

definition le_bytes32 :: "int \<Rightarrow> nat list" where
  "le_bytes32 x = (let n = nat (x mod 4294967296) in
     [n mod 256, n div 256 mod 256, n div 65536 mod 256, n div 16777216, 0, 0, 0, 0])"

section \<open>Loops over a closure iterator\<close>

text \<open>
  \<open>for { x, ok := it(); if !ok { return full }; ... continue ... return r }\<close>: the iterator is
  a step function on its captured variables, the body either continues (\<open>None\<close>) or returns.
  \<open>None\<close> as the outer result means the fuel ran out.
\<close>

fun loop_iter ::
  "nat \<Rightarrow> ('i \<Rightarrow> 'a option \<times> 'i) \<Rightarrow> ('s \<Rightarrow> 'a \<Rightarrow> 's \<times> 'r option) \<Rightarrow> 's \<Rightarrow> 'i \<Rightarrow> ('s \<times> 'r option) option"
where
  "loop_iter 0 it body s i = None"
| "loop_iter (Suc fuel) it body s i =
     (case it i of
        (None, _) \<Rightarrow> Some (s, None)
      | (Some x, i') \<Rightarrow>
          (case body s x of
             (s', Some r) \<Rightarrow> Some (s', Some r)
           | (s', None) \<Rightarrow> loop_iter fuel it body s' i'))"

lemma loop_iter_numeral:
  "loop_iter (numeral k) it body s i =
     (case it i of
        (None, _) \<Rightarrow> Some (s, None)
      | (Some x, i') \<Rightarrow>
          (case body s x of
             (s', Some r) \<Rightarrow> Some (s', Some r)
           | (s', None) \<Rightarrow> loop_iter (pred_numeral k) it body s' i'))"
  by (simp add: numeral_eq_Suc)

text \<open>The reference semantics: the first candidate of a list for which the body returns.\<close>

fun first_success :: "('s \<Rightarrow> 'a \<Rightarrow> 's \<times> 'r option) \<Rightarrow> 's \<Rightarrow> 'a list \<Rightarrow> 's \<times> 'r option" where
  "first_success body s [] = (s, None)"
| "first_success body s (x # xs) =
     (case body s x of (s', Some r) \<Rightarrow> (s', Some r) | (s', None) \<Rightarrow> first_success body s' xs)"

text \<open>The iterator yields exactly the given list before it reports its end.\<close>

fun yields :: "('i \<Rightarrow> 'a option \<times> 'i) \<Rightarrow> 'i \<Rightarrow> 'a list \<Rightarrow> bool" where
  "yields it i [] \<longleftrightarrow> fst (it i) = None"
| "yields it i (x # xs) \<longleftrightarrow> fst (it i) = Some x \<and> yields it (snd (it i)) xs"

lemma loop_iter_first_success:
  "yields it i xs \<Longrightarrow> length xs < fuel \<Longrightarrow> loop_iter fuel it body s i = Some (first_success body s xs)"
proof (induction xs arbitrary: fuel s i)
  case Nil
  then obtain f where "fuel = Suc f" by (cases fuel) auto
  with Nil show ?case by (cases "it i") auto
next
  case (Cons x xs)
  then obtain f where f: "fuel = Suc f" "length xs < f" by (cases fuel) auto
  obtain i' where i': "it i = (Some x, i')" "yields it i' xs"
    using Cons.prems by (cases "it i") auto
  show ?case
  proof (cases "body s x")
    case (Pair s' r)
    with f i' Cons.IH [of i' f s'] show ?thesis by (cases r) auto
  qed
qed

lemma first_success_inv:
  assumes "first_success body s xs = (s', r)" and "P s"
    and "\<And>s x s'. x \<in> set xs \<Longrightarrow> P s \<Longrightarrow> body s x = (s', None) \<Longrightarrow> P s'"
    and "\<And>s x s' r. x \<in> set xs \<Longrightarrow> P s \<Longrightarrow> body s x = (s', Some r) \<Longrightarrow> P s'"
  shows "P s'"
  using assms
proof (induction xs arbitrary: s)
  case Nil
  then show ?case by simp
next
  case (Cons x xs)
  obtain t q where tq: "body s x = (t, q)" by fastforce
  show ?case
  proof (cases q)
    case None
    have "P t" using Cons.prems(3) [of x s t] Cons.prems(2) tq None by simp
    moreover have "first_success body t xs = (s', r)"
      using Cons.prems(1) tq None by simp
    ultimately show ?thesis
      by (intro Cons.IH [of t]) (auto intro: Cons.prems(3,4))
  next
    case (Some a)
    have "P t" using Cons.prems(4) [of x s t a] Cons.prems(2) tq Some by simp
    moreover have "t = s'" using Cons.prems(1) tq Some by simp
    ultimately show ?thesis by simp
  qed
qed

text \<open>
  A successful search stops at some candidate: the state just before it satisfies whatever
  failed candidates keep.
\<close>

lemma first_success_Some:
  assumes "first_success body s xs = (s', Some r)" and "P s"
    and "\<And>s x s'. x \<in> set xs \<Longrightarrow> P s \<Longrightarrow> body s x = (s', None) \<Longrightarrow> P s'"
  shows "\<exists>x\<in>set xs. \<exists>t. P t \<and> body t x = (s', Some r)"
  using assms
proof (induction xs arbitrary: s)
  case Nil
  then show ?case by simp
next
  case (Cons x xs)
  obtain t q where tq: "body s x = (t, q)" by fastforce
  show ?case
  proof (cases q)
    case None
    have "P t" using Cons.prems(3) [of x s t] Cons.prems(2) tq None by simp
    moreover have "first_success body t xs = (s', Some r)"
      using Cons.prems(1) tq None by simp
    ultimately have "\<exists>x\<in>set xs. \<exists>t. P t \<and> body t x = (s', Some r)"
      by (intro Cons.IH [of t]) (auto intro: Cons.prems(3))
    then show ?thesis by auto
  next
    case (Some a)
    with Cons.prems(1,2) tq show ?thesis by auto
  qed
qed

lemma first_success_None_stable:
  assumes "first_success body s xs = (s', None)"
    and "\<And>x t. x \<in> set xs \<Longrightarrow> body s x = (t, None) \<Longrightarrow> t = s"
  shows "s' = s \<and> (\<forall>x\<in>set xs. body s x = (s, None))"
  using assms
proof (induction xs)
  case Nil
  then show ?case by simp
next
  case (Cons x xs)
  obtain t q where tq: "body s x = (t, q)" by fastforce
  with Cons.prems(1) have q: "q = None" by (cases q) auto
  then have "t = s" using Cons.prems(2) [of x t] tq by simp
  then show ?case using Cons tq q by auto
qed

text \<open>
  A closure iterator that starts at a value, steps with a successor function and stops when
  it comes back to its start; the captured variables are the current value and the flag that
  the start has been seen.
\<close>

definition cyclic_iter :: "('a \<Rightarrow> 'a) \<Rightarrow> 'a \<Rightarrow> 'a \<times> bool \<Rightarrow> 'a option \<times> ('a \<times> bool)" where
  "cyclic_iter nxt start st =
     (let (value, seen) = st in
      if value = start \<and> seen then (None, st)
      else (Some value, (nxt value, seen \<or> value = start)))"

lemma cyclic_iter_seen:
  "successively (\<lambda>a b. nxt a = b) (xs @ [start]) \<Longrightarrow> start \<notin> set xs \<Longrightarrow>
   yields (cyclic_iter nxt start) (hd (xs @ [start]), True) xs"
proof (induction xs)
  case Nil
  then show ?case by (simp add: cyclic_iter_def)
next
  case (Cons x xs)
  have "nxt x = hd (xs @ [start])" "successively (\<lambda>a b. nxt a = b) (xs @ [start])"
    using Cons.prems(1) by (cases xs; simp)+
  with Cons show ?case by (auto simp: cyclic_iter_def)
qed

lemma successively_map_upt:
  "(\<And>i. a \<le> i \<Longrightarrow> Suc i < b \<Longrightarrow> f (elem i) = elem (Suc i)) \<Longrightarrow>
   successively (\<lambda>x y. f x = y) (map elem [a..<b])"
  by (auto simp: successively_conv_nth)

text \<open>
  Started anywhere in a finite range the iterator yields the whole range once, from the
  start to the end and then from the beginning to the start.
\<close>

lemma cyclic_iter_yields_range:
  assumes step: "\<And>i. Suc i < N \<Longrightarrow> nxt (elem i) = elem (Suc i)"
    and wrap: "nxt (elem (N - 1)) = elem 0"
    and inj: "inj_on elem {..<N}" and k: "k < N"
  shows "yields (cyclic_iter nxt (elem k)) (elem k, False) (map elem ([k..<N] @ [0..<k]))"
proof -
  let ?R = "\<lambda>x y. nxt x = y" and ?ys = "map elem ([Suc k..<N] @ [0..<k])"
  have up: "successively ?R (map elem [k..<N])" and lo: "successively ?R (map elem [0..<Suc k])"
    by (rule successively_map_upt, use step k in simp)+
  have "successively ?R (map elem [k..<N] @ map elem [0..<Suc k])"
    using up lo wrap k by (simp add: successively_append_iff last_map hd_map last_upt del: upt_Suc)
  then have succ: "successively ?R (elem k # ?ys @ [elem k])"
    using k by (simp add: upt_conv_Cons)
  have "elem k \<noteq> elem x" if "x \<in> set ([Suc k..<N] @ [0..<k])" for x
    using inj_onD [OF inj, of k x] that k by auto
  then have "elem k \<notin> set ?ys" unfolding set_map image_iff by blast
  moreover have "nxt (elem k) = hd (?ys @ [elem k])" "successively ?R (?ys @ [elem k])"
    using succ by (auto simp only: successively_Cons append_is_Nil_conv list.distinct)
  ultimately have "yields (cyclic_iter nxt (elem k)) (nxt (elem k), True) ?ys"
    using cyclic_iter_seen [of nxt ?ys "elem k"] by simp
  then show ?thesis using k by (simp add: upt_conv_Cons cyclic_iter_def)
qed

end
