(* ===== verification/Netip.thy ===== *)
theory Netip
  imports Prelude "HOL-Library.Word" "HOL-Library.List_Lexorder" "HOL-Library.Char_ord"
begin

text \<open>
  Addresses: the part of Go's \<open>net/netip\<close> the program uses, the address wrappers of
  \<open>apimachinery/api/net/net.go\<close>, \<open>utils/core\<close> and the address arithmetic of
  \<open>utils/netip\<close>. An address is invalid, an IPv4 address or an IPv6 address with a zone;
  \<open>netip.Addr.Compare\<close> is the order of the type.
\<close>

unbundle bit_operations_syntax

section \<open>netip.Addr\<close>

datatype addr = ZeroAddr | V4 "32 word" | V6 "128 word" string

type_synonym IPFamily = string

definition IPv4Protocol :: IPFamily where "IPv4Protocol = ''IPv4''"
definition IPv6Protocol :: IPFamily where "IPv6Protocol = ''IPv6''"

fun IsValid :: "addr \<Rightarrow> bool" where
  "IsValid ZeroAddr = False"
| "IsValid _ = True"

fun Is4 :: "addr \<Rightarrow> bool" where
  "Is4 (V4 _) = True"
| "Is4 _ = False"

fun Is6 :: "addr \<Rightarrow> bool" where
  "Is6 (V6 _ _) = True"
| "Is6 _ = False"

fun BitLen :: "addr \<Rightarrow> int" where
  "BitLen ZeroAddr = 0"
| "BitLen (V4 _) = 32"
| "BitLen (V6 _ _) = 128"

definition cmp3 :: "'a::linorder \<Rightarrow> 'a \<Rightarrow> int" where
  "cmp3 x y = (if x < y then -1 else if y < x then 1 else 0)"

text \<open>Bit length first, then the value, then the zone.\<close>

fun Compare :: "addr \<Rightarrow> addr \<Rightarrow> int" where
  "Compare (V4 a) (V4 b) = cmp3 a b"
| "Compare (V6 a z) (V6 b w) = (if cmp3 a b \<noteq> 0 then cmp3 a b else cmp3 z w)"
| "Compare x y = cmp3 (BitLen x) (BitLen y)"

instantiation addr :: linorder
begin

definition less_eq_addr :: "addr \<Rightarrow> addr \<Rightarrow> bool" where
  "less_eq_addr x y \<longleftrightarrow> Compare x y \<le> 0"

definition less_addr :: "addr \<Rightarrow> addr \<Rightarrow> bool" where
  "less_addr x y \<longleftrightarrow> Compare x y < 0"

instance
proof
  fix x y z :: addr
  show "(x < y) = (x \<le> y \<and> \<not> y \<le> x)"
    by (cases x; cases y) (auto simp: less_addr_def less_eq_addr_def cmp3_def)
  show "x \<le> x" by (cases x) (auto simp: less_eq_addr_def cmp3_def)
  show "x \<le> y \<or> y \<le> x" by (cases x; cases y) (auto simp: less_eq_addr_def cmp3_def)
  show "x \<le> y \<Longrightarrow> y \<le> x \<Longrightarrow> x = y"
    by (cases x; cases y) (auto simp: less_eq_addr_def cmp3_def split: if_splits)
  show "x \<le> y \<Longrightarrow> y \<le> z \<Longrightarrow> x \<le> z"
    by (cases x; cases y; cases z)
      (auto simp: less_eq_addr_def cmp3_def split: if_splits dest: less_trans)
qed

end

lemma V4_less [simp]: "V4 a < V4 b \<longleftrightarrow> a < b"
  by (auto simp: less_addr_def cmp3_def)

lemma V4_le [simp]: "V4 a \<le> V4 b \<longleftrightarrow> a \<le> b"
  by (auto simp: less_eq_addr_def cmp3_def)

lemma V6_less [simp]: "V6 a z < V6 b z \<longleftrightarrow> a < b"
  by (auto simp: less_addr_def cmp3_def)

lemma V6_le [simp]: "V6 a z \<le> V6 b z \<longleftrightarrow> a \<le> b"
  by (auto simp: less_eq_addr_def cmp3_def)

lemma Compare_less: "Compare x y = -1 \<longleftrightarrow> x < y"
  by (cases x; cases y) (auto simp: less_addr_def cmp3_def)

lemma Compare_greater: "Compare x y = 1 \<longleftrightarrow> y < x"
  by (cases x; cases y) (auto simp: less_addr_def cmp3_def)

text \<open>
  \<open>Addr.Next\<close>: the invalid address after the last one of a family. (Any invalid address is
  represented by \<open>ZeroAddr\<close>.)
\<close>

fun Next :: "addr \<Rightarrow> addr" where
  "Next ZeroAddr = ZeroAddr"
| "Next (V4 w) = (if w + 1 = 0 then ZeroAddr else V4 (w + 1))"
| "Next (V6 w z) = (if w + 1 = 0 then ZeroAddr else V6 (w + 1) z)"

text \<open>\<open>AsSlice\<close> and \<open>AddrFromSlice\<close>, with bytes as natural numbers below 256.\<close>

fun be_fixed :: "nat \<Rightarrow> nat \<Rightarrow> nat list" where
  "be_fixed 0 n = []"
| "be_fixed (Suc k) n = be_fixed k (n div 256) @ [n mod 256]"

fun AsSlice :: "addr \<Rightarrow> nat list" where
  "AsSlice ZeroAddr = []"
| "AsSlice (V4 w) = be_fixed 4 (unat w)"
| "AsSlice (V6 w _) = be_fixed 16 (unat w)"

definition big_SetBytes :: "nat list \<Rightarrow> nat" where
  "big_SetBytes bs = foldl (\<lambda>n b. 256 * n + b) 0 bs"

fun big_Bytes :: "nat \<Rightarrow> nat list" where
  "big_Bytes n = (if n = 0 then [] else big_Bytes (n div 256) @ [n mod 256])"

declare big_Bytes.simps [simp del]

definition AddrFromSlice :: "nat list \<Rightarrow> addr option" where
  "AddrFromSlice bs =
     (if length bs = 4 then Some (V4 (of_nat (big_SetBytes bs)))
      else if length bs = 16 then Some (V6 (of_nat (big_SetBytes bs)) [])
      else None)"

section \<open>Textual form of an address\<close>

definition hex_digit :: "nat \<Rightarrow> char" where
  "hex_digit d = (if d < 10 then char_of (48 + d) else char_of (87 + d))"

fun hex_nat :: "nat \<Rightarrow> string" where
  "hex_nat n = (if n < 16 then [hex_digit n] else hex_nat (n div 16) @ [hex_digit (n mod 16)])"

declare hex_nat.simps [simp del]

definition string4 :: "nat \<Rightarrow> string" where
  "string4 n =
     dec_nat (n div 16777216) @ ''.'' @ dec_nat (n div 65536 mod 256) @ ''.'' @
     dec_nat (n div 256 mod 256) @ ''.'' @ dec_nat (n mod 256)"

definition hextets :: "nat \<Rightarrow> nat list" where
  "hextets n = map (\<lambda>i. n div 65536 ^ (7 - i) mod 65536) [0..<8]"

text \<open>The first longest run of at least two zero groups is written \<open>::\<close>.\<close>

definition zero_run :: "nat list \<Rightarrow> nat \<Rightarrow> nat" where
  "zero_run hs i = length (takeWhile (\<lambda>h. h = 0) (drop i hs))"

definition longest_zero_run :: "nat list \<Rightarrow> nat \<times> nat" where
  "longest_zero_run hs =
     foldl (\<lambda>(st, len) i. let l = zero_run hs i in if 2 \<le> l \<and> len < l then (i, l) else (st, len))
       (255, 0) [0..<8]"

definition string6 :: "nat \<Rightarrow> string" where
  "string6 n =
     (let hs = hextets n; (st, len) = longest_zero_run hs in
      concat (map (\<lambda>i.
        if i = st then ''::''
        else if st < i \<and> i < st + len then []
        else (if 0 < i \<and> i \<noteq> st + len then '':'' else []) @ hex_nat (hs ! i)) [0..<8]))"

definition Is4In6 :: "128 word \<Rightarrow> bool" where
  "Is4In6 w \<longleftrightarrow> unat w div 4294967296 = 65535"

fun addr_String :: "addr \<Rightarrow> string" where
  "addr_String ZeroAddr = ''invalid IP''"
| "addr_String (V4 w) = string4 (unat w)"
| "addr_String (V6 w z) =
     (if Is4In6 w then ''::ffff:'' @ string4 (unat w mod 4294967296) else string6 (unat w)) @
     (if z = [] then [] else ''%'' @ z)"

text \<open>The dotted form of an IPv4 address determines it.\<close>

lemma dec_nat_no_dot: "CHR ''.'' \<notin> set (dec_nat n)"
proof (induction n rule: dec_nat.induct)
  case (1 n)
  have dot: "CHR ''.'' \<noteq> char_of (48 + d :: nat)" if "d < 10" for d
  proof -
    have "digit_val (CHR ''.'') = None" by (simp add: digit_val_def)
    then show ?thesis using digit_val_char_of [OF that] by force
  qed
  show ?case
  proof (cases "n < 10")
    case True
    then show ?thesis using dot by (subst dec_nat.simps) simp
  next
    case False
    then show ?thesis using 1 dot [of "n mod 10"] by (subst dec_nat.simps) auto
  qed
qed

lemma append_sep_inj:
  "c \<notin> set xs \<Longrightarrow> c \<notin> set xs' \<Longrightarrow> xs @ c # ys = xs' @ c # ys' \<longleftrightarrow> xs = xs' \<and> ys = ys'"
proof (induction xs arbitrary: xs')
  case Nil
  then show ?case by (cases xs') auto
next
  case (Cons x xs)
  then show ?case by (cases xs') auto
qed

lemma dec_nat_inj [simp]: "dec_nat m = dec_nat n \<longleftrightarrow> m = n"
  using ParseUint10_dec_nat by (metis option.inject)

lemma string4_inj: "string4 m = string4 n \<longleftrightarrow> m = n"
proof
  assume "string4 m = string4 n"
  then have e: "m div 16777216 = n div 16777216" "m div 65536 mod 256 = n div 65536 mod 256"
    "m div 256 mod 256 = n div 256 mod 256" "m mod 256 = n mod 256"
    by (simp_all add: string4_def append_sep_inj dec_nat_no_dot)
  have split: "k = ((k div 16777216 * 256 + k div 65536 mod 256) * 256 + k div 256 mod 256) * 256 + k mod 256" for k :: nat
    by (simp add: div_mult2_eq [of _ 256 256, simplified] div_mult2_eq [of _ 65536 256, simplified] mult.commute)
  show "m = n" using e split [of m] split [of n] by simp
qed simp

lemma addr_String_V4: "addr_String (V4 v) = addr_String (V4 w) \<longleftrightarrow> v = w"
  by (simp add: string4_inj word_unat_eq_iff)

section \<open>netip.Prefix\<close>

record prefix =
  p_Addr :: addr
  p_Bits :: int

definition zero_prefix :: prefix where
  "zero_prefix = \<lparr>p_Addr = ZeroAddr, p_Bits = -1\<rparr>"

definition prefix_IsValid :: "prefix \<Rightarrow> bool" where
  "prefix_IsValid p \<longleftrightarrow> 0 \<le> p_Bits p \<and> IsValid (p_Addr p) \<and> p_Bits p \<le> BitLen (p_Addr p)"

definition mask_low :: "nat \<Rightarrow> 'a::len word \<Rightarrow> 'a word" where
  "mask_low k w = push_bit k (drop_bit k w)"

definition Masked :: "prefix \<Rightarrow> prefix" where
  "Masked p =
     (if \<not> prefix_IsValid p then zero_prefix
      else (case p_Addr p of
              ZeroAddr \<Rightarrow> zero_prefix
            | V4 w \<Rightarrow> p\<lparr>p_Addr := V4 (mask_low (nat (32 - p_Bits p)) w)\<rparr>
            | V6 w _ \<Rightarrow> p\<lparr>p_Addr := V6 (mask_low (nat (128 - p_Bits p)) w) []\<rparr>))"

section \<open>apimachinery/api/net and utils/core\<close>

type_synonym net_IP = addr
type_synonym net_IPPrefix = prefix

definition IP_IsValid :: "net_IP option \<Rightarrow> bool" where
  "IP_IsValid i = (case i of None \<Rightarrow> False | Some a \<Rightarrow> IsValid a)"

definition IP_IsZero :: "net_IP option \<Rightarrow> bool" where
  "IP_IsZero i = (case i of None \<Rightarrow> True | Some a \<Rightarrow> \<not> IsValid a)"

definition Family :: "net_IP \<Rightarrow> IPFamily" where
  "Family i = (if Is4 i then IPv4Protocol else if Is6 i then IPv6Protocol else [])"

definition IPPrefix_IsValid :: "net_IPPrefix option \<Rightarrow> bool" where
  "IPPrefix_IsValid i = (case i of None \<Rightarrow> False | Some p \<Rightarrow> prefix_IsValid p)"

definition IPPrefix_IsZero :: "net_IPPrefix option \<Rightarrow> bool" where
  "IPPrefix_IsZero i = (case i of None \<Rightarrow> True | Some p \<Rightarrow> \<not> prefix_IsValid p)"

definition IPFamilyForAddr :: "addr \<Rightarrow> IPFamily" where
  "IPFamilyForAddr a = (if Is4 a then IPv4Protocol else if Is6 a then IPv6Protocol else [])"

lemma Family_cases:
  "Family a = (case a of ZeroAddr \<Rightarrow> [] | V4 _ \<Rightarrow> IPv4Protocol | V6 _ _ \<Rightarrow> IPv6Protocol)"
  by (cases a) (auto simp: Family_def)

lemma Family_valid: "IsValid a \<longleftrightarrow> Family a \<in> {IPv4Protocol, IPv6Protocol}"
  by (cases a) (auto simp: Family_cases IPv4Protocol_def IPv6Protocol_def)

lemma IPFamilyForAddr_Family: "IPFamilyForAddr a = Family a"
  by (simp add: IPFamilyForAddr_def Family_def)

section \<open>utils/netip\<close>

definition MaxInt64 :: int where "MaxInt64 = 9223372036854775807"

definition PrefixSize :: "prefix \<Rightarrow> int" where
  "PrefixSize p =
     (let ones = p_Bits p; bits = BitLen (p_Addr p) in
      if bits = 32 \<and> bits - ones \<ge> 31 \<or> bits = 128 \<and> bits - ones \<ge> 127 then 0
      else if bits - ones \<ge> 63 then MaxInt64
      else 2 ^ nat (bits - ones))"

definition AddOffsetAddress :: "addr \<Rightarrow> nat \<Rightarrow> addr result" where
  "AddOffsetAddress address offset =
     (let addressBig = int (big_SetBytes (AsSlice address));
          r = addressBig + i64 (int offset);
          bs = big_Bytes (nat \<bar>r\<bar>) in
      case AddrFromSlice bs of
        None \<Rightarrow> Inl (ErrMsg ''invalid address'')
      | Some a \<Rightarrow> Inr a)"

lemma big_SetBytes_append:
  "big_SetBytes (bs @ [b]) = 256 * big_SetBytes bs + b"
  by (simp add: big_SetBytes_def)

lemma big_SetBytes_be_fixed: "big_SetBytes (be_fixed k n) = n mod 256 ^ k"
proof (induction k arbitrary: n)
  case 0
  then show ?case by (simp add: big_SetBytes_def)
next
  case (Suc k)
  then show ?case
    by (simp add: big_SetBytes_append mod_mult2_eq)
qed

lemma big_SetBytes_Bytes: "big_SetBytes (big_Bytes n) = n"
proof (induction n rule: big_Bytes.induct)
  case (1 n)
  then show ?case
    by (subst big_Bytes.simps) (auto simp: big_SetBytes_append big_SetBytes_def)
qed

lemma length_big_Bytes_le: "length (big_Bytes n) \<le> k \<longleftrightarrow> n < 256 ^ k"
proof (induction n arbitrary: k rule: big_Bytes.induct)
  case (1 n)
  show ?case
  proof (cases "n = 0")
    case True
    then show ?thesis by (subst big_Bytes.simps) simp
  next
    case False
    then show ?thesis
    proof (cases k)
      case 0
      with False show ?thesis by (subst big_Bytes.simps) simp
    next
      case (Suc j)
      have "length (big_Bytes (n div 256)) \<le> j \<longleftrightarrow> n div 256 < 256 ^ j"
        using 1 False by blast
      moreover have "n div 256 < 256 ^ j \<longleftrightarrow> n < 256 ^ Suc j"
        by (simp add: div_less_iff_less_mult mult.commute)
      ultimately show ?thesis using False Suc by (subst big_Bytes.simps) simp
    qed
  qed
qed

lemma length_big_Bytes: "0 < k \<Longrightarrow> length (big_Bytes n) = k \<longleftrightarrow> 256 ^ (k - 1) \<le> n \<and> n < 256 ^ k"
  using length_big_Bytes_le [of n k] length_big_Bytes_le [of n "k - 1"] by linarith

fun addr_value :: "addr \<Rightarrow> nat" where
  "addr_value ZeroAddr = 0"
| "addr_value (V4 w) = unat w"
| "addr_value (V6 w _) = unat w"

lemma big_SetBytes_AsSlice: "big_SetBytes (AsSlice a) = addr_value a"
proof (cases a)
  case ZeroAddr
  then show ?thesis by (simp add: big_SetBytes_def)
next
  case (V4 w)
  have "unat w < 2 ^ 32" using unsigned_less [of w] by simp
  then show ?thesis using V4 by (simp only: AsSlice.simps addr_value.simps big_SetBytes_be_fixed) simp
next
  case (V6 w z)
  have "unat w < 2 ^ 128" using unsigned_less [of w] by simp
  then show ?thesis using V6 by (simp only: AsSlice.simps addr_value.simps big_SetBytes_be_fixed) simp
qed

text \<open>
  What the byte slices of \<open>AddOffsetAddress\<close> compute: only a sum whose leading byte is not
  zero keeps the length of its family.
\<close>

lemma AddOffsetAddress_eq:
  assumes "off < 2 ^ 63"
  shows "AddOffsetAddress a off =
    (let n = addr_value a + off in
     if 16777216 \<le> n \<and> n < 4294967296 then Inr (V4 (of_nat n))
     else if 256 ^ 15 \<le> n \<and> n < 256 ^ 16 then Inr (V6 (of_nat n) [])
     else Inl (ErrMsg ''invalid address''))"
proof -
  have "i64 (int off) = int off" using assms by simp
  then have "nat \<bar>int (addr_value a) + i64 (int off)\<bar> = addr_value a + off"
    by linarith
  then show ?thesis
    by (simp add: AddOffsetAddress_def Let_def big_SetBytes_AsSlice AddrFromSlice_def
        length_big_Bytes big_SetBytes_Bytes)
qed

end
