(* ===== verification/ApiTypes.thy ===== *)
theory ApiTypes
  imports Netip
begin

text \<open>
  The resources of the API group \<open>core.apinet.api.onmetal.de\<close> as records, one per Go
  struct of \<open>api/core/v1alpha1\<close> with its fields in the source's order (the internal
  version of \<open>internal/apis/core\<close> has the same fields, and the generated conversions copy
  them one by one; the internal names are type synonyms). Pointers are options, Go strings
  and string enums are strings, a label map is an association list. The \<open>TypeMeta\<close> and
  \<open>ListMeta\<close> parts, which no modelled function reads, are left out.
\<close>

section \<open>The metadata of k8s.io/apimachinery that the program reads and writes\<close>

type_synonym labels = "(string \<times> string) list"

record OwnerReference =
  or_APIVersion :: string
  or_Kind :: string
  or_Name :: string
  or_UID :: string
  or_Controller :: "bool option"
  or_BlockOwnerDeletion :: "bool option"

record ObjectMeta =
  om_Name :: string
  om_GenerateName :: string
  om_Namespace :: string
  om_UID :: string
  om_ResourceVersion :: string
  om_CreationTimestamp :: int
  om_DeletionTimestamp :: "int option"
  om_Labels :: labels
  om_Annotations :: labels
  om_OwnerReferences :: "OwnerReference list"
  om_Finalizers :: "string list"

definition zero_meta :: ObjectMeta where
  "zero_meta = \<lparr>om_Name = [], om_GenerateName = [], om_Namespace = [], om_UID = [],
     om_ResourceVersion = [], om_CreationTimestamp = 0, om_DeletionTimestamp = None,
     om_Labels = [], om_Annotations = [], om_OwnerReferences = [], om_Finalizers = []\<rparr>"

record ObjectKey =
  key_Namespace :: string
  key_Name :: string

definition meta_key :: "ObjectMeta \<Rightarrow> ObjectKey" where
  "meta_key m = \<lparr>key_Namespace = om_Namespace m, key_Name = om_Name m\<rparr>"

text \<open>\<open>metav1.GetControllerOf\<close>: the first owner reference marked as controller.\<close>

definition GetControllerOf :: "ObjectMeta \<Rightarrow> OwnerReference option" where
  "GetControllerOf m = find (\<lambda>r. or_Controller r = Some True) (om_OwnerReferences m)"

record GroupVersionKind =
  gvk_Group :: string
  gvk_Version :: string
  gvk_Kind :: string

record LabelSelectorRequirement =
  lsr_Key :: string
  lsr_Operator :: string
  lsr_Values :: "string list"

record LabelSelector =
  ls_MatchLabels :: labels
  ls_MatchExpressions :: "LabelSelectorRequirement list"

section \<open>Well known labels and names\<close>

definition GroupName :: string where
  "GroupName = ''core.apinet.api.onmetal.de''"

definition ControllerRevisionHashLabel :: string where
  "ControllerRevisionHashLabel = ''apinet.api.onmetal.de/controller-revision-hash''"
definition IPFamilyLabel :: string where
  "IPFamilyLabel = ''apinet.api.onmetal.de/ip-family''"
definition IPIPLabel :: string where
  "IPIPLabel = ''apinet.api.onmetal.de/ip''"

section \<open>Node\<close>

record Node =
  node_Meta :: ObjectMeta

section \<open>Network and NetworkID\<close>

record NetworkSpec =
  netspec_ID :: string

record Network =
  net_Meta :: ObjectMeta
  net_Spec :: NetworkSpec

record NetworkIDClaimRef =
  nidref_Group :: string
  nidref_Resource :: string
  nidref_Namespace :: string
  nidref_Name :: string
  nidref_UID :: string

record NetworkIDSpec =
  nidspec_ClaimRef :: NetworkIDClaimRef

record NetworkID =
  nid_Meta :: ObjectMeta
  nid_Spec :: NetworkIDSpec

section \<open>IP and IPAddress\<close>

type_synonym IPType = string

definition IPTypePublic :: IPType where "IPTypePublic = ''Public''"

record IPClaimRef =
  ipref_Group :: string
  ipref_Resource :: string
  ipref_Name :: string
  ipref_UID :: string

record IPSpec =
  ipspec_Type :: IPType
  ipspec_IPFamily :: IPFamily
  ipspec_IP :: net_IP
  ipspec_ClaimRef :: "IPClaimRef option"

record IP =
  ip_Meta :: ObjectMeta
  ip_Spec :: IPSpec

definition IsIPClaimedBy :: "IP \<Rightarrow> ObjectMeta \<Rightarrow> bool" where
  "IsIPClaimedBy ip claimer =
     (case ipspec_ClaimRef (ip_Spec ip) of
        None \<Rightarrow> False
      | Some claimRef \<Rightarrow> ipref_UID claimRef = om_UID claimer)"

record IPAddressClaimRef =
  iaref_Group :: string
  iaref_Resource :: string
  iaref_Namespace :: string
  iaref_Name :: string
  iaref_UID :: string

record IPAddressSpec =
  iaspec_IP :: net_IP
  iaspec_ClaimRef :: IPAddressClaimRef

record IPAddress =
  ia_Meta :: ObjectMeta
  ia_Spec :: IPAddressSpec

definition IsIPAddressClaimedBy :: "IPAddress \<Rightarrow> ObjectMeta \<Rightarrow> bool" where
  "IsIPAddressClaimedBy a claimer \<longleftrightarrow> iaref_UID (iaspec_ClaimRef (ia_Spec a)) = om_UID claimer"

definition IsNetworkIDClaimedBy :: "NetworkID \<Rightarrow> ObjectMeta \<Rightarrow> bool" where
  "IsNetworkIDClaimedBy n claimer \<longleftrightarrow> nidref_UID (nidspec_ClaimRef (nid_Spec n)) = om_UID claimer"

section \<open>Instance\<close>

type_synonym InstanceType = string
type_synonym LoadBalancerType = string
type_synonym NodeSelectorOperator = string

definition InstanceTypeLoadBalancer :: InstanceType where
  "InstanceTypeLoadBalancer = ''LoadBalancer''"
definition LoadBalancerTypePublic :: LoadBalancerType where
  "LoadBalancerTypePublic = ''Public''"
definition LoadBalancerTypeInternal :: LoadBalancerType where
  "LoadBalancerTypeInternal = ''Internal''"

definition NodeSelectorOpIn :: NodeSelectorOperator where "NodeSelectorOpIn = ''In''"
definition NodeSelectorOpNotIn :: NodeSelectorOperator where "NodeSelectorOpNotIn = ''NotIn''"
definition NodeSelectorOpExists :: NodeSelectorOperator where "NodeSelectorOpExists = ''Exists''"
definition NodeSelectorOpDoesNotExist :: NodeSelectorOperator where
  "NodeSelectorOpDoesNotExist = ''DoesNotExist''"
definition NodeSelectorOpGt :: NodeSelectorOperator where "NodeSelectorOpGt = ''Gt''"
definition NodeSelectorOpLt :: NodeSelectorOperator where "NodeSelectorOpLt = ''Lt''"

record NodeSelectorRequirement =
  nsr_Key :: string
  nsr_Operator :: NodeSelectorOperator
  nsr_Values :: "string list"

record NodeSelectorTerm =
  nst_MatchExpressions :: "NodeSelectorRequirement list"
  nst_MatchFields :: "NodeSelectorRequirement list"

record NodeSelector =
  ns_NodeSelectorTerms :: "NodeSelectorTerm list"

record NodeAffinity =
  na_Required :: "NodeSelector option"

record InstanceAffinityTerm =
  iat_LabelSelector :: "LabelSelector option"
  iat_TopologyKey :: string

record InstanceAntiAffinity =
  iaa_Required :: "InstanceAffinityTerm list"

record Affinity =
  aff_NodeAffinity :: "NodeAffinity option"
  aff_InstanceAntiAffinity :: "InstanceAntiAffinity option"

record TopologySpreadConstraint =
  tsc_MaxSkew :: int
  tsc_TopologyKey :: string
  tsc_WhenUnsatisfiable :: string
  tsc_LabelSelector :: "LabelSelector option"

record LoadBalancerPort =
  lbport_Protocol :: "string option"
  lbport_Port :: int
  lbport_EndPort :: "int option"

text \<open>A \<open>corev1.LocalObjectReference\<close> is the name it carries.\<close>

record InstanceSpec =
  is_Type :: InstanceType
  is_LoadBalancerType :: LoadBalancerType
  is_NetworkRef :: string
  is_IPs :: "net_IP list"
  is_LoadBalancerPorts :: "LoadBalancerPort list"
  is_Affinity :: "Affinity option"
  is_TopologySpreadConstraints :: "TopologySpreadConstraint list option"
  is_NodeRef :: "string option"

record InstanceStatus =
  ist_IPs :: "net_IP list"
  ist_CollisionCount :: "int option"

record Instance =
  inst_Meta :: ObjectMeta
  inst_Spec :: InstanceSpec
  inst_Status :: InstanceStatus

record InstanceTemplate =
  it_Meta :: ObjectMeta
  it_Spec :: InstanceSpec

section \<open>DaemonSet and LoadBalancer\<close>

record DaemonSetSpec =
  dss_Selector :: "LabelSelector option"
  dss_Template :: InstanceTemplate

record DaemonSetStatus =
  dst_CollisionCount :: "int option"

record DaemonSet =
  ds_Meta :: ObjectMeta
  ds_Spec :: DaemonSetSpec
  ds_Status :: DaemonSetStatus

record LoadBalancerIP =
  lbip_Name :: string
  lbip_IPFamily :: IPFamily
  lbip_IP :: net_IP

record LoadBalancerSpec =
  lbs_Type :: LoadBalancerType
  lbs_NetworkRef :: string
  lbs_IPs :: "LoadBalancerIP list"
  lbs_Ports :: "LoadBalancerPort list"
  lbs_Selector :: "LabelSelector option"
  lbs_Template :: InstanceTemplate

record LoadBalancerStatus =
  lbst_CollisionCount :: "int option"

record LoadBalancer =
  lb_Meta :: ObjectMeta
  lb_Spec :: LoadBalancerSpec
  lb_Status :: LoadBalancerStatus

definition LoadBalancerDaemonSetName :: "string \<Rightarrow> string" where
  "LoadBalancerDaemonSetName lbName = ''lb-'' @ lbName"

definition GetLoadBalancerIPs :: "LoadBalancer \<Rightarrow> net_IP list" where
  "GetLoadBalancerIPs lb = map lbip_IP (lbs_IPs (lb_Spec lb))"

record LoadBalancerTargetRef =
  lbt_UID :: string
  lbt_Name :: string
  lbt_NodeRef :: string

record LoadBalancerDestination =
  lbd_IP :: net_IP
  lbd_TargetRef :: "LoadBalancerTargetRef option"

record LoadBalancerRouting =
  lbr_Meta :: ObjectMeta
  lbr_Destinations :: "LoadBalancerDestination list"

section \<open>NATGateway, NATGatewayAutoscaler and NATTable\<close>

record NATGatewayIP =
  natip_Name :: string
  natip_IP :: net_IP

record NATGatewaySpec =
  ngs_IPFamily :: IPFamily
  ngs_NetworkRef :: string
  ngs_IPs :: "NATGatewayIP list"
  ngs_PortsPerNetworkInterface :: int

record NATGatewayStatus =
  ngst_UsedNATIPs :: int
  ngst_RequestedNATIPs :: int

record NATGateway =
  ng_Meta :: ObjectMeta
  ng_Spec :: NATGatewaySpec
  ng_Status :: NATGatewayStatus

definition GetNATGatewayIPs :: "NATGateway \<Rightarrow> net_IP list" where
  "GetNATGatewayIPs ng = map natip_IP (ngs_IPs (ng_Spec ng))"

record NATGatewayAutoscalerSpec =
  ngas_NATGatewayRef :: string
  ngas_MinPublicIPs :: "int option"
  ngas_MaxPublicIPs :: "int option"

record NATGatewayAutoscaler =
  nga_Meta :: ObjectMeta
  nga_Spec :: NATGatewayAutoscalerSpec

record NATTableIPTargetRef =
  ntref_UID :: string
  ntref_Name :: string
  ntref_NodeRef :: string

record NATIPSection =
  nsec_IP :: net_IP
  nsec_Port :: int
  nsec_EndPort :: int
  nsec_TargetRef :: "NATTableIPTargetRef option"

record NATIP =
  nat_IP :: net_IP
  nat_Sections :: "NATIPSection list"

record NATTable =
  nt_Meta :: ObjectMeta
  nt_IPs :: "NATIP list"

section \<open>NetworkInterface\<close>

record NetworkInterfaceNATClaimRef =
  nnref_Name :: string
  nnref_UID :: string

record NetworkInterfaceNAT =
  nnat_IPFamily :: IPFamily
  nnat_ClaimRef :: NetworkInterfaceNATClaimRef

record NetworkInterfacePublicIP =
  npub_Name :: string
  npub_IPFamily :: IPFamily
  npub_IP :: net_IP

record NetworkInterfaceSpec =
  nics_NodeRef :: string
  nics_NetworkRef :: string
  nics_IPs :: "net_IP list"
  nics_Prefixes :: "net_IPPrefix list"
  nics_NATs :: "NetworkInterfaceNAT list"
  nics_PublicIPs :: "NetworkInterfacePublicIP list"

type_synonym NetworkInterfaceState = string

definition NetworkInterfaceStateReady :: NetworkInterfaceState where
  "NetworkInterfaceStateReady = ''Ready''"
definition NetworkInterfaceStatePending :: NetworkInterfaceState where
  "NetworkInterfaceStatePending = ''Pending''"
definition NetworkInterfaceStateError :: NetworkInterfaceState where
  "NetworkInterfaceStateError = ''Error''"

record PCIAddress =
  pci_Domain :: string
  pci_Bus :: string
  pci_Slot :: string
  pci_Function :: string

record NetworkInterfaceStatus =
  nicst_State :: NetworkInterfaceState
  nicst_PCIAddress :: "PCIAddress option"
  nicst_Prefixes :: "net_IPPrefix list"
  nicst_PublicIPs :: "net_IP list"
  nicst_NATIPs :: "net_IP list"

record NetworkInterface =
  nic_Meta :: ObjectMeta
  nic_Spec :: NetworkInterfaceSpec
  nic_Status :: NetworkInterfaceStatus

fun nats_claimer :: "NetworkInterfaceNAT list \<Rightarrow> IPFamily \<Rightarrow> NetworkInterfaceNATClaimRef option" where
  "nats_claimer [] fam = None"
| "nats_claimer (n # ns) fam =
     (if nnat_IPFamily n = fam then Some (nnat_ClaimRef n) else nats_claimer ns fam)"

definition GetNetworkInterfaceNATClaimer ::
  "NetworkInterface \<Rightarrow> IPFamily \<Rightarrow> NetworkInterfaceNATClaimRef option" where
  "GetNetworkInterfaceNATClaimer nic fam = nats_claimer (nics_NATs (nic_Spec nic)) fam"

definition IsNetworkInterfaceNATClaimedBy :: "NetworkInterface \<Rightarrow> NATGateway \<Rightarrow> bool" where
  "IsNetworkInterfaceNATClaimedBy nic claimer =
     list_ex (\<lambda>nat. nnref_UID (nnat_ClaimRef nat) = om_UID (ng_Meta claimer)) (nics_NATs (nic_Spec nic))"

definition GetNetworkInterfacePublicIPs :: "NetworkInterface \<Rightarrow> net_IP list" where
  "GetNetworkInterfacePublicIPs nic = map npub_IP (nics_PublicIPs (nic_Spec nic))"

lemma nats_claimer_None: "nats_claimer ns fam = None \<longleftrightarrow> fam \<notin> nnat_IPFamily ` set ns"
  by (induction ns) auto

lemma nats_claimer_Some: "nats_claimer ns fam = Some c \<Longrightarrow>
  \<exists>n\<in>set ns. nnat_IPFamily n = fam \<and> nnat_ClaimRef n = c"
  by (induction ns) (auto split: if_splits)

lemma nats_claimer_append:
  "nats_claimer (xs @ ys) fam =
     (case nats_claimer xs fam of None \<Rightarrow> nats_claimer ys fam | Some c \<Rightarrow> Some c)"
  by (induction xs) auto

section \<open>Names of the internal version\<close>

type_synonym core_IP = IP
type_synonym core_IPAddress = IPAddress
type_synonym core_Network = Network
type_synonym core_NetworkID = NetworkID
type_synonym core_NATGateway = NATGateway
type_synonym core_NetworkInterface = NetworkInterface
type_synonym core_LoadBalancer = LoadBalancer
type_synonym core_Instance = Instance
type_synonym core_DaemonSet = DaemonSet
type_synonym core_NATGatewayAutoscaler = NATGatewayAutoscaler

end
