(* ===== verification/ApiStore.thy ===== *)
theory ApiStore
  imports ApiTypes "HOL-Library.AList"
begin

text \<open>
  The API server as the program sees it. The clients of \<open>client-go\<close> and of the controller
  runtime talk to a service that is not part of the repository, so every model that uses one
  takes a record of operations over an abstract cluster state as an argument. What the
  program relies on is stated in the locale \<open>resource_api\<close> (what a successful or failed call
  does to the stored objects) and its extension \<open>reliable_api\<close> (a call fails only for the
  documented reason). Both are interpreted on an in-memory store.
\<close>

section \<open>The client of one kind of resource\<close>

record ('s, 'o) resource_client =
  rc_get :: "'s \<Rightarrow> ObjectKey \<Rightarrow> 'o result"
  rc_list :: "'s \<Rightarrow> 'o list result"
  rc_create :: "'s \<Rightarrow> 'o \<Rightarrow> 's \<times> 'o result"
  rc_delete :: "'s \<Rightarrow> ObjectKey \<Rightarrow> 's \<times> go_error option"

definition cluster_key :: "string \<Rightarrow> ObjectKey" where
  "cluster_key name = \<lparr>key_Namespace = [], key_Name = name\<rparr>"

lemma cluster_key_inj [simp]: "cluster_key a = cluster_key b \<longleftrightarrow> a = b"
  by (simp add: cluster_key_def)

lemma meta_key_cluster [simp]: "meta_key (zero_meta\<lparr>om_Name := n\<rparr>) = cluster_key n"
  by (simp add: meta_key_def zero_meta_def cluster_key_def)

text \<open>
  \<open>objs\<close> reads the stored objects off the cluster state, \<open>mkey\<close> is the key of an object and
  \<open>spec\<close> the part of it that the server stores as it was sent.
\<close>

locale resource_api =
  fixes C :: "('s, 'o) resource_client"
    and objs :: "'s \<Rightarrow> ObjectKey \<rightharpoonup> 'o"
    and mkey :: "'o \<Rightarrow> ObjectKey"
    and spec :: "'o \<Rightarrow> 'p"
  assumes create_ok: "rc_create C s x = (s', Inr x') \<Longrightarrow>
      objs s (mkey x) = None \<and> objs s' = (objs s)(mkey x \<mapsto> x') \<and> mkey x' = mkey x \<and> spec x' = spec x"
    and create_err: "rc_create C s x = (s', Inl e) \<Longrightarrow> objs s' = objs s"
    and delete_ok: "rc_delete C s k = (s', None) \<Longrightarrow> objs s' = (objs s)(k := None)"
    and delete_err: "rc_delete C s k = (s', Some e) \<Longrightarrow> objs s' = objs s"
    and get_ok: "rc_get C s k = Inr x \<Longrightarrow> objs s k = Some x"
    and get_missing: "rc_get C s k = Inl e \<Longrightarrow> IsNotFound e \<Longrightarrow> objs s k = None"
    and list_ok: "rc_list C s = Inr xs \<Longrightarrow> set xs = ran (objs s)"
begin

lemma create_cases:
  obtains (ok) s' x' where "rc_create C s x = (s', Inr x')" "objs s (mkey x) = None"
      "objs s' = (objs s)(mkey x \<mapsto> x')" "spec x' = spec x"
  | (err) s' e where "rc_create C s x = (s', Inl e)" "objs s' = objs s"
proof (cases "rc_create C s x")
  case (Pair s' r)
  then show ?thesis using create_ok create_err ok err by (cases r) blast+
qed

text \<open>A delete leaves every other key alone, whether it succeeds or fails.\<close>

lemma delete_frame: "rc_delete C s k = (s', r) \<Longrightarrow> k' \<noteq> k \<Longrightarrow> objs s' k' = objs s k'"
  by (cases r) (auto dest: delete_ok delete_err)

end

text \<open>A server that is reachable and a reader that is not stale: calls fail only for the reason named.\<close>

locale reliable_api = resource_api +
  assumes create_free: "objs s (mkey x) = None \<Longrightarrow> \<exists>s' x'. rc_create C s x = (s', Inr x')"
    and create_taken: "objs s (mkey x) = Some y \<Longrightarrow> rc_create C s x = (s, Inl AlreadyExists)"
    and get_free: "objs s k = None \<Longrightarrow> rc_get C s k = Inl NotFound"
    and get_taken: "objs s k = Some x \<Longrightarrow> rc_get C s k = Inr x"
    and delete_taken: "objs s k = Some x \<Longrightarrow> snd (rc_delete C s k) = None"
    and list_total: "\<exists>xs. rc_list C s = Inr xs"

section \<open>An in-memory server\<close>

text \<open>
  A store with the semantics the laws describe: it shows that the laws can hold and lets
  concrete runs be evaluated.
\<close>

type_synonym 'o mem_store = "(ObjectKey \<times> 'o) list"

definition mem_client :: "('o \<Rightarrow> ObjectKey) \<Rightarrow> ('o mem_store, 'o) resource_client" where
  "mem_client mkey =
     \<lparr>rc_get = (\<lambda>s k. case map_of s k of None \<Rightarrow> Inl NotFound | Some x \<Rightarrow> Inr x),
      rc_list = (\<lambda>s. Inr (map snd (AList.clearjunk s))),
      rc_create = (\<lambda>s x. if map_of s (mkey x) = None then (AList.update (mkey x) x s, Inr x)
                         else (s, Inl AlreadyExists)),
      rc_delete = (\<lambda>s k. if map_of s k = None then (s, Some NotFound) else (AList.delete k s, None))\<rparr>"

interpretation mem: reliable_api "mem_client mkey" map_of mkey spec for mkey spec
  by unfold_locales
    (auto simp: mem_client_def update_conv' delete_conv' ran_map_of
      split: if_splits option.splits)

end
