(* ===== verification/Containers.thy ===== *)
theory Containers
  imports Prelude "HOL-Library.AList"
begin

text \<open>
  The containers of \<open>utils/container\<close> and \<open>utils/slots\<close>: the keyed slot table that backs the
  NAT port allocation, the slot set with a random strategy, the bidirectional map and the map
  with reverse indices; and the push iterators of \<open>utils/iterator\<close>. The bit set of the
  package \<open>bits-and-blooms/bitset\<close> is a record of operations whose documented behaviour is the
  locale \<open>bitset\<close>.
\<close>

section \<open>The bit set interface\<close>

record 'b bitset_ops =
  bs_new :: "nat \<Rightarrow> 'b"
  bs_len :: "'b \<Rightarrow> nat"
  bs_test :: "'b \<Rightarrow> nat \<Rightarrow> bool"
  bs_set :: "'b \<Rightarrow> nat \<Rightarrow> 'b"
  bs_clear :: "'b \<Rightarrow> nat \<Rightarrow> 'b"
  bs_clearAll :: "'b \<Rightarrow> 'b"
  bs_all :: "'b \<Rightarrow> bool"
  bs_nextClear :: "'b \<Rightarrow> nat \<Rightarrow> nat option"

section \<open>utils/container/slots.go\<close>

text \<open>
  A Go map is an association list without duplicate keys and a set a list; the order in which
  \<open>range\<close> visits a set is the argument \<open>ord\<close> of the functions that iterate. The counters are
  natural numbers: they are bounded by the number of slots.
\<close>

record ('k, 'b) KeySlots =
  slotsPerKey :: nat
  used :: nat
  slotsByKey :: "('k \<times> 'b) list"
  freeKeys :: "'k list"

fun add_keys :: "'b bitset_ops \<Rightarrow> nat \<Rightarrow> 'k list \<Rightarrow> ('k \<times> 'b) list \<times> 'k list \<Rightarrow> ('k \<times> 'b) list \<times> 'k list" where
  "add_keys B n [] acc = acc"
| "add_keys B n (key # keys) (m, fr) =
     (if map_of m key \<noteq> None then add_keys B n keys (m, fr)
      else add_keys B n keys (AList.update key (bs_new B n) m, List.insert key fr))"

definition NewKeySlots :: "'b bitset_ops \<Rightarrow> nat \<Rightarrow> 'k list \<Rightarrow> ('k, 'b) KeySlots" where
  "NewKeySlots B n keys =
     (let (m, fr) = add_keys B n keys ([], []) in
      \<lparr>slotsPerKey = n, used = 0, slotsByKey = m, freeKeys = fr\<rparr>)"

definition HasKey :: "('k, 'b) KeySlots \<Rightarrow> 'k \<Rightarrow> bool" where
  "HasKey s key \<longleftrightarrow> map_of (slotsByKey s) key \<noteq> None"

definition Keys :: "('k list \<Rightarrow> 'k list) \<Rightarrow> ('k, 'b) KeySlots \<Rightarrow> 'k list" where
  "Keys ord s = ord (map fst (slotsByKey s))"

text \<open>The receivers that check for nil take an optional table.\<close>

definition Total :: "('k, 'b) KeySlots option \<Rightarrow> nat" where
  "Total r = (case r of None \<Rightarrow> 0 | Some s \<Rightarrow> length (slotsByKey s) * slotsPerKey s)"

definition Used :: "('k, 'b) KeySlots option \<Rightarrow> nat" where
  "Used r = (case r of None \<Rightarrow> 0 | Some s \<Rightarrow> used s)"

definition Use :: "'b bitset_ops \<Rightarrow> ('k, 'b) KeySlots \<Rightarrow> 'k \<Rightarrow> nat \<Rightarrow> ('k, 'b) KeySlots \<times> bool" where
  "Use B s key slot =
     (if slot \<ge> slotsPerKey s then (s, False)
      else case map_of (slotsByKey s) key of
        None \<Rightarrow> (s, False)
      | Some slots \<Rightarrow>
          if bs_test B slots slot then (s, False)
          else let slots' = bs_set B slots slot in
               (s\<lparr>slotsByKey := AList.update key slots' (slotsByKey s), used := used s + 1,
                  freeKeys := (if bs_all B slots' then removeAll key (freeKeys s) else freeKeys s)\<rparr>, True))"

definition Use_nil :: "'b bitset_ops \<Rightarrow> ('k, 'b) KeySlots option \<Rightarrow> 'k \<Rightarrow> nat \<Rightarrow> ('k, 'b) KeySlots option \<times> bool" where
  "Use_nil B r key slot = (case r of None \<Rightarrow> (None, False) | Some s \<Rightarrow> map_prod Some id (Use B s key slot))"

text \<open>A key of the free set always has a bit set; the code would panic on a missing one.\<close>

fun first_clear :: "'b bitset_ops \<Rightarrow> ('k \<times> 'b) list \<Rightarrow> 'k list \<Rightarrow> ('k \<times> nat) option outcome" where
  "first_clear B m [] = Returns None"
| "first_clear B m (key # keys) =
     (case map_of m key of
        None \<Rightarrow> Panics
      | Some slots \<Rightarrow>
          (case bs_nextClear B slots 0 of
             Some slot \<Rightarrow> Returns (Some (key, slot))
           | None \<Rightarrow> first_clear B m keys))"

definition UseNextFree ::
  "'b bitset_ops \<Rightarrow> ('k list \<Rightarrow> 'k list) \<Rightarrow> ('k, 'b) KeySlots \<Rightarrow>
   (('k, 'b) KeySlots \<times> ('k \<times> nat) option) outcome" where
  "UseNextFree B ord s =
     (if freeKeys s = [] then Returns (s, None)
      else case first_clear B (slotsByKey s) (ord (freeKeys s)) of
        Panics \<Rightarrow> Panics
      | Returns None \<Rightarrow> Returns (s, None)
      | Returns (Some (key, slot)) \<Rightarrow> Returns (fst (Use B s key slot), Some (key, slot)))"

definition UseNextFree_nil ::
  "'b bitset_ops \<Rightarrow> ('k list \<Rightarrow> 'k list) \<Rightarrow> ('k, 'b) KeySlots option \<Rightarrow>
   (('k, 'b) KeySlots option \<times> ('k \<times> nat) option) outcome" where
  "UseNextFree_nil B ord r =
     (case r of
        None \<Rightarrow> Returns (None, None)
      | Some s \<Rightarrow> (case UseNextFree B ord s of Panics \<Rightarrow> Panics | Returns (s', x) \<Rightarrow> Returns (Some s', x)))"

section \<open>utils/slots/slots.go\<close>

record 'b Slots =
  sl_count :: int
  sl_set :: 'b
  sl_offset :: int

text \<open>The two draws of \<open>rand.Intn\<close> are arguments; \<open>rand.Intn\<close> panics on a bound that is not positive.\<close>

fun next_clear_from :: "'b bitset_ops \<Rightarrow> 'b \<Rightarrow> int \<Rightarrow> int \<Rightarrow> int \<Rightarrow> int list \<Rightarrow> int option" where
  "next_clear_from B b offset m start [] = None"
| "next_clear_from B b offset m start (i # is) =
     (let idx = offset + (start + i) mod m in
      if \<not> bs_test B b (nat idx) then Some idx else next_clear_from B b offset m start is)"

definition NextClear :: "'b bitset_ops \<Rightarrow> int \<Rightarrow> 'b \<Rightarrow> int \<Rightarrow> int \<Rightarrow> int option outcome" where
  "NextClear B offset b r1 r2 =
     (let subLen = int (bs_len B b) - offset in
      if subLen \<le> 0 then Panics
      else case next_clear_from B b offset subLen r1 [0..subLen - 1] of
        Some idx \<Rightarrow> Returns (Some idx)
      | None \<Rightarrow>
          if offset \<le> 0 then Panics
          else Returns (next_clear_from B b offset offset r2 [0..offset - 1]))"

definition slots_New :: "'b bitset_ops \<Rightarrow> int \<Rightarrow> int \<Rightarrow> 'b Slots outcome" where
  "slots_New B len offset =
     (if len < 0 then Panics
      else Returns \<lparr>sl_count = 0, sl_set = bs_new B (nat len), sl_offset = offset\<rparr>)"

definition slots_Reset :: "'b bitset_ops \<Rightarrow> 'b Slots \<Rightarrow> 'b Slots" where
  "slots_Reset B s = s\<lparr>sl_count := 0, sl_set := bs_clearAll B (sl_set s)\<rparr>"

definition slots_Allocate :: "'b bitset_ops \<Rightarrow> 'b Slots \<Rightarrow> int \<Rightarrow> 'b Slots \<times> bool result" where
  "slots_Allocate B s index =
     (if index < 0 \<or> index \<ge> int (bs_len B (sl_set s)) then (s, Inl (ErrMsg ''index out of range''))
      else if bs_test B (sl_set s) (nat index) then (s, Inr False)
      else (s\<lparr>sl_set := bs_set B (sl_set s) (nat index), sl_count := sl_count s + 1\<rparr>, Inr True))"

definition slots_AllocateNext :: "'b bitset_ops \<Rightarrow> 'b Slots \<Rightarrow> int \<Rightarrow> int \<Rightarrow> ('b Slots \<times> int option) outcome" where
  "slots_AllocateNext B s r1 r2 =
     (if sl_count s \<ge> int (bs_len B (sl_set s)) then Returns (s, None)
      else case NextClear B (sl_offset s) (sl_set s) r1 r2 of
        Panics \<Rightarrow> Panics
      | Returns None \<Rightarrow> Returns (s, None)
      | Returns (Some idx) \<Rightarrow>
          Returns (s\<lparr>sl_set := bs_set B (sl_set s) (nat idx), sl_count := sl_count s + 1\<rparr>, Some idx))"

definition slots_Release :: "'b bitset_ops \<Rightarrow> 'b Slots \<Rightarrow> int \<Rightarrow> 'b Slots" where
  "slots_Release B s index =
     (if index < 0 \<or> \<not> bs_test B (sl_set s) (nat index) then s
      else s\<lparr>sl_set := bs_clear B (sl_set s) (nat index), sl_count := sl_count s - 1\<rparr>)"

definition slots_Has :: "'b bitset_ops \<Rightarrow> 'b Slots \<Rightarrow> int \<Rightarrow> bool" where
  "slots_Has B s index = (if index < 0 then False else bs_test B (sl_set s) (nat index))"

definition slots_Free :: "'b bitset_ops \<Rightarrow> 'b Slots \<Rightarrow> int" where
  "slots_Free B s = int (bs_len B (sl_set s)) - sl_count s"

section \<open>utils/container/bimap.go and rmap.go\<close>

record ('k, 'v) BiMap =
  bm_forward :: "'k \<rightharpoonup> 'v"
  bm_inverse :: "'v \<rightharpoonup> 'k"

definition NewBiMap :: "('k, 'v) BiMap" where
  "NewBiMap = \<lparr>bm_forward = Map.empty, bm_inverse = Map.empty\<rparr>"

definition BiMap_Insert :: "('k, 'v) BiMap \<Rightarrow> 'k \<Rightarrow> 'v \<Rightarrow> ('k, 'v) BiMap" where
  "BiMap_Insert b k v = \<lparr>bm_forward = (bm_forward b)(k \<mapsto> v), bm_inverse = (bm_inverse b)(v \<mapsto> k)\<rparr>"

definition BiMap_Delete :: "('k, 'v) BiMap \<Rightarrow> 'k \<Rightarrow> ('k, 'v) BiMap" where
  "BiMap_Delete b k =
     (case bm_forward b k of
        None \<Rightarrow> b
      | Some v \<Rightarrow> \<lparr>bm_forward = (bm_forward b)(k := None), bm_inverse = (bm_inverse b)(v := None)\<rparr>)"

definition BiMap_Get :: "('k, 'v) BiMap \<Rightarrow> 'k \<Rightarrow> 'v option" where
  "BiMap_Get b k = bm_forward b k"

definition BiMap_Inverse :: "('k, 'v) BiMap \<Rightarrow> ('v, 'k) BiMap" where
  "BiMap_Inverse b = \<lparr>bm_forward = bm_inverse b, bm_inverse = bm_forward b\<rparr>"

type_synonym ('k, 'v) ReverseMapIndex = "'v \<rightharpoonup> 'k set"

definition rmi_Put :: "('k, 'v) ReverseMapIndex \<Rightarrow> 'k \<Rightarrow> 'v \<Rightarrow> ('k, 'v) ReverseMapIndex" where
  "rmi_Put r k v = r(v \<mapsto> insert k (case r v of None \<Rightarrow> {} | Some keys \<Rightarrow> keys))"

definition rmi_Delete :: "('k, 'v) ReverseMapIndex \<Rightarrow> 'k \<Rightarrow> 'v \<Rightarrow> ('k, 'v) ReverseMapIndex" where
  "rmi_Delete r k v =
     (let keys = (case r v of None \<Rightarrow> {} | Some keys \<Rightarrow> keys) - {k} in
      if keys = {} then r(v := None) else r(v \<mapsto> keys))"

definition rmi_Update :: "('k, 'v) ReverseMapIndex \<Rightarrow> 'k \<Rightarrow> 'v \<Rightarrow> 'v \<Rightarrow> ('k, 'v) ReverseMapIndex" where
  "rmi_Update r k old new = (if old = new then r else rmi_Put (rmi_Delete r k old) k new)"

definition rmi_Get :: "('k, 'v) ReverseMapIndex \<Rightarrow> 'v \<Rightarrow> 'k set" where
  "rmi_Get r v = (case r v of None \<Rightarrow> {} | Some keys \<Rightarrow> keys)"

text \<open>A map whose indices are reverse indices, as every use in the repository has.\<close>

record ('k, 'v) IndexingMap =
  im_entries :: "('k \<times> 'v) list"
  im_indices :: "('k, 'v) ReverseMapIndex list"

definition im_AddIndex :: "('k, 'v) IndexingMap \<Rightarrow> ('k, 'v) ReverseMapIndex list \<Rightarrow> ('k, 'v) IndexingMap" where
  "im_AddIndex r idx =
     r\<lparr>im_indices := im_indices r @
        map (\<lambda>i. foldl (\<lambda>i (k, v). rmi_Put i k v) i (im_entries r)) idx\<rparr>"

definition im_Put :: "('k, 'v) IndexingMap \<Rightarrow> 'k \<Rightarrow> 'v \<Rightarrow> ('k, 'v) IndexingMap" where
  "im_Put r k v =
     r\<lparr>im_entries := AList.update k v (im_entries r),
       im_indices := map (\<lambda>i. case map_of (im_entries r) k of
           Some oldV \<Rightarrow> rmi_Update i k oldV v
         | None \<Rightarrow> rmi_Put i k v) (im_indices r)\<rparr>"

definition im_Delete :: "('k, 'v) IndexingMap \<Rightarrow> 'k \<Rightarrow> ('k, 'v) IndexingMap" where
  "im_Delete r k =
     (case map_of (im_entries r) k of
        None \<Rightarrow> r
      | Some v \<Rightarrow> r\<lparr>im_indices := map (\<lambda>i. rmi_Delete i k v) (im_indices r)\<rparr>)"

definition im_Get :: "('k, 'v) IndexingMap \<Rightarrow> 'k \<Rightarrow> 'v option" where
  "im_Get r k = map_of (im_entries r) k"

section \<open>utils/iterator\<close>

text \<open>
  A push iterator calls \<open>yield\<close> for its elements until \<open>yield\<close> returns false; the variables
  \<open>yield\<close> captures are threaded through as a state. \<open>OfSliceRef\<close> yields references, which are
  positions of the slice here.
\<close>

type_synonym ('e, 's) push_iter = "('s \<Rightarrow> 'e \<Rightarrow> 's \<times> bool) \<Rightarrow> 's \<Rightarrow> 's \<times> bool"

fun OfSlice :: "'e list \<Rightarrow> ('e, 's) push_iter" where
  "OfSlice [] yield s = (s, True)"
| "OfSlice (e # es) yield s =
     (case yield s e of (s', False) \<Rightarrow> (s', False) | (s', True) \<Rightarrow> OfSlice es yield s')"

definition OfSliceRef :: "'e list \<Rightarrow> (nat, 's) push_iter" where
  "OfSliceRef es = OfSlice [0..<length es]"

definition iter_Map :: "('e, 's) push_iter \<Rightarrow> ('e \<Rightarrow> 'f) \<Rightarrow> ('f, 's) push_iter" where
  "iter_Map it f yield s = it (\<lambda>s e. yield s (f e)) s"

definition iter_Fold :: "('e, 'a) push_iter \<Rightarrow> 'a \<Rightarrow> ('a \<Rightarrow> 'e \<Rightarrow> 'a) \<Rightarrow> 'a" where
  "iter_Fold it acc f = fst (it (\<lambda>acc e. (f acc e, True)) acc)"

definition iter_Next :: "('e, 'e option) push_iter \<Rightarrow> 'e option" where
  "iter_Next it = fst (it (\<lambda>_ e. (Some e, False)) None)"

definition iter_Reduce :: "('e, 'e option) push_iter \<Rightarrow> ('e \<Rightarrow> 'e \<Rightarrow> 'e) \<Rightarrow> 'e option outcome" where
  "iter_Reduce it f =
     (case iter_Next it of
        None \<Rightarrow> Panics
      | Some acc \<Rightarrow> Returns (fst (it (\<lambda>acc e. (map_option (\<lambda>a. f a e) acc, True)) (Some acc))))"

fun iter_Concat :: "('e, 's) push_iter list \<Rightarrow> ('e, 's) push_iter" where
  "iter_Concat [] yield s = (s, True)"
| "iter_Concat (i # is) yield s =
     (case i yield s of (s', False) \<Rightarrow> (s', False) | (s', True) \<Rightarrow> iter_Concat is yield s')"

definition CollectSlice :: "('e, 'e list) push_iter \<Rightarrow> 'e list" where
  "CollectSlice it = fst (it (\<lambda>res e. (res @ [e], True)) [])"

section \<open>The abstraction of a slot table\<close>

text \<open>
  The abstraction of a slot table: the pairs of a key and a slot in use. Its invariant: one
  bit set of the table's width per key, exactly the keys with a clear bit are free (any key,
  when there are no slots), and the counter is the number of pairs in use.
\<close>

definition taken :: "'b bitset_ops \<Rightarrow> ('k, 'b) KeySlots \<Rightarrow> ('k \<times> nat) set" where
  "taken B s = {(k, i). \<exists>b. map_of (slotsByKey s) k = Some b \<and> bs_test B b i}"

definition ks_keys :: "('k, 'b) KeySlots \<Rightarrow> 'k set" where
  "ks_keys s = dom (map_of (slotsByKey s))"

definition ks_ok :: "'b bitset_ops \<Rightarrow> ('k, 'b) KeySlots \<Rightarrow> bool" where
  "ks_ok B s \<longleftrightarrow> distinct (map fst (slotsByKey s)) \<and>
     (\<forall>k b. map_of (slotsByKey s) k = Some b \<longrightarrow> bs_len B b = slotsPerKey s \<and>
        (\<not> bs_all B b \<longrightarrow> k \<in> set (freeKeys s)) \<and>
        (k \<in> set (freeKeys s) \<longrightarrow> slotsPerKey s \<noteq> 0 \<longrightarrow> \<not> bs_all B b)) \<and>
     set (freeKeys s) \<subseteq> ks_keys s \<and> used s = card (taken B s)"

section \<open>The documented behaviour of the bit set\<close>

locale bitset =
  fixes B :: "'b bitset_ops"
  assumes new_len: "bs_len B (bs_new B n) = n"
    and new_test: "\<not> bs_test B (bs_new B n) i"
    and test_len: "bs_test B b i \<Longrightarrow> i < bs_len B b"
    and set_len: "bs_len B (bs_set B b i) = max (bs_len B b) (Suc i)"
    and set_test: "bs_test B (bs_set B b i) j \<longleftrightarrow> j = i \<or> bs_test B b j"
    and clear_len: "bs_len B (bs_clear B b i) = bs_len B b"
    and clear_test: "bs_test B (bs_clear B b i) j \<longleftrightarrow> j \<noteq> i \<and> bs_test B b j"
    and clearAll_len: "bs_len B (bs_clearAll B b) = bs_len B b"
    and clearAll_test: "\<not> bs_test B (bs_clearAll B b) i"
    and all_iff: "bs_all B b \<longleftrightarrow> (\<forall>i<bs_len B b. bs_test B b i)"
    and nextClear_Some: "bs_nextClear B b i = Some j \<Longrightarrow> i \<le> j \<and> j < bs_len B b \<and> \<not> bs_test B b j"
    and nextClear_None: "bs_nextClear B b i = None \<Longrightarrow> i \<le> j \<Longrightarrow> j < bs_len B b \<Longrightarrow> bs_test B b j"
begin

lemmas bitset_laws = new_len new_test set_len set_test clear_len clear_test clearAll_len clearAll_test

definition bits :: "'b \<Rightarrow> nat set" where
  "bits b = {i. bs_test B b i}"

lemma mem_bits: "i \<in> bits b \<longleftrightarrow> bs_test B b i"
  by (simp add: bits_def)

lemma bits_subset: "bits b \<subseteq> {..<bs_len B b}"
  by (auto simp: bits_def test_len)

lemma finite_bits [simp]: "finite (bits b)"
  by (rule finite_subset [of _ "{..<bs_len B b}"]) (auto simp: bits_def test_len)

lemma ks_okD: "ks_ok B s \<Longrightarrow> map_of (slotsByKey s) k = Some b \<Longrightarrow> bs_len B b = slotsPerKey s"
  "ks_ok B s \<Longrightarrow> map_of (slotsByKey s) k = Some b \<Longrightarrow> k \<notin> set (freeKeys s) \<Longrightarrow> bs_all B b"
  unfolding ks_ok_def by blast+

lemma finite_taken [simp]: "finite (taken B s)"
proof -
  have "taken B s \<subseteq> (\<Union>k\<in>dom (map_of (slotsByKey s)). {k} \<times> bits (the (map_of (slotsByKey s) k)))"
    by (auto simp: taken_def bits_def)
  then show ?thesis by (rule finite_subset) (auto simp: finite_dom_map_of)
qed

lemma taken_bound: "ks_ok B s \<Longrightarrow> taken B s \<subseteq> ks_keys s \<times> {..<slotsPerKey s}"
  using test_len by (fastforce simp: taken_def ks_ok_def ks_keys_def)

lemma card_ks_keys: "ks_ok B s \<Longrightarrow> card (ks_keys s) = length (slotsByKey s)"
  by (simp add: ks_ok_def ks_keys_def dom_map_of_conv_image_fst distinct_card flip: set_map)

lemma used_le_total: "ks_ok B s \<Longrightarrow> used s \<le> Total (Some s)"
proof -
  assume ok: "ks_ok B s"
  have "card (taken B s) \<le> card (ks_keys s \<times> {..<slotsPerKey s})"
    by (rule card_mono [OF _ taken_bound [OF ok]]) (simp add: ks_keys_def finite_dom_map_of)
  then show ?thesis using ok card_ks_keys [OF ok] by (simp add: ks_ok_def Total_def card_cartesian_product)
qed

lemma add_keys_ok:
  assumes "distinct (map fst m)" "\<And>k b. map_of m k = Some b \<Longrightarrow> b = bs_new B n" "set fr = dom (map_of m)"
    and "add_keys B n keys (m, fr) = (m', fr')"
  shows "distinct (map fst m') \<and> (\<forall>k b. map_of m' k = Some b \<longrightarrow> b = bs_new B n) \<and>
    set fr' = dom (map_of m') \<and> dom (map_of m') = dom (map_of m) \<union> set keys"
  using assms
proof (induction keys arbitrary: m fr)
  case (Cons k keys)
  show ?case
  proof (cases "map_of m k = None")
    case True
    let ?m = "AList.update k (bs_new B n) m"
    have "add_keys B n keys (?m, List.insert k fr) = (m', fr')" using Cons.prems(4) True by simp
    moreover have "distinct (map fst ?m)" using Cons.prems(1) by (rule distinct_update)
    moreover have "b = bs_new B n" if "map_of ?m k' = Some b" for k' b
      using that Cons.prems(2) by (auto simp: update_conv' split: if_splits)
    moreover have d: "dom (map_of ?m) = insert k (dom (map_of m))" by (auto simp: update_conv')
    then have "set (List.insert k fr) = dom (map_of ?m)" using Cons.prems(3) by simp
    ultimately have "distinct (map fst m') \<and> (\<forall>k b. map_of m' k = Some b \<longrightarrow> b = bs_new B n) \<and>
        set fr' = dom (map_of m') \<and> dom (map_of m') = dom (map_of ?m) \<union> set keys"
      by (rule Cons.IH [rotated 3])
    then show ?thesis unfolding d by auto
  next
    case False
    then show ?thesis using Cons.prems Cons.IH [of m fr] by auto
  qed
qed auto

lemma NewKeySlots_ok: "ks_ok B (NewKeySlots B n keys)" "taken B (NewKeySlots B n keys) = {}"
  "ks_keys (NewKeySlots B n keys) = set keys" "slotsPerKey (NewKeySlots B n keys) = n"
proof -
  obtain m fr where a: "add_keys B n keys ([], []) = (m, fr)" by fastforce
  have *: "distinct (map fst m)" "\<And>k b. map_of m k = Some b \<Longrightarrow> b = bs_new B n"
    "set fr = dom (map_of m)" "dom (map_of m) = set keys"
    using add_keys_ok [OF _ _ _ a] by simp_all
  have new: "map_of m k = Some b \<Longrightarrow> b = bs_new B n \<and> k \<in> set keys \<and> k \<in> set fr" for k b
    using * by blast
  show t: "taken B (NewKeySlots B n keys) = {}"
    by (auto simp: taken_def NewKeySlots_def a new_test simp del: map_of_eq_Some_iff dest!: *(2))
  show "ks_ok B (NewKeySlots B n keys)"
    using * t by (auto simp: ks_ok_def NewKeySlots_def a new_len new_test ks_keys_def all_iff
        simp del: map_of_eq_Some_iff dest!: new)
  show "ks_keys (NewKeySlots B n keys) = set keys" using *(4) by (simp add: ks_keys_def NewKeySlots_def a)
  show "slotsPerKey (NewKeySlots B n keys) = n" by (simp add: NewKeySlots_def a)
qed

text \<open>\<open>Use\<close> implements the insertion into the set of pairs in use.\<close>

lemma Use_iff: "ks_ok B s \<Longrightarrow>
  snd (Use B s k i) \<longleftrightarrow> k \<in> ks_keys s \<and> i < slotsPerKey s \<and> (k, i) \<notin> taken B s"
  by (auto simp: Use_def taken_def ks_keys_def Let_def split: option.splits)

lemma Use_taken: "taken B (fst (Use B s k i)) = (if snd (Use B s k i) then insert (k, i) (taken B s) else taken B s)"
  by (auto simp: Use_def taken_def Let_def update_conv' set_test split: option.splits if_splits)

lemma Use_frame: "slotsPerKey (fst (Use B s k i)) = slotsPerKey s" "ks_keys (fst (Use B s k i)) = ks_keys s"
  by (auto simp: Use_def ks_keys_def Let_def update_conv' split: option.splits if_splits)

lemma Use_ok [invs]: assumes ok: "ks_ok B s" shows "ks_ok B (fst (Use B s k i))"
proof (cases "snd (Use B s k i)")
  case False
  then have "fst (Use B s k i) = s" by (auto simp: Use_def Let_def split: option.splits if_splits)
  with ok show ?thesis by simp
next
  case True
  then obtain b where b: "map_of (slotsByKey s) k = Some b" "i < slotsPerKey s" "\<not> bs_test B b i"
    by (auto simp: Use_def Let_def split: option.splits if_splits)
  let ?s = "fst (Use B s k i)" and ?b = "bs_set B b i"
  have s: "?s = s\<lparr>slotsByKey := AList.update k ?b (slotsByKey s), used := used s + 1,
      freeKeys := (if bs_all B ?b then removeAll k (freeKeys s) else freeKeys s)\<rparr>"
    using b by (simp add: Use_def Let_def)
  have len: "bs_len B b = slotsPerKey s" using ok b by (auto simp: ks_ok_def)
  have "(k, i) \<notin> taken B s" using b by (auto simp: taken_def)
  moreover have "taken B ?s = insert (k, i) (taken B s)" using Use_taken True by metis
  ultimately have u: "used ?s = card (taken B ?s)" using ok s by (simp add: ks_ok_def)
  have nall: "\<not> bs_all B b" using b len by (auto simp: all_iff)
  show ?thesis using ok b nall len u Use_frame(2) [of s k i]
    by (auto simp: ks_ok_def s update_conv' distinct_update set_len split: if_splits)
qed

lemma taken_full:
  assumes ok: "ks_ok B s" and free: "\<And>k i. k \<in> set (freeKeys s) \<Longrightarrow> i < slotsPerKey s \<Longrightarrow> (k, i) \<in> taken B s"
  shows "taken B s = ks_keys s \<times> {..<slotsPerKey s}"
proof (rule subset_antisym [OF taken_bound [OF ok]], clarsimp)
  fix k i assume "k \<in> ks_keys s" and i: "i < slotsPerKey s"
  then obtain b where b: "map_of (slotsByKey s) k = Some b" by (auto simp: ks_keys_def)
  show "(k, i) \<in> taken B s"
  proof (cases "k \<in> set (freeKeys s)")
    case False
    with ok b have "bs_all B b" "bs_len B b = slotsPerKey s" using ks_okD [OF ok b] by simp_all
    then show ?thesis using b i by (simp add: taken_def all_iff)
  qed (rule free [OF _ i])
qed

lemma first_clear_free:
  assumes "ks_ok B s" "set keys \<subseteq> ks_keys s"
  shows "\<exists>r. first_clear B (slotsByKey s) keys = Returns r \<and>
    (case r of Some (k, i) \<Rightarrow> k \<in> set keys \<and> i < slotsPerKey s \<and> (k, i) \<notin> taken B s
     | None \<Rightarrow> \<forall>k\<in>set keys. \<forall>i<slotsPerKey s. (k, i) \<in> taken B s)"
  using assms
proof (induction keys)
  case (Cons k keys)
  then obtain b where b: "map_of (slotsByKey s) k = Some b" by (auto simp: ks_keys_def)
  then have len: "bs_len B b = slotsPerKey s" using Cons.prems by (auto simp: ks_ok_def)
  show ?case
  proof (cases "bs_nextClear B b 0")
    case None
    then have "\<forall>i<slotsPerKey s. (k, i) \<in> taken B s"
      using nextClear_None [OF None] len b by (auto simp: taken_def)
    then show ?thesis using Cons None b by (fastforce split: option.splits)
  next
    case (Some i)
    then show ?thesis using nextClear_Some [OF Some] len b by (auto simp: taken_def)
  qed
qed simp

text \<open>\<open>UseNextFree\<close> finds a free slot whenever there is one.\<close>

lemma UseNextFree_spec:
  assumes ok: "ks_ok B s" and ord: "\<And>xs. set (ord xs) = set xs"
  shows "\<exists>s' r. UseNextFree B ord s = Returns (s', r) \<and> ks_ok B s' \<and>
    slotsPerKey s' = slotsPerKey s \<and> ks_keys s' = ks_keys s \<and>
    (case r of Some (k, i) \<Rightarrow> k \<in> ks_keys s \<and> i < slotsPerKey s \<and> (k, i) \<notin> taken B s \<and>
         taken B s' = insert (k, i) (taken B s)
     | None \<Rightarrow> s' = s \<and> taken B s = ks_keys s \<times> {..<slotsPerKey s})"
proof (cases "freeKeys s = []")
  case True
  have "taken B s = ks_keys s \<times> {..<slotsPerKey s}" using True by (intro taken_full [OF ok]) simp
  then show ?thesis using True ok by (simp add: UseNextFree_def)
next
  case False
  have sub: "set (ord (freeKeys s)) \<subseteq> ks_keys s" using ok ord by (simp add: ks_ok_def)
  obtain r where r: "first_clear B (slotsByKey s) (ord (freeKeys s)) = Returns r"
    and rc: "case r of Some (k, i) \<Rightarrow> k \<in> set (ord (freeKeys s)) \<and> i < slotsPerKey s \<and> (k, i) \<notin> taken B s
     | None \<Rightarrow> \<forall>k\<in>set (ord (freeKeys s)). \<forall>i<slotsPerKey s. (k, i) \<in> taken B s"
    using first_clear_free [OF ok sub] by auto
  show ?thesis
  proof (cases r)
    case None
    have "taken B s = ks_keys s \<times> {..<slotsPerKey s}" using rc None ord by (intro taken_full [OF ok]) auto
    then show ?thesis using None r False ok by (simp add: UseNextFree_def)
  next
    case (Some p)
    obtain k i where p: "p = (k, i)" by fastforce
    with rc Some have ki: "k \<in> ks_keys s" "i < slotsPerKey s" "(k, i) \<notin> taken B s" using sub by auto
    then have "snd (Use B s k i)" by (simp add: Use_iff [OF ok])
    then show ?thesis
      using Some p r False ki ok Use_taken [of s k i] by (simp add: UseNextFree_def Use_ok Use_frame)
  qed
qed

text \<open>The slot set: its counter is the number of set bits.\<close>

lemma card_bits: "card (bits b) \<le> bs_len B b"
  using card_mono [OF _ bits_subset] by fastforce

lemma bits_set: "bits (bs_set B b i) = insert i (bits b)"
  by (auto simp: bits_def set_test)

lemma bits_clear: "bits (bs_clear B b i) = bits b - {i}"
  by (auto simp: bits_def clear_test)

lemma slots_Allocate_count [invs]:
  assumes "sl_count s = int (card (bits (sl_set s)))" and "slots_Allocate B s index = (s', r)"
  shows "sl_count s' = int (card (bits (sl_set s'))) \<and> bs_len B (sl_set s') = bs_len B (sl_set s) \<and>
    (r = Inr True \<longleftrightarrow> 0 \<le> index \<and> index < int (bs_len B (sl_set s)) \<and> \<not> slots_Has B s index)"
  using assms by (auto simp: slots_Allocate_def slots_Has_def bits_set set_len mem_bits split: if_splits)

lemma slots_Release_count [invs]:
  assumes "sl_count s = int (card (bits (sl_set s)))"
  shows "sl_count (slots_Release B s index) = int (card (bits (sl_set (slots_Release B s index))))"
    and "slots_Has B (slots_Release B s index) j \<longleftrightarrow> j \<noteq> index \<and> slots_Has B s j"
proof -
  show "sl_count (slots_Release B s index) = int (card (bits (sl_set (slots_Release B s index))))"
  proof (cases "index < 0 \<or> \<not> bs_test B (sl_set s) (nat index)")
    case False
    then have "nat index \<in> bits (sl_set s)" by (simp add: bits_def)
    moreover from this have "0 < card (bits (sl_set s))" using card_gt_0_iff finite_bits by blast
    ultimately show ?thesis using assms False by (simp add: slots_Release_def bits_clear card_Diff_singleton)
  qed (use assms in \<open>auto simp: slots_Release_def\<close>)
  show "slots_Has B (slots_Release B s index) j \<longleftrightarrow> j \<noteq> index \<and> slots_Has B s j"
    by (auto simp: slots_Release_def slots_Has_def clear_test)
qed

lemma next_clear_from_Some:
  "next_clear_from B b off m st is = Some idx \<Longrightarrow>
   (\<exists>i\<in>set is. idx = off + (st + i) mod m) \<and> \<not> bs_test B b (nat idx)"
  by (induction "is") (auto simp: Let_def split: if_splits)

lemma next_clear_from_None:
  "next_clear_from B b off m st is = None \<longleftrightarrow> (\<forall>i\<in>set is. bs_test B b (nat (off + (st + i) mod m)))"
  by (induction "is") (auto simp: Let_def)

lemma residues_covered: "0 < (m::int) \<Longrightarrow> 0 \<le> j \<Longrightarrow> j < m \<Longrightarrow> \<exists>i\<in>{0..m - 1}. (st + i) mod m = j"
  by (rule bexI [of _ "(j - st) mod m"]) (auto simp: mod_add_right_eq)

text \<open>
  Without an offset the search covers every index, so it finds a clear bit unless all are
  set, and never reaches its second part.
\<close>

lemma NextClear_offset0:
  assumes "0 < bs_len B b" "\<exists>i<bs_len B b. \<not> bs_test B b i"
  shows "\<exists>idx. NextClear B 0 b r1 r2 = Returns (Some (int idx)) \<and> idx < bs_len B b \<and> \<not> bs_test B b idx"
proof -
  let ?m = "int (bs_len B b)"
  obtain i where i: "i < bs_len B b" "\<not> bs_test B b i" using assms(2) by blast
  then obtain k where k: "k \<in> {0..?m - 1}" "(r1 + k) mod ?m = int i"
    using residues_covered [of ?m "int i" r1] by auto
  then have "next_clear_from B b 0 ?m r1 [0..?m - 1] \<noteq> None"
    using i by (auto simp: next_clear_from_None intro!: bexI [of _ k])
  then obtain idx where idx: "next_clear_from B b 0 ?m r1 [0..?m - 1] = Some idx" by blast
  note * = next_clear_from_Some [OF idx]
  then have "0 \<le> idx" "idx < ?m" using assms(1) by auto
  then show ?thesis using * idx assms(1)
    by (intro exI [of _ "nat idx"]) (auto simp: NextClear_def Let_def)
qed

lemma slots_AllocateNext_offset0:
  assumes "sl_count s = int (card (bits (sl_set s)))" and off: "sl_offset s = 0"
  shows "\<exists>s' r. slots_AllocateNext B s r1 r2 = Returns (s', r) \<and>
    sl_count s' = int (card (bits (sl_set s'))) \<and> bs_len B (sl_set s') = bs_len B (sl_set s) \<and>
    (case r of
       Some idx \<Rightarrow> 0 \<le> idx \<and> idx < int (bs_len B (sl_set s)) \<and> \<not> slots_Has B s idx \<and>
         (\<forall>j. slots_Has B s' j \<longleftrightarrow> j = idx \<or> slots_Has B s j)
     | None \<Rightarrow> s' = s \<and> (\<forall>j. 0 \<le> j \<and> j < int (bs_len B (sl_set s)) \<longrightarrow> slots_Has B s j))"
proof (cases "sl_count s \<ge> int (bs_len B (sl_set s))")
  case True
  then have "bs_len B (sl_set s) \<le> card (bits (sl_set s))" using assms(1) by simp
  then have "bits (sl_set s) = {..<bs_len B (sl_set s)}"
    by (intro card_seteq bits_subset) auto
  then have "bs_test B (sl_set s) i \<longleftrightarrow> i < bs_len B (sl_set s)" for i
    using mem_bits [of i "sl_set s"] by simp
  then show ?thesis using True assms(1)
    by (simp add: slots_AllocateNext_def slots_Has_def nat_less_iff)
next
  case False
  let ?b = "sl_set s"
  have "\<exists>i<bs_len B ?b. \<not> bs_test B ?b i"
  proof (rule ccontr)
    assume "\<not> ?thesis"
    then have "{..<bs_len B ?b} \<subseteq> bits ?b" by (auto simp: bits_def)
    then have "bs_len B ?b \<le> card (bits ?b)" using card_mono [OF finite_bits, of "{..<bs_len B ?b}"] by simp
    then show False using False assms(1) by simp
  qed
  moreover from this have "0 < bs_len B ?b" by auto
  ultimately obtain idx where idx: "NextClear B 0 ?b r1 r2 = Returns (Some (int idx))" "idx < bs_len B ?b"
    "\<not> bs_test B ?b idx"
    using NextClear_offset0 by blast
  have "idx \<notin> bits ?b" using idx by (simp add: bits_def)
  then show ?thesis using False idx off assms(1)
    by (auto simp: slots_AllocateNext_def slots_Has_def set_test set_len bits_set)
qed

end

text \<open>The bit set as a list of booleans.\<close>

definition list_bitset :: "bool list bitset_ops" where
  "list_bitset =
     \<lparr>bs_new = (\<lambda>n. replicate n False),
      bs_len = length,
      bs_test = (\<lambda>b i. i < length b \<and> b ! i),
      bs_set = (\<lambda>b i. if i < length b then b[i := True] else b @ replicate (i - length b) False @ [True]),
      bs_clear = (\<lambda>b i. b[i := False]),
      bs_clearAll = (\<lambda>b. replicate (length b) False),
      bs_all = list_all id,
      bs_nextClear = (\<lambda>b i. find (\<lambda>j. \<not> b ! j) [i..<length b])\<rparr>"

lemma nth_clear: "b[i := False] ! j \<longleftrightarrow> j \<noteq> i \<and> b ! j" if "j < length b"
  using that by (cases "i = j") auto

lemma nth_set: "b[i := True] ! j \<longleftrightarrow> j = i \<or> b ! j" if "j < length b"
  using that by (cases "i = j") auto

interpretation list_bitset: bitset list_bitset
  by unfold_locales
    (auto simp: list_bitset_def nth_append nth_clear nth_set list_all_length find_Some_iff find_None_iff
      less_Suc_eq split: if_splits)

section \<open>The maps\<close>

definition bm_ok :: "('k, 'v) BiMap \<Rightarrow> bool" where
  "bm_ok b \<longleftrightarrow> (\<forall>k v. bm_forward b k = Some v \<longleftrightarrow> bm_inverse b v = Some k)"

lemma NewBiMap_ok [invs]: "bm_ok NewBiMap"
  by (simp add: bm_ok_def NewBiMap_def)

lemma BiMap_Insert_ok [invs]:
  "bm_ok b \<Longrightarrow> bm_forward b k = None \<Longrightarrow> bm_inverse b v = None \<Longrightarrow> bm_ok (BiMap_Insert b k v)"
  by (auto simp: bm_ok_def BiMap_Insert_def) (metis option.distinct(1))+

lemma BiMap_Delete_ok [invs]: "bm_ok b \<Longrightarrow> bm_ok (BiMap_Delete b k)"
  by (auto simp: bm_ok_def BiMap_Delete_def split: option.splits) (metis option.inject)+

lemma BiMap_Inverse_ok [invs]: "bm_ok b \<Longrightarrow> bm_ok (BiMap_Inverse b)"
  by (auto simp: bm_ok_def BiMap_Inverse_def)

definition index_ok :: "('k \<rightharpoonup> 'v) \<Rightarrow> ('k, 'v) ReverseMapIndex \<Rightarrow> bool" where
  "index_ok m i \<longleftrightarrow> (\<forall>v. rmi_Get i v = {k. m k = Some v})"

definition im_ok :: "('k, 'v) IndexingMap \<Rightarrow> bool" where
  "im_ok r \<longleftrightarrow> (\<forall>i\<in>set (im_indices r). index_ok (map_of (im_entries r)) i)"

lemma rmi_Get_Put: "rmi_Get (rmi_Put r k v) w = (if w = v then insert k (rmi_Get r v) else rmi_Get r w)"
  by (simp add: rmi_Get_def rmi_Put_def)

lemma rmi_Get_Delete: "rmi_Get (rmi_Delete r k v) w = (if w = v then rmi_Get r v - {k} else rmi_Get r w)"
  by (simp add: rmi_Get_def rmi_Delete_def Let_def)

lemma im_Put_ok [invs]: "im_ok r \<Longrightarrow> im_ok (im_Put r k v)"
  by (auto simp: im_ok_def im_Put_def index_ok_def update_conv' rmi_Update_def rmi_Get_Put rmi_Get_Delete
      split: option.splits if_splits)

lemma index_ok_foldl:
  assumes "distinct (map fst es)" "dom m \<inter> fst ` set es = {}" "index_ok m i"
  shows "index_ok (m ++ map_of es) (foldl (\<lambda>i (k, v). rmi_Put i k v) i es)"
  using assms
proof (induction es arbitrary: m i)
  case (Cons e es)
  obtain k v where e: "e = (k, v)" by fastforce
  have "index_ok (m(k \<mapsto> v)) (rmi_Put i k v)"
    using Cons.prems e by (auto simp: index_ok_def rmi_Get_Put domIff)
  moreover have "(m(k \<mapsto> v)) ++ map_of es = m ++ map_of (e # es)"
    using Cons.prems(1) e by (force simp: map_add_def fun_eq_iff split: option.splits dest: map_of_SomeD)
  moreover have "dom (m(k \<mapsto> v)) \<inter> fst ` set es = {}" "distinct (map fst es)"
    using Cons.prems e by auto
  ultimately have "index_ok (m ++ map_of (e # es)) (foldl (\<lambda>i (k, v). rmi_Put i k v) (rmi_Put i k v) es)"
    using Cons.IH [of "m(k \<mapsto> v)" "rmi_Put i k v"] by metis
  then show ?case using e by (simp only: foldl_Cons case_prod_conv)
qed simp

lemma im_AddIndex_ok [invs]:
  assumes "im_ok r" "distinct (map fst (im_entries r))" "\<forall>i\<in>set idx. \<forall>v. rmi_Get i v = {}"
  shows "im_ok (im_AddIndex r idx)"
  using assms index_ok_foldl [of "im_entries r" Map.empty]
  by (auto simp: im_ok_def im_AddIndex_def index_ok_def)

section \<open>The push iterators\<close>

locale push_iterator =
  fixes it :: "('e, 's) push_iter" and xs :: "'e list"
  assumes pushes: "it = OfSlice xs"
begin

lemma pushes_map: "iter_Map it f = OfSlice (map f xs)"
proof -
  have "OfSlice xs (\<lambda>s e. yield s (f e)) s = OfSlice (map f xs) yield s" for yield s
    by (induction xs arbitrary: s) (auto split: prod.splits bool.splits)
  then show ?thesis by (auto simp: pushes iter_Map_def fun_eq_iff)
qed

end

lemma OfSlice_append:
  "OfSlice (xs @ ys) yield s = (case OfSlice xs yield s of (s', False) \<Rightarrow> (s', False) | (s', True) \<Rightarrow> OfSlice ys yield s')"
  by (induction xs arbitrary: s) (auto split: prod.splits bool.splits)

lemma iter_Concat_OfSlice: "iter_Concat (map OfSlice xss) = OfSlice (concat xss)"
proof (intro ext)
  show "iter_Concat (map OfSlice xss) yield s = OfSlice (concat xss) yield s" for yield :: "'s \<Rightarrow> 'b \<Rightarrow> 's \<times> bool" and s
    by (induction xss arbitrary: s) (auto simp: OfSlice_append split: prod.splits bool.splits)
qed

lemma OfSlice_True: "OfSlice xs (\<lambda>s e. (f s e, True)) s = (foldl f s xs, True)"
  by (induction xs arbitrary: s) auto

lemma iter_Fold_OfSlice: "iter_Fold (OfSlice xs) acc f = foldl f acc xs"
  by (simp add: iter_Fold_def OfSlice_True)

lemma CollectSlice_OfSlice: "CollectSlice (OfSlice xs) = xs"
proof -
  have "foldl (\<lambda>res e. res @ [e]) acc xs = acc @ xs" for acc
    by (induction xs arbitrary: acc) auto
  then show ?thesis by (simp add: CollectSlice_def OfSlice_True)
qed

lemma iter_Next_OfSlice: "iter_Next (OfSlice xs) = (case xs of [] \<Rightarrow> None | x # _ \<Rightarrow> Some x)"
  by (cases xs) (auto simp: iter_Next_def)

interpretation slice_iter: push_iterator "OfSlice xs" xs for xs
  by unfold_locales (rule refl)

section \<open>Properties\<close>

text \<open>
  C18. The slot table implements a set of (key, slot) pairs: \<open>Use\<close> succeeds exactly on a known
  key and a free slot below the width, and inserts that pair; \<open>UseNextFree\<close>, whatever order the
  free keys are visited in, returns a free pair and inserts it, and reports that there is none
  only when every slot of every key is in use; the invariant is kept, and the counter is the
  number of pairs in use and never exceeds \<open>Total\<close>.
\<close>

theorem KeySlots_refines:
  assumes "bitset B" and "ks_ok B s" and "\<And>xs. set (ord xs) = set xs"
  shows "ks_ok B (fst (Use B s k i)) \<and>
    (snd (Use B s k i) \<longleftrightarrow> k \<in> ks_keys s \<and> i < slotsPerKey s \<and> (k, i) \<notin> taken B s) \<and>
    taken B (fst (Use B s k i)) = (if snd (Use B s k i) then insert (k, i) (taken B s) else taken B s) \<and>
    used s = card (taken B s) \<and> used s \<le> Total (Some s) \<and>
    (\<exists>s' r. UseNextFree B ord s = Returns (s', r) \<and> ks_ok B s' \<and>
       (case r of
          Some (k, i) \<Rightarrow> k \<in> ks_keys s \<and> i < slotsPerKey s \<and> (k, i) \<notin> taken B s \<and>
            taken B s' = insert (k, i) (taken B s)
        | None \<Rightarrow> s' = s \<and> taken B s = ks_keys s \<times> {..<slotsPerKey s}))"
proof (intro conjI)
  show "used s = card (taken B s)" using assms(2) by (simp add: ks_ok_def)
  obtain s' r where "UseNextFree B ord s = Returns (s', r)" "ks_ok B s'"
    "case r of Some (k, i) \<Rightarrow> k \<in> ks_keys s \<and> i < slotsPerKey s \<and> (k, i) \<notin> taken B s \<and>
            taken B s' = insert (k, i) (taken B s)
        | None \<Rightarrow> s' = s \<and> taken B s = ks_keys s \<times> {..<slotsPerKey s}"
    using bitset.UseNextFree_spec [OF assms] by (elim exE conjE) rule
  then show "\<exists>s' r. UseNextFree B ord s = Returns (s', r) \<and> ks_ok B s' \<and>
       (case r of
          Some (k, i) \<Rightarrow> k \<in> ks_keys s \<and> i < slotsPerKey s \<and> (k, i) \<notin> taken B s \<and>
            taken B s' = insert (k, i) (taken B s)
        | None \<Rightarrow> s' = s \<and> taken B s = ks_keys s \<times> {..<slotsPerKey s})"
    by (intro exI conjI)
qed (rule bitset.Use_ok [OF assms(1,2)] bitset.Use_iff [OF assms(1,2)] bitset.Use_taken [OF assms(1)]
    bitset.used_le_total [OF assms(1,2)])+

definition example_slots :: "(string, bool list) KeySlots" where
  "example_slots = NewKeySlots list_bitset 2 [''a'', ''b'', ''a'']"

theorem KeySlots_refines_witness:
  "ks_ok list_bitset (fst (Use list_bitset example_slots ''a'' 1)) \<and>
    (snd (Use list_bitset example_slots ''a'' 1) \<longleftrightarrow>
       ''a'' \<in> ks_keys example_slots \<and> 1 < slotsPerKey example_slots \<and> (''a'', 1) \<notin> taken list_bitset example_slots) \<and>
    (\<exists>s' r. UseNextFree list_bitset rev example_slots = Returns (s', r) \<and> ks_ok list_bitset s' \<and>
       (case r of
          Some (k, i) \<Rightarrow> k \<in> ks_keys example_slots \<and> i < slotsPerKey example_slots \<and>
            (k, i) \<notin> taken list_bitset example_slots \<and>
            taken list_bitset s' = insert (k, i) (taken list_bitset example_slots)
        | None \<Rightarrow> s' = example_slots \<and>
            taken list_bitset example_slots = ks_keys example_slots \<times> {..<slotsPerKey example_slots}))"
proof -
  have ok: "ks_ok list_bitset example_slots"
    by (simp add: example_slots_def list_bitset.NewKeySlots_ok)
  show ?thesis
    using KeySlots_refines [OF list_bitset.bitset_axioms ok, of rev "''a''" 1] by simp
qed

text \<open>
  With an offset the random strategy leaves its set: of three slots with offset 2, once
  slot 2 is taken, the next allocation returns the index 3, which is out of range, and grows
  the set, although the slots 0 and 1 are free.
\<close>

theorem slots_offset_out_of_range:
  "case slots_New list_bitset 3 2 of
     Panics \<Rightarrow> False
   | Returns s0 \<Rightarrow>
      (case slots_AllocateNext list_bitset s0 0 0 of
         Returns (s1, r1) \<Rightarrow>
           r1 = Some 2 \<and> \<not> slots_Has list_bitset s1 0 \<and>
           (case slots_AllocateNext list_bitset s1 0 0 of
              Returns (s2, r2) \<Rightarrow> r2 = Some 3 \<and> bs_len list_bitset (sl_set s2) = 4
            | Panics \<Rightarrow> False)
       | Panics \<Rightarrow> False)"
  by (simp add: slots_New_def slots_AllocateNext_def NextClear_def slots_Has_def list_bitset_def upto.simps
      numeral_eq_Suc Let_def)

text \<open>
  Without an offset the slot set is exact: allocating the next index never panics, returns
  a free index of the range and sets only that bit, and reports that there is none only when
  every index is taken; the counter stays the number of set bits.
\<close>

theorem slots_AllocateNext_exact:
  assumes "bitset B" and "sl_offset s = 0"
    and "sl_count s = int (card {i. bs_test B (sl_set s) i})"
  shows "\<exists>s' r. slots_AllocateNext B s r1 r2 = Returns (s', r) \<and>
    sl_count s' = int (card {i. bs_test B (sl_set s') i}) \<and> bs_len B (sl_set s') = bs_len B (sl_set s) \<and>
    (case r of
       Some idx \<Rightarrow> 0 \<le> idx \<and> idx < int (bs_len B (sl_set s)) \<and> \<not> slots_Has B s idx \<and>
         (\<forall>j. slots_Has B s' j \<longleftrightarrow> j = idx \<or> slots_Has B s j)
     | None \<Rightarrow> s' = s \<and> (\<forall>j. 0 \<le> j \<and> j < int (bs_len B (sl_set s)) \<longrightarrow> slots_Has B s j))"
  using bitset.slots_AllocateNext_offset0 [OF assms(1), unfolded bitset.bits_def [OF assms(1)], OF assms(3,2)]
  by blast

theorem slots_AllocateNext_exact_witness:
  "\<exists>s' r. slots_AllocateNext list_bitset \<lparr>sl_count = 1, sl_set = [True, False], sl_offset = 0\<rparr> 1 0 = Returns (s', r) \<and>
    sl_count s' = int (card {i. bs_test list_bitset (sl_set s') i})"
proof -
  have "{i. bs_test list_bitset [True, False] i} = {0}"
    by (auto simp: list_bitset_def less_Suc_eq)
  then show ?thesis
    using slots_AllocateNext_exact [OF list_bitset.bitset_axioms,
        of "\<lparr>sl_count = 1, sl_set = [True, False], sl_offset = 0\<rparr>" 1 0] by auto
qed

text \<open>
  Every reverse index of the indexing map stays exact under \<open>Put\<close>, but \<open>Delete\<close> only
  updates the indices: the entry stays in the map, so the index of a deleted key no longer
  mirrors it, and putting the same value again does not repair the index.
\<close>

theorem IndexingMap_Put_ok_Delete_not:
  "(im_ok r \<longrightarrow> im_ok (im_Put r k v) \<and> im_Get (im_Put r k v) k = Some v) \<and>
   (let m0 = \<lparr>im_entries = [], im_indices = [Map.empty]\<rparr>;
        m1 = im_Delete (im_Put m0 ''k'' ''v'') ''k'';
        m2 = im_Put m1 ''k'' ''v'' in
    im_Get m1 ''k'' = Some ''v'' \<and> \<not> im_ok m1 \<and> map (\<lambda>i. rmi_Get i ''v'') (im_indices m2) = [{}])"
proof (intro conjI impI)
  show "im_ok r \<Longrightarrow> im_ok (im_Put r k v)" by (rule im_Put_ok)
  show "im_Get (im_Put r k v) k = Some v" by (simp add: im_Get_def im_Put_def update_conv')
  show "let m0 = \<lparr>im_entries = [], im_indices = [Map.empty]\<rparr>;
        m1 = im_Delete (im_Put m0 ''k'' ''v'') ''k'';
        m2 = im_Put m1 ''k'' ''v'' in
    im_Get m1 ''k'' = Some ''v'' \<and> \<not> im_ok m1 \<and> map (\<lambda>i. rmi_Get i ''v'') (im_indices m2) = [{}]"
    by (simp add: im_Get_def im_Put_def im_Delete_def im_ok_def index_ok_def
        rmi_Update_def rmi_Get_def rmi_Put_def rmi_Delete_def Let_def)
qed

theorem IndexingMap_Put_ok_Delete_not_witness:
  "im_ok (im_Put (im_Put \<lparr>im_entries = [], im_indices = [Map.empty]\<rparr> ''k'' ''v'') ''k'' ''w'')"
proof -
  have "im_ok \<lparr>im_entries = [] :: (string \<times> string) list, im_indices = [Map.empty]\<rparr>"
    by (simp add: im_ok_def index_ok_def rmi_Get_def)
  then have "im_ok (im_Put \<lparr>im_entries = [], im_indices = [Map.empty]\<rparr> ''k'' ''v'')"
    using IndexingMap_Put_ok_Delete_not [of _ "''k''" "''v''"] by simp
  then show ?thesis using IndexingMap_Put_ok_Delete_not [of _ "''k''" "''w''"] by simp
qed

text \<open>
  The push iterators compute the list functions they are named after: collecting the map
  of a concatenation of slices is the mapped concatenation, and folding it is the left fold;
  an iterator yields no further element once \<open>yield\<close> has returned false.
\<close>

theorem push_iterators_correct:
  "CollectSlice (iter_Map (iter_Concat (map OfSlice xss)) f) = map f (concat xss) \<and>
   iter_Fold (iter_Map (iter_Concat (map OfSlice xss)) f) acc g = foldl g acc (map f (concat xss)) \<and>
   iter_Next (iter_Concat (map OfSlice xss)) = (case concat xss of [] \<Rightarrow> None | x # _ \<Rightarrow> Some x) \<and>
   iter_Concat (map OfSlice yss) (\<lambda>seen e. (seen @ [e], P e)) [] =
     (case dropWhile P (concat yss) of
        [] \<Rightarrow> (concat yss, True)
      | x # _ \<Rightarrow> (takeWhile P (concat yss) @ [x], False))"
proof -
  have "OfSlice ys (\<lambda>seen e. (seen @ [e], P e)) acc =
      (case dropWhile P ys of [] \<Rightarrow> (acc @ ys, True) | x # _ \<Rightarrow> (acc @ takeWhile P ys @ [x], False))" for ys acc
  proof (induction ys arbitrary: acc)
    case (Cons y ys)
    then show ?case by (cases "P y"; cases "dropWhile P ys") (simp_all del: dropWhile_eq_Nil_conv)
  qed simp
  then show ?thesis
    by (simp add: iter_Concat_OfSlice slice_iter.pushes_map CollectSlice_OfSlice iter_Fold_OfSlice
        iter_Next_OfSlice split: list.split del: dropWhile_eq_Nil_conv)
qed

end
