(* ===== verification/IPAllocators.thy ===== *)
theory IPAllocators
  imports ApiStore Containers
begin

text \<open>
  Claiming public IPs for objects that use them: the allocator of
  \<open>internal/registry/ipallocator/ipallocator.go\<close>, which claims existing \<open>IP\<close> objects or creates
  ephemeral ones, the transactions of \<open>allocators.go\<close>, and the hooks of the NAT gateway, network
  interface and load balancer storages that run them.
\<close>

section \<open>ipallocator.go\<close>

definition ip_ErrAllocated :: go_error where "ip_ErrAllocated = Sentinel ''provided IP is already allocated''"
definition ip_ErrNotFound :: go_error where "ip_ErrNotFound = Sentinel ''provided IP was not found''"

record ip_allocator =
  ipa_prefix :: prefix
  ipa_family :: IPFamily

text \<open>
  The client of the IPs, the informer's lister and its synced flag. The lister hands out
  pointers into the informer's cache; \<open>ipe_cacheSet\<close> is a write through such a pointer.
\<close>

record 's ip_env =
  ipe_synced :: "'s \<Rightarrow> bool"
  ipe_lister :: "'s \<Rightarrow> string \<Rightarrow> labels \<Rightarrow> IP list result"
  ipe_cacheSet :: "'s \<Rightarrow> IP \<Rightarrow> 's"
  ipe_listByIP :: "'s \<Rightarrow> string \<Rightarrow> string \<Rightarrow> IP list result"
  ipe_patch :: "'s \<Rightarrow> IP \<Rightarrow> IP \<Rightarrow> 's \<times> IP result"
  ipe_create :: "'s \<Rightarrow> IP \<Rightarrow> 's \<times> IP result"
  ipe_delete :: "'s \<Rightarrow> ObjectKey \<Rightarrow> 's \<times> go_error option"

definition ipa_New :: "prefix \<Rightarrow> ip_allocator" where
  "ipa_New prefix =
     \<lparr>ipa_prefix = prefix, ipa_family = (if Is6 (p_Addr prefix) then IPv6Protocol else IPv4Protocol)\<rparr>"

definition the_only_IP :: "IP list result \<Rightarrow> IP result" where
  "the_only_IP r =
     (case r of
        Inl err \<Rightarrow> Inl err
      | Inr ips \<Rightarrow>
          (case ips of
             [] \<Rightarrow> Inl ip_ErrNotFound
           | [ip] \<Rightarrow> Inr ip
           | _ \<Rightarrow> Inl (ErrMsg ''multiple IPs found for address'')))"

definition getIPFromLister :: "'s ip_env \<Rightarrow> ip_allocator \<Rightarrow> 's \<Rightarrow> string \<Rightarrow> addr \<Rightarrow> IP result" where
  "getIPFromLister E a s namespace addr =
     the_only_IP (ipe_lister E s namespace [(IPFamilyLabel, ipa_family a), (IPIPLabel, addr_String addr)])"

definition getIPFromClient :: "'s ip_env \<Rightarrow> 's \<Rightarrow> string \<Rightarrow> addr \<Rightarrow> IP result" where
  "getIPFromClient E s namespace addr = the_only_IP (ipe_listByIP E s namespace (addr_String addr))"

definition set_claim :: "IPClaimRef option \<Rightarrow> IP \<Rightarrow> IP" where
  "set_claim c ip = ip\<lparr>ip_Spec := (ip_Spec ip)\<lparr>ipspec_ClaimRef := c\<rparr>\<rparr>"

definition claimIP ::
  "'s ip_env \<Rightarrow> ip_allocator \<Rightarrow> 's \<Rightarrow> string \<Rightarrow> IPClaimRef \<Rightarrow> addr \<Rightarrow> 's \<times> go_error option" where
  "claimIP E a s namespace claimRef addr =
     (case getIPFromLister E a s namespace addr of
        Inl err \<Rightarrow> (s, Some err)
      | Inr ip \<Rightarrow>
          if ipspec_ClaimRef (ip_Spec ip) \<noteq> None then (s, Some ip_ErrAllocated)
          else let base = ip; ip' = set_claim (Some claimRef) ip; s1 = ipe_cacheSet E s ip' in
               case ipe_patch E s1 ip' base of
                 (s', Inr _) \<Rightarrow> (s', None)
               | (s', Inl err) \<Rightarrow>
                   (s', Some (if IsNotFound err then ip_ErrNotFound
                              else if IsConflict err then ip_ErrAllocated else err)))"

definition ipa_allocate ::
  "'s ip_env \<Rightarrow> ip_allocator \<Rightarrow> 's \<Rightarrow> string \<Rightarrow> IPClaimRef \<Rightarrow> addr \<Rightarrow> bool \<Rightarrow> 's \<times> go_error option" where
  "ipa_allocate E a s namespace claimRef ip dryRun =
     (if \<not> ipe_synced E s then (s, Some (ErrMsg ''allocator not ready''))
      else if \<not> IsValid ip then (s, Some (ErrMsg ''invalid IP''))
      else if dryRun then (s, None)
      else claimIP E a s namespace claimRef ip)"

definition ephemeral_IP :: "ip_allocator \<Rightarrow> string \<Rightarrow> IPClaimRef \<Rightarrow> string \<Rightarrow> string \<Rightarrow> IP" where
  "ephemeral_IP a namespace claimRef version kind =
     \<lparr>ip_Meta = zero_meta\<lparr>om_Namespace := namespace, om_GenerateName := ipref_Name claimRef @ ''-'',
        om_OwnerReferences := [\<lparr>or_APIVersion = ipref_Group claimRef @ ''/'' @ version, or_Kind = kind,
          or_Name = ipref_Name claimRef, or_UID = ipref_UID claimRef, or_Controller = Some True,
          or_BlockOwnerDeletion = Some True\<rparr>]\<rparr>,
      ip_Spec = \<lparr>ipspec_Type = IPTypePublic, ipspec_IPFamily = ipa_family a, ipspec_IP = ZeroAddr,
        ipspec_ClaimRef = None\<rparr>\<rparr>"

definition createEphemeralIP ::
  "'s ip_env \<Rightarrow> ip_allocator \<Rightarrow> 's \<Rightarrow> string \<Rightarrow> IPClaimRef \<Rightarrow> string \<Rightarrow> string \<Rightarrow> 's \<times> addr result" where
  "createEphemeralIP E a s namespace claimRef version kind =
     (case ipe_create E s (ephemeral_IP a namespace claimRef version kind) of
        (s', Inl err) \<Rightarrow> (s', Inl err)
      | (s', Inr ip) \<Rightarrow> (s', Inr (ipspec_IP (ip_Spec ip))))"

definition ipa_allocateNext ::
  "'s ip_env \<Rightarrow> ip_allocator \<Rightarrow> 's \<Rightarrow> string \<Rightarrow> IPClaimRef \<Rightarrow> string \<Rightarrow> string \<Rightarrow> bool \<Rightarrow> 's \<times> addr result" where
  "ipa_allocateNext E a s namespace claimRef version kind dryRun =
     (if \<not> ipe_synced E s then (s, Inl (ErrMsg ''allocator not ready''))
      else if dryRun then (s, Inr (p_Addr (Masked (ipa_prefix a))))
      else createEphemeralIP E a s namespace claimRef version kind)"

definition releaseIP :: "'s ip_env \<Rightarrow> 's \<Rightarrow> IP \<Rightarrow> 's \<times> go_error option" where
  "releaseIP E s ip =
     (case ipe_patch E s (set_claim None ip) ip of
        (s', Inl err) \<Rightarrow> (s', Some err)
      | (s', Inr _) \<Rightarrow> (s', None))"

definition ipa_release :: "'s ip_env \<Rightarrow> 's \<Rightarrow> string \<Rightarrow> addr \<Rightarrow> bool \<Rightarrow> 's \<times> go_error option" where
  "ipa_release E s namespace addr dryRun =
     (if \<not> ipe_synced E s then (s, Some (ErrMsg ''allocator not ready''))
      else if dryRun then (s, None)
      else case getIPFromClient E s namespace addr of
        Inl err \<Rightarrow> (s, None)
      | Inr ip \<Rightarrow>
          if GetControllerOf (ip_Meta ip) \<noteq> None
          then (fst (ipe_delete E s \<lparr>key_Namespace = namespace, key_Name = om_Name (ip_Meta ip)\<rparr>), None)
          else (fst (releaseIP E s ip), None))"

record 's ip_interface =
  ipi_IPFamily :: IPFamily
  AllocateIP :: "'s \<Rightarrow> string \<Rightarrow> IPClaimRef \<Rightarrow> addr \<Rightarrow> 's \<times> go_error option"
  AllocateNextIP :: "'s \<Rightarrow> string \<Rightarrow> IPClaimRef \<Rightarrow> string \<Rightarrow> string \<Rightarrow> 's \<times> addr result"
  ReleaseIP :: "'s \<Rightarrow> string \<Rightarrow> addr \<Rightarrow> 's \<times> go_error option"

definition ipa_iface :: "'s ip_env \<Rightarrow> ip_allocator \<Rightarrow> bool \<Rightarrow> 's ip_interface" where
  "ipa_iface E a dryRun =
     \<lparr>ipi_IPFamily = ipa_family a,
      AllocateIP = (\<lambda>s namespace claimRef ip. ipa_allocate E a s namespace claimRef ip dryRun),
      AllocateNextIP = (\<lambda>s namespace claimRef version kind. ipa_allocateNext E a s namespace claimRef version kind dryRun),
      ReleaseIP = (\<lambda>s namespace ip. ipa_release E s namespace ip dryRun)\<rparr>"

section \<open>allocators.go\<close>

record Request =
  req_IPFamily :: IPFamily
  req_Addr :: addr

text \<open>
  The accessor of a kind of object. The accessor of the code is a copy of the object that
  shares the slice of IPs with it, so \<open>SetIP\<close> writes the object.
\<close>

record 'o accessor =
  acc_Meta :: "'o \<Rightarrow> ObjectMeta"
  GetRequests :: "'o \<Rightarrow> Request list"
  SetIP :: "'o \<Rightarrow> nat \<Rightarrow> addr \<Rightarrow> 'o"

record ('s, 'o) Allocators =
  allocByFamily :: "IPFamily \<rightharpoonup> (bool \<Rightarrow> 's ip_interface)"
  al_Group :: string
  al_Version :: string
  al_kind :: string
  al_resource :: string
  al_acc :: "'o accessor"

definition NewAllocators ::
  "(IPFamily \<rightharpoonup> (bool \<Rightarrow> 's ip_interface)) \<Rightarrow> string \<Rightarrow> string \<Rightarrow> string \<Rightarrow> string \<Rightarrow> 'o accessor \<Rightarrow> ('s, 'o) Allocators" where
  "NewAllocators byFamily grp version kind resource acc =
     \<lparr>allocByFamily = byFamily, al_Group = grp, al_Version = version, al_kind = kind, al_resource = resource,
      al_acc = acc\<rparr>"

text \<open>The closure passed to the iterator captures the allocators found so far and the error.\<close>

definition request_yield ::
  "('s, 'o) Allocators \<Rightarrow> bool \<Rightarrow> (IPFamily \<times> 's ip_interface) list \<times> go_error option \<Rightarrow> Request \<Rightarrow>
   ((IPFamily \<times> 's ip_interface) list \<times> go_error option) \<times> bool" where
  "request_yield A dryRun st req =
     (case allocByFamily A (req_IPFamily req) of
        None \<Rightarrow> ((fst st, Some (ErrMsg ''no allocator for IPs of family'')), False)
      | Some alloc \<Rightarrow>
          let allocs = AList.update (req_IPFamily req) (alloc dryRun) (fst st) in
          ((allocs, snd st), length allocs \<noteq> 2))"

definition allocatorsForRequestIterator ::
  "('s, 'o) Allocators \<Rightarrow> (Request, (IPFamily \<times> 's ip_interface) list \<times> go_error option) push_iter \<Rightarrow> bool \<Rightarrow>
   (IPFamily \<times> 's ip_interface) list \<times> go_error option" where
  "allocatorsForRequestIterator A it dryRun = fst (it (request_yield A dryRun) ([], None))"

text \<open>A family without an allocator is a nil interface, whose methods panic.\<close>

fun releaseIPs ::
  "(IPFamily \<rightharpoonup> 's ip_interface) \<Rightarrow> 's \<Rightarrow> string \<Rightarrow> addr list \<Rightarrow> addr list \<Rightarrow> go_error list \<Rightarrow>
   ('s \<times> addr list \<times> go_error option) outcome" where
  "releaseIPs allocs s namespace [] released errs = Returns (s, released, errors_Join errs)"
| "releaseIPs allocs s namespace (ip # ips) released errs =
     (case allocs (IPFamilyForAddr ip) of
        None \<Rightarrow> Panics
      | Some alloc \<Rightarrow>
          (case ReleaseIP alloc s namespace ip of
             (s', Some err) \<Rightarrow> releaseIPs allocs s' namespace ips released (errs @ [err])
           | (s', None) \<Rightarrow> releaseIPs allocs s' namespace ips (released @ [ip]) errs))"

definition claim_ref_for :: "('s, 'o) Allocators \<Rightarrow> 'o \<Rightarrow> IPClaimRef" where
  "claim_ref_for A obj =
     \<lparr>ipref_Group = al_Group A, ipref_Resource = al_resource A, ipref_Name = om_Name (acc_Meta (al_acc A) obj),
      ipref_UID = om_UID (acc_Meta (al_acc A) obj)\<rparr>"

fun allocateIPs ::
  "('s, 'o) Allocators \<Rightarrow> (IPFamily \<rightharpoonup> 's ip_interface) \<Rightarrow> 's \<Rightarrow> 'o \<Rightarrow> Request list \<Rightarrow> addr list \<Rightarrow>
   ('s \<times> addr list \<times> go_error option) outcome" where
  "allocateIPs A allocs s obj [] allocated = Returns (s, allocated, None)"
| "allocateIPs A allocs s obj (req # reqs) allocated =
     (case allocs (req_IPFamily req) of
        None \<Rightarrow> Panics
      | Some alloc \<Rightarrow>
          let ns = om_Namespace (acc_Meta (al_acc A) obj); claimRef = claim_ref_for A obj in
          if IsValid (req_Addr req) then
            (case AllocateIP alloc s ns claimRef (req_Addr req) of
               (s', Some err) \<Rightarrow> Returns (s', allocated, Some err)
             | (s', None) \<Rightarrow> allocateIPs A allocs s' obj reqs (allocated @ [req_Addr req]))
          else
            (case AllocateNextIP alloc s ns claimRef (al_Version A) (al_kind A) of
               (s', Inl err) \<Rightarrow> Returns (s', allocated, Some err)
             | (s', Inr newAddr) \<Rightarrow> allocateIPs A allocs s' obj reqs (allocated @ [newAddr])))"

text \<open>A transaction is its commit and its revert function.\<close>

record 's transaction =
  Commit :: "'s \<Rightarrow> 's outcome"
  Revert :: "'s \<Rightarrow> 's outcome"

definition release_quiet :: "(IPFamily \<rightharpoonup> 's ip_interface) \<Rightarrow> string \<Rightarrow> addr list \<Rightarrow> 's \<Rightarrow> 's outcome" where
  "release_quiet allocs namespace ips s =
     (case releaseIPs allocs s namespace ips [] [] of Panics \<Rightarrow> Panics | Returns (s', _) \<Rightarrow> Returns s')"

definition set_ips :: "'o accessor \<Rightarrow> 'o \<Rightarrow> (nat \<times> addr) list \<Rightarrow> 'o" where
  "set_ips acc obj ias = foldl (\<lambda>obj (i, ip). SetIP acc obj i ip) obj ias"

definition AllocateCreate ::
  "('s, 'o) Allocators \<Rightarrow> 's \<Rightarrow> 'o \<Rightarrow> bool \<Rightarrow> ('s \<times> ('o \<times> 's transaction) result) outcome" where
  "AllocateCreate A s obj dryRun =
     (let reqs = GetRequests (al_acc A) obj;
          (allocs, err) = allocatorsForRequestIterator A (OfSlice reqs) dryRun in
      case err of
        Some e \<Rightarrow> Returns (s, Inl e)
      | None \<Rightarrow>
          (case allocateIPs A (map_of allocs) s obj reqs [] of
             Panics \<Rightarrow> Panics
           | Returns (s', allocated, Some e) \<Rightarrow> Returns (s', Inl e)
           | Returns (s', allocated, None) \<Rightarrow>
               Returns (s', Inr (set_ips (al_acc A) obj (enumerate 0 allocated),
                 \<lparr>Commit = Returns,
                  Revert = (\<lambda>s. if dryRun then Returns s
                     else release_quiet (map_of allocs) (om_Namespace (acc_Meta (al_acc A) obj)) allocated s)\<rparr>))))"

text \<open>
  The split of an update: the requests to allocate with the index they come from, and the old
  addresses that are left over. \<open>oldAddrs\<close> is the set of old addresses as a list.
\<close>

fun split_requests :: "nat \<Rightarrow> Request list \<Rightarrow> addr list \<Rightarrow> (nat \<times> Request) list \<times> addr list" where
  "split_requests i [] rel = ([], rel)"
| "split_requests i (r # rs) rel =
     (if req_Addr r \<in> set rel then split_requests (Suc i) rs (removeAll (req_Addr r) rel)
      else let (toAlloc, rel') = split_requests (Suc i) rs rel in ((i, r) # toAlloc, rel'))"

definition AllocateUpdate ::
  "(addr list \<Rightarrow> addr list) \<Rightarrow> ('s, 'o) Allocators \<Rightarrow> 's \<Rightarrow> 'o \<Rightarrow> 'o \<Rightarrow> bool \<Rightarrow>
   ('s \<times> ('o \<times> 's transaction) result) outcome" where
  "AllocateUpdate ord A s obj oldObj dryRun =
     (let newReqs = GetRequests (al_acc A) obj; oldReqs = GetRequests (al_acc A) oldObj;
          (allocs, err) = allocatorsForRequestIterator A (iter_Concat [OfSlice oldReqs, OfSlice newReqs]) dryRun in
      case err of
        Some e \<Rightarrow> Returns (s, Inl e)
      | None \<Rightarrow>
          let (toAllocate, toRelease) = split_requests 0 newReqs (remdups (map req_Addr oldReqs)) in
          (case allocateIPs A (map_of allocs) s obj (map snd toAllocate) [] of
             Panics \<Rightarrow> Panics
           | Returns (s', allocated, Some e) \<Rightarrow> Returns (s', Inl e)
           | Returns (s', allocated, None) \<Rightarrow>
               let rel = (\<lambda>s. if dryRun then Returns s
                     else release_quiet (map_of allocs) (om_Namespace (acc_Meta (al_acc A) obj)) (ord toRelease) s) in
               Returns (s', Inr (set_ips (al_acc A) obj (zip (map fst toAllocate) allocated),
                 \<lparr>Commit = rel, Revert = rel\<rparr>))))"

definition al_Release :: "('s, 'o) Allocators \<Rightarrow> 's \<Rightarrow> 'o \<Rightarrow> bool \<Rightarrow> 's outcome" where
  "al_Release A s obj dryRun =
     (if dryRun then Returns s
      else let reqs = GetRequests (al_acc A) obj;
               (allocs, err) = allocatorsForRequestIterator A (OfSlice reqs) False in
           if err \<noteq> None then Returns s
           else release_quiet (map_of allocs) (om_Namespace (acc_Meta (al_acc A) obj)) (map req_Addr reqs) s)"

section \<open>The storage hooks\<close>

text \<open>
  The accessors of NAT gateways, network interfaces and load balancers. \<open>SetIP\<close> panics in Go
  for an index out of range; the allocators only pass indices of requests.
\<close>

definition natGatewayIPAllocatorAccessor :: "core_NATGateway accessor" where
  "natGatewayIPAllocatorAccessor =
     \<lparr>acc_Meta = ng_Meta,
      GetRequests = (\<lambda>g. map (\<lambda>ip. \<lparr>req_IPFamily = ngs_IPFamily (ng_Spec g), req_Addr = natip_IP ip\<rparr>) (ngs_IPs (ng_Spec g))),
      SetIP = (\<lambda>g idx addr. g\<lparr>ng_Spec := (ng_Spec g)\<lparr>ngs_IPs :=
        (ngs_IPs (ng_Spec g))[idx := (ngs_IPs (ng_Spec g) ! idx)\<lparr>natip_IP := addr\<rparr>]\<rparr>\<rparr>)\<rparr>"

definition networkInterfaceIPAllocatorAccessor :: "core_NetworkInterface accessor" where
  "networkInterfaceIPAllocatorAccessor =
     \<lparr>acc_Meta = nic_Meta,
      GetRequests = (\<lambda>n. map (\<lambda>ip. \<lparr>req_IPFamily = npub_IPFamily ip, req_Addr = npub_IP ip\<rparr>) (nics_PublicIPs (nic_Spec n))),
      SetIP = (\<lambda>n idx addr. n\<lparr>nic_Spec := (nic_Spec n)\<lparr>nics_PublicIPs :=
        (nics_PublicIPs (nic_Spec n))[idx := (nics_PublicIPs (nic_Spec n) ! idx)\<lparr>npub_IP := addr\<rparr>]\<rparr>\<rparr>)\<rparr>"

definition loadBalancerIPAllocatorAccessor :: "core_LoadBalancer accessor" where
  "loadBalancerIPAllocatorAccessor =
     \<lparr>acc_Meta = lb_Meta,
      GetRequests = (\<lambda>l. map (\<lambda>ip. \<lparr>req_IPFamily = lbip_IPFamily ip, req_Addr = lbip_IP ip\<rparr>) (lbs_IPs (lb_Spec l))),
      SetIP = (\<lambda>l idx addr. l\<lparr>lb_Spec := (lb_Spec l)\<lparr>lbs_IPs :=
        (lbs_IPs (lb_Spec l))[idx := (lbs_IPs (lb_Spec l) ! idx)\<lparr>lbip_IP := addr\<rparr>]\<rparr>\<rparr>)\<rparr>"

text \<open>A finish function commits or reverts; a nil one does nothing.\<close>

definition finish :: "'s transaction \<Rightarrow> 's \<Rightarrow> bool \<Rightarrow> 's outcome" where
  "finish txn s success = (if success then Commit txn s else Revert txn s)"

definition natgateway_beginCreate ::
  "('s, core_NATGateway) Allocators \<Rightarrow> 's \<Rightarrow> core_NATGateway \<Rightarrow> bool \<Rightarrow>
   ('s \<times> (core_NATGateway \<times> 's transaction) result) outcome" where
  "natgateway_beginCreate A s g dryRun = AllocateCreate A s g dryRun"

definition natgateway_beginUpdate ::
  "(addr list \<Rightarrow> addr list) \<Rightarrow> ('s, core_NATGateway) Allocators \<Rightarrow> 's \<Rightarrow> core_NATGateway \<Rightarrow> core_NATGateway \<Rightarrow> bool \<Rightarrow>
   ('s \<times> (core_NATGateway \<times> 's transaction) result) outcome" where
  "natgateway_beginUpdate ord A s g old dryRun = AllocateUpdate ord A s g old dryRun"

definition natgateway_afterDelete :: "('s, core_NATGateway) Allocators \<Rightarrow> 's \<Rightarrow> core_NATGateway \<Rightarrow> bool \<Rightarrow> 's outcome" where
  "natgateway_afterDelete A s g dryRun = al_Release A s g dryRun"

definition networkinterface_beginCreate ::
  "('s, core_NetworkInterface) Allocators \<Rightarrow> 's \<Rightarrow> core_NetworkInterface \<Rightarrow> bool \<Rightarrow>
   ('s \<times> (core_NetworkInterface \<times> 's transaction) result) outcome" where
  "networkinterface_beginCreate A s n dryRun = AllocateCreate A s n dryRun"

definition networkinterface_beginUpdate ::
  "(addr list \<Rightarrow> addr list) \<Rightarrow> ('s, core_NetworkInterface) Allocators \<Rightarrow> 's \<Rightarrow> core_NetworkInterface \<Rightarrow>
   core_NetworkInterface \<Rightarrow> bool \<Rightarrow> ('s \<times> (core_NetworkInterface \<times> 's transaction) result) outcome" where
  "networkinterface_beginUpdate ord A s n old dryRun = AllocateUpdate ord A s n old dryRun"

definition networkinterface_afterDelete ::
  "('s, core_NetworkInterface) Allocators \<Rightarrow> 's \<Rightarrow> core_NetworkInterface \<Rightarrow> bool \<Rightarrow> 's outcome" where
  "networkinterface_afterDelete A s n dryRun = al_Release A s n dryRun"

text \<open>The load balancer's hooks only act on public load balancers; then there may be no transaction.\<close>

definition loadbalancer_beginCreate ::
  "('s, core_LoadBalancer) Allocators \<Rightarrow> 's \<Rightarrow> core_LoadBalancer \<Rightarrow> bool \<Rightarrow>
   ('s \<times> (core_LoadBalancer \<times> 's transaction option) result) outcome" where
  "loadbalancer_beginCreate A s l dryRun =
     (if lbs_Type (lb_Spec l) \<noteq> LoadBalancerTypePublic then Returns (s, Inr (l, None))
      else case AllocateCreate A s l dryRun of
        Panics \<Rightarrow> Panics
      | Returns (s', Inl e) \<Rightarrow> Returns (s', Inl e)
      | Returns (s', Inr (l', txn)) \<Rightarrow> Returns (s', Inr (l', Some txn)))"

definition loadbalancer_beginUpdate ::
  "(addr list \<Rightarrow> addr list) \<Rightarrow> ('s, core_LoadBalancer) Allocators \<Rightarrow> 's \<Rightarrow> core_LoadBalancer \<Rightarrow> core_LoadBalancer \<Rightarrow> bool \<Rightarrow>
   ('s \<times> (core_LoadBalancer \<times> 's transaction option) result) outcome" where
  "loadbalancer_beginUpdate ord A s l old dryRun =
     (if lbs_Type (lb_Spec l) \<noteq> LoadBalancerTypePublic then Returns (s, Inr (l, None))
      else case AllocateUpdate ord A s l old dryRun of
        Panics \<Rightarrow> Panics
      | Returns (s', Inl e) \<Rightarrow> Returns (s', Inl e)
      | Returns (s', Inr (l', txn)) \<Rightarrow> Returns (s', Inr (l', Some txn)))"

definition loadbalancer_afterDelete ::
  "('s, core_LoadBalancer) Allocators \<Rightarrow> 's \<Rightarrow> core_LoadBalancer \<Rightarrow> bool \<Rightarrow> 's outcome" where
  "loadbalancer_afterDelete A s l dryRun =
     (if lbs_Type (lb_Spec l) \<noteq> LoadBalancerTypePublic then Returns s else al_Release A s l dryRun)"

section \<open>The interface the transactions rely on\<close>

text \<open>\<open>s'\<close> differs from \<open>s\<close> in the addresses held in one namespace at most, where \<open>X\<close> are held now.\<close>

definition now_held :: "('s \<Rightarrow> string \<Rightarrow> string set) \<Rightarrow> 's \<Rightarrow> 's \<Rightarrow> string \<Rightarrow> string set \<Rightarrow> bool" where
  "now_held held s s' ns X \<longleftrightarrow> held s' ns = X \<and> (\<forall>n. n \<noteq> ns \<longrightarrow> held s' n = held s n)"

lemma now_held_same: "held s' = held s \<Longrightarrow> held s ns = X \<Longrightarrow> now_held held s s' ns X"
  by (simp add: now_held_def)

lemma now_held_trans: "now_held held s s1 ns X \<Longrightarrow> now_held held s1 s2 ns Y \<Longrightarrow> now_held held s s2 ns Y"
  by (simp add: now_held_def)

lemma now_heldD: "now_held held s s' ns X \<Longrightarrow> held s' ns = X"
  by (simp add: now_held_def)

text \<open>
  \<open>held s ns\<close> are the addresses in use in a namespace, in their textual form. An address that
  is asked for by name may already be held.
\<close>

locale ip_claims =
  fixes ifc :: "'s ip_interface"
    and fam :: IPFamily
    and held :: "'s \<Rightarrow> string \<Rightarrow> string set"
    and good :: "'s \<Rightarrow> bool"
  assumes alloc_ok: "good s \<Longrightarrow> AllocateIP ifc s ns c a = (s', None) \<Longrightarrow>
      good s' \<and> now_held held s s' ns (insert (addr_String a) (held s ns))"
    and alloc_err: "good s \<Longrightarrow> AllocateIP ifc s ns c a = (s', Some e) \<Longrightarrow> good s' \<and> held s' = held s"
    and next_ok: "good s \<Longrightarrow> AllocateNextIP ifc s ns c v k = (s', Inr a) \<Longrightarrow>
      good s' \<and> IPFamilyForAddr a = fam \<and> addr_String a \<notin> held s ns \<and>
      now_held held s s' ns (insert (addr_String a) (held s ns))"
    and next_err: "good s \<Longrightarrow> AllocateNextIP ifc s ns c v k = (s', Inl e) \<Longrightarrow> good s' \<and> held s' = held s"
    and release_ok: "good s \<Longrightarrow> ReleaseIP ifc s ns a = (s', r) \<Longrightarrow>
      r = None \<and> good s' \<and> now_held held s s' ns (held s ns - {addr_String a})"

text \<open>All allocators of a table provide the contract.\<close>

definition all_claims ::
  "(IPFamily \<rightharpoonup> 's ip_interface) \<Rightarrow> ('s \<Rightarrow> string \<Rightarrow> string set) \<Rightarrow> ('s \<Rightarrow> bool) \<Rightarrow> bool" where
  "all_claims allocs held good \<longleftrightarrow> (\<forall>fam ifc. allocs fam = Some ifc \<longrightarrow> ip_claims ifc fam held good)"

text \<open>Releasing a list of addresses whose families have an allocator.\<close>

lemma releaseIPs_held:
  assumes "all_claims allocs held good" "good s" "IPFamilyForAddr ` set ips \<subseteq> dom allocs"
  shows "\<exists>s'. releaseIPs allocs s ns ips released errs = Returns (s', released @ ips, errors_Join errs) \<and>
    good s' \<and> now_held held s s' ns (held s ns - addr_String ` set ips)"
  using assms(2,3)
proof (induction ips arbitrary: s released)
  case (Cons ip ips)
  then obtain alloc where alloc: "allocs (IPFamilyForAddr ip) = Some alloc" by auto
  then have c: "ip_claims alloc (IPFamilyForAddr ip) held good" using assms(1) by (simp add: all_claims_def)
  obtain s1 r where r: "ReleaseIP alloc s ns ip = (s1, r)" by fastforce
  note * = ip_claims.release_ok [OF c Cons.prems(1) r]
  then obtain s' where "releaseIPs allocs s1 ns ips (released @ [ip]) errs = Returns (s', (released @ [ip]) @ ips, errors_Join errs)"
    "good s'" "now_held held s1 s' ns (held s1 ns - addr_String ` set ips)"
    using Cons.IH [of s1 "released @ [ip]"] Cons.prems(2) by auto
  moreover have "held s1 ns - addr_String ` set ips = held s ns - addr_String ` set (ip # ips)"
    using * by (auto simp: now_held_def)
  ultimately show ?case using * alloc r now_held_trans [of held s s1 ns _ s'] by auto
qed (auto intro: now_held_same)

lemma release_quiet_held:
  assumes "all_claims allocs held good" "good s" "IPFamilyForAddr ` set ips \<subseteq> dom allocs"
  shows "\<exists>s'. release_quiet allocs ns ips s = Returns s' \<and> good s' \<and>
    now_held held s s' ns (held s ns - addr_String ` set ips)"
  using releaseIPs_held [OF assms, of ns "[]" "[]"] by (auto simp: release_quiet_def)

text \<open>The requests of an object are consistent: an address has the family it is requested for.\<close>

definition req_ok :: "Request \<Rightarrow> bool" where
  "req_ok r \<longleftrightarrow> req_IPFamily r \<in> {IPv4Protocol, IPv6Protocol} \<and>
     (IsValid (req_Addr r) \<longrightarrow> IPFamilyForAddr (req_Addr r) = req_IPFamily r)"

text \<open>An address answers a request: it has the family asked for, and is the address asked for, if any.\<close>

definition answers :: "Request \<Rightarrow> addr \<Rightarrow> bool" where
  "answers r a \<longleftrightarrow> IPFamilyForAddr a = req_IPFamily r \<and> (IsValid (req_Addr r) \<longrightarrow> a = req_Addr r)"

lemma allocateIPs_held:
  assumes "all_claims allocs held good" "good s" "\<forall>r\<in>set reqs. req_ok r \<and> req_IPFamily r \<in> dom allocs"
    and "allocateIPs A allocs s obj reqs acc = Returns (s', allocated, e)"
  shows "good s' \<and> (\<exists>new. allocated = acc @ new \<and>
      now_held held s s' (om_Namespace (acc_Meta (al_acc A) obj))
        (held s (om_Namespace (acc_Meta (al_acc A) obj)) \<union> addr_String ` set new) \<and>
      IPFamilyForAddr ` set new \<subseteq> dom allocs \<and>
      (e = None \<longrightarrow> list_all2 answers reqs new) \<and>
      ((\<forall>r\<in>set reqs. \<not> IsValid (req_Addr r)) \<longrightarrow>
         addr_String ` set new \<inter> held s (om_Namespace (acc_Meta (al_acc A) obj)) = {}))"
  using assms(2-4)
proof (induction reqs arbitrary: s acc)
  case (Cons r reqs)
  let ?ns = "om_Namespace (acc_Meta (al_acc A) obj)"
  obtain alloc where alloc: "allocs (req_IPFamily r) = Some alloc" using Cons.prems(2) by auto
  then have c: "ip_claims alloc (req_IPFamily r) held good" using assms(1) by (simp add: all_claims_def)
  have step: ?case
    if s1: "good s1" "now_held held s s1 ?ns (insert (addr_String a) (held s ?ns))"
      and a: "IPFamilyForAddr a = req_IPFamily r" "IsValid (req_Addr r) \<longrightarrow> a = req_Addr r"
        "\<not> IsValid (req_Addr r) \<longrightarrow> addr_String a \<notin> held s ?ns"
      and rest: "allocateIPs A allocs s1 obj reqs (acc @ [a]) = Returns (s', allocated, e)" for s1 a
  proof -
    have "\<forall>r\<in>set reqs. req_ok r \<and> req_IPFamily r \<in> dom allocs" using Cons.prems(2) by simp
    from Cons.IH [OF s1(1) this rest] obtain new where new: "good s'" "allocated = (acc @ [a]) @ new"
      "now_held held s1 s' ?ns (held s1 ?ns \<union> addr_String ` set new)" "IPFamilyForAddr ` set new \<subseteq> dom allocs"
      "e = None \<longrightarrow> list_all2 answers reqs new"
      "(\<forall>r\<in>set reqs. \<not> IsValid (req_Addr r)) \<longrightarrow> addr_String ` set new \<inter> held s1 ?ns = {}"
      by blast
    have "held s1 ?ns \<union> addr_String ` set new = held s ?ns \<union> addr_String ` set (a # new)"
      using now_heldD [OF s1(2)] by auto
    then have "now_held held s s' ?ns (held s ?ns \<union> addr_String ` set (a # new))"
      using now_held_trans [OF s1(2) new(3)] by simp
    moreover have "IPFamilyForAddr ` set (a # new) \<subseteq> dom allocs" using new(4) a(1) alloc by auto
    moreover have "e = None \<longrightarrow> list_all2 answers (r # reqs) (a # new)"
      using new(5) a(1,2) by (simp add: answers_def)
    moreover have "(\<forall>r\<in>set (r # reqs). \<not> IsValid (req_Addr r)) \<longrightarrow> addr_String ` set (a # new) \<inter> held s ?ns = {}"
      using new(6) a(3) now_heldD [OF s1(2)] by auto
    moreover have "allocated = acc @ (a # new)" using new(2) by simp
    ultimately show ?thesis using new(1) by blast
  qed
  have failed: ?case if "good s'" "held s' = held s" "allocated = acc" "e \<noteq> None"
    using that by (intro conjI exI [of _ "[]"]) (auto intro: now_held_same)
  show ?case
  proof (cases "IsValid (req_Addr r)")
    case True
    obtain s1 x where x: "AllocateIP alloc s ?ns (claim_ref_for A obj) (req_Addr r) = (s1, x)" by fastforce
    show ?thesis
    proof (cases x)
      case None
      then show ?thesis
        using step [of s1 "req_Addr r"] ip_claims.alloc_ok [OF c Cons.prems(1), of ?ns] x True alloc Cons.prems
        by (simp add: req_ok_def Let_def)
    next
      case (Some err)
      then have "s' = s1" "allocated = acc" "e = Some err"
        using x True alloc Cons.prems(3) by (simp_all add: Let_def)
      then show ?thesis using ip_claims.alloc_err [OF c Cons.prems(1)] x Some by (intro failed) simp_all
    qed
  next
    case False
    obtain s1 x where x: "AllocateNextIP alloc s ?ns (claim_ref_for A obj) (al_Version A) (al_kind A) = (s1, x)" by fastforce
    show ?thesis
    proof (cases x)
      case (Inr a)
      then show ?thesis
        using step [of s1 a] ip_claims.next_ok [OF c Cons.prems(1), of ?ns] x False alloc Cons.prems(3)
        by (simp add: Let_def)
    next
      case (Inl err)
      then have "s' = s1" "allocated = acc" "e = Some err"
        using x False alloc Cons.prems(3) by (simp_all add: Let_def)
      then show ?thesis using ip_claims.next_err [OF c Cons.prems(1)] x Inl by (intro failed) simp_all
    qed
  qed
qed (auto intro!: exI [of _ "[]"] now_held_same)

section \<open>The allocator over the server's laws\<close>

abbreviation ip_key :: "IP \<Rightarrow> ObjectKey" where
  "ip_key ip \<equiv> meta_key (ip_Meta ip)"

abbreviation ip_text :: "IP \<Rightarrow> string" where
  "ip_text ip \<equiv> addr_String (ipspec_IP (ip_Spec ip))"

abbreviation ip_claim :: "IP \<Rightarrow> IPClaimRef option" where
  "ip_claim ip \<equiv> ipspec_ClaimRef (ip_Spec ip)"

text \<open>An IP is in use when it is claimed or, being ephemeral, has a controller.\<close>

definition in_use :: "IP \<Rightarrow> bool" where
  "in_use ip \<longleftrightarrow> ip_claim ip \<noteq> None \<or> GetControllerOf (ip_Meta ip) \<noteq> None"

definition held_ips :: "('s \<Rightarrow> ObjectKey \<rightharpoonup> IP) \<Rightarrow> 's \<Rightarrow> string \<Rightarrow> string set" where
  "held_ips objs s ns = {t. \<exists>k ip. objs s k = Some ip \<and> key_Namespace k = ns \<and> in_use ip \<and> ip_text ip = t}"

lemma mem_held_ips:
  "t \<in> held_ips objs s ns \<longleftrightarrow> (\<exists>k ip. objs s k = Some ip \<and> key_Namespace k = ns \<and> in_use ip \<and> ip_text ip = t)"
  by (simp add: held_ips_def)

text \<open>
  The server that stores the IPs: it gives a created IP an address of the requested family
  that no stored IP has, and its readers are up to date. \<open>good\<close> are the states it can be in.
\<close>

locale ip_server =
  fixes E :: "'s ip_env" and objs :: "'s \<Rightarrow> ObjectKey \<rightharpoonup> IP" and good :: "'s \<Rightarrow> bool"
  assumes synced: "ipe_synced E s"
    and keyed: "good s \<Longrightarrow> objs s k = Some ip \<Longrightarrow> ip_key ip = k"
    and uniq: "good s \<Longrightarrow> objs s k = Some ip \<Longrightarrow> objs s k' = Some ip' \<Longrightarrow> ip_text ip = ip_text ip' \<Longrightarrow> k = k'"
    and lister_ok: "good s \<Longrightarrow> ipe_lister E s ns [(IPFamilyLabel, f), (IPIPLabel, t)] = Inr ips \<Longrightarrow> ip \<in> set ips \<Longrightarrow>
      \<exists>ip0. objs s (ip_key ip) = Some ip0 \<and> om_Namespace (ip_Meta ip) = ns \<and> ip_text ip0 = t"
    and cacheSet_ok: "good s \<Longrightarrow> good (ipe_cacheSet E s ip) \<and> objs (ipe_cacheSet E s ip) = objs s"
    and listByIP_ok: "good s \<Longrightarrow> \<exists>ips. ipe_listByIP E s ns t = Inr ips \<and> distinct ips \<and>
      set ips = {ip. \<exists>k. objs s k = Some ip \<and> key_Namespace k = ns \<and> ip_text ip = t}"
    and patch_ok: "good s \<Longrightarrow> ipe_patch E s (set_claim c x) x = (s', Inr y) \<Longrightarrow> good s' \<and>
      (\<exists>x0. objs s (ip_key x) = Some x0 \<and> objs s' = (objs s)(ip_key x \<mapsto> y) \<and> ip_text y = ip_text x0 \<and>
         om_OwnerReferences (ip_Meta y) = om_OwnerReferences (ip_Meta x0) \<and>
         ip_claim y = (if c = ip_claim x then ip_claim x0 else c))"
    and patch_err: "good s \<Longrightarrow> ipe_patch E s x b = (s', Inl e) \<Longrightarrow> good s' \<and> objs s' = objs s"
    and patch_total: "good s \<Longrightarrow> objs s (ip_key x) \<noteq> None \<Longrightarrow> \<exists>y. snd (ipe_patch E s x b) = Inr y"
    and create_ok: "good s \<Longrightarrow> ipe_create E s x = (s', Inr y) \<Longrightarrow> good s' \<and>
      key_Namespace (ip_key y) = om_Namespace (ip_Meta x) \<and> objs s (ip_key y) = None \<and>
      objs s' = (objs s)(ip_key y \<mapsto> y) \<and> om_OwnerReferences (ip_Meta y) = om_OwnerReferences (ip_Meta x) \<and>
      ip_claim y = ip_claim x \<and> IPFamilyForAddr (ipspec_IP (ip_Spec y)) = ipspec_IPFamily (ip_Spec x) \<and>
      (\<forall>k ip. objs s k = Some ip \<longrightarrow> ip_text ip \<noteq> ip_text y)"
    and create_err: "good s \<Longrightarrow> ipe_create E s x = (s', Inl e) \<Longrightarrow> good s' \<and> objs s' = objs s"
    and delete_ok: "good s \<Longrightarrow> objs s k \<noteq> None \<Longrightarrow>
      good (fst (ipe_delete E s k)) \<and> objs (fst (ipe_delete E s k)) = (objs s)(k := None)"
begin

lemma held_cong: "objs s' = objs s \<Longrightarrow> held_ips objs s' = held_ips objs s"
  by (simp add: held_ips_def fun_eq_iff)

lemma held_put:
  assumes g: "good s" "good s'" and o: "objs s' = (objs s)(k \<mapsto> y)" "key_Namespace k = ns"
    and old: "\<And>x0. objs s k = Some x0 \<Longrightarrow> ip_text x0 = ip_text y"
  shows "now_held (held_ips objs) s s' ns (if in_use y
     then insert (ip_text y) (held_ips objs s ns) else held_ips objs s ns - {ip_text y})"
proof -
  have other: "ip_text ip \<noteq> ip_text y" if "objs s k' = Some ip" "k' \<noteq> k" for k' ip
    using uniq [OF g(2), of k' ip k y] o(1) that by auto
  have "held_ips objs s' n = held_ips objs s n" if "n \<noteq> ns" for n
    unfolding set_eq_iff mem_held_ips using that o by (metis fun_upd_other)
  moreover have "t \<in> held_ips objs s' ns \<longleftrightarrow> t \<in> held_ips objs s ns" if t: "t \<noteq> ip_text y" for t
    unfolding mem_held_ips using o old t by (metis fun_upd_other fun_upd_same option.inject)
  moreover have "ip_text y \<in> held_ips objs s' ns \<longleftrightarrow> in_use y"
    unfolding mem_held_ips using o other by (metis fun_upd_other fun_upd_same option.inject)
  ultimately have "x \<in> held_ips objs s' ns \<longleftrightarrow> x \<in> (if in_use y
     then insert (ip_text y) (held_ips objs s ns) else held_ips objs s ns - {ip_text y})" for x
    by (cases "x = ip_text y") auto
  then show ?thesis using \<open>\<And>n. n \<noteq> ns \<Longrightarrow> held_ips objs s' n = held_ips objs s n\<close>
    by (simp add: now_held_def set_eq_iff)
qed

lemma uniq_ip: "good s \<Longrightarrow> objs s k = Some ip \<Longrightarrow> objs s k' = Some ip' \<Longrightarrow> ip_text ip = ip_text ip' \<Longrightarrow> ip = ip'"
  using uniq by (metis option.inject)

lemma lister_found:
  assumes "good s" "getIPFromLister E a s ns addr = Inr ip"
  shows "\<exists>ip0. objs s (ip_key ip) = Some ip0 \<and> om_Namespace (ip_Meta ip) = ns \<and> ip_text ip0 = addr_String addr"
  using assms lister_ok [OF assms(1), of ns "ipa_family a" "addr_String addr"]
  by (auto simp: getIPFromLister_def the_only_IP_def split: sum.splits list.splits)

lemma claimIP_held:
  assumes g: "good s" and c: "claimIP E a s ns ref addr = (s', r)"
  shows "good s' \<and> (if r = None then now_held (held_ips objs) s s' ns (insert (addr_String addr) (held_ips objs s ns))
     else held_ips objs s' = held_ips objs s)"
proof (cases "getIPFromLister E a s ns addr")
  case (Inl e)
  then show ?thesis using c g by (auto simp: claimIP_def)
next
  case (Inr ip)
  show ?thesis
  proof (cases "ip_claim ip")
    case (Some x)
    then show ?thesis using c g Inr by (auto simp: claimIP_def)
  next
    case None
    let ?s1 = "ipe_cacheSet E s (set_claim (Some ref) ip)"
    have g1: "good ?s1" and o1: "objs ?s1 = objs s" using cacheSet_ok [OF g] by auto
    obtain ip0 where ip0: "objs s (ip_key ip) = Some ip0" "om_Namespace (ip_Meta ip) = ns" "ip_text ip0 = addr_String addr"
      using lister_found [OF g Inr] by blast
    obtain t x where p: "ipe_patch E ?s1 (set_claim (Some ref) ip) ip = (t, x)" by fastforce
    show ?thesis
    proof (cases x)
      case (Inl e)
      then show ?thesis using patch_err [OF g1, of _ ip] p c \<open>getIPFromLister E a s ns addr = Inr ip\<close> None o1
        by (auto simp: claimIP_def Let_def intro: held_cong)
    next
      case (Inr y)
      then have r: "s' = t" "r = None"
        using p c \<open>getIPFromLister E a s ns addr = Inr ip\<close> None by (auto simp: claimIP_def Let_def)
      have y: "good t" "objs t = (objs s)(ip_key ip \<mapsto> y)" "ip_text y = ip_text ip0" "ip_claim y = Some ref"
        using patch_ok [OF g1, of "Some ref" ip t y] p Inr ip0 None o1 by auto
      have "now_held (held_ips objs) s t ns (insert (addr_String addr) (held_ips objs s ns))"
        using held_put [OF g y(1,2), of ns] y ip0 by (simp add: in_use_def meta_key_def)
      then show ?thesis using r y(1) by simp
    qed
  qed
qed

lemma ipa_allocateNext_held:
  assumes g: "good s" and c: "ipa_allocateNext E a s ns ref v k False = (s', r)"
  shows "good s' \<and> (case r of Inr addr \<Rightarrow> IPFamilyForAddr addr = ipa_family a \<and> addr_String addr \<notin> held_ips objs s ns \<and>
        now_held (held_ips objs) s s' ns (insert (addr_String addr) (held_ips objs s ns))
     | Inl e \<Rightarrow> held_ips objs s' = held_ips objs s)"
proof -
  let ?x = "ephemeral_IP a ns ref v k"
  obtain t x where p: "ipe_create E s ?x = (t, x)" by fastforce
  show ?thesis
  proof (cases x)
    case (Inl e)
    then show ?thesis using create_err [OF g p [unfolded Inl]] p c synced
      by (auto simp: ipa_allocateNext_def createEphemeralIP_def intro: held_cong)
  next
    case (Inr y)
    then have r: "s' = t" "r = Inr (ipspec_IP (ip_Spec y))"
      using p c synced by (auto simp: ipa_allocateNext_def createEphemeralIP_def)
    note y = create_ok [OF g p [unfolded Inr]]
    have "in_use y" using y by (simp add: in_use_def GetControllerOf_def ephemeral_IP_def)
    moreover have "ip_text y \<notin> held_ips objs s ns" unfolding mem_held_ips using y by blast
    ultimately show ?thesis
      using y r held_put [OF g, of t "ip_key y" y ns] by (simp add: ephemeral_IP_def)
  qed
qed

lemma client_lookup:
  assumes "good s"
  shows "getIPFromClient E s ns addr =
    (if \<exists>k ip. objs s k = Some ip \<and> key_Namespace k = ns \<and> ip_text ip = addr_String addr
     then Inr (THE ip. \<exists>k. objs s k = Some ip \<and> key_Namespace k = ns \<and> ip_text ip = addr_String addr)
     else Inl ip_ErrNotFound)"
proof -
  let ?P = "\<lambda>ip. \<exists>k. objs s k = Some ip \<and> key_Namespace k = ns \<and> ip_text ip = addr_String addr"
  obtain ips where ips: "ipe_listByIP E s ns (addr_String addr) = Inr ips" "distinct ips" "set ips = {ip. ?P ip}"
    using listByIP_ok [OF assms] by blast
  have one: "ip = ip'" if "?P ip" "?P ip'" for ip ip'
    using that uniq [OF assms] by (metis option.inject)
  show ?thesis
  proof (cases ips)
    case Nil
    then show ?thesis using ips by (auto simp: getIPFromClient_def the_only_IP_def)
  next
    case (Cons ip rest)
    then have P: "?P ip" using ips(3) by auto
    have "rest = []"
    proof (rule ccontr)
      assume "rest \<noteq> []"
      then obtain ip' where "ip' \<in> set rest" by (cases rest) auto
      then have "?P ip'" "ip' \<noteq> ip" using Cons ips(2,3) by auto
      then show False using one [OF P] by blast
    qed
    moreover have "(THE ip. ?P ip) = ip" using P one by (intro the_equality) blast+
    moreover have "\<exists>k ip. objs s k = Some ip \<and> key_Namespace k = ns \<and> ip_text ip = addr_String addr" using P by blast
    ultimately show ?thesis using Cons ips(1) by (simp add: getIPFromClient_def the_only_IP_def)
  qed
qed

lemma ipa_release_held:
  assumes g: "good s" and c: "ipa_release E s ns addr False = (s', r)"
  shows "r = None \<and> good s' \<and> now_held (held_ips objs) s s' ns (held_ips objs s ns - {addr_String addr})"
proof (cases "\<exists>k ip. objs s k = Some ip \<and> key_Namespace k = ns \<and> ip_text ip = addr_String addr")
  case False
  then have "addr_String addr \<notin> held_ips objs s ns" unfolding mem_held_ips by blast
  moreover have "s' = s \<and> r = None"
    using c synced client_lookup [OF g, of ns addr] False by (simp add: ipa_release_def)
  ultimately show ?thesis using g by (simp add: now_held_def)
next
  case True
  then obtain k ip where ip: "objs s k = Some ip" "key_Namespace k = ns" "ip_text ip = addr_String addr" by blast
  have key: "ip_key ip = k" using keyed [OF g ip(1)] .
  have "(THE ip. \<exists>k. objs s k = Some ip \<and> key_Namespace k = ns \<and> ip_text ip = addr_String addr) = ip"
  proof (rule the_equality)
    show "\<exists>k. objs s k = Some ip \<and> key_Namespace k = ns \<and> ip_text ip = addr_String addr" using ip by blast
    show "ip' = ip" if "\<exists>k. objs s k = Some ip' \<and> key_Namespace k = ns \<and> ip_text ip' = addr_String addr" for ip'
      using that uniq_ip [OF g ip(1)] ip(3) by auto
  qed
  then have get: "getIPFromClient E s ns addr = Inr ip" using client_lookup [OF g, of ns addr] True by simp
  show ?thesis
  proof (cases "GetControllerOf (ip_Meta ip)")
    case (Some o)
    have k: "\<lparr>key_Namespace = ns, key_Name = om_Name (ip_Meta ip)\<rparr> = k"
      using key ip(2) by (auto simp: meta_key_def)
    then have s': "s' = fst (ipe_delete E s k)" "r = None"
      using c synced get Some by (auto simp: ipa_release_def)
    have d: "good s'" "objs s' = (objs s)(k := None)" using delete_ok [OF g, of k] ip(1) s' by auto
    have "held_ips objs s' n = held_ips objs s n" if "n \<noteq> ns" for n
      unfolding set_eq_iff mem_held_ips using that d(2) ip by (metis fun_upd_apply option.distinct(1))
    moreover have "t \<in> held_ips objs s' ns \<longleftrightarrow> t \<in> held_ips objs s ns \<and> t \<noteq> addr_String addr" for t
      unfolding mem_held_ips using d(2) ip uniq [OF g ip(1)] by (metis fun_upd_apply option.distinct(1) option.inject)
    ultimately show ?thesis using d s' by (auto simp: now_held_def)
  next
    case None
    obtain t x where p: "ipe_patch E s (set_claim None ip) ip = (t, x)" by fastforce
    have s': "s' = t" "r = None"
      using c synced get None p by (auto simp: ipa_release_def releaseIP_def split: sum.splits)
    have "ip_key (set_claim None ip) = k" using key by (simp add: set_claim_def)
    then obtain y where y: "x = Inr y" using patch_total [OF g, of "set_claim None ip" ip] ip(1) p by auto
    obtain x0 where x0: "good t" "objs s k = Some x0" "objs t = (objs s)(k \<mapsto> y)" "ip_text y = ip_text x0"
      "om_OwnerReferences (ip_Meta y) = om_OwnerReferences (ip_Meta x0)"
      "ip_claim y = (if None = ip_claim ip then ip_claim x0 else None)"
      using patch_ok [OF g p [unfolded y]] key by auto
    then have "\<not> in_use y" "ip_text y = addr_String addr"
      using ip None by (auto simp: in_use_def GetControllerOf_def)
    then show ?thesis using held_put [OF g x0(1,3) ip(2)] x0 s' by auto
  qed
qed

lemma ipa_contract: "ip_claims (ipa_iface E a False) (ipa_family a) (held_ips objs) good"
proof
  fix s s' ns c addr e v k r
  assume g: "good s"
  show "AllocateIP (ipa_iface E a False) s ns c addr = (s', None) \<Longrightarrow>
      good s' \<and> now_held (held_ips objs) s s' ns (insert (addr_String addr) (held_ips objs s ns))"
    using claimIP_held [OF g, of a ns c addr s' None] synced
    by (auto simp: ipa_iface_def ipa_allocate_def split: if_splits)
  show "AllocateIP (ipa_iface E a False) s ns c addr = (s', Some e) \<Longrightarrow> good s' \<and> held_ips objs s' = held_ips objs s"
    using claimIP_held [OF g, of a ns c addr s' "Some e"] synced g
    by (auto simp: ipa_iface_def ipa_allocate_def split: if_splits)
  show "AllocateNextIP (ipa_iface E a False) s ns c v k = (s', Inr addr) \<Longrightarrow>
      good s' \<and> IPFamilyForAddr addr = ipa_family a \<and> addr_String addr \<notin> held_ips objs s ns \<and>
      now_held (held_ips objs) s s' ns (insert (addr_String addr) (held_ips objs s ns))"
    using ipa_allocateNext_held [OF g, of a ns c v k s' "Inr addr"] by (simp add: ipa_iface_def)
  show "AllocateNextIP (ipa_iface E a False) s ns c v k = (s', Inl e) \<Longrightarrow> good s' \<and> held_ips objs s' = held_ips objs s"
    using ipa_allocateNext_held [OF g, of a ns c v k s' "Inl e"] by (simp add: ipa_iface_def)
  show "ReleaseIP (ipa_iface E a False) s ns addr = (s', r) \<Longrightarrow>
      r = None \<and> good s' \<and> now_held (held_ips objs) s s' ns (held_ips objs s ns - {addr_String addr})"
    using ipa_release_held [OF g, of ns addr s' r] by (simp add: ipa_iface_def)
qed

end

sublocale ip_server \<subseteq> ip_claims "ipa_iface E a False" "ipa_family a" "held_ips objs" good for a
  by (rule ipa_contract)

section \<open>The accessors\<close>

locale ip_accessor =
  fixes acc :: "'o accessor"
  assumes set_meta: "acc_Meta acc (SetIP acc obj i a) = acc_Meta acc obj"
    and set_requests: "i < length (GetRequests acc obj) \<Longrightarrow>
      GetRequests acc (SetIP acc obj i a) = (GetRequests acc obj)[i := (GetRequests acc obj ! i)\<lparr>req_Addr := a\<rparr>]"
begin

text \<open>Setting the addresses of some requests sets exactly those.\<close>

lemma set_ips_length:
  "\<forall>(i, a)\<in>set ias. i < length (GetRequests acc obj) \<Longrightarrow>
   length (GetRequests acc (set_ips acc obj ias)) = length (GetRequests acc obj)"
proof (induction ias arbitrary: obj)
  case (Cons p ias)
  then show ?case by (cases p) (auto simp: set_ips_def set_requests)
qed (simp add: set_ips_def)

lemma set_ips_frame:
  "\<forall>(i, a)\<in>set ias. i < length (GetRequests acc obj) \<Longrightarrow>
   acc_Meta acc (set_ips acc obj ias) = acc_Meta acc obj \<and>
   map req_IPFamily (GetRequests acc (set_ips acc obj ias)) = map req_IPFamily (GetRequests acc obj)"
proof (induction ias arbitrary: obj)
  case (Cons p ias)
  obtain i a where p: "p = (i, a)" by fastforce
  have "map req_IPFamily (GetRequests acc (SetIP acc obj i a)) = map req_IPFamily (GetRequests acc obj)"
    using Cons.prems p by (simp add: set_requests map_update list_update_same_conv)
  then show ?case using Cons p by (auto simp: set_ips_def set_requests set_meta)
qed (simp add: set_ips_def)

lemma set_ips_addr:
  assumes "\<forall>(i, a)\<in>set ias. i < length (GetRequests acc obj)" "distinct (map fst ias)" "j < length (GetRequests acc obj)"
  shows "req_Addr (GetRequests acc (set_ips acc obj ias) ! j) =
    (case map_of ias j of Some a \<Rightarrow> a | None \<Rightarrow> req_Addr (GetRequests acc obj ! j))"
  using assms
proof (induction ias arbitrary: obj)
  case (Cons p ias)
  obtain i a where p: "p = (i, a)" by fastforce
  let ?o = "SetIP acc obj i a"
  have i: "i < length (GetRequests acc obj)" "map_of ias i = None" using Cons.prems p by (auto simp: map_of_eq_None_iff)
  have r: "GetRequests acc ?o = (GetRequests acc obj)[i := (GetRequests acc obj ! i)\<lparr>req_Addr := a\<rparr>]"
    using set_requests [OF i(1)] .
  have "req_Addr (GetRequests acc (set_ips acc ?o ias) ! j) =
      (case map_of ias j of Some a \<Rightarrow> a | None \<Rightarrow> req_Addr (GetRequests acc ?o ! j))"
    using Cons.prems by (intro Cons.IH) (auto simp: r p)
  moreover have "set_ips acc obj (p # ias) = set_ips acc ?o ias" by (simp add: set_ips_def p)
  ultimately show ?case using i p Cons.prems(3) by (cases "j = i") (simp_all add: r split: option.split)
qed (simp add: set_ips_def)

lemma set_ips_enumerate:
  assumes "length as = length (GetRequests acc obj)"
  shows "map req_Addr (GetRequests acc (set_ips acc obj (enumerate 0 as))) = as"
proof (rule nth_equalityI)
  have b: "\<forall>(i, a)\<in>set (enumerate 0 as). i < length (GetRequests acc obj)"
    using assms by (auto simp: in_set_enumerate_eq)
  show len: "length (map req_Addr (GetRequests acc (set_ips acc obj (enumerate 0 as)))) = length as"
    using set_ips_length [OF b] assms by simp
  fix i
  assume "i < length (map req_Addr (GetRequests acc (set_ips acc obj (enumerate 0 as))))"
  then have i: "i < length as" using len by simp
  have "map_of (enumerate 0 as) i = Some (as ! i)"
    using i by (simp add: map_of_eq_Some_iff in_set_enumerate_eq)
  then show "map req_Addr (GetRequests acc (set_ips acc obj (enumerate 0 as))) ! i = as ! i"
    using set_ips_addr [OF b, of i] i assms set_ips_length [OF b] by simp
qed

end

interpretation nat_acc: ip_accessor natGatewayIPAllocatorAccessor
  by unfold_locales
    (simp_all add: natGatewayIPAllocatorAccessor_def map_update list_eq_iff_nth_eq nth_list_update split: if_splits)

interpretation nic_acc: ip_accessor networkInterfaceIPAllocatorAccessor
  by unfold_locales
    (simp_all add: networkInterfaceIPAllocatorAccessor_def map_update split: if_splits)

interpretation lb_acc: ip_accessor loadBalancerIPAllocatorAccessor
  by unfold_locales
    (simp_all add: loadBalancerIPAllocatorAccessor_def map_update split: if_splits)

section \<open>The allocators of a request list\<close>

definition tab_ok :: "('s, 'o) Allocators \<Rightarrow> bool \<Rightarrow> (IPFamily \<times> 's ip_interface) list \<Rightarrow> bool" where
  "tab_ok A dry allocs \<longleftrightarrow> distinct (map fst allocs) \<and> fst ` set allocs \<subseteq> {IPv4Protocol, IPv6Protocol} \<and>
     (\<forall>fam ifc. map_of allocs fam = Some ifc \<longrightarrow> (\<exists>al. allocByFamily A fam = Some al \<and> ifc = al dry))"

lemma tab_ok_full:
  assumes "tab_ok A dry allocs" "length allocs = 2" "fam \<in> {IPv4Protocol, IPv6Protocol}"
  shows "fam \<in> dom (map_of allocs)"
proof -
  have "card (fst ` set allocs) = 2"
    using assms(1,2) distinct_card [of "map fst allocs"] by (simp add: tab_ok_def)
  moreover have "card {IPv4Protocol, IPv6Protocol} = 2" by (simp add: IPv4Protocol_def IPv6Protocol_def)
  ultimately have "fst ` set allocs = {IPv4Protocol, IPv6Protocol}"
    using assms(1) by (intro card_subset_eq) (auto simp: tab_ok_def)
  then show ?thesis using assms(3) by (simp add: dom_map_of_conv_image_fst)
qed

lemma request_yield_Some:
  "allocByFamily A (req_IPFamily r) = Some al \<Longrightarrow> request_yield A dry (allocs, e) r =
   ((AList.update (req_IPFamily r) (al dry) allocs, e), length (AList.update (req_IPFamily r) (al dry) allocs) \<noteq> 2)"
  by (simp add: request_yield_def Let_def)

lemma request_yield_None:
  "allocByFamily A (req_IPFamily r) = None \<Longrightarrow>
   request_yield A dry st r = ((fst st, Some (ErrMsg ''no allocator for IPs of family'')), False)"
  by (simp add: request_yield_def)

lemma tab_ok_update:
  assumes "tab_ok A dry allocs" "fam \<in> {IPv4Protocol, IPv6Protocol}" "allocByFamily A fam = Some al"
  shows "tab_ok A dry (AList.update fam (al dry) allocs)"
  using assms unfolding tab_ok_def
  by (auto simp: distinct_update update_conv' dom_map_of_conv_image_fst [symmetric] dom_update split: if_splits)

lemma request_yield_tab:
  assumes "tab_ok A dry allocs" "\<forall>r\<in>set reqs. req_IPFamily r \<in> {IPv4Protocol, IPv6Protocol}"
    and "fst (OfSlice reqs (request_yield A dry) (allocs, None)) = (allocs', None)"
  shows "tab_ok A dry allocs' \<and> dom (map_of allocs) \<subseteq> dom (map_of allocs') \<and>
    (\<forall>r\<in>set reqs. req_IPFamily r \<in> dom (map_of allocs'))"
  using assms
proof (induction reqs arbitrary: allocs)
  case (Cons r reqs)
  show ?case
  proof (cases "allocByFamily A (req_IPFamily r)")
    case None
    then show ?thesis using Cons.prems(3) by (simp add: request_yield_None)
  next
    case (Some al)
    let ?allocs = "AList.update (req_IPFamily r) (al dry) allocs"
    have d: "dom (map_of ?allocs) = insert (req_IPFamily r) (dom (map_of allocs))" by (auto simp: update_conv')
    have t: "tab_ok A dry ?allocs" using tab_ok_update [OF Cons.prems(1) _ Some] Cons.prems(2) by simp
    show ?thesis
    proof (cases "length ?allocs = 2")
      case True
      then have "allocs' = ?allocs" using Cons.prems(3) by (simp add: request_yield_Some [OF Some])
      then show ?thesis using t d tab_ok_full [OF t True] Cons.prems(2) by auto
    next
      case False
      then have "fst (OfSlice reqs (request_yield A dry) (?allocs, None)) = (allocs', None)"
        using Cons.prems(3) by (simp add: request_yield_Some [OF Some])
      then show ?thesis using Cons.IH [OF t] Cons.prems(2) d by auto
    qed
  qed
qed auto

text \<open>Allocators whose interfaces are allocators of one server.\<close>

definition served :: "('s, 'o) Allocators \<Rightarrow> 's ip_env \<Rightarrow> bool" where
  "served A E \<longleftrightarrow> (\<forall>fam al. allocByFamily A fam = Some al \<longrightarrow> (\<exists>a. al = ipa_iface E a \<and> ipa_family a = fam))"

lemma tab_claims:
  assumes "ip_server E objs good" "served A E" "tab_ok A False allocs"
  shows "all_claims (map_of allocs) (held_ips objs) good"
  using assms ip_server.ipa_contract [OF assms(1)] unfolding all_claims_def served_def tab_ok_def by metis

end
