(* ===== verification/IPTransactions.thy ===== *)
theory IPTransactions
  imports IPAllocators
begin

text \<open>
  What the IP transactions of \<open>internal/registry/ipallocator/allocators.go\<close> do to the addresses
  that are in use, for a server that keeps the laws of \<open>ip_server\<close>.
\<close>

section \<open>Finding the allocators\<close>

lemma tab_ok_Nil: "tab_ok A dry []"
  by (simp add: tab_ok_def)

lemma allocators_found:
  assumes "allocatorsForRequestIterator A (OfSlice reqs) dry = (allocs, None)"
    "\<forall>r\<in>set reqs. req_IPFamily r \<in> {IPv4Protocol, IPv6Protocol}"
  shows "tab_ok A dry allocs" "\<forall>r\<in>set reqs. req_IPFamily r \<in> dom (map_of allocs)"
  using request_yield_tab [OF tab_ok_Nil assms(2), of A dry allocs] assms(1)
  by (simp_all add: allocatorsForRequestIterator_def)

lemma request_yield_total:
  "\<forall>r\<in>set reqs. allocByFamily A (req_IPFamily r) \<noteq> None \<Longrightarrow>
   snd (fst (OfSlice reqs (request_yield A dry) (allocs, None))) = None"
proof (induction reqs arbitrary: allocs)
  case (Cons r reqs)
  then obtain al where al: "allocByFamily A (req_IPFamily r) = Some al" by auto
  show ?case using Cons by (simp add: request_yield_Some [OF al] split: bool.split)
qed simp

lemma iter_Concat_two: "iter_Concat [OfSlice xs, OfSlice ys] = OfSlice (xs @ ys)"
  using iter_Concat_OfSlice [of "[xs, ys]"] by simp

lemma tab_allocByFamily: "tab_ok A dry allocs \<Longrightarrow> fam \<in> dom (map_of allocs) \<Longrightarrow> allocByFamily A fam \<noteq> None"
  unfolding tab_ok_def by blast

lemma allocateIPs_no_panic:
  "\<forall>r\<in>set reqs. req_IPFamily r \<in> dom allocs \<Longrightarrow> allocateIPs A allocs s obj reqs acc \<noteq> Panics"
proof (induction reqs arbitrary: s acc)
  case (Cons r reqs)
  then obtain alloc where "allocs (req_IPFamily r) = Some alloc" by auto
  then show ?case using Cons by (auto simp: Let_def split: prod.split option.split sum.split)
qed simp

section \<open>Creation\<close>

lemma now_held_mono: "now_held held s s' ns (held s ns \<union> X) \<Longrightarrow> held s n \<subseteq> held s' n"
  by (cases "n = ns") (auto simp: now_held_def)

abbreviation addrs :: "'o accessor \<Rightarrow> 'o \<Rightarrow> addr list" where
  "addrs acc obj \<equiv> map req_Addr (GetRequests acc obj)"

abbreviation obj_ns :: "('s, 'o) Allocators \<Rightarrow> 'o \<Rightarrow> string" where
  "obj_ns A obj \<equiv> om_Namespace (acc_Meta (al_acc A) obj)"

text \<open>The addresses of an object, as they appear on the stored IPs.\<close>

definition obj_texts :: "('s, 'o) Allocators \<Rightarrow> 'o \<Rightarrow> string set" where
  "obj_texts A obj = addr_String ` set (addrs (al_acc A) obj)"

text \<open>The allocation leaves requested addresses as they are and fills in the others.\<close>

definition filled :: "('s, 'o) Allocators \<Rightarrow> 'o \<Rightarrow> 'o \<Rightarrow> bool" where
  "filled A obj obj' \<longleftrightarrow> list_all2 (\<lambda>r a. IsValid (req_Addr r) \<longrightarrow> a = req_Addr r)
     (GetRequests (al_acc A) obj) (addrs (al_acc A) obj')"

definition reqs_ok :: "('s, 'o) Allocators \<Rightarrow> 'o \<Rightarrow> bool" where
  "reqs_ok A obj \<longleftrightarrow> list_all req_ok (GetRequests (al_acc A) obj)"

definition all_dynamic :: "('s, 'o) Allocators \<Rightarrow> 'o \<Rightarrow> bool" where
  "all_dynamic A obj \<longleftrightarrow> list_all (\<lambda>a. \<not> IsValid a) (addrs (al_acc A) obj)"

lemma allocateCreate_cases:
  assumes E: "ip_server E objs good" and A: "served A E" and s: "good s" and r: "reqs_ok A obj"
  obtains (failed) s' e where "good s'" "AllocateCreate A s obj False = Returns (s', Inl e)"
      "\<forall>n. held_ips objs s n \<subseteq> held_ips objs s' n"
  | (ok) s' allocs new where "good s'"
      "AllocateCreate A s obj False = Returns (s', Inr (set_ips (al_acc A) obj (enumerate 0 new),
        \<lparr>Commit = Returns, Revert = release_quiet (map_of allocs) (obj_ns A obj) new\<rparr>))"
      "tab_ok A False allocs" "IPFamilyForAddr ` set new \<subseteq> dom (map_of allocs)"
      "now_held (held_ips objs) s s' (obj_ns A obj) (held_ips objs s (obj_ns A obj) \<union> addr_String ` set new)"
      "list_all2 answers (GetRequests (al_acc A) obj) new"
      "all_dynamic A obj \<longrightarrow> addr_String ` set new \<inter> held_ips objs s (obj_ns A obj) = {}"
proof -
  let ?reqs = "GetRequests (al_acc A) obj"
  obtain allocs err where al: "allocatorsForRequestIterator A (OfSlice ?reqs) False = (allocs, err)" by fastforce
  show thesis
  proof (cases err)
    case (Some e)
    then show thesis using failed [of s e] s al by (simp add: AllocateCreate_def)
  next
    case None
    have fams: "\<forall>r\<in>set ?reqs. req_IPFamily r \<in> {IPv4Protocol, IPv6Protocol}"
      using r by (auto simp: reqs_ok_def req_ok_def list_all_iff)
    note t = allocators_found [OF al [unfolded None] fams]
    have reqs: "\<forall>r\<in>set ?reqs. req_ok r \<and> req_IPFamily r \<in> dom (map_of allocs)"
      using t(2) r by (auto simp: reqs_ok_def list_all_iff)
    note c = tab_claims [OF E A t(1)]
    obtain s' new e where x: "allocateIPs A (map_of allocs) s obj ?reqs [] = Returns (s', new, e)"
      using allocateIPs_no_panic [OF t(2), of A s obj "[]"] by (cases "allocateIPs A (map_of allocs) s obj ?reqs []") auto
    note h = allocateIPs_held [OF c s reqs x]
    show thesis
    proof (cases e)
      case (Some e)
      have "now_held (held_ips objs) s s' (obj_ns A obj) (held_ips objs s (obj_ns A obj) \<union> addr_String ` set new)"
        using h by auto
      then have "\<forall>n. held_ips objs s n \<subseteq> held_ips objs s' n" using now_held_mono [of "held_ips objs" s s'] by simp
      then show thesis using failed [of s' e] Some h al None x by (simp add: AllocateCreate_def)
    next
      case None
      then have "AllocateCreate A s obj False = Returns (s', Inr (set_ips (al_acc A) obj (enumerate 0 new),
          \<lparr>Commit = Returns, Revert = release_quiet (map_of allocs) (obj_ns A obj) new\<rparr>))"
        using al \<open>err = None\<close> x by (simp add: AllocateCreate_def)
      then show thesis using ok [of s' new allocs] h None t by (simp add: all_dynamic_def list_all_iff)
    qed
  qed
qed

section \<open>A server in memory\<close>

text \<open>
  A server that meets the laws: it hands out IPv4 addresses from a counter, and refuses a
  creation whose name or address is taken.
\<close>

record ip_mem =
  ipm_ips :: "(ObjectKey \<times> IP) list"
  ipm_next :: "32 word"

definition ipm_objs :: "ip_mem \<Rightarrow> ObjectKey \<rightharpoonup> IP" where
  "ipm_objs s = map_of (ipm_ips s)"

definition ipm_good :: "ip_mem \<Rightarrow> bool" where
  "ipm_good s \<longleftrightarrow> distinct (map fst (ipm_ips s)) \<and> (\<forall>(k, ip)\<in>set (ipm_ips s). ip_key ip = k) \<and>
     (\<forall>(k, ip)\<in>set (ipm_ips s). \<forall>(k', ip')\<in>set (ipm_ips s). ip_text ip = ip_text ip' \<longrightarrow> k = k')"

definition ipm_select :: "(IP \<Rightarrow> bool) \<Rightarrow> ip_mem \<Rightarrow> string \<Rightarrow> IP list result" where
  "ipm_select P s ns = Inr (remdups (filter (\<lambda>ip. om_Namespace (ip_Meta ip) = ns \<and> P ip) (map snd (ipm_ips s))))"

definition ipm_label :: "IP \<Rightarrow> string \<times> string \<Rightarrow> bool" where
  "ipm_label ip l \<longleftrightarrow> l = (IPFamilyLabel, ipspec_IPFamily (ip_Spec ip)) \<or> l = (IPIPLabel, ip_text ip)"

definition ipm_patch :: "ip_mem \<Rightarrow> IP \<Rightarrow> IP \<Rightarrow> ip_mem \<times> IP result" where
  "ipm_patch s x base =
     (case map_of (ipm_ips s) (ip_key x) of
        None \<Rightarrow> (s, Inl NotFound)
      | Some x0 \<Rightarrow>
          let y = (if ip_claim x = ip_claim base then x0 else set_claim (ip_claim x) x0) in
          (s\<lparr>ipm_ips := AList.update (ip_key x) y (ipm_ips s)\<rparr>, Inr y))"

definition ipm_created :: "ip_mem \<Rightarrow> IP \<Rightarrow> IP" where
  "ipm_created s x = x\<lparr>ip_Meta := (ip_Meta x)\<lparr>om_Name := om_GenerateName (ip_Meta x) @ dec_nat (unat (ipm_next s))\<rparr>,
     ip_Spec := (ip_Spec x)\<lparr>ipspec_IP := V4 (ipm_next s)\<rparr>\<rparr>"

definition ipm_create :: "ip_mem \<Rightarrow> IP \<Rightarrow> ip_mem \<times> IP result" where
  "ipm_create s x =
     (let y = ipm_created s x in
      if ipspec_IPFamily (ip_Spec x) \<noteq> IPv4Protocol \<or> map_of (ipm_ips s) (ip_key y) \<noteq> None \<or>
         list_ex (\<lambda>(k, ip). ip_text ip = ip_text y) (ipm_ips s)
      then (s, Inl (ErrMsg ''no address''))
      else (s\<lparr>ipm_ips := AList.update (ip_key y) y (ipm_ips s), ipm_next := ipm_next s + 1\<rparr>, Inr y))"

definition mem_ip_env :: "ip_mem ip_env" where
  "mem_ip_env = \<lparr>ipe_synced = (\<lambda>s. True),
     ipe_lister = (\<lambda>s ns ls. ipm_select (\<lambda>ip. list_all (ipm_label ip) ls) s ns),
     ipe_cacheSet = (\<lambda>s ip. s),
     ipe_listByIP = (\<lambda>s ns t. ipm_select (\<lambda>ip. ip_text ip = t) s ns),
     ipe_patch = ipm_patch, ipe_create = ipm_create,
     ipe_delete = (\<lambda>s k. (s\<lparr>ipm_ips := AList.delete k (ipm_ips s)\<rparr>, None))\<rparr>"

lemma ipm_good_objs:
  "ipm_good s \<longleftrightarrow> distinct (map fst (ipm_ips s)) \<and> (\<forall>k ip. ipm_objs s k = Some ip \<longrightarrow> ip_key ip = k) \<and>
     (\<forall>k ip k' ip'. ipm_objs s k = Some ip \<longrightarrow> ipm_objs s k' = Some ip' \<longrightarrow> ip_text ip = ip_text ip' \<longrightarrow> k = k')"
proof (cases "distinct (map fst (ipm_ips s))")
  case True
  have "(\<forall>k ip. ipm_objs s k = Some ip \<longrightarrow> P k ip) \<longleftrightarrow> (\<forall>(k, ip)\<in>set (ipm_ips s). P k ip)" for P
    using True by (auto simp: ipm_objs_def)
  then show ?thesis using True unfolding ipm_good_def by (auto simp: ipm_objs_def)
qed (simp add: ipm_good_def)

lemma ipm_put:
  assumes "ipm_good s" "ip_key y = k"
    and "\<And>k' ip. k' \<noteq> k \<Longrightarrow> ipm_objs s k' = Some ip \<Longrightarrow> ip_text ip \<noteq> ip_text y"
    and "ipm_ips s' = AList.update k y (ipm_ips s)"
  shows "ipm_good s' \<and> ipm_objs s' = (ipm_objs s)(k \<mapsto> y)"
proof -
  have o: "ipm_objs s' = (ipm_objs s)(k \<mapsto> y)" using assms(4) by (simp add: ipm_objs_def update_conv')
  have "ipm_good s'"
    unfolding ipm_good_objs
  proof (intro conjI allI impI)
    show "distinct (map fst (ipm_ips s'))" using assms(1,4) by (simp add: distinct_update ipm_good_def)
    show "ip_key ip = k'" if "ipm_objs s' k' = Some ip" for k' ip
      using that assms(1,2) o by (auto simp: ipm_good_objs split: if_splits)
    show "k1 = k2" if "ipm_objs s' k1 = Some i1" "ipm_objs s' k2 = Some i2" "ip_text i1 = ip_text i2" for k1 i1 k2 i2
    proof (cases "k1 = k \<or> k2 = k")
      case True
      then show ?thesis using that o assms(3) [of k1 i1] assms(3) [of k2 i2] by (auto split: if_splits)
    next
      case False
      then show ?thesis using that o assms(1) unfolding ipm_good_objs by auto
    qed
  qed
  then show ?thesis using o by simp
qed

lemma ipm_delete:
  assumes "ipm_good s" "ipm_ips s' = AList.delete k (ipm_ips s)"
  shows "ipm_good s' \<and> ipm_objs s' = (ipm_objs s)(k := None)"
proof -
  have o: "ipm_objs s' = (ipm_objs s)(k := None)" using assms(2) by (simp add: ipm_objs_def delete_conv')
  moreover have "distinct (map fst (ipm_ips s'))" using assms by (simp add: distinct_delete ipm_good_def)
  ultimately show ?thesis using assms(1) by (simp add: ipm_good_objs)
qed

lemma ipm_select_ok:
  assumes "ipm_good s"
  shows "\<exists>ips. ipm_select P s ns = Inr ips \<and> distinct ips \<and>
    set ips = {ip. \<exists>k. ipm_objs s k = Some ip \<and> key_Namespace k = ns \<and> P ip}"
  using assms by (force simp: ipm_select_def ipm_good_def ipm_objs_def meta_key_def)

lemma IPLabels_differ: "IPFamilyLabel \<noteq> IPIPLabel"
  by (simp add: IPFamilyLabel_def IPIPLabel_def)

interpretation mem_ip: ip_server mem_ip_env ipm_objs ipm_good
proof
  fix s s' x y ip ip' k k' ns f t ips c b e
  show "ipe_synced mem_ip_env s" by (simp add: mem_ip_env_def)
  show "ipm_good s \<Longrightarrow> ipm_objs s k = Some ip \<Longrightarrow> ip_key ip = k" by (simp add: ipm_good_objs)
  show "ipm_good s \<Longrightarrow> ipm_objs s k = Some ip \<Longrightarrow> ipm_objs s k' = Some ip' \<Longrightarrow> ip_text ip = ip_text ip' \<Longrightarrow> k = k'"
    unfolding ipm_good_objs by blast
  show "\<exists>ip0. ipm_objs s (ip_key ip) = Some ip0 \<and> om_Namespace (ip_Meta ip) = ns \<and> ip_text ip0 = t"
    if "ipm_good s" "ipe_lister mem_ip_env s ns [(IPFamilyLabel, f), (IPIPLabel, t)] = Inr ips" "ip \<in> set ips"
    using that IPLabels_differ by (force simp: mem_ip_env_def ipm_select_def ipm_label_def ipm_good_def ipm_objs_def)
  show "ipm_good s \<Longrightarrow> ipm_good (ipe_cacheSet mem_ip_env s ip) \<and> ipm_objs (ipe_cacheSet mem_ip_env s ip) = ipm_objs s"
    by (simp add: mem_ip_env_def)
  show "ipm_good s \<Longrightarrow> \<exists>ips. ipe_listByIP mem_ip_env s ns t = Inr ips \<and> distinct ips \<and>
      set ips = {ip. \<exists>k. ipm_objs s k = Some ip \<and> key_Namespace k = ns \<and> ip_text ip = t}"
    by (simp add: mem_ip_env_def ipm_select_ok)
  show "ipm_good s' \<and> (\<exists>x0. ipm_objs s (ip_key x) = Some x0 \<and> ipm_objs s' = (ipm_objs s)(ip_key x \<mapsto> y) \<and>
      ip_text y = ip_text x0 \<and> om_OwnerReferences (ip_Meta y) = om_OwnerReferences (ip_Meta x0) \<and>
      ip_claim y = (if c = ip_claim x then ip_claim x0 else c))"
    if g: "ipm_good s" and p: "ipe_patch mem_ip_env s (set_claim c x) x = (s', Inr y)"
  proof -
    have k: "ip_key (set_claim c x) = ip_key x" by (simp add: set_claim_def)
    obtain x0 where x0: "ipm_objs s (ip_key x) = Some x0"
      "y = (if c = ip_claim x then x0 else set_claim c x0)" "ipm_ips s' = AList.update (ip_key x) y (ipm_ips s)"
      using p by (auto simp: mem_ip_env_def ipm_patch_def ipm_objs_def k set_claim_def Let_def split: option.splits)
    have "ip_key x0 = ip_key x" using g x0(1) by (simp add: ipm_good_objs)
    moreover have "ip_text ip \<noteq> ip_text x0" if "k' \<noteq> ip_key x" "ipm_objs s k' = Some ip" for k' ip
      using g that x0(1) unfolding ipm_good_objs by blast
    ultimately have "ipm_good s' \<and> ipm_objs s' = (ipm_objs s)(ip_key x \<mapsto> y)"
      using x0 by (intro ipm_put [OF g _ _ x0(3)]) (auto simp: set_claim_def)
    then show ?thesis using x0 by (auto simp: set_claim_def)
  qed
  show "ipm_good s \<Longrightarrow> ipe_patch mem_ip_env s x b = (s', Inl e) \<Longrightarrow> ipm_good s' \<and> ipm_objs s' = ipm_objs s"
    by (auto simp: mem_ip_env_def ipm_patch_def Let_def split: option.splits)
  show "ipm_good s \<Longrightarrow> ipm_objs s (ip_key x) \<noteq> None \<Longrightarrow> \<exists>y. snd (ipe_patch mem_ip_env s x b) = Inr y"
    by (auto simp: mem_ip_env_def ipm_patch_def ipm_objs_def Let_def split: option.splits)
  show "ipm_good s' \<and> key_Namespace (ip_key y) = om_Namespace (ip_Meta x) \<and> ipm_objs s (ip_key y) = None \<and>
      ipm_objs s' = (ipm_objs s)(ip_key y \<mapsto> y) \<and> om_OwnerReferences (ip_Meta y) = om_OwnerReferences (ip_Meta x) \<and>
      ip_claim y = ip_claim x \<and> IPFamilyForAddr (ipspec_IP (ip_Spec y)) = ipspec_IPFamily (ip_Spec x) \<and>
      (\<forall>k ip. ipm_objs s k = Some ip \<longrightarrow> ip_text ip \<noteq> ip_text y)"
    if g: "ipm_good s" and p: "ipe_create mem_ip_env s x = (s', Inr y)"
  proof -
    have y: "y = ipm_created s x" "ipspec_IPFamily (ip_Spec x) = IPv4Protocol" "ipm_objs s (ip_key y) = None"
      "\<not> list_ex (\<lambda>(k, ip). ip_text ip = ip_text y) (ipm_ips s)" "ipm_ips s' = AList.update (ip_key y) y (ipm_ips s)"
      using p by (auto simp: mem_ip_env_def ipm_create_def ipm_objs_def Let_def split: if_splits)
    have fresh: "ip_text ip \<noteq> ip_text y" if "ipm_objs s k = Some ip" for k ip
      using y(4) that map_of_SomeD [of "ipm_ips s" k ip] by (auto simp: list_ex_iff ipm_objs_def)
    have "ipm_good s' \<and> ipm_objs s' = (ipm_objs s)(ip_key y \<mapsto> y)"
      using fresh by (intro ipm_put [OF g refl _ y(5)])
    then show ?thesis using y(1-3) fresh by (simp add: ipm_created_def meta_key_def IPFamilyForAddr_def)
  qed
  show "ipm_good s \<Longrightarrow> ipe_create mem_ip_env s x = (s', Inl e) \<Longrightarrow> ipm_good s' \<and> ipm_objs s' = ipm_objs s"
    by (auto simp: mem_ip_env_def ipm_create_def Let_def split: if_splits)
  show "ipm_good s \<Longrightarrow> ipm_objs s k \<noteq> None \<Longrightarrow> ipm_good (fst (ipe_delete mem_ip_env s k)) \<and>
      ipm_objs (fst (ipe_delete mem_ip_env s k)) = (ipm_objs s)(k := None)"
    using ipm_delete [of s] by (simp add: mem_ip_env_def)
qed


section \<open>Releasing and updating\<close>

lemma al_Release_held:
  assumes E: "ip_server E objs good" and A: "served A E" and s: "good s"
    and r: "\<forall>r\<in>set (GetRequests (al_acc A) obj). req_IPFamily r \<in> {IPv4Protocol, IPv6Protocol} \<and>
      IPFamilyForAddr (req_Addr r) = req_IPFamily r \<and> allocByFamily A (req_IPFamily r) \<noteq> None"
  shows "\<exists>s'. al_Release A s obj False = Returns s' \<and> good s' \<and>
    now_held (held_ips objs) s s' (obj_ns A obj) (held_ips objs s (obj_ns A obj) - obj_texts A obj)"
proof -
  let ?reqs = "GetRequests (al_acc A) obj"
  obtain allocs where al: "allocatorsForRequestIterator A (OfSlice ?reqs) False = (allocs, None)"
    using request_yield_total [of ?reqs A False "[]"] r
    by (cases "allocatorsForRequestIterator A (OfSlice ?reqs) False") (auto simp: allocatorsForRequestIterator_def)
  have fams: "\<forall>r\<in>set ?reqs. req_IPFamily r \<in> {IPv4Protocol, IPv6Protocol}" using r by blast
  note t = allocators_found [OF al fams]
  have "IPFamilyForAddr ` set (map req_Addr ?reqs) \<subseteq> dom (map_of allocs)" using t(2) r by force
  from release_quiet_held [OF tab_claims [OF E A t(1)] s this, of "obj_ns A obj"]
  show ?thesis using al by (simp add: al_Release_def obj_texts_def)
qed

lemma nth_later: "Suc i \<le> j \<Longrightarrow> (x # xs) ! (j - i) = xs ! (j - Suc i)"
  by (simp add: nth_Cons')

lemma split_requests_spec:
  assumes "split_requests i reqs rel = (ia, rel')"
  shows "\<forall>(j, r)\<in>set ia. i \<le> j \<and> j < i + length reqs \<and> r = reqs ! (j - i)" "distinct (map fst ia)"
    "set rel' = set rel - req_Addr ` set reqs"
    "\<forall>j<length reqs. i + j \<notin> fst ` set ia \<longrightarrow> req_Addr (reqs ! j) \<in> set rel"
proof -
  have "(\<forall>(j, r)\<in>set ia. i \<le> j \<and> j < i + length reqs \<and> r = reqs ! (j - i)) \<and> distinct (map fst ia) \<and>
    set rel' = set rel - req_Addr ` set reqs \<and>
    (\<forall>j<length reqs. i + j \<notin> fst ` set ia \<longrightarrow> req_Addr (reqs ! j) \<in> set rel)"
    using assms
  proof (induction i reqs rel arbitrary: ia rel' rule: split_requests.induct)
    case (2 i r rs rel)
    show ?case
    proof (cases "req_Addr r \<in> set rel")
      case True
      then have "split_requests (Suc i) rs (removeAll (req_Addr r) rel) = (ia, rel')" using "2.prems" by simp
      note * = "2.IH"(1) [OF True this]
      have "req_Addr ((r # rs) ! j) \<in> set rel" if "j < length (r # rs)" "i + j \<notin> fst ` set ia" for j
        using * that True by (cases j) auto
      moreover have "i \<le> j \<and> j < i + length (r # rs) \<and> x = (r # rs) ! (j - i)" if "(j, x) \<in> set ia" for j x
        using * that by (auto simp: nth_later)
      ultimately show ?thesis using * by auto
    next
      case False
      then obtain ia1 where ia1: "split_requests (Suc i) rs rel = (ia1, rel')" "ia = (i, r) # ia1"
        using "2.prems" by (auto split: prod.splits)
      note * = "2.IH"(2) [OF False ia1(1)]
      have "req_Addr ((r # rs) ! j) \<in> set rel" if "j < length (r # rs)" "i + j \<notin> fst ` set ia" for j
        using * that ia1(2) by (cases j) auto
      moreover have "i \<le> j \<and> j < i + length (r # rs) \<and> x = (r # rs) ! (j - i)" if "(j, x) \<in> set ia" for j x
        using * that ia1(2) by (auto simp: nth_later)
      moreover have "i \<notin> fst ` set ia1" using * by force
      ultimately show ?thesis using * ia1(2) False by auto
    qed
  qed simp
  then show "\<forall>(j, r)\<in>set ia. i \<le> j \<and> j < i + length reqs \<and> r = reqs ! (j - i)" "distinct (map fst ia)"
    "set rel' = set rel - req_Addr ` set reqs"
    "\<forall>j<length reqs. i + j \<notin> fst ` set ia \<longrightarrow> req_Addr (reqs ! j) \<in> set rel" by blast+
qed

text \<open>Writing the allocated addresses back through the indices of the split.\<close>

lemma update_lookup:
  assumes "distinct (map fst ia)" "length new = length ia"
  shows "map_of (zip (map fst ia) new) j = Some a \<longleftrightarrow> (\<exists>k<length ia. fst (ia ! k) = j \<and> new ! k = a)"
  using assms by (force simp: map_of_eq_Some_iff map_fst_zip set_zip)

lemma update_fills:
  assumes acc: "ip_accessor (al_acc A)" and sp: "split_requests 0 (GetRequests (al_acc A) obj) rel = (ia, rel')"
    and l: "list_all2 answers (map snd ia) new"
  shows "filled A obj (set_ips (al_acc A) obj (zip (map fst ia) new))"
    and "\<exists>kept. kept \<subseteq> set rel \<and> set (addrs (al_acc A) (set_ips (al_acc A) obj (zip (map fst ia) new))) = kept \<union> set new"
proof -
  let ?reqs = "GetRequests (al_acc A) obj" and ?ias = "zip (map fst ia) new"
  let ?new = "GetRequests (al_acc A) (set_ips (al_acc A) obj ?ias)"
  note sp = split_requests_spec [OF sp]
  have len: "length new = length ia" using list_all2_lengthD [OF l] by simp
  have b: "\<forall>(i, a)\<in>set ?ias. i < length ?reqs" using sp(1) by (fastforce dest: set_zip_leftD)
  have d: "distinct (map fst ?ias)" using sp(2) len by (simp add: map_fst_zip)
  have ln: "length ?new = length ?reqs" using ip_accessor.set_ips_length [OF acc b] .
  have at: "req_Addr (?new ! j) = (case map_of ?ias j of Some a \<Rightarrow> a | None \<Rightarrow> req_Addr (?reqs ! j))"
    if "j < length ?reqs" for j using ip_accessor.set_ips_addr [OF acc b d that] .
  have hit: "map_of ?ias (fst (ia ! k)) = Some (new ! k)" "fst (ia ! k) < length ?reqs" "snd (ia ! k) = ?reqs ! fst (ia ! k)"
    if "k < length ia" for k
    using update_lookup [OF sp(2) len, of "fst (ia ! k)" "new ! k"] that sp(1) nth_mem [OF that]
    by (auto simp: case_prod_unfold)
  show "filled A obj (set_ips (al_acc A) obj ?ias)"
    unfolding filled_def list_all2_conv_all_nth
  proof (intro conjI allI impI)
    fix j assume j: "j < length ?reqs" "IsValid (req_Addr (?reqs ! j))"
    show "map req_Addr ?new ! j = req_Addr (?reqs ! j)"
    proof (cases "map_of ?ias j")
      case (Some a)
      then obtain k where k: "k < length ia" "fst (ia ! k) = j" "new ! k = a"
        using update_lookup [OF sp(2) len, of j a] by blast
      have "a = req_Addr (?reqs ! j)"
        using list_all2_nthD [OF l, of k] k hit(3) [OF k(1)] j(2) by (simp add: answers_def)
      then show ?thesis using at [OF j(1)] Some j(1) ln by simp
    qed (use at [OF j(1)] j(1) ln in simp)
  qed (simp add: ln)
  define kept where "kept = (\<lambda>j. req_Addr (?reqs ! j)) ` {j. j < length ?reqs \<and> j \<notin> fst ` set ia}"
  have none: "map_of ?ias j = None \<longleftrightarrow> j \<notin> fst ` set ia" for j
    using len by (simp add: map_of_eq_None_iff map_fst_zip flip: set_map)
  have "set (map req_Addr ?new) = (\<lambda>j. req_Addr (?new ! j)) ` {j. j < length ?reqs}"
    unfolding set_map unfolding set_conv_nth using ln by auto
  also have "\<dots> = kept \<union> set new"
  proof (intro equalityI subsetI)
    fix x assume "x \<in> (\<lambda>j. req_Addr (?new ! j)) ` {j. j < length ?reqs}"
    then obtain j where j: "j < length ?reqs" "x = req_Addr (?new ! j)" by blast
    show "x \<in> kept \<union> set new"
    proof (cases "map_of ?ias j")
      case None
      then show ?thesis using j at [OF j(1)] none [of j] by (auto simp: kept_def)
    next
      case (Some a)
      then obtain k where "k < length new" "new ! k = a" using update_lookup [OF sp(2) len, of j a] len by auto
      then show ?thesis using j at [OF j(1)] Some by (auto simp: in_set_conv_nth)
    qed
  next
    fix x assume "x \<in> kept \<union> set new"
    then consider j where "j < length ?reqs" "j \<notin> fst ` set ia" "x = req_Addr (?reqs ! j)"
      | k where "k < length ia" "x = new ! k" using len by (auto simp: kept_def in_set_conv_nth)
    then show "x \<in> (\<lambda>j. req_Addr (?new ! j)) ` {j. j < length ?reqs}"
    proof cases
      case 1
      then show ?thesis using at [OF 1(1)] none [of j] by (intro image_eqI [of _ _ j]) auto
    next
      case 2
      then show ?thesis using at [OF hit(2) [OF 2(1)]] hit(1,2) [OF 2(1)]
        by (intro image_eqI [of _ _ "fst (ia ! k)"]) auto
    qed
  qed
  finally show "\<exists>kept. kept \<subseteq> set rel \<and> set (addrs (al_acc A) (set_ips (al_acc A) obj ?ias)) = kept \<union> set new"
    using sp(4) by (intro exI [of _ kept]) (auto simp: kept_def)
qed


section \<open>Properties\<close>

text \<open>
  C4. Creating an object never panics when its requests name an IP family and requested
  addresses belong to it. If it succeeds, every requested address is kept, every other one is
  filled in, and the addresses in use are those in use before and those of the object, in the
  object's namespace only; a commit changes nothing, and a revert takes the object's addresses
  back, which restores the addresses in use when all addresses were allocated dynamically. If it
  fails, no address in use is lost.
\<close>

theorem AllocateCreate_transaction:
  assumes E: "ip_server E objs good" and A: "served A E" "ip_accessor (al_acc A)"
    and s: "good s" and r: "reqs_ok A obj"
  shows "case AllocateCreate A s obj False of
      Panics \<Rightarrow> False
    | Returns (s', Inl e) \<Rightarrow> good s' \<and> (\<forall>n. held_ips objs s n \<subseteq> held_ips objs s' n)
    | Returns (s', Inr (obj', txn)) \<Rightarrow>
        good s' \<and> filled A obj obj' \<and>
        now_held (held_ips objs) s s' (obj_ns A obj) (held_ips objs s (obj_ns A obj) \<union> obj_texts A obj') \<and>
        finish txn s' True = Returns s' \<and>
        (\<exists>s''. finish txn s' False = Returns s'' \<and> good s'' \<and>
           now_held (held_ips objs) s s'' (obj_ns A obj) (held_ips objs s (obj_ns A obj) - obj_texts A obj') \<and>
           (all_dynamic A obj \<longrightarrow> held_ips objs s'' = held_ips objs s))"
  using E A(1) s r
proof (cases rule: allocateCreate_cases)
  case (failed s' e)
  then show ?thesis by simp
next
  case (ok s' allocs new)
  let ?obj' = "set_ips (al_acc A) obj (enumerate 0 new)" and ?ns = "obj_ns A obj"
  note h = ok(5)
  have "length new = length (GetRequests (al_acc A) obj)" using list_all2_lengthD [OF ok(6)] by simp
  note adrs = ip_accessor.set_ips_enumerate [OF A(2) this]
  have texts: "obj_texts A ?obj' = addr_String ` set new" unfolding obj_texts_def adrs ..
  have fl: "filled A obj ?obj'" unfolding filled_def adrs using ok(6) by (rule list_all2_mono) (simp add: answers_def)
  obtain s'' where r: "release_quiet (map_of allocs) ?ns new s' = Returns s''" "good s''"
    "now_held (held_ips objs) s' s'' ?ns (held_ips objs s' ?ns - addr_String ` set new)"
    using release_quiet_held [OF tab_claims [OF E A(1) ok(3)] ok(1,4)] by blast
  have "held_ips objs s' ?ns - addr_String ` set new = held_ips objs s ?ns - addr_String ` set new"
    using now_heldD [OF h] by auto
  then have undone: "now_held (held_ips objs) s s'' ?ns (held_ips objs s ?ns - addr_String ` set new)"
    using now_held_trans [OF h r(3)] by simp
  have same: "held_ips objs s'' = held_ips objs s" if "all_dynamic A obj"
  proof
    fix n
    show "held_ips objs s'' n = held_ips objs s n"
      using undone ok(7) that by (cases "n = ?ns") (auto simp: now_held_def)
  qed
  show ?thesis
    unfolding ok(2) outcome.case prod.case sum.case finish_def transaction.simps if_True if_False texts
    using ok(1) fl h r(1,2) undone same by auto
qed


text \<open>
  C20. An update never panics if the requests of the new and the old object name an IP family, their
  requested addresses belong to it, and the old object has no unset address. If it fails, no address in
  use is lost. If it succeeds, requested addresses are kept and the others filled in, and it has taken
  into use addresses of the new object, among them all that the old object does not have: so if the
  old object's addresses were in use (after a reverted update they need not be), then all of the new
  object's are. Committing then frees exactly the old addresses the new object does not ask for, and
  reverting does the same: the addresses taken for the object stay in use and the old ones, which the
  stored object still has, are freed. The server answers as \<open>ip_server\<close> states.
\<close>

theorem AllocateUpdate_transaction:
  assumes E: "ip_server E objs good" and A: "served A E" "ip_accessor (al_acc A)"
    and s: "good s" and r: "reqs_ok A obj" "reqs_ok A old" "list_all IsValid (addrs (al_acc A) old)"
    and ord: "\<forall>xs. set (ord xs) = set xs"
  shows "case AllocateUpdate ord A s obj old False of
      Panics \<Rightarrow> False
    | Returns (s', Inl e) \<Rightarrow> good s' \<and> (\<forall>n. held_ips objs s n \<subseteq> held_ips objs s' n)
    | Returns (s', Inr (obj', txn)) \<Rightarrow>
        good s' \<and> filled A obj obj' \<and>
        (\<exists>X. held_ips objs s (obj_ns A obj) \<union> (obj_texts A obj' - obj_texts A old) \<subseteq> X \<and>
          X \<subseteq> held_ips objs s (obj_ns A obj) \<union> obj_texts A obj' \<and>
          (obj_texts A old \<subseteq> held_ips objs s (obj_ns A obj) \<longrightarrow> X = held_ips objs s (obj_ns A obj) \<union> obj_texts A obj') \<and>
          now_held (held_ips objs) s s' (obj_ns A obj) X \<and>
          (\<forall>success. \<exists>s''. finish txn s' success = Returns s'' \<and> good s'' \<and>
             now_held (held_ips objs) s s'' (obj_ns A obj)
               (X - addr_String ` (set (addrs (al_acc A) old) - set (addrs (al_acc A) obj)))))"
proof -
  let ?new = "GetRequests (al_acc A) obj" and ?old = "GetRequests (al_acc A) old" and ?ns = "obj_ns A obj"
  obtain allocs err where al: "allocatorsForRequestIterator A (iter_Concat [OfSlice ?old, OfSlice ?new]) False = (allocs, err)"
    by fastforce
  have al': "allocatorsForRequestIterator A (OfSlice (?old @ ?new)) False = (allocs, err)"
    using al by (simp only: iter_Concat_two)
  obtain ia rel where sp: "split_requests 0 ?new (remdups (map req_Addr ?old)) = (ia, rel)" by fastforce
  show ?thesis
  proof (cases err)
    case (Some e)
    then show ?thesis using al s by (simp add: AllocateUpdate_def)
  next
    case None
    have fams: "\<forall>r\<in>set (?old @ ?new). req_IPFamily r \<in> {IPv4Protocol, IPv6Protocol}"
      using r by (auto simp: reqs_ok_def req_ok_def list_all_iff)
    note t = allocators_found [OF al' [unfolded None] fams]
    have sub: "snd ` set ia \<subseteq> set ?new" using split_requests_spec(1) [OF sp] by force
    have reqs: "\<forall>r\<in>set (map snd ia). req_ok r \<and> req_IPFamily r \<in> dom (map_of allocs)"
      using t(2) r(1) sub unfolding reqs_ok_def list_all_iff set_map set_append by blast
    note c = tab_claims [OF E A(1) t(1)]
    obtain s' new e where x: "allocateIPs A (map_of allocs) s obj (map snd ia) [] = Returns (s', new, e)"
      using allocateIPs_no_panic [of "map snd ia" "map_of allocs" A s obj "[]"] reqs
      by (cases "allocateIPs A (map_of allocs) s obj (map snd ia) []") auto
    note h = allocateIPs_held [OF c s reqs x]
    then have nh: "now_held (held_ips objs) s s' ?ns (held_ips objs s ?ns \<union> addr_String ` set new)" and g': "good s'" by auto
    show ?thesis
    proof (cases e)
      case (Some e)
      have "\<forall>n. held_ips objs s n \<subseteq> held_ips objs s' n" using now_held_mono [OF nh] by simp
      then show ?thesis using Some g' al None x sp by (simp add: AllocateUpdate_def)
    next
      case None
      then have l: "list_all2 answers (map snd ia) new" using h by simp
      let ?obj' = "set_ips (al_acc A) obj (zip (map fst ia) new)"
      have fl: "filled A obj ?obj'" using update_fills(1) [OF A(2) sp l] .
      obtain kept where k: "kept \<subseteq> set (map req_Addr ?old)" "set (addrs (al_acc A) ?obj') = kept \<union> set new"
        using update_fills(2) [OF A(2) sp l] by auto
      let ?X = "held_ips objs s ?ns \<union> addr_String ` set new"
      have "addr_String ` kept \<subseteq> obj_texts A old" using k(1) unfolding obj_texts_def by blast
      moreover have "obj_texts A ?obj' = addr_String ` kept \<union> addr_String ` set new"
        unfolding obj_texts_def k(2) image_Un ..
      ultimately have X: "held_ips objs s ?ns \<union> (obj_texts A ?obj' - obj_texts A old) \<subseteq> ?X"
        "?X \<subseteq> held_ips objs s ?ns \<union> obj_texts A ?obj'"
        "obj_texts A old \<subseteq> held_ips objs s ?ns \<longrightarrow> ?X = held_ips objs s ?ns \<union> obj_texts A ?obj'"
        by blast+
      have rel: "set (ord rel) = set (map req_Addr ?old) - set (map req_Addr ?new)"
        using split_requests_spec(3) [OF sp] ord by simp
      have "IPFamilyForAddr ` set (ord rel) \<subseteq> dom (map_of allocs)"
        using rel r(2,3) t(2) by (auto simp: reqs_ok_def req_ok_def list_all_iff) (metis UnCI domD)
      then obtain s'' where q: "release_quiet (map_of allocs) ?ns (ord rel) s' = Returns s''" "good s''"
        "now_held (held_ips objs) s' s'' ?ns (held_ips objs s' ?ns - addr_String ` set (ord rel))"
        using release_quiet_held [OF c g'] by blast
      have after: "now_held (held_ips objs) s s'' ?ns
          (?X - addr_String ` (set (addrs (al_acc A) old) - set (addrs (al_acc A) obj)))"
        using now_held_trans [OF nh q(3)] now_heldD [OF nh] rel by simp
      have run: "AllocateUpdate ord A s obj old False = Returns (s', Inr (?obj',
          \<lparr>Commit = release_quiet (map_of allocs) ?ns (ord rel), Revert = release_quiet (map_of allocs) ?ns (ord rel)\<rparr>))"
        using al \<open>err = None\<close> x sp None by (simp add: AllocateUpdate_def Let_def)
      have "\<forall>success. \<exists>s''. finish \<lparr>Commit = release_quiet (map_of allocs) ?ns (ord rel),
            Revert = release_quiet (map_of allocs) ?ns (ord rel)\<rparr> s' success = Returns s'' \<and> good s'' \<and>
          now_held (held_ips objs) s s'' ?ns (?X - addr_String ` (set (addrs (al_acc A) old) - set (addrs (al_acc A) obj)))"
        using q(1,2) after by (simp add: finish_def)
      then show ?thesis
        unfolding run outcome.case prod.case sum.case using g' fl X nh by blast
    qed
  qed
qed


text \<open>An object whose addresses are set, have the family of their request, and an allocator.\<close>

definition releasable :: "('s, 'o) Allocators \<Rightarrow> 'o \<Rightarrow> bool" where
  "releasable A obj \<longleftrightarrow> (\<forall>r\<in>set (GetRequests (al_acc A) obj). req_IPFamily r \<in> {IPv4Protocol, IPv6Protocol} \<and>
     IPFamilyForAddr (req_Addr r) = req_IPFamily r \<and> allocByFamily A (req_IPFamily r) \<noteq> None)"

lemma create_then_release:
  assumes E: "ip_server E objs good" and A: "served A E" "ip_accessor (al_acc A)"
    and s: "good s" and r: "reqs_ok A obj"
    and c: "AllocateCreate A s obj False = Returns (s', Inr (obj', txn))"
  shows "releasable A obj' \<and> obj_ns A obj' = obj_ns A obj \<and>
    (\<exists>s''. al_Release A s' obj' False = Returns s'' \<and> good s'' \<and>
      now_held (held_ips objs) s s'' (obj_ns A obj) (held_ips objs s (obj_ns A obj) - obj_texts A obj') \<and>
      (all_dynamic A obj \<longrightarrow> held_ips objs s'' = held_ips objs s))"
  using E A(1) s r
proof (cases rule: allocateCreate_cases)
  case (failed s1 e)
  then show ?thesis using c by simp
next
  case (ok s1 allocs new)
  let ?ns = "obj_ns A obj" and ?new = "GetRequests (al_acc A) obj'"
  have s1: "s1 = s'" and obj': "obj' = set_ips (al_acc A) obj (enumerate 0 new)" using c ok(2) by simp_all
  have len: "length new = length (GetRequests (al_acc A) obj)" using list_all2_lengthD [OF ok(6)] by simp
  have adrs: "addrs (al_acc A) obj' = new" unfolding obj' by (rule ip_accessor.set_ips_enumerate [OF A(2) len])
  have "\<forall>(i, a)\<in>set (enumerate 0 new). i < length (GetRequests (al_acc A) obj)"
    using len by (auto simp: in_set_enumerate_eq)
  note fr = ip_accessor.set_ips_frame [OF A(2) this, folded obj']
  have fam: "req_IPFamily (?new ! i) = req_IPFamily (GetRequests (al_acc A) obj ! i)" "req_Addr (?new ! i) = new ! i"
    if "i < length ?new" for i
    using arg_cong [OF adrs, of "\<lambda>xs. xs ! i"] arg_cong [OF conjunct2 [OF fr], of "\<lambda>xs. xs ! i"] that len
      arg_cong [OF adrs, of length] by simp_all
  have ans: "answers (GetRequests (al_acc A) obj ! i) (new ! i)" if "i < length ?new" for i
    using list_all2_nthD [OF ok(6)] that len arg_cong [OF adrs, of length] by simp
  have rl: "\<forall>r\<in>set ?new. req_IPFamily r \<in> {IPv4Protocol, IPv6Protocol} \<and>
      IPFamilyForAddr (req_Addr r) = req_IPFamily r \<and> allocByFamily A (req_IPFamily r) \<noteq> None"
  proof
    fix r assume "r \<in> set ?new"
    then obtain i where i: "i < length ?new" "r = ?new ! i" by (auto simp: in_set_conv_nth)
    let ?r = "GetRequests (al_acc A) obj ! i"
    have m: "?r \<in> set (GetRequests (al_acc A) obj)" "new ! i \<in> set new" using i len arg_cong [OF adrs, of length] by simp_all
    have "req_ok ?r" using r m(1) by (simp add: reqs_ok_def list_all_iff)
    moreover have "allocByFamily A (IPFamilyForAddr (new ! i)) \<noteq> None" using tab_allocByFamily [OF ok(3)] ok(4) m(2) by blast
    ultimately show "req_IPFamily r \<in> {IPv4Protocol, IPv6Protocol} \<and>
      IPFamilyForAddr (req_Addr r) = req_IPFamily r \<and> allocByFamily A (req_IPFamily r) \<noteq> None"
      using i fam [OF i(1)] ans [OF i(1)] by (simp add: req_ok_def answers_def)
  qed
  from al_Release_held [OF E A(1) ok(1) [unfolded s1] rl]
  obtain s'' where s'': "al_Release A s' obj' False = Returns s''" "good s''"
    "now_held (held_ips objs) s' s'' ?ns (held_ips objs s' ?ns - obj_texts A obj')" using fr by auto
  have texts: "obj_texts A obj' = addr_String ` set new" unfolding obj_texts_def adrs ..
  have "now_held (held_ips objs) s s'' ?ns (held_ips objs s ?ns - obj_texts A obj')"
    using s''(3) ok(5) s1 texts by (auto simp: now_held_def)
  moreover have "held_ips objs s'' n = held_ips objs s n" if "all_dynamic A obj" for n
    using s''(3) ok(5,7) that s1 by (cases "n = ?ns") (auto simp: now_held_def texts)
  moreover have "obj_ns A obj' = obj_ns A obj" using fr by simp
  ultimately show ?thesis using s''(1,2) rl unfolding releasable_def by blast
qed

text \<open>
  C21. Deleting an object whose addresses are set, belong to the family of their request and have an
  allocator does not panic and frees all of its addresses and no other, in its namespace only. Every
  object that a creation returns is of this kind: deleting it then leaves in use what was in use before
  the creation except for the object's addresses, and exactly what was in use before the creation when
  they had all been allocated dynamically. The server answers as \<open>ip_server\<close> states.
\<close>

theorem create_delete_roundtrip:
  assumes E: "ip_server E objs good" and A: "served A E" "ip_accessor (al_acc A)"
  shows "(\<forall>t o1. good t \<and> releasable A o1 \<longrightarrow> (\<exists>t'. al_Release A t o1 False = Returns t' \<and> good t' \<and>
       now_held (held_ips objs) t t' (obj_ns A o1) (held_ips objs t (obj_ns A o1) - obj_texts A o1))) \<and>
    (\<forall>s obj s' obj' txn. good s \<and> reqs_ok A obj \<and> AllocateCreate A s obj False = Returns (s', Inr (obj', txn)) \<longrightarrow>
       releasable A obj' \<and>
       (\<exists>s''. al_Release A s' obj' False = Returns s'' \<and> good s'' \<and>
          now_held (held_ips objs) s s'' (obj_ns A obj) (held_ips objs s (obj_ns A obj) - obj_texts A obj') \<and>
          (all_dynamic A obj \<longrightarrow> held_ips objs s'' = held_ips objs s)))"
  using al_Release_held [OF E A(1)] create_then_release [OF E A] unfolding releasable_def by blast


section \<open>Examples\<close>

definition example_ip_allocators :: "(ip_mem, core_NetworkInterface) Allocators" where
  "example_ip_allocators =
     NewAllocators [IPv4Protocol \<mapsto> ipa_iface mem_ip_env (ipa_New \<lparr>p_Addr = V4 167772160, p_Bits = 8\<rparr>)]
       ''core.apinet.api.onmetal.de'' ''v1alpha1'' ''NetworkInterface'' ''networkinterfaces'' networkInterfaceIPAllocatorAccessor"

definition example_public_nic :: "string \<Rightarrow> addr list \<Rightarrow> core_NetworkInterface" where
  "example_public_nic name ips =
     \<lparr>nic_Meta = zero_meta\<lparr>om_Name := name, om_UID := name\<rparr>,
      nic_Spec = \<lparr>nics_NodeRef = ''node'', nics_NetworkRef = ''net'', nics_IPs = [], nics_Prefixes = [],
        nics_NATs = [], nics_PublicIPs = map (\<lambda>a. \<lparr>npub_Name = name, npub_IPFamily = IPv4Protocol, npub_IP = a\<rparr>) ips\<rparr>,
      nic_Status = \<lparr>nicst_State = NetworkInterfaceStateReady, nicst_PCIAddress = None, nicst_Prefixes = [],
        nicst_PublicIPs = [], nicst_NATIPs = []\<rparr>\<rparr>"

definition example_ip_mem :: ip_mem where
  "example_ip_mem = \<lparr>ipm_ips = [], ipm_next = 167772161\<rparr>"

lemma example_ip_allocators_acc: "al_acc example_ip_allocators = networkInterfaceIPAllocatorAccessor"
  by (simp add: example_ip_allocators_def NewAllocators_def)

lemma example_ip_allocators_ok:
  "served example_ip_allocators mem_ip_env" "ip_accessor (al_acc example_ip_allocators)" "ipm_good example_ip_mem"
  by (simp_all add: example_ip_allocators_acc nic_acc.ip_accessor_axioms)
    (auto simp: served_def example_ip_allocators_def NewAllocators_def ipa_New_def ipm_good_def example_ip_mem_def
      split: if_splits)

lemma example_public_nic_ok:
  "reqs_ok example_ip_allocators (example_public_nic name (replicate n ZeroAddr))"
  "all_dynamic example_ip_allocators (example_public_nic name (replicate n ZeroAddr))"
  by (auto simp: reqs_ok_def networkInterfaceIPAllocatorAccessor_def example_public_nic_def example_ip_allocators_acc
      req_ok_def all_dynamic_def list_all_iff)

lemmas example_ip_simps =
  networkinterface_beginCreate_def AllocateCreate_def allocatorsForRequestIterator_def request_yield_def
  example_ip_allocators_def NewAllocators_def networkInterfaceIPAllocatorAccessor_def example_public_nic_def
  example_ip_mem_def claim_ref_for_def ipa_iface_def ipa_New_def mem_ip_env_def ipa_allocate_def ipa_allocateNext_def
  createEphemeralIP_def ephemeral_IP_def ipm_create_def ipm_created_def claimIP_def getIPFromLister_def the_only_IP_def
  ipm_select_def ipm_label_def ipm_patch_def set_claim_def set_ips_def meta_key_def zero_meta_def Let_def
  addr_String_V4 IPLabels_differ IPLabels_differ [symmetric] enumerate_simps

text \<open>
  A creation that fails keeps the addresses it had already taken: with a dynamic address and
  one that does not exist, the object is refused and the first address stays in use.
\<close>

theorem failed_create_leaks:
  "case networkinterface_beginCreate example_ip_allocators example_ip_mem (example_public_nic ''a'' [ZeroAddr, V4 1]) False of
     Returns (s', Inl e) \<Rightarrow> e = ip_ErrNotFound \<and> ipm_ips example_ip_mem = [] \<and>
       map (\<lambda>(k, ip). ipspec_IP (ip_Spec ip)) (ipm_ips s') = [V4 167772161] \<and>
       list_all (\<lambda>(k, ip). in_use ip) (ipm_ips s')
   | _ \<Rightarrow> False"
  by (simp add: example_ip_simps in_use_def GetControllerOf_def del: addr_String.simps)

text \<open>
  The address of an ephemeral IP can be claimed by another object, as the IP is created
  without a claim: both interfaces end up with the same public address.
\<close>

theorem ephemeral_ip_claimed_twice:
  "case networkinterface_beginCreate example_ip_allocators example_ip_mem (example_public_nic ''a'' [ZeroAddr]) False of
     Returns (s1, Inr (n1, _)) \<Rightarrow>
       (case networkinterface_beginCreate example_ip_allocators s1 (example_public_nic ''b'' [V4 167772161]) False of
          Returns (s2, Inr (n2, _)) \<Rightarrow>
            map npub_IP (nics_PublicIPs (nic_Spec n1)) = [V4 167772161] \<and>
            map npub_IP (nics_PublicIPs (nic_Spec n2)) = [V4 167772161]
        | _ \<Rightarrow> False)
   | _ \<Rightarrow> False"
  by (simp add: example_ip_simps in_use_def GetControllerOf_def del: addr_String.simps)


section \<open>Witnesses\<close>

theorem AllocateCreate_transaction_witness:
  "case AllocateCreate example_ip_allocators example_ip_mem (example_public_nic ''a'' (replicate 2 ZeroAddr)) False of
      Panics \<Rightarrow> False
    | Returns (s', Inl e) \<Rightarrow> ipm_good s' \<and> (\<forall>n. held_ips ipm_objs example_ip_mem n \<subseteq> held_ips ipm_objs s' n)
    | Returns (s', Inr (obj', txn)) \<Rightarrow>
        ipm_good s' \<and> filled example_ip_allocators (example_public_nic ''a'' (replicate 2 ZeroAddr)) obj' \<and>
        now_held (held_ips ipm_objs) example_ip_mem s' (obj_ns example_ip_allocators (example_public_nic ''a'' (replicate 2 ZeroAddr)))
          (held_ips ipm_objs example_ip_mem (obj_ns example_ip_allocators (example_public_nic ''a'' (replicate 2 ZeroAddr)))
           \<union> obj_texts example_ip_allocators obj') \<and>
        finish txn s' True = Returns s' \<and>
        (\<exists>s''. finish txn s' False = Returns s'' \<and> ipm_good s'' \<and>
           now_held (held_ips ipm_objs) example_ip_mem s'' (obj_ns example_ip_allocators (example_public_nic ''a'' (replicate 2 ZeroAddr)))
             (held_ips ipm_objs example_ip_mem (obj_ns example_ip_allocators (example_public_nic ''a'' (replicate 2 ZeroAddr)))
              - obj_texts example_ip_allocators obj') \<and>
           (all_dynamic example_ip_allocators (example_public_nic ''a'' (replicate 2 ZeroAddr)) \<longrightarrow>
              held_ips ipm_objs s'' = held_ips ipm_objs example_ip_mem))"
  by (rule AllocateCreate_transaction [OF mem_ip.ip_server_axioms example_ip_allocators_ok example_public_nic_ok(1)])

text \<open>An interface that has an address is updated to ask for one more.\<close>

definition example_ip_mem1 :: ip_mem where
  "example_ip_mem1 = \<lparr>ipm_ips = [(\<lparr>key_Namespace = [], key_Name = ''ip''\<rparr>,
     \<lparr>ip_Meta = zero_meta\<lparr>om_Name := ''ip''\<rparr>, ip_Spec = \<lparr>ipspec_Type = IPTypePublic, ipspec_IPFamily = IPv4Protocol,
        ipspec_IP = V4 167772162, ipspec_ClaimRef = Some (claim_ref_for example_ip_allocators (example_public_nic ''a'' []))\<rparr>\<rparr>)],
     ipm_next = 167772161\<rparr>"

lemma example_update_ok:
  "ipm_good example_ip_mem1"
  "reqs_ok example_ip_allocators (example_public_nic ''a'' [V4 167772162, ZeroAddr])"
  "reqs_ok example_ip_allocators (example_public_nic ''a'' [V4 167772162])"
  "list_all IsValid (addrs (al_acc example_ip_allocators) (example_public_nic ''a'' [V4 167772162]))"
  "obj_texts example_ip_allocators (example_public_nic ''a'' [V4 167772162]) \<subseteq>
   held_ips ipm_objs example_ip_mem1 (obj_ns example_ip_allocators (example_public_nic ''a'' [V4 167772162, ZeroAddr]))"
  "\<forall>xs :: addr list. set (rev xs) = set xs"
  by (simp_all add: ipm_good_def example_ip_mem1_def meta_key_def zero_meta_def reqs_ok_def req_ok_def example_ip_allocators_acc
      networkInterfaceIPAllocatorAccessor_def example_public_nic_def IPFamilyForAddr_def obj_texts_def mem_held_ips
      ipm_objs_def in_use_def del: addr_String.simps)

theorem AllocateUpdate_transaction_witness:
  "case AllocateUpdate rev example_ip_allocators example_ip_mem1 (example_public_nic ''a'' [V4 167772162, ZeroAddr])
        (example_public_nic ''a'' [V4 167772162]) False of
      Panics \<Rightarrow> False
    | Returns (s', Inl e) \<Rightarrow> True
    | Returns (s', Inr (obj', txn)) \<Rightarrow> ipm_good s' \<and>
        filled example_ip_allocators (example_public_nic ''a'' [V4 167772162, ZeroAddr]) obj' \<and>
        now_held (held_ips ipm_objs) example_ip_mem1 s'
          (obj_ns example_ip_allocators (example_public_nic ''a'' [V4 167772162, ZeroAddr]))
          (held_ips ipm_objs example_ip_mem1 (obj_ns example_ip_allocators (example_public_nic ''a'' [V4 167772162, ZeroAddr]))
           \<union> obj_texts example_ip_allocators obj')"
  using AllocateUpdate_transaction [OF mem_ip.ip_server_axioms example_ip_allocators_ok(1,2) example_update_ok(1-4) example_update_ok(6)]
    example_update_ok(5)
  by (cases "AllocateUpdate rev example_ip_allocators example_ip_mem1 (example_public_nic ''a'' [V4 167772162, ZeroAddr])
        (example_public_nic ''a'' [V4 167772162]) False") (auto split: sum.split_asm)

theorem create_delete_roundtrip_witness:
  "\<exists>s' txn s''. AllocateCreate example_ip_allocators example_ip_mem (example_public_nic ''a'' (replicate 1 ZeroAddr)) False =
      Returns (s', Inr (example_public_nic ''a'' [V4 167772161], txn)) \<and>
    al_Release example_ip_allocators s' (example_public_nic ''a'' [V4 167772161]) False = Returns s'' \<and> ipm_good s'' \<and>
    held_ips ipm_objs s'' = held_ips ipm_objs example_ip_mem"
proof -
  obtain s' txn where c: "AllocateCreate example_ip_allocators example_ip_mem (example_public_nic ''a'' (replicate 1 ZeroAddr)) False =
      Returns (s', Inr (example_public_nic ''a'' [V4 167772161], txn))"
    by (simp add: example_ip_simps del: addr_String.simps)
  show ?thesis
    using create_delete_roundtrip [OF mem_ip.ip_server_axioms example_ip_allocators_ok(1,2)] example_ip_allocators_ok(3)
      example_public_nic_ok c by blast
qed

end
