(* ===== verification/NatAllocation.thy ===== *)
theory NatAllocation
  imports ApiTypes Containers
begin

text \<open>
  NAT port allocation, \<open>internal/natgateway\<close>: the allocation manager that hands out port ranges
  of public IPs (\<open>allocation.go\<close>), the selectors of the autoscalers (\<open>autoscaler.go\<close>), and the
  sizing decision of \<open>internal/controllers/natgatewayautoscaler_controller.go\<close>. A division by
  zero is a panic.
\<close>

section \<open>allocation.go\<close>

definition minEphemeralPort :: int where "minEphemeralPort = 1024"
definition maxEphemeralPort :: int where "maxEphemeralPort = 65535"
definition noOfEphemeralPorts :: int where
  "noOfEphemeralPorts = maxEphemeralPort + 1 - minEphemeralPort"

lemmas port_consts = minEphemeralPort_def maxEphemeralPort_def noOfEphemeralPorts_def

definition SlotsPerIP :: "int \<Rightarrow> int outcome" where
  "SlotsPerIP portsPerNetworkInterface =
     (if portsPerNetworkInterface = 0 then Panics
      else Returns (i32 (noOfEphemeralPorts sdiv portsPerNetworkInterface)))"

record 'b AllocationManager =
  portsPerNetworkInterface :: int
  am_slots :: "(net_IP, 'b) KeySlots"

text \<open>The conversion of a possibly negative number to \<open>uint\<close>.\<close>

definition to_uint :: "int \<Rightarrow> nat" where
  "to_uint x = nat (x mod 18446744073709551616)"

definition NewAllocationManager :: "'b bitset_ops \<Rightarrow> int \<Rightarrow> net_IP list \<Rightarrow> 'b AllocationManager outcome" where
  "NewAllocationManager B ports ips =
     (if ports = 0 then Panics
      else let slotsPerIP = to_uint (i32 (noOfEphemeralPorts sdiv ports)) in
           Returns \<lparr>portsPerNetworkInterface = ports, am_slots = NewKeySlots B slotsPerIP ips\<rparr>)"

definition HasIP :: "'b AllocationManager \<Rightarrow> net_IP \<Rightarrow> bool" where
  "HasIP m ip = HasKey (am_slots m) ip"

definition am_endPort :: "'b AllocationManager \<Rightarrow> int \<Rightarrow> int" where
  "am_endPort m port = i32 (i32 (port + portsPerNetworkInterface m) - 1)"

definition slotForPorts :: "'b AllocationManager \<Rightarrow> int \<Rightarrow> int \<Rightarrow> nat option" where
  "slotForPorts m port endPort =
     (if port < minEphemeralPort \<or> port \<ge> endPort \<or> endPort > maxEphemeralPort then None
      else if am_endPort m port \<noteq> endPort then None
      else Some (to_uint (i32 (i32 (port - minEphemeralPort) sdiv portsPerNetworkInterface m))))"

definition portsForSlot :: "'b AllocationManager \<Rightarrow> nat \<Rightarrow> int \<times> int" where
  "portsForSlot m slot =
     (let port = i32 (i32 (i32 (int slot) * portsPerNetworkInterface m) + minEphemeralPort)
      in (port, am_endPort m port))"

definition am_Use :: "'b bitset_ops \<Rightarrow> 'b AllocationManager \<Rightarrow> net_IP \<Rightarrow> int \<Rightarrow> int \<Rightarrow> 'b AllocationManager \<times> bool" where
  "am_Use B m ip port endPort =
     (case slotForPorts m port endPort of
        None \<Rightarrow> (m, False)
      | Some slot \<Rightarrow> (let (s', ok) = Use B (am_slots m) ip slot in (m\<lparr>am_slots := s'\<rparr>, ok)))"

definition am_UseNextFree ::
  "'b bitset_ops \<Rightarrow> (net_IP list \<Rightarrow> net_IP list) \<Rightarrow> 'b AllocationManager \<Rightarrow>
   ('b AllocationManager \<times> (net_IP \<times> int \<times> int) option) outcome" where
  "am_UseNextFree B ord m =
     (case UseNextFree B ord (am_slots m) of
        Panics \<Rightarrow> Panics
      | Returns (s', None) \<Rightarrow> Returns (m\<lparr>am_slots := s'\<rparr>, None)
      | Returns (s', Some (ip, slot)) \<Rightarrow>
          let (port, endPort) = portsForSlot m slot in Returns (m\<lparr>am_slots := s'\<rparr>, Some (ip, port, endPort)))"

definition am_Total :: "'b AllocationManager \<Rightarrow> int" where
  "am_Total m = i64 (int (Total (Some (am_slots m))))"

definition am_Used :: "'b AllocationManager \<Rightarrow> int" where
  "am_Used m = i64 (int (Used (Some (am_slots m))))"

section \<open>autoscaler.go\<close>

text \<open>
  The index \<open>keysBySelectorIndex\<close> is the map that was added to \<open>selectorByKey\<close> as its only
  index: one object reached through two fields, which the model keeps once.
\<close>

type_synonym NetworkSelector = string

definition MatchesNetwork :: "NetworkSelector \<Rightarrow> string \<Rightarrow> bool" where
  "MatchesNetwork sel name \<longleftrightarrow> name = sel"

definition NoVNISelector :: NetworkSelector where "NoVNISelector = []"

definition SelectNetwork :: "string \<Rightarrow> NetworkSelector" where
  "SelectNetwork name = name"

type_synonym AutoscalerSelectors = "(ObjectKey, NetworkSelector) IndexingMap"

definition NewAutoscalerSelectors :: AutoscalerSelectors where
  "NewAutoscalerSelectors = im_AddIndex \<lparr>im_entries = [], im_indices = []\<rparr> [Map.empty]"

definition selectors_Put :: "AutoscalerSelectors \<Rightarrow> ObjectKey \<Rightarrow> NetworkSelector \<Rightarrow> AutoscalerSelectors" where
  "selectors_Put m key sel = im_Put m key sel"

definition selectors_PutIfNotPresent ::
  "AutoscalerSelectors \<Rightarrow> ObjectKey \<Rightarrow> NetworkSelector \<Rightarrow> AutoscalerSelectors" where
  "selectors_PutIfNotPresent m key sel = (if im_Get m key = None then im_Put m key sel else m)"

definition ReverseSelect :: "AutoscalerSelectors \<Rightarrow> string \<Rightarrow> ObjectKey set" where
  "ReverseSelect m name = rmi_Get (im_indices m ! 0) (SelectNetwork name)"

definition selectors_Delete :: "AutoscalerSelectors \<Rightarrow> ObjectKey \<Rightarrow> AutoscalerSelectors" where
  "selectors_Delete m key = im_Delete m key"

section \<open>The sizing decision of the autoscaler\<close>

definition determineDesiredNumberOfIPs ::
  "NATGatewayAutoscaler \<Rightarrow> NATGateway \<Rightarrow> int \<Rightarrow> int \<Rightarrow> int outcome" where
  "determineDesiredNumberOfIPs autoscaler natGateway totalNoOfIPs totalRequests =
     (case SlotsPerIP (ngs_PortsPerNetworkInterface (ng_Spec natGateway)) of
        Panics \<Rightarrow> Panics
      | Returns slotsPerIP \<Rightarrow>
          let totalSlots = i64 (slotsPerIP * totalNoOfIPs);
              slotsDiff = i64 (totalSlots - totalRequests) in
          if slotsPerIP = 0 then Panics
          else let ipsDiff = i64 (slotsDiff sdiv slotsPerIP);
                   desired0 = i64 (totalNoOfIPs - ipsDiff);
                   desired1 = (case ngas_MinPublicIPs (nga_Spec autoscaler) of
                                 None \<Rightarrow> desired0 | Some mn \<Rightarrow> max mn desired0);
                   desired2 = (case ngas_MaxPublicIPs (nga_Spec autoscaler) of
                                 None \<Rightarrow> desired1 | Some mx \<Rightarrow> min mx desired1) in
               Returns desired2)"

text \<open>
  The loop that draws names until enough new ones are found; the draws are a list, and
  \<open>None\<close> means that it ran out. The elements of the resulting set come in the order \<open>ord\<close>.
\<close>

fun generate_names :: "string set \<Rightarrow> nat \<Rightarrow> string list \<Rightarrow> string list \<Rightarrow> string list option" where
  "generate_names existing ct acc [] = (if length acc = ct then Some acc else None)"
| "generate_names existing ct acc (name # draws) =
     (if length acc = ct then Some acc
      else if name \<in> existing then generate_names existing ct acc draws
      else generate_names existing ct (List.insert name acc) draws)"

definition generateNewNATGatewayIPs ::
  "(string list \<Rightarrow> string list) \<Rightarrow> NATGateway \<Rightarrow> nat \<Rightarrow> string list \<Rightarrow> NATGatewayIP list option" where
  "generateNewNATGatewayIPs ord natGateway ct draws =
     map_option (\<lambda>names. map (\<lambda>n. \<lparr>natip_Name = n, natip_IP = ZeroAddr\<rparr>) (ord names))
       (generate_names (natip_Name ` set (ngs_IPs (ng_Spec natGateway))) ct [] draws)"

text \<open>
  The new list of IPs, \<open>None\<close> inside when there is nothing to do. The slice expression
  panics when more IPs would be removed than there are.
\<close>

definition natGatewayIPs_update ::
  "(string list \<Rightarrow> string list) \<Rightarrow> string list \<Rightarrow> NATGatewayAutoscaler \<Rightarrow> NATGateway \<Rightarrow>
   NATGatewayIP list option option outcome" where
  "natGatewayIPs_update ord draws autoscaler natGateway =
     (let totalRequests = ngst_RequestedNATIPs (ng_Status natGateway);
          ips = ngs_IPs (ng_Spec natGateway);
          currentNoOfIPs = int (length ips) in
      case determineDesiredNumberOfIPs autoscaler natGateway currentNoOfIPs totalRequests of
        Panics \<Rightarrow> Panics
      | Returns desired \<Rightarrow>
          let diff = currentNoOfIPs - desired in
          if diff < 0 then
            Returns (map_option (\<lambda>new. Some (ips @ new))
              (generateNewNATGatewayIPs ord natGateway (nat (- diff)) draws))
          else if diff > 0 then
            (if diff > currentNoOfIPs then Panics
             else Returns (Some (Some (take (nat (currentNoOfIPs - diff)) ips))))
          else Returns (Some None))"

section \<open>The ports of a slot\<close>

definition am_ok :: "'b bitset_ops \<Rightarrow> 'b AllocationManager \<Rightarrow> bool" where
  "am_ok B m \<longleftrightarrow> 0 < portsPerNetworkInterface m \<and> portsPerNetworkInterface m \<le> noOfEphemeralPorts \<and>
     ks_ok B (am_slots m) \<and>
     slotsPerKey (am_slots m) = nat (noOfEphemeralPorts div portsPerNetworkInterface m)"

lemma to_uint_nonneg: "0 \<le> x \<Longrightarrow> x < 2147483648 \<Longrightarrow> to_uint x = nat x"
  by (simp add: to_uint_def)

lemma slot_fits:
  assumes "0 < p" "int slot < noOfEphemeralPorts div p"
  shows "int slot * p + p \<le> noOfEphemeralPorts" "int slot < 64512" "p \<le> 64512"
proof -
  have "(int slot + 1) * p \<le> noOfEphemeralPorts div p * p" using assms by (intro mult_right_mono) auto
  also have "\<dots> \<le> noOfEphemeralPorts"
    using assms(1) by (simp add: div_mult_mod_eq [symmetric] minus_mod_eq_div_mult [symmetric])
  finally show *: "int slot * p + p \<le> noOfEphemeralPorts" by (simp add: algebra_simps)
  have "0 \<le> int slot * p" using assms(1) by simp
  then show "p \<le> 64512" using * by (simp add: port_consts)
  have "int slot * 1 \<le> int slot * p" using assms(1) by (intro mult_left_mono) auto
  then show "int slot < 64512" using * assms(1) by (simp add: port_consts)
qed

lemma portsForSlot_eq:
  assumes "0 < portsPerNetworkInterface m" "int slot < noOfEphemeralPorts div portsPerNetworkInterface m"
  shows "portsForSlot m slot =
    (1024 + int slot * portsPerNetworkInterface m, 1023 + int slot * portsPerNetworkInterface m + portsPerNetworkInterface m)"
proof -
  let ?p = "portsPerNetworkInterface m"
  note * = slot_fits [OF assms]
  have "0 \<le> int slot * ?p" using assms(1) by simp
  then show ?thesis using * assms(1) by (simp add: portsForSlot_def am_endPort_def port_consts Let_def)
qed

lemma slotForPorts_portsForSlot:
  assumes "1 < portsPerNetworkInterface m" "int slot < noOfEphemeralPorts div portsPerNetworkInterface m"
  shows "slotForPorts m (fst (portsForSlot m slot)) (snd (portsForSlot m slot)) = Some slot"
proof -
  let ?p = "portsPerNetworkInterface m"
  have p: "0 < ?p" using assms(1) by simp
  note * = slot_fits [OF p assms(2)]
  define q where "q = int slot * ?p"
  have z: "0 \<le> q" using p by (simp add: q_def)
  have le: "q + ?p \<le> 64512" using *(1) by (simp add: q_def port_consts)
  have ports: "portsForSlot m slot = (1024 + q, 1023 + q + ?p)"
    using portsForSlot_eq [OF p assms(2)] by (simp add: q_def)
  have "am_endPort m (1024 + q) = 1023 + q + ?p" using z p le by (simp add: am_endPort_def)
  moreover have "q sdiv ?p = int slot" using p z by (simp add: sdiv_nonneg) (simp add: q_def)
  ultimately show ?thesis using *(2) z le assms(1)
    by (simp add: ports slotForPorts_def port_consts to_uint_def)
qed

definition slot_ports :: "'b AllocationManager \<Rightarrow> nat \<Rightarrow> int set" where
  "slot_ports m slot = {1024 + int slot * portsPerNetworkInterface m ..
     1023 + int slot * portsPerNetworkInterface m + portsPerNetworkInterface m}"

text \<open>The ports of an IP that are handed out.\<close>

definition used_ports :: "'b bitset_ops \<Rightarrow> 'b AllocationManager \<Rightarrow> net_IP \<Rightarrow> int set" where
  "used_ports B m ip = (\<Union>slot\<in>{i. (ip, i) \<in> taken B (am_slots m)}. slot_ports m slot)"

lemma slot_ports_disjoint:
  assumes "0 < portsPerNetworkInterface m" "i \<noteq> j"
  shows "slot_ports m i \<inter> slot_ports m j = {}"
proof -
  have "i < j \<Longrightarrow> slot_ports m i \<inter> slot_ports m j = {}" for i j
  proof -
    assume "i < j"
    then have "(int i + 1) * portsPerNetworkInterface m \<le> int j * portsPerNetworkInterface m"
      using assms(1) by (intro mult_right_mono) auto
    then show ?thesis by (auto simp: slot_ports_def algebra_simps)
  qed
  then show ?thesis using assms(2) by (metis Int_commute nat_neq_iff)
qed

lemma slot_ports_free:
  assumes "0 < portsPerNetworkInterface m" "(ip, i) \<notin> taken B (am_slots m)"
  shows "slot_ports m i \<inter> used_ports B m ip = {}"
proof -
  have "slot_ports m i \<inter> slot_ports m j = {}" if "(ip, j) \<in> taken B (am_slots m)" for j
    using that assms by (intro slot_ports_disjoint) auto
  then show ?thesis by (auto simp: used_ports_def)
qed

lemma slot_ports_bounds:
  assumes "0 < portsPerNetworkInterface m" "int slot < noOfEphemeralPorts div portsPerNetworkInterface m"
  shows "slot_ports m slot \<subseteq> {1024..65535}"
  using slot_fits [OF assms] assms(1) by (auto simp: slot_ports_def port_consts)

lemma NewAllocationManager_ok:
  assumes "bitset B" "0 < ports" "ports \<le> noOfEphemeralPorts"
  shows "\<exists>m. NewAllocationManager B ports ips = Returns m \<and> am_ok B m \<and> (\<forall>ip. used_ports B m ip = {}) \<and>
    ks_keys (am_slots m) = set ips \<and> portsPerNetworkInterface m = ports"
proof -
  have "0 \<le> noOfEphemeralPorts div ports" "noOfEphemeralPorts div ports \<le> 64512"
    using assms zdiv_mono2 [of noOfEphemeralPorts 1 ports] by (auto simp: port_consts pos_imp_zdiv_nonneg_iff)
  then have "to_uint (i32 (noOfEphemeralPorts sdiv ports)) = nat (noOfEphemeralPorts div ports)"
    using assms by (simp add: sdiv_nonneg port_consts to_uint_def)
  then show ?thesis using assms
    by (simp add: NewAllocationManager_def am_ok_def used_ports_def bitset.NewKeySlots_ok)
qed

context bitset
begin

lemma am_UseNextFree_spec:
  assumes ok: "am_ok B m" and ord: "\<And>xs. set (ord xs) = set xs"
  shows "\<exists>m' r. am_UseNextFree B ord m = Returns (m', r) \<and> am_ok B m' \<and>
    portsPerNetworkInterface m' = portsPerNetworkInterface m \<and>
    ks_keys (am_slots m') = ks_keys (am_slots m) \<and>
    (case r of
       Some (ip, port, endPort) \<Rightarrow> ip \<in> ks_keys (am_slots m) \<and> 1024 \<le> port \<and> endPort \<le> 65535 \<and>
         endPort = port + portsPerNetworkInterface m - 1 \<and>
         {port..endPort} \<inter> used_ports B m ip = {} \<and>
         used_ports B m' ip = {port..endPort} \<union> used_ports B m ip \<and>
         (\<forall>ip'. ip' \<noteq> ip \<longrightarrow> used_ports B m' ip' = used_ports B m ip')
     | None \<Rightarrow> m' = m \<and> used (am_slots m) = Total (Some (am_slots m)))"
proof -
  let ?p = "portsPerNetworkInterface m"
  have p: "0 < ?p" and ks: "ks_ok B (am_slots m)"
    and n: "slotsPerKey (am_slots m) = nat (noOfEphemeralPorts div ?p)"
    using ok by (auto simp: am_ok_def)
  obtain s' r where u: "UseNextFree B ord (am_slots m) = Returns (s', r)" "ks_ok B s'"
    "slotsPerKey s' = slotsPerKey (am_slots m)" "ks_keys s' = ks_keys (am_slots m)"
    and rc: "case r of Some (k, i) \<Rightarrow> k \<in> ks_keys (am_slots m) \<and> i < slotsPerKey (am_slots m) \<and>
         (k, i) \<notin> taken B (am_slots m) \<and> taken B s' = insert (k, i) (taken B (am_slots m))
     | None \<Rightarrow> s' = am_slots m \<and> taken B (am_slots m) = ks_keys (am_slots m) \<times> {..<slotsPerKey (am_slots m)}"
    using UseNextFree_spec [OF ks ord] by (elim exE conjE) rule
  have ok': "am_ok B (m\<lparr>am_slots := s'\<rparr>)" using ok u by (simp add: am_ok_def)
  show ?thesis
  proof (cases r)
    case None
    then have "used (am_slots m) = Total (Some (am_slots m))"
      using rc ks card_ks_keys [OF ks] by (simp add: ks_ok_def Total_def card_cartesian_product)
    then show ?thesis using None u rc ok' by (simp add: am_UseNextFree_def)
  next
    case (Some pr)
    obtain ip i where pr: "pr = (ip, i)" by fastforce
    with rc Some have ip: "ip \<in> ks_keys (am_slots m)" "i < slotsPerKey (am_slots m)"
      "(ip, i) \<notin> taken B (am_slots m)" "taken B s' = insert (ip, i) (taken B (am_slots m))"
      by auto
    then have i: "int i < noOfEphemeralPorts div ?p" using n by (simp add: nat_less_iff zless_nat_eq_int_zless)
    have "{ia. (ip, ia) \<in> taken B s'} = insert i {ia. (ip, ia) \<in> taken B (am_slots m)}" using ip by auto
    then have "used_ports B (m\<lparr>am_slots := s'\<rparr>) ip = slot_ports m i \<union> used_ports B m ip"
      by (simp add: used_ports_def slot_ports_def)
    moreover have "slot_ports m i \<inter> used_ports B m ip = {}"
      using slot_ports_free [OF p ip(3)] .
    moreover have "used_ports B (m\<lparr>am_slots := s'\<rparr>) ip' = used_ports B m ip'" if "ip' \<noteq> ip" for ip'
      using that ip(4) by (simp add: used_ports_def slot_ports_def)
    moreover have "portsForSlot m i = (1024 + int i * ?p, 1023 + int i * ?p + ?p)"
      using portsForSlot_eq [OF p i] .
    moreover have "1024 + int i * ?p \<ge> 1024" "1023 + int i * ?p + ?p \<le> 65535"
      using slot_fits [OF p i] p by (simp_all add: port_consts)
    ultimately show ?thesis using Some pr u ip ok'
      by (simp add: am_UseNextFree_def slot_ports_def)
  qed
qed

lemma am_Use_spec:
  assumes ok: "am_ok B m" and p: "1 < portsPerNetworkInterface m"
    and aligned: "int slot < noOfEphemeralPorts div portsPerNetworkInterface m"
      "(port, endPort) = portsForSlot m slot"
  shows "am_ok B (fst (am_Use B m ip port endPort))"
    and "snd (am_Use B m ip port endPort) \<longleftrightarrow> ip \<in> ks_keys (am_slots m) \<and> {port..endPort} \<inter> used_ports B m ip = {}"
    and "snd (am_Use B m ip port endPort) \<Longrightarrow>
      used_ports B (fst (am_Use B m ip port endPort)) ip = {port..endPort} \<union> used_ports B m ip"
proof -
  let ?p = "portsPerNetworkInterface m"
  have p0: "0 < ?p" using p by simp
  have ks: "ks_ok B (am_slots m)" and n: "slotsPerKey (am_slots m) = nat (noOfEphemeralPorts div ?p)"
    using ok by (auto simp: am_ok_def)
  have sl: "slotForPorts m port endPort = Some slot"
    using slotForPorts_portsForSlot [OF p aligned(1)] aligned(2) by (metis fst_conv snd_conv)
  have range: "{port..endPort} = slot_ports m slot"
    using aligned portsForSlot_eq [OF p0 aligned(1)] by (simp add: slot_ports_def)
  have ne: "slot_ports m slot \<noteq> {}" using p0 by (simp add: slot_ports_def)
  have use: "am_Use B m ip port endPort =
      (m\<lparr>am_slots := fst (Use B (am_slots m) ip slot)\<rparr>, snd (Use B (am_slots m) ip slot))"
    by (simp add: am_Use_def sl case_prod_unfold Let_def)
  show "am_ok B (fst (am_Use B m ip port endPort))"
    using ok Use_ok [OF ks] Use_frame(1) [of "am_slots m"] by (simp add: use am_ok_def)
  have "(ip, slot) \<notin> taken B (am_slots m) \<longleftrightarrow> slot_ports m slot \<inter> used_ports B m ip = {}"
  proof
    show "(ip, slot) \<notin> taken B (am_slots m) \<Longrightarrow> slot_ports m slot \<inter> used_ports B m ip = {}"
      by (rule slot_ports_free [OF p0])
    show "slot_ports m slot \<inter> used_ports B m ip = {} \<Longrightarrow> (ip, slot) \<notin> taken B (am_slots m)"
      using ne by (auto simp: used_ports_def)
  qed
  then show "snd (am_Use B m ip port endPort) \<longleftrightarrow> ip \<in> ks_keys (am_slots m) \<and> {port..endPort} \<inter> used_ports B m ip = {}"
    using aligned(1) n Use_iff [OF ks, of ip slot] by (simp add: use range zless_nat_eq_int_zless)
  show "used_ports B (fst (am_Use B m ip port endPort)) ip = {port..endPort} \<union> used_ports B m ip"
    if "snd (am_Use B m ip port endPort)"
  proof -
    have "taken B (fst (Use B (am_slots m) ip slot)) = insert (ip, slot) (taken B (am_slots m))"
      using that Use_taken [of "am_slots m" ip slot] by (simp add: use)
    moreover have "{i. (ip, i) \<in> insert (ip, slot) (taken B (am_slots m))} =
        insert slot {i. (ip, i) \<in> taken B (am_slots m)}" by auto
    ultimately show ?thesis by (simp add: use range used_ports_def slot_ports_def)
  qed
qed

end

section \<open>The sizing decision\<close>

lemma SlotsPerIP_pos:
  assumes "0 < p" "p \<le> noOfEphemeralPorts"
  shows "SlotsPerIP p = Returns (noOfEphemeralPorts div p)" "0 < noOfEphemeralPorts div p"
    "noOfEphemeralPorts div p \<le> 64512"
proof -
  show pos: "0 < noOfEphemeralPorts div p" using assms by (simp add: pos_imp_zdiv_pos_iff)
  show le: "noOfEphemeralPorts div p \<le> 64512"
    using assms zdiv_mono2 [of noOfEphemeralPorts 1 p] by (simp add: port_consts)
  show "SlotsPerIP p = Returns (noOfEphemeralPorts div p)"
    using assms pos le by (simp add: SlotsPerIP_def sdiv_nonneg port_consts)
qed

text \<open>
  The truncating division rounds a surplus of slots down, so it keeps the least sufficient
  number of IPs, and rounds a shortage of slots down as well, so it adds too few.
\<close>

lemma sizing_surplus:
  assumes "0 < sp" "req \<le> sp * t"
  defines "d \<equiv> t - (sp * t - req) sdiv (sp::int)"
  shows "req \<le> sp * d" "sp * (d - 1) < req"
proof -
  have d: "d = - ((- req) div sp)"
    using assms div_mult_self1 [of sp "- req" t] by (simp add: sdiv_nonneg algebra_simps)
  have "sp * ((- req) div sp) \<le> - req" "- req < sp * ((- req) div sp) + sp"
    using assms(1) pos_mod_bound [of sp "- req"] pos_mod_sign [of sp "- req"] mult_div_mod_eq [of sp "- req"]
    by linarith+
  then show "req \<le> sp * d" "sp * (d - 1) < req" by (simp_all add: d algebra_simps)
qed

lemma sizing_shortage:
  assumes "0 < sp" "sp * t < req"
  shows "t - (sp * t - req) sdiv (sp::int) = req div sp"
  using assms div_mult_self1 [of sp "req" "- t"] by (simp add: sdiv_neg algebra_simps)

lemma generate_names_spec:
  assumes "generate_names existing ct acc draws = Some names" "distinct acc" "set acc \<inter> existing = {}"
  shows "distinct names \<and> set names \<inter> existing = {} \<and> length names = ct"
  using assms
proof (induction existing ct acc draws rule: generate_names.induct)
  case (2 existing ct acc name draws)
  show ?case
  proof (cases "length acc = ct \<or> name \<in> existing")
    case False
    with 2 have "generate_names existing ct (List.insert name acc) draws = Some names" by simp
    with 2 False show ?thesis by (intro "2.IH"(2)) auto
  qed (use 2 in \<open>auto split: if_splits\<close>)
qed (auto split: if_splits)

section \<open>Properties\<close>

text \<open>
  C19. The port range that the allocation manager hands out next, in whatever order the free
  IPs are visited, lies in 1024..65535, has the configured number of ports, belongs to an IP
  of the gateway and overlaps no range already handed out on that IP; the ranges of other IPs
  do not change; and it reports that there is none only when all slots of all IPs are used.
\<close>

theorem UseNextFree_disjoint_ports:
  assumes "bitset B" and "am_ok B m" and "\<And>xs. set (ord xs) = set xs"
  shows "\<exists>m' r. am_UseNextFree B ord m = Returns (m', r) \<and> am_ok B m' \<and>
    (case r of
       Some (ip, port, endPort) \<Rightarrow> ip \<in> ks_keys (am_slots m) \<and> 1024 \<le> port \<and> endPort \<le> 65535 \<and>
         endPort = port + portsPerNetworkInterface m - 1 \<and>
         {port..endPort} \<inter> used_ports B m ip = {} \<and>
         used_ports B m' ip = {port..endPort} \<union> used_ports B m ip \<and>
         (\<forall>ip'. ip' \<noteq> ip \<longrightarrow> used_ports B m' ip' = used_ports B m ip')
     | None \<Rightarrow> m' = m \<and> used (am_slots m) = Total (Some (am_slots m)))"
  using bitset.am_UseNextFree_spec [OF assms] by (elim exE conjE) (intro exI conjI)

definition example_manager :: "bool list AllocationManager" where
  "example_manager = \<lparr>portsPerNetworkInterface = 32256, am_slots = NewKeySlots list_bitset 2 [V4 1, V4 2]\<rparr>"

lemma example_manager_ok: "am_ok list_bitset example_manager"
  by (simp add: am_ok_def example_manager_def list_bitset.NewKeySlots_ok port_consts)

theorem UseNextFree_disjoint_ports_witness:
  "\<exists>m' r. am_UseNextFree list_bitset rev example_manager = Returns (m', r) \<and> am_ok list_bitset m' \<and>
    (case r of
       Some (ip, port, endPort) \<Rightarrow> ip \<in> ks_keys (am_slots example_manager) \<and> 1024 \<le> port \<and> endPort \<le> 65535 \<and>
         endPort = port + portsPerNetworkInterface example_manager - 1 \<and>
         {port..endPort} \<inter> used_ports list_bitset example_manager ip = {} \<and>
         used_ports list_bitset m' ip = {port..endPort} \<union> used_ports list_bitset example_manager ip \<and>
         (\<forall>ip'. ip' \<noteq> ip \<longrightarrow> used_ports list_bitset m' ip' = used_ports list_bitset example_manager ip')
     | None \<Rightarrow> m' = example_manager \<and> used (am_slots example_manager) = Total (Some (am_slots example_manager)))"
  by (rule UseNextFree_disjoint_ports [OF list_bitset.bitset_axioms example_manager_ok]) simp

text \<open>
  Ports and slots are inverse: with at least two ports per network interface, the slot of
  the ports of a slot is that slot. With one port per network interface the code refuses every
  range, so no existing allocation is ever recognised.
\<close>

theorem ports_roundtrip:
  "(1 < portsPerNetworkInterface m \<and> int slot < noOfEphemeralPorts div portsPerNetworkInterface m \<longrightarrow>
     slotForPorts m (fst (portsForSlot m slot)) (snd (portsForSlot m slot)) = Some slot) \<and>
   (portsPerNetworkInterface m = 1 \<and> slot < 64512 \<longrightarrow>
     slotForPorts m (fst (portsForSlot m slot)) (snd (portsForSlot m slot)) = None)"
proof (intro conjI impI)
  assume "portsPerNetworkInterface m = 1 \<and> slot < 64512"
  then show "slotForPorts m (fst (portsForSlot m slot)) (snd (portsForSlot m slot)) = None"
    using portsForSlot_eq [of m slot] by (simp add: slotForPorts_def port_consts)
qed (use slotForPorts_portsForSlot in blast)

theorem ports_roundtrip_witness:
  "slotForPorts example_manager (fst (portsForSlot example_manager 1)) (snd (portsForSlot example_manager 1)) = Some 1"
proof -
  have "1 < portsPerNetworkInterface example_manager \<and>
      int 1 < noOfEphemeralPorts div portsPerNetworkInterface example_manager"
    by (simp add: example_manager_def port_consts)
  then show ?thesis using ports_roundtrip [of example_manager 1] by blast
qed

text \<open>
  Taking over an existing range that is aligned to a slot succeeds exactly when the IP is
  known and no port of the range is in use, and marks exactly that range.
\<close>

theorem Use_aligned_ports:
  assumes "bitset B" and "am_ok B m" and "1 < portsPerNetworkInterface m"
    and "int slot < noOfEphemeralPorts div portsPerNetworkInterface m"
    and "(port, endPort) = portsForSlot m slot"
  shows "am_ok B (fst (am_Use B m ip port endPort)) \<and>
    (snd (am_Use B m ip port endPort) \<longleftrightarrow>
       ip \<in> ks_keys (am_slots m) \<and> {port..endPort} \<inter> used_ports B m ip = {}) \<and>
    (snd (am_Use B m ip port endPort) \<longrightarrow>
       used_ports B (fst (am_Use B m ip port endPort)) ip = {port..endPort} \<union> used_ports B m ip)"
  using bitset.am_Use_spec [OF assms(1-4), OF assms(5)] by simp

theorem Use_aligned_ports_witness:
  "am_ok list_bitset (fst (am_Use list_bitset example_manager (V4 1) 33280 65535)) \<and>
    (snd (am_Use list_bitset example_manager (V4 1) 33280 65535) \<longleftrightarrow>
       V4 1 \<in> ks_keys (am_slots example_manager) \<and>
       {33280..65535} \<inter> used_ports list_bitset example_manager (V4 1) = {})"
proof -
  have "1 < portsPerNetworkInterface example_manager"
    "int 1 < noOfEphemeralPorts div portsPerNetworkInterface example_manager"
    by (simp_all add: example_manager_def port_consts)
  moreover have "(33280, 65535) = portsForSlot example_manager 1"
    by (simp add: example_manager_def portsForSlot_def am_endPort_def port_consts)
  ultimately show ?thesis
    using Use_aligned_ports [OF list_bitset.bitset_axioms example_manager_ok] by blast
qed

text \<open>
  The alignment of a range is not checked: a range that starts inside a slot is accepted
  as that slot, and the next range handed out on the same IP overlaps it.
\<close>

theorem misaligned_range_overlaps:
  "case NewAllocationManager list_bitset 32000 [V4 1] of
     Panics \<Rightarrow> False
   | Returns m0 \<Rightarrow>
      snd (am_Use list_bitset m0 (V4 1) 2024 34023) \<and>
      (case am_UseNextFree list_bitset rev (fst (am_Use list_bitset m0 (V4 1) 2024 34023)) of
         Returns (_, Some (ip, port, endPort)) \<Rightarrow> ip = V4 1 \<and> port = 33024 \<and> port \<in> {2024..34023}
       | _ \<Rightarrow> False)"
proof -
  have "(64512 :: int) sdiv 32000 = 2" "(1000 :: int) sdiv 32000 = 0" "replicate 2 False = [False, False]"
    by (simp_all add: sdiv_nonneg numeral_2_eq_2)
  then show ?thesis
    by (simp add: NewAllocationManager_def NewKeySlots_def am_Use_def am_UseNextFree_def slotForPorts_def
        am_endPort_def portsForSlot_def Use_def UseNextFree_def port_consts to_uint_def
        list_bitset_def Let_def upt_rec)
qed

text \<open>
  C31. The desired number of IPs, before the configured bounds: while the current IPs suffice
  it is the least number whose slots cover the requests; when they do not, it is the number of
  IPs that the requests fill completely, so a rest of requests gets no IP. The bounds clamp it,
  the upper bound last. The ports per interface are between 1 and 64512, the current IPs fit 31 bits and
  the requests 62, so that no product wraps around.
\<close>

theorem desired_number_of_ips:
  assumes "0 < ngs_PortsPerNetworkInterface (ng_Spec ng)"
    and "ngs_PortsPerNetworkInterface (ng_Spec ng) \<le> noOfEphemeralPorts"
    and "0 \<le> t" "t < 2147483648" "0 \<le> req" "req < 4611686018427387904"
  defines "sp \<equiv> noOfEphemeralPorts div ngs_PortsPerNetworkInterface (ng_Spec ng)"
  shows "\<exists>d0. (if req \<le> sp * t then req \<le> sp * d0 \<and> sp * (d0 - 1) < req else d0 = req div sp) \<and>
    determineDesiredNumberOfIPs a ng t req = Returns
      (let d1 = (case ngas_MinPublicIPs (nga_Spec a) of None \<Rightarrow> d0 | Some mn \<Rightarrow> max mn d0)
       in (case ngas_MaxPublicIPs (nga_Spec a) of None \<Rightarrow> d1 | Some mx \<Rightarrow> min mx d1))"
proof -
  note sp = SlotsPerIP_pos [OF assms(1,2), folded sp_def]
  define d0 where "d0 = t - (sp * t - req) sdiv sp"
  have b: "0 \<le> sp * t" using sp(2) assms(3) by simp
  have "sp * t \<le> 64512 * t" using sp(3) assms(3) by (intro mult_right_mono)
  then have b': "sp * t < 138542173929472 + 1024" using assms(4) by simp
  have spec: "if req \<le> sp * t then req \<le> sp * d0 \<and> sp * (d0 - 1) < req else d0 = req div sp"
    using sizing_surplus [OF sp(2), of req t] sizing_shortage [OF sp(2), of t req] by (auto simp: d0_def)
  have ab: "\<bar>(sp * t - req) sdiv sp\<bar> \<le> \<bar>sp * t - req\<bar>"
  proof (cases "req \<le> sp * t")
    case True
    then show ?thesis
      using sp(2) zdiv_mono2 [of "sp * t - req" 1 sp] by (simp add: sdiv_nonneg pos_imp_zdiv_nonneg_iff)
  next
    case False
    then show ?thesis
      using sp(2) zdiv_mono2 [of "req - sp * t" 1 sp] by (simp add: sdiv_neg pos_imp_zdiv_nonneg_iff)
  qed
  have i1: "i64 (sp * t) = sp * t" using b b' by (intro i64_id) linarith+
  have i2: "i64 (sp * t - req) = sp * t - req" using b b' assms(5,6) by (intro i64_id) linarith+
  have i3: "i64 ((sp * t - req) sdiv sp) = (sp * t - req) sdiv sp"
    using ab b b' assms(5,6) by (intro i64_id) linarith+
  have i4: "i64 (t - (sp * t - req) sdiv sp) = d0"
    using ab b b' assms(3-6) unfolding d0_def by (intro i64_id) linarith+
  have "determineDesiredNumberOfIPs a ng t req = Returns
      (let d1 = (case ngas_MinPublicIPs (nga_Spec a) of None \<Rightarrow> d0 | Some mn \<Rightarrow> max mn d0)
       in (case ngas_MaxPublicIPs (nga_Spec a) of None \<Rightarrow> d1 | Some mx \<Rightarrow> min mx d1))"
    using sp(2) by (simp add: determineDesiredNumberOfIPs_def sp(1) i1 i2 i3 i4 Let_def split: option.split)
  with spec show ?thesis by blast
qed

definition example_gateway :: NATGateway where
  "example_gateway = \<lparr>ng_Meta = zero_meta\<lparr>om_Name := ''nat'', om_UID := ''nat-uid''\<rparr>,
     ng_Spec = \<lparr>ngs_IPFamily = IPv4Protocol, ngs_NetworkRef = ''net'', ngs_IPs = [],
       ngs_PortsPerNetworkInterface = 32256\<rparr>,
     ng_Status = \<lparr>ngst_UsedNATIPs = 0, ngst_RequestedNATIPs = 1\<rparr>\<rparr>"

definition example_autoscaler :: NATGatewayAutoscaler where
  "example_autoscaler = \<lparr>nga_Meta = zero_meta\<lparr>om_Name := ''as''\<rparr>,
     nga_Spec = \<lparr>ngas_NATGatewayRef = ''nat'', ngas_MinPublicIPs = None, ngas_MaxPublicIPs = None\<rparr>\<rparr>"

theorem desired_number_of_ips_witness:
  "\<exists>d0. (if (5 :: int) \<le> 2 * 1 then 5 \<le> 2 * d0 \<and> 2 * (d0 - 1) < 5 else d0 = 5 div 2) \<and>
     determineDesiredNumberOfIPs example_autoscaler example_gateway 1 5 = Returns d0"
  using desired_number_of_ips [of example_gateway 1 5 example_autoscaler]
  by (simp add: example_gateway_def example_autoscaler_def port_consts)

text \<open>
  With no IP and one request the autoscaler asks for no IP: the only request is never
  served, and the state is a fixed point of the sizing.
\<close>

theorem single_request_starves:
  "ngs_IPs (ng_Spec example_gateway) = [] \<and> ngst_RequestedNATIPs (ng_Status example_gateway) = 1 \<and>
   natGatewayIPs_update ord draws example_autoscaler example_gateway = Returns (Some None)"
proof -
  have "(64512 :: int) sdiv 32256 = 2" "(- 1 :: int) sdiv 2 = 0"
    by (simp_all add: sdiv_nonneg sdiv_neg)
  then show ?thesis
    by (simp add: natGatewayIPs_update_def determineDesiredNumberOfIPs_def SlotsPerIP_def
        example_gateway_def example_autoscaler_def port_consts Let_def i64_id)
qed

text \<open>
  An update of the gateway's IPs keeps the older IPs and makes their number the desired
  one: a surplus is cut from the end; for a shortage, new IPs are appended whose names are
  pairwise distinct and not in use.
\<close>

theorem natGatewayIPs_update_spec:
  assumes "natGatewayIPs_update ord draws a ng = Returns (Some (Some ips'))"
    and "determineDesiredNumberOfIPs a ng (int (length (ngs_IPs (ng_Spec ng)))) (ngst_RequestedNATIPs (ng_Status ng))
      = Returns d"
    and "\<And>xs. set (ord xs) = set xs \<and> length (ord xs) = length xs"
  shows "int (length ips') = d \<and>
    (\<exists>rest. if d < int (length (ngs_IPs (ng_Spec ng))) then ngs_IPs (ng_Spec ng) = ips' @ rest
     else ips' = ngs_IPs (ng_Spec ng) @ rest \<and> distinct (map natip_Name rest) \<and>
       natip_Name ` set rest \<inter> natip_Name ` set (ngs_IPs (ng_Spec ng)) = {})"
proof -
  let ?ips = "ngs_IPs (ng_Spec ng)"
  consider (up) new where "int (length ?ips) < d"
      "generateNewNATGatewayIPs ord ng (nat (d - int (length ?ips))) draws = Some new" "ips' = ?ips @ new"
    | (down) "d < int (length ?ips)" "0 \<le> d" "ips' = take (nat d) ?ips"
    using assms(1,2) by (auto simp: natGatewayIPs_update_def Let_def split: if_splits)
  then show ?thesis
  proof cases
    case up
    then obtain names where n: "generate_names (natip_Name ` set ?ips) (nat (d - int (length ?ips))) [] draws = Some names"
      "new = map (\<lambda>n. \<lparr>natip_Name = n, natip_IP = ZeroAddr\<rparr>) (ord names)"
      by (auto simp: generateNewNATGatewayIPs_def)
    have "distinct names \<and> set names \<inter> natip_Name ` set ?ips = {} \<and> length names = nat (d - int (length ?ips))"
      using generate_names_spec [OF n(1)] by simp
    moreover have "distinct (ord names)"
      using assms(3) [of names] calculation by (metis card_distinct distinct_card)
    ultimately show ?thesis using up n(2) assms(3) [of names] by (auto simp: comp_def)
  next
    case down
    then show ?thesis by (auto intro!: exI [of _ "drop (nat d) ?ips"])
  qed
qed

definition example_gateway1 :: NATGateway where
  "example_gateway1 = example_gateway\<lparr>ng_Status := \<lparr>ngst_UsedNATIPs = 0, ngst_RequestedNATIPs = 2\<rparr>\<rparr>"

theorem natGatewayIPs_update_spec_witness:
  "natGatewayIPs_update rev [''a'', ''b''] example_autoscaler example_gateway1
     = Returns (Some (Some [\<lparr>natip_Name = ''a'', natip_IP = ZeroAddr\<rparr>])) \<and>
   int (length [\<lparr>natip_Name = ''a'', natip_IP = ZeroAddr\<rparr>]) = 1"
proof -
  have *: "(64512 :: int) sdiv 32256 = 2" "(- 2 :: int) sdiv 2 = - 1"
    by (simp_all add: sdiv_nonneg sdiv_neg)
  have d: "determineDesiredNumberOfIPs example_autoscaler example_gateway1
      (int (length (ngs_IPs (ng_Spec example_gateway1)))) (ngst_RequestedNATIPs (ng_Status example_gateway1)) = Returns 1"
    using * by (simp add: determineDesiredNumberOfIPs_def SlotsPerIP_def
        example_gateway_def example_gateway1_def example_autoscaler_def port_consts Let_def i64_id)
  have u: "natGatewayIPs_update rev [''a'', ''b''] example_autoscaler example_gateway1
     = Returns (Some (Some [\<lparr>natip_Name = ''a'', natip_IP = ZeroAddr\<rparr>]))"
    using d by (simp add: natGatewayIPs_update_def generateNewNATGatewayIPs_def Let_def
        example_gateway_def example_gateway1_def)
  show ?thesis using natGatewayIPs_update_spec [OF u d] u by simp
qed

end
