(* ===== verification/Kube.thy ===== *)
theory Kube
  imports ApiStore
begin

text \<open>
  The client of the controller runtime for one kind of object, as the controllers use it. It
  belongs to a package and talks to a service outside the repository, so it is a record of
  operations over an abstract cluster state; the locale \<open>kube_api\<close> states the documented
  behaviour the theorems rely on. A merge patch is computed from the object and the base it
  is compared with: a field that is the same in both is not part of the patch.
\<close>

record ('s, 'o) kclient =
  k_get :: "'s \<Rightarrow> ObjectKey \<Rightarrow> 'o result"
  k_list :: "'s \<Rightarrow> string \<Rightarrow> 'o list result"
  k_create :: "'s \<Rightarrow> 'o \<Rightarrow> 's \<times> 'o result"
  k_delete :: "'s \<Rightarrow> ObjectKey \<Rightarrow> 's \<times> go_error option"
  k_patch :: "'s \<Rightarrow> 'o \<Rightarrow> 'o \<Rightarrow> bool \<Rightarrow> 's \<times> 'o result"
  k_statusPatch :: "'s \<Rightarrow> 'o \<Rightarrow> 'o \<Rightarrow> 's \<times> 'o result"
  k_apply :: "'s \<Rightarrow> 'o \<Rightarrow> 's \<times> 'o result"

text \<open>
  \<open>objs\<close> are the stored objects, \<open>meta\<close> the metadata of an object and \<open>fld\<close> a field that a
  merge patch replaces as a whole. The flag of \<open>k_patch\<close> asks for an optimistic lock on the
  base's resource version.
\<close>

locale kube_api =
  fixes K :: "('s, 'o) kclient"
    and objs :: "'s \<Rightarrow> ObjectKey \<rightharpoonup> 'o"
    and meta :: "'o \<Rightarrow> ObjectMeta"
    and fld :: "'o \<Rightarrow> 'f"
  assumes get_ok: "k_get K s k = Inr x \<Longrightarrow> objs s k = Some x \<and> meta_key (meta x) = k"
    and patch_ok: "k_patch K s x base lock = (s', Inr y) \<Longrightarrow>
      \<exists>x0. objs s (meta_key (meta x)) = Some x0 \<and> objs s' = (objs s)(meta_key (meta x) \<mapsto> y) \<and>
        meta_key (meta y) = meta_key (meta x) \<and>
        (lock \<longrightarrow> om_ResourceVersion (meta x0) = om_ResourceVersion (meta base)) \<and>
        fld y = (if fld x = fld base then fld x0 else fld x)"
    and patch_err: "k_patch K s x base lock = (s', Inl e) \<Longrightarrow> objs s' = objs s"
begin

text \<open>A patch whose object is its own base does not change the field of any stored object.\<close>

lemma self_patch_noop:
  assumes "k_patch K s x x lock = (s', r)"
  shows "map_option fld (objs s' k) = map_option fld (objs s k)"
proof (cases r)
  case (Inl e)
  with assms patch_err show ?thesis by metis
next
  case (Inr y)
  with assms obtain x0 where "objs s (meta_key (meta x)) = Some x0"
    "objs s' = (objs s)(meta_key (meta x) \<mapsto> y)" "fld y = fld x0"
    using patch_ok [of s x x lock s' y] by auto
  then show ?thesis by simp
qed

end

section \<open>An in-memory server\<close>

text \<open>
  The store of the instance keeps a version counter next to the objects; \<open>merge base x x0\<close>
  applies the difference of \<open>base\<close> and \<open>x\<close> to the stored \<open>x0\<close>, and \<open>setRV\<close> sets the version.
\<close>

record 'o kube_mem =
  km_objs :: "(ObjectKey \<times> 'o) list"
  km_version :: nat

definition mem_kclient ::
  "('o \<Rightarrow> ObjectMeta) \<Rightarrow> (string \<Rightarrow> 'o \<Rightarrow> 'o) \<Rightarrow> ('o \<Rightarrow> 'o \<Rightarrow> 'o \<Rightarrow> 'o) \<Rightarrow> ('o kube_mem, 'o) kclient" where
  "mem_kclient meta setRV merge =
     (let put = (\<lambda>s k x. let v = Suc (km_version s); y = setRV (dec_nat v) x in
                   (\<lparr>km_objs = AList.update k y (km_objs s), km_version = v\<rparr>, Inr y));
          key = (\<lambda>x. meta_key (meta x)) in
      \<lparr>k_get = (\<lambda>s k. case map_of (km_objs s) k of
           None \<Rightarrow> Inl NotFound
         | Some x \<Rightarrow> if key x = k then Inr x else Inl NotFound),
       k_list = (\<lambda>s ns. Inr (filter (\<lambda>x. om_Namespace (meta x) = ns) (map snd (AList.clearjunk (km_objs s))))),
       k_create = (\<lambda>s x. if map_of (km_objs s) (key x) \<noteq> None then (s, Inl AlreadyExists) else put s (key x) x),
       k_delete = (\<lambda>s k. if map_of (km_objs s) k = None then (s, Some NotFound)
                         else (s\<lparr>km_objs := AList.delete k (km_objs s)\<rparr>, None)),
       k_patch = (\<lambda>s x base lock. case map_of (km_objs s) (key x) of
           None \<Rightarrow> (s, Inl NotFound)
         | Some x0 \<Rightarrow> if lock \<and> om_ResourceVersion (meta x0) \<noteq> om_ResourceVersion (meta base)
                       then (s, Inl Conflict) else put s (key x) (merge base x x0)),
       k_statusPatch = (\<lambda>s x base. case map_of (km_objs s) (key x) of
           None \<Rightarrow> (s, Inl NotFound) | Some x0 \<Rightarrow> put s (key x) x),
       k_apply = (\<lambda>s x. put s (key x) x)\<rparr>)"

lemma mem_kube_api:
  assumes "\<And>v x. meta_key (meta (setRV v x)) = meta_key (meta x)" "\<And>v x. fld (setRV v x) = fld x"
    and "\<And>base x x0. meta_key (meta (merge base x x0)) = meta_key (meta x)"
    and "\<And>base x x0. fld (merge base x x0) = (if fld x = fld base then fld x0 else fld x)"
  shows "kube_api (mem_kclient meta setRV merge) (\<lambda>s. map_of (km_objs s)) meta fld"
  by unfold_locales
    (use assms in \<open>auto simp: mem_kclient_def Let_def update_conv' split: option.splits if_splits\<close>)

section \<open>Retries\<close>

text \<open>
  \<open>wait.ExponentialBackoff(retry.DefaultRetry, ...)\<close> runs its condition at most five times and
  sleeps in between; what other clients do to the cluster meanwhile is the argument \<open>env\<close>. A
  condition is done, fails, or asks for a retry with the error it remembers. The result is
  the last remembered error when the attempts are used up.
\<close>

datatype 'r attempt = Done 'r | Fail go_error | Retry go_error

fun backoff ::
  "nat \<Rightarrow> (nat \<Rightarrow> 's \<Rightarrow> 's) \<Rightarrow> ('s \<Rightarrow> 'a \<Rightarrow> ('s \<times> 'a) \<times> 'r attempt) \<Rightarrow> 's \<Rightarrow> 'a \<Rightarrow> ('s \<times> 'a) \<times> 'r result"
where
  "backoff 0 env cond s a = ((s, a), Inl (ErrMsg ''timed out waiting for the condition''))"
| "backoff (Suc n) env cond s a =
     (case cond s a of
        (st, Done r) \<Rightarrow> (st, Inr r)
      | (st, Fail e) \<Rightarrow> (st, Inl e)
      | ((s', a'), Retry e) \<Rightarrow>
          if n = 0 then ((s', a'), Inl e) else backoff n env cond (env n s') a')"

definition DefaultRetrySteps :: nat where "DefaultRetrySteps = 5"

text \<open>An invariant of the state that every attempt and the environment keep.\<close>

lemma backoff_inv:
  assumes "backoff n env cond s a = ((s', a'), r)" "I s a"
    and "\<And>s a st t. I s a \<Longrightarrow> cond s a = (st, t) \<Longrightarrow> I (fst st) (snd st)"
    and "\<And>n s a. I s a \<Longrightarrow> I (env n s) a"
  shows "I s' a'"
  using assms(1,2)
proof (induction n arbitrary: s a)
  case (Suc n)
  obtain s1 a1 t where c: "cond s a = ((s1, a1), t)" by (metis surj_pair)
  then have "I s1 a1" using assms(3) [OF Suc.prems(2) c] by simp
  then show ?case using Suc c assms(4) by (auto split: attempt.splits if_splits)
qed simp

text \<open>A successful result was returned by some attempt, in a state that satisfies the invariant.\<close>

lemma backoff_Inr:
  assumes "backoff n env cond s a = (st, Inr r)" "I s a"
    and "\<And>s a st t. I s a \<Longrightarrow> cond s a = (st, t) \<Longrightarrow> I (fst st) (snd st)"
    and "\<And>n s a. I s a \<Longrightarrow> I (env n s) a"
  shows "\<exists>s0 a0. I s0 a0 \<and> cond s0 a0 = (st, Done r)"
  using assms(1,2)
proof (induction n arbitrary: s a)
  case (Suc n)
  obtain s1 a1 t where c: "cond s a = ((s1, a1), t)" by (metis surj_pair)
  then have "I s1 a1" using assms(3) [OF Suc.prems(2) c] by simp
  then have "I (env n s1) a1" by (rule assms(4))
  then show ?case using Suc c by (cases t) (auto split: if_splits)
qed simp

end
