(* ===== verification/NatGateway.thy ===== *)
theory NatGateway
  imports NatAllocation Kube "HOL-Library.Multiset"
begin

text \<open>
  The NAT gateway: claiming and releasing the NAT of a network interface
  (\<open>internal/client/client.go\<close>), the reconciler of
  \<open>internal/controllers/natgateway_controller.go\<close> that computes the NAT table of a gateway, and
  the reconciler of \<open>natgatewayautoscaler_controller.go\<close>.
\<close>

record 's nat_env =
  ne_gw :: "('s, NATGateway) kclient"
  ne_nic :: "('s, NetworkInterface) kclient"
  ne_table :: "('s, NATTable) kclient"
  ne_as :: "('s, NATGatewayAutoscaler) kclient"

section \<open>client.go\<close>

definition nic_key :: "NetworkInterface \<Rightarrow> ObjectKey" where
  "nic_key nic = meta_key (nic_Meta nic)"

definition nic_uid :: "NetworkInterface \<Rightarrow> string" where
  "nic_uid nic = om_UID (nic_Meta nic)"

abbreviation nic_NATs :: "NetworkInterface \<Rightarrow> NetworkInterfaceNAT list" where
  "nic_NATs nic \<equiv> nics_NATs (nic_Spec nic)"

definition set_NATs :: "NetworkInterfaceNAT list \<Rightarrow> NetworkInterface \<Rightarrow> NetworkInterface" where
  "set_NATs nats nic = nic\<lparr>nic_Spec := (nic_Spec nic)\<lparr>nics_NATs := nats\<rparr>\<rparr>"

text \<open>
  One attempt of the claim: the captured variables are the object and whether it must be read
  again. A conflict of the patch asks for a retry.
\<close>

definition claim_attempt ::
  "('s, NetworkInterface) kclient \<Rightarrow> ObjectKey \<Rightarrow> string \<Rightarrow> IPFamily \<Rightarrow> NetworkInterfaceNATClaimRef \<Rightarrow>
   's \<Rightarrow> NetworkInterface \<times> bool \<Rightarrow> ('s \<times> (NetworkInterface \<times> bool)) \<times> unit attempt" where
  "claim_attempt K key uid ipFamily claimRef s a =
     (let (nic0, needGet) = a in
      case (if needGet then k_get K s key else Inr nic0) of
        Inl err \<Rightarrow> ((s, (nic0, needGet)), Fail err)
      | Inr nic \<Rightarrow>
          if nic_uid nic \<noteq> uid then ((s, (nic, True)), Fail Conflict)
          else case GetNetworkInterfaceNATClaimer nic ipFamily of
            Some existing \<Rightarrow>
              if existing = claimRef then ((s, (nic, True)), Done ()) else ((s, (nic, True)), Fail Conflict)
          | None \<Rightarrow>
              let nic' = set_NATs (nic_NATs nic @ [\<lparr>nnat_IPFamily = ipFamily, nnat_ClaimRef = claimRef\<rparr>]) nic in
              case k_patch K s nic' nic True of
                (s', Inl err) \<Rightarrow>
                  if \<not> IsConflict err then ((s', (nic', True)), Fail err) else ((s', (nic', True)), Retry err)
              | (s', Inr y) \<Rightarrow> ((s', (y, True)), Done ()))"

text \<open>The object is passed by reference: it comes back as the last read or patch left it.\<close>

definition ClaimNetworkInterfaceNAT ::
  "(nat \<Rightarrow> 's \<Rightarrow> 's) \<Rightarrow> ('s, NetworkInterface) kclient \<Rightarrow> 's \<Rightarrow> NetworkInterface \<Rightarrow> IPFamily \<Rightarrow>
   NetworkInterfaceNATClaimRef \<Rightarrow> ('s \<times> NetworkInterface) \<times> go_error option" where
  "ClaimNetworkInterfaceNAT env K s nic ipFamily claimRef =
     (case GetNetworkInterfaceNATClaimer nic ipFamily of
        Some _ \<Rightarrow> ((s, nic), Some (ErrMsg ''cannot claim a claimed network interface''))
      | None \<Rightarrow>
          (case backoff DefaultRetrySteps env (claim_attempt K (nic_key nic) (nic_uid nic) ipFamily claimRef)
                  s (nic, False) of
             ((s', nic', _), Inl err) \<Rightarrow> ((s', nic'), Some err)
           | ((s', nic', _), Inr _) \<Rightarrow> ((s', nic'), None)))"

text \<open>The index of the first NAT of the family, and the slice without it.\<close>

fun delete_first_NAT :: "IPFamily \<Rightarrow> NetworkInterfaceNAT list \<Rightarrow> NetworkInterfaceNAT list" where
  "delete_first_NAT fam [] = []"
| "delete_first_NAT fam (n # ns) = (if nnat_IPFamily n = fam then ns else n # delete_first_NAT fam ns)"

text \<open>
  One attempt of the release. The patch is computed against \<open>nic\<close> itself, after its NATs have
  been changed: \<open>client.MergeFrom\<close> keeps the pointer it is given and the code makes no copy.
\<close>

definition release_attempt ::
  "('s, NetworkInterface) kclient \<Rightarrow> ObjectKey \<Rightarrow> string \<Rightarrow> IPFamily \<Rightarrow> NetworkInterfaceNATClaimRef \<Rightarrow>
   's \<Rightarrow> NetworkInterface \<times> bool \<Rightarrow> ('s \<times> (NetworkInterface \<times> bool)) \<times> unit attempt" where
  "release_attempt K key uid ipFamily initClaimRef s a =
     (let (nic0, needGet) = a;
          retriable = (\<lambda>err. if IsConflict err then Retry err else Fail err) in
      case (if needGet then k_get K s key else Inr nic0) of
        Inl err \<Rightarrow> ((s, (nic0, needGet)), retriable err)
      | Inr nic \<Rightarrow>
          if nic_uid nic \<noteq> uid then ((s, (nic, True)), Done ())
          else if GetNetworkInterfaceNATClaimer nic ipFamily \<noteq> Some initClaimRef then ((s, (nic, True)), Done ())
          else let nic' = set_NATs (delete_first_NAT ipFamily (nic_NATs nic)) nic in
               case k_patch K s nic' nic' True of
                 (s', Inl err) \<Rightarrow> ((s', (nic', True)), retriable (Wrapped ''error releasing network interface'' err))
               | (s', Inr y) \<Rightarrow> ((s', (y, True)), Done ()))"

definition ReleaseNetworkInterfaceNAT ::
  "(nat \<Rightarrow> 's \<Rightarrow> 's) \<Rightarrow> ('s, NetworkInterface) kclient \<Rightarrow> 's \<Rightarrow> NetworkInterface \<Rightarrow> IPFamily \<Rightarrow>
   's \<times> go_error option" where
  "ReleaseNetworkInterfaceNAT env K s nic ipFamily =
     (case GetNetworkInterfaceNATClaimer nic ipFamily of
        None \<Rightarrow> (s, None)
      | Some initClaimRef \<Rightarrow>
          (case backoff DefaultRetrySteps env (release_attempt K (nic_key nic) (nic_uid nic) ipFamily initClaimRef)
                  s (nic, False) of
             ((s', _), Inl err) \<Rightarrow> (s', Some err)
           | ((s', _), Inr _) \<Rightarrow> (s', None)))"

section \<open>natgateway_controller.go\<close>

record natIPAllocation =
  nia_ip :: net_IP
  nia_sec :: NATIPSection

fun existing_sections ::
  "'b bitset_ops \<Rightarrow> net_IP \<Rightarrow> NATIPSection list \<Rightarrow> 'b AllocationManager \<times> (string \<rightharpoonup> natIPAllocation) \<Rightarrow>
   'b AllocationManager \<times> (string \<rightharpoonup> natIPAllocation)" where
  "existing_sections B ip [] st = st"
| "existing_sections B ip (tgt # tgts) (mgr, allocByID) =
     (case nsec_TargetRef tgt of
        None \<Rightarrow> existing_sections B ip tgts (mgr, allocByID)
      | Some ref \<Rightarrow>
          (case am_Use B mgr ip (nsec_Port tgt) (nsec_EndPort tgt) of
             (mgr', True) \<Rightarrow>
               existing_sections B ip tgts (mgr', allocByID(ntref_UID ref \<mapsto> \<lparr>nia_ip = ip, nia_sec = tgt\<rparr>))
           | (mgr', False) \<Rightarrow> existing_sections B ip tgts (mgr', allocByID)))"

fun existing_ips ::
  "'b bitset_ops \<Rightarrow> NATIP list \<Rightarrow> 'b AllocationManager \<times> (string \<rightharpoonup> natIPAllocation) \<Rightarrow>
   'b AllocationManager \<times> (string \<rightharpoonup> natIPAllocation)" where
  "existing_ips B [] st = st"
| "existing_ips B (n # ns) (mgr, allocByID) =
     (if \<not> HasIP mgr (nat_IP n) then existing_ips B ns (mgr, allocByID)
      else existing_ips B ns (existing_sections B (nat_IP n) (nat_Sections n) (mgr, allocByID)))"

definition getExistingAllocations ::
  "'b bitset_ops \<Rightarrow> 's nat_env \<Rightarrow> 's \<Rightarrow> NATGateway \<Rightarrow> net_IP list \<Rightarrow> (string \<rightharpoonup> natIPAllocation) result outcome" where
  "getExistingAllocations B E s natGateway ips =
     (case k_get (ne_table E) s (meta_key (ng_Meta natGateway)) of
        Inl err \<Rightarrow>
          if \<not> IsNotFound err then Returns (Inl (Wrapped ''error getting NAT gateway routing'' err))
          else Returns (Inr Map.empty)
      | Inr routing \<Rightarrow>
          (case NewAllocationManager B (ngs_PortsPerNetworkInterface (ng_Spec natGateway)) ips of
             Panics \<Rightarrow> Panics
           | Returns mgr \<Rightarrow> Returns (Inr (snd (existing_ips B (nt_IPs routing) (mgr, Map.empty))))))"

definition natGatewayNetworkInterfaceSelector :: "NATGateway \<Rightarrow> NetworkInterface \<Rightarrow> bool" where
  "natGatewayNetworkInterfaceSelector natGateway nic =
     (let fam = ngs_IPFamily (ng_Spec natGateway) in
      if \<not> list_ex (\<lambda>ip. Family ip = fam) (nics_IPs (nic_Spec nic)) then False
      else \<not> list_ex (\<lambda>publicIP. npub_IPFamily publicIP = fam) (nics_PublicIPs (nic_Spec nic)))"

definition getNicIP :: "NATGateway \<Rightarrow> NetworkInterface \<Rightarrow> net_IP" where
  "getNicIP natGateway nic =
     (case find (\<lambda>ip. Family ip = ngs_IPFamily (ng_Spec natGateway)) (nics_IPs (nic_Spec nic)) of
        Some ip \<Rightarrow> ip | None \<Rightarrow> ZeroAddr)"

text \<open>
  \<open>map[net.IP]map[types.UID]NATIPSection\<close> as nested association lists. Every section the code
  adds has a target reference.
\<close>

type_synonym natTableData = "(net_IP \<times> (string \<times> NATIPSection) list) list"

definition addAlloc :: "natTableData \<Rightarrow> net_IP \<Rightarrow> NATIPSection \<Rightarrow> natTableData" where
  "addAlloc d ip target =
     (case nsec_TargetRef target of
        None \<Rightarrow> d
      | Some ref \<Rightarrow>
          AList.update ip
            (AList.update (ntref_UID ref) target (case map_of d ip of None \<Rightarrow> [] | Some m \<Rightarrow> m)) d)"

definition new_section :: "NATGateway \<Rightarrow> NetworkInterface \<Rightarrow> int \<Rightarrow> int \<Rightarrow> NATIPSection" where
  "new_section natGateway nic port endPort =
     \<lparr>nsec_IP = getNicIP natGateway nic, nsec_Port = port, nsec_EndPort = endPort,
      nsec_TargetRef = Some \<lparr>ntref_UID = nic_uid nic, ntref_Name = om_Name (nic_Meta nic),
        ntref_NodeRef = nics_NodeRef (nic_Spec nic)\<rparr>\<rparr>"

record ('s, 'b) manage_state =
  ms_s :: 's
  ms_mgr :: "'b AllocationManager"
  ms_alloc :: natTableData
  ms_requests :: int
  ms_claimed :: "NetworkInterface list"
  ms_free :: "NetworkInterface list"
  ms_errs :: "go_error list"

definition add_err :: "go_error option \<Rightarrow> ('s, 'b) manage_state \<Rightarrow> ('s, 'b) manage_state" where
  "add_err e st = (case e of None \<Rightarrow> st | Some err \<Rightarrow> st\<lparr>ms_errs := ms_errs st @ [err]\<rparr>)"

text \<open>The body of the first loop, over the network interfaces of the namespace.\<close>

definition scan_nic ::
  "'b bitset_ops \<Rightarrow> (nat \<Rightarrow> 's \<Rightarrow> 's) \<Rightarrow> 's nat_env \<Rightarrow> NATGateway \<Rightarrow> (string \<rightharpoonup> natIPAllocation) \<Rightarrow>
   NetworkInterface \<Rightarrow> ('s, 'b) manage_state \<Rightarrow> ('s, 'b) manage_state" where
  "scan_nic B env E natGateway existingAllocByNicID nic st =
     (let fam = ngs_IPFamily (ng_Spec natGateway) in
      case GetNetworkInterfaceNATClaimer nic fam of
        Some claimer \<Rightarrow>
          if nnref_UID claimer \<noteq> om_UID (ng_Meta natGateway) then st
          else if natGatewayNetworkInterfaceSelector natGateway nic then
            (let st1 = st\<lparr>ms_requests := ms_requests st + 1\<rparr> in
             case existingAllocByNicID (nic_uid nic) of
               Some existing \<Rightarrow>
                 st1\<lparr>ms_mgr := fst (am_Use B (ms_mgr st1) (nia_ip existing)
                        (nsec_Port (nia_sec existing)) (nsec_EndPort (nia_sec existing))),
                     ms_alloc := addAlloc (ms_alloc st1) (nia_ip existing) (nia_sec existing)\<rparr>
             | None \<Rightarrow> st1\<lparr>ms_claimed := ms_claimed st1 @ [nic]\<rparr>)
          else
            (let (s', e) = ReleaseNetworkInterfaceNAT env (ne_nic E) (ms_s st) nic fam in
             add_err (IgnoreNotFound e) (st\<lparr>ms_s := s'\<rparr>))
      | None \<Rightarrow>
          if \<not> natGatewayNetworkInterfaceSelector natGateway nic \<or> om_DeletionTimestamp (nic_Meta nic) \<noteq> None then st
          else st\<lparr>ms_requests := ms_requests st + 1, ms_free := ms_free st @ [nic]\<rparr>)"

text \<open>The second loop; the flag is \<open>full\<close>.\<close>

fun process_claimed ::
  "'b bitset_ops \<Rightarrow> (net_IP list \<Rightarrow> net_IP list) \<Rightarrow> (nat \<Rightarrow> 's \<Rightarrow> 's) \<Rightarrow> 's nat_env \<Rightarrow> NATGateway \<Rightarrow>
   NetworkInterface list \<Rightarrow> bool \<Rightarrow> ('s, 'b) manage_state \<Rightarrow> (('s, 'b) manage_state \<times> bool) outcome" where
  "process_claimed B ord env E natGateway [] full st = Returns (st, full)"
| "process_claimed B ord env E natGateway (nic # nics) full st =
     (let release = (\<lambda>st. let (s', e) = ReleaseNetworkInterfaceNAT env (ne_nic E) (ms_s st) nic
                                 (ngs_IPFamily (ng_Spec natGateway)) in
                     add_err (IgnoreNotFound e) (st\<lparr>ms_s := s'\<rparr>)) in
      if full then process_claimed B ord env E natGateway nics True (release st)
      else case am_UseNextFree B ord (ms_mgr st) of
        Panics \<Rightarrow> Panics
      | Returns (mgr', Some (ip, port, endPort)) \<Rightarrow>
          process_claimed B ord env E natGateway nics False
            (st\<lparr>ms_mgr := mgr', ms_alloc := addAlloc (ms_alloc st) ip (new_section natGateway nic port endPort)\<rparr>)
      | Returns (mgr', None) \<Rightarrow> process_claimed B ord env E natGateway nics True (release (st\<lparr>ms_mgr := mgr'\<rparr>)))"

text \<open>
  The third loop; its argument is the range that was taken but whose claim failed
  (\<open>shouldUseNextFree\<close> is that there is none). The new section is written from the interface as
  the claim left it.
\<close>

fun process_free ::
  "'b bitset_ops \<Rightarrow> (net_IP list \<Rightarrow> net_IP list) \<Rightarrow> (nat \<Rightarrow> 's \<Rightarrow> 's) \<Rightarrow> 's nat_env \<Rightarrow> NATGateway \<Rightarrow>
   NetworkInterface list \<Rightarrow> (net_IP \<times> int \<times> int) option \<Rightarrow> ('s, 'b) manage_state \<Rightarrow> ('s, 'b) manage_state outcome"
where
  "process_free B ord env E natGateway [] pending st = Returns st"
| "process_free B ord env E natGateway (nic # nics) pending st =
     (case (case pending of
              Some r \<Rightarrow> Returns (ms_mgr st, Some r)
            | None \<Rightarrow> am_UseNextFree B ord (ms_mgr st)) of
        Panics \<Rightarrow> Panics
      | Returns (mgr', None) \<Rightarrow> Returns (st\<lparr>ms_mgr := mgr'\<rparr>)
      | Returns (mgr', Some (ip, port, endPort)) \<Rightarrow>
          let st1 = st\<lparr>ms_mgr := mgr'\<rparr>;
              claimRef = \<lparr>nnref_Name = om_Name (ng_Meta natGateway), nnref_UID = om_UID (ng_Meta natGateway)\<rparr> in
          (case ClaimNetworkInterfaceNAT env (ne_nic E) (ms_s st1) nic (ngs_IPFamily (ng_Spec natGateway)) claimRef of
             ((s', _), Some err) \<Rightarrow>
               process_free B ord env E natGateway nics (Some (ip, port, endPort))
                 (add_err (IgnoreNotFound (Some err)) (st1\<lparr>ms_s := s'\<rparr>))
           | ((s', nic'), None) \<Rightarrow>
               process_free B ord env E natGateway nics None
                 (st1\<lparr>ms_s := s',
                      ms_alloc := addAlloc (ms_alloc st1) ip (new_section natGateway nic' port endPort)\<rparr>)))"

text \<open>The table that \<open>applyNATTable\<close> builds; the orders of the two map iterations are arguments.\<close>

definition controller_ref :: "string \<Rightarrow> ObjectMeta \<Rightarrow> OwnerReference" where
  "controller_ref kind m =
     \<lparr>or_APIVersion = GroupName @ ''/v1alpha1'', or_Kind = kind, or_Name = om_Name m, or_UID = om_UID m,
      or_Controller = Some True, or_BlockOwnerDeletion = Some True\<rparr>"

definition natTable_of ::
  "(NATIPSection list \<Rightarrow> NATIPSection list) \<Rightarrow> (NATIP list \<Rightarrow> NATIP list) \<Rightarrow> NATGateway \<Rightarrow> natTableData \<Rightarrow> NATTable" where
  "natTable_of ordS ordI natGateway natTableData =
     \<lparr>nt_Meta = zero_meta\<lparr>om_Namespace := om_Namespace (ng_Meta natGateway), om_Name := om_Name (ng_Meta natGateway),
        om_OwnerReferences := [controller_ref ''NATGateway'' (ng_Meta natGateway)]\<rparr>,
      nt_IPs = sort_key nat_IP (ordI (map (\<lambda>(ip, allocs).
        \<lparr>nat_IP = ip, nat_Sections = sort_key nsec_Port (ordS (map snd allocs))\<rparr>) natTableData))\<rparr>"

definition applyNATTable ::
  "(NATIPSection list \<Rightarrow> NATIPSection list) \<Rightarrow> (NATIP list \<Rightarrow> NATIP list) \<Rightarrow> 's nat_env \<Rightarrow> 's \<Rightarrow>
   NATGateway \<Rightarrow> natTableData \<Rightarrow> 's \<times> go_error option" where
  "applyNATTable ordS ordI E s natGateway natTableData =
     (case k_apply (ne_table E) s (natTable_of ordS ordI natGateway natTableData) of
        (s', Inl err) \<Rightarrow> (s', Some (Wrapped ''error applying NAT table'' err))
      | (s', Inr _) \<Rightarrow> (s', None))"

text \<open>The three loops of \<open>manageNATTable\<close>, before the table is applied.\<close>

definition allocate_nics ::
  "'b bitset_ops \<Rightarrow> (net_IP list \<Rightarrow> net_IP list) \<Rightarrow> (nat \<Rightarrow> 's \<Rightarrow> 's) \<Rightarrow> 's nat_env \<Rightarrow> NATGateway \<Rightarrow>
   (string \<rightharpoonup> natIPAllocation) \<Rightarrow> NetworkInterface list \<Rightarrow> 'b AllocationManager \<Rightarrow> 's \<Rightarrow> ('s, 'b) manage_state outcome" where
  "allocate_nics B ord env E natGateway existing nics mgr s =
     (let st0 = \<lparr>ms_s = s, ms_mgr = mgr, ms_alloc = [], ms_requests = 0, ms_claimed = [], ms_free = [], ms_errs = []\<rparr>;
          st1 = fold (scan_nic B env E natGateway existing) nics st0 in
      case process_claimed B ord env E natGateway (ms_claimed st1) False st1 of
        Panics \<Rightarrow> Panics
      | Returns (st2, full) \<Rightarrow>
          if full then Returns st2 else process_free B ord env E natGateway (ms_free st2) None st2)"

definition manageNATTable ::
  "'b bitset_ops \<Rightarrow> (net_IP list \<Rightarrow> net_IP list) \<Rightarrow> (NATIPSection list \<Rightarrow> NATIPSection list) \<Rightarrow>
   (NATIP list \<Rightarrow> NATIP list) \<Rightarrow> (nat \<Rightarrow> 's \<Rightarrow> 's) \<Rightarrow> 's nat_env \<Rightarrow> NATGateway \<Rightarrow> net_IP list \<Rightarrow>
   (string \<rightharpoonup> natIPAllocation) \<Rightarrow> 's \<Rightarrow> ('s \<times> (int \<times> int) result) outcome" where
  "manageNATTable B ord ordS ordI env E natGateway ips existing s =
     (case k_list (ne_nic E) s (om_Namespace (ng_Meta natGateway)) of
        Inl err \<Rightarrow> Returns (s, Inl (Wrapped ''error listing network interfaces'' err))
      | Inr nics \<Rightarrow>
          (case NewAllocationManager B (ngs_PortsPerNetworkInterface (ng_Spec natGateway)) ips of
             Panics \<Rightarrow> Panics
           | Returns mgr \<Rightarrow>
               (case allocate_nics B ord env E natGateway existing nics mgr s of
                  Panics \<Rightarrow> Panics
                | Returns st \<Rightarrow>
                    let (s', e) = applyNATTable ordS ordI E (ms_s st) natGateway (ms_alloc st);
                        st' = add_err e st in
                    Returns (s', case errors_Join (ms_errs st') of
                        Some err \<Rightarrow> Inl err
                      | None \<Rightarrow> Inr (am_Used (ms_mgr st'), ms_requests st')))))"

definition updateNATGatewayUsedRequests ::
  "'s nat_env \<Rightarrow> 's \<Rightarrow> NATGateway \<Rightarrow> int \<Rightarrow> int \<Rightarrow> 's \<times> go_error option" where
  "updateNATGatewayUsedRequests E s natGateway usedNATIPs requests =
     (let natGateway' = natGateway\<lparr>ng_Status := \<lparr>ngst_UsedNATIPs = usedNATIPs, ngst_RequestedNATIPs = requests\<rparr>\<rparr> in
      case k_statusPatch (ne_gw E) s natGateway' natGateway of
        (s', Inl err) \<Rightarrow> (s', Some (Wrapped ''error patching nat gateway status'' err))
      | (s', Inr _) \<Rightarrow> (s', None))"

definition natgateway_reconcile ::
  "'b bitset_ops \<Rightarrow> (net_IP list \<Rightarrow> net_IP list) \<Rightarrow> (NATIPSection list \<Rightarrow> NATIPSection list) \<Rightarrow>
   (NATIP list \<Rightarrow> NATIP list) \<Rightarrow> (nat \<Rightarrow> 's \<Rightarrow> 's) \<Rightarrow> 's nat_env \<Rightarrow> 's \<Rightarrow> NATGateway \<Rightarrow> ('s \<times> go_error option) outcome" where
  "natgateway_reconcile B ord ordS ordI env E s natGateway =
     (let ips = GetNATGatewayIPs natGateway in
      case getExistingAllocations B E s natGateway ips of
        Panics \<Rightarrow> Panics
      | Returns (Inl err) \<Rightarrow> Returns (s, Some (Wrapped ''error getting existing allocations'' err))
      | Returns (Inr existing) \<Rightarrow>
          (case manageNATTable B ord ordS ordI env E natGateway ips existing s of
             Panics \<Rightarrow> Panics
           | Returns (s', Inl err) \<Rightarrow> Returns (s', Some (Wrapped ''error managing NAT IPs'' err))
           | Returns (s', Inr (usedIPs, requests)) \<Rightarrow>
               if usedIPs \<noteq> ngst_UsedNATIPs (ng_Status natGateway) \<or>
                  requests \<noteq> ngst_RequestedNATIPs (ng_Status natGateway) then
                 (case updateNATGatewayUsedRequests E s' natGateway usedIPs requests of
                    (s'', Some err) \<Rightarrow>
                      Returns (s'', Some (Wrapped ''error updating NAT gateway used / requested NAT IPs'' err))
                  | (s'', None) \<Rightarrow> Returns (s'', None))
               else Returns (s', None)))"

definition natgateway_Reconcile ::
  "'b bitset_ops \<Rightarrow> (net_IP list \<Rightarrow> net_IP list) \<Rightarrow> (NATIPSection list \<Rightarrow> NATIPSection list) \<Rightarrow>
   (NATIP list \<Rightarrow> NATIP list) \<Rightarrow> (nat \<Rightarrow> 's \<Rightarrow> 's) \<Rightarrow> 's nat_env \<Rightarrow> 's \<Rightarrow> ObjectKey \<Rightarrow> ('s \<times> go_error option) outcome" where
  "natgateway_Reconcile B ord ordS ordI env E s req =
     (case k_get (ne_gw E) s req of
        Inl err \<Rightarrow>
          if \<not> IsNotFound err then Returns (s, Some err)
          else (case k_delete (ne_table E) s req of
                  (s', e) \<Rightarrow>
                    (case IgnoreNotFound e of
                       Some err' \<Rightarrow> Returns (s', Some (Wrapped ''error deleting NAT table'' err'))
                     | None \<Rightarrow> Returns (s', None)))
      | Inr natGateway \<Rightarrow>
          if om_DeletionTimestamp (ng_Meta natGateway) \<noteq> None then Returns (s, None)
          else natgateway_reconcile B ord ordS ordI env E s natGateway)"

text \<open>The gateways to reconcile when a network interface changes.\<close>

definition enqueueByNetworkInterfaceNAT :: "NetworkInterface \<Rightarrow> ObjectKey list" where
  "enqueueByNetworkInterfaceNAT nic =
     map (\<lambda>nicNAT. \<lparr>key_Namespace = om_Namespace (nic_Meta nic), key_Name = nnref_Name (nnat_ClaimRef nicNAT)\<rparr>)
       (nic_NATs nic)"

fun drop_families :: "IPFamily list \<Rightarrow> IPFamily set \<Rightarrow> IPFamily set option" where
  "drop_families [] fams = Some fams"
| "drop_families (f # fs) fams = (let fams' = fams - {f} in if fams' = {} then None else drop_families fs fams')"

definition enqueueByNATGatewayNetworkInterfaceSelection ::
  "'s nat_env \<Rightarrow> 's \<Rightarrow> NetworkInterface \<Rightarrow> ObjectKey list" where
  "enqueueByNATGatewayNetworkInterfaceSelection E s nic =
     (case drop_families (map npub_IPFamily (nics_PublicIPs (nic_Spec nic))) (Family ` set (nics_IPs (nic_Spec nic))) of
        None \<Rightarrow> []
      | Some fams1 \<Rightarrow>
          (case drop_families (map nnat_IPFamily (nic_NATs nic)) fams1 of
             None \<Rightarrow> []
           | Some fams2 \<Rightarrow>
               (case k_list (ne_gw E) s (om_Namespace (nic_Meta nic)) of
                  Inl _ \<Rightarrow> []
                | Inr gws \<Rightarrow>
                    map (\<lambda>g. meta_key (ng_Meta g))
                      (filter (\<lambda>g. om_DeletionTimestamp (ng_Meta g) = None \<and> ngs_IPFamily (ng_Spec g) \<in> fams2) gws))))"

section \<open>natgatewayautoscaler_controller.go\<close>

definition updateNATGatewayIPs ::
  "'s nat_env \<Rightarrow> 's \<Rightarrow> NATGateway \<Rightarrow> NATGatewayIP list \<Rightarrow> 's \<times> go_error option" where
  "updateNATGatewayIPs E s natGateway ips =
     (let natGateway' = natGateway\<lparr>ng_Spec := (ng_Spec natGateway)\<lparr>ngs_IPs := ips\<rparr>\<rparr> in
      case k_patch (ne_gw E) s natGateway' natGateway True of
        (s', Inl err) \<Rightarrow> (s', Some err)
      | (s', Inr _) \<Rightarrow> (s', None))"

text \<open>\<open>None\<close> inside: the draws of names ran out before the loop ended.\<close>

definition manageNATGatewayIPs ::
  "(string list \<Rightarrow> string list) \<Rightarrow> string list \<Rightarrow> 's nat_env \<Rightarrow> 's \<Rightarrow> NATGatewayAutoscaler \<Rightarrow> NATGateway \<Rightarrow>
   ('s \<times> go_error option) option outcome" where
  "manageNATGatewayIPs ord draws E s autoscaler natGateway =
     (case natGatewayIPs_update ord draws autoscaler natGateway of
        Panics \<Rightarrow> Panics
      | Returns None \<Rightarrow> Returns None
      | Returns (Some None) \<Rightarrow> Returns (Some (s, None))
      | Returns (Some (Some ips)) \<Rightarrow> Returns (Some (updateNATGatewayIPs E s natGateway ips)))"

text \<open>The result is the state, the error and whether to requeue.\<close>

definition autoscaler_reconcile ::
  "(string list \<Rightarrow> string list) \<Rightarrow> string list \<Rightarrow> 's nat_env \<Rightarrow> 's \<Rightarrow> NATGatewayAutoscaler \<Rightarrow>
   ('s \<times> go_error option \<times> bool) option outcome" where
  "autoscaler_reconcile ord draws E s autoscaler =
     (let key = \<lparr>key_Namespace = om_Namespace (nga_Meta autoscaler),
                 key_Name = ngas_NATGatewayRef (nga_Spec autoscaler)\<rparr> in
      case k_get (ne_gw E) s key of
        Inl err \<Rightarrow>
          if \<not> IsNotFound err then Returns (Some (s, Some (Wrapped ''error getting NAT gateway'' err), False))
          else Returns (Some (s, None, False))
      | Inr natGateway \<Rightarrow>
          (case manageNATGatewayIPs ord draws E s autoscaler natGateway of
             Panics \<Rightarrow> Panics
           | Returns None \<Rightarrow> Returns None
           | Returns (Some (s', None)) \<Rightarrow> Returns (Some (s', None, False))
           | Returns (Some (s', Some err)) \<Rightarrow>
               if \<not> IsConflict err then Returns (Some (s', Some (Wrapped ''error managing public IPs'' err), False))
               else Returns (Some (s', None, True))))"

definition autoscaler_Reconcile ::
  "(string list \<Rightarrow> string list) \<Rightarrow> string list \<Rightarrow> 's nat_env \<Rightarrow> 's \<Rightarrow> ObjectKey \<Rightarrow>
   ('s \<times> go_error option \<times> bool) option outcome" where
  "autoscaler_Reconcile ord draws E s req =
     (case k_get (ne_as E) s req of
        Inl err \<Rightarrow> Returns (Some (s, IgnoreNotFound (Some err), False))
      | Inr autoscaler \<Rightarrow>
          if om_DeletionTimestamp (nga_Meta autoscaler) \<noteq> None then Returns (Some (s, None, False))
          else autoscaler_reconcile ord draws E s autoscaler)"

definition enqueueByNATGateway :: "'s nat_env \<Rightarrow> 's \<Rightarrow> NATGateway \<Rightarrow> ObjectKey list" where
  "enqueueByNATGateway E s natGateway =
     (case k_list (ne_as E) s (om_Namespace (ng_Meta natGateway)) of
        Inl _ \<Rightarrow> []
      | Inr as \<Rightarrow>
          map (\<lambda>a. meta_key (nga_Meta a))
            (filter (\<lambda>a. ngas_NATGatewayRef (nga_Spec a) = om_Name (ng_Meta natGateway)) as))"

section \<open>Claiming and releasing\<close>

locale nic_api = kube_api K objs nic_Meta nic_NATs
  for K :: "('s, NetworkInterface) kclient" and objs :: "'s \<Rightarrow> ObjectKey \<rightharpoonup> NetworkInterface"
begin

lemma claim_attempt_Done:
  assumes "claim_attempt K key uid fam ref s (nic0, needGet) = ((s', a'), Done ())"
    and "needGet \<or> nats_claimer (nic_NATs nic0) fam = None \<and> nic_key nic0 = key"
  shows "objs s' key = Some (fst a') \<and> nats_claimer (nic_NATs (fst a')) fam = Some ref"
proof -
  obtain nic where nic: "(if needGet then k_get K s key else Inr nic0) = Inr nic"
    using assms(1) by (auto simp: claim_attempt_def split: sum.splits if_splits)
  then have key: "nic_key nic = key" "needGet \<Longrightarrow> objs s key = Some nic"
    using assms(2) get_ok by (auto simp: nic_key_def split: if_splits)
  show ?thesis
  proof (cases "nats_claimer (nic_NATs nic) fam")
    case (Some c)
    then have "needGet" using assms(2) nic by (auto split: if_splits)
    then show ?thesis using assms(1) nic Some key
      by (auto simp: claim_attempt_def GetNetworkInterfaceNATClaimer_def Let_def split: if_splits)
  next
    case None
    let ?nats = "nic_NATs nic @ [\<lparr>nnat_IPFamily = fam, nnat_ClaimRef = ref\<rparr>]"
    obtain y where y: "k_patch K s (set_NATs ?nats nic) nic True = (s', Inr y)" "fst a' = y"
      using assms(1) nic None
      by (auto simp: claim_attempt_def GetNetworkInterfaceNATClaimer_def Let_def
          split: if_splits prod.splits sum.splits)
    then have "objs s' (nic_key nic) = Some y" "nic_NATs y = ?nats"
      using patch_ok [of s "set_NATs ?nats nic" nic True s' y] by (auto simp: set_NATs_def nic_key_def)
    then show ?thesis using None key y(2) by (auto simp: nats_claimer_append)
  qed
qed

lemma claim_attempt_needGet:
  "claim_attempt K key uid fam ref s a = (st, t) \<Longrightarrow> snd (snd st) \<or> snd st = a"
  by (auto simp: claim_attempt_def Let_def split: if_splits prod.splits sum.splits option.splits)

lemma Claim_ok:
  assumes "ClaimNetworkInterfaceNAT env K s nic fam ref = ((s', nic'), None)"
  shows "objs s' (nic_key nic) = Some nic' \<and> nats_claimer (nic_NATs nic') fam = Some ref"
proof -
  have none: "nats_claimer (nic_NATs nic) fam = None"
    using assms by (auto simp: ClaimNetworkInterfaceNAT_def GetNetworkInterfaceNATClaimer_def split: option.splits)
  let ?I = "\<lambda>(_ :: 's) (a :: NetworkInterface \<times> bool). snd a \<or> fst a = nic"
  obtain a' where b: "backoff DefaultRetrySteps env (claim_attempt K (nic_key nic) (nic_uid nic) fam ref) s (nic, False)
      = ((s', a'), Inr ())" and a': "fst a' = nic'"
    using assms none
    by (auto simp: ClaimNetworkInterfaceNAT_def GetNetworkInterfaceNATClaimer_def split: sum.splits prod.splits)
  have "\<exists>s0 a0. ?I s0 a0 \<and> claim_attempt K (nic_key nic) (nic_uid nic) fam ref s0 a0 = ((s', a'), Done ())"
    by (rule backoff_Inr [OF b, where I = ?I]) (auto dest: claim_attempt_needGet)
  then obtain s0 nic0 needGet where "needGet \<or> nic0 = nic"
    and c: "claim_attempt K (nic_key nic) (nic_uid nic) fam ref s0 (nic0, needGet) = ((s', a'), Done ())"
    by auto
  then show ?thesis using claim_attempt_Done [OF c] none a' by auto
qed

lemma release_attempt_noop:
  assumes "release_attempt K key uid fam ref s a = (st, t)"
  shows "map_option nic_NATs (objs (fst st) k) = map_option nic_NATs (objs s k)"
  using assms self_patch_noop
  by (fastforce simp: release_attempt_def Let_def split: if_splits prod.splits sum.splits)

lemma Release_noop:
  assumes "ReleaseNetworkInterfaceNAT env K s nic fam = (s', e)" and "\<And>n s. objs (env n s) = objs s"
  shows "map_option nic_NATs (objs s' k) = map_option nic_NATs (objs s k)"
proof (cases "GetNetworkInterfaceNATClaimer nic fam")
  case None
  with assms show ?thesis by (simp add: ReleaseNetworkInterfaceNAT_def)
next
  case (Some ref)
  then obtain a' r where b: "backoff DefaultRetrySteps env
      (release_attempt K (nic_key nic) (nic_uid nic) fam ref) s (nic, False) = ((s', a'), r)"
    using assms(1) by (auto simp: ReleaseNetworkInterfaceNAT_def split: prod.splits sum.splits)
  show ?thesis
    by (rule backoff_inv [OF b, where I = "\<lambda>t _. map_option nic_NATs (objs t k) = map_option nic_NATs (objs s k)"])
      (simp_all add: release_attempt_noop assms(2))
qed

end

section \<open>The computed table\<close>

text \<open>A section that covers exactly the ports of a slot, for \<open>p\<close> ports per network interface.\<close>

definition sec_slot :: "int \<Rightarrow> NATIPSection \<Rightarrow> nat" where
  "sec_slot p sec = nat ((nsec_Port sec - 1024) div p)"

definition sec_ok :: "int \<Rightarrow> NATIPSection \<Rightarrow> bool" where
  "sec_ok p sec \<longleftrightarrow> int (sec_slot p sec) < noOfEphemeralPorts div p \<and>
     nsec_Port sec = 1024 + int (sec_slot p sec) * p \<and>
     nsec_EndPort sec = 1023 + int (sec_slot p sec) * p + p \<and> nsec_TargetRef sec \<noteq> None"

definition entries :: "natTableData \<Rightarrow> (net_IP \<times> string \<times> NATIPSection) set" where
  "entries d = {(ip, uid, sec). \<exists>m. map_of d ip = Some m \<and> map_of m uid = Some sec}"

definition data_distinct :: "natTableData \<Rightarrow> bool" where
  "data_distinct d \<longleftrightarrow> distinct (map fst d) \<and> (\<forall>(ip, m)\<in>set d. distinct (map fst m) \<and> m \<noteq> [])"

text \<open>
  The allocations recorded so far: slots of the manager that are in use, a different slot for
  every entry.
\<close>

definition data_ok :: "'b bitset_ops \<Rightarrow> 'b AllocationManager \<Rightarrow> natTableData \<Rightarrow> bool" where
  "data_ok B m d \<longleftrightarrow> data_distinct d \<and>
     (\<forall>ip uid sec. (ip, uid, sec) \<in> entries d \<longrightarrow> sec_ok (portsPerNetworkInterface m) sec \<and>
        (ip, sec_slot (portsPerNetworkInterface m) sec) \<in> taken B (am_slots m)) \<and>
     (\<forall>ip uid sec uid' sec'. (ip, uid, sec) \<in> entries d \<and> (ip, uid', sec') \<in> entries d \<and>
        sec_slot (portsPerNetworkInterface m) sec = sec_slot (portsPerNetworkInterface m) sec' \<longrightarrow> uid = uid')"

lemma data_okD:
  assumes "data_ok B m d" "(ip, uid, sec) \<in> entries d"
  shows "sec_ok (portsPerNetworkInterface m) sec" "(ip, sec_slot (portsPerNetworkInterface m) sec) \<in> taken B (am_slots m)"
  using assms unfolding data_ok_def by blast+

lemma data_ok_inj:
  assumes "data_ok B m d" "(ip, uid, sec) \<in> entries d" "(ip, uid', sec') \<in> entries d"
    and "sec_slot (portsPerNetworkInterface m) sec = sec_slot (portsPerNetworkInterface m) sec'"
  shows "uid = uid'"
  using assms unfolding data_ok_def by blast

lemma taken_keys: "(ip, i) \<in> taken B s \<Longrightarrow> ip \<in> ks_keys s"
  by (auto simp: taken_def ks_keys_def)

lemma entries_addAlloc:
  assumes "nsec_TargetRef sec = Some ref"
  shows "(ip', uid, sec') \<in> entries (addAlloc d ip sec) \<longleftrightarrow>
    (if ip' = ip \<and> uid = ntref_UID ref then sec' = sec else (ip', uid, sec') \<in> entries d)"
  using assms by (auto simp: entries_def addAlloc_def update_conv' split: option.splits if_splits)

lemma addAlloc_distinct: "data_distinct d \<Longrightarrow> data_distinct (addAlloc d ip sec)"
proof -
  assume d: "data_distinct d"
  show ?thesis
  proof (cases "nsec_TargetRef sec")
    case (Some ref)
    let ?m = "AList.update (ntref_UID ref) sec (case map_of d ip of None \<Rightarrow> [] | Some m \<Rightarrow> m)"
    have "distinct (map fst (case map_of d ip of None \<Rightarrow> [] | Some m \<Rightarrow> m))"
      using d by (auto simp: data_distinct_def split: option.splits dest: map_of_SomeD)
    then have m: "distinct (map fst ?m) \<and> ?m \<noteq> []" by (simp add: distinct_update)
    have "set (AList.update ip x d) \<subseteq> insert (ip, x) (set d)" for x
      by (induction d) (auto split: if_splits)
    then have "\<forall>(ip', m)\<in>set (AList.update ip x d). distinct (map fst m) \<and> m \<noteq> []"
      if "distinct (map fst x) \<and> x \<noteq> []" for x
      using d that unfolding data_distinct_def by (smt (verit) case_prodI2 case_prodD insertE prod.inject subset_iff)
    note this [OF m]
    moreover have "distinct (map fst (AList.update ip ?m d))" using d by (simp add: data_distinct_def distinct_update)
    ultimately show ?thesis using Some by (simp add: data_distinct_def addAlloc_def)
  qed (use d in \<open>simp add: addAlloc_def\<close>)
qed

lemma sec_slot_eq: "0 < p \<Longrightarrow> nsec_Port sec = 1024 + int i * p \<Longrightarrow> sec_slot p sec = i"
  by (simp add: sec_slot_def)

lemma sec_ok_new:
  assumes "0 < p" "int i < noOfEphemeralPorts div p"
  shows "sec_ok p (new_section ng nic (1024 + int i * p) (1023 + int i * p + p))"
    "sec_slot p (new_section ng nic (1024 + int i * p) (1023 + int i * p + p)) = i"
  using assms sec_slot_eq [of p "new_section ng nic (1024 + int i * p) (1023 + int i * p + p)" i]
  by (simp_all add: sec_ok_def new_section_def)

text \<open>
  The tables the theorems speak about: addresses strictly sorted and of the gateway, sections
  of every address strictly sorted by port and made of whole slots.
\<close>

definition table_ok :: "int \<Rightarrow> net_IP set \<Rightarrow> NATTable \<Rightarrow> bool" where
  "table_ok p ips t \<longleftrightarrow> sorted (map nat_IP (nt_IPs t)) \<and> distinct (map nat_IP (nt_IPs t)) \<and>
     (\<forall>n\<in>set (nt_IPs t). nat_IP n \<in> ips \<and> sorted (map nsec_Port (nat_Sections n)) \<and>
        distinct (map nsec_Port (nat_Sections n)) \<and> (\<forall>sec\<in>set (nat_Sections n). sec_ok p sec))"

lemma table_ok_ports:
  assumes "table_ok p ips t" "0 < p" "n \<in> set (nt_IPs t)"
  shows "\<forall>sec\<in>set (nat_Sections n). {nsec_Port sec..nsec_EndPort sec} \<subseteq> {1024..65535} \<and>
      nsec_EndPort sec = nsec_Port sec + p - 1"
    and "\<forall>a\<in>set (nat_Sections n). \<forall>b\<in>set (nat_Sections n). a \<noteq> b \<longrightarrow>
      {nsec_Port a..nsec_EndPort a} \<inter> {nsec_Port b..nsec_EndPort b} = {}"
proof -
  let ?m = "\<lparr>portsPerNetworkInterface = p, am_slots = undefined\<rparr> :: bool list AllocationManager"
  have ok: "sec_ok p sec" if "sec \<in> set (nat_Sections n)" for sec
    using assms(1,3) that by (auto simp: table_ok_def)
  have ports: "{nsec_Port sec..nsec_EndPort sec} = slot_ports ?m (sec_slot p sec)" if "sec_ok p sec" for sec
    using that by (simp add: slot_ports_def sec_ok_def)
  show "\<forall>sec\<in>set (nat_Sections n). {nsec_Port sec..nsec_EndPort sec} \<subseteq> {1024..65535} \<and>
      nsec_EndPort sec = nsec_Port sec + p - 1"
  proof
    fix sec assume "sec \<in> set (nat_Sections n)"
    then show "{nsec_Port sec..nsec_EndPort sec} \<subseteq> {1024..65535} \<and> nsec_EndPort sec = nsec_Port sec + p - 1"
      using ok [of sec] slot_fits [OF assms(2), of "sec_slot p sec"] assms(2) by (simp add: sec_ok_def port_consts)
  qed
  show "\<forall>a\<in>set (nat_Sections n). \<forall>b\<in>set (nat_Sections n). a \<noteq> b \<longrightarrow>
      {nsec_Port a..nsec_EndPort a} \<inter> {nsec_Port b..nsec_EndPort b} = {}"
  proof (intro ballI impI)
    fix a b assume ab: "a \<in> set (nat_Sections n)" "b \<in> set (nat_Sections n)" "a \<noteq> b"
    have "inj_on nsec_Port (set (nat_Sections n))"
      using assms(1,3) by (simp add: table_ok_def distinct_map)
    then have "nsec_Port a \<noteq> nsec_Port b" using ab by (auto dest: inj_onD)
    then have "sec_slot p a \<noteq> sec_slot p b" using ok [OF ab(1)] ok [OF ab(2)] by (auto simp: sec_ok_def)
    then show "{nsec_Port a..nsec_EndPort a} \<inter> {nsec_Port b..nsec_EndPort b} = {}"
      unfolding ports [OF ok [OF ab(1)]] ports [OF ok [OF ab(2)]]
      using assms(2) by (intro slot_ports_disjoint) simp_all
  qed
qed

lemma distinct_map_fst:
  assumes "distinct (map fst xs)" and "\<And>x y. x \<in> set xs \<Longrightarrow> y \<in> set xs \<Longrightarrow> f x = f y \<Longrightarrow> fst x = fst y"
  shows "distinct (map f xs)"
  using assms unfolding distinct_map inj_on_def by blast

text \<open>An iteration order is a permutation.\<close>

definition is_order :: "('a list \<Rightarrow> 'a list) \<Rightarrow> bool" where
  "is_order ord \<longleftrightarrow> (\<forall>xs. mset (ord xs) = mset xs)"

lemma is_order_set: "is_order ord \<Longrightarrow> set (ord xs) = set xs"
  unfolding is_order_def by (metis set_mset_mset)

lemma is_order_distinct_map: "is_order ord \<Longrightarrow> distinct (map f (ord xs)) \<longleftrightarrow> distinct (map f xs)"
  unfolding is_order_def by (metis mset_eq_imp_distinct_iff mset_map)

lemma distinct_map_sort_key: "distinct (map f (sort_key g xs)) \<longleftrightarrow> distinct (map f xs)"
  by (metis mset_eq_imp_distinct_iff mset_map mset_sort)

text \<open>The existing allocations of different interfaces are different slots.\<close>

definition existing_ok ::
  "'b bitset_ops \<Rightarrow> 'b AllocationManager \<Rightarrow> (string \<rightharpoonup> natIPAllocation) \<Rightarrow> bool" where
  "existing_ok B m al \<longleftrightarrow>
     (\<forall>uid a. al uid = Some a \<longrightarrow> sec_ok (portsPerNetworkInterface m) (nia_sec a) \<and>
        map_option ntref_UID (nsec_TargetRef (nia_sec a)) = Some uid \<and>
        (nia_ip a, sec_slot (portsPerNetworkInterface m) (nia_sec a)) \<in> taken B (am_slots m)) \<and>
     (\<forall>uid a uid' a'. al uid = Some a \<and> al uid' = Some a' \<and> nia_ip a = nia_ip a' \<and>
        sec_slot (portsPerNetworkInterface m) (nia_sec a) = sec_slot (portsPerNetworkInterface m) (nia_sec a') \<longrightarrow>
        uid = uid')"

text \<open>
  What is known of the existing allocations once their manager is gone: whole slots of the
  interface they are recorded for, different slots for different interfaces.
\<close>

definition reusable :: "int \<Rightarrow> net_IP set \<Rightarrow> (string \<rightharpoonup> natIPAllocation) \<Rightarrow> bool" where
  "reusable p ips al \<longleftrightarrow>
     (\<forall>uid a. al uid = Some a \<longrightarrow> sec_ok p (nia_sec a) \<and> nia_ip a \<in> ips \<and>
        map_option ntref_UID (nsec_TargetRef (nia_sec a)) = Some uid) \<and>
     (\<forall>uid a uid' a'. al uid = Some a \<and> al uid' = Some a' \<and> nia_ip a = nia_ip a' \<and>
        sec_slot p (nia_sec a) = sec_slot p (nia_sec a') \<longrightarrow> uid = uid')"

definition st_ok :: "'b bitset_ops \<Rightarrow> int \<Rightarrow> net_IP set \<Rightarrow> ('s, 'b) manage_state \<Rightarrow> bool" where
  "st_ok B p ips st \<longleftrightarrow> am_ok B (ms_mgr st) \<and> portsPerNetworkInterface (ms_mgr st) = p \<and>
     ks_keys (am_slots (ms_mgr st)) = ips \<and> data_ok B (ms_mgr st) (ms_alloc st)"

definition scan_ok :: "'b bitset_ops \<Rightarrow> int \<Rightarrow> net_IP set \<Rightarrow> (string \<rightharpoonup> natIPAllocation) \<Rightarrow> ('s, 'b) manage_state \<Rightarrow> bool" where
  "scan_ok B p ips al st \<longleftrightarrow> st_ok B p ips st \<and>
     (\<forall>ip i. (ip, i) \<in> taken B (am_slots (ms_mgr st)) \<longrightarrow>
        (\<exists>uid sec. (ip, uid, sec) \<in> entries (ms_alloc st) \<and> sec_slot p sec = i)) \<and>
     (\<forall>ip uid sec. (ip, uid, sec) \<in> entries (ms_alloc st) \<longrightarrow> al uid = Some \<lparr>nia_ip = ip, nia_sec = sec\<rparr>)"

text \<open>A range that was taken while its claim failed belongs to no entry.\<close>

definition pending_ok :: "'b bitset_ops \<Rightarrow> int \<Rightarrow> ('s, 'b) manage_state \<Rightarrow> (net_IP \<times> int \<times> int) option \<Rightarrow> bool" where
  "pending_ok B p st pend \<longleftrightarrow> (\<forall>ip port endPort. pend = Some (ip, port, endPort) \<longrightarrow>
     (\<exists>i. int i < noOfEphemeralPorts div p \<and> port = 1024 + int i * p \<and> endPort = 1023 + int i * p + p \<and>
        (ip, i) \<in> taken B (am_slots (ms_mgr st)) \<and>
        (\<forall>uid sec. (ip, uid, sec) \<in> entries (ms_alloc st) \<longrightarrow> sec_slot p sec \<noteq> i)))"

context bitset
begin

lemma natTable_of_ok:
  assumes am: "am_ok B m" and d: "data_ok B m dat" and "is_order ordS" "is_order ordI"
  shows "table_ok (portsPerNetworkInterface m) (ks_keys (am_slots m)) (natTable_of ordS ordI ng dat)"
proof -
  let ?p = "portsPerNetworkInterface m"
  let ?ips = "map (\<lambda>(ip, allocs). \<lparr>nat_IP = ip, nat_Sections = sort_key nsec_Port (ordS (map snd allocs))\<rparr>) dat"
  have ips: "map nat_IP ?ips = map fst dat" by (simp add: case_prod_unfold comp_def)
  have dd: "distinct (map fst dat)" "\<And>ip allocs. (ip, allocs) \<in> set dat \<Longrightarrow> distinct (map fst allocs) \<and> allocs \<noteq> []"
    using d by (auto simp: data_ok_def data_distinct_def)
  have ent: "(ip, uid, sec) \<in> entries dat" if "(ip, allocs) \<in> set dat" "(uid, sec) \<in> set allocs" for ip allocs uid sec
    using that dd by (auto simp: entries_def)
  have sec: "sec_ok ?p sec \<and> ip \<in> ks_keys (am_slots m)"
    if "(ip, allocs) \<in> set dat" "(uid, sec) \<in> set allocs" for ip allocs uid sec
    using data_okD [OF d ent [OF that]] by (simp add: taken_keys)
  have key: "distinct (map nsec_Port (map snd allocs))" if a: "(ip, allocs) \<in> set dat" for ip allocs
  proof -
    have "fst x = fst y" if "x \<in> set allocs" "y \<in> set allocs" "nsec_Port (snd x) = nsec_Port (snd y)" for x y
    proof -
      have "sec_slot ?p (snd x) = sec_slot ?p (snd y)" using that(3) by (simp add: sec_slot_def)
      moreover have "(ip, fst x, snd x) \<in> entries dat" "(ip, fst y, snd y) \<in> entries dat"
        using ent [OF a, of "fst x" "snd x"] ent [OF a, of "fst y" "snd y"] that(1,2) by simp_all
      ultimately show ?thesis by (rule data_ok_inj [OF d, rotated 2])
    qed
    note uniq = this
    have "distinct (map fst allocs)" using dd(2) [OF a] by simp
    then have "distinct (map (\<lambda>x. nsec_Port (snd x)) allocs)"
      by (rule distinct_map_fst) (rule uniq)
    then show ?thesis by (simp add: comp_def)
  qed
  have sections: "nat_IP n \<in> ks_keys (am_slots m) \<and> sorted (map nsec_Port (nat_Sections n)) \<and>
      distinct (map nsec_Port (nat_Sections n)) \<and> (\<forall>sec\<in>set (nat_Sections n). sec_ok ?p sec)"
    if n_in: "n \<in> set ?ips" for n
  proof -
    obtain ip allocs where a: "(ip, allocs) \<in> set dat"
      and n: "n = \<lparr>nat_IP = ip, nat_Sections = sort_key nsec_Port (ordS (map snd allocs))\<rparr>"
      using n_in by auto
    obtain uid sec' where "(uid, sec') \<in> set allocs" using dd(2) [OF a] by (cases allocs) auto
    then show ?thesis
      using sec [OF a] key [OF a] assms(3)
      by (auto simp: n is_order_set is_order_distinct_map distinct_map_sort_key)
  qed
  then show ?thesis
    using assms(4) dd(1) ips
    by (auto simp: table_ok_def natTable_of_def distinct_map_sort_key is_order_distinct_map is_order_set
        simp del: map_map)
qed

text \<open>Taking over the ports of an aligned section.\<close>

lemma slotForPorts_Some:
  assumes "0 < portsPerNetworkInterface m" "portsPerNetworkInterface m \<le> noOfEphemeralPorts"
    and "portsPerNetworkInterface m dvd nsec_Port sec - 1024"
    and "slotForPorts m (nsec_Port sec) (nsec_EndPort sec) = Some slot"
  shows "slot = sec_slot (portsPerNetworkInterface m) sec"
    "nsec_Port sec = 1024 + int slot * portsPerNetworkInterface m"
    "nsec_EndPort sec = 1023 + int slot * portsPerNetworkInterface m + portsPerNetworkInterface m"
proof -
  let ?p = "portsPerNetworkInterface m" and ?q = "nsec_Port sec - 1024"
  have b: "1024 \<le> nsec_Port sec" "nsec_Port sec < nsec_EndPort sec" "nsec_EndPort sec \<le> 65535"
    and e: "am_endPort m (nsec_Port sec) = nsec_EndPort sec"
    and sl: "slot = to_uint (i32 (i32 ?q sdiv ?p))"
    using assms(4) by (auto simp: slotForPorts_def port_consts split: if_splits)
  have q: "0 \<le> ?q" "?q < 64512" using b by auto
  have "0 \<le> ?q div ?p" "?q div ?p \<le> ?q"
    using q assms(1) zdiv_mono2 [of ?q 1 ?p] by (simp_all add: pos_imp_zdiv_nonneg_iff)
  then have sl': "slot = nat (?q div ?p)" using q assms(1) sl by (simp add: sdiv_nonneg to_uint_nonneg)
  then show "slot = sec_slot ?p sec" by (simp add: sec_slot_def)
  have "int slot * ?p = ?q" using sl' assms(3) \<open>0 \<le> ?q div ?p\<close> by simp
  moreover have "am_endPort m (nsec_Port sec) = nsec_Port sec + ?p - 1"
    using b assms(1,2) by (simp add: am_endPort_def port_consts)
  ultimately show "nsec_Port sec = 1024 + int slot * ?p" "nsec_EndPort sec = 1023 + int slot * ?p + ?p"
    using e by simp_all
qed

lemma am_Use_cases:
  assumes ok: "am_ok B m" and "portsPerNetworkInterface m dvd nsec_Port sec - 1024"
    and u: "am_Use B m ip (nsec_Port sec) (nsec_EndPort sec) = (m', r)"
    and ref: "nsec_TargetRef sec \<noteq> None"
  shows "am_ok B m' \<and> portsPerNetworkInterface m' = portsPerNetworkInterface m \<and>
    ks_keys (am_slots m') = ks_keys (am_slots m) \<and>
    (if r then sec_ok (portsPerNetworkInterface m) sec \<and>
        (ip, sec_slot (portsPerNetworkInterface m) sec) \<notin> taken B (am_slots m) \<and>
        ip \<in> ks_keys (am_slots m) \<and>
        taken B (am_slots m') = insert (ip, sec_slot (portsPerNetworkInterface m) sec) (taken B (am_slots m))
     else taken B (am_slots m') = taken B (am_slots m))"
proof (cases "slotForPorts m (nsec_Port sec) (nsec_EndPort sec)")
  case None
  then show ?thesis using ok u by (auto simp: am_Use_def)
next
  case (Some slot)
  have p: "0 < portsPerNetworkInterface m" "portsPerNetworkInterface m \<le> noOfEphemeralPorts"
    and ks: "ks_ok B (am_slots m)"
    and n: "slotsPerKey (am_slots m) = nat (noOfEphemeralPorts div portsPerNetworkInterface m)"
    using ok by (auto simp: am_ok_def)
  note sl = slotForPorts_Some [OF p assms(2) Some]
  have m': "m' = m\<lparr>am_slots := fst (Use B (am_slots m) ip slot)\<rparr>" "r = snd (Use B (am_slots m) ip slot)"
    using u Some by (auto simp: am_Use_def case_prod_unfold Let_def)
  have am': "am_ok B m'" using ok Use_ok [OF ks] Use_frame(1) [of "am_slots m"] by (simp add: m' am_ok_def)
  have "sec_ok (portsPerNetworkInterface m) sec" if r
  proof -
    have "int slot < noOfEphemeralPorts div portsPerNetworkInterface m"
      using that Use_iff [OF ks] n by (simp add: m' zless_nat_eq_int_zless)
    then show ?thesis using sl ref by (simp add: sec_ok_def)
  qed
  then show ?thesis
    using Use_iff [OF ks, of ip slot] Use_taken [of "am_slots m" ip slot] Use_frame(2) [of "am_slots m" ip slot] am'
    by (simp add: m' flip: sl(1))
qed

lemma existing_ok_use:
  assumes "existing_ok B m al" "portsPerNetworkInterface m' = portsPerNetworkInterface m"
    and "taken B (am_slots m) \<subseteq> taken B (am_slots m')"
  shows "existing_ok B m' al"
  using assms unfolding existing_ok_def by (auto; blast)

lemma existing_ok_insert:
  assumes ex: "existing_ok B m al" and p: "portsPerNetworkInterface m' = portsPerNetworkInterface m"
    and s: "sec_ok (portsPerNetworkInterface m) tgt" "nsec_TargetRef tgt = Some ref"
    and new: "(ip, sec_slot (portsPerNetworkInterface m) tgt) \<notin> taken B (am_slots m)"
    and t: "taken B (am_slots m') = insert (ip, sec_slot (portsPerNetworkInterface m) tgt) (taken B (am_slots m))"
  shows "existing_ok B m' (al(ntref_UID ref \<mapsto> \<lparr>nia_ip = ip, nia_sec = tgt\<rparr>))"
proof -
  have old: "(nia_ip a, sec_slot (portsPerNetworkInterface m) (nia_sec a)) \<in> taken B (am_slots m)"
    if "al uid = Some a" for uid a using ex that unfolding existing_ok_def by blast
  have "existing_ok B m' al" using existing_ok_use [OF ex p] t by auto
  then show ?thesis
    using old new s t p unfolding existing_ok_def by (auto split: if_splits) (metis old new)+
qed

lemma existing_sections_ok:
  assumes "existing_sections B ip secs (m, al) = (m', al')" "am_ok B m" "existing_ok B m al"
    and "\<forall>sec\<in>set secs. portsPerNetworkInterface m dvd nsec_Port sec - 1024"
  shows "am_ok B m' \<and> existing_ok B m' al' \<and> portsPerNetworkInterface m' = portsPerNetworkInterface m \<and>
    ks_keys (am_slots m') = ks_keys (am_slots m)"
  using assms
proof (induction secs arbitrary: m al)
  case (Cons tgt tgts)
  show ?case
  proof (cases "nsec_TargetRef tgt")
    case None
    with Cons show ?thesis by simp
  next
    case (Some ref)
    obtain m1 r where u: "am_Use B m ip (nsec_Port tgt) (nsec_EndPort tgt) = (m1, r)" by fastforce
    have *: "am_ok B m1 \<and> portsPerNetworkInterface m1 = portsPerNetworkInterface m \<and>
        ks_keys (am_slots m1) = ks_keys (am_slots m) \<and>
        (if r then sec_ok (portsPerNetworkInterface m) tgt \<and>
            (ip, sec_slot (portsPerNetworkInterface m) tgt) \<notin> taken B (am_slots m) \<and>
            ip \<in> ks_keys (am_slots m) \<and>
            taken B (am_slots m1) = insert (ip, sec_slot (portsPerNetworkInterface m) tgt) (taken B (am_slots m))
         else taken B (am_slots m1) = taken B (am_slots m))"
      using Cons.prems Some by (intro am_Use_cases [OF _ _ u]) auto
    let ?al = "if r then al(ntref_UID ref \<mapsto> \<lparr>nia_ip = ip, nia_sec = tgt\<rparr>) else al"
    have "existing_ok B m1 ?al"
    proof (cases r)
      case True
      then show ?thesis
        using * existing_ok_insert [OF Cons.prems(3), of m1 tgt ref ip] Some by simp
    next
      case False
      then show ?thesis using * existing_ok_use [OF Cons.prems(3), of m1] by simp
    qed
    moreover have "existing_sections B ip tgts (m1, ?al) = (m', al')"
      using Cons.prems(1) Some u by (cases r) auto
    ultimately show ?thesis using Cons.IH [of m1 ?al] * Cons.prems(4) by simp
  qed
qed simp

lemma existing_ips_ok:
  assumes "existing_ips B ns (m, al) = (m', al')" "am_ok B m" "existing_ok B m al"
    and "\<forall>n\<in>set ns. \<forall>sec\<in>set (nat_Sections n). portsPerNetworkInterface m dvd nsec_Port sec - 1024"
  shows "am_ok B m' \<and> existing_ok B m' al' \<and> portsPerNetworkInterface m' = portsPerNetworkInterface m \<and>
    ks_keys (am_slots m') = ks_keys (am_slots m)"
  using assms
proof (induction ns arbitrary: m al)
  case (Cons n ns)
  show ?case
  proof (cases "HasIP m (nat_IP n)")
    case True
    obtain m1 al1 where e: "existing_sections B (nat_IP n) (nat_Sections n) (m, al) = (m1, al1)" by fastforce
    have "am_ok B m1 \<and> existing_ok B m1 al1 \<and> portsPerNetworkInterface m1 = portsPerNetworkInterface m \<and>
        ks_keys (am_slots m1) = ks_keys (am_slots m)"
      using existing_sections_ok [OF e] Cons.prems by simp
    then show ?thesis using Cons.IH [of m1 al1] Cons.prems(1,4) True e by simp
  next
    case False
    with Cons show ?thesis by simp
  qed
qed simp

lemma existing_ok_reusable:
  assumes "existing_ok B m al"
  shows "reusable (portsPerNetworkInterface m) (ks_keys (am_slots m)) al"
proof -
  have "nia_ip a \<in> ks_keys (am_slots m)" if "al uid = Some a" for uid a
  proof -
    have "(nia_ip a, sec_slot (portsPerNetworkInterface m) (nia_sec a)) \<in> taken B (am_slots m)"
      using assms that unfolding existing_ok_def by blast
    then show ?thesis by (rule taken_keys)
  qed
  then show ?thesis using assms unfolding existing_ok_def reusable_def by blast
qed

lemma getExistingAllocations_reusable:
  assumes "getExistingAllocations B E s ng ips = Returns (Inr al)"
    and "0 < ngs_PortsPerNetworkInterface (ng_Spec ng)" "ngs_PortsPerNetworkInterface (ng_Spec ng) \<le> noOfEphemeralPorts"
    and "\<And>t. k_get (ne_table E) s (meta_key (ng_Meta ng)) = Inr t \<Longrightarrow>
      \<exists>ips'. table_ok (ngs_PortsPerNetworkInterface (ng_Spec ng)) ips' t"
  shows "reusable (ngs_PortsPerNetworkInterface (ng_Spec ng)) (set ips) al"
proof (cases "k_get (ne_table E) s (meta_key (ng_Meta ng))")
  case (Inl e)
  then show ?thesis
    using assms(1) by (auto simp: getExistingAllocations_def reusable_def split: if_splits)
next
  case (Inr t)
  let ?p = "ngs_PortsPerNetworkInterface (ng_Spec ng)"
  obtain m where m: "NewAllocationManager B ?p ips = Returns m" "am_ok B m" "portsPerNetworkInterface m = ?p"
      "ks_keys (am_slots m) = set ips"
    using NewAllocationManager_ok [OF bitset_axioms assms(2,3)] by blast
  obtain ips' where t: "table_ok ?p ips' t" using assms(4) Inr by blast
  have "?p dvd nsec_Port sec - 1024" if "sec_ok ?p sec" for sec
    using that unfolding sec_ok_def by simp
  then have al: "\<forall>n\<in>set (nt_IPs t). \<forall>sec\<in>set (nat_Sections n). portsPerNetworkInterface m dvd nsec_Port sec - 1024"
    unfolding m(3) using t by (simp add: table_ok_def)
  obtain m' where e: "existing_ips B (nt_IPs t) (m, Map.empty) = (m', al)"
    using assms(1) Inr m(1) by (cases "existing_ips B (nt_IPs t) (m, Map.empty)") (auto simp: getExistingAllocations_def)
  have "existing_ok B m Map.empty" by (simp add: existing_ok_def)
  then show ?thesis using existing_ips_ok [OF e m(2) _ al] existing_ok_reusable [of m' al] m(3,4) by simp
qed

text \<open>Recording an allocation whose slot is in use by no other entry.\<close>

lemma data_ok_mono:
  assumes "data_ok B m d" "portsPerNetworkInterface m' = portsPerNetworkInterface m"
    and "taken B (am_slots m) \<subseteq> taken B (am_slots m')"
  shows "data_ok B m' d"
  using assms unfolding data_ok_def by (metis subsetD)

lemma data_ok_add:
  assumes d: "data_ok B m d" and s: "sec_ok (portsPerNetworkInterface m) sec" "nsec_TargetRef sec = Some ref"
    and t: "(ip, sec_slot (portsPerNetworkInterface m) sec) \<in> taken B (am_slots m)"
    and new: "\<And>uid sec'. (ip, uid, sec') \<in> entries d \<Longrightarrow>
      sec_slot (portsPerNetworkInterface m) sec' \<noteq> sec_slot (portsPerNetworkInterface m) sec"
  shows "data_ok B m (addAlloc d ip sec)"
proof -
  let ?p = "portsPerNetworkInterface m"
  have dist: "data_distinct (addAlloc d ip sec)"
    using d addAlloc_distinct unfolding data_ok_def by blast
  have "sec_ok ?p sec' \<and> (ip', sec_slot ?p sec') \<in> taken B (am_slots m)"
    if "(ip', uid, sec') \<in> entries (addAlloc d ip sec)" for ip' uid sec'
    using that data_okD [OF d] s t by (auto simp: entries_addAlloc [OF s(2)] split: if_splits)
  moreover have "uid = uid'"
    if "(ip', uid, a) \<in> entries (addAlloc d ip sec)" "(ip', uid', b) \<in> entries (addAlloc d ip sec)"
      "sec_slot ?p a = sec_slot ?p b" for ip' uid uid' a b
    using that new data_ok_inj [OF d] unfolding entries_addAlloc [OF s(2)] by (metis (full_types))
  ultimately show ?thesis using dist unfolding data_ok_def by blast
qed

lemma am_UseNextFree_slot:
  assumes ok: "am_ok B m" and ord: "\<And>xs. set (ord xs) = set xs"
  obtains (none) "am_UseNextFree B ord m = Returns (m, None)"
  | (some) m' ip i where "am_UseNextFree B ord m = Returns (m', Some (ip, 1024 + int i * portsPerNetworkInterface m,
        1023 + int i * portsPerNetworkInterface m + portsPerNetworkInterface m))"
      "am_ok B m'" "portsPerNetworkInterface m' = portsPerNetworkInterface m"
      "ks_keys (am_slots m') = ks_keys (am_slots m)" "int i < noOfEphemeralPorts div portsPerNetworkInterface m"
      "(ip, i) \<notin> taken B (am_slots m)" "taken B (am_slots m') = insert (ip, i) (taken B (am_slots m))"
proof -
  let ?p = "portsPerNetworkInterface m"
  have p: "0 < ?p" and ks: "ks_ok B (am_slots m)"
    and n: "slotsPerKey (am_slots m) = nat (noOfEphemeralPorts div ?p)"
    using ok by (auto simp: am_ok_def)
  obtain s' r where u: "UseNextFree B ord (am_slots m) = Returns (s', r)" "ks_ok B s'"
    "slotsPerKey s' = slotsPerKey (am_slots m)" "ks_keys s' = ks_keys (am_slots m)"
    and rc: "case r of Some (k, i) \<Rightarrow> k \<in> ks_keys (am_slots m) \<and> i < slotsPerKey (am_slots m) \<and>
         (k, i) \<notin> taken B (am_slots m) \<and> taken B s' = insert (k, i) (taken B (am_slots m))
     | None \<Rightarrow> s' = am_slots m \<and> taken B (am_slots m) = ks_keys (am_slots m) \<times> {..<slotsPerKey (am_slots m)}"
    using UseNextFree_spec [OF ks ord] by (elim exE conjE) rule
  show ?thesis
  proof (cases r)
    case None
    then show ?thesis using none u rc by (simp add: am_UseNextFree_def)
  next
    case (Some pr)
    obtain ip i where pr: "pr = (ip, i)" by fastforce
    have i: "int i < noOfEphemeralPorts div ?p" using rc Some pr n by (simp add: zless_nat_eq_int_zless)
    have "am_UseNextFree B ord m = Returns (m\<lparr>am_slots := s'\<rparr>, Some (ip, 1024 + int i * ?p, 1023 + int i * ?p + ?p))"
      using u Some pr portsForSlot_eq [OF p i] by (simp add: am_UseNextFree_def)
    moreover have "am_ok B (m\<lparr>am_slots := s'\<rparr>)" using ok u by (simp add: am_ok_def)
    ultimately show ?thesis
      using u(4) rc Some pr i by (intro some [of "m\<lparr>am_slots := s'\<rparr>" ip i]) simp_all
  qed
qed

section \<open>The loops keep the recorded allocations disjoint\<close>

lemma st_ok_add_err [simp]: "st_ok B p ips (add_err e st) \<longleftrightarrow> st_ok B p ips st"
  "scan_ok B p ips al (add_err e st) \<longleftrightarrow> scan_ok B p ips al st"
  by (auto simp: st_ok_def scan_ok_def add_err_def split: option.splits)

lemma st_ok_frame [simp]:
  "st_ok B p ips (st\<lparr>ms_s := s\<rparr>) \<longleftrightarrow> st_ok B p ips st" "scan_ok B p ips al (st\<lparr>ms_s := s\<rparr>) \<longleftrightarrow> scan_ok B p ips al st"
  "st_ok B p ips (st\<lparr>ms_requests := r\<rparr>) \<longleftrightarrow> st_ok B p ips st" "scan_ok B p ips al (st\<lparr>ms_requests := r\<rparr>) \<longleftrightarrow> scan_ok B p ips al st"
  "st_ok B p ips (st\<lparr>ms_claimed := c\<rparr>) \<longleftrightarrow> st_ok B p ips st" "scan_ok B p ips al (st\<lparr>ms_claimed := c\<rparr>) \<longleftrightarrow> scan_ok B p ips al st"
  "st_ok B p ips (st\<lparr>ms_free := f\<rparr>) \<longleftrightarrow> st_ok B p ips st" "scan_ok B p ips al (st\<lparr>ms_free := f\<rparr>) \<longleftrightarrow> scan_ok B p ips al st"
  by (simp_all add: st_ok_def scan_ok_def)

lemma scan_reuse:
  assumes ok: "scan_ok B p ips al st" and re: "reusable p ips al" and a: "al uid = Some a"
    and p: "1 < p"
  shows "scan_ok B p ips al (st\<lparr>ms_mgr := fst (am_Use B (ms_mgr st) (nia_ip a) (nsec_Port (nia_sec a)) (nsec_EndPort (nia_sec a))),
       ms_alloc := addAlloc (ms_alloc st) (nia_ip a) (nia_sec a)\<rparr>)"
proof -
  let ?m = "ms_mgr st" and ?ip = "nia_ip a" and ?sec = "nia_sec a" and ?d = "ms_alloc st"
  let ?i = "sec_slot p ?sec"
  obtain m' r where u: "am_Use B ?m ?ip (nsec_Port ?sec) (nsec_EndPort ?sec) = (m', r)" by fastforce
  have am: "am_ok B ?m" "portsPerNetworkInterface ?m = p" "ks_keys (am_slots ?m) = ips"
    and d: "data_ok B ?m ?d" using ok by (auto simp: scan_ok_def st_ok_def)
  have cover: "\<exists>uid sec. (ip, uid, sec) \<in> entries ?d \<and> sec_slot p sec = i"
    if "(ip, i) \<in> taken B (am_slots ?m)" for ip i using ok that unfolding scan_ok_def by blast
  have from_al: "al uid' = Some \<lparr>nia_ip = ip, nia_sec = sec\<rparr>" if "(ip, uid', sec) \<in> entries ?d" for ip uid' sec
    using ok that unfolding scan_ok_def by blast
  have sec: "sec_ok p ?sec" "?ip \<in> ips" using re a unfolding reusable_def by blast+
  obtain ref where ref: "nsec_TargetRef ?sec = Some ref" "ntref_UID ref = uid"
    using re a unfolding reusable_def by blast
  have uniq: "uid' = uid \<and> sec' = ?sec" if "(?ip, uid', sec') \<in> entries ?d" "sec_slot p sec' = ?i" for uid' sec'
  proof -
    have b: "al uid' = Some \<lparr>nia_ip = ?ip, nia_sec = sec'\<rparr>" using from_al that(1) by simp
    have "uid' = uid"
      using re a b that(2) unfolding reusable_def by (metis natIPAllocation.select_convs)
    then show ?thesis using a b by (metis natIPAllocation.select_convs(2) option.inject)
  qed
  have sl: "int ?i < noOfEphemeralPorts div p" "nsec_Port ?sec = 1024 + int ?i * p"
    "nsec_EndPort ?sec = 1023 + int ?i * p + p" using sec(1) by (auto simp: sec_ok_def)
  have ports: "(nsec_Port ?sec, nsec_EndPort ?sec) = portsForSlot ?m ?i"
    using sl p am(2) portsForSlot_eq [of ?m ?i] by simp
  have use: "r \<longleftrightarrow> (?ip, ?i) \<notin> taken B (am_slots ?m)"
    and tk: "taken B (am_slots m') = insert (?ip, ?i) (taken B (am_slots ?m))" and am': "am_ok B m'"
    and pool: "portsPerNetworkInterface m' = p" "ks_keys (am_slots m') = ips"
  proof -
    have "p dvd nsec_Port ?sec - 1024" using sl(2) by simp
    then have c: "am_ok B m' \<and> portsPerNetworkInterface m' = p \<and> ks_keys (am_slots m') = ips \<and>
      (if r then sec_ok p ?sec \<and> (?ip, ?i) \<notin> taken B (am_slots ?m) \<and> ?ip \<in> ips \<and>
        taken B (am_slots m') = insert (?ip, ?i) (taken B (am_slots ?m))
       else taken B (am_slots m') = taken B (am_slots ?m))"
      using am_Use_cases [OF am(1) _ u, unfolded am(2,3)] ref(1) by simp
    have "slotForPorts ?m (nsec_Port ?sec) (nsec_EndPort ?sec) = Some ?i"
      using slotForPorts_portsForSlot [of ?m ?i] p am(2) sl(1) ports by (metis fst_conv snd_conv)
    then have "r = snd (Use B (am_slots ?m) ?ip ?i)"
      using u by (auto simp: am_Use_def case_prod_unfold Let_def)
    moreover have "ks_ok B (am_slots ?m)" "slotsPerKey (am_slots ?m) = nat (noOfEphemeralPorts div p)"
      using am by (auto simp: am_ok_def)
    ultimately show use: "r \<longleftrightarrow> (?ip, ?i) \<notin> taken B (am_slots ?m)"
      using Use_iff [of "am_slots ?m" ?ip ?i] sec(2) am(3) sl(1) by (simp add: zless_nat_eq_int_zless)
    show "taken B (am_slots m') = insert (?ip, ?i) (taken B (am_slots ?m))"
      using c use by (cases r) auto
    show "am_ok B m'" "portsPerNetworkInterface m' = p" "ks_keys (am_slots m') = ips" using c by auto
  qed
  have ent: "(ip', uid', sec') \<in> entries (addAlloc ?d ?ip ?sec) \<longleftrightarrow>
      (if ip' = ?ip \<and> uid' = uid then sec' = ?sec else (ip', uid', sec') \<in> entries ?d)" for ip' uid' sec'
    using entries_addAlloc [OF ref(1)] ref(2) by simp
  have "data_ok B m' (addAlloc ?d ?ip ?sec)"
  proof (cases "\<exists>sec'. (?ip, uid, sec') \<in> entries ?d")
    case True
    then obtain sec' where in_d: "(?ip, uid, sec') \<in> entries ?d" by blast
    then have "sec' = ?sec" using from_al [OF in_d] a by (metis natIPAllocation.select_convs(2) option.inject)
    then have "entries (addAlloc ?d ?ip ?sec) = entries ?d"
      using in_d ent by (auto simp: entries_def)
    moreover have "data_distinct (addAlloc ?d ?ip ?sec)"
      using d addAlloc_distinct unfolding data_ok_def by blast
    moreover have "data_ok B m' ?d" using data_ok_mono [OF d, of m'] tk pool am(2) by auto
    ultimately show ?thesis unfolding data_ok_def by simp
  next
    case False
    have "data_ok B m' ?d" using data_ok_mono [OF d, of m'] tk pool am(2) by auto
    then show ?thesis
      using data_ok_add [of m' ?d ?sec ref ?ip] sec(1) ref(1) tk pool uniq False by auto
  qed
  moreover have "\<exists>uid' sec'. (ip, uid', sec') \<in> entries (addAlloc ?d ?ip ?sec) \<and> sec_slot p sec' = i"
    if t: "(ip, i) \<in> taken B (am_slots m')" for ip i
  proof (cases "(ip, i) = (?ip, ?i)")
    case True
    then show ?thesis by (intro exI [of _ uid] exI [of _ ?sec]) (simp add: ent)
  next
    case False
    then have "(ip, i) \<in> taken B (am_slots ?m)" using t tk by (metis insertE)
    from cover [OF this] obtain uid' sec' where e: "(ip, uid', sec') \<in> entries ?d" "sec_slot p sec' = i"
      by blast
    then have "\<not> (ip = ?ip \<and> uid' = uid)"
      using from_al [OF e(1)] a False by (metis natIPAllocation.select_convs(2) option.inject)
    then show ?thesis using e by (intro exI [of _ uid'] exI [of _ sec']) (auto simp: ent)
  qed
  moreover have "al uid' = Some \<lparr>nia_ip = ip, nia_sec = sec'\<rparr>"
    if "(ip, uid', sec') \<in> entries (addAlloc ?d ?ip ?sec)" for ip uid' sec'
    using that from_al a unfolding ent by (auto split: if_splits)
  ultimately show ?thesis
    using u am' pool by (simp add: scan_ok_def st_ok_def)
qed

lemma scan_nic_ok:
  assumes "scan_ok B p ips al st" "reusable p ips al" "1 < p"
  shows "scan_ok B p ips al (scan_nic B env E ng al nic st)"
proof (cases "GetNetworkInterfaceNATClaimer nic (ngs_IPFamily (ng_Spec ng))")
  case None
  then show ?thesis using assms(1) by (simp add: scan_nic_def)
next
  case (Some claimer)
  then show ?thesis
    using assms(1) scan_reuse [OF _ assms(2) _ assms(3), of "st\<lparr>ms_requests := ms_requests st + 1\<rparr>" "nic_uid nic"]
    by (simp add: scan_nic_def Let_def case_prod_unfold split: option.split)
qed

lemma scan_ok_fold:
  assumes "scan_ok B p ips al st" "reusable p ips al" "1 < p"
  shows "scan_ok B p ips al (fold (scan_nic B env E ng al) nics st)"
  using assms by (induction nics arbitrary: st) (auto intro: scan_nic_ok)

lemma st_ok_new_alloc:
  assumes "st_ok B p ips st" "am_ok B m'" "portsPerNetworkInterface m' = p" "ks_keys (am_slots m') = ips"
    and "int i < noOfEphemeralPorts div p" "(ip, i) \<notin> taken B (am_slots (ms_mgr st))"
    and "taken B (am_slots m') = insert (ip, i) (taken B (am_slots (ms_mgr st)))"
  shows "st_ok B p ips (st\<lparr>ms_mgr := m',
     ms_alloc := addAlloc (ms_alloc st) ip (new_section ng nic (1024 + int i * p) (1023 + int i * p + p))\<rparr>)"
proof -
  let ?sec = "new_section ng nic (1024 + int i * p) (1023 + int i * p + p)"
  have p: "0 < p" using assms(2,3) by (simp add: am_ok_def)
  note sec = sec_ok_new [OF p assms(5), of ng nic]
  have d: "data_ok B (ms_mgr st) (ms_alloc st)" "portsPerNetworkInterface (ms_mgr st) = p"
    using assms(1) by (auto simp: st_ok_def)
  have "data_ok B m' (ms_alloc st)" using data_ok_mono [OF d(1)] assms(3,7) d(2) by auto
  moreover have "sec_slot p sec' \<noteq> i" if "(ip, uid, sec') \<in> entries (ms_alloc st)" for uid sec'
    using data_okD(2) [OF d(1) that] d(2) assms(6) by auto
  ultimately have "data_ok B m' (addAlloc (ms_alloc st) ip ?sec)"
    using assms(3,7) sec by (intro data_ok_add) (auto simp: new_section_def)
  then show ?thesis using assms by (simp add: st_ok_def)
qed

lemma process_claimed_ok:
  assumes "st_ok B p ips st" and ord: "\<And>xs. set (ord xs) = set xs"
  shows "\<exists>st' full'. process_claimed B ord env E ng nics full st = Returns (st', full') \<and> st_ok B p ips st' \<and>
    ms_free st' = ms_free st"
  using assms(1)
proof (induction nics arbitrary: full st)
  case (Cons nic nics)
  let ?rel = "\<lambda>st. let (s', e) = ReleaseNetworkInterfaceNAT env (ne_nic E) (ms_s st) nic (ngs_IPFamily (ng_Spec ng))
     in add_err (IgnoreNotFound e) (st\<lparr>ms_s := s'\<rparr>)"
  have rel: "st_ok B p ips (?rel st) \<longleftrightarrow> st_ok B p ips st" "ms_free (?rel st) = ms_free st"
    for st :: "('a, 'b) manage_state"
    by (simp_all add: case_prod_unfold Let_def) (simp add: add_err_def split: option.split)
  have am: "am_ok B (ms_mgr st)" and p: "portsPerNetworkInterface (ms_mgr st) = p"
    and ips: "ks_keys (am_slots (ms_mgr st)) = ips" using Cons.prems by (auto simp: st_ok_def)
  show ?case
  proof (cases full)
    case True
    then show ?thesis using Cons.IH [of "?rel st" True] Cons.prems rel by (simp add: Let_def)
  next
    case False
    show ?thesis
    proof (rule am_UseNextFree_slot [OF am ord])
      assume "am_UseNextFree B ord (ms_mgr st) = Returns (ms_mgr st, None)"
      moreover have "st\<lparr>ms_mgr := ms_mgr st\<rparr> = st" by simp
      ultimately show ?thesis using Cons.IH [of "?rel st" True] Cons.prems rel False by (simp add: Let_def)
    next
      fix m' ip i
      assume u: "am_UseNextFree B ord (ms_mgr st) = Returns (m', Some (ip,
            1024 + int i * portsPerNetworkInterface (ms_mgr st),
            1023 + int i * portsPerNetworkInterface (ms_mgr st) + portsPerNetworkInterface (ms_mgr st)))"
        and *: "am_ok B m'" "portsPerNetworkInterface m' = portsPerNetworkInterface (ms_mgr st)"
          "ks_keys (am_slots m') = ks_keys (am_slots (ms_mgr st))"
          "int i < noOfEphemeralPorts div portsPerNetworkInterface (ms_mgr st)"
          "(ip, i) \<notin> taken B (am_slots (ms_mgr st))"
          "taken B (am_slots m') = insert (ip, i) (taken B (am_slots (ms_mgr st)))"
      let ?st = "st\<lparr>ms_mgr := m', ms_alloc := addAlloc (ms_alloc st) ip
          (new_section ng nic (1024 + int i * p) (1023 + int i * p + p))\<rparr>"
      have "st_ok B p ips ?st" using * p ips by (intro st_ok_new_alloc [OF Cons.prems]) simp_all
      then show ?thesis using Cons.IH [of ?st False] u p False by (simp add: Let_def)
    qed
  qed
qed simp

lemma pending_ok_frame [simp]: "pending_ok B p (add_err e st) pend \<longleftrightarrow> pending_ok B p st pend"
  "pending_ok B p (st\<lparr>ms_s := s\<rparr>) pend \<longleftrightarrow> pending_ok B p st pend" "pending_ok B p st None"
  by (auto simp: pending_ok_def add_err_def split: option.split)

lemma pending_alloc:
  assumes "st_ok B p ips st" "pending_ok B p st (Some (ip, port, endPort))"
  shows "st_ok B p ips (st\<lparr>ms_alloc := addAlloc (ms_alloc st) ip (new_section ng nic port endPort)\<rparr>)"
proof -
  obtain i where i: "int i < noOfEphemeralPorts div p" "port = 1024 + int i * p" "endPort = 1023 + int i * p + p"
    "(ip, i) \<in> taken B (am_slots (ms_mgr st))"
    "\<forall>uid sec. (ip, uid, sec) \<in> entries (ms_alloc st) \<longrightarrow> sec_slot p sec \<noteq> i"
    using assms(2) unfolding pending_ok_def by blast
  have p: "0 < p" using assms(1) by (auto simp: st_ok_def am_ok_def)
  have "data_ok B (ms_mgr st) (addAlloc (ms_alloc st) ip (new_section ng nic port endPort))"
    using assms(1) i sec_ok_new [OF p i(1), of ng nic]
    by (intro data_ok_add) (auto simp: st_ok_def new_section_def)
  then show ?thesis using assms(1) by (simp add: st_ok_def)
qed

lemma next_pending:
  assumes st: "st_ok B p ips st" and ord: "\<And>xs. set (ord xs) = set xs" and pe: "pending_ok B p st pend"
  shows "\<exists>m' r. (case pend of Some r \<Rightarrow> Returns (ms_mgr st, Some r) | None \<Rightarrow> am_UseNextFree B ord (ms_mgr st))
      = Returns (m', r) \<and> st_ok B p ips (st\<lparr>ms_mgr := m'\<rparr>) \<and> pending_ok B p (st\<lparr>ms_mgr := m'\<rparr>) r"
proof (cases pend)
  case (Some r)
  then show ?thesis using st pe by simp
next
  case None
  have am: "am_ok B (ms_mgr st)" and p: "portsPerNetworkInterface (ms_mgr st) = p"
    and ips: "ks_keys (am_slots (ms_mgr st)) = ips" and d: "data_ok B (ms_mgr st) (ms_alloc st)"
    using st by (auto simp: st_ok_def)
  show ?thesis
  proof (rule am_UseNextFree_slot [OF am ord])
    assume "am_UseNextFree B ord (ms_mgr st) = Returns (ms_mgr st, None)"
    then show ?thesis using None st by simp
  next
    fix m' ip i
    assume u: "am_UseNextFree B ord (ms_mgr st) = Returns (m', Some (ip,
          1024 + int i * portsPerNetworkInterface (ms_mgr st),
          1023 + int i * portsPerNetworkInterface (ms_mgr st) + portsPerNetworkInterface (ms_mgr st)))"
      and *: "am_ok B m'" "portsPerNetworkInterface m' = portsPerNetworkInterface (ms_mgr st)"
        "ks_keys (am_slots m') = ks_keys (am_slots (ms_mgr st))"
        "int i < noOfEphemeralPorts div portsPerNetworkInterface (ms_mgr st)"
        "(ip, i) \<notin> taken B (am_slots (ms_mgr st))"
        "taken B (am_slots m') = insert (ip, i) (taken B (am_slots (ms_mgr st)))"
    have "st_ok B p ips (st\<lparr>ms_mgr := m'\<rparr>)"
      using * p ips data_ok_mono [OF d, of m'] by (auto simp: st_ok_def)
    moreover have "sec_slot p sec \<noteq> i" if "(ip, uid, sec) \<in> entries (ms_alloc st)" for uid sec
      using data_okD(2) [OF d that] *(5) p by auto
    then have "pending_ok B p (st\<lparr>ms_mgr := m'\<rparr>) (Some (ip, 1024 + int i * p, 1023 + int i * p + p))"
      using * p unfolding pending_ok_def by auto
    ultimately show ?thesis using None u p by simp
  qed
qed

lemma process_free_ok:
  assumes "st_ok B p ips st" "pending_ok B p st pend" and ord: "\<And>xs. set (ord xs) = set xs"
  shows "\<exists>st'. process_free B ord env E ng nics pend st = Returns st' \<and> st_ok B p ips st'"
  using assms(1,2)
proof (induction nics arbitrary: pend st)
  case (Cons nic nics)
  obtain m' r where m': "(case pend of Some r \<Rightarrow> Returns (ms_mgr st, Some r) | None \<Rightarrow> am_UseNextFree B ord (ms_mgr st))
      = Returns (m', r)" "st_ok B p ips (st\<lparr>ms_mgr := m'\<rparr>)" "pending_ok B p (st\<lparr>ms_mgr := m'\<rparr>) r"
    using next_pending [OF Cons.prems(1) ord Cons.prems(2)] by blast
  show ?case
  proof (cases r)
    case None
    then show ?thesis using m' by simp
  next
    case (Some rg)
    obtain ip port endPort where rg: "rg = (ip, port, endPort)" by (metis surj_pair)
    let ?st1 = "st\<lparr>ms_mgr := m'\<rparr>"
    let ?ref = "\<lparr>nnref_Name = om_Name (ng_Meta ng), nnref_UID = om_UID (ng_Meta ng)\<rparr>"
    obtain s' nic' e where c: "ClaimNetworkInterfaceNAT env (ne_nic E) (ms_s st) nic (ngs_IPFamily (ng_Spec ng)) ?ref
        = ((s', nic'), e)" by (metis surj_pair)
    show ?thesis
    proof (cases e)
      case (Some err)
      let ?st2 = "add_err (IgnoreNotFound (Some err)) (?st1\<lparr>ms_s := s'\<rparr>)"
      have "st_ok B p ips ?st2" "pending_ok B p ?st2 r" using m' by simp_all
      then show ?thesis using Cons.IH [of ?st2 r] m' c \<open>r = Some rg\<close> rg Some by (simp add: Let_def)
    next
      case None
      let ?st2 = "?st1\<lparr>ms_s := s', ms_alloc := addAlloc (ms_alloc st) ip (new_section ng nic' port endPort)\<rparr>"
      have "st_ok B p ips (?st1\<lparr>ms_s := s'\<rparr>)" "pending_ok B p (?st1\<lparr>ms_s := s'\<rparr>) (Some (ip, port, endPort))"
        using m' \<open>r = Some rg\<close> rg by simp_all
      from pending_alloc [OF this] have "st_ok B p ips ?st2" by simp
      then show ?thesis using Cons.IH [of ?st2 None] m' c \<open>r = Some rg\<close> rg None by (simp add: Let_def)
    qed
  qed
qed simp

lemma allocate_nics_ok:
  assumes "am_ok B m" "portsPerNetworkInterface m = p" "ks_keys (am_slots m) = ips" "taken B (am_slots m) = {}"
    and "reusable p ips al" "1 < p" and ord: "\<And>xs. set (ord xs) = set xs"
  shows "\<exists>st. allocate_nics B ord env E ng al nics m s = Returns st \<and> st_ok B p ips st"
proof -
  let ?st0 = "\<lparr>ms_s = s, ms_mgr = m, ms_alloc = [], ms_requests = 0, ms_claimed = [], ms_free = [], ms_errs = []\<rparr>"
  let ?st1 = "fold (scan_nic B env E ng al) nics ?st0"
  have "scan_ok B p ips al ?st0"
    using assms(1-4) by (simp add: scan_ok_def st_ok_def data_ok_def data_distinct_def entries_def)
  then have "scan_ok B p ips al ?st1" using assms(5,6) by (rule scan_ok_fold)
  then have "st_ok B p ips ?st1" by (simp add: scan_ok_def)
  then obtain st2 full where st2: "process_claimed B ord env E ng (ms_claimed ?st1) False ?st1 = Returns (st2, full)"
    "st_ok B p ips st2" using process_claimed_ok [OF _ ord] by blast
  then show ?thesis
    using process_free_ok [OF st2(2) pending_ok_frame(3) ord, of env E ng "ms_free st2"]
    by (auto simp: allocate_nics_def Let_def)
qed

end

section \<open>An in-memory cluster\<close>

text \<open>A client of one part of a larger state.\<close>

definition focus_client :: "('s \<Rightarrow> 'a) \<Rightarrow> ('a \<Rightarrow> 's \<Rightarrow> 's) \<Rightarrow> ('a, 'o) kclient \<Rightarrow> ('s, 'o) kclient" where
  "focus_client get put K =
     \<lparr>k_get = (\<lambda>s. k_get K (get s)), k_list = (\<lambda>s. k_list K (get s)),
      k_create = (\<lambda>s x. let (a, r) = k_create K (get s) x in (put a s, r)),
      k_delete = (\<lambda>s k. let (a, r) = k_delete K (get s) k in (put a s, r)),
      k_patch = (\<lambda>s x b l. let (a, r) = k_patch K (get s) x b l in (put a s, r)),
      k_statusPatch = (\<lambda>s x b. let (a, r) = k_statusPatch K (get s) x b in (put a s, r)),
      k_apply = (\<lambda>s x. let (a, r) = k_apply K (get s) x in (put a s, r))\<rparr>"

lemma focus_kube_api:
  assumes "kube_api K objs meta fld" "\<And>a s. get (put a s) = a"
  shows "kube_api (focus_client get put K) (\<lambda>s. objs (get s)) meta fld"
proof
  let ?F = "focus_client get put K"
  fix s k x base y lock s' e
  show "k_get ?F s k = Inr x \<Longrightarrow> objs (get s) k = Some x \<and> meta_key (meta x) = k"
    using kube_api.get_ok [OF assms(1)] by (simp add: focus_client_def)
  have patch: "k_patch ?F s x base lock = (s', r) \<Longrightarrow> k_patch K (get s) x base lock = (get s', r)" for r
    by (auto simp: focus_client_def assms(2) case_prod_unfold Let_def)
  show "k_patch ?F s x base lock = (s', Inr y) \<Longrightarrow>
      \<exists>x0. objs (get s) (meta_key (meta x)) = Some x0 \<and> objs (get s') = (objs (get s))(meta_key (meta x) \<mapsto> y) \<and>
        meta_key (meta y) = meta_key (meta x) \<and>
        (lock \<longrightarrow> om_ResourceVersion (meta x0) = om_ResourceVersion (meta base)) \<and>
        fld y = (if fld x = fld base then fld x0 else fld x)"
    by (rule kube_api.patch_ok [OF assms(1) patch])
  show "k_patch ?F s x base lock = (s', Inl e) \<Longrightarrow> objs (get s') = objs (get s)"
    by (rule kube_api.patch_err [OF assms(1) patch])
qed

record nat_world =
  nw_gw :: "NATGateway kube_mem"
  nw_nic :: "NetworkInterface kube_mem"
  nw_table :: "NATTable kube_mem"
  nw_as :: "NATGatewayAutoscaler kube_mem"

definition nic_merge :: "NetworkInterface \<Rightarrow> NetworkInterface \<Rightarrow> NetworkInterface \<Rightarrow> NetworkInterface" where
  "nic_merge base x x0 =
     x0\<lparr>nic_Meta := (nic_Meta x0)\<lparr>om_Name := om_Name (nic_Meta x), om_Namespace := om_Namespace (nic_Meta x)\<rparr>,
        nic_Spec := (nic_Spec x0)\<lparr>nics_NATs := (if nic_NATs x = nic_NATs base then nic_NATs x0 else nic_NATs x)\<rparr>\<rparr>"

definition mem_nic_client :: "(NetworkInterface kube_mem, NetworkInterface) kclient" where
  "mem_nic_client = mem_kclient nic_Meta
     (\<lambda>v x. x\<lparr>nic_Meta := (nic_Meta x)\<lparr>om_ResourceVersion := v\<rparr>\<rparr>) nic_merge"

definition mem_nat_env :: "nat_world nat_env" where
  "mem_nat_env =
     \<lparr>ne_gw = focus_client nw_gw (\<lambda>a s. s\<lparr>nw_gw := a\<rparr>) (mem_kclient ng_Meta
        (\<lambda>v x. x\<lparr>ng_Meta := (ng_Meta x)\<lparr>om_ResourceVersion := v\<rparr>\<rparr>) (\<lambda>base x x0. x)),
      ne_nic = focus_client nw_nic (\<lambda>a s. s\<lparr>nw_nic := a\<rparr>) mem_nic_client,
      ne_table = focus_client nw_table (\<lambda>a s. s\<lparr>nw_table := a\<rparr>) (mem_kclient nt_Meta
        (\<lambda>v x. x\<lparr>nt_Meta := (nt_Meta x)\<lparr>om_ResourceVersion := v\<rparr>\<rparr>) (\<lambda>base x x0. x)),
      ne_as = focus_client nw_as (\<lambda>a s. s\<lparr>nw_as := a\<rparr>) (mem_kclient nga_Meta
        (\<lambda>v x. x\<lparr>nga_Meta := (nga_Meta x)\<lparr>om_ResourceVersion := v\<rparr>\<rparr>) (\<lambda>base x x0. x))\<rparr>"

definition mem_nics :: "nat_world \<Rightarrow> ObjectKey \<rightharpoonup> NetworkInterface" where
  "mem_nics s = map_of (km_objs (nw_nic s))"

lemma mem_nic_api: "nic_api (ne_nic mem_nat_env) mem_nics"
proof -
  have "kube_api mem_nic_client (\<lambda>s. map_of (km_objs s)) nic_Meta nic_NATs"
    unfolding mem_nic_client_def
    by (rule mem_kube_api) (auto simp: nic_merge_def meta_key_def)
  then have "kube_api (ne_nic mem_nat_env) mem_nics nic_Meta nic_NATs"
    unfolding mem_nat_env_def mem_nics_def by (simp, rule focus_kube_api) simp_all
  then show ?thesis by (simp add: nic_api_def)
qed

interpretation mem_nic: nic_api "ne_nic mem_nat_env" mem_nics
  by (rule mem_nic_api)

section \<open>Properties\<close>

lemma getExistingAllocations_returns:
  assumes "bitset B" "0 < ngs_PortsPerNetworkInterface (ng_Spec ng)"
    "ngs_PortsPerNetworkInterface (ng_Spec ng) \<le> noOfEphemeralPorts"
  obtains (err) err err' where "k_get (ne_table E) s (meta_key (ng_Meta ng)) = Inl err" "\<not> IsNotFound err"
      "getExistingAllocations B E s ng ips = Returns (Inl err')"
  | (ok) existing where "getExistingAllocations B E s ng ips = Returns (Inr existing)"
proof (cases "k_get (ne_table E) s (meta_key (ng_Meta ng))")
  case (Inl e)
  then show ?thesis using err [of e] ok by (cases "IsNotFound e") (simp_all add: getExistingAllocations_def)
next
  case (Inr t)
  then show ?thesis using NewAllocationManager_ok [OF assms, of ips] ok by (auto simp: getExistingAllocations_def)
qed

lemma manageNATTable_sound:
  assumes "bitset B" and "\<And>xs. set (ord xs) = set xs" and "is_order ordS" and "is_order ordI"
    and "1 < ngs_PortsPerNetworkInterface (ng_Spec ng)"
    and "ngs_PortsPerNetworkInterface (ng_Spec ng) \<le> noOfEphemeralPorts"
    and "\<And>t. k_get (ne_table E) s (meta_key (ng_Meta ng)) = Inr t \<Longrightarrow>
      \<exists>ips. table_ok (ngs_PortsPerNetworkInterface (ng_Spec ng)) ips t"
    and "getExistingAllocations B E s ng (GetNATGatewayIPs ng) = Returns (Inr existing)"
  obtains (unread) err err' where
      "k_list (ne_nic E) s (om_Namespace (ng_Meta ng)) = Inl err"
      "manageNATTable B ord ordS ordI env E ng (GetNATGatewayIPs ng) existing s = Returns (s, Inl err')"
  | (applied) r s1 t where
      "manageNATTable B ord ordS ordI env E ng (GetNATGatewayIPs ng) existing s
       = Returns (fst (k_apply (ne_table E) s1 t), r)"
      "meta_key (nt_Meta t) = meta_key (ng_Meta ng)"
      "table_ok (ngs_PortsPerNetworkInterface (ng_Spec ng)) (set (GetNATGatewayIPs ng)) t"
proof (cases "k_list (ne_nic E) s (om_Namespace (ng_Meta ng))")
  case (Inl err)
  then show ?thesis by (intro unread) (simp_all add: manageNATTable_def)
next
  case (Inr nics)
  let ?p = "ngs_PortsPerNetworkInterface (ng_Spec ng)" and ?ips = "GetNATGatewayIPs ng"
  have p: "0 < ?p" using assms(5) by simp
  obtain m where m: "NewAllocationManager B ?p ?ips = Returns m" "am_ok B m" "ks_keys (am_slots m) = set ?ips"
    "portsPerNetworkInterface m = ?p"
    using NewAllocationManager_ok [OF assms(1) p assms(6)] by blast
  have "taken B (am_slots m) = {}"
    using m(1) assms(1) by (auto simp: NewAllocationManager_def Let_def bitset.NewKeySlots_ok split: if_splits)
  moreover have "reusable ?p (set ?ips) existing"
    by (rule bitset.getExistingAllocations_reusable [OF assms(1) assms(8) p assms(6,7)])
  ultimately obtain st where st: "allocate_nics B ord env E ng existing nics m s = Returns st"
    "st_ok B ?p (set ?ips) st"
    using bitset.allocate_nics_ok [OF assms(1) m(2,4,3) _ _ assms(5,2), of existing env E ng nics s] by blast
  let ?t = "natTable_of ordS ordI ng (ms_alloc st)"
  have t: "table_ok ?p (set ?ips) ?t"
    using st(2) bitset.natTable_of_ok [OF assms(1) _ _ assms(3,4), of "ms_mgr st" "ms_alloc st" ng]
    by (auto simp: st_ok_def)
  have "fst (applyNATTable ordS ordI E (ms_s st) ng (ms_alloc st)) = fst (k_apply (ne_table E) (ms_s st) ?t)"
    by (auto simp: applyNATTable_def split: prod.splits sum.splits)
  then obtain r where "manageNATTable B ord ordS ordI env E ng ?ips existing s
      = Returns (fst (k_apply (ne_table E) (ms_s st) ?t), r)"
    using Inr m(1) st(1) by (simp add: manageNATTable_def case_prod_unfold Let_def)
  moreover have "meta_key (nt_Meta ?t) = meta_key (ng_Meta ng)" by (simp add: natTable_of_def meta_key_def)
  ultimately show ?thesis using t by (rule applied)
qed

lemma reconcile_after_table:
  assumes "getExistingAllocations B E s ng (GetNATGatewayIPs ng) = Returns (Inr existing)"
    and "manageNATTable B ord ordS ordI env E ng (GetNATGatewayIPs ng) existing s = Returns (s2, r)"
  shows "\<exists>s3 e. natgateway_reconcile B ord ordS ordI env E s ng = Returns (s3, e) \<and>
    (s3 = s2 \<or> (\<exists>ng'. ng_Spec ng' = ng_Spec ng \<and> ng_Meta ng' = ng_Meta ng \<and>
       s3 = fst (k_statusPatch (ne_gw E) s2 ng' ng)))"
proof (cases r)
  case (Inl err)
  then show ?thesis using assms by (simp add: natgateway_reconcile_def)
next
  case (Inr ur)
  obtain u q where ur: "ur = (u, q)" by fastforce
  let ?ng = "ng\<lparr>ng_Status := \<lparr>ngst_UsedNATIPs = u, ngst_RequestedNATIPs = q\<rparr>\<rparr>"
  obtain s3 w where w: "k_statusPatch (ne_gw E) s2 ?ng ng = (s3, w)" by fastforce
  have "s3 = fst (k_statusPatch (ne_gw E) s2 ?ng ng) \<and> ng_Spec ?ng = ng_Spec ng \<and> ng_Meta ?ng = ng_Meta ng"
    using w by simp
  moreover have "\<exists>e. natgateway_reconcile B ord ordS ordI env E s ng = Returns (s3, e)"
    if "u \<noteq> ngst_UsedNATIPs (ng_Status ng) \<or> q \<noteq> ngst_RequestedNATIPs (ng_Status ng)"
    using assms Inr ur w that by (cases w) (simp_all add: natgateway_reconcile_def updateNATGatewayUsedRequests_def Let_def)
  moreover have "natgateway_reconcile B ord ordS ordI env E s ng = Returns (s2, None)"
    if "\<not> (u \<noteq> ngst_UsedNATIPs (ng_Status ng) \<or> q \<noteq> ngst_RequestedNATIPs (ng_Status ng))"
    using assms Inr ur that by (simp add: natgateway_reconcile_def)
  ultimately show ?thesis by blast
qed

text \<open>
  C1. One reconciliation of a NAT gateway, with more than 1 and at most 64512 ports per interface
  (with 0 it panics: see the property on gateways with zero ports), returns without a panic, whatever the order of
  map iterations, the interfaces, the other clients and the outcome of its own claims and releases,
  if the table it finds was made of whole slots of the same width. Either the read of the table or
  the list of interfaces failed, an error is returned and nothing is written; or it applies one table,
  under the gateway's name, that is sound: it only names
  addresses of the gateway, each once and in order; every section has the configured number of ports
  within 1024..65535; the sections of one address do not overlap; and the table again satisfies the
  condition on the old one. After the apply it at most patches the gateway's status.
\<close>

theorem natgateway_table_sound:
  assumes "bitset B" and "\<And>xs. set (ord xs) = set xs" and "is_order ordS" and "is_order ordI"
    and "1 < ngs_PortsPerNetworkInterface (ng_Spec ng)"
    and "ngs_PortsPerNetworkInterface (ng_Spec ng) \<le> 64512"
    and "\<And>t. k_get (ne_table E) s (meta_key (ng_Meta ng)) = Inr t \<Longrightarrow>
      \<exists>ips. table_ok (ngs_PortsPerNetworkInterface (ng_Spec ng)) ips t"
  shows "(\<exists>err err'. natgateway_reconcile B ord ordS ordI env E s ng = Returns (s, Some err) \<and>
       (k_get (ne_table E) s (meta_key (ng_Meta ng)) = Inl err' \<and> \<not> IsNotFound err' \<or>
        k_list (ne_nic E) s (om_Namespace (ng_Meta ng)) = Inl err')) \<or>
    (\<exists>s1 t s2 s3 e. natgateway_reconcile B ord ordS ordI env E s ng = Returns (s3, e) \<and>
       s2 = fst (k_apply (ne_table E) s1 t) \<and>
       (s3 = s2 \<or> (\<exists>ng'. ng_Spec ng' = ng_Spec ng \<and> ng_Meta ng' = ng_Meta ng \<and>
          s3 = fst (k_statusPatch (ne_gw E) s2 ng' ng))) \<and>
       meta_key (nt_Meta t) = meta_key (ng_Meta ng) \<and>
       table_ok (ngs_PortsPerNetworkInterface (ng_Spec ng)) (set (GetNATGatewayIPs ng)) t \<and>
       distinct (map nat_IP (nt_IPs t)) \<and> sorted (map nat_IP (nt_IPs t)) \<and>
       (\<forall>n\<in>set (nt_IPs t). nat_IP n \<in> set (GetNATGatewayIPs ng) \<and>
          (\<forall>a\<in>set (nat_Sections n). {nsec_Port a..nsec_EndPort a} \<subseteq> {1024..65535} \<and>
             nsec_EndPort a = nsec_Port a + ngs_PortsPerNetworkInterface (ng_Spec ng) - 1) \<and>
          (\<forall>a\<in>set (nat_Sections n). \<forall>b\<in>set (nat_Sections n). a \<noteq> b \<longrightarrow>
             {nsec_Port a..nsec_EndPort a} \<inter> {nsec_Port b..nsec_EndPort b} = {})))"
proof -
  let ?p = "ngs_PortsPerNetworkInterface (ng_Spec ng)" and ?ips = "GetNATGatewayIPs ng"
  have p: "0 < ?p" and le: "?p \<le> noOfEphemeralPorts" using assms(5,6) by (simp_all add: port_consts)
  show ?thesis
  proof (rule getExistingAllocations_returns [OF assms(1) p le, where E = E and s = s and ips = ?ips])
    fix err err' assume k: "k_get (ne_table E) s (meta_key (ng_Meta ng)) = Inl err" "\<not> IsNotFound err"
      and ex: "getExistingAllocations B E s ng ?ips = Returns (Inl err')"
    have "natgateway_reconcile B ord ordS ordI env E s ng =
        Returns (s, Some (Wrapped ''error getting existing allocations'' err'))"
      using ex by (simp add: natgateway_reconcile_def)
    then show ?thesis using k by blast
  next
    fix existing assume ex: "getExistingAllocations B E s ng ?ips = Returns (Inr existing)"
    show ?thesis
    proof (rule manageNATTable_sound [OF assms(1-5) le assms(7) ex, where env = env])
      fix err err' assume k: "k_list (ne_nic E) s (om_Namespace (ng_Meta ng)) = Inl err"
        and m: "manageNATTable B ord ordS ordI env E ng ?ips existing s = Returns (s, Inl err')"
      have "natgateway_reconcile B ord ordS ordI env E s ng = Returns (s, Some (Wrapped ''error managing NAT IPs'' err'))"
        using ex m by (simp add: natgateway_reconcile_def)
      then show ?thesis using k by blast
    next
      fix r s1 t
      assume m: "manageNATTable B ord ordS ordI env E ng ?ips existing s = Returns (fst (k_apply (ne_table E) s1 t), r)"
        and k: "meta_key (nt_Meta t) = meta_key (ng_Meta ng)" and t: "table_ok ?p (set ?ips) t"
      have ip: "nat_IP n \<in> set ?ips" if "n \<in> set (nt_IPs t)" for n
        using t that by (simp add: table_ok_def)
      have o: "distinct (map nat_IP (nt_IPs t))" "sorted (map nat_IP (nt_IPs t))" using t by (simp_all add: table_ok_def)
      obtain s3 e where r: "natgateway_reconcile B ord ordS ordI env E s ng = Returns (s3, e)"
        "s3 = fst (k_apply (ne_table E) s1 t) \<or> (\<exists>ng'. ng_Spec ng' = ng_Spec ng \<and> ng_Meta ng' = ng_Meta ng \<and>
           s3 = fst (k_statusPatch (ne_gw E) (fst (k_apply (ne_table E) s1 t)) ng' ng))"
        using reconcile_after_table [OF ex m] by blast
      show ?thesis
        by (rule disjI2, rule exI [of _ s1], rule exI [of _ t], rule exI [of _ "fst (k_apply (ne_table E) s1 t)"],
            rule exI [of _ s3], rule exI [of _ e])
          (intro conjI r k t o refl ballI [where A = "set (nt_IPs t)"] ip table_ok_ports [OF t p])
    qed
  qed
qed

definition example_nic :: "string \<Rightarrow> NetworkInterfaceNAT list \<Rightarrow> NetworkInterface" where
  "example_nic name nats =
     \<lparr>nic_Meta = zero_meta\<lparr>om_Name := name, om_UID := name, om_ResourceVersion := ''1''\<rparr>,
      nic_Spec = \<lparr>nics_NodeRef = ''node'', nics_NetworkRef = ''net'', nics_IPs = [V4 167772161], nics_Prefixes = [],
        nics_NATs = nats, nics_PublicIPs = []\<rparr>,
      nic_Status = \<lparr>nicst_State = NetworkInterfaceStateReady, nicst_PCIAddress = None, nicst_Prefixes = [],
        nicst_PublicIPs = [], nicst_NATIPs = []\<rparr>\<rparr>"

definition example_world :: nat_world where
  "example_world = \<lparr>nw_gw = \<lparr>km_objs = [], km_version = 1\<rparr>,
     nw_nic = \<lparr>km_objs = [(nic_key (example_nic ''a'' []), example_nic ''a'' [])], km_version = 1\<rparr>,
     nw_table = \<lparr>km_objs = [], km_version = 1\<rparr>, nw_as = \<lparr>km_objs = [], km_version = 1\<rparr>\<rparr>"

definition example_gateway2 :: NATGateway where
  "example_gateway2 = example_gateway\<lparr>ng_Spec := (ng_Spec example_gateway)
     \<lparr>ngs_IPs := [\<lparr>natip_Name = ''x'', natip_IP = V4 1\<rparr>]\<rparr>\<rparr>"

lemma example_world_reads:
  "k_get (ne_table mem_nat_env) example_world k = Inl NotFound"
  "k_list (ne_nic mem_nat_env) example_world (om_Namespace (ng_Meta example_gateway2)) = Inr [example_nic ''a'' []]"
  by (simp_all add: mem_nat_env_def focus_client_def mem_nic_client_def mem_kclient_def Let_def example_world_def
      example_gateway2_def example_gateway_def zero_meta_def example_nic_def)

theorem natgateway_table_sound_witness:
  "\<exists>s1 t s2 s3 e. natgateway_reconcile list_bitset rev rev rev (\<lambda>_ s. s) mem_nat_env example_world example_gateway2
       = Returns (s3, e) \<and> s2 = fst (k_apply (ne_table mem_nat_env) s1 t) \<and>
     table_ok (ngs_PortsPerNetworkInterface (ng_Spec example_gateway2)) (set (GetNATGatewayIPs example_gateway2)) t \<and>
     (\<forall>n\<in>set (nt_IPs t). nat_IP n = V4 1 \<and>
        (\<forall>a\<in>set (nat_Sections n). {nsec_Port a..nsec_EndPort a} \<subseteq> {1024..65535}))"
proof -
  have ips: "GetNATGatewayIPs example_gateway2 = [V4 1]"
    by (simp add: GetNATGatewayIPs_def example_gateway2_def example_gateway_def)
  have key: "\<not> (k_get (ne_table mem_nat_env) example_world k = Inl err \<and> \<not> IsNotFound err)" for k err
    by (simp add: example_world_reads)
  have "1 < ngs_PortsPerNetworkInterface (ng_Spec example_gateway2)"
    "ngs_PortsPerNetworkInterface (ng_Spec example_gateway2) \<le> 64512"
    by (simp_all add: example_gateway2_def example_gateway_def)
  from natgateway_table_sound [where B = list_bitset and ord = rev and ordS = rev and ordI = rev and E = mem_nat_env
      and s = example_world and env = "\<lambda>_ s. s", OF list_bitset.bitset_axioms _ _ _ this]
  show ?thesis unfolding ips by (simp add: is_order_def example_world_reads) blast
qed


definition example_ref :: NetworkInterfaceNATClaimRef where
  "example_ref = \<lparr>nnref_Name = ''nat'', nnref_UID = ''nat-uid''\<rparr>"

lemmas claim_eval = mem_nat_env_def focus_client_def mem_nic_client_def mem_kclient_def Let_def example_world_def
  example_nic_def zero_meta_def nic_key_def nic_uid_def meta_key_def GetNetworkInterfaceNATClaimer_def
  set_NATs_def DefaultRetrySteps_def eval_nat_numeral claim_attempt_def nic_merge_def


text \<open>
  Releasing a claim does not release it: the patch is computed between the changed object
  and itself, so on any server no stored interface loses a NAT, although the release reports
  success. (The environment is quiet here, so that every change would be the release's own.)
\<close>

theorem ReleaseNetworkInterfaceNAT_releases_nothing:
  assumes "nic_api K objs" and "\<And>n s. objs (env n s) = objs s"
    and "ReleaseNetworkInterfaceNAT env K s nic fam = (s', e)"
  shows "map_option (\<lambda>x. nics_NATs (nic_Spec x)) (objs s' k) = map_option (\<lambda>x. nics_NATs (nic_Spec x)) (objs s k)"
  by (rule nic_api.Release_noop [OF assms(1,3,2)])

definition claimed_world :: nat_world where
  "claimed_world = example_world\<lparr>nw_nic := \<lparr>km_objs = [(nic_key (example_nic ''a'' []),
     example_nic ''a'' [\<lparr>nnat_IPFamily = IPv4Protocol, nnat_ClaimRef = example_ref\<rparr>])], km_version = 1\<rparr>\<rparr>"

theorem ReleaseNetworkInterfaceNAT_releases_nothing_witness:
  "\<exists>s'. ReleaseNetworkInterfaceNAT (\<lambda>_ s. s) (ne_nic mem_nat_env) claimed_world
       (example_nic ''a'' [\<lparr>nnat_IPFamily = IPv4Protocol, nnat_ClaimRef = example_ref\<rparr>]) IPv4Protocol = (s', None) \<and>
     map_option (\<lambda>x. nics_NATs (nic_Spec x)) (mem_nics s' (nic_key (example_nic ''a'' [])))
       = Some [\<lparr>nnat_IPFamily = IPv4Protocol, nnat_ClaimRef = example_ref\<rparr>]"
proof -
  let ?nic = "example_nic ''a'' [\<lparr>nnat_IPFamily = IPv4Protocol, nnat_ClaimRef = example_ref\<rparr>]"
  obtain s' where r: "ReleaseNetworkInterfaceNAT (\<lambda>_ s. s) (ne_nic mem_nat_env) claimed_world ?nic IPv4Protocol = (s', None)"
    by (simp add: ReleaseNetworkInterfaceNAT_def release_attempt_def claimed_world_def claim_eval)
  have "map_option (\<lambda>x. nics_NATs (nic_Spec x)) (mem_nics claimed_world (nic_key (example_nic ''a'' [])))
      = Some [\<lparr>nnat_IPFamily = IPv4Protocol, nnat_ClaimRef = example_ref\<rparr>]"
    by (simp add: mem_nics_def claimed_world_def example_nic_def)
  moreover have "map_option (\<lambda>x. nics_NATs (nic_Spec x)) (mem_nics s' (nic_key (example_nic ''a'' [])))
      = map_option (\<lambda>x. nics_NATs (nic_Spec x)) (mem_nics claimed_world (nic_key (example_nic ''a'' [])))"
    by (rule ReleaseNetworkInterfaceNAT_releases_nothing [OF mem_nic_api refl r])
  ultimately show ?thesis using r by metis
qed

text \<open>
  The gateway's selection of network interfaces does not look at their network: an
  interface of any other network in the namespace is selected, and so claimed, just the same.
\<close>

theorem selector_ignores_network:
  "natGatewayNetworkInterfaceSelector ng (nic\<lparr>nic_Spec := (nic_Spec nic)\<lparr>nics_NetworkRef := net\<rparr>\<rparr>) =
   natGatewayNetworkInterfaceSelector ng nic"
  by (simp add: natGatewayNetworkInterfaceSelector_def)

end
