(* ===== verification/SchedulerCache.thy ===== *)
theory SchedulerCache
  imports ApiStore
begin

text \<open>
  The cache of the instance scheduler, \<open>internal/controllers/scheduler/cache.go\<close>: which
  instances are on which node, and which of them were only assumed to be there. Every operation
  holds the cache's lock for its whole body (\<open>ForgetInstance\<close> takes none), so an operation is
  one step. Go maps are association lists; the order in which a loop sees a map is an argument.
\<close>

section \<open>Strategies\<close>

text \<open>\<open>ContainerKey\<close> panics when it reads the name of a missing node reference.\<close>

record CacheStrategy =
  cs_Key :: "Instance \<Rightarrow> string result"
  cs_ContainerKey :: "Instance \<Rightarrow> string outcome"

definition DefaultCacheStrategy :: CacheStrategy where
  "DefaultCacheStrategy =
     \<lparr>cs_Key = (\<lambda>instance. if om_UID (inst_Meta instance) = [] then Inl (ErrMsg ''instance has no UID'')
                          else Inr (om_UID (inst_Meta instance))),
      cs_ContainerKey = (\<lambda>instance. case is_NodeRef (inst_Spec instance) of None \<Rightarrow> Panics | Some n \<Rightarrow> Returns n)\<rparr>"

section \<open>The cache\<close>

record ContainerInfo =
  ci_node :: "Node option"
  ci_instances :: "(string \<times> Instance) list"

definition newNodeInfo :: ContainerInfo where
  "newNodeInfo = \<lparr>ci_node = None, ci_instances = []\<rparr>"

definition NumInstances :: "ContainerInfo \<Rightarrow> nat" where
  "NumInstances n = length (ci_instances n)"

definition Instances :: "(Instance list \<Rightarrow> Instance list) \<Rightarrow> ContainerInfo \<Rightarrow> Instance list" where
  "Instances ord n = ord (map snd (ci_instances n))"

record instanceState =
  st_instance :: Instance
  st_bindingFinished :: bool

record Cache =
  assumedInstances :: "string list"
  instanceStates :: "(string \<times> instanceState) list"
  c_nodes :: "(string \<times> ContainerInfo) list"

definition NewCache :: Cache where
  "NewCache = \<lparr>assumedInstances = [], instanceStates = [], c_nodes = []\<rparr>"

text \<open>A snapshot: the nodes by name, in the order the loop over the cache's nodes met them.\<close>

type_synonym Snapshot = "(string \<times> ContainerInfo) list"

definition snapshot_Update ::
  "((string \<times> ContainerInfo) list \<Rightarrow> (string \<times> ContainerInfo) list) \<Rightarrow> Cache \<Rightarrow> Snapshot" where
  "snapshot_Update ord c = filter (\<lambda>(key, n). ci_node n \<noteq> None) (ord (c_nodes c))"

definition NumNodes :: "Snapshot \<Rightarrow> nat" where
  "NumNodes s = length s"

definition GetNode :: "Snapshot \<Rightarrow> string \<Rightarrow> ContainerInfo result" where
  "GetNode s name = (case map_of s name of None \<Rightarrow> Inl (ErrMsg ''node not found'') | Some n \<Rightarrow> Inr n)"

section \<open>Operations\<close>

definition addInstance :: "CacheStrategy \<Rightarrow> Cache \<Rightarrow> string \<Rightarrow> Instance \<Rightarrow> bool \<Rightarrow> Cache outcome" where
  "addInstance S c key instance assume' =
     (case cs_ContainerKey S instance of
        Panics \<Rightarrow> Panics
      | Returns containerKey \<Rightarrow>
          let n = (case map_of (c_nodes c) containerKey of None \<Rightarrow> newNodeInfo | Some n \<Rightarrow> n) in
          Returns (c\<lparr>c_nodes := AList.update containerKey (n\<lparr>ci_instances := AList.update key instance (ci_instances n)\<rparr>) (c_nodes c),
            instanceStates := AList.update key \<lparr>st_instance = instance, st_bindingFinished = False\<rparr> (instanceStates c),
            assumedInstances := (if assume' then List.insert key (assumedInstances c) else assumedInstances c)\<rparr>))"

definition removeInstance :: "CacheStrategy \<Rightarrow> Cache \<Rightarrow> string \<Rightarrow> Instance \<Rightarrow> Cache outcome" where
  "removeInstance S c key instance =
     (case cs_ContainerKey S instance of
        Panics \<Rightarrow> Panics
      | Returns containerKey \<Rightarrow>
          let nodes = (case map_of (c_nodes c) containerKey of
                None \<Rightarrow> c_nodes c
              | Some n \<Rightarrow>
                  let n' = n\<lparr>ci_instances := AList.delete key (ci_instances n)\<rparr> in
                  if ci_instances n' = [] \<and> ci_node n' = None then AList.delete containerKey (c_nodes c)
                  else AList.update containerKey n' (c_nodes c)) in
          Returns (c\<lparr>c_nodes := nodes, assumedInstances := removeAll key (assumedInstances c),
            instanceStates := AList.delete key (instanceStates c)\<rparr>))"

definition updateInstance :: "CacheStrategy \<Rightarrow> Cache \<Rightarrow> string \<Rightarrow> Instance \<Rightarrow> Instance \<Rightarrow> Cache outcome" where
  "updateInstance S c key oldInstance newInstance =
     (case removeInstance S c key oldInstance of
        Panics \<Rightarrow> Panics
      | Returns c' \<Rightarrow> addInstance S c' key newInstance False)"

definition IsAssumedInstance :: "CacheStrategy \<Rightarrow> Cache \<Rightarrow> Instance \<Rightarrow> bool result" where
  "IsAssumedInstance S c instance =
     (case cs_Key S instance of Inl err \<Rightarrow> Inl err | Inr key \<Rightarrow> Inr (key \<in> set (assumedInstances c)))"

definition AssumeInstance :: "CacheStrategy \<Rightarrow> Cache \<Rightarrow> Instance \<Rightarrow> (Cache \<times> go_error option) outcome" where
  "AssumeInstance S c instance =
     (case cs_Key S instance of
        Inl err \<Rightarrow> Returns (c, Some err)
      | Inr key \<Rightarrow>
          if map_of (instanceStates c) key \<noteq> None
          then Returns (c, Some (ErrMsg ''instance is in the cache, so can't be assumed''))
          else (case addInstance S c key instance True of Panics \<Rightarrow> Panics | Returns c' \<Rightarrow> Returns (c', None)))"

text \<open>
  Both container keys are read when there is a state, before they are compared. The error at the
  end is returned whether or not the instance was removed.
\<close>

definition notAssumed :: "go_error option" where
  "notAssumed = Some (ErrMsg ''instance wasn't assumed so cannot be forgotten'')"

definition ForgetInstance :: "CacheStrategy \<Rightarrow> Cache \<Rightarrow> Instance \<Rightarrow> (Cache \<times> go_error option) outcome" where
  "ForgetInstance S c instance =
     (case cs_Key S instance of
        Inl err \<Rightarrow> Returns (c, Some err)
      | Inr key \<Rightarrow>
          (case map_of (instanceStates c) key of
             None \<Rightarrow> Returns (c, notAssumed)
           | Some currState \<Rightarrow>
               (case (cs_ContainerKey S (st_instance currState), cs_ContainerKey S instance) of
                  (Returns oldContainerKey, Returns newContainerKey) \<Rightarrow>
                    if oldContainerKey \<noteq> newContainerKey
                    then Returns (c, Some (ErrMsg ''instance was assumed on container but assigned to''))
                    else if key \<in> set (assumedInstances c)
                    then (case removeInstance S c key instance of Panics \<Rightarrow> Panics | Returns c' \<Rightarrow> Returns (c', notAssumed))
                    else Returns (c, notAssumed)
                | _ \<Rightarrow> Panics)))"

definition FinishBinding :: "CacheStrategy \<Rightarrow> Cache \<Rightarrow> Instance \<Rightarrow> Cache \<times> go_error option" where
  "FinishBinding S c instance =
     (case cs_Key S instance of
        Inl err \<Rightarrow> (c, Some err)
      | Inr key \<Rightarrow>
          (case map_of (instanceStates c) key of
             Some currState \<Rightarrow>
               if key \<in> set (assumedInstances c)
               then (c\<lparr>instanceStates := AList.update key (currState\<lparr>st_bindingFinished := True\<rparr>) (instanceStates c)\<rparr>, None)
               else (c, None)
           | None \<Rightarrow> (c, None)))"

definition AddContainer :: "Cache \<Rightarrow> Node \<Rightarrow> Cache" where
  "AddContainer c node =
     (let name = om_Name (node_Meta node);
          n = (case map_of (c_nodes c) name of None \<Rightarrow> newNodeInfo | Some n \<Rightarrow> n) in
      c\<lparr>c_nodes := AList.update name (n\<lparr>ci_node := Some node\<rparr>) (c_nodes c)\<rparr>)"

definition UpdateContainer :: "Cache \<Rightarrow> Node \<Rightarrow> Node \<Rightarrow> Cache" where
  "UpdateContainer c oldNode newNode =
     (let name = om_Name (node_Meta newNode);
          n = (case map_of (c_nodes c) name of None \<Rightarrow> newNodeInfo | Some n \<Rightarrow> n) in
      c\<lparr>c_nodes := AList.update name (n\<lparr>ci_node := Some newNode\<rparr>) (c_nodes c)\<rparr>)"

definition RemoveContainer :: "Cache \<Rightarrow> Node \<Rightarrow> Cache \<times> go_error option" where
  "RemoveContainer c node =
     (let name = om_Name (node_Meta node) in
      case map_of (c_nodes c) name of
        None \<Rightarrow> (c, Some (ErrMsg ''node not found''))
      | Some n \<Rightarrow>
          (c\<lparr>c_nodes := (if ci_instances n = [] then AList.delete name (c_nodes c)
                         else AList.update name (n\<lparr>ci_node := None\<rparr>) (c_nodes c))\<rparr>, None))"

definition AddInstance :: "CacheStrategy \<Rightarrow> Cache \<Rightarrow> Instance \<Rightarrow> (Cache \<times> go_error option) outcome" where
  "AddInstance S c instance =
     (case cs_Key S instance of
        Inl err \<Rightarrow> Returns (c, Some err)
      | Inr key \<Rightarrow>
          (case map_of (instanceStates c) key of
             Some currState \<Rightarrow>
               if key \<in> set (assumedInstances c)
               then (case updateInstance S c key (st_instance currState) instance of
                       Panics \<Rightarrow> Panics | Returns c' \<Rightarrow> Returns (c', None))
               else Returns (c, Some (ErrMsg ''instance was already in added state''))
           | None \<Rightarrow>
               (case addInstance S c key instance False of Panics \<Rightarrow> Panics | Returns c' \<Rightarrow> Returns (c', None))))"

definition UpdateInstance ::
  "CacheStrategy \<Rightarrow> Cache \<Rightarrow> Instance \<Rightarrow> Instance \<Rightarrow> (Cache \<times> go_error option) outcome" where
  "UpdateInstance S c oldInstance newInstance =
     (case cs_Key S oldInstance of
        Inl err \<Rightarrow> Returns (c, Some err)
      | Inr key \<Rightarrow>
          (case map_of (instanceStates c) key of
             None \<Rightarrow> Returns (c, Some (ErrMsg ''instance is not present in the cache and thus cannot be updated''))
           | Some currState \<Rightarrow>
               if key \<in> set (assumedInstances c)
               then Returns (c, Some (ErrMsg ''assumed instance should not be updated''))
               else (case (cs_ContainerKey S (st_instance currState), cs_ContainerKey S newInstance) of
                       (Returns oldContainerKey, Returns newContainerKey) \<Rightarrow>
                         if oldContainerKey \<noteq> newContainerKey then Panics
                         else (case updateInstance S c key oldInstance newInstance of
                                 Panics \<Rightarrow> Panics | Returns c' \<Rightarrow> Returns (c', None))
                     | _ \<Rightarrow> Panics)))"

definition RemoveInstance :: "CacheStrategy \<Rightarrow> Cache \<Rightarrow> Instance \<Rightarrow> (Cache \<times> go_error option) outcome" where
  "RemoveInstance S c instance =
     (case cs_Key S instance of
        Inl err \<Rightarrow> Returns (c, Some err)
      | Inr key \<Rightarrow>
          (case map_of (instanceStates c) key of
             None \<Rightarrow> Returns (c, Some (ErrMsg ''instance not found''))
           | Some currState \<Rightarrow>
               (case (cs_ContainerKey S (st_instance currState), cs_ContainerKey S instance) of
                  (Returns oldContainerKey, Returns newContainerKey) \<Rightarrow>
                    if oldContainerKey \<noteq> newContainerKey then Panics
                    else (case removeInstance S c key instance of Panics \<Rightarrow> Panics | Returns c' \<Rightarrow> Returns (c', None))
                | _ \<Rightarrow> Panics)))"

text \<open>The loop over the assumed instances; it only deletes the key it is at.\<close>

fun cleanup_loop :: "CacheStrategy \<Rightarrow> string list \<Rightarrow> Cache \<Rightarrow> Cache outcome" where
  "cleanup_loop S [] c = Returns c"
| "cleanup_loop S (key # keys) c =
     (case map_of (instanceStates c) key of
        None \<Rightarrow> Panics
      | Some is \<Rightarrow>
          if \<not> st_bindingFinished is then cleanup_loop S keys c
          else (case removeInstance S c key (st_instance is) of
                  Panics \<Rightarrow> Panics | Returns c' \<Rightarrow> cleanup_loop S keys c'))"

definition cleanupAssumedInstances ::
  "CacheStrategy \<Rightarrow> (string list \<Rightarrow> string list) \<Rightarrow> Cache \<Rightarrow> Cache outcome" where
  "cleanupAssumedInstances S ord c = cleanup_loop S (ord (assumedInstances c)) c"

section \<open>Runs of operations\<close>

datatype cache_op =
    OpAssume Instance
  | OpForget Instance
  | OpFinishBinding Instance
  | OpAddContainer Node
  | OpUpdateContainer Node Node
  | OpRemoveContainer Node
  | OpAdd Instance
  | OpUpdate Instance Instance
  | OpRemove Instance
  | OpCleanup "string list \<Rightarrow> string list"

fun cache_run :: "CacheStrategy \<Rightarrow> Cache \<Rightarrow> cache_op \<Rightarrow> (Cache \<times> go_error option) outcome" where
  "cache_run S c (OpAssume i) = AssumeInstance S c i"
| "cache_run S c (OpForget i) = ForgetInstance S c i"
| "cache_run S c (OpFinishBinding i) = Returns (FinishBinding S c i)"
| "cache_run S c (OpAddContainer n) = Returns (AddContainer c n, None)"
| "cache_run S c (OpUpdateContainer m n) = Returns (UpdateContainer c m n, None)"
| "cache_run S c (OpRemoveContainer n) = Returns (RemoveContainer c n)"
| "cache_run S c (OpAdd i) = AddInstance S c i"
| "cache_run S c (OpUpdate i j) = UpdateInstance S c i j"
| "cache_run S c (OpRemove i) = RemoveInstance S c i"
| "cache_run S c (OpCleanup ord) =
     (case cleanupAssumedInstances S ord c of Panics \<Rightarrow> Panics | Returns c' \<Rightarrow> Returns (c', None))"

inductive cache_reachable :: "CacheStrategy \<Rightarrow> Cache \<Rightarrow> bool" for S where
  start: "cache_reachable S NewCache"
| step: "cache_reachable S c \<Longrightarrow> cache_run S c op = Returns (c', e) \<Longrightarrow>
     (\<And>ord xs. op = OpCleanup ord \<Longrightarrow> set (ord xs) = set xs \<and> (distinct xs \<longrightarrow> distinct (ord xs))) \<Longrightarrow> cache_reachable S c'"

section \<open>The invariant\<close>

text \<open>The instance a node's entry has under a key.\<close>

definition placed :: "Cache \<Rightarrow> string \<Rightarrow> string \<Rightarrow> Instance option" where
  "placed c containerKey key =
     (case map_of (c_nodes c) containerKey of None \<Rightarrow> None | Some n \<Rightarrow> map_of (ci_instances n) key)"

text \<open>A node entry that is in use: it has a node of its name, or instances.\<close>

definition entry_ok :: "string \<Rightarrow> ContainerInfo \<Rightarrow> bool" where
  "entry_ok name n \<longleftrightarrow> distinct (map fst (ci_instances n)) \<and> (ci_node n \<noteq> None \<or> ci_instances n \<noteq> []) \<and>
     (\<forall>nd. ci_node n = Some nd \<longrightarrow> om_Name (node_Meta nd) = name)"

definition nodes_ok :: "Cache \<Rightarrow> bool" where
  "nodes_ok c \<longleftrightarrow> distinct (map fst (c_nodes c)) \<and> (\<forall>name n. map_of (c_nodes c) name = Some n \<longrightarrow> entry_ok name n)"

text \<open>Where the states say an instance is.\<close>

definition state_place :: "CacheStrategy \<Rightarrow> Cache \<Rightarrow> string \<Rightarrow> string \<Rightarrow> Instance option" where
  "state_place S c containerKey key =
     (case map_of (instanceStates c) key of
        None \<Rightarrow> None
      | Some st \<Rightarrow> if cs_ContainerKey S (st_instance st) = Returns containerKey then Some (st_instance st) else None)"

definition cache_ok :: "CacheStrategy \<Rightarrow> Cache \<Rightarrow> bool" where
  "cache_ok S c \<longleftrightarrow> nodes_ok c \<and> placed c = state_place S c \<and>
     distinct (assumedInstances c) \<and> set (assumedInstances c) \<subseteq> dom (map_of (instanceStates c)) \<and>
     (\<forall>key st. map_of (instanceStates c) key = Some st \<longrightarrow> returns (cs_ContainerKey S (st_instance st)))"

text \<open>Writing or deleting one entry of the node table.\<close>

lemma nodes_ok_put:
  "nodes_ok c \<Longrightarrow> entry_ok name n \<Longrightarrow> c_nodes c' = AList.update name n (c_nodes c) \<Longrightarrow> nodes_ok c'"
  by (auto simp: nodes_ok_def distinct_update update_conv' split: if_splits)

lemma nodes_ok_drop: "nodes_ok c \<Longrightarrow> c_nodes c' = AList.delete name (c_nodes c) \<Longrightarrow> nodes_ok c'"
  by (auto simp: nodes_ok_def distinct_delete delete_conv' split: if_splits)

lemma entry_ok_get: "nodes_ok c \<Longrightarrow> map_of (c_nodes c) name = Some n \<Longrightarrow> entry_ok name n"
  by (simp add: nodes_ok_def)

lemma placed_put:
  "c_nodes c' = AList.update name n (c_nodes c) \<Longrightarrow>
   placed c' ck = (if ck = name then map_of (ci_instances n) else placed c ck)"
  by (auto simp: placed_def fun_eq_iff update_conv' split: option.split)

lemma placed_Some: "map_of (c_nodes c) ck = Some n \<Longrightarrow> placed c ck = map_of (ci_instances n)"
  by (simp add: placed_def fun_eq_iff)

lemma placed_None: "map_of (c_nodes c) ck = None \<Longrightarrow> placed c ck = Map.empty"
  by (simp add: placed_def fun_eq_iff)

lemma addInstance_Returns:
  assumes "addInstance S c key i a = Returns c'"
  obtains ck n where "cs_ContainerKey S i = Returns ck" "c_nodes c' = AList.update ck n (c_nodes c)"
    "map_of (ci_instances n) = (placed c ck)(key \<mapsto> i)"
    "nodes_ok c \<Longrightarrow> entry_ok ck n"
    "map_of (instanceStates c') = (map_of (instanceStates c))(key \<mapsto> \<lparr>st_instance = i, st_bindingFinished = False\<rparr>)"
    "assumedInstances c' = (if a then List.insert key (assumedInstances c) else assumedInstances c)"
proof -
  obtain ck where ck: "cs_ContainerKey S i = Returns ck"
    using assms by (cases "cs_ContainerKey S i") (auto simp: addInstance_def)
  let ?n = "case map_of (c_nodes c) ck of None \<Rightarrow> newNodeInfo | Some n \<Rightarrow> n"
  let ?n' = "?n\<lparr>ci_instances := AList.update key i (ci_instances ?n)\<rparr>"
  have "map_of (ci_instances ?n) = placed c ck"
    by (cases "map_of (c_nodes c) ck") (simp_all add: placed_Some placed_None newNodeInfo_def)
  moreover have "entry_ok ck ?n'" if "nodes_ok c"
    using entry_ok_get [OF that, of ck]
    by (cases "map_of (c_nodes c) ck") (auto simp: entry_ok_def newNodeInfo_def distinct_update)
  ultimately show thesis using that [of ck ?n'] assms ck by (auto simp: addInstance_def Let_def update_conv')
qed

lemma removeInstance_Returns:
  assumes "removeInstance S c key i = Returns c'"
  obtains ck where "cs_ContainerKey S i = Returns ck"
    "nodes_ok c \<Longrightarrow> nodes_ok c'"
    "placed c' = (placed c)(ck := (placed c ck)(key := None))"
    "map_of (instanceStates c') = (map_of (instanceStates c))(key := None)"
    "assumedInstances c' = removeAll key (assumedInstances c)"
proof -
  obtain ck where ck: "cs_ContainerKey S i = Returns ck"
    using assms by (cases "cs_ContainerKey S i") (auto simp: removeInstance_def)
  show thesis
  proof (cases "map_of (c_nodes c) ck")
    case None
    then have "c_nodes c' = c_nodes c" using assms ck by (auto simp: removeInstance_def)
    then have "nodes_ok c \<Longrightarrow> nodes_ok c'" "placed c' = (placed c)(ck := (placed c ck)(key := None))"
      using None by (auto simp: nodes_ok_def placed_def fun_eq_iff)
    then show thesis using that [OF ck] assms ck by (auto simp: removeInstance_def delete_conv')
  next
    case (Some n)
    let ?n = "n\<lparr>ci_instances := AList.delete key (ci_instances n)\<rparr>"
    have p: "map_of (ci_instances ?n) = (placed c ck)(key := None)" using Some by (simp add: placed_Some delete_conv')
    show thesis
    proof (cases "ci_instances ?n = [] \<and> ci_node ?n = None")
      case True
      then have c': "c_nodes c' = AList.delete ck (c_nodes c)" using assms ck Some by (auto simp: removeInstance_def)
      have "(placed c ck)(key := None) = Map.empty" using p True by simp
      then have "placed c' = (placed c)(ck := (placed c ck)(key := None))"
        using c' by (auto simp: placed_def fun_eq_iff delete_conv')
      then show thesis using that [OF ck] nodes_ok_drop [OF _ c'] assms ck by (auto simp: removeInstance_def delete_conv')
    next
      case False
      then have c': "c_nodes c' = AList.update ck ?n (c_nodes c)" using assms ck Some by (auto simp: removeInstance_def Let_def)
      have "entry_ok ck ?n" if "nodes_ok c"
        using entry_ok_get [OF that Some] False by (auto simp: entry_ok_def distinct_delete)
      then have "nodes_ok c \<Longrightarrow> nodes_ok c'" using nodes_ok_put [OF _ _ c'] by blast
      moreover have "placed c' = (placed c)(ck := (placed c ck)(key := None))"
        using placed_put [OF c'] p by (auto simp: fun_eq_iff)
      ultimately show thesis using that [OF ck] assms ck by (auto simp: removeInstance_def delete_conv')
    qed
  qed
qed

section \<open>The view of the instances\<close>

text \<open>What the cache knows of an instance: the object, whether it is assumed, and whether its binding finished.\<close>

type_synonym view = "string \<rightharpoonup> Instance \<times> bool \<times> bool"

definition cache_view :: "Cache \<Rightarrow> view" where
  "cache_view c key = map_option (\<lambda>st. (st_instance st, key \<in> set (assumedInstances c), st_bindingFinished st))
     (map_of (instanceStates c) key)"

fun view_step :: "CacheStrategy \<Rightarrow> view \<Rightarrow> cache_op \<Rightarrow> view" where
  "view_step S m (OpAssume i) =
     (case cs_Key S i of Inl _ \<Rightarrow> m | Inr k \<Rightarrow> if m k = None then m(k \<mapsto> (i, True, False)) else m)"
| "view_step S m (OpForget i) =
     (case cs_Key S i of Inl _ \<Rightarrow> m
      | Inr k \<Rightarrow> (case m k of
            Some (j, True, _) \<Rightarrow> if cs_ContainerKey S j = cs_ContainerKey S i then m(k := None) else m
          | _ \<Rightarrow> m))"
| "view_step S m (OpFinishBinding i) =
     (case cs_Key S i of Inl _ \<Rightarrow> m
      | Inr k \<Rightarrow> (case m k of Some (j, True, _) \<Rightarrow> m(k \<mapsto> (j, True, True)) | _ \<Rightarrow> m))"
| "view_step S m (OpAdd i) =
     (case cs_Key S i of Inl _ \<Rightarrow> m
      | Inr k \<Rightarrow> (case m k of Some (_, False, _) \<Rightarrow> m | _ \<Rightarrow> m(k \<mapsto> (i, False, False))))"
| "view_step S m (OpUpdate i j) =
     (case cs_Key S i of Inl _ \<Rightarrow> m
      | Inr k \<Rightarrow> (case m k of Some (_, False, _) \<Rightarrow> m(k \<mapsto> (j, False, False)) | _ \<Rightarrow> m))"
| "view_step S m (OpRemove i) = (case cs_Key S i of Inl _ \<Rightarrow> m | Inr k \<Rightarrow> m(k := None))"
| "view_step S m (OpCleanup ord) = (\<lambda>k. case m k of Some (_, True, True) \<Rightarrow> None | x \<Rightarrow> x)"
| "view_step S m _ = m"

lemma cache_view_None: "cache_view c key = None \<longleftrightarrow> map_of (instanceStates c) key = None"
  by (simp add: cache_view_def)

lemma cache_okI:
  assumes "nodes_ok c" "\<And>ck key. placed c ck key = state_place S c ck key" "distinct (assumedInstances c)"
    "set (assumedInstances c) \<subseteq> dom (map_of (instanceStates c))"
    "\<And>key st. map_of (instanceStates c) key = Some st \<Longrightarrow> returns (cs_ContainerKey S (st_instance st))"
  shows "cache_ok S c"
  using assms by (auto simp: cache_ok_def fun_eq_iff)

text \<open>Adding an instance under a key that is nowhere else.\<close>

lemma addInstance_ok:
  assumes r: "addInstance S c key i a = Returns c'"
    and ok: "nodes_ok c" "\<And>ck k. k \<noteq> key \<Longrightarrow> placed c ck k = state_place S c ck k"
      "distinct (assumedInstances c)" "set (assumedInstances c) \<subseteq> insert key (dom (map_of (instanceStates c)))"
      "\<And>k st. map_of (instanceStates c) k = Some st \<Longrightarrow> returns (cs_ContainerKey S (st_instance st))"
    and new: "\<And>ck. cs_ContainerKey S i \<noteq> Returns ck \<Longrightarrow> placed c ck key = None" "key \<notin> set (assumedInstances c)"
  shows "cache_ok S c'" "cache_view c' = (cache_view c)(key \<mapsto> (i, a, False))"
proof -
  obtain ck n where ck: "cs_ContainerKey S i = Returns ck" "c_nodes c' = AList.update ck n (c_nodes c)"
    "map_of (ci_instances n) = (placed c ck)(key \<mapsto> i)" "entry_ok ck n"
    "map_of (instanceStates c') = (map_of (instanceStates c))(key \<mapsto> \<lparr>st_instance = i, st_bindingFinished = False\<rparr>)"
    "assumedInstances c' = (if a then List.insert key (assumedInstances c) else assumedInstances c)"
    using addInstance_Returns [OF r] ok(1) by metis
  show "cache_ok S c'"
  proof (rule cache_okI)
    show "nodes_ok c'" using nodes_ok_put [OF ok(1) ck(4,2)] .
    show "placed c' x k = state_place S c' x k" for x k
      using placed_put [OF ck(2), of x] ok(2) [of k x] new(1) [of x] ck(1,3,5)
      by (cases "k = key") (auto simp: state_place_def)
    show "distinct (assumedInstances c')" using ok(3) ck(6) by simp
    show "set (assumedInstances c') \<subseteq> dom (map_of (instanceStates c'))" using ok(4) ck(5,6) by auto
    show "returns (cs_ContainerKey S (st_instance st))" if "map_of (instanceStates c') k = Some st" for k st
      using that ck(1,5) ok(5) by (auto split: if_splits)
  qed
  show "cache_view c' = (cache_view c)(key \<mapsto> (i, a, False))"
    using ck(5,6) new(2) by (auto simp: cache_view_def fun_eq_iff)
qed

lemma removeInstance_ok:
  assumes r: "removeInstance S c key i = Returns c'" and ok: "cache_ok S c"
    and at: "\<And>ck. placed c ck key \<noteq> None \<Longrightarrow> cs_ContainerKey S i = Returns ck"
  shows "cache_ok S c'" "cache_view c' = (cache_view c)(key := None)"
proof -
  obtain ck where ck: "cs_ContainerKey S i = Returns ck" "nodes_ok c'"
    "placed c' = (placed c)(ck := (placed c ck)(key := None))"
    "map_of (instanceStates c') = (map_of (instanceStates c))(key := None)"
    "assumedInstances c' = removeAll key (assumedInstances c)"
    using removeInstance_Returns [OF r] ok unfolding cache_ok_def by metis
  have p: "placed c x k = state_place S c x k" for x k using ok by (simp add: cache_ok_def)
  show "cache_ok S c'"
  proof (rule cache_okI)
    have "placed c x key = None" if "x \<noteq> ck" for x using at [of x] ck(1) that by fastforce
    then show "placed c' x k = state_place S c' x k" for x k
      using p [of x k] ck(3,4) by (cases "k = key") (auto simp: state_place_def)
    show "distinct (assumedInstances c')" "set (assumedInstances c') \<subseteq> dom (map_of (instanceStates c'))"
      using ok ck(4,5) by (auto simp: cache_ok_def distinct_removeAll)
    show "returns (cs_ContainerKey S (st_instance st))" if "map_of (instanceStates c') k = Some st" for k st
      using that ck(4) ok by (auto simp: cache_ok_def split: if_splits)
  qed (rule ck(2))
  show "cache_view c' = (cache_view c)(key := None)" using ck(4,5) by (auto simp: cache_view_def fun_eq_iff)
qed

text \<open>Replacing the instance of a key: the new one must be where the key was, or the old one.\<close>

lemma updateInstance_ok:
  assumes r: "updateInstance S c key i j = Returns c'" and ok: "cache_ok S c"
    and at: "\<And>ck. placed c ck key \<noteq> None \<Longrightarrow> cs_ContainerKey S i = Returns ck \<or> cs_ContainerKey S j = Returns ck"
  shows "cache_ok S c'" "cache_view c' = (cache_view c)(key \<mapsto> (j, False, False))"
proof -
  obtain c1 where c1: "removeInstance S c key i = Returns c1" "addInstance S c1 key j False = Returns c'"
    using r by (cases "removeInstance S c key i") (auto simp: updateInstance_def)
  obtain ck where ck: "cs_ContainerKey S i = Returns ck" "nodes_ok c1"
    "placed c1 = (placed c)(ck := (placed c ck)(key := None))"
    "map_of (instanceStates c1) = (map_of (instanceStates c))(key := None)"
    "assumedInstances c1 = removeAll key (assumedInstances c)"
    using removeInstance_Returns [OF c1(1)] ok unfolding cache_ok_def by metis
  have ok1: "placed c1 x k = state_place S c1 x k" if "k \<noteq> key" for x k
    using that ok ck(3,4) by (auto simp: cache_ok_def state_place_def)
  have "distinct (assumedInstances c1)" "set (assumedInstances c1) \<subseteq> insert key (dom (map_of (instanceStates c1)))"
    using ok ck(4,5) by (auto simp: cache_ok_def distinct_removeAll)
  moreover have "returns (cs_ContainerKey S (st_instance st))" if "map_of (instanceStates c1) k = Some st" for k st
    using that ck(4) ok by (auto simp: cache_ok_def split: if_splits)
  moreover have "placed c1 x key = None" if "cs_ContainerKey S j \<noteq> Returns x" for x
    using at [of x] ck(1,3) that by (cases "x = ck") force+
  moreover have "key \<notin> set (assumedInstances c1)" using ck(5) by simp
  ultimately have "cache_ok S c'" "cache_view c' = (cache_view c1)(key \<mapsto> (j, False, False))"
    using addInstance_ok [OF c1(2) ck(2) ok1] by blast+
  moreover have "(cache_view c1)(key \<mapsto> x) = (cache_view c)(key \<mapsto> x)" for x
    using ck(4,5) by (auto simp: cache_view_def fun_eq_iff)
  ultimately show "cache_ok S c'" "cache_view c' = (cache_view c)(key \<mapsto> (j, False, False))" by simp_all
qed

section \<open>Every operation keeps the invariant and refines its view\<close>

lemma placed_key:
  "cache_ok S c \<Longrightarrow> map_of (instanceStates c) key = Some st \<Longrightarrow>
   placed c ck key \<noteq> None \<longleftrightarrow> cs_ContainerKey S (st_instance st) = Returns ck"
  by (simp add: cache_ok_def state_place_def)

lemma placed_no_key: "cache_ok S c \<Longrightarrow> map_of (instanceStates c) key = None \<Longrightarrow> placed c ck key = None"
  by (simp add: cache_ok_def state_place_def)

lemma addInstance_fresh:
  assumes ok: "cache_ok S c" and fresh: "map_of (instanceStates c) key = None" and r: "addInstance S c key i a = Returns c'"
  shows "cache_ok S c'" "cache_view c' = (cache_view c)(key \<mapsto> (i, a, False))"
proof -
  have n: "key \<notin> set (assumedInstances c)" using ok fresh by (auto simp: cache_ok_def)
  have s: "set (assumedInstances c) \<subseteq> insert key (dom (map_of (instanceStates c)))" using ok by (auto simp: cache_ok_def)
  have "nodes_ok c" "placed c ck k = state_place S c ck k" "distinct (assumedInstances c)"
    "map_of (instanceStates c) k = Some st \<Longrightarrow> returns (cs_ContainerKey S (st_instance st))" for ck k st
    using ok by (simp_all add: cache_ok_def)
  note * = addInstance_ok [OF r this(1) this(2) this(3) s this(4) placed_no_key [OF ok fresh] n]
  show "cache_ok S c'" "cache_view c' = (cache_view c)(key \<mapsto> (i, a, False))" by (rule *; assumption?)+
qed

lemma AssumeInstance_ok:
  assumes ok: "cache_ok S c" and r: "AssumeInstance S c i = Returns (c', e)"
  shows "cache_ok S c' \<and> cache_view c' = view_step S (cache_view c) (OpAssume i)"
proof (cases "cs_Key S i")
  case (Inr key)
  show ?thesis
  proof (cases "map_of (instanceStates c) key")
    case None
    then have a: "addInstance S c key i True = Returns c'"
      using r Inr by (auto simp: AssumeInstance_def split: outcome.splits)
    show ?thesis using addInstance_fresh [OF ok None a] Inr cache_view_None [of c key] None by simp
  qed (use r ok Inr in \<open>auto simp: AssumeInstance_def cache_view_None\<close>)
qed (use r ok in \<open>auto simp: AssumeInstance_def\<close>)

lemma AddInstance_ok:
  assumes ok: "cache_ok S c" and r: "AddInstance S c i = Returns (c', e)"
  shows "cache_ok S c' \<and> cache_view c' = view_step S (cache_view c) (OpAdd i)"
proof (cases "cs_Key S i")
  case (Inr key)
  show ?thesis
  proof (cases "map_of (instanceStates c) key")
    case None
    then have a: "addInstance S c key i False = Returns c'"
      using r Inr by (auto simp: AddInstance_def split: outcome.splits)
    show ?thesis using addInstance_fresh [OF ok None a] Inr cache_view_None [of c key] None by simp
  next
    case (Some st)
    have v: "cache_view c key = Some (st_instance st, key \<in> set (assumedInstances c), st_bindingFinished st)"
      using Some by (simp add: cache_view_def)
    show ?thesis
    proof (cases "key \<in> set (assumedInstances c)")
      case True
      then have u: "updateInstance S c key (st_instance st) i = Returns c'"
        using r Inr Some by (auto simp: AddInstance_def split: outcome.splits)
      show ?thesis using updateInstance_ok [OF u ok] placed_key [OF ok Some] Inr v True by simp
    qed (use r ok Inr Some v in \<open>auto simp: AddInstance_def\<close>)
  qed
qed (use r ok in \<open>auto simp: AddInstance_def\<close>)

lemma UpdateInstance_ok:
  assumes ok: "cache_ok S c" and r: "UpdateInstance S c i j = Returns (c', e)"
  shows "cache_ok S c' \<and> cache_view c' = view_step S (cache_view c) (OpUpdate i j)"
proof (cases "cs_Key S i")
  case (Inr key)
  show ?thesis
  proof (cases "map_of (instanceStates c) key")
    case (Some st)
    have v: "cache_view c key = Some (st_instance st, key \<in> set (assumedInstances c), st_bindingFinished st)"
      using Some by (simp add: cache_view_def)
    show ?thesis
    proof (cases "key \<in> set (assumedInstances c)")
      case False
      then have u: "updateInstance S c key i j = Returns c'" "cs_ContainerKey S (st_instance st) = cs_ContainerKey S j"
        using r Inr Some by (auto simp: UpdateInstance_def split: outcome.splits if_splits)
      show ?thesis using updateInstance_ok [OF u(1) ok] placed_key [OF ok Some] u(2) Inr v False by simp
    qed (use r ok Inr Some v in \<open>auto simp: UpdateInstance_def\<close>)
  qed (use r ok Inr in \<open>auto simp: UpdateInstance_def cache_view_def\<close>)
qed (use r ok in \<open>auto simp: UpdateInstance_def\<close>)

lemma RemoveInstance_ok:
  assumes ok: "cache_ok S c" and r: "RemoveInstance S c i = Returns (c', e)"
  shows "cache_ok S c' \<and> cache_view c' = view_step S (cache_view c) (OpRemove i)"
proof (cases "cs_Key S i")
  case (Inr key)
  show ?thesis
  proof (cases "map_of (instanceStates c) key")
    case None
    then have "(cache_view c)(key := None) = cache_view c" by (auto simp: cache_view_def)
    then show ?thesis using r ok Inr None by (auto simp: RemoveInstance_def)
  next
    case (Some st)
    then have u: "removeInstance S c key i = Returns c'" "cs_ContainerKey S (st_instance st) = cs_ContainerKey S i"
      using r Inr by (auto simp: RemoveInstance_def split: outcome.splits if_splits)
    show ?thesis using removeInstance_ok [OF u(1) ok] placed_key [OF ok Some] u(2) Inr by simp
  qed
qed (use r ok in \<open>auto simp: RemoveInstance_def\<close>)

lemma ForgetInstance_ok:
  assumes ok: "cache_ok S c" and r: "ForgetInstance S c i = Returns (c', e)"
  shows "cache_ok S c' \<and> cache_view c' = view_step S (cache_view c) (OpForget i)"
proof (cases "cs_Key S i")
  case (Inr key)
  show ?thesis
  proof (cases "map_of (instanceStates c) key")
    case (Some st)
    have v: "cache_view c key = Some (st_instance st, key \<in> set (assumedInstances c), st_bindingFinished st)"
      using Some by (simp add: cache_view_def)
    show ?thesis
    proof (cases "key \<in> set (assumedInstances c) \<and> cs_ContainerKey S (st_instance st) = cs_ContainerKey S i")
      case True
      then have u: "removeInstance S c key i = Returns c'"
        using r Inr Some by (auto simp: ForgetInstance_def split: outcome.splits if_splits)
      show ?thesis using removeInstance_ok [OF u ok] placed_key [OF ok Some] True Inr v by simp
    next
      case False
      then have "c' = c" using r Inr Some by (auto simp: ForgetInstance_def split: outcome.splits if_splits)
      then show ?thesis using ok Inr v False by (auto split: bool.split)
    qed
  qed (use r ok Inr in \<open>auto simp: ForgetInstance_def cache_view_def\<close>)
qed (use r ok in \<open>auto simp: ForgetInstance_def\<close>)

lemma FinishBinding_ok:
  assumes ok: "cache_ok S c" and r: "FinishBinding S c i = (c', e)"
  shows "cache_ok S c' \<and> cache_view c' = view_step S (cache_view c) (OpFinishBinding i)"
proof (cases "cs_Key S i")
  case (Inr key)
  show ?thesis
  proof (cases "map_of (instanceStates c) key")
    case (Some st)
    have v: "cache_view c key = Some (st_instance st, key \<in> set (assumedInstances c), st_bindingFinished st)"
      using Some by (simp add: cache_view_def)
    show ?thesis
    proof (cases "key \<in> set (assumedInstances c)")
      case True
      then have c': "c' = c\<lparr>instanceStates := AList.update key (st\<lparr>st_bindingFinished := True\<rparr>) (instanceStates c)\<rparr>"
        using r Inr Some by (simp add: FinishBinding_def)
      then have m: "map_of (instanceStates c') = (map_of (instanceStates c))(key \<mapsto> st\<lparr>st_bindingFinished := True\<rparr>)"
        by (simp add: update_conv')
      have "nodes_ok c' = nodes_ok c" "placed c' = placed c" "assumedInstances c' = assumedInstances c"
        using c' by (simp_all add: nodes_ok_def placed_def fun_eq_iff)
      moreover have "state_place S c' = state_place S c" using m Some by (auto simp: state_place_def fun_eq_iff)
      ultimately have "cache_ok S c'" using ok m Some by (auto simp: cache_ok_def split: if_splits)
      moreover have "cache_view c' = (cache_view c)(key \<mapsto> (st_instance st, True, True))"
        using m c' True by (auto simp: cache_view_def fun_eq_iff)
      ultimately show ?thesis using Inr v True by simp
    qed (use r ok Inr Some v in \<open>auto simp: FinishBinding_def\<close>)
  qed (use r ok Inr in \<open>auto simp: FinishBinding_def cache_view_def\<close>)
qed (use r ok in \<open>auto simp: FinishBinding_def\<close>)

text \<open>The operations on nodes do not touch the instances.\<close>

lemma node_change_ok:
  assumes ok: "cache_ok S c" and r: "instanceStates c' = instanceStates c" "assumedInstances c' = assumedInstances c"
    and n: "nodes_ok c'" "placed c' = placed c"
  shows "cache_ok S c' \<and> cache_view c' = cache_view c"
  using assms by (auto simp: cache_ok_def cache_view_def state_place_def fun_eq_iff)

lemma AddContainer_ok:
  assumes ok: "cache_ok S c"
  shows "cache_ok S (AddContainer c node) \<and> cache_view (AddContainer c node) = cache_view c"
proof -
  let ?name = "om_Name (node_Meta node)"
  let ?n = "case map_of (c_nodes c) ?name of None \<Rightarrow> newNodeInfo | Some n \<Rightarrow> n"
  have e: "c_nodes (AddContainer c node) = AList.update ?name (?n\<lparr>ci_node := Some node\<rparr>) (c_nodes c)"
    by (simp add: AddContainer_def Let_def)
  have g: "nodes_ok c" using ok by (simp add: cache_ok_def)
  have "entry_ok ?name (?n\<lparr>ci_node := Some node\<rparr>)"
    using entry_ok_get [OF g, of ?name] by (cases "map_of (c_nodes c) ?name") (auto simp: entry_ok_def newNodeInfo_def)
  then have "nodes_ok (AddContainer c node)" by (rule nodes_ok_put [OF g _ e])
  moreover have "map_of (ci_instances ?n) = placed c ?name"
    by (cases "map_of (c_nodes c) ?name") (simp_all add: placed_Some placed_None newNodeInfo_def)
  then have "placed (AddContainer c node) = placed c" using placed_put [OF e] by (auto simp: fun_eq_iff)
  ultimately show ?thesis by (intro node_change_ok [OF ok]) (simp_all add: AddContainer_def Let_def)
qed

lemma UpdateContainer_AddContainer: "UpdateContainer c old new = AddContainer c new"
  by (simp add: UpdateContainer_def AddContainer_def)

lemma RemoveContainer_ok:
  assumes ok: "cache_ok S c" and r: "RemoveContainer c node = (c', e)"
  shows "cache_ok S c' \<and> cache_view c' = cache_view c"
proof (cases "map_of (c_nodes c) (om_Name (node_Meta node))")
  case None
  then show ?thesis using r ok by (simp add: RemoveContainer_def Let_def)
next
  case (Some n)
  have g: "nodes_ok c" using ok by (simp add: cache_ok_def)
  have same: "instanceStates c' = instanceStates c" "assumedInstances c' = assumedInstances c"
    using r Some by (auto simp: RemoveContainer_def Let_def)
  show ?thesis
  proof (cases "ci_instances n = []")
    case True
    then have e: "c_nodes c' = AList.delete (om_Name (node_Meta node)) (c_nodes c)"
      using r Some by (auto simp: RemoveContainer_def Let_def)
    have "placed c' = placed c" using e Some True by (auto simp: placed_def fun_eq_iff delete_conv')
    then show ?thesis by (rule node_change_ok [OF ok same nodes_ok_drop [OF g e]])
  next
    case False
    then have e: "c_nodes c' = AList.update (om_Name (node_Meta node)) (n\<lparr>ci_node := None\<rparr>) (c_nodes c)"
      using r Some by (auto simp: RemoveContainer_def Let_def)
    have "entry_ok (om_Name (node_Meta node)) (n\<lparr>ci_node := None\<rparr>)"
      using entry_ok_get [OF g Some] False by (auto simp: entry_ok_def)
    note nodes_ok_put [OF g this e]
    moreover have "placed c' = placed c" using placed_put [OF e] placed_Some [OF Some] by (auto simp: fun_eq_iff)
    ultimately show ?thesis by (rule node_change_ok [OF ok same])
  qed
qed

lemma cleanup_loop_ok:
  assumes "cache_ok S c" "distinct keys" "set keys \<subseteq> dom (map_of (instanceStates c))"
  shows "\<exists>c'. cleanup_loop S keys c = Returns c' \<and> cache_ok S c' \<and>
    cache_view c' = (\<lambda>k. if k \<in> set keys \<and> (\<exists>i a. cache_view c k = Some (i, a, True)) then None else cache_view c k)"
  using assms
proof (induction keys arbitrary: c)
  case (Cons key keys)
  then obtain st where st: "map_of (instanceStates c) key = Some st" by auto
  have v: "cache_view c key = Some (st_instance st, key \<in> set (assumedInstances c), st_bindingFinished st)"
    using st by (simp add: cache_view_def)
  show ?case
  proof (cases "st_bindingFinished st")
    case False
    then have "cleanup_loop S (key # keys) c = cleanup_loop S keys c" using st by simp
    moreover have "(\<lambda>k. if k \<in> set (key # keys) \<and> (\<exists>i a. cache_view c k = Some (i, a, True)) then None else cache_view c k) =
        (\<lambda>k. if k \<in> set keys \<and> (\<exists>i a. cache_view c k = Some (i, a, True)) then None else cache_view c k)"
      using v False by (auto simp: fun_eq_iff)
    ultimately show ?thesis using Cons.IH [OF Cons.prems(1)] Cons.prems(2,3) by simp
  next
    case True
    have "returns (cs_ContainerKey S (st_instance st))" using Cons.prems(1) st by (simp add: cache_ok_def)
    then obtain c1 where c1: "removeInstance S c key (st_instance st) = Returns c1"
      by (cases "cs_ContainerKey S (st_instance st)") (auto simp: removeInstance_def Let_def)
    note ok1 = removeInstance_ok [OF c1 Cons.prems(1)]
    have k1: "cache_ok S c1" "cache_view c1 = (cache_view c)(key := None)"
      using ok1 placed_key [OF Cons.prems(1) st] by simp_all
    have "set keys \<subseteq> dom (map_of (instanceStates c1))"
    proof
      fix k assume "k \<in> set keys"
      then have "cache_view c1 k \<noteq> None" using Cons.prems(2,3) k1(2) by (auto simp: cache_view_def)
      then show "k \<in> dom (map_of (instanceStates c1))" by (auto simp: cache_view_None)
    qed
    then obtain c' where c': "cleanup_loop S keys c1 = Returns c'" "cache_ok S c'"
      "cache_view c' = (\<lambda>k. if k \<in> set keys \<and> (\<exists>i a. cache_view c1 k = Some (i, a, True)) then None else cache_view c1 k)"
      using Cons.IH [OF k1(1)] Cons.prems(2) by auto
    have "cache_view c' = (\<lambda>k. if k \<in> set (key # keys) \<and> (\<exists>i a. cache_view c k = Some (i, a, True)) then None else cache_view c k)"
      unfolding c'(3) k1(2) using v True Cons.prems(2) by (auto simp: fun_eq_iff)
    moreover have "cleanup_loop S (key # keys) c = Returns c'" using st True c1 c'(1) by simp
    ultimately show ?thesis using c'(2) by blast
  qed
qed simp

lemma cleanup_ok:
  assumes ok: "cache_ok S c" and ord: "\<And>xs. set (ord xs) = set xs" "\<And>xs. distinct xs \<Longrightarrow> distinct (ord xs)"
  shows "\<exists>c'. cleanupAssumedInstances S ord c = Returns c' \<and> cache_ok S c' \<and>
    cache_view c' = view_step S (cache_view c) (OpCleanup ord)"
proof -
  have "distinct (ord (assumedInstances c))" "set (ord (assumedInstances c)) \<subseteq> dom (map_of (instanceStates c))"
    using ok ord by (auto simp: cache_ok_def)
  from cleanup_loop_ok [OF ok this] obtain c' where c': "cleanupAssumedInstances S ord c = Returns c'" "cache_ok S c'"
    "cache_view c' = (\<lambda>k. if k \<in> set (assumedInstances c) \<and> (\<exists>i a. cache_view c k = Some (i, a, True)) then None else cache_view c k)"
    by (auto simp: cleanupAssumedInstances_def ord)
  moreover have "(if k \<in> set (assumedInstances c) \<and> (\<exists>i a. cache_view c k = Some (i, a, True)) then None else cache_view c k) =
      view_step S (cache_view c) (OpCleanup ord) k" for k
    by (cases "cache_view c k") (auto simp: cache_view_def split: bool.split)
  ultimately show ?thesis by (auto simp: fun_eq_iff)
qed

text \<open>The order a loop sees the assumed instances in is an order of them.\<close>

fun op_order_ok :: "cache_op \<Rightarrow> bool" where
  "op_order_ok (OpCleanup ord) \<longleftrightarrow> (\<forall>xs. set (ord xs) = set xs \<and> (distinct xs \<longrightarrow> distinct (ord xs)))"
| "op_order_ok _ \<longleftrightarrow> True"

lemma cache_run_ok:
  assumes "cache_ok S c" "op_order_ok op" "cache_run S c op = Returns (c', e)"
  shows "cache_ok S c' \<and> cache_view c' = view_step S (cache_view c) op"
proof (cases op)
  case (OpCleanup ord)
  then show ?thesis using assms cleanup_ok [OF assms(1), of ord] by (auto split: outcome.splits)
next
  case (OpRemoveContainer n)
  then show ?thesis using assms RemoveContainer_ok [OF assms(1)] by simp
next
  case (OpFinishBinding i)
  then show ?thesis using assms FinishBinding_ok [OF assms(1), of i] by simp
next
  case (OpAssume i)
  then show ?thesis using assms AssumeInstance_ok [OF assms(1), of i c' e] by simp
next
  case (OpForget i)
  then show ?thesis using assms ForgetInstance_ok [OF assms(1), of i c' e] by simp
next
  case (OpAddContainer n)
  then show ?thesis using assms AddContainer_ok [OF assms(1), of n] by auto
next
  case (OpUpdateContainer m n)
  then show ?thesis using assms AddContainer_ok [OF assms(1), of n] by (auto simp: UpdateContainer_AddContainer)
next
  case (OpAdd i)
  then show ?thesis using assms AddInstance_ok [OF assms(1), of i c' e] by simp
next
  case (OpUpdate i j)
  then show ?thesis using assms UpdateInstance_ok [OF assms(1), of i j c' e] by simp
next
  case (OpRemove i)
  then show ?thesis using assms RemoveInstance_ok [OF assms(1), of i c' e] by simp
qed

lemma NewCache_ok: "cache_ok S NewCache"
  by (simp add: cache_ok_def NewCache_def nodes_ok_def placed_def state_place_def fun_eq_iff)

lemma cache_reachable_ok: "cache_reachable S c \<Longrightarrow> cache_ok S c"
proof (induction rule: cache_reachable.induct)
  case (step c op c' e)
  then have "op_order_ok op" by (cases op) auto
  then show ?case using cache_run_ok step by blast
qed (rule NewCache_ok)

text \<open>An event that says an instance is on another node than the cache has it.\<close>

fun op_moves :: "CacheStrategy \<Rightarrow> view \<Rightarrow> cache_op \<Rightarrow> bool" where
  "op_moves S m (OpUpdate i j) \<longleftrightarrow>
     (case cs_Key S i of Inl _ \<Rightarrow> False
      | Inr k \<Rightarrow> (case m k of Some (x, False, _) \<Rightarrow> cs_ContainerKey S x \<noteq> cs_ContainerKey S j | _ \<Rightarrow> False))"
| "op_moves S m (OpRemove i) \<longleftrightarrow>
     (case cs_Key S i of Inl _ \<Rightarrow> False
      | Inr k \<Rightarrow> (case m k of Some (x, _, _) \<Rightarrow> cs_ContainerKey S x \<noteq> cs_ContainerKey S i | None \<Rightarrow> False))"
| "op_moves S m _ \<longleftrightarrow> False"

fun op_assigned :: "CacheStrategy \<Rightarrow> cache_op \<Rightarrow> bool" where
  "op_assigned S (OpAssume i) \<longleftrightarrow> returns (cs_ContainerKey S i)"
| "op_assigned S (OpForget i) \<longleftrightarrow> returns (cs_ContainerKey S i)"
| "op_assigned S (OpAdd i) \<longleftrightarrow> returns (cs_ContainerKey S i)"
| "op_assigned S (OpUpdate i j) \<longleftrightarrow> returns (cs_ContainerKey S i) \<and> returns (cs_ContainerKey S j)"
| "op_assigned S (OpRemove i) \<longleftrightarrow> returns (cs_ContainerKey S i)"
| "op_assigned S _ \<longleftrightarrow> True"

lemma returns_iff: "returns x \<longleftrightarrow> (\<exists>y. x = Returns y)"
  by (cases x) auto

lemma addInstance_Panics: "returns (cs_ContainerKey S i) \<Longrightarrow> addInstance S c key i a \<noteq> Panics"
  by (auto simp: returns_iff addInstance_def Let_def)

lemma removeInstance_Panics: "returns (cs_ContainerKey S i) \<Longrightarrow> removeInstance S c key i \<noteq> Panics"
  by (auto simp: returns_iff removeInstance_def Let_def)

lemma updateInstance_Panics:
  "returns (cs_ContainerKey S i) \<Longrightarrow> returns (cs_ContainerKey S j) \<Longrightarrow> updateInstance S c key i j \<noteq> Panics"
  using removeInstance_Panics [of S i c key] addInstance_Panics [of S j]
  by (cases "removeInstance S c key i") (auto simp: updateInstance_def)

lemmas no_panics = addInstance_Panics removeInstance_Panics updateInstance_Panics

lemma state_returns: "cache_ok S c \<Longrightarrow> map_of (instanceStates c) key = Some st \<Longrightarrow> returns (cs_ContainerKey S (st_instance st))"
  by (simp add: cache_ok_def)

lemma state_no_panic: "cache_ok S c \<Longrightarrow> map_of (instanceStates c) key = Some st \<Longrightarrow> cs_ContainerKey S (st_instance st) \<noteq> Panics"
  using state_returns [of S c key st] by auto

lemma cache_run_panics:
  assumes ok: "cache_ok S c" and op: "op_order_ok op" "op_assigned S op"
  shows "cache_run S c op = Panics \<longleftrightarrow> op_moves S (cache_view c) op"
proof (cases op)
  case (OpCleanup ord)
  then show ?thesis using cleanup_ok [OF ok, of ord] op by (auto split: outcome.splits)
next
  case (OpAssume i)
  then show ?thesis using op no_panics(1) [of S i] by (auto simp: AssumeInstance_def split: sum.split outcome.split)
next
  case (OpForget i)
  then show ?thesis using op no_panics(2) [of S i]
    by (auto dest: state_no_panic [OF ok] simp: ForgetInstance_def returns_iff split: sum.split outcome.split option.split)
next
  case (OpAdd i)
  then show ?thesis using op no_panics(1) [of S i] no_panics(3) [of S _ i] state_returns [OF ok]
    by (auto simp: AddInstance_def split: sum.split outcome.split option.split)
next
  case (OpUpdate i j)
  then show ?thesis using op no_panics(3) [of S i j]
    by (auto dest: state_no_panic [OF ok] simp: UpdateInstance_def cache_view_def returns_iff split: sum.split outcome.split option.split)
next
  case (OpRemove i)
  then show ?thesis using op no_panics(2) [of S i]
    by (auto dest: state_no_panic [OF ok] simp: RemoveInstance_def cache_view_def returns_iff split: sum.split outcome.split option.split)
qed simp_all

text \<open>The instances on a node, read off the view.\<close>

definition on_node :: "CacheStrategy \<Rightarrow> view \<Rightarrow> string \<Rightarrow> string set" where
  "on_node S m name = {key. \<exists>i a f. m key = Some (i, a, f) \<and> cs_ContainerKey S i = Returns name}"

lemma node_keys:
  assumes "cache_ok S c" "map_of (c_nodes c) name = Some n"
  shows "fst ` set (ci_instances n) = on_node S (cache_view c) name" "distinct (map fst (ci_instances n))"
    "(key, i) \<in> set (ci_instances n) \<longleftrightarrow> (\<exists>a f. cache_view c key = Some (i, a, f)) \<and> cs_ContainerKey S i = Returns name"
proof -
  have d: "distinct (map fst (ci_instances n))" using assms by (simp add: cache_ok_def nodes_ok_def entry_ok_def)
  have m: "map_of (ci_instances n) key = state_place S c name key" for key
    using placed_Some [OF assms(2), symmetric] assms(1) by (simp add: cache_ok_def)
  have e: "(key, i) \<in> set (ci_instances n) \<longleftrightarrow> (\<exists>a f. cache_view c key = Some (i, a, f)) \<and> cs_ContainerKey S i = Returns name" for key i
    unfolding map_of_eq_Some_iff [OF d, symmetric] m state_place_def cache_view_def
    by (cases "map_of (instanceStates c) key") auto
  then show "fst ` set (ci_instances n) = on_node S (cache_view c) name" by (force simp: on_node_def)
  show "(key, i) \<in> set (ci_instances n) \<longleftrightarrow> (\<exists>a f. cache_view c key = Some (i, a, f)) \<and> cs_ContainerKey S i = Returns name"
    by (rule e)
qed (use assms in \<open>simp add: cache_ok_def nodes_ok_def entry_ok_def\<close>)

lemma NumInstances_on_node:
  "cache_ok S c \<Longrightarrow> map_of (c_nodes c) name = Some n \<Longrightarrow> NumInstances n = card (on_node S (cache_view c) name)"
  using node_keys [of S c name n] distinct_card [of "map fst (ci_instances n)"] by (simp add: NumInstances_def)

section \<open>Properties\<close>

text \<open>
  C6. In every state the cache can get into, an operation that returns does to the instances
  exactly what \<open>view_step\<close> says: assuming adds an unknown instance, an added instance replaces an
  assumed one and is refused otherwise, forgetting removes assumed instances only, and the
  cleanup removes exactly the assumed instances whose binding finished. The tables of the nodes
  agree with it: every instance is in the entry of its node and of no other.
\<close>

theorem scheduler_cache_refines:
  assumes "cache_reachable S c" "op_order_ok op" "cache_run S c op = Returns (c', e)"
  shows "cache_view c' = view_step S (cache_view c) op \<and>
    (\<forall>name n. map_of (c_nodes c') name = Some n \<longrightarrow>
       NumInstances n = card (on_node S (cache_view c') name) \<and>
       (\<forall>key i. (key, i) \<in> set (ci_instances n) \<longleftrightarrow>
          (\<exists>a f. cache_view c' key = Some (i, a, f)) \<and> cs_ContainerKey S i = Returns name)) \<and>
    (\<forall>key i a f. cache_view c' key = Some (i, a, f) \<longrightarrow>
       (\<exists>name n. cs_ContainerKey S i = Returns name \<and> map_of (c_nodes c') name = Some n \<and> (key, i) \<in> set (ci_instances n)))"
proof -
  have ok: "cache_ok S c'" and v: "cache_view c' = view_step S (cache_view c) op"
    using cache_run_ok [OF cache_reachable_ok [OF assms(1)] assms(2,3)] by simp_all
  have "\<exists>name n. cs_ContainerKey S i = Returns name \<and> map_of (c_nodes c') name = Some n \<and> (key, i) \<in> set (ci_instances n)"
    if k: "cache_view c' key = Some (i, a, f)" for key i a f
  proof -
    obtain st where st: "map_of (instanceStates c') key = Some st" "st_instance st = i"
      using k by (auto simp: cache_view_def)
    then obtain name where name: "cs_ContainerKey S i = Returns name" using state_returns [OF ok st(1)] by (auto simp: returns_iff)
    then have "placed c' name key \<noteq> None" using placed_key [OF ok st(1)] st(2) by simp
    then obtain n where n: "map_of (c_nodes c') name = Some n" by (auto simp: placed_def split: option.splits)
    then show ?thesis using node_keys(3) [OF ok n, of key i] name k by blast
  qed
  then show ?thesis using v NumInstances_on_node [OF ok] node_keys(3) [OF ok] by blast
qed

text \<open>
  For instances that have a node, the cache panics only when an update or a removal names
  another node than the one the cache has the instance on; in particular the cleanup never does.
\<close>

theorem scheduler_cache_panics:
  assumes "cache_reachable S c" "op_order_ok op" "op_assigned S op"
  shows "cache_run S c op = Panics \<longleftrightarrow> op_moves S (cache_view c) op"
  using cache_run_panics [OF cache_reachable_ok [OF assms(1)] assms(2,3)] .

text \<open>
  Forgetting an instance always reports an error, also when it removed the assumed instance.
\<close>

theorem ForgetInstance_always_fails:
  assumes "cache_reachable S c" "cs_Key S i = Inr key" "cache_view c key = Some (i, True, f)"
  shows "(\<exists>c'. ForgetInstance S c i = Returns (c', notAssumed) \<and> cache_view c' = (cache_view c)(key := None)) \<and>
    (\<forall>d j d'. ForgetInstance S d j \<noteq> Returns (d', None))"
proof -
  note ok = cache_reachable_ok [OF assms(1)]
  obtain st where st: "map_of (instanceStates c) key = Some st" "st_instance st = i" "key \<in> set (assumedInstances c)"
    using assms(3) by (auto simp: cache_view_def)
  obtain name where name: "cs_ContainerKey S i = Returns name" using state_returns [OF ok st(1)] st(2) by (auto simp: returns_iff)
  then obtain c' where c': "removeInstance S c key i = Returns c'"
    using removeInstance_Panics [of S i c key] by (cases "removeInstance S c key i") auto
  then have f: "ForgetInstance S c i = Returns (c', notAssumed)" using assms(2) st name by (simp add: ForgetInstance_def)
  then have "cache_view c' = view_step S (cache_view c) (OpForget i)" using ForgetInstance_ok [OF ok] by blast
  then have "\<exists>c'. ForgetInstance S c i = Returns (c', notAssumed) \<and> cache_view c' = (cache_view c)(key := None)"
    using f assms(2,3) by simp
  moreover have "ForgetInstance S d j \<noteq> Returns (d', None)" for d j d'
    by (auto simp: ForgetInstance_def notAssumed_def split: sum.split option.split outcome.split)
  ultimately show ?thesis by blast
qed

section \<open>Witnesses\<close>

definition example_instance :: "string \<Rightarrow> string \<Rightarrow> Instance" where
  "example_instance uid node =
     \<lparr>inst_Meta = zero_meta\<lparr>om_Name := uid, om_UID := uid\<rparr>,
      inst_Spec = \<lparr>is_Type = InstanceTypeLoadBalancer, is_LoadBalancerType = LoadBalancerTypePublic, is_NetworkRef = ''net'',
        is_IPs = [], is_LoadBalancerPorts = [], is_Affinity = None, is_TopologySpreadConstraints = None,
        is_NodeRef = Some node\<rparr>,
      inst_Status = \<lparr>ist_IPs = [], ist_CollisionCount = None\<rparr>\<rparr>"

definition example_cache :: Cache where
  "example_cache =
     \<lparr>assumedInstances = [''i''], instanceStates = [(''i'', \<lparr>st_instance = example_instance ''i'' ''n'', st_bindingFinished = False\<rparr>)],
      c_nodes = [(''n'', \<lparr>ci_node = None, ci_instances = [(''i'', example_instance ''i'' ''n'')]\<rparr>)]\<rparr>"

lemma example_cache_reachable: "cache_reachable DefaultCacheStrategy example_cache"
proof (rule cache_reachable.step [OF cache_reachable.start, of _ "OpAssume (example_instance ''i'' ''n'')" _ None])
  show "cache_run DefaultCacheStrategy NewCache (OpAssume (example_instance ''i'' ''n'')) = Returns (example_cache, None)"
    by (simp add: AssumeInstance_def addInstance_def DefaultCacheStrategy_def NewCache_def example_cache_def
        example_instance_def newNodeInfo_def zero_meta_def)
qed simp

definition example_cache_added :: Cache where
  "example_cache_added =
     \<lparr>assumedInstances = [], instanceStates = [(''i'', \<lparr>st_instance = example_instance ''i'' ''m'', st_bindingFinished = False\<rparr>)],
      c_nodes = [(''m'', \<lparr>ci_node = None, ci_instances = [(''i'', example_instance ''i'' ''m'')]\<rparr>)]\<rparr>"

lemma example_cache_run:
  "cache_run DefaultCacheStrategy example_cache (OpAdd (example_instance ''i'' ''m'')) = Returns (example_cache_added, None)"
  by (simp add: AddInstance_def updateInstance_def addInstance_def removeInstance_def DefaultCacheStrategy_def
      example_cache_def example_cache_added_def example_instance_def newNodeInfo_def zero_meta_def Let_def)

theorem scheduler_cache_refines_witness:
  "cache_view example_cache_added = view_step DefaultCacheStrategy (cache_view example_cache) (OpAdd (example_instance ''i'' ''m''))"
  using scheduler_cache_refines [OF example_cache_reachable _ example_cache_run] by simp

theorem scheduler_cache_panics_witness:
  "cache_run DefaultCacheStrategy example_cache (OpRemove (example_instance ''i'' ''m'')) = Panics"
  using scheduler_cache_panics [OF example_cache_reachable, of "OpRemove (example_instance ''i'' ''m'')"]
  by (simp add: DefaultCacheStrategy_def example_instance_def example_cache_def cache_view_def zero_meta_def)

theorem ForgetInstance_always_fails_witness:
  "(\<exists>c'. ForgetInstance DefaultCacheStrategy example_cache (example_instance ''i'' ''n'') = Returns (c', notAssumed) \<and>
      cache_view c' = (cache_view example_cache)(''i'' := None)) \<and>
   ForgetInstance DefaultCacheStrategy NewCache (example_instance ''i'' ''n'') \<noteq> Returns (NewCache, None)"
proof -
  have "cs_Key DefaultCacheStrategy (example_instance ''i'' ''n'') = Inr ''i''"
    "cache_view example_cache ''i'' = Some (example_instance ''i'' ''n'', True, False)"
    by (simp_all add: DefaultCacheStrategy_def example_instance_def example_cache_def cache_view_def zero_meta_def)
  from ForgetInstance_always_fails [OF example_cache_reachable this] show ?thesis by blast
qed

end
