(* ===== verification/NodeAffinity.thy ===== *)
theory NodeAffinity
  imports ApiStore
begin

text \<open>
  Matching of nodes against the required node affinity of an instance,
  \<open>internal/nodeaffinity/nodeaffinity.go\<close>. Label and field selectors belong to
  \<open>k8s.io/apimachinery\<close>: they are a record of functions, with the behaviour the theorems rely on
  as the laws of the locale \<open>selectors\<close>.
\<close>

section \<open>Selectors\<close>

datatype selection_op = SelIn | SelNotIn | SelExists | SelDoesNotExist | SelGreaterThan | SelLessThan

record ('q, 'l, 'f) selector_api =
  sa_NewRequirement :: "string \<Rightarrow> selection_op \<Rightarrow> string list \<Rightarrow> 'q result"
  sa_NewSelector :: 'l
  sa_Nothing :: 'l
  sa_Add :: "'l \<Rightarrow> 'q \<Rightarrow> 'l"
  sa_Matches :: "'l \<Rightarrow> labels \<Rightarrow> bool"
  sa_Empty :: "'l \<Rightarrow> bool"
  sa_AsSelector :: "LabelSelector option \<Rightarrow> 'l result"
  sa_FieldsNothing :: 'f
  sa_TermEqual :: "string \<Rightarrow> string \<Rightarrow> 'f"
  sa_TermNotEqual :: "string \<Rightarrow> string \<Rightarrow> 'f"
  sa_AndSelectors :: "'f list \<Rightarrow> 'f"
  sa_FieldsMatches :: "'f \<Rightarrow> labels \<Rightarrow> bool"

text \<open>\<open>fields.Set.Get\<close>: a missing field reads as the empty string.\<close>

definition fields_Get :: "labels \<Rightarrow> string \<Rightarrow> string" where
  "fields_Get fs k = (case map_of fs k of None \<Rightarrow> [] | Some v \<Rightarrow> v)"

section \<open>nodeaffinity.go\<close>

record ('l, 'f) nodeSelectorTerm =
  matchLabels :: "'l option"
  matchFields :: "'f option"
  parseErrs :: "go_error list"

definition term_match :: "('q, 'l, 'f) selector_api \<Rightarrow> ('l, 'f) nodeSelectorTerm \<Rightarrow> labels \<Rightarrow> labels \<Rightarrow> bool \<times> go_error list" where
  "term_match A t nodeLabels nodeFields =
     (if parseErrs t \<noteq> [] then (False, parseErrs t)
      else if (case matchLabels t of None \<Rightarrow> False | Some sel \<Rightarrow> \<not> sa_Matches A sel nodeLabels) then (False, [])
      else if (case matchFields t of None \<Rightarrow> False | Some sel \<Rightarrow> nodeFields \<noteq> [] \<and> \<not> sa_FieldsMatches A sel nodeFields)
      then (False, [])
      else (True, []))"

definition node_selector_op :: "NodeSelectorOperator \<Rightarrow> selection_op option" where
  "node_selector_op op =
     (if op = NodeSelectorOpIn then Some SelIn
      else if op = NodeSelectorOpNotIn then Some SelNotIn
      else if op = NodeSelectorOpExists then Some SelExists
      else if op = NodeSelectorOpDoesNotExist then Some SelDoesNotExist
      else if op = NodeSelectorOpGt then Some SelGreaterThan
      else if op = NodeSelectorOpLt then Some SelLessThan
      else None)"

fun selector_loop ::
  "('q, 'l, 'f) selector_api \<Rightarrow> 'l \<Rightarrow> go_error list \<Rightarrow> NodeSelectorRequirement list \<Rightarrow> 'l \<times> go_error list" where
  "selector_loop A selector errs [] = (selector, errs)"
| "selector_loop A selector errs (expr # nsm) =
     (case node_selector_op (nsr_Operator expr) of
        None \<Rightarrow> selector_loop A selector (errs @ [ErrMsg ''unsupported value'']) nsm
      | Some op \<Rightarrow>
          (case sa_NewRequirement A (nsr_Key expr) op (nsr_Values expr) of
             Inl err \<Rightarrow> selector_loop A selector (errs @ [err]) nsm
           | Inr r \<Rightarrow> selector_loop A (sa_Add A selector r) errs nsm))"

definition nodeSelectorRequirementsAsSelector ::
  "('q, 'l, 'f) selector_api \<Rightarrow> NodeSelectorRequirement list \<Rightarrow> 'l option \<times> go_error list" where
  "nodeSelectorRequirementsAsSelector A nsm =
     (if nsm = [] then (Some (sa_Nothing A), [])
      else let (selector, errs) = selector_loop A (sa_NewSelector A) [] nsm in
           if errs \<noteq> [] then (None, errs) else (Some selector, []))"

fun field_loop ::
  "('q, 'l, 'f) selector_api \<Rightarrow> 'f list \<Rightarrow> go_error list \<Rightarrow> NodeSelectorRequirement list \<Rightarrow> 'f list \<times> go_error list" where
  "field_loop A selectors errs [] = (selectors, errs)"
| "field_loop A selectors errs (expr # nsr) =
     (if nsr_Operator expr = NodeSelectorOpIn then
        (case nsr_Values expr of
           [v] \<Rightarrow> field_loop A (selectors @ [sa_TermEqual A (nsr_Key expr) v]) errs nsr
         | _ \<Rightarrow> field_loop A selectors (errs @ [ErrMsg ''must have one element'']) nsr)
      else if nsr_Operator expr = NodeSelectorOpNotIn then
        (case nsr_Values expr of
           [v] \<Rightarrow> field_loop A (selectors @ [sa_TermNotEqual A (nsr_Key expr) v]) errs nsr
         | _ \<Rightarrow> field_loop A selectors (errs @ [ErrMsg ''must have one element'']) nsr)
      else field_loop A selectors (errs @ [ErrMsg ''unsupported value'']) nsr)"

definition nodeSelectorRequirementsAsFieldSelector ::
  "('q, 'l, 'f) selector_api \<Rightarrow> NodeSelectorRequirement list \<Rightarrow> 'f option \<times> go_error list" where
  "nodeSelectorRequirementsAsFieldSelector A nsr =
     (if nsr = [] then (Some (sa_FieldsNothing A), [])
      else let (selectors, errs) = field_loop A [] [] nsr in
           if errs \<noteq> [] then (None, errs) else (Some (sa_AndSelectors A selectors), []))"

definition newNodeSelectorTerm :: "('q, 'l, 'f) selector_api \<Rightarrow> NodeSelectorTerm \<Rightarrow> ('l, 'f) nodeSelectorTerm" where
  "newNodeSelectorTerm A t =
     (let (ml, errs1) = (if nst_MatchExpressions t \<noteq> [] then nodeSelectorRequirementsAsSelector A (nst_MatchExpressions t) else (None, []));
          (mf, errs2) = (if nst_MatchFields t \<noteq> [] then nodeSelectorRequirementsAsFieldSelector A (nst_MatchFields t) else (None, [])) in
      \<lparr>matchLabels = ml, matchFields = mf, parseErrs = errs1 @ errs2\<rparr>)"

definition isEmptyNodeSelectorTerm :: "NodeSelectorTerm \<Rightarrow> bool" where
  "isEmptyNodeSelectorTerm t \<longleftrightarrow> nst_MatchFields t = [] \<and> nst_MatchExpressions t = []"

definition extractNodeFields :: "Node \<Rightarrow> labels" where
  "extractNodeFields node =
     (if om_Name (node_Meta node) \<noteq> [] then [(''metadata.name'', om_Name (node_Meta node))] else [])"

fun terms_match ::
  "('q, 'l, 'f) selector_api \<Rightarrow> labels \<Rightarrow> labels \<Rightarrow> go_error list \<Rightarrow> ('l, 'f) nodeSelectorTerm list \<Rightarrow> bool \<times> go_error option" where
  "terms_match A nodeLabels nodeFields errs [] = (False, errors_Join errs)"
| "terms_match A nodeLabels nodeFields errs (t # ts) =
     (let (matched, tErrs) = term_match A t nodeLabels nodeFields in
      if tErrs \<noteq> [] then terms_match A nodeLabels nodeFields (errs @ tErrs) ts
      else if matched then (True, None)
      else terms_match A nodeLabels nodeFields errs ts)"

type_synonym ('l, 'f) LazyErrorNodeSelector = "('l, 'f) nodeSelectorTerm list"

definition lazy_Match ::
  "('q, 'l, 'f) selector_api \<Rightarrow> ('l, 'f) LazyErrorNodeSelector \<Rightarrow> Node option \<Rightarrow> bool \<times> go_error option" where
  "lazy_Match A s node =
     (case node of
        None \<Rightarrow> (False, None)
      | Some node \<Rightarrow> terms_match A (om_Labels (node_Meta node)) (extractNodeFields node) [] s)"

definition NewLazyErrorNodeSelector :: "('q, 'l, 'f) selector_api \<Rightarrow> NodeSelector \<Rightarrow> ('l, 'f) LazyErrorNodeSelector" where
  "NewLazyErrorNodeSelector A ns =
     map (newNodeSelectorTerm A) (filter (\<lambda>t. \<not> isEmptyNodeSelectorTerm t) (ns_NodeSelectorTerms ns))"

type_synonym ('l, 'f) RequiredNodeAffinity = "('l, 'f) LazyErrorNodeSelector option"

definition affinity_Match ::
  "('q, 'l, 'f) selector_api \<Rightarrow> ('l, 'f) RequiredNodeAffinity \<Rightarrow> Node option \<Rightarrow> bool \<times> go_error option" where
  "affinity_Match A s node = (case s of Some sel \<Rightarrow> lazy_Match A sel node | None \<Rightarrow> (True, None))"

definition GetRequiredNodeAffinity :: "('q, 'l, 'f) selector_api \<Rightarrow> Instance \<Rightarrow> ('l, 'f) RequiredNodeAffinity" where
  "GetRequiredNodeAffinity A inst =
     (case is_Affinity (inst_Spec inst) of
        None \<Rightarrow> None
      | Some a \<Rightarrow> (case aff_NodeAffinity a of
          None \<Rightarrow> None
        | Some na \<Rightarrow> map_option (NewLazyErrorNodeSelector A) (na_Required na)))"

section \<open>The laws of selectors\<close>

locale selectors =
  fixes A :: "('q, 'l, 'f) selector_api" and holds :: "'q \<Rightarrow> labels \<Rightarrow> bool"
  assumes new_matches: "sa_Matches A (sa_NewSelector A) ls"
    and add_matches: "sa_Matches A (sa_Add A sel q) ls \<longleftrightarrow> sa_Matches A sel ls \<and> holds q ls"
    and and_matches: "sa_FieldsMatches A (sa_AndSelectors A fs) ls \<longleftrightarrow> (\<forall>f\<in>set fs. sa_FieldsMatches A f ls)"
    and equal_matches: "sa_FieldsMatches A (sa_TermEqual A k v) ls \<longleftrightarrow> fields_Get ls k = v"
    and not_equal_matches: "sa_FieldsMatches A (sa_TermNotEqual A k v) ls \<longleftrightarrow> fields_Get ls k \<noteq> v"

text \<open>What a requirement asks for: \<open>None\<close> when it does not parse.\<close>

definition expr_holds :: "('q, 'l, 'f) selector_api \<Rightarrow> ('q \<Rightarrow> labels \<Rightarrow> bool) \<Rightarrow> labels \<Rightarrow> NodeSelectorRequirement \<Rightarrow> bool option" where
  "expr_holds A holds ls expr =
     (case node_selector_op (nsr_Operator expr) of
        None \<Rightarrow> None
      | Some op \<Rightarrow> (case sa_NewRequirement A (nsr_Key expr) op (nsr_Values expr) of Inl _ \<Rightarrow> None | Inr r \<Rightarrow> Some (holds r ls)))"

definition field_holds :: "labels \<Rightarrow> NodeSelectorRequirement \<Rightarrow> bool option" where
  "field_holds fs expr =
     (case nsr_Values expr of
        [v] \<Rightarrow> if nsr_Operator expr = NodeSelectorOpIn then Some (fields_Get fs (nsr_Key expr) = v)
               else if nsr_Operator expr = NodeSelectorOpNotIn then Some (fields_Get fs (nsr_Key expr) \<noteq> v)
               else None
      | _ \<Rightarrow> None)"

text \<open>A term parses when all of its requirements do, and selects a node when all of them hold for it.\<close>

definition term_parses :: "('q, 'l, 'f) selector_api \<Rightarrow> ('q \<Rightarrow> labels \<Rightarrow> bool) \<Rightarrow> NodeSelectorTerm \<Rightarrow> bool" where
  "term_parses A holds t \<longleftrightarrow> (\<forall>e\<in>set (nst_MatchExpressions t). expr_holds A holds [] e \<noteq> None) \<and>
     (\<forall>e\<in>set (nst_MatchFields t). field_holds [] e \<noteq> None)"

definition term_selects :: "('q, 'l, 'f) selector_api \<Rightarrow> ('q \<Rightarrow> labels \<Rightarrow> bool) \<Rightarrow> Node \<Rightarrow> NodeSelectorTerm \<Rightarrow> bool" where
  "term_selects A holds node t \<longleftrightarrow>
     (\<forall>e\<in>set (nst_MatchExpressions t). expr_holds A holds (om_Labels (node_Meta node)) e = Some True) \<and>
     (\<forall>e\<in>set (nst_MatchFields t). field_holds (extractNodeFields node) e = Some True)"

context selectors
begin

lemma expr_parses: "expr_holds A holds ls e \<noteq> None \<longleftrightarrow> expr_holds A holds ls' e \<noteq> None"
  by (simp add: expr_holds_def split: option.split sum.split)

lemma field_parses: "field_holds fs e \<noteq> None \<longleftrightarrow> field_holds fs' e \<noteq> None"
  by (simp add: field_holds_def split: list.split)

lemma selector_loop_spec:
  "selector_loop A sel errs nsm = (sel', errs') \<Longrightarrow>
   (errs' = [] \<longleftrightarrow> errs = [] \<and> (\<forall>e\<in>set nsm. expr_holds A holds ls e \<noteq> None)) \<and>
   (errs' = [] \<longrightarrow> sa_Matches A sel' ls = (sa_Matches A sel ls \<and> (\<forall>e\<in>set nsm. expr_holds A holds ls e = Some True)))"
proof (induction nsm arbitrary: sel errs)
  case (Cons e nsm)
  then show ?case
    by (cases "node_selector_op (nsr_Operator e)";
        cases "sa_NewRequirement A (nsr_Key e) (the (node_selector_op (nsr_Operator e))) (nsr_Values e)")
      (auto simp: expr_holds_def add_matches)
qed simp

lemma field_loop_spec:
  "field_loop A sels errs nsr = (sels', errs') \<Longrightarrow>
   (errs' = [] \<longleftrightarrow> errs = [] \<and> (\<forall>e\<in>set nsr. field_holds fs e \<noteq> None)) \<and>
   (errs' = [] \<longrightarrow> (\<forall>f\<in>set sels'. sa_FieldsMatches A f fs) =
      ((\<forall>f\<in>set sels. sa_FieldsMatches A f fs) \<and> (\<forall>e\<in>set nsr. field_holds fs e = Some True)))"
proof (induction nsr arbitrary: sels errs)
  case (Cons e nsr)
  show ?case
  proof (cases "\<exists>v. nsr_Values e = [v]")
    case True
    then show ?thesis using Cons
      by (auto simp: field_holds_def equal_matches not_equal_matches split: if_splits)
  next
    case False
    then have "field_loop A sels errs (e # nsr) = field_loop A sels (errs @ [ErrMsg (if nsr_Operator e = NodeSelectorOpIn \<or>
        nsr_Operator e = NodeSelectorOpNotIn then ''must have one element'' else ''unsupported value'')]) nsr"
      by (auto split: list.split)
    moreover have "field_holds fs e = None" using False by (auto simp: field_holds_def split: list.split)
    ultimately show ?thesis using Cons by simp
  qed
qed simp

lemma requirements_spec:
  assumes "nsm \<noteq> []" "nodeSelectorRequirementsAsSelector A nsm = (ml, errs)"
  shows "errs = [] \<longleftrightarrow> (\<forall>e\<in>set nsm. expr_holds A holds [] e \<noteq> None)"
    "errs = [] \<Longrightarrow> \<exists>sel. ml = Some sel \<and> (\<forall>ls. sa_Matches A sel ls \<longleftrightarrow> (\<forall>e\<in>set nsm. expr_holds A holds ls e = Some True))"
proof -
  obtain sel errs' where l: "selector_loop A (sa_NewSelector A) [] nsm = (sel, errs')" by fastforce
  have e: "errs = errs'" "ml = (if errs' = [] then Some sel else None)"
    using assms l by (auto simp: nodeSelectorRequirementsAsSelector_def split: if_splits)
  show "errs = [] \<longleftrightarrow> (\<forall>e\<in>set nsm. expr_holds A holds [] e \<noteq> None)"
    using selector_loop_spec [OF l, of "[]"] e by simp
  show "\<exists>sel. ml = Some sel \<and> (\<forall>ls. sa_Matches A sel ls \<longleftrightarrow> (\<forall>e\<in>set nsm. expr_holds A holds ls e = Some True))" if "errs = []"
    using selector_loop_spec [OF l] e that new_matches by auto
qed

lemma fields_spec:
  assumes "nsr \<noteq> []" "nodeSelectorRequirementsAsFieldSelector A nsr = (mf, errs)"
  shows "errs = [] \<longleftrightarrow> (\<forall>e\<in>set nsr. field_holds [] e \<noteq> None)"
    "errs = [] \<Longrightarrow> \<exists>sel. mf = Some sel \<and> (\<forall>fs. sa_FieldsMatches A sel fs \<longleftrightarrow> (\<forall>e\<in>set nsr. field_holds fs e = Some True))"
proof -
  obtain sels errs' where l: "field_loop A [] [] nsr = (sels, errs')" by fastforce
  have e: "errs = errs'" "mf = (if errs' = [] then Some (sa_AndSelectors A sels) else None)"
    using assms l by (auto simp: nodeSelectorRequirementsAsFieldSelector_def split: if_splits)
  show "errs = [] \<longleftrightarrow> (\<forall>e\<in>set nsr. field_holds [] e \<noteq> None)"
    using field_loop_spec [OF l, of "[]"] e by simp
  show "\<exists>sel. mf = Some sel \<and> (\<forall>fs. sa_FieldsMatches A sel fs \<longleftrightarrow> (\<forall>e\<in>set nsr. field_holds fs e = Some True))" if "errs = []"
    using field_loop_spec [OF l] e that and_matches by auto
qed

lemma new_term_spec:
  assumes "\<not> isEmptyNodeSelectorTerm t" "om_Name (node_Meta node) \<noteq> []"
  shows "parseErrs (newNodeSelectorTerm A t) = [] \<longleftrightarrow> term_parses A holds t"
    "term_parses A holds t \<Longrightarrow>
      term_match A (newNodeSelectorTerm A t) (om_Labels (node_Meta node)) (extractNodeFields node) = (term_selects A holds node t, [])"
proof -
  obtain ml errs1 where r: "(if nst_MatchExpressions t \<noteq> [] then nodeSelectorRequirementsAsSelector A (nst_MatchExpressions t) else (None, [])) = (ml, errs1)"
    by fastforce
  obtain mf errs2 where f: "(if nst_MatchFields t \<noteq> [] then nodeSelectorRequirementsAsFieldSelector A (nst_MatchFields t) else (None, [])) = (mf, errs2)"
    by fastforce
  have n: "newNodeSelectorTerm A t = \<lparr>matchLabels = ml, matchFields = mf, parseErrs = errs1 @ errs2\<rparr>"
    unfolding newNodeSelectorTerm_def r f by simp
  have e1: "errs1 = [] \<longleftrightarrow> (\<forall>e\<in>set (nst_MatchExpressions t). expr_holds A holds [] e \<noteq> None)"
    using requirements_spec(1) [of "nst_MatchExpressions t" ml errs1] r by (cases "nst_MatchExpressions t = []") auto
  have e2: "errs2 = [] \<longleftrightarrow> (\<forall>e\<in>set (nst_MatchFields t). field_holds [] e \<noteq> None)"
    using fields_spec(1) [of "nst_MatchFields t" mf errs2] f by (cases "nst_MatchFields t = []") auto
  show p: "parseErrs (newNodeSelectorTerm A t) = [] \<longleftrightarrow> term_parses A holds t" by (simp add: n e1 e2 term_parses_def)
  assume "term_parses A holds t"
  then have z: "errs1 = []" "errs2 = []" using p n by simp_all
  have "(case ml of None \<Rightarrow> False | Some sel \<Rightarrow> \<not> sa_Matches A sel ls) \<longleftrightarrow>
      \<not> (\<forall>e\<in>set (nst_MatchExpressions t). expr_holds A holds ls e = Some True)" for ls
    using requirements_spec(2) [of "nst_MatchExpressions t" ml errs1] r z(1) by (cases "nst_MatchExpressions t = []") auto
  moreover have "extractNodeFields node \<noteq> []" using assms(2) by (simp add: extractNodeFields_def)
  then have "(case mf of None \<Rightarrow> False | Some sel \<Rightarrow> extractNodeFields node \<noteq> [] \<and> \<not> sa_FieldsMatches A sel (extractNodeFields node)) \<longleftrightarrow>
      \<not> (\<forall>e\<in>set (nst_MatchFields t). field_holds (extractNodeFields node) e = Some True)"
    using fields_spec(2) [of "nst_MatchFields t" mf errs2] f z(2) by (cases "nst_MatchFields t = []") auto
  ultimately show "term_match A (newNodeSelectorTerm A t) (om_Labels (node_Meta node)) (extractNodeFields node) =
      (term_selects A holds node t, [])"
    by (simp add: term_match_def n z term_selects_def)
qed

lemma unparsed_match: "parseErrs t \<noteq> [] \<Longrightarrow> term_match A t ls fs = (False, parseErrs t)"
  by (simp add: term_match_def)

text \<open>The terms are searched in order; terms that do not parse are skipped and reported if nothing matches.\<close>

lemma terms_match_spec:
  assumes "om_Name (node_Meta node) \<noteq> []" "\<forall>t\<in>set ts. \<not> isEmptyNodeSelectorTerm t"
    "terms_match A (om_Labels (node_Meta node)) (extractNodeFields node) errs (map (newNodeSelectorTerm A) ts) = (ok, err)"
  shows "(ok \<longleftrightarrow> (\<exists>t\<in>set ts. term_parses A holds t \<and> term_selects A holds node t)) \<and>
    (err = None \<longleftrightarrow> ok \<or> (errs = [] \<and> (\<forall>t\<in>set ts. term_parses A holds t)))"
  using assms(2,3)
proof (induction ts arbitrary: errs)
  case (Cons t ts)
  have t: "\<not> isEmptyNodeSelectorTerm t" using Cons.prems by simp
  let ?fs = "extractNodeFields node" and ?ls = "om_Labels (node_Meta node)"
  show ?case
  proof (cases "term_parses A holds t")
    case True
    then have m: "term_match A (newNodeSelectorTerm A t) ?ls ?fs = (term_selects A holds node t, [])"
      using new_term_spec(2) [OF t assms(1)] by simp
    show ?thesis
    proof (cases "term_selects A holds node t")
      case True
      then show ?thesis using m Cons.prems(2) \<open>term_parses A holds t\<close> by auto
    next
      case False
      then have "terms_match A ?ls ?fs errs (map (newNodeSelectorTerm A) ts) = (ok, err)" using m Cons.prems(2) by simp
      then show ?thesis using Cons.IH [of errs] Cons.prems(1) False True by auto
    qed
  next
    case False
    then have p: "parseErrs (newNodeSelectorTerm A t) \<noteq> []" using new_term_spec(1) [OF t assms(1)] by simp
    then have "terms_match A ?ls ?fs (errs @ parseErrs (newNodeSelectorTerm A t)) (map (newNodeSelectorTerm A) ts) = (ok, err)"
      using Cons.prems(2) by (simp add: unparsed_match)
    then show ?thesis using Cons.IH [of "errs @ parseErrs (newNodeSelectorTerm A t)"] Cons.prems(1) False p by auto
  qed
qed auto

end

section \<open>An instance of the selectors\<close>

definition label_requirement :: "string \<times> selection_op \<times> string list \<Rightarrow> labels \<Rightarrow> bool" where
  "label_requirement q ls =
     (case q of (k, op, vs) \<Rightarrow>
        (case op of
           SelIn \<Rightarrow> (case map_of ls k of None \<Rightarrow> False | Some v \<Rightarrow> v \<in> set vs)
         | SelNotIn \<Rightarrow> (case map_of ls k of None \<Rightarrow> True | Some v \<Rightarrow> v \<notin> set vs)
         | SelExists \<Rightarrow> map_of ls k \<noteq> None
         | SelDoesNotExist \<Rightarrow> map_of ls k = None
         | _ \<Rightarrow> False))"

definition plain_selectors ::
  "(string \<times> selection_op \<times> string list, (string \<times> selection_op \<times> string list) list option, labels \<Rightarrow> bool) selector_api" where
  "plain_selectors =
     \<lparr>sa_NewRequirement = (\<lambda>k op vs. if op = SelIn \<and> vs = [] then Inl (ErrMsg ''values'') else Inr (k, op, vs)),
      sa_NewSelector = Some [], sa_Nothing = None, sa_Add = (\<lambda>sel q. map_option (\<lambda>qs. qs @ [q]) sel),
      sa_Matches = (\<lambda>sel ls. case sel of None \<Rightarrow> False | Some qs \<Rightarrow> list_all (\<lambda>q. label_requirement q ls) qs),
      sa_Empty = (\<lambda>sel. sel = Some []),
      sa_AsSelector = (\<lambda>s. case s of None \<Rightarrow> Inr None | Some s \<Rightarrow> Inr (Some (map (\<lambda>(k, v). (k, SelIn, [v])) (ls_MatchLabels s)))),
      sa_FieldsNothing = (\<lambda>_. False), sa_TermEqual = (\<lambda>k v fs. fields_Get fs k = v), sa_TermNotEqual = (\<lambda>k v fs. fields_Get fs k \<noteq> v),
      sa_AndSelectors = (\<lambda>sels fs. list_all (\<lambda>f. f fs) sels), sa_FieldsMatches = (\<lambda>f fs. f fs)\<rparr>"

interpretation plain: selectors plain_selectors label_requirement
  by unfold_locales (auto simp: plain_selectors_def list_all_iff split: option.splits)

section \<open>The affinity of an instance\<close>

text \<open>The non-empty terms of the required node affinity, if there is one.\<close>

definition required_terms :: "Instance \<Rightarrow> NodeSelectorTerm list option" where
  "required_terms inst =
     (case is_Affinity (inst_Spec inst) of
        None \<Rightarrow> None
      | Some a \<Rightarrow> (case aff_NodeAffinity a of
          None \<Rightarrow> None
        | Some na \<Rightarrow> map_option (\<lambda>ns. filter (\<lambda>t. \<not> isEmptyNodeSelectorTerm t) (ns_NodeSelectorTerms ns)) (na_Required na)))"

lemma GetRequiredNodeAffinity_terms:
  "GetRequiredNodeAffinity A inst = map_option (map (newNodeSelectorTerm A)) (required_terms inst)"
  by (simp add: GetRequiredNodeAffinity_def required_terms_def NewLazyErrorNodeSelector_def [abs_def] option.map_comp comp_def split: option.split)

lemma required_terms_nonempty: "required_terms inst = Some ts \<Longrightarrow> t \<in> set ts \<Longrightarrow> \<not> isEmptyNodeSelectorTerm t"
  by (auto simp: required_terms_def split: option.splits)

text \<open>A node is selected when there is no required affinity or some term selects it.\<close>

definition node_selected :: "('q, 'l, 'f) selector_api \<Rightarrow> ('q \<Rightarrow> labels \<Rightarrow> bool) \<Rightarrow> Instance \<Rightarrow> Node \<Rightarrow> bool" where
  "node_selected A holds inst node \<longleftrightarrow>
     (case required_terms inst of
        None \<Rightarrow> True
      | Some ts \<Rightarrow> \<exists>t\<in>set ts. term_parses A holds t \<and> term_selects A holds node t)"

context selectors
begin

lemma affinity_Match_spec:
  assumes "om_Name (node_Meta node) \<noteq> []"
  shows "fst (affinity_Match A (GetRequiredNodeAffinity A inst) (Some node)) \<longleftrightarrow> node_selected A holds inst node"
    "snd (affinity_Match A (GetRequiredNodeAffinity A inst) (Some node)) = None \<longleftrightarrow>
      node_selected A holds inst node \<or> (\<forall>t\<in>set (case required_terms inst of None \<Rightarrow> [] | Some ts \<Rightarrow> ts). term_parses A holds t)"
proof -
  have "fst (affinity_Match A (GetRequiredNodeAffinity A inst) (Some node)) = node_selected A holds inst node \<and>
    (snd (affinity_Match A (GetRequiredNodeAffinity A inst) (Some node)) = None \<longleftrightarrow>
      node_selected A holds inst node \<or> (\<forall>t\<in>set (case required_terms inst of None \<Rightarrow> [] | Some ts \<Rightarrow> ts). term_parses A holds t))"
  proof (cases "required_terms inst")
    case None
    then show ?thesis by (simp add: GetRequiredNodeAffinity_terms affinity_Match_def node_selected_def)
  next
    case (Some ts)
    then have "\<forall>t\<in>set ts. \<not> isEmptyNodeSelectorTerm t" using required_terms_nonempty by blast
    then show ?thesis
      using Some terms_match_spec [OF assms, of ts "[]"]
      by (cases "terms_match A (om_Labels (node_Meta node)) (extractNodeFields node) [] (map (newNodeSelectorTerm A) ts)")
        (simp add: GetRequiredNodeAffinity_terms affinity_Match_def lazy_Match_def node_selected_def)
  qed
  then show "fst (affinity_Match A (GetRequiredNodeAffinity A inst) (Some node)) \<longleftrightarrow> node_selected A holds inst node"
    "snd (affinity_Match A (GetRequiredNodeAffinity A inst) (Some node)) = None \<longleftrightarrow>
      node_selected A holds inst node \<or> (\<forall>t\<in>set (case required_terms inst of None \<Rightarrow> [] | Some ts \<Rightarrow> ts). term_parses A holds t)"
    by blast+
qed

end

section \<open>Properties\<close>

text \<open>
  C29. A named node matches the required node affinity of an instance if and only if the instance
  has none, or one of its non-empty terms parses and all requirements of the term hold for the
  node's labels and fields. An error is reported exactly when no term matches and some term does
  not parse.
\<close>

theorem node_affinity_Match:
  assumes "selectors A holds" "om_Name (node_Meta node) \<noteq> []"
  shows "(fst (affinity_Match A (GetRequiredNodeAffinity A inst) (Some node)) \<longleftrightarrow> node_selected A holds inst node) \<and>
    (snd (affinity_Match A (GetRequiredNodeAffinity A inst) (Some node)) = None \<longleftrightarrow>
      node_selected A holds inst node \<or> (\<forall>t\<in>set (case required_terms inst of None \<Rightarrow> [] | Some ts \<Rightarrow> ts). term_parses A holds t))"
  using selectors.affinity_Match_spec [OF assms] by simp

definition example_node :: "string \<Rightarrow> labels \<Rightarrow> Node" where
  "example_node name ls = \<lparr>node_Meta = zero_meta\<lparr>om_Name := name, om_Labels := ls\<rparr>\<rparr>"

definition example_affine :: Instance where
  "example_affine =
     \<lparr>inst_Meta = zero_meta,
      inst_Spec = \<lparr>is_Type = InstanceTypeLoadBalancer, is_LoadBalancerType = LoadBalancerTypePublic, is_NetworkRef = [],
        is_IPs = [], is_LoadBalancerPorts = [],
        is_Affinity = Some \<lparr>aff_NodeAffinity = Some \<lparr>na_Required = Some \<lparr>ns_NodeSelectorTerms =
          [\<lparr>nst_MatchExpressions = [\<lparr>nsr_Key = ''zone'', nsr_Operator = NodeSelectorOpIn, nsr_Values = [''a'']\<rparr>],
            nst_MatchFields = [\<lparr>nsr_Key = ''metadata.name'', nsr_Operator = NodeSelectorOpNotIn, nsr_Values = [''m'']\<rparr>]\<rparr>]\<rparr>\<rparr>,
          aff_InstanceAntiAffinity = None\<rparr>,
        is_TopologySpreadConstraints = None, is_NodeRef = None\<rparr>,
      inst_Status = \<lparr>ist_IPs = [], ist_CollisionCount = None\<rparr>\<rparr>"

theorem node_affinity_Match_witness:
  "fst (affinity_Match plain_selectors (GetRequiredNodeAffinity plain_selectors example_affine) (Some (example_node ''n'' [(''zone'', ''a'')])))"
proof -
  have "om_Name (node_Meta (example_node ''n'' [(''zone'', ''a'')])) \<noteq> []" by (simp add: example_node_def)
  moreover have "node_selected plain_selectors label_requirement example_affine (example_node ''n'' [(''zone'', ''a'')])"
    by (simp add: node_selected_def required_terms_def example_affine_def example_node_def isEmptyNodeSelectorTerm_def
        term_parses_def term_selects_def expr_holds_def field_holds_def plain_selectors_def node_selector_op_def
        label_requirement_def fields_Get_def extractNodeFields_def NodeSelectorOpIn_def NodeSelectorOpNotIn_def zero_meta_def)
  ultimately show ?thesis using node_affinity_Match [OF plain.selectors_axioms] by blast
qed

end
