(* ===== verification/Scheduler.thy ===== *)
theory Scheduler
  imports SchedulerCache NodeAffinity Kube "HOL-Library.Multiset"
begin

text \<open>
  The instance scheduler, \<open>internal/controllers/scheduler_controller.go\<close>: the filters that find
  the nodes an instance may run on, the choice among them, and the event handlers that keep the
  cache up to date. The orders in which Go walks maps and sets are arguments. A node of a
  snapshot is its name with its entry, so that the name stands for the pointer.
\<close>

section \<open>Orders\<close>

record map_orders =
  o_nodes :: "(string \<times> ContainerInfo) list \<Rightarrow> (string \<times> ContainerInfo) list"
  o_instances :: "Instance list \<Rightarrow> Instance list"
  o_pairs :: "((string \<times> string) \<times> int) list \<Rightarrow> ((string \<times> string) \<times> int) list"
  o_set :: "(string \<times> ContainerInfo) list \<Rightarrow> (string \<times> ContainerInfo) list"

type_synonym snode = "string \<times> ContainerInfo"

text \<open>The nodes of a snapshot have a node object, so the reads through \<open>Node()\<close> do not meet a nil pointer.\<close>

definition node_labels :: "snode \<Rightarrow> labels" where
  "node_labels n = (case ci_node (snd n) of None \<Rightarrow> [] | Some node \<Rightarrow> om_Labels (node_Meta node))"

abbreviation node_name :: "snode \<Rightarrow> string" where
  "node_name n \<equiv> (case ci_node (snd n) of None \<Rightarrow> [] | Some node \<Rightarrow> om_Name (node_Meta node))"

section \<open>The filters\<close>

definition filterNodesByAffinity :: "('q, 'l, 'f) selector_api \<Rightarrow> Instance \<Rightarrow> snode list \<Rightarrow> snode list result" where
  "filterNodesByAffinity A inst nodes =
     (if (case is_Affinity (inst_Spec inst) of None \<Rightarrow> True | Some a \<Rightarrow> aff_NodeAffinity a = None) then Inr nodes
      else let nodeAffinity = GetRequiredNodeAffinity A inst in
           Inr (filter (\<lambda>n. let (ok, err) = affinity_Match A nodeAffinity (ci_node (snd n)) in err = None \<and> ok) nodes))"

type_synonym topologyPair = "string \<times> string"
type_synonym tp_counts = "(topologyPair \<times> int) list"

definition tp_get :: "tp_counts \<Rightarrow> topologyPair \<Rightarrow> int" where
  "tp_get m p = (case map_of m p of None \<Rightarrow> 0 | Some n \<Rightarrow> n)"

definition tp_add :: "tp_counts \<Rightarrow> topologyPair \<Rightarrow> int \<Rightarrow> tp_counts" where
  "tp_add m p n = AList.update p (tp_get m p + n) m"

text \<open>A loop whose body may return an error.\<close>

fun for_each :: "'a list \<Rightarrow> ('a \<Rightarrow> 'b \<Rightarrow> 'b result) \<Rightarrow> 'b \<Rightarrow> 'b result" where
  "for_each [] body s = Inr s"
| "for_each (x # xs) body s = (case body x s of Inl e \<Rightarrow> Inl e | Inr s' \<Rightarrow> for_each xs body s')"

text \<open>The body of the innermost loop of both counts: one term against the labels of an instance.\<close>

definition count_term ::
  "('q, 'l, 'f) selector_api \<Rightarrow> labels \<Rightarrow> labels \<Rightarrow> InstanceAffinityTerm \<Rightarrow> tp_counts \<Rightarrow> tp_counts result" where
  "count_term A nodeLabels instLabels t tpCount =
     (case sa_AsSelector A (iat_LabelSelector t) of
        Inl err \<Rightarrow> Inl err
      | Inr sel \<Rightarrow>
          if sa_Matches A sel instLabels then
            (case map_of nodeLabels (iat_TopologyKey t) of
               None \<Rightarrow> Inr tpCount
             | Some tpValue \<Rightarrow> Inr (tp_add tpCount (iat_TopologyKey t, tpValue) 1))
          else Inr tpCount)"

definition anti_affinity_terms :: "Instance \<Rightarrow> InstanceAffinityTerm list option" where
  "anti_affinity_terms inst =
     (case is_Affinity (inst_Spec inst) of
        None \<Rightarrow> None
      | Some a \<Rightarrow> map_option iaa_Required (aff_InstanceAntiAffinity a))"

definition getExistingAntiAffinityCounts ::
  "('q, 'l, 'f) selector_api \<Rightarrow> map_orders \<Rightarrow> Instance \<Rightarrow> snode list \<Rightarrow> tp_counts result" where
  "getExistingAntiAffinityCounts A ords inst nodes =
     for_each nodes (\<lambda>n. for_each (Instances (o_instances ords) (snd n)) (\<lambda>existingInst tpCount.
       if om_Namespace (inst_Meta existingInst) \<noteq> om_Namespace (inst_Meta inst) then Inr tpCount
       else case anti_affinity_terms existingInst of
         None \<Rightarrow> Inr tpCount
       | Some terms \<Rightarrow> for_each terms (count_term A (node_labels n) (om_Labels (inst_Meta inst))) tpCount)) []"

definition getIncomingAntiAffinityCounts ::
  "('q, 'l, 'f) selector_api \<Rightarrow> map_orders \<Rightarrow> Instance \<Rightarrow> snode list \<Rightarrow> tp_counts result" where
  "getIncomingAntiAffinityCounts A ords inst nodes =
     (case anti_affinity_terms inst of
        None \<Rightarrow> Inr []
      | Some terms \<Rightarrow>
          for_each nodes (\<lambda>n. for_each (Instances (o_instances ords) (snd n)) (\<lambda>existingInst tpCount.
            if om_Namespace (inst_Meta existingInst) \<noteq> om_Namespace (inst_Meta inst) then Inr tpCount
            else for_each terms (count_term A (node_labels n) (om_Labels (inst_Meta existingInst))) tpCount)) [])"

definition satisfyExistingInstanceAntiAffinity :: "tp_counts \<Rightarrow> snode \<Rightarrow> bool" where
  "satisfyExistingInstanceAntiAffinity counts n \<longleftrightarrow>
     counts = [] \<or> list_all (\<lambda>tp. \<not> tp_get counts tp > 0) (node_labels n)"

definition satisfyInstanceAntiAffinity :: "Instance \<Rightarrow> tp_counts \<Rightarrow> snode \<Rightarrow> bool" where
  "satisfyInstanceAntiAffinity inst counts n \<longleftrightarrow>
     counts = [] \<or>
     (case anti_affinity_terms inst of
        None \<Rightarrow> True
      | Some terms \<Rightarrow> list_all (\<lambda>t. case map_of (node_labels n) (iat_TopologyKey t) of
            None \<Rightarrow> True | Some v \<Rightarrow> \<not> tp_get counts (iat_TopologyKey t, v) > 0) terms)"

definition filterNodesByInstanceAntiAffinity ::
  "('q, 'l, 'f) selector_api \<Rightarrow> map_orders \<Rightarrow> Instance \<Rightarrow> snode list \<Rightarrow> snode list result" where
  "filterNodesByInstanceAntiAffinity A ords inst nodes =
     (case getExistingAntiAffinityCounts A ords inst nodes of
        Inl err \<Rightarrow> Inl err
      | Inr existing \<Rightarrow>
          (case getIncomingAntiAffinityCounts A ords inst nodes of
             Inl err \<Rightarrow> Inl err
           | Inr incoming \<Rightarrow>
               Inr (filter (\<lambda>n. satisfyInstanceAntiAffinity inst incoming n \<and> satisfyExistingInstanceAntiAffinity existing n) nodes)))"

record 'l topologySpreadConstraint =
  t_MaxSkew :: int
  t_TopologyKey :: string
  t_Selector :: 'l
  t_MinDomains :: int

definition nodeLabelsMatchSpreadConstraints :: "labels \<Rightarrow> 'l topologySpreadConstraint list \<Rightarrow> bool" where
  "nodeLabelsMatchSpreadConstraints nodeLabels constraints =
     list_all (\<lambda>c. map_of nodeLabels (t_TopologyKey c) \<noteq> None) constraints"

definition buildTopologySpreadConstraint ::
  "('q, 'l, 'f) selector_api \<Rightarrow> TopologySpreadConstraint \<Rightarrow> 'l topologySpreadConstraint result" where
  "buildTopologySpreadConstraint A constraint =
     (case sa_AsSelector A (tsc_LabelSelector constraint) of
        Inl err \<Rightarrow> Inl err
      | Inr sel \<Rightarrow> Inr \<lparr>t_MaxSkew = tsc_MaxSkew constraint, t_TopologyKey = tsc_TopologyKey constraint, t_Selector = sel,
          t_MinDomains = 1\<rparr>)"

definition buildTopologySpreadConstraints ::
  "('q, 'l, 'f) selector_api \<Rightarrow> TopologySpreadConstraint list \<Rightarrow> 'l topologySpreadConstraint list result" where
  "buildTopologySpreadConstraints A constraints =
     for_each constraints (\<lambda>constraint res.
       case buildTopologySpreadConstraint A constraint of Inl err \<Rightarrow> Inl err | Inr c \<Rightarrow> Inr (res @ [c])) []"

definition countInstancesMatchSelector :: "('q, 'l, 'f) selector_api \<Rightarrow> Instance list \<Rightarrow> 'l \<Rightarrow> string \<Rightarrow> int" where
  "countInstancesMatchSelector A insts selector namespace =
     (if sa_Empty A selector then 0
      else int (length (filter (\<lambda>i. \<not> (om_DeletionTimestamp (inst_Meta i) \<noteq> None \<or> om_Namespace (inst_Meta i) \<noteq> namespace) \<and>
        sa_Matches A selector (om_Labels (inst_Meta i))) insts)))"

definition label_of :: "labels \<Rightarrow> string \<Rightarrow> string" where
  "label_of ls k = (case map_of ls k of None \<Rightarrow> [] | Some v \<Rightarrow> v)"

text \<open>The first loop: the counts of all nodes that have the topology keys.\<close>

definition topology_counts ::
  "('q, 'l, 'f) selector_api \<Rightarrow> map_orders \<Rightarrow> string \<Rightarrow> 'l topologySpreadConstraint list \<Rightarrow> snode list \<Rightarrow> tp_counts" where
  "topology_counts A ords namespace constraints tpNodes =
     fold (\<lambda>n counts. fold (\<lambda>c counts.
       tp_add counts (t_TopologyKey c, label_of (node_labels n) (t_TopologyKey c))
         (countInstancesMatchSelector A (Instances (o_instances ords) (snd n)) (t_Selector c) namespace)) constraints counts) tpNodes []"

text \<open>The second loop: the value with the fewest instances per key, with its count.\<close>

fun critical_paths :: "tp_counts \<Rightarrow> (string \<times> string \<times> int) list \<Rightarrow> (string \<times> string \<times> int) list" where
  "critical_paths [] m = m"
| "critical_paths (((key, v), cnt) # ps) m =
     (case map_of m key of
        Some (_, cur) \<Rightarrow> if cur < cnt then critical_paths ps m else critical_paths ps (AList.update key (v, cnt) m)
      | None \<Rightarrow> critical_paths ps (AList.update key (v, cnt) m))"

definition skew_ok ::
  "('q, 'l, 'f) selector_api \<Rightarrow> Instance \<Rightarrow> tp_counts \<Rightarrow> (string \<times> string \<times> int) list \<Rightarrow> snode \<Rightarrow> 'l topologySpreadConstraint \<Rightarrow> bool" where
  "skew_ok A inst tpCounts crit n c \<longleftrightarrow>
     (let tpKey = t_TopologyKey c; tpVal = label_of (node_labels n) tpKey;
          minCount = (case map_of crit tpKey of None \<Rightarrow> 0 | Some (_, cnt) \<Rightarrow> cnt);
          selfCount = (if sa_Matches A (t_Selector c) (om_Labels (inst_Meta inst)) then 1 else 0);
          matchCount = tp_get tpCounts (tpKey, tpVal);
          skew = matchCount + selfCount - minCount in
      \<not> skew > t_MaxSkew c)"

definition filterNodesByTopology ::
  "('q, 'l, 'f) selector_api \<Rightarrow> map_orders \<Rightarrow> Instance \<Rightarrow> snode list \<Rightarrow> snode list result" where
  "filterNodesByTopology A ords inst nodes =
     (case is_TopologySpreadConstraints (inst_Spec inst) of
        None \<Rightarrow> Inr nodes
      | Some cs \<Rightarrow>
          (case buildTopologySpreadConstraints A cs of
             Inl err \<Rightarrow> Inl err
           | Inr constraints \<Rightarrow>
               let tpNodes = filter (\<lambda>n. nodeLabelsMatchSpreadConstraints (node_labels n) constraints) nodes;
                   tpCounts = topology_counts A ords (om_Namespace (inst_Meta inst)) constraints tpNodes;
                   crit = critical_paths (o_pairs ords tpCounts) [] in
               Inr (filter (\<lambda>n. list_all (skew_ok A inst tpCounts crit n) constraints) tpNodes)))"

section \<open>Choosing a node\<close>

fun apply_filters :: "(snode list \<Rightarrow> snode list result) list \<Rightarrow> snode list \<Rightarrow> snode list \<Rightarrow> snode list result" where
  "apply_filters [] nodes matching = Inr matching"
| "apply_filters (f # fs) nodes matching =
     (case f nodes of
        Inl err \<Rightarrow> Inl err
      | Inr res \<Rightarrow>
          let matching' = filter (\<lambda>n. n \<in> set res) matching in
          if matching' = [] then Inr [] else apply_filters fs nodes matching')"

definition getNodesForInstance ::
  "('q, 'l, 'f) selector_api \<Rightarrow> map_orders \<Rightarrow> Snapshot \<Rightarrow> Instance \<Rightarrow> snode list result" where
  "getNodesForInstance A ords nodes inst =
     (case apply_filters [filterNodesByAffinity A inst, filterNodesByInstanceAntiAffinity A ords inst, filterNodesByTopology A ords inst]
             nodes (remdups nodes) of
        Inl err \<Rightarrow> Inl err
      | Inr matching \<Rightarrow> Inr (if matching = [] then [] else o_set ords matching))"

fun min_used :: "snode \<Rightarrow> snode list \<Rightarrow> snode" where
  "min_used best [] = best"
| "min_used best (n # ns) = (if NumInstances (snd n) < NumInstances (snd best) then min_used n ns else min_used best ns)"

definition set_NodeRef :: "string option \<Rightarrow> Instance \<Rightarrow> Instance" where
  "set_NodeRef r i = i\<lparr>inst_Spec := (inst_Spec i)\<lparr>is_NodeRef := r\<rparr>\<rparr>"

definition sched_assume :: "Cache \<Rightarrow> Instance \<Rightarrow> string \<Rightarrow> (Cache \<times> Instance \<times> go_error option) outcome" where
  "sched_assume c assumed nodeName =
     (let assumed' = set_NodeRef (Some nodeName) assumed in
      case AssumeInstance DefaultCacheStrategy c assumed' of
        Panics \<Rightarrow> Panics
      | Returns (c', err) \<Rightarrow> Returns (c', assumed', err))"

text \<open>
  What a reconciliation does besides changing the cache: it starts a binding for an instance,
  records the event \<open>OutOfCapacity\<close>, or returns an error.
\<close>

datatype sched_result = StartBinding Instance | OutOfCapacity | SchedError go_error | Skipped

definition reconcileExists ::
  "('q, 'l, 'f) selector_api \<Rightarrow> map_orders \<Rightarrow> Cache \<Rightarrow> Instance \<Rightarrow> (Cache \<times> sched_result) outcome" where
  "reconcileExists A ords c inst =
     (let snapshot = snapshot_Update (o_nodes ords) c in
      case getNodesForInstance A ords snapshot inst of
        Inl err \<Rightarrow> Returns (c, SchedError (Wrapped ''error getting nodes for instance'' err))
      | Inr [] \<Rightarrow> Returns (c, OutOfCapacity)
      | Inr (n # ns) \<Rightarrow>
          (case sched_assume c inst (node_name (min_used n ns)) of
             Panics \<Rightarrow> Panics
           | Returns (c', inst', Some err) \<Rightarrow> Returns (c', SchedError err)
           | Returns (c', inst', None) \<Rightarrow> Returns (c', StartBinding inst')))"

definition skipSchedule :: "Cache \<Rightarrow> Instance \<Rightarrow> bool" where
  "skipSchedule c instance =
     (if om_DeletionTimestamp (inst_Meta instance) \<noteq> None then True
      else case IsAssumedInstance DefaultCacheStrategy c instance of Inl _ \<Rightarrow> False | Inr b \<Rightarrow> b)"

definition sched_Reconcile ::
  "('q, 'l, 'f) selector_api \<Rightarrow> map_orders \<Rightarrow> ('s, Instance) kclient \<Rightarrow> 's \<Rightarrow> Cache \<Rightarrow> ObjectKey \<Rightarrow> (Cache \<times> sched_result) outcome" where
  "sched_Reconcile A ords K s c key =
     (case k_get K s key of
        Inl err \<Rightarrow> Returns (c, if IsNotFound err then Skipped else SchedError err)
      | Inr instance \<Rightarrow> if skipSchedule c instance then Returns (c, Skipped) else reconcileExists A ords c instance)"

section \<open>Binding\<close>

text \<open>
  The patch answers with the stored object, which replaces the one that was sent; the binding is
  finished whether or not the patch succeeded.
\<close>

definition sched_bind ::
  "('s, Instance) kclient \<Rightarrow> 's \<Rightarrow> Cache \<Rightarrow> Instance \<Rightarrow> 's \<times> Cache \<times> Instance \<times> go_error option" where
  "sched_bind K s c assumed =
     (let nonAssumed = set_NodeRef None assumed in
      case k_patch K s assumed nonAssumed False of
        (s', Inl err) \<Rightarrow> (s', fst (FinishBinding DefaultCacheStrategy c assumed), assumed, Some (Wrapped ''error patching instance'' err))
      | (s', Inr y) \<Rightarrow> (s', fst (FinishBinding DefaultCacheStrategy c y), y, None))"

definition bindingCycle ::
  "('s, Instance) kclient \<Rightarrow> 's \<Rightarrow> Cache \<Rightarrow> Instance \<Rightarrow> 's \<times> Cache \<times> Instance \<times> go_error option" where
  "bindingCycle K s c assumedInstance =
     (case sched_bind K s c assumedInstance of
        (s', c', i, Some err) \<Rightarrow> (s', c', i, Some (Wrapped ''error binding'' err))
      | (s', c', i, None) \<Rightarrow> (s', c', i, None))"

text \<open>The goroutine a reconciliation starts. The cache operations take its lock one by one.\<close>

definition binding_goroutine :: "('s, Instance) kclient \<Rightarrow> 's \<Rightarrow> Cache \<Rightarrow> Instance \<Rightarrow> ('s \<times> Cache) outcome" where
  "binding_goroutine K s c inst =
     (case bindingCycle K s c inst of
        (s', c', i, None) \<Rightarrow> Returns (s', c')
      | (s', c', i, Some _) \<Rightarrow>
          (case ForgetInstance DefaultCacheStrategy c' i of Panics \<Rightarrow> Panics | Returns (c'', _) \<Rightarrow> Returns (s', c'')))"

section \<open>Event handlers\<close>

text \<open>A handler returns the cache and the requests it adds to the queue.\<close>

definition instanceNotAssignedPredicate :: "Instance \<Rightarrow> bool" where
  "instanceNotAssignedPredicate instance \<longleftrightarrow> is_NodeRef (inst_Spec instance) = None"

definition isInstanceAssigned :: "Instance \<Rightarrow> bool" where
  "isInstanceAssigned instance \<longleftrightarrow> is_NodeRef (inst_Spec instance) \<noteq> None"

definition handleNode_Create :: "Instance list result \<Rightarrow> Cache \<Rightarrow> Node \<Rightarrow> Cache \<times> ObjectKey list" where
  "handleNode_Create listed c node =
     (let c' = AddContainer c node in
      case listed of
        Inl _ \<Rightarrow> (c', [])
      | Inr insts \<Rightarrow> (c', map (\<lambda>i. meta_key (inst_Meta i))
          (filter (\<lambda>i. om_DeletionTimestamp (inst_Meta i) = None \<and> is_NodeRef (inst_Spec i) = None) insts)))"

definition handleNode_Update :: "Cache \<Rightarrow> Node \<Rightarrow> Node \<Rightarrow> Cache" where
  "handleNode_Update c oldNode newNode = UpdateContainer c oldNode newNode"

definition handleNode_Delete :: "Cache \<Rightarrow> Node \<Rightarrow> Cache" where
  "handleNode_Delete c node = fst (RemoveContainer c node)"

definition drop_error :: "(Cache \<times> go_error option) outcome \<Rightarrow> Cache outcome" where
  "drop_error r = (case r of Panics \<Rightarrow> Panics | Returns (c, _) \<Rightarrow> Returns c)"

definition handleAssigned_Create :: "Cache \<Rightarrow> Instance \<Rightarrow> Cache outcome" where
  "handleAssigned_Create c instance = drop_error (AddInstance DefaultCacheStrategy c instance)"

definition handleAssigned_Update :: "Cache \<Rightarrow> Instance \<Rightarrow> Instance \<Rightarrow> Cache outcome" where
  "handleAssigned_Update c oldInstance newInstance =
     (if isInstanceAssigned oldInstance \<and> isInstanceAssigned newInstance
      then drop_error (UpdateInstance DefaultCacheStrategy c oldInstance newInstance)
      else if \<not> isInstanceAssigned oldInstance \<and> isInstanceAssigned newInstance
      then drop_error (AddInstance DefaultCacheStrategy c newInstance)
      else Returns c)"

definition handleAssigned_Delete :: "Cache \<Rightarrow> Instance \<Rightarrow> Cache outcome" where
  "handleAssigned_Delete c instance = drop_error (RemoveInstance DefaultCacheStrategy c instance)"

definition handleUnassigned_Create :: "Instance \<Rightarrow> ObjectKey list" where
  "handleUnassigned_Create instance = [meta_key (inst_Meta instance)]"

definition handleUnassigned_Update :: "Cache \<Rightarrow> Instance \<Rightarrow> Instance \<Rightarrow> ObjectKey list" where
  "handleUnassigned_Update c oldInstance newInstance =
     (if om_ResourceVersion (inst_Meta oldInstance) = om_ResourceVersion (inst_Meta newInstance) then []
      else if (case IsAssumedInstance DefaultCacheStrategy c newInstance of Inl _ \<Rightarrow> False | Inr b \<Rightarrow> b) then []
      else [meta_key (inst_Meta newInstance)])"

section \<open>Anti-affinity\<close>

text \<open>The walks over maps and sets are walks over permutations of them.\<close>

definition orders_ok :: "map_orders \<Rightarrow> bool" where
  "orders_ok ords \<longleftrightarrow> (\<forall>xs. mset (o_nodes ords xs) = mset xs) \<and> (\<forall>xs. mset (o_instances ords xs) = mset xs) \<and>
     (\<forall>xs. mset (o_pairs ords xs) = mset xs) \<and> (\<forall>xs. mset (o_set ords xs) = mset xs)"

abbreviation insts :: "snode \<Rightarrow> Instance set" where
  "insts n \<equiv> snd ` set (ci_instances (snd n))"

lemma set_Instances: "orders_ok ords \<Longrightarrow> set (Instances (o_instances ords) (snd n)) = insts n"
  unfolding Instances_def orders_ok_def by (metis set_mset_mset set_map)

text \<open>The term selects an instance with these labels.\<close>

definition term_hits :: "('q, 'l, 'f) selector_api \<Rightarrow> InstanceAffinityTerm \<Rightarrow> labels \<Rightarrow> bool" where
  "term_hits A t ls = (case sa_AsSelector A (iat_LabelSelector t) of Inl _ \<Rightarrow> False | Inr sel \<Rightarrow> sa_Matches A sel ls)"

definition same_ns :: "Instance \<Rightarrow> Instance \<Rightarrow> bool" where
  "same_ns i j \<longleftrightarrow> om_Namespace (inst_Meta i) = om_Namespace (inst_Meta j)"

abbreviation terms_of :: "Instance \<Rightarrow> InstanceAffinityTerm set" where
  "terms_of i \<equiv> (case anti_affinity_terms i of None \<Rightarrow> {} | Some ts \<Rightarrow> set ts)"

text \<open>
  A node is acceptable when, in no topology domain it belongs to, there is an instance of the
  same namespace that the new instance excludes, or that excludes the new instance.
\<close>

definition anti_affine :: "('q, 'l, 'f) selector_api \<Rightarrow> Instance \<Rightarrow> snode list \<Rightarrow> snode \<Rightarrow> bool" where
  "anti_affine A inst nodes n \<longleftrightarrow>
     (\<forall>m\<in>set nodes. \<forall>e\<in>insts m. same_ns e inst \<longrightarrow>
        (\<forall>t\<in>terms_of inst. term_hits A t (om_Labels (inst_Meta e)) \<longrightarrow>
           (\<forall>v. map_of (node_labels m) (iat_TopologyKey t) = Some v \<longrightarrow> map_of (node_labels n) (iat_TopologyKey t) \<noteq> Some v)) \<and>
        (\<forall>t\<in>terms_of e. term_hits A t (om_Labels (inst_Meta inst)) \<longrightarrow>
           (\<forall>v. map_of (node_labels m) (iat_TopologyKey t) = Some v \<longrightarrow> (iat_TopologyKey t, v) \<notin> set (node_labels n))))"

definition nonneg :: "tp_counts \<Rightarrow> bool" where
  "nonneg m \<longleftrightarrow> (\<forall>p. 0 \<le> tp_get m p)"

definition counted :: "tp_counts \<Rightarrow> topologyPair set" where
  "counted m = {p. 0 < tp_get m p}"

lemma tp_get_add: "tp_get (tp_add m p n) q = tp_get m q + (if p = q then n else 0)"
  by (simp add: tp_get_def tp_add_def update_conv')

lemma counted_Nil [simp]: "nonneg []" "counted [] = {}"
  by (simp_all add: nonneg_def counted_def tp_get_def)

lemma counted_add: "nonneg m \<Longrightarrow> nonneg (tp_add m p 1) \<and> counted (tp_add m p 1) = insert p (counted m)"
  by (auto simp: nonneg_def counted_def tp_get_add add_nonneg_pos split: if_splits)

text \<open>The body of a loop adds some pairs to the counted ones.\<close>

definition adds :: "(tp_counts \<Rightarrow> tp_counts result) \<Rightarrow> topologyPair set \<Rightarrow> bool" where
  "adds f X \<longleftrightarrow> (\<forall>m m'. nonneg m \<longrightarrow> f m = Inr m' \<longrightarrow> nonneg m' \<and> counted m' = counted m \<union> X)"

lemma addsD: "adds f X \<Longrightarrow> nonneg m \<Longrightarrow> f m = Inr m' \<Longrightarrow> nonneg m' \<and> counted m' = counted m \<union> X"
  by (simp add: adds_def)

lemma adds_Inr: "adds Inr {}"
  by (simp add: adds_def)

lemma for_each_adds:
  assumes "\<And>x. x \<in> set xs \<Longrightarrow> adds (body x) (X x)"
  shows "adds (for_each xs body) (\<Union>x\<in>set xs. X x)"
  using assms
proof (induction xs)
  case (Cons x xs)
  have IH: "adds (for_each xs body) (\<Union>x\<in>set xs. X x)" using Cons by simp
  show ?case unfolding adds_def
  proof (intro allI impI)
    fix m m' assume m: "nonneg m" "for_each (x # xs) body m = Inr m'"
    then obtain m1 where m1: "body x m = Inr m1" "for_each xs body m1 = Inr m'" by (auto split: sum.splits)
    have 1: "nonneg m1 \<and> counted m1 = counted m \<union> X x" using addsD [OF Cons.prems [of x] m(1) m1(1)] by simp
    then show "nonneg m' \<and> counted m' = counted m \<union> (\<Union>x\<in>set (x # xs). X x)"
      using addsD [OF IH _ m1(2)] by auto
  qed
qed (simp add: adds_def)

definition term_pairs :: "('q, 'l, 'f) selector_api \<Rightarrow> labels \<Rightarrow> labels \<Rightarrow> InstanceAffinityTerm \<Rightarrow> topologyPair set" where
  "term_pairs A nodeLabels instLabels t =
     {(iat_TopologyKey t, v) | v. term_hits A t instLabels \<and> map_of nodeLabels (iat_TopologyKey t) = Some v}"

lemma count_term_adds: "adds (count_term A nodeLabels instLabels t) (term_pairs A nodeLabels instLabels t)"
  unfolding adds_def
proof (intro allI impI)
  fix m m' assume m: "nonneg m" "count_term A nodeLabels instLabels t m = Inr m'"
  show "nonneg m' \<and> counted m' = counted m \<union> term_pairs A nodeLabels instLabels t"
  proof (cases "\<exists>v. term_hits A t instLabels \<and> map_of nodeLabels (iat_TopologyKey t) = Some v")
    case True
    then obtain v where v: "term_hits A t instLabels" "map_of nodeLabels (iat_TopologyKey t) = Some v" by blast
    then have "m' = tp_add m (iat_TopologyKey t, v) 1" using m(2) by (auto simp: count_term_def term_hits_def split: sum.splits)
    moreover have "term_pairs A nodeLabels instLabels t = {(iat_TopologyKey t, v)}" using v by (auto simp: term_pairs_def)
    ultimately show ?thesis using counted_add [OF m(1)] by auto
  next
    case False
    then have "m' = m" using m(2) by (auto simp: count_term_def term_hits_def split: sum.splits if_splits option.splits)
    moreover have "term_pairs A nodeLabels instLabels t = {}" using False by (auto simp: term_pairs_def)
    ultimately show ?thesis using m(1) by simp
  qed
qed

lemma existing_counted:
  assumes o: "orders_ok ords" and r: "getExistingAntiAffinityCounts A ords inst nodes = Inr counts"
  shows "nonneg counts \<and> counted counts = (\<Union>n\<in>set nodes. \<Union>e\<in>insts n. if same_ns e inst
    then \<Union>t\<in>terms_of e. term_pairs A (node_labels n) (om_Labels (inst_Meta inst)) t else {})"
proof -
  let ?body = "\<lambda>n existingInst tpCount.
       if om_Namespace (inst_Meta existingInst) \<noteq> om_Namespace (inst_Meta inst) then Inr tpCount
       else case anti_affinity_terms existingInst of
         None \<Rightarrow> Inr tpCount
       | Some terms \<Rightarrow> for_each terms (count_term A (node_labels n) (om_Labels (inst_Meta inst))) tpCount"
  have "adds (?body n e) (if same_ns e inst then \<Union>t\<in>terms_of e. term_pairs A (node_labels n) (om_Labels (inst_Meta inst)) t else {})" for n e
  proof (cases "anti_affinity_terms e")
    case None
    then show ?thesis using adds_Inr by (simp add: same_ns_def adds_def)
  next
    case (Some ts)
    have "adds (for_each ts (count_term A (node_labels n) (om_Labels (inst_Meta inst))))
        (\<Union>t\<in>set ts. term_pairs A (node_labels n) (om_Labels (inst_Meta inst)) t)"
      by (rule for_each_adds) (rule count_term_adds)
    then show ?thesis using Some by (simp add: same_ns_def adds_def)
  qed
  then have "adds (for_each nodes (\<lambda>n. for_each (Instances (o_instances ords) (snd n)) (?body n)))
      (\<Union>n\<in>set nodes. \<Union>e\<in>set (Instances (o_instances ords) (snd n)). if same_ns e inst
        then \<Union>t\<in>terms_of e. term_pairs A (node_labels n) (om_Labels (inst_Meta inst)) t else {})"
    by (intro for_each_adds)
  from addsD [OF this counted_Nil(1) r [unfolded getExistingAntiAffinityCounts_def]]
  show ?thesis by (simp add: set_Instances [OF o])
qed

lemma incoming_counted:
  assumes o: "orders_ok ords" and r: "getIncomingAntiAffinityCounts A ords inst nodes = Inr counts"
  shows "nonneg counts \<and> counted counts = (\<Union>n\<in>set nodes. \<Union>e\<in>insts n. if same_ns e inst
    then \<Union>t\<in>terms_of inst. term_pairs A (node_labels n) (om_Labels (inst_Meta e)) t else {})"
proof (cases "anti_affinity_terms inst")
  case None
  then show ?thesis using r by (simp add: getIncomingAntiAffinityCounts_def)
next
  case (Some ts)
  let ?body = "\<lambda>n existingInst tpCount.
       if om_Namespace (inst_Meta existingInst) \<noteq> om_Namespace (inst_Meta inst) then Inr tpCount
       else for_each ts (count_term A (node_labels n) (om_Labels (inst_Meta existingInst))) tpCount"
  have "adds (?body n e) (if same_ns e inst then \<Union>t\<in>set ts. term_pairs A (node_labels n) (om_Labels (inst_Meta e)) t else {})" for n e
    using for_each_adds [of ts "count_term A (node_labels n) (om_Labels (inst_Meta e))", OF count_term_adds]
    by (simp add: same_ns_def adds_def)
  then have "adds (for_each nodes (\<lambda>n. for_each (Instances (o_instances ords) (snd n)) (?body n)))
      (\<Union>n\<in>set nodes. \<Union>e\<in>set (Instances (o_instances ords) (snd n)). if same_ns e inst
        then \<Union>t\<in>set ts. term_pairs A (node_labels n) (om_Labels (inst_Meta e)) t else {})"
    by (intro for_each_adds)
  moreover have "for_each nodes (\<lambda>n. for_each (Instances (o_instances ords) (snd n)) (?body n)) [] = Inr counts"
    using r Some by (simp add: getIncomingAntiAffinityCounts_def)
  ultimately show ?thesis using addsD [OF _ counted_Nil(1)] Some by (simp add: set_Instances [OF o])
qed

lemma satisfyExisting_iff: "nonneg counts \<Longrightarrow> satisfyExistingInstanceAntiAffinity counts n \<longleftrightarrow> set (node_labels n) \<inter> counted counts = {}"
  by (auto simp: satisfyExistingInstanceAntiAffinity_def list_all_iff counted_def tp_get_def)

lemma satisfyIncoming_iff:
  "nonneg counts \<Longrightarrow> satisfyInstanceAntiAffinity inst counts n \<longleftrightarrow>
   (\<forall>t\<in>terms_of inst. \<forall>v. map_of (node_labels n) (iat_TopologyKey t) = Some v \<longrightarrow> (iat_TopologyKey t, v) \<notin> counted counts)"
  by (auto simp: satisfyInstanceAntiAffinity_def list_all_iff counted_def tp_get_def split: option.splits)

lemma mem_if_empty: "x \<in> (if P then X else {}) \<longleftrightarrow> P \<and> x \<in> X"
  by simp

lemma filter_anti_affinity:
  assumes o: "orders_ok ords" and r: "filterNodesByInstanceAntiAffinity A ords inst nodes = Inr res"
  shows "res = filter (anti_affine A inst nodes) nodes"
proof -
  obtain ex inc where c: "getExistingAntiAffinityCounts A ords inst nodes = Inr ex" "getIncomingAntiAffinityCounts A ords inst nodes = Inr inc"
    and res: "res = filter (\<lambda>n. satisfyInstanceAntiAffinity inst inc n \<and> satisfyExistingInstanceAntiAffinity ex n) nodes"
    using r by (auto simp: filterNodesByInstanceAntiAffinity_def split: sum.splits)
  note ex = existing_counted [OF o c(1)] and inc = incoming_counted [OF o c(2)]
  have 1: "satisfyExistingInstanceAntiAffinity ex n \<longleftrightarrow>
      (\<forall>m\<in>set nodes. \<forall>e\<in>insts m. same_ns e inst \<longrightarrow> (\<forall>t\<in>terms_of e. term_hits A t (om_Labels (inst_Meta inst)) \<longrightarrow>
        (\<forall>v. map_of (node_labels m) (iat_TopologyKey t) = Some v \<longrightarrow> (iat_TopologyKey t, v) \<notin> set (node_labels n))))" for n
    unfolding satisfyExisting_iff [OF conjunct1 [OF ex]] conjunct2 [OF ex] disjoint_iff UN_iff mem_if_empty
      term_pairs_def mem_Collect_eq by blast
  have 2: "satisfyInstanceAntiAffinity inst inc n \<longleftrightarrow>
      (\<forall>m\<in>set nodes. \<forall>e\<in>insts m. same_ns e inst \<longrightarrow> (\<forall>t\<in>terms_of inst. term_hits A t (om_Labels (inst_Meta e)) \<longrightarrow>
        (\<forall>v. map_of (node_labels m) (iat_TopologyKey t) = Some v \<longrightarrow> map_of (node_labels n) (iat_TopologyKey t) \<noteq> Some v)))" for n
    unfolding satisfyIncoming_iff [OF conjunct1 [OF inc]] conjunct2 [OF inc] UN_iff mem_if_empty
      term_pairs_def mem_Collect_eq prod.inject
  proof (intro iffI ballI allI impI notI, goal_cases)
    case (1 m e t v)
    then show ?case by blast
  next
    case (2 t v)
    then show ?case by metis
  qed
  show ?thesis unfolding res by (rule filter_cong) (auto simp: 1 2 anti_affine_def)
qed

section \<open>Topology spread\<close>

text \<open>The matching instances in the domain of a topology key that has the given value.\<close>

definition node_count :: "('q, 'l, 'f) selector_api \<Rightarrow> string \<Rightarrow> 'l topologySpreadConstraint \<Rightarrow> snode \<Rightarrow> int" where
  "node_count A ns c n = countInstancesMatchSelector A (map snd (ci_instances (snd n))) (t_Selector c) ns"

definition domain_count ::
  "('q, 'l, 'f) selector_api \<Rightarrow> string \<Rightarrow> 'l topologySpreadConstraint \<Rightarrow> snode list \<Rightarrow> string \<Rightarrow> int" where
  "domain_count A ns c tpNodes v =
     sum_list (map (node_count A ns c) (filter (\<lambda>n. label_of (node_labels n) (t_TopologyKey c) = v) tpNodes))"

text \<open>
  A node keeps the spread when it has all topology keys and, for every constraint, adding the
  instance to its domain leaves the domain at most \<open>MaxSkew\<close> ahead of every other domain.
\<close>

definition spread_ok ::
  "('q, 'l, 'f) selector_api \<Rightarrow> Instance \<Rightarrow> 'l topologySpreadConstraint list \<Rightarrow> snode list \<Rightarrow> snode \<Rightarrow> bool" where
  "spread_ok A inst constraints nodes n \<longleftrightarrow>
     (let tpNodes = filter (\<lambda>n. nodeLabelsMatchSpreadConstraints (node_labels n) constraints) nodes;
          ns = om_Namespace (inst_Meta inst) in
      nodeLabelsMatchSpreadConstraints (node_labels n) constraints \<and>
      (\<forall>c\<in>set constraints. \<forall>m\<in>set tpNodes.
         domain_count A ns c tpNodes (label_of (node_labels n) (t_TopologyKey c))
         + (if sa_Matches A (t_Selector c) (om_Labels (inst_Meta inst)) then 1 else 0)
         - domain_count A ns c tpNodes (label_of (node_labels m) (t_TopologyKey c)) \<le> t_MaxSkew c))"

lemma count_order:
  assumes "orders_ok ords"
  shows "countInstancesMatchSelector A (Instances (o_instances ords) (snd n)) (t_Selector c) ns = node_count A ns c n"
proof -
  have "mset (Instances (o_instances ords) (snd n)) = mset (map snd (ci_instances (snd n)))"
    using assms by (simp add: orders_ok_def Instances_def)
  then have "size (filter_mset P (mset (Instances (o_instances ords) (snd n)))) =
      size (filter_mset P (mset (map snd (ci_instances (snd n)))))" for P by simp
  then have "length (filter P (Instances (o_instances ords) (snd n))) = length (filter P (map snd (ci_instances (snd n))))" for P
    unfolding mset_filter [symmetric] size_mset .
  then show ?thesis unfolding node_count_def countInstancesMatchSelector_def by presburger
qed

lemma fold_tp_add_get:
  "tp_get (fold (\<lambda>c m. tp_add m (p c) (x c)) cs m) q = tp_get m q + sum_list (map (\<lambda>c. if p c = q then x c else 0) cs)"
  by (induction cs arbitrary: m) (auto simp: tp_get_add)

lemma tp_add_keys: "fst ` set (tp_add m p n) = insert p (fst ` set m)"
  by (simp add: tp_add_def update_conv' flip: dom_map_of_conv_image_fst)

lemma fold_tp_add_dom:
  "fst ` set (fold (\<lambda>c m. tp_add m (p c) (x c)) cs m) = fst ` set m \<union> p ` set cs"
  by (induction cs arbitrary: m) (simp_all add: tp_add_keys)

lemma fold_tp_add_distinct:
  "distinct (map fst m) \<Longrightarrow> distinct (map fst (fold (\<lambda>c m. tp_add m (p c) (x c)) cs m))"
  by (induction cs arbitrary: m) (auto simp: tp_add_def distinct_update)

lemma nested_fold_get:
  "tp_get (fold (\<lambda>n m. fold (\<lambda>c m. tp_add m (p n c) (x n c)) cs m) ns m) q =
   tp_get m q + sum_list (map (\<lambda>n. sum_list (map (\<lambda>c. if p n c = q then x n c else 0) cs)) ns)"
  by (induction ns arbitrary: m) (auto simp: fold_tp_add_get)

lemma nested_fold_dom:
  "fst ` set (fold (\<lambda>n m. fold (\<lambda>c m. tp_add m (p n c) (x n c)) cs m) ns m) = fst ` set m \<union> (\<Union>n\<in>set ns. p n ` set cs)"
  by (induction ns arbitrary: m) (auto simp: fold_tp_add_dom)

lemma nested_fold_distinct:
  "distinct (map fst m) \<Longrightarrow> distinct (map fst (fold (\<lambda>n m. fold (\<lambda>c m. tp_add m (p n c) (x n c)) cs m) ns m))"
  by (induction ns arbitrary: m) (auto simp: fold_tp_add_distinct)

lemma sum_list_single:
  assumes "distinct (map f cs)" "c \<in> set cs"
  shows "sum_list (map (\<lambda>d. if f d = f c \<and> P d then x d else 0) cs) = (if P c then x c else (0::int))"
  using assms
proof (induction cs)
  case (Cons d cs)
  show ?case
  proof (cases "d = c")
    case True
    have "map (\<lambda>d. if f d = f c \<and> P d then x d else 0) cs = map (\<lambda>_. 0) cs"
      using Cons.prems(1) True by (intro map_cong) (auto simp: image_iff)
    then show ?thesis using True by (simp add: map_replicate_const sum_list_replicate)
  next
    case False
    then have "c \<in> set cs" "f d \<noteq> f c" using Cons.prems by auto
    then show ?thesis using Cons by simp
  qed
qed simp

lemma sum_list_filter: "sum_list (map f (filter P xs)) = sum_list (map (\<lambda>x. if P x then f x else (0::int)) xs)"
  by (induction xs) auto

lemma topology_counts_get:
  assumes "orders_ok ords" "distinct (map t_TopologyKey constraints)" "c \<in> set constraints"
  shows "tp_get (topology_counts A ords ns constraints tpNodes) (t_TopologyKey c, v) = domain_count A ns c tpNodes v"
proof -
  have "sum_list (map (\<lambda>d. if (t_TopologyKey d, label_of (node_labels n) (t_TopologyKey d)) = (t_TopologyKey c, v)
        then node_count A ns d n else 0) constraints) =
      (if label_of (node_labels n) (t_TopologyKey c) = v then node_count A ns c n else 0)" for n
    using sum_list_single [OF assms(2,3), of "\<lambda>d. label_of (node_labels n) (t_TopologyKey d) = v" "\<lambda>d. node_count A ns d n"]
    by simp
  then show ?thesis
    unfolding topology_counts_def count_order [OF assms(1)] nested_fold_get
    by (simp add: domain_count_def sum_list_filter tp_get_def)
qed

lemma topology_counts_entries:
  assumes "orders_ok ords" "distinct (map t_TopologyKey constraints)"
  shows "((k, v), n) \<in> set (topology_counts A ords ns constraints tpNodes) \<longleftrightarrow>
    (\<exists>m\<in>set tpNodes. \<exists>c\<in>set constraints. k = t_TopologyKey c \<and> v = label_of (node_labels m) k \<and> n = domain_count A ns c tpNodes v)"
    (is "?l \<longleftrightarrow> ?r")
proof -
  let ?m = "topology_counts A ords ns constraints tpNodes"
  have d: "distinct (map fst ?m)" unfolding topology_counts_def by (rule nested_fold_distinct) simp
  have dom: "(k, v) \<in> fst ` set ?m \<longleftrightarrow> (\<exists>m\<in>set tpNodes. \<exists>c\<in>set constraints. k = t_TopologyKey c \<and> v = label_of (node_labels m) k)"
    unfolding topology_counts_def nested_fold_dom by auto
  have get: "tp_get ?m (t_TopologyKey c, v) = domain_count A ns c tpNodes v" if "c \<in> set constraints" for c
    using topology_counts_get [OF assms that] .
  show ?thesis
  proof
    assume l: ?l
    then have "(k, v) \<in> fst ` set ?m" by force
    then obtain m c where c: "m \<in> set tpNodes" "c \<in> set constraints" "k = t_TopologyKey c" "v = label_of (node_labels m) k"
      using dom by blast
    have "map_of ?m (k, v) = Some n" using l d by simp
    then have "n = tp_get ?m (k, v)" by (simp add: tp_get_def)
    then show ?r using c get by blast
  next
    assume ?r
    then obtain m c where c: "m \<in> set tpNodes" "c \<in> set constraints" "k = t_TopologyKey c" "v = label_of (node_labels m) k"
      "n = domain_count A ns c tpNodes v" by blast
    then have "(k, v) \<in> fst ` set ?m" using dom by blast
    then obtain x where x: "((k, v), x) \<in> set ?m" by force
    then have "x = tp_get ?m (k, v)" using d by (simp add: tp_get_def)
    then show ?l using x c get by simp
  qed
qed

text \<open>The critical path of a key has the smallest count of the key.\<close>

lemma critical_paths_min:
  fixes m ps
  defines "X \<equiv> \<lambda>m ps key. {n. (\<exists>v. ((key, v), n) \<in> set ps) \<or> (\<exists>v. map_of m key = Some (v, n))}"
  shows "(case map_of (critical_paths ps m) key of
      None \<Rightarrow> X m ps key = {} | Some (_, n) \<Rightarrow> n \<in> X m ps key \<and> (\<forall>x\<in>X m ps key. n \<le> x))"
proof (induction ps arbitrary: m)
  case Nil
  then show ?case by (auto simp: X_def split: option.split)
next
  case (Cons p ps)
  obtain k v n where p: "p = ((k, v), n)" by (metis surj_pair)
  show ?case
  proof (cases "\<exists>w cur. map_of m k = Some (w, cur) \<and> cur < n")
    case True
    then obtain w cur where cur: "map_of m k = Some (w, cur)" "cur < n" by blast
    have "critical_paths (p # ps) m = critical_paths ps m" using p cur by simp
    moreover have "X m (p # ps) key = X m ps key \<union> (if key = k then {n} else {})" using p by (auto simp: X_def)
    moreover have "cur \<in> X m ps k" using cur by (auto simp: X_def)
    ultimately show ?thesis using Cons.IH [of m] cur(2) by (auto split: option.splits if_splits)
  next
    case False
    let ?m = "AList.update k (v, n) m"
    have e: "critical_paths (p # ps) m = critical_paths ps ?m" using p False by (auto split: option.split)
    have sub: "X m (p # ps) key = X ?m ps key \<union> (if key = k then {x. \<exists>w. map_of m k = Some (w, x)} else {})"
      using p by (auto simp: X_def update_conv' split: if_splits)
    have "n \<in> X ?m ps k" by (simp add: X_def update_conv')
    moreover have "n \<le> x" if "map_of m k = Some (w, x)" for w x using False that by auto
    ultimately show ?thesis using Cons.IH [of ?m] unfolding e sub by (force split: option.splits if_splits)
  qed
qed

lemma for_each_append:
  "for_each xs (\<lambda>x res. case f x of Inl e \<Rightarrow> Inl e | Inr c \<Rightarrow> Inr (res @ [c])) acc = Inr cs \<longleftrightarrow>
   (\<exists>ds. cs = acc @ ds \<and> list_all2 (\<lambda>x d. f x = Inr d) xs ds)"
  by (induction xs arbitrary: acc) (auto simp: list_all2_Cons1 split: sum.splits)

lemma build_keys:
  assumes "buildTopologySpreadConstraints A cs = Inr constraints"
  shows "map t_TopologyKey constraints = map tsc_TopologyKey cs"
proof -
  have "list_all2 (\<lambda>x d. buildTopologySpreadConstraint A x = Inr d) cs constraints"
    using assms by (simp add: buildTopologySpreadConstraints_def for_each_append)
  then show ?thesis
    by (induction rule: list_all2_induct) (auto simp: buildTopologySpreadConstraint_def split: sum.splits)
qed

lemma skew_ok_iff:
  assumes o: "orders_ok ords" and d: "distinct (map t_TopologyKey constraints)" and c: "c \<in> set constraints"
    and n: "n \<in> set tpNodes"
  shows "skew_ok A inst (topology_counts A ords ns constraints tpNodes)
      (critical_paths (o_pairs ords (topology_counts A ords ns constraints tpNodes)) []) n c \<longleftrightarrow>
    (\<forall>m\<in>set tpNodes. domain_count A ns c tpNodes (label_of (node_labels n) (t_TopologyKey c))
       + (if sa_Matches A (t_Selector c) (om_Labels (inst_Meta inst)) then 1 else 0)
       - domain_count A ns c tpNodes (label_of (node_labels m) (t_TopologyKey c)) \<le> t_MaxSkew c)"
proof -
  let ?m = "topology_counts A ords ns constraints tpNodes" and ?k = "t_TopologyKey c"
  let ?dc = "\<lambda>m. domain_count A ns c tpNodes (label_of (node_labels m) ?k)"
  have ps: "set (o_pairs ords ?m) = set ?m" using o unfolding orders_ok_def by (metis set_mset_mset)
  have e: "{x. \<exists>v. ((?k, v), x) \<in> set ?m} = ?dc ` set tpNodes"
  proof -
    have "d = c" if "d \<in> set constraints" "t_TopologyKey c = t_TopologyKey d" for d
      using d c that by (metis distinct_map inj_on_eq_iff)
    then show ?thesis using c by (auto simp: topology_counts_entries [OF o d])
  qed
  then have e': "{x. (\<exists>v. ((?k, v), x) \<in> set ?m) \<or> (\<exists>v. map_of ([] :: (string \<times> string \<times> int) list) ?k = Some (v, x))} = ?dc ` set tpNodes"
    by simp
  have "(case map_of (critical_paths (o_pairs ords ?m) []) ?k of
      None \<Rightarrow> ?dc ` set tpNodes = {} | Some (_, x) \<Rightarrow> x \<in> ?dc ` set tpNodes \<and> (\<forall>y\<in>?dc ` set tpNodes. x \<le> y))"
    using critical_paths_min [where ps = "o_pairs ords ?m" and m = "[]" and key = ?k] unfolding ps e' .
  then obtain v x where x: "map_of (critical_paths (o_pairs ords ?m) []) ?k = Some (v, x)"
    "x \<in> ?dc ` set tpNodes" "\<forall>y\<in>?dc ` set tpNodes. x \<le> y" using n by (auto split: option.splits)
  show ?thesis
    unfolding skew_ok_def Let_def x(1) topology_counts_get [OF o d c] option.case prod.case not_less
    using x(2,3) by fastforce
qed

lemma filter_topology:
  assumes o: "orders_ok ords" and r: "filterNodesByTopology A ords inst nodes = Inr res"
    and d: "\<And>cs. is_TopologySpreadConstraints (inst_Spec inst) = Some cs \<Longrightarrow> distinct (map tsc_TopologyKey cs)"
  shows "case is_TopologySpreadConstraints (inst_Spec inst) of
      None \<Rightarrow> res = nodes
    | Some cs \<Rightarrow> \<exists>constraints. buildTopologySpreadConstraints A cs = Inr constraints \<and>
        res = filter (spread_ok A inst constraints nodes) nodes"
proof (cases "is_TopologySpreadConstraints (inst_Spec inst)")
  case None
  then show ?thesis using r by (simp add: filterNodesByTopology_def)
next
  case (Some cs)
  then obtain constraints where b: "buildTopologySpreadConstraints A cs = Inr constraints"
    using r by (auto simp: filterNodesByTopology_def split: sum.splits)
  let ?tp = "filter (\<lambda>n. nodeLabelsMatchSpreadConstraints (node_labels n) constraints) nodes"
  let ?ns = "om_Namespace (inst_Meta inst)"
  have dist: "distinct (map t_TopologyKey constraints)" using build_keys [OF b] d [OF Some] by simp
  have "res = filter (\<lambda>n. list_all (skew_ok A inst (topology_counts A ords ?ns constraints ?tp)
      (critical_paths (o_pairs ords (topology_counts A ords ?ns constraints ?tp)) []) n) constraints) ?tp"
    using r Some b by (simp add: filterNodesByTopology_def Let_def)
  also have "\<dots> = filter (spread_ok A inst constraints nodes) ?tp"
    by (rule filter_cong) (auto simp: list_all_iff skew_ok_iff [OF o dist] spread_ok_def Let_def)
  also have "\<dots> = filter (spread_ok A inst constraints nodes) nodes"
    unfolding filter_filter by (rule filter_cong) (auto simp: spread_ok_def Let_def)
  finally show ?thesis using Some b by simp
qed

section \<open>The nodes an instance may run on\<close>

definition spread_of ::
  "('q, 'l, 'f) selector_api \<Rightarrow> Instance \<Rightarrow> snode list \<Rightarrow> snode \<Rightarrow> bool" where
  "spread_of A inst nodes n \<longleftrightarrow>
     (case is_TopologySpreadConstraints (inst_Spec inst) of
        None \<Rightarrow> True
      | Some cs \<Rightarrow> (case buildTopologySpreadConstraints A cs of
            Inl _ \<Rightarrow> False | Inr constraints \<Rightarrow> spread_ok A inst constraints nodes n))"

definition selected :: "('q, 'l, 'f) selector_api \<Rightarrow> ('q \<Rightarrow> labels \<Rightarrow> bool) \<Rightarrow> Instance \<Rightarrow> snode \<Rightarrow> bool" where
  "selected A holds inst n \<longleftrightarrow> (case ci_node (snd n) of None \<Rightarrow> False | Some node \<Rightarrow> node_selected A holds inst node)"

definition feasible ::
  "('q, 'l, 'f) selector_api \<Rightarrow> ('q \<Rightarrow> labels \<Rightarrow> bool) \<Rightarrow> Instance \<Rightarrow> snode list \<Rightarrow> snode \<Rightarrow> bool" where
  "feasible A holds inst nodes n \<longleftrightarrow> selected A holds inst n \<and> anti_affine A inst nodes n \<and> spread_of A inst nodes n"

text \<open>The nodes of a snapshot have a node object with a name.\<close>

definition named :: "snode \<Rightarrow> bool" where
  "named n \<longleftrightarrow> (\<exists>node. ci_node (snd n) = Some node \<and> om_Name (node_Meta node) = fst n \<and> fst n \<noteq> [])"

lemma filter_affinity:
  assumes A: "selectors A holds" and n: "\<forall>n\<in>set nodes. named n"
  shows "filterNodesByAffinity A inst nodes = Inr (filter (selected A holds inst) nodes)"
proof (cases "case is_Affinity (inst_Spec inst) of None \<Rightarrow> True | Some a \<Rightarrow> aff_NodeAffinity a = None")
  case True
  then have "required_terms inst = None" by (simp add: required_terms_def split: option.splits)
  then have "\<forall>n\<in>set nodes. selected A holds inst n" using n by (auto simp: selected_def named_def node_selected_def)
  then show ?thesis using True by (simp add: filterNodesByAffinity_def filter_id_conv)
next
  case False
  have "(let (ok, err) = affinity_Match A (GetRequiredNodeAffinity A inst) (ci_node (snd n)) in err = None \<and> ok) \<longleftrightarrow> selected A holds inst n"
    if m: "n \<in> set nodes" for n
  proof -
    obtain node where node: "ci_node (snd n) = Some node" "om_Name (node_Meta node) \<noteq> []" using assms(2) m by (auto simp: named_def)
    show ?thesis
      using selectors.affinity_Match_spec [OF A node(2), of inst] node(1) by (auto simp: selected_def Let_def split: prod.split)
  qed
  then have "filter (\<lambda>n. let (ok, err) = affinity_Match A (GetRequiredNodeAffinity A inst) (ci_node (snd n)) in err = None \<and> ok) nodes =
      filter (selected A holds inst) nodes" by (intro filter_cong) auto
  then show ?thesis using False by (simp add: filterNodesByAffinity_def)
qed

lemma filter_topology_spread:
  assumes o: "orders_ok ords" and r: "filterNodesByTopology A ords inst nodes = Inr res"
    and d: "\<And>cs. is_TopologySpreadConstraints (inst_Spec inst) = Some cs \<Longrightarrow> distinct (map tsc_TopologyKey cs)"
  shows "res = filter (spread_of A inst nodes) nodes"
  using filter_topology [OF assms]
  by (cases "is_TopologySpreadConstraints (inst_Spec inst)") (auto simp: spread_of_def filter_id_conv intro: filter_cong)

lemma getNodesForInstance_feasible:
  assumes A: "selectors A holds" and o: "orders_ok ords" and n: "\<forall>n\<in>set nodes. named n"
    and d: "\<And>cs. is_TopologySpreadConstraints (inst_Spec inst) = Some cs \<Longrightarrow> distinct (map tsc_TopologyKey cs)"
    and r: "getNodesForInstance A ords nodes inst = Inr res"
  shows "set res = {n \<in> set nodes. feasible A holds inst nodes n}"
proof -
  let ?m1 = "filter (\<lambda>n. n \<in> set (filter (selected A holds inst) nodes)) (remdups nodes)"
  have m1: "set ?m1 = {n \<in> set nodes. selected A holds inst n}" by auto
  obtain m where m: "apply_filters [filterNodesByAffinity A inst, filterNodesByInstanceAntiAffinity A ords inst, filterNodesByTopology A ords inst]
      nodes (remdups nodes) = Inr m" "res = (if m = [] then [] else o_set ords m)"
    using r by (auto simp: getNodesForInstance_def split: sum.splits)
  have "set m = {n \<in> set nodes. feasible A holds inst nodes n}"
  proof (cases "?m1 = []")
    case True
    then have "m = []" using m(1) by (simp add: filter_affinity [OF A n] Let_def)
    moreover have "{n \<in> set nodes. selected A holds inst n} = {}" unfolding m1 [symmetric] True by simp
    ultimately show ?thesis by (auto simp: feasible_def)
  next
    case False
    then have s1: "apply_filters [filterNodesByInstanceAntiAffinity A ords inst, filterNodesByTopology A ords inst] nodes ?m1 = Inr m"
      using m(1) by (simp add: filter_affinity [OF A n] Let_def)
    then obtain res2 where r2: "filterNodesByInstanceAntiAffinity A ords inst nodes = Inr res2" by (auto split: sum.splits)
    let ?m2 = "filter (\<lambda>n. n \<in> set res2) ?m1"
    have m2: "set ?m2 = {n \<in> set nodes. selected A holds inst n \<and> anti_affine A inst nodes n}"
      using m1 filter_anti_affinity [OF o r2] by auto
    show ?thesis
    proof (cases "?m2 = []")
      case True
      then have "m = []" using s1 r2 by (simp add: Let_def)
      moreover have "{n \<in> set nodes. selected A holds inst n \<and> anti_affine A inst nodes n} = {}" unfolding m2 [symmetric] True by simp
      ultimately show ?thesis by (auto simp: feasible_def)
    next
      case False
      then have s2: "apply_filters [filterNodesByTopology A ords inst] nodes ?m2 = Inr m" using s1 r2 by (simp add: Let_def)
      then obtain res3 where r3: "filterNodesByTopology A ords inst nodes = Inr res3" by (auto split: sum.splits)
      have "m = filter (\<lambda>n. n \<in> set res3) ?m2" using s2 r3 by (auto simp: Let_def split: if_splits)
      then show ?thesis using m2 filter_topology_spread [OF o r3 d] by (auto simp: feasible_def)
    qed
  qed
  moreover have "set (o_set ords m) = set m" using o unfolding orders_ok_def by (metis set_mset_mset)
  ultimately show ?thesis using m(2) by auto
qed

lemma min_used_spec:
  "min_used n ns \<in> set (n # ns) \<and> (\<forall>m\<in>set (n # ns). NumInstances (snd (min_used n ns)) \<le> NumInstances (snd m))"
proof (induction ns arbitrary: n)
  case (Cons m ns)
  show ?case using Cons [of n] Cons [of m] by (cases "NumInstances (snd m) < NumInstances (snd n)") auto
qed simp

lemma snapshot_set: "orders_ok ords \<Longrightarrow> set (snapshot_Update (o_nodes ords) c) = {n \<in> set (c_nodes c). ci_node (snd n) \<noteq> None}"
proof -
  assume "orders_ok ords"
  then have "set (o_nodes ords (c_nodes c)) = set (c_nodes c)" unfolding orders_ok_def by (metis set_mset_mset)
  then show ?thesis by (auto simp: snapshot_Update_def)
qed

lemma AssumeInstance_default:
  assumes ok: "cache_ok DefaultCacheStrategy c" and n: "is_NodeRef (inst_Spec i) = Some n"
  obtains (refused) e where "AssumeInstance DefaultCacheStrategy c i = Returns (c, Some e)"
  | (assumed) c' where "AssumeInstance DefaultCacheStrategy c i = Returns (c', None)"
      "cache_view c' = (cache_view c)(om_UID (inst_Meta i) \<mapsto> (i, True, False))"
proof (cases "AssumeInstance DefaultCacheStrategy c i")
  case (Returns r)
  obtain c' e where r: "r = (c', e)" by fastforce
  show thesis
  proof (cases e)
    case None
    then have a: "AssumeInstance DefaultCacheStrategy c i = Returns (c', None)" using Returns r by simp
    have k: "cs_Key DefaultCacheStrategy i = Inr (om_UID (inst_Meta i))" "map_of (instanceStates c) (om_UID (inst_Meta i)) = None"
      using a by (auto simp: AssumeInstance_def DefaultCacheStrategy_def split: if_splits)
    have "cache_view c' = view_step DefaultCacheStrategy (cache_view c) (OpAssume i)" using AssumeInstance_ok [OF ok a] by simp
    then show thesis using assumed [OF a] k by (simp add: cache_view_None)
  next
    case (Some err)
    then have "c' = c" using Returns r by (auto simp: AssumeInstance_def split: sum.splits if_splits outcome.splits)
    then show thesis using refused Returns r Some by simp
  qed
next
  case Panics
  then show thesis using n addInstance_Panics [of DefaultCacheStrategy i]
    by (auto simp: AssumeInstance_def DefaultCacheStrategy_def split: sum.splits if_splits outcome.splits)
qed

lemma snapshot_named:
  assumes "orders_ok ords" "cache_ok S c" "[] \<notin> fst ` set (c_nodes c)"
  shows "\<forall>n\<in>set (snapshot_Update (o_nodes ords) c). named n"
proof
  fix n assume "n \<in> set (snapshot_Update (o_nodes ords) c)"
  then have n: "n \<in> set (c_nodes c)" "ci_node (snd n) \<noteq> None" using snapshot_set [OF assms(1)] by auto
  have d: "distinct (map fst (c_nodes c))" using assms(2) by (simp add: cache_ok_def nodes_ok_def)
  have "map_of (c_nodes c) (fst n) = Some (snd n)" using n(1) d by simp
  then have "entry_ok (fst n) (snd n)" using assms(2) by (simp add: cache_ok_def nodes_ok_def)
  moreover have "fst n \<noteq> []" using n(1) assms(3) by force
  ultimately show "named n" using n(2) by (auto simp: named_def entry_ok_def)
qed

abbreviation topology_keys :: "Instance \<Rightarrow> string list" where
  "topology_keys inst \<equiv> map tsc_TopologyKey (case is_TopologySpreadConstraints (inst_Spec inst) of None \<Rightarrow> [] | Some cs \<Rightarrow> cs)"

section \<open>Properties\<close>

text \<open>
  C5. Scheduling an instance never panics. If it places the instance, the node satisfies the node
  affinity, no instance in one of the node's topology domains excludes the new one or is excluded
  by it, the spread constraints keep their skew, and no other such node has fewer instances; the
  cache then holds the instance as assumed on that node. It reports that it is out of capacity
  only when no node qualifies, and leaves the cache alone then and when it fails. The topology
  keys of the constraints must be distinct.
\<close>

theorem scheduler_places_instance:
  assumes A: "selectors A holds" and o: "orders_ok ords" and c: "cache_reachable DefaultCacheStrategy c"
    and names: "[] \<notin> fst ` set (c_nodes c)" and d: "distinct (topology_keys inst)"
  shows "case reconcileExists A ords c inst of
      Panics \<Rightarrow> False
    | Returns (c', StartBinding inst') \<Rightarrow>
        (\<exists>n\<in>set (snapshot_Update (o_nodes ords) c).
           feasible A holds inst (snapshot_Update (o_nodes ords) c) n \<and>
           (\<forall>m\<in>set (snapshot_Update (o_nodes ords) c). feasible A holds inst (snapshot_Update (o_nodes ords) c) m \<longrightarrow>
              NumInstances (snd n) \<le> NumInstances (snd m)) \<and>
           inst' = set_NodeRef (Some (fst n)) inst \<and>
           cache_view c' = (cache_view c)(om_UID (inst_Meta inst) \<mapsto> (inst', True, False)))
    | Returns (c', OutOfCapacity) \<Rightarrow>
        c' = c \<and> (\<forall>n\<in>set (snapshot_Update (o_nodes ords) c). \<not> feasible A holds inst (snapshot_Update (o_nodes ords) c) n)
    | Returns (c', SchedError e) \<Rightarrow> c' = c
    | Returns (c', Skipped) \<Rightarrow> False"
proof -
  let ?nodes = "snapshot_Update (o_nodes ords) c"
  note ok = cache_reachable_ok [OF c]
  note nm = snapshot_named [OF o ok names]
  show ?thesis
  proof (cases "getNodesForInstance A ords ?nodes inst")
    case (Inl e)
    then show ?thesis by (simp add: reconcileExists_def)
  next
    case (Inr res)
    have dist: "distinct (map tsc_TopologyKey cs)" if "is_TopologySpreadConstraints (inst_Spec inst) = Some cs" for cs
      using d that by simp
    note f = getNodesForInstance_feasible [OF A o nm dist Inr]
    show ?thesis
    proof (cases res)
      case Nil
      then show ?thesis using Inr f by (auto simp: reconcileExists_def)
    next
      case (Cons x xs)
      let ?n = "min_used x xs"
      have n: "?n \<in> set res" "\<forall>m\<in>set res. NumInstances (snd ?n) \<le> NumInstances (snd m)"
        using min_used_spec [of x xs] Cons by simp_all
      then have n': "?n \<in> set ?nodes" "feasible A holds inst ?nodes ?n" using f by auto
      obtain node where node: "ci_node (snd ?n) = Some node" "om_Name (node_Meta node) = fst ?n"
        using nm n'(1) by (auto simp: named_def)
      let ?i = "set_NodeRef (Some (fst ?n)) inst"
      have "is_NodeRef (inst_Spec ?i) = Some (fst ?n)" by (simp add: set_NodeRef_def)
      from ok this show ?thesis
      proof (cases rule: AssumeInstance_default)
        case (refused e)
        then show ?thesis using Inr Cons node by (simp add: reconcileExists_def sched_assume_def)
      next
        case (assumed c')
        then have r: "reconcileExists A ords c inst = Returns (c', StartBinding ?i)"
          using Inr Cons node by (simp add: reconcileExists_def sched_assume_def)
        have v: "cache_view c' = (cache_view c)(om_UID (inst_Meta inst) \<mapsto> (?i, True, False))"
          using assumed(2) by (simp add: set_NodeRef_def)
        have min: "\<forall>m\<in>set ?nodes. feasible A holds inst ?nodes m \<longrightarrow> NumInstances (snd ?n) \<le> NumInstances (snd m)"
          using n(2) f by blast
        show ?thesis unfolding r outcome.case prod.case sched_result.case
          by (rule bexI [OF _ n'(1)]) (intro conjI n'(2) min refl v)
      qed
    qed
  qed
qed

text \<open>
  The binding of an assumed instance never panics. When the server refuses the patch, the
  instance is forgotten, so that it can be scheduled again; when it accepts it, the instance
  stays assumed with its binding finished, until it is added or expires.
\<close>

theorem binding_outcome:
  assumes c: "cache_reachable DefaultCacheStrategy c" and k: "cs_Key DefaultCacheStrategy i = Inr key"
    and a: "cache_view c key = Some (i, True, f)" and p: "k_patch K s i (set_NodeRef None i) False = (s', r)"
    and uid: "\<forall>y. r = Inr y \<longrightarrow> om_UID (inst_Meta y) = om_UID (inst_Meta i)"
  shows "\<exists>c'. binding_goroutine K s c i = Returns (s', c') \<and>
    cache_view c' = (case r of Inl _ \<Rightarrow> (cache_view c)(key := None) | Inr _ \<Rightarrow> (cache_view c)(key \<mapsto> (i, True, True)))"
proof -
  note ok = cache_reachable_ok [OF c]
  have key: "key = om_UID (inst_Meta i)" "om_UID (inst_Meta i) \<noteq> []"
    using k by (auto simp: DefaultCacheStrategy_def split: if_splits)
  have fin: "cache_ok DefaultCacheStrategy (fst (FinishBinding DefaultCacheStrategy c y)) \<and>
      cache_view (fst (FinishBinding DefaultCacheStrategy c y)) = (cache_view c)(key \<mapsto> (i, True, True))"
    if "om_UID (inst_Meta y) = om_UID (inst_Meta i)" for y
    using FinishBinding_ok [OF ok, of y] that key a
    by (cases "FinishBinding DefaultCacheStrategy c y") (simp add: DefaultCacheStrategy_def)
  show ?thesis
  proof (cases r)
    case (Inr y)
    then show ?thesis using p uid fin [of y] by (simp add: binding_goroutine_def bindingCycle_def sched_bind_def)
  next
    case (Inl e)
    let ?c = "fst (FinishBinding DefaultCacheStrategy c i)"
    have c1: "cache_ok DefaultCacheStrategy ?c" "cache_view ?c key = Some (i, True, True)" using fin [of i] by simp_all
    then have "returns (cs_ContainerKey DefaultCacheStrategy i)"
      using state_returns [OF c1(1), of key] by (auto simp: cache_view_def)
    then have "cache_run DefaultCacheStrategy ?c (OpForget i) \<noteq> Panics"
      using cache_run_panics [OF c1(1), of "OpForget i"] by simp
    then obtain c' e' where f': "ForgetInstance DefaultCacheStrategy ?c i = Returns (c', e')"
      by (cases "ForgetInstance DefaultCacheStrategy ?c i") auto
    have "cache_view c' = view_step DefaultCacheStrategy (cache_view ?c) (OpForget i)" using ForgetInstance_ok [OF c1(1) f'] by simp
    then have "cache_view c' = (cache_view c)(key := None)" using c1(2) k fin [of i] by simp
    then show ?thesis using p Inl f' by (simp add: binding_goroutine_def bindingCycle_def sched_bind_def)
  qed
qed

section \<open>Witnesses\<close>

definition list_orders :: map_orders where
  "list_orders = \<lparr>o_nodes = (\<lambda>xs. xs), o_instances = rev, o_pairs = rev, o_set = rev\<rparr>"

definition example_node_cache :: Cache where
  "example_node_cache = AddContainer NewCache (example_node ''n'' [(''zone'', ''a'')])"

definition example_affine_uid :: Instance where
  "example_affine_uid = example_affine\<lparr>inst_Meta := zero_meta\<lparr>om_Name := ''i'', om_UID := ''i''\<rparr>\<rparr>"

lemma example_node_cache_reachable: "cache_reachable DefaultCacheStrategy example_node_cache"
  by (rule cache_reachable.step [OF cache_reachable.start, of _ "OpAddContainer (example_node ''n'' [(''zone'', ''a'')])" _ None])
    (simp_all add: example_node_cache_def)

lemma example_placed:
  "\<exists>c'. reconcileExists plain_selectors list_orders example_node_cache example_affine_uid =
     Returns (c', StartBinding (set_NodeRef (Some ''n'') example_affine_uid))"
  by (simp add: reconcileExists_def getNodesForInstance_def snapshot_Update_def example_node_cache_def AddContainer_def
      NewCache_def example_node_def newNodeInfo_def list_orders_def filterNodesByAffinity_def GetRequiredNodeAffinity_def
      NewLazyErrorNodeSelector_def affinity_Match_def lazy_Match_def extractNodeFields_def term_match_def newNodeSelectorTerm_def
      nodeSelectorRequirementsAsSelector_def nodeSelectorRequirementsAsFieldSelector_def isEmptyNodeSelectorTerm_def
      example_affine_uid_def example_affine_def plain_selectors_def label_requirement_def fields_Get_def node_selector_op_def
      NodeSelectorOpIn_def NodeSelectorOpNotIn_def filterNodesByInstanceAntiAffinity_def getExistingAntiAffinityCounts_def
      getIncomingAntiAffinityCounts_def anti_affinity_terms_def Instances_def satisfyInstanceAntiAffinity_def
      satisfyExistingInstanceAntiAffinity_def filterNodesByTopology_def sched_assume_def AssumeInstance_def addInstance_def
      DefaultCacheStrategy_def set_NodeRef_def zero_meta_def Let_def)

theorem scheduler_places_instance_witness:
  "\<exists>c' n. reconcileExists plain_selectors list_orders example_node_cache example_affine_uid =
       Returns (c', StartBinding (set_NodeRef (Some (fst n)) example_affine_uid)) \<and>
     feasible plain_selectors label_requirement example_affine_uid (snapshot_Update (o_nodes list_orders) example_node_cache) n \<and>
     cache_view c' = (cache_view example_node_cache)(''i'' \<mapsto> (set_NodeRef (Some (fst n)) example_affine_uid, True, False))"
proof -
  obtain c' where r: "reconcileExists plain_selectors list_orders example_node_cache example_affine_uid =
     Returns (c', StartBinding (set_NodeRef (Some ''n'') example_affine_uid))" using example_placed by blast
  have o: "orders_ok list_orders" by (simp add: orders_ok_def list_orders_def)
  have n: "[] \<notin> fst ` set (c_nodes example_node_cache)" "distinct (topology_keys example_affine_uid)"
    by (simp_all add: example_node_cache_def AddContainer_def NewCache_def example_node_def example_affine_uid_def example_affine_def)
  have u: "om_UID (inst_Meta example_affine_uid) = ''i''" by (simp add: example_affine_uid_def)
  from scheduler_places_instance [OF plain.selectors_axioms o example_node_cache_reachable n, unfolded r outcome.case prod.case sched_result.case u]
  obtain n where "feasible plain_selectors label_requirement example_affine_uid (snapshot_Update (o_nodes list_orders) example_node_cache) n"
    "set_NodeRef (Some ''n'') example_affine_uid = set_NodeRef (Some (fst n)) example_affine_uid"
    "cache_view c' = (cache_view example_node_cache)(''i'' \<mapsto> (set_NodeRef (Some ''n'') example_affine_uid, True, False))"
    by blast
  then show ?thesis using r by (intro exI [of _ c'] exI [of _ n]) simp
qed

definition refusing_client :: "(unit, Instance) kclient" where
  "refusing_client = \<lparr>k_get = (\<lambda>s k. Inl NotFound), k_list = (\<lambda>s ns. Inr []), k_create = (\<lambda>s x. (s, Inl Conflict)),
     k_delete = (\<lambda>s k. (s, Some NotFound)), k_patch = (\<lambda>s x b l. (s, Inl Conflict)), k_statusPatch = (\<lambda>s x b. (s, Inl Conflict)),
     k_apply = (\<lambda>s x. (s, Inl Conflict))\<rparr>"

theorem binding_outcome_witness:
  "\<exists>c'. binding_goroutine refusing_client () example_cache (example_instance ''i'' ''n'') = Returns ((), c') \<and>
     cache_view c' = (cache_view example_cache)(''i'' := None)"
proof -
  have "cs_Key DefaultCacheStrategy (example_instance ''i'' ''n'') = Inr ''i''"
    "cache_view example_cache ''i'' = Some (example_instance ''i'' ''n'', True, False)"
    "k_patch refusing_client () (example_instance ''i'' ''n'') (set_NodeRef None (example_instance ''i'' ''n'')) False = ((), Inl Conflict)"
    by (simp_all add: DefaultCacheStrategy_def example_instance_def example_cache_def cache_view_def zero_meta_def refusing_client_def)
  from binding_outcome [OF example_cache_reachable this] show ?thesis by simp
qed

end
