(* ===== verification/Expectations.thy ===== *)
theory Expectations
  imports Kube "HOL-Library.Multiset"
begin

text \<open>
  Helpers of the controllers under \<open>utils/\<close>: the expectations a controller waits for before it
  acts again (\<open>utils/expectations/expectations.go\<close>), the handler that observes them
  (\<open>utils/handler/expectations.go\<close>), and the manager of controller references
  (\<open>utils/controller/refmanager.go\<close>). The clock and random draws are arguments.
\<close>

section \<open>expectations.go\<close>

record expectation =
  exp_timestamp :: int
  exp_delete :: "ObjectKey set"
  exp_create :: "ObjectKey set"

record Expectations =
  exp_timeout :: int
  exp_entries :: "ObjectKey \<rightharpoonup> expectation"

text \<open>The options of \<open>New\<close>: an options value or \<open>WithTimeout\<close>; times are in nanoseconds.\<close>

datatype NewOption = OptionsTimeout int | WithTimeout int

definition setNewOptionsDefaults :: "int \<Rightarrow> int" where
  "setNewOptionsDefaults timeout = (if timeout \<le> 0 then 300000000000 else timeout)"

fun ApplyToNew :: "NewOption \<Rightarrow> int \<Rightarrow> int" where
  "ApplyToNew (OptionsTimeout t) timeout = (if t > 0 then t else timeout)"
| "ApplyToNew (WithTimeout t) timeout = t"

definition ApplyOptions :: "NewOption list \<Rightarrow> int \<Rightarrow> int" where
  "ApplyOptions opts timeout = fold ApplyToNew opts timeout"

definition exp_New :: "NewOption list \<Rightarrow> Expectations" where
  "exp_New opts = \<lparr>exp_timeout = setNewOptionsDefaults (ApplyOptions opts 0), exp_entries = Map.empty\<rparr>"

definition exp_Delete :: "Expectations \<Rightarrow> ObjectKey \<Rightarrow> Expectations" where
  "exp_Delete e ctrlKey = e\<lparr>exp_entries := (exp_entries e)(ctrlKey := None)\<rparr>"

definition ExpectDeletions :: "int \<Rightarrow> Expectations \<Rightarrow> ObjectKey \<Rightarrow> ObjectKey list \<Rightarrow> Expectations" where
  "ExpectDeletions now e ctrlKey deletedKeys =
     e\<lparr>exp_entries := (exp_entries e)(ctrlKey \<mapsto> \<lparr>exp_timestamp = now, exp_delete = set deletedKeys, exp_create = {}\<rparr>)\<rparr>"

definition ExpectCreations :: "int \<Rightarrow> Expectations \<Rightarrow> ObjectKey \<Rightarrow> ObjectKey list \<Rightarrow> Expectations" where
  "ExpectCreations now e ctrlKey createdKeys =
     e\<lparr>exp_entries := (exp_entries e)(ctrlKey \<mapsto> \<lparr>exp_timestamp = now, exp_delete = {}, exp_create = set createdKeys\<rparr>)\<rparr>"

definition ExpectCreationsAndDeletions ::
  "int \<Rightarrow> Expectations \<Rightarrow> ObjectKey \<Rightarrow> ObjectKey list \<Rightarrow> ObjectKey list \<Rightarrow> Expectations" where
  "ExpectCreationsAndDeletions now e ctrlKey createdKeys deletedKeys =
     e\<lparr>exp_entries := (exp_entries e)(ctrlKey \<mapsto>
        \<lparr>exp_timestamp = now, exp_delete = set deletedKeys, exp_create = set createdKeys\<rparr>)\<rparr>"

definition CreationObserved :: "Expectations \<Rightarrow> ObjectKey \<Rightarrow> ObjectKey \<Rightarrow> Expectations" where
  "CreationObserved e ctrlKey createdKey =
     (case exp_entries e ctrlKey of
        None \<Rightarrow> e
      | Some x \<Rightarrow> e\<lparr>exp_entries := (exp_entries e)(ctrlKey \<mapsto> x\<lparr>exp_create := exp_create x - {createdKey}\<rparr>)\<rparr>)"

definition DeletionObserved :: "Expectations \<Rightarrow> ObjectKey \<Rightarrow> ObjectKey \<Rightarrow> Expectations" where
  "DeletionObserved e ctrlKey deletedKey =
     (case exp_entries e ctrlKey of
        None \<Rightarrow> e
      | Some x \<Rightarrow> e\<lparr>exp_entries := (exp_entries e)(ctrlKey \<mapsto> x\<lparr>exp_delete := exp_delete x - {deletedKey}\<rparr>)\<rparr>)"

definition Satisfied :: "int \<Rightarrow> Expectations \<Rightarrow> ObjectKey \<Rightarrow> bool" where
  "Satisfied now e ctrlKey =
     (case exp_entries e ctrlKey of
        None \<Rightarrow> True
      | Some x \<Rightarrow>
          if now - exp_timestamp x > exp_timeout e then True
          else if exp_create x = {} \<and> exp_delete x = {} then True
          else False)"

definition maxGenerateNamePrefixLength :: nat where
  "maxGenerateNamePrefixLength = 63 - 10 - 1"

definition name_prefix :: "string \<Rightarrow> string" where
  "name_prefix name =
     (if length name > maxGenerateNamePrefixLength then take maxGenerateNamePrefixLength name else name) @ ''-''"

text \<open>
  The loop that collects distinct names. \<open>draws\<close> are the values \<open>rand.String\<close> returns one after
  the other; the loop is still running when they are used up. The names are listed in the order
  \<open>ord\<close> of the set.
\<close>

fun name_loop :: "string \<Rightarrow> nat \<Rightarrow> string list \<Rightarrow> string list \<Rightarrow> string list option" where
  "name_loop prefix ct names draws =
     (if \<not> length names < ct then Some names
      else case draws of
        [] \<Rightarrow> None
      | r # rs \<Rightarrow> name_loop prefix ct (List.insert (prefix @ r) names) rs)"

declare name_loop.simps [simp del]

definition GenerateCreateNames ::
  "(string list \<Rightarrow> string list) \<Rightarrow> string list \<Rightarrow> string \<Rightarrow> nat \<Rightarrow> string list option" where
  "GenerateCreateNames ord draws name ct = map_option ord (name_loop (name_prefix name) ct [] draws)"

definition ObjectKeysFromNames :: "string \<Rightarrow> string list \<Rightarrow> ObjectKey list" where
  "ObjectKeysFromNames namespace names = map (\<lambda>name. \<lparr>key_Namespace = namespace, key_Name = name\<rparr>) names"

definition ObjectKeysFromObjectStructSlice :: "('o \<Rightarrow> ObjectMeta) \<Rightarrow> 'o list \<Rightarrow> ObjectKey list" where
  "ObjectKeysFromObjectStructSlice meta objs = map (\<lambda>obj. meta_key (meta obj)) objs"

section \<open>handler/expectations.go\<close>

text \<open>
  The mapper and the parser of API versions belong to \<open>apimachinery\<close>: \<open>parseGV\<close> splits an API
  version into group and version, \<open>rootScoped\<close> looks up whether the controller's kind is cluster
  scoped.
\<close>

record observer =
  ob_Kind :: string
  ob_Group :: string
  ob_parseGV :: "string \<Rightarrow> (string \<times> string) result"
  ob_rootScoped :: "string \<Rightarrow> bool result"

definition getControllerKey :: "observer \<Rightarrow> ObjectMeta \<Rightarrow> ObjectKey option result" where
  "getControllerKey O' object =
     (case GetControllerOf object of
        None \<Rightarrow> Inr None
      | Some ctrl \<Rightarrow>
          (case ob_parseGV O' (or_APIVersion ctrl) of
             Inl err \<Rightarrow> Inl (Wrapped ''error parsing controller APIVersion'' err)
           | Inr (grp, version) \<Rightarrow>
               if or_Kind ctrl \<noteq> ob_Kind O' \<or> grp \<noteq> ob_Group O' then Inr None
               else (case ob_rootScoped O' version of
                       Inl err \<Rightarrow> Inl (Wrapped ''error retrieving rest mapping'' err)
                     | Inr root \<Rightarrow> Inr (Some \<lparr>key_Namespace = (if root then [] else om_Namespace object), key_Name = or_Name ctrl\<rparr>))))"

definition observer_delete :: "observer \<Rightarrow> Expectations \<Rightarrow> ObjectMeta \<Rightarrow> Expectations" where
  "observer_delete O' e obj =
     (case getControllerKey O' obj of
        Inl _ \<Rightarrow> e
      | Inr None \<Rightarrow> e
      | Inr (Some ctrlKey) \<Rightarrow> DeletionObserved e ctrlKey (meta_key obj))"

definition observer_add :: "observer \<Rightarrow> Expectations \<Rightarrow> ObjectMeta \<Rightarrow> Expectations" where
  "observer_add O' e obj =
     (if om_DeletionTimestamp obj \<noteq> None then observer_delete O' e obj
      else case getControllerKey O' obj of
        Inl _ \<Rightarrow> e
      | Inr None \<Rightarrow> e
      | Inr (Some ctrlKey) \<Rightarrow> CreationObserved e ctrlKey (meta_key obj))"

section \<open>refmanager.go\<close>

text \<open>
  The manager for one controller. \<open>gvk\<close> is the API version and kind the scheme has for it;
  \<open>meta\<close> and \<open>setOwners\<close> read and write the metadata of the objects it claims. The object is
  changed in place, also when the patch fails; a successful patch returns the stored object.
\<close>

record ('s, 'o) RefManager =
  rm_client :: "('s, 'o) kclient"
  rm_controller :: ObjectMeta
  rm_match :: "'o \<Rightarrow> bool"
  rm_gvk :: "(string \<times> string) result"
  rm_meta :: "'o \<Rightarrow> ObjectMeta"
  rm_setOwners :: "OwnerReference list \<Rightarrow> 'o \<Rightarrow> 'o"

definition rm_patch :: "('s, 'o) RefManager \<Rightarrow> 's \<Rightarrow> 'o \<Rightarrow> 'o \<Rightarrow> 's \<times> 'o \<times> go_error option" where
  "rm_patch R s obj base =
     (case k_patch (rm_client R) s obj base False of
        (s', Inl err) \<Rightarrow> (s', obj, Some err)
      | (s', Inr y) \<Rightarrow> (s', y, None))"

definition rm_adopt :: "('s, 'o) RefManager \<Rightarrow> 's \<Rightarrow> 'o \<Rightarrow> 's \<times> 'o \<times> go_error option" where
  "rm_adopt R s obj =
     (case rm_gvk R of
        Inl err \<Rightarrow> (s, obj, Some err)
      | Inr (apiVersion, kind) \<Rightarrow>
          rm_patch R s (rm_setOwners R (om_OwnerReferences (rm_meta R obj) @
            [\<lparr>or_APIVersion = apiVersion, or_Kind = kind, or_Name = om_Name (rm_controller R),
              or_UID = om_UID (rm_controller R), or_Controller = Some True, or_BlockOwnerDeletion = Some True\<rparr>]) obj) obj)"

definition rm_release :: "('s, 'o) RefManager \<Rightarrow> 's \<Rightarrow> 'o \<Rightarrow> 's \<times> 'o \<times> go_error option" where
  "rm_release R s obj =
     rm_patch R s (rm_setOwners R (filter (\<lambda>r. or_UID r \<noteq> om_UID (rm_controller R)) (om_OwnerReferences (rm_meta R obj))) obj) obj"

definition ClaimObject :: "('s, 'o) RefManager \<Rightarrow> 's \<Rightarrow> 'o \<Rightarrow> 's \<times> 'o \<times> bool result" where
  "ClaimObject R s obj =
     (case GetControllerOf (rm_meta R obj) of
        Some controllerRef \<Rightarrow>
          if or_UID controllerRef \<noteq> om_UID (rm_controller R) then (s, obj, Inr False)
          else if rm_match R obj then (s, obj, Inr True)
          else if om_DeletionTimestamp (rm_controller R) \<noteq> None then (s, obj, Inr False)
          else (case rm_release R s obj of
                  (s', obj', Some err) \<Rightarrow> if \<not> IsNotFound err then (s', obj', Inl err) else (s', obj', Inr False)
                | (s', obj', None) \<Rightarrow> (s', obj', Inr False))
      | None \<Rightarrow>
          if om_DeletionTimestamp (rm_controller R) \<noteq> None \<or> \<not> rm_match R obj then (s, obj, Inr False)
          else if om_DeletionTimestamp (rm_meta R obj) \<noteq> None then (s, obj, Inr False)
          else (case rm_adopt R s obj of
                  (s', obj', Some err) \<Rightarrow> if \<not> IsNotFound err then (s', obj', Inl err) else (s', obj', Inr False)
                | (s', obj', None) \<Rightarrow> (s', obj', Inr True)))"

section \<open>Observing expectations\<close>

datatype observation = Created ObjectKey ObjectKey | Deleted ObjectKey ObjectKey

fun observe :: "observation \<Rightarrow> Expectations \<Rightarrow> Expectations" where
  "observe (Created ctrl k) e = CreationObserved e ctrl k"
| "observe (Deleted ctrl k) e = DeletionObserved e ctrl k"

lemma observe_entry:
  "exp_entries (fold observe evs e) ctrl =
   map_option (\<lambda>x. x\<lparr>exp_create := exp_create x - {k. Created ctrl k \<in> set evs}, exp_delete := exp_delete x - {k. Deleted ctrl k \<in> set evs}\<rparr>)
     (exp_entries e ctrl)"
proof (induction evs arbitrary: e)
  case (Cons ev evs)
  have "exp_entries (observe ev e) ctrl =
    map_option (\<lambda>x. x\<lparr>exp_create := exp_create x - {k. Created ctrl k = ev}, exp_delete := exp_delete x - {k. Deleted ctrl k = ev}\<rparr>)
      (exp_entries e ctrl)"
    by (cases ev; cases "exp_entries e ctrl")
      (auto simp: CreationObserved_def DeletionObserved_def split: option.split intro!: expectation.equality)
  then show ?case using Cons [of "observe ev e"]
    by (auto simp: option.map_comp comp_def intro!: option.map_cong expectation.equality)
qed (auto simp: option.map_ident)

lemma observe_timeout: "exp_timeout (fold observe evs e) = exp_timeout e"
proof (induction evs arbitrary: e)
  case (Cons ev evs)
  have "exp_timeout (observe ev e) = exp_timeout e"
    by (cases ev) (auto simp: CreationObserved_def DeletionObserved_def split: option.split)
  then show ?case using Cons by simp
qed simp

section \<open>Names\<close>

lemma name_loop_ok:
  assumes "name_loop prefix ct names draws = Some res" "distinct names" "length names \<le> ct" "\<forall>n\<in>set names. \<exists>r\<in>set drawn. n = prefix @ r"
  shows "distinct res \<and> length res = ct \<and> (\<forall>n\<in>set res. \<exists>r\<in>set drawn \<union> set draws. n = prefix @ r)"
  using assms
proof (induction draws arbitrary: names drawn)
  case Nil
  then show ?case by (auto simp: name_loop.simps [of _ _ _ "[]"] split: if_splits)
next
  case (Cons r rs)
  show ?case
  proof (cases "length names < ct")
    case True
    then have "name_loop prefix ct (List.insert (prefix @ r) names) rs = Some res"
      using Cons.prems(1) by (simp add: name_loop.simps [of _ _ _ "r # rs"])
    moreover have "length (List.insert (prefix @ r) names) \<le> ct" using True by (simp add: List.insert_def)
    ultimately show ?thesis using Cons.IH [of "List.insert (prefix @ r) names" "r # drawn"] Cons.prems(2,4) by auto
  next
    case False
    then show ?thesis using Cons.prems by (simp add: name_loop.simps [of _ _ _ "r # rs"]) blast
  qed
qed

lemma name_loop_total:
  assumes "ct \<le> card (set names \<union> (\<lambda>r. prefix @ r) ` set draws)" "distinct names"
  shows "\<exists>res. name_loop prefix ct names draws = Some res"
  using assms
proof (induction draws arbitrary: names)
  case Nil
  then show ?case by (simp add: name_loop.simps distinct_card)
next
  case (Cons r rs)
  have "\<exists>res. name_loop prefix ct (List.insert (prefix @ r) names) rs = Some res"
    using Cons by (intro Cons.IH) (simp_all add: insert_commute)
  then show ?case by (auto simp: name_loop.simps [of _ _ _ "r # rs"])
qed

lemma name_prefix_length: "length (name_prefix name) \<le> 53"
  by (simp add: name_prefix_def maxGenerateNamePrefixLength_def)

section \<open>Properties\<close>

text \<open>
  C25. After a controller has recorded the creations and deletions it expects, and whatever
  observations follow in whatever order, for it or for other controllers, it may act again if
  and only if the timeout has passed or every expected creation and deletion has been observed.
\<close>

theorem expectations_satisfied:
  "Satisfied now (fold observe evs (ExpectCreationsAndDeletions t e ctrl created deleted)) ctrl \<longleftrightarrow>
   now - t > exp_timeout e \<or>
   set created \<subseteq> {k. Created ctrl k \<in> set evs} \<and> set deleted \<subseteq> {k. Deleted ctrl k \<in> set evs}"
  by (auto simp: Satisfied_def observe_entry observe_timeout ExpectCreationsAndDeletions_def)

text \<open>
  The names generated for new objects are as many as asked for and distinct, and no longer
  than 63 characters when the random parts have 10; the loop ends once it has drawn enough
  different random parts.
\<close>

theorem GenerateCreateNames_total:
  assumes "ct \<le> card (set draws)" "\<forall>r\<in>set draws. length r = 10" "\<forall>xs. mset (ord xs) = mset xs"
  shows "\<exists>names. GenerateCreateNames ord draws name ct = Some names \<and> distinct names \<and> length names = ct \<and>
    (\<forall>n\<in>set names. length n \<le> 63)"
proof -
  have "inj_on (\<lambda>r. name_prefix name @ r) (set draws)" by (simp add: inj_on_def)
  then have "ct \<le> card (set [] \<union> (\<lambda>r. name_prefix name @ r) ` set draws)" using assms(1) by (simp add: card_image)
  then obtain res where res: "name_loop (name_prefix name) ct [] draws = Some res" using name_loop_total by fastforce
  have "distinct res \<and> length res = ct \<and> (\<forall>n\<in>set res. \<exists>r\<in>set [] \<union> set draws. n = name_prefix name @ r)"
    using name_loop_ok [OF res, of "[]"] by simp
  moreover have "distinct (ord res) \<longleftrightarrow> distinct res" "length (ord res) = length res" "set (ord res) = set res"
    using assms(3) mset_eq_imp_distinct_iff [of "ord res" res] mset_eq_length [of "ord res" res] mset_eq_setD [of "ord res" res] by simp_all
  moreover have "length n \<le> 63" if "n = name_prefix name @ r" "r \<in> set draws" for n r
    using name_prefix_length [of name] assms(2) that by simp
  ultimately show ?thesis using res by (auto simp: GenerateCreateNames_def)
qed

definition example_draws :: "string list" where
  "example_draws = [''aaaaaaaaaa'', ''aaaaaaaaaa'', ''bbbbbbbbbb'']"

theorem GenerateCreateNames_total_witness:
  "\<exists>names. GenerateCreateNames rev example_draws ''ds'' 2 = Some names \<and> distinct names \<and> length names = 2 \<and>
     (\<forall>n\<in>set names. length n \<le> 63)"
  by (rule GenerateCreateNames_total) (simp_all add: example_draws_def)

end
