(* ===== verification/DaemonSets.thy ===== *)
theory DaemonSets
  imports Expectations NodeAffinity "HOL-Library.Multiset"
begin

text \<open>
  The daemon set and load balancer controllers: \<open>internal/controllers/util.go\<close>,
  \<open>daemonset_controller.go\<close> and \<open>loadbalancer_controller.go\<close>. The orders of maps and sets, the
  random draws and the clock are arguments.
\<close>

section \<open>util.go\<close>

definition ObjectNameField :: string where
  "ObjectNameField = ''metadata.name''"

fun target_name :: "NodeSelectorRequirement list \<Rightarrow> string result" where
  "target_name [] = Inl (ErrMsg ''no node name found'')"
| "target_name (e # es) =
     (if nsr_Key e = ObjectNameField \<and> nsr_Operator e = NodeSelectorOpIn then
        (case nsr_Values e of [v] \<Rightarrow> Inr v | _ \<Rightarrow> Inl (ErrMsg ''the matchFields value is not unique''))
      else target_name es)"

definition GetTargetNodeName :: "Instance \<Rightarrow> string result" where
  "GetTargetNodeName inst =
     (case is_NodeRef (inst_Spec inst) of
        Some name \<Rightarrow> Inr name
      | None \<Rightarrow>
          (case Option.bind (Option.bind (is_Affinity (inst_Spec inst)) aff_NodeAffinity) na_Required of
             None \<Rightarrow> Inl (ErrMsg ''no requiredDuringSchedulingIgnoredDuringExecution'')
           | Some sel \<Rightarrow>
               if ns_NodeSelectorTerms sel = [] then Inl (ErrMsg ''no nodeSelectorTerms'')
               else target_name (concat (map nst_MatchFields (ns_NodeSelectorTerms sel)))))"

definition node_name_selector :: "string \<Rightarrow> NodeSelector" where
  "node_name_selector nodeName = \<lparr>ns_NodeSelectorTerms = [\<lparr>nst_MatchExpressions = [],
     nst_MatchFields = [\<lparr>nsr_Key = ObjectNameField, nsr_Operator = NodeSelectorOpIn, nsr_Values = [nodeName]\<rparr>]\<rparr>]\<rparr>"

definition ReplaceDaemonSetInstanceNodeNameNodeAffinity :: "Affinity option \<Rightarrow> string \<Rightarrow> Affinity" where
  "ReplaceDaemonSetInstanceNodeNameNodeAffinity affinity nodeName =
     (let nodeSelector = node_name_selector nodeName in
      case affinity of
        None \<Rightarrow> \<lparr>aff_NodeAffinity = Some \<lparr>na_Required = Some nodeSelector\<rparr>, aff_InstanceAntiAffinity = None\<rparr>
      | Some a \<Rightarrow>
          (case aff_NodeAffinity a of
             None \<Rightarrow> a\<lparr>aff_NodeAffinity := Some \<lparr>na_Required = Some nodeSelector\<rparr>\<rparr>
           | Some na \<Rightarrow>
               (case na_Required na of
                  None \<Rightarrow> a\<lparr>aff_NodeAffinity := Some (na\<lparr>na_Required := Some nodeSelector\<rparr>)\<rparr>
                | Some sel \<Rightarrow> a\<lparr>aff_NodeAffinity := Some (na\<lparr>na_Required :=
                    Some (sel\<lparr>ns_NodeSelectorTerms := ns_NodeSelectorTerms nodeSelector\<rparr>)\<rparr>)\<rparr>)))"

text \<open>
  What \<open>fmt.Sprintf\<close> prints for the template is the argument \<open>render\<close> (it prints the pointers in
  it as addresses), and \<open>encode\<close> is \<open>rand.SafeEncodeString\<close>.
\<close>

definition ComputeHash :: "(InstanceTemplate \<Rightarrow> nat list) \<Rightarrow> (string \<Rightarrow> string) \<Rightarrow> InstanceTemplate \<Rightarrow> int option \<Rightarrow> string" where
  "ComputeHash render encode template collisionCount =
     (let h = fnv32a_write (render template) fnv32a_offset;
          h' = (case collisionCount of None \<Rightarrow> h | Some c \<Rightarrow> fnv32a_write (le_bytes32 c) h) in
      encode (dec_nat h'))"

section \<open>daemonset_controller.go\<close>

text \<open>
  The clients and library functions of the controller. \<open>de_setLabel\<close> and \<open>de_setController\<close> are
  \<open>metautils.SetLabel\<close> and \<open>ctrl.SetControllerReference\<close>, which change metadata.
\<close>

record ('s, 'q, 'l, 'f) ds_env =
  de_daemonsets :: "('s, DaemonSet) kclient"
  de_instances :: "('s, Instance) kclient"
  de_nodes :: "'s \<Rightarrow> Node list result"
  de_allDaemonSets :: "'s \<Rightarrow> DaemonSet list result"
  de_selectors :: "('q, 'l, 'f) selector_api"
  de_gvk :: "(string \<times> string) result"
  de_setLabel :: "string \<Rightarrow> string \<Rightarrow> ObjectMeta \<Rightarrow> ObjectMeta"
  de_setController :: "ObjectMeta \<Rightarrow> ObjectMeta \<Rightarrow> ObjectMeta result"
  de_render :: "InstanceTemplate \<Rightarrow> nat list"
  de_encode :: "string \<Rightarrow> string"
  de_sortOrder :: "Instance list \<Rightarrow> Instance list"
  de_mapOrder :: "(string \<times> Instance list) list \<Rightarrow> (string \<times> Instance list) list"
  de_setOrder :: "string list \<Rightarrow> string list"

abbreviation inst_name :: "Instance \<Rightarrow> string" where
  "inst_name i \<equiv> om_Name (inst_Meta i)"

abbreviation node_name :: "Node \<Rightarrow> string" where
  "node_name n \<equiv> om_Name (node_Meta n)"

definition instanceNeedsUpdate :: "DaemonSet \<Rightarrow> Instance \<Rightarrow> bool" where
  "instanceNeedsUpdate ds inst \<longleftrightarrow> is_IPs (inst_Spec inst) \<noteq> is_IPs (it_Spec (dss_Template (ds_Spec ds)))"

definition ds_updateInstance ::
  "('s, 'q, 'l, 'f) ds_env \<Rightarrow> 's \<Rightarrow> DaemonSet \<Rightarrow> Instance \<Rightarrow> 's \<times> Instance \<times> go_error option" where
  "ds_updateInstance E s ds inst =
     (let inst' = inst\<lparr>inst_Spec := (inst_Spec inst)\<lparr>is_IPs := is_IPs (it_Spec (dss_Template (ds_Spec ds)))\<rparr>\<rparr> in
      case k_patch (de_instances E) s inst' inst False of
        (s', Inl err) \<Rightarrow> (s', inst', Some err)
      | (s', Inr y) \<Rightarrow> (s', y, None))"

definition ds_claimMgr :: "('s, 'q, 'l, 'f) ds_env \<Rightarrow> DaemonSet \<Rightarrow> 'l \<Rightarrow> ('s, Instance) RefManager" where
  "ds_claimMgr E ds sel =
     \<lparr>rm_client = de_instances E, rm_controller = ds_Meta ds,
      rm_match = (\<lambda>i. sa_Matches (de_selectors E) sel (om_Labels (inst_Meta i))), rm_gvk = de_gvk E,
      rm_meta = inst_Meta, rm_setOwners = (\<lambda>rs i. i\<lparr>inst_Meta := (inst_Meta i)\<lparr>om_OwnerReferences := rs\<rparr>\<rparr>)\<rparr>"

fun claim_loop ::
  "('s, 'q, 'l, 'f) ds_env \<Rightarrow> DaemonSet \<Rightarrow> 'l \<Rightarrow> 's \<Rightarrow> Instance list \<Rightarrow> Instance list \<Rightarrow> go_error list \<Rightarrow>
   's \<times> Instance list \<times> go_error list" where
  "claim_loop E ds sel s [] insts errs = (s, insts, errs)"
| "claim_loop E ds sel s (inst # items) insts errs =
     (case ClaimObject (ds_claimMgr E ds sel) s inst of
        (s', _, Inl err) \<Rightarrow> claim_loop E ds sel s' items insts (errs @ [err])
      | (s', _, Inr False) \<Rightarrow> claim_loop E ds sel s' items insts errs
      | (s', inst', Inr True) \<Rightarrow>
          if instanceNeedsUpdate ds inst' then
            (case ds_updateInstance E s' ds inst' of
               (s'', _, Some err) \<Rightarrow> claim_loop E ds sel s'' items insts (errs @ [err])
             | (s'', inst'', None) \<Rightarrow> claim_loop E ds sel s'' items (insts @ [inst'']) errs)
          else claim_loop E ds sel s' items (insts @ [inst']) errs)"

definition getDaemonInstances ::
  "('s, 'q, 'l, 'f) ds_env \<Rightarrow> 's \<Rightarrow> DaemonSet \<Rightarrow> 's \<times> Instance list \<times> go_error option" where
  "getDaemonInstances E s ds =
     (case sa_AsSelector (de_selectors E) (dss_Selector (ds_Spec ds)) of
        Inl err \<Rightarrow> (s, [], Some err)
      | Inr sel \<Rightarrow>
          (case k_list (de_instances E) s (om_Namespace (ds_Meta ds)) of
             Inl err \<Rightarrow> (s, [], Some err)
           | Inr items \<Rightarrow> (case claim_loop E ds sel s items [] [] of (s', insts, errs) \<Rightarrow> (s', insts, errors_Join errs))))"

fun group_instances :: "Instance list \<Rightarrow> (string \<times> Instance list) list \<Rightarrow> (string \<times> Instance list) list" where
  "group_instances [] m = m"
| "group_instances (inst # insts) m =
     (case GetTargetNodeName inst of
        Inl _ \<Rightarrow> group_instances insts m
      | Inr nodeName \<Rightarrow>
          group_instances insts (AList.update nodeName ((case map_of m nodeName of None \<Rightarrow> [] | Some is \<Rightarrow> is) @ [inst]) m))"

definition getNodesToDaemonInstances ::
  "('s, 'q, 'l, 'f) ds_env \<Rightarrow> 's \<Rightarrow> DaemonSet \<Rightarrow> 's \<times> (string \<times> Instance list) list result" where
  "getNodesToDaemonInstances E s ds =
     (case getDaemonInstances E s ds of
        (s', _, Some err) \<Rightarrow> (s', Inl err)
      | (s', claimedInsts, None) \<Rightarrow> (s', Inr (group_instances claimedInsts [])))"

definition template_instance :: "DaemonSet \<Rightarrow> Instance" where
  "template_instance ds =
     \<lparr>inst_Meta = (it_Meta (dss_Template (ds_Spec ds)))\<lparr>om_Namespace := om_Namespace (ds_Meta ds)\<rparr>,
      inst_Spec = it_Spec (dss_Template (ds_Spec ds)), inst_Status = \<lparr>ist_IPs = [], ist_CollisionCount = None\<rparr>\<rparr>"

definition nodeShouldRunDaemonInstance :: "('q, 'l, 'f) selector_api \<Rightarrow> Node \<Rightarrow> DaemonSet \<Rightarrow> bool" where
  "nodeShouldRunDaemonInstance A node ds =
     (if (case is_NodeRef (it_Spec (dss_Template (ds_Spec ds))) of None \<Rightarrow> False | Some n \<Rightarrow> n \<noteq> node_name node) then False
      else let inst = template_instance ds;
               inst' = inst\<lparr>inst_Spec := (inst_Spec inst)\<lparr>is_NodeRef := Some (node_name node)\<rparr>\<rparr> in
           fst (affinity_Match A (GetRequiredNodeAffinity A inst') (Some node)))"

text \<open>\<open>slices.SortFunc\<close> may put instances of the same age in any order: they are permuted first.\<close>

definition instancesShouldBeOnNode ::
  "('s, 'q, 'l, 'f) ds_env \<Rightarrow> Node \<Rightarrow> (string \<times> Instance list) list \<Rightarrow> DaemonSet \<Rightarrow> string list \<times> string list" where
  "instancesShouldBeOnNode E node nodeToDaemonInsts ds =
     (let shouldRun = nodeShouldRunDaemonInstance (de_selectors E) node ds in
      case (shouldRun, map_of nodeToDaemonInsts (node_name node)) of
        (True, None) \<Rightarrow> ([node_name node], [])
      | (True, Some insts) \<Rightarrow>
          let filtered = filter (\<lambda>i. om_DeletionTimestamp (inst_Meta i) = None) insts in
          if filtered = [] then ([node_name node], [])
          else if length filtered > 1
          then ([], map inst_name (tl (sort_key (\<lambda>i. om_CreationTimestamp (inst_Meta i)) (de_sortOrder E filtered))))
          else ([], [])
      | (False, insts) \<Rightarrow> ([], map inst_name (case insts of None \<Rightarrow> [] | Some is \<Rightarrow> is)))"

definition getUnscheduledInstancesWithoutNode ::
  "('s, 'q, 'l, 'f) ds_env \<Rightarrow> Node list \<Rightarrow> (string \<times> Instance list) list \<Rightarrow> string list" where
  "getUnscheduledInstancesWithoutNode E nodes nodeToDaemonInsts =
     concat (map (\<lambda>(nodeName, insts).
       if nodeName \<in> node_name ` set nodes then []
       else map inst_name (filter (\<lambda>i. is_NodeRef (inst_Spec i) = None) insts)) (de_mapOrder E nodeToDaemonInsts))"

definition ds_plan ::
  "('s, 'q, 'l, 'f) ds_env \<Rightarrow> Node list \<Rightarrow> (string \<times> Instance list) list \<Rightarrow> DaemonSet \<Rightarrow> string list \<times> string list" where
  "ds_plan E nodes m ds =
     (concat (map (\<lambda>n. fst (instancesShouldBeOnNode E n m ds)) nodes),
      concat (map (\<lambda>n. snd (instancesShouldBeOnNode E n m ds)) nodes) @ getUnscheduledInstancesWithoutNode E nodes m)"

definition createInstance ::
  "('s, 'q, 'l, 'f) ds_env \<Rightarrow> 's \<Rightarrow> DaemonSet \<Rightarrow> string \<Rightarrow> string \<Rightarrow> string \<Rightarrow> 's \<times> Instance result" where
  "createInstance E s ds nodeName instName hash =
     (let inst = template_instance ds;
          meta = de_setLabel E ControllerRevisionHashLabel hash ((inst_Meta inst)\<lparr>om_Name := instName\<rparr>);
          spec = (inst_Spec inst)\<lparr>is_Affinity :=
            Some (ReplaceDaemonSetInstanceNodeNameNodeAffinity (is_Affinity (inst_Spec inst)) nodeName)\<rparr> in
      case de_setController E (ds_Meta ds) meta of
        Inl err \<Rightarrow> (s, Inl err)
      | Inr meta' \<Rightarrow> k_create (de_instances E) s (inst\<lparr>inst_Meta := meta', inst_Spec := spec\<rparr>))"

fun create_loop ::
  "('s, 'q, 'l, 'f) ds_env \<Rightarrow> DaemonSet \<Rightarrow> string \<Rightarrow> 's \<Rightarrow> Expectations \<Rightarrow> (string \<times> string) list \<Rightarrow> go_error list \<Rightarrow>
   's \<times> Expectations \<times> go_error list" where
  "create_loop E ds hash s e [] errs = (s, e, errs)"
| "create_loop E ds hash s e ((createName, nodeName) # rest) errs =
     (case createInstance E s ds nodeName createName hash of
        (s', Inr _) \<Rightarrow> create_loop E ds hash s' e rest errs
      | (s', Inl err) \<Rightarrow> create_loop E ds hash s'
          (CreationObserved e (meta_key (ds_Meta ds)) \<lparr>key_Namespace = om_Namespace (ds_Meta ds), key_Name = createName\<rparr>)
          rest (errs @ [err]))"

fun delete_loop ::
  "('s, 'q, 'l, 'f) ds_env \<Rightarrow> DaemonSet \<Rightarrow> 's \<Rightarrow> Expectations \<Rightarrow> string list \<Rightarrow> go_error list \<Rightarrow> 's \<times> Expectations \<times> go_error list" where
  "delete_loop E ds s e [] errs = (s, e, errs)"
| "delete_loop E ds s e (deleteName # rest) errs =
     (let instKey = \<lparr>key_Namespace = om_Namespace (ds_Meta ds), key_Name = deleteName\<rparr> in
      case k_delete (de_instances E) s instKey of
        (s', None) \<Rightarrow> delete_loop E ds s' e rest errs
      | (s', Some err) \<Rightarrow> delete_loop E ds s' (DeletionObserved e (meta_key (ds_Meta ds)) instKey) rest
          (if IsNotFound err then errs else errs @ [err]))"

text \<open>\<open>None\<close> while the names are still being drawn.\<close>

definition syncNodes ::
  "('s, 'q, 'l, 'f) ds_env \<Rightarrow> int \<Rightarrow> string list \<Rightarrow> 's \<Rightarrow> Expectations \<Rightarrow> DaemonSet \<Rightarrow> string list \<Rightarrow> string list \<Rightarrow> string \<Rightarrow>
   ('s \<times> Expectations \<times> go_error option) option" where
  "syncNodes E now draws s e ds instsToDelete nodesNeedingDaemonInsts hash =
     (let ctrlKey = meta_key (ds_Meta ds); ns = om_Namespace (ds_Meta ds) in
      case GenerateCreateNames (de_setOrder E) draws (om_Name (ds_Meta ds)) (length nodesNeedingDaemonInsts) of
        None \<Rightarrow> None
      | Some createNames \<Rightarrow>
          let e1 = ExpectCreationsAndDeletions now e ctrlKey (ObjectKeysFromNames ns createNames) (ObjectKeysFromNames ns instsToDelete);
              (s2, e2, errs2) = create_loop E ds hash s e1 (zip createNames nodesNeedingDaemonInsts) [];
              (s3, e3, errs3) = delete_loop E ds s2 e2 instsToDelete errs2 in
          Some (s3, e3, errors_Join errs3))"

definition ds_manage ::
  "('s, 'q, 'l, 'f) ds_env \<Rightarrow> int \<Rightarrow> string list \<Rightarrow> 's \<Rightarrow> Expectations \<Rightarrow> DaemonSet \<Rightarrow> Node list \<Rightarrow> string \<Rightarrow>
   ('s \<times> Expectations \<times> go_error option) option" where
  "ds_manage E now draws s e ds nodes hash =
     (case getNodesToDaemonInstances E s ds of
        (s', Inl err) \<Rightarrow> Some (s', e, Some (Wrapped ''error getting node to daemon instance mapping'' err))
      | (s', Inr m) \<Rightarrow>
          let (nodesNeedingDaemonInsts, instsToDelete) = ds_plan E nodes m ds in
          syncNodes E now draws s' e ds instsToDelete nodesNeedingDaemonInsts hash)"

definition ds_reconcile ::
  "('s, 'q, 'l, 'f) ds_env \<Rightarrow> int \<Rightarrow> string list \<Rightarrow> 's \<Rightarrow> Expectations \<Rightarrow> DaemonSet \<Rightarrow> ('s \<times> Expectations \<times> go_error option) option" where
  "ds_reconcile E now draws s e ds =
     (case de_nodes E s of
        Inl err \<Rightarrow> Some (s, e, Some (Wrapped ''error listing nodes'' err))
      | Inr nodes \<Rightarrow>
          let hash = ComputeHash (de_render E) (de_encode E) (dss_Template (ds_Spec ds)) (dst_CollisionCount (ds_Status ds)) in
          if Satisfied now e (meta_key (ds_Meta ds)) then
            map_option (\<lambda>(s', e', err). (s', e', map_option (Wrapped ''error managing daemon set'') err))
              (ds_manage E now draws s e ds nodes hash)
          else Some (s, e, None))"

definition ds_Reconcile ::
  "('s, 'q, 'l, 'f) ds_env \<Rightarrow> int \<Rightarrow> string list \<Rightarrow> 's \<Rightarrow> Expectations \<Rightarrow> ObjectKey \<Rightarrow> ('s \<times> Expectations \<times> go_error option) option" where
  "ds_Reconcile E now draws s e key =
     (case k_get (de_daemonsets E) s key of
        Inl err \<Rightarrow> Some (s, e, IgnoreNotFound (Some err))
      | Inr ds \<Rightarrow> if om_DeletionTimestamp (ds_Meta ds) \<noteq> None then Some (s, e, None) else ds_reconcile E now draws s e ds)"

definition enqueueByNode :: "('s, 'q, 'l, 'f) ds_env \<Rightarrow> 's \<Rightarrow> ObjectKey list" where
  "enqueueByNode E s = (case de_allDaemonSets E s of Inl _ \<Rightarrow> [] | Inr dss \<Rightarrow> map (\<lambda>ds. meta_key (ds_Meta ds)) dss)"

section \<open>loadbalancer_controller.go\<close>

definition daemonSet_of :: "string \<Rightarrow> LoadBalancer \<Rightarrow> DaemonSet" where
  "daemonSet_of apiVersion lb =
     \<lparr>ds_Meta = zero_meta\<lparr>om_Namespace := om_Namespace (lb_Meta lb), om_Name := LoadBalancerDaemonSetName (om_Name (lb_Meta lb)),
        om_OwnerReferences := [\<lparr>or_APIVersion = apiVersion, or_Kind = ''LoadBalancer'', or_Name = om_Name (lb_Meta lb),
          or_UID = om_UID (lb_Meta lb), or_Controller = Some True, or_BlockOwnerDeletion = Some True\<rparr>]\<rparr>,
      ds_Spec = \<lparr>dss_Selector = lbs_Selector (lb_Spec lb),
        dss_Template = (lbs_Template (lb_Spec lb))\<lparr>it_Spec := (it_Spec (lbs_Template (lb_Spec lb)))
          \<lparr>is_Type := InstanceTypeLoadBalancer, is_LoadBalancerType := lbs_Type (lb_Spec lb), is_IPs := GetLoadBalancerIPs lb,
           is_NetworkRef := lbs_NetworkRef (lb_Spec lb), is_LoadBalancerPorts := lbs_Ports (lb_Spec lb)\<rparr>\<rparr>\<rparr>,
      ds_Status = \<lparr>dst_CollisionCount = None\<rparr>\<rparr>"

record 's lb_env =
  le_loadbalancers :: "('s, LoadBalancer) kclient"
  le_routings :: "('s, LoadBalancerRouting) kclient"
  le_daemonsets :: "('s, DaemonSet) kclient"
  le_apiVersion :: string

definition applyDaemonSetForLoadBalancer :: "'s lb_env \<Rightarrow> 's \<Rightarrow> LoadBalancer \<Rightarrow> 's \<times> go_error option" where
  "applyDaemonSetForLoadBalancer E s lb =
     (case k_apply (le_daemonsets E) s (daemonSet_of (le_apiVersion E) lb) of
        (s', Inl err) \<Rightarrow> (s', Some err)
      | (s', Inr _) \<Rightarrow> (s', None))"

definition lb_reconcile :: "'s lb_env \<Rightarrow> 's \<Rightarrow> LoadBalancer \<Rightarrow> 's \<times> go_error option" where
  "lb_reconcile E s lb =
     (case applyDaemonSetForLoadBalancer E s lb of
        (s', Some err) \<Rightarrow> (s', Some (Wrapped ''error applying daemon set'' err))
      | (s', None) \<Rightarrow> (s', None))"

definition lb_Reconcile :: "'s lb_env \<Rightarrow> 's \<Rightarrow> ObjectKey \<Rightarrow> 's \<times> go_error option" where
  "lb_Reconcile E s key =
     (case k_get (le_loadbalancers E) s key of
        Inl err \<Rightarrow>
          if \<not> IsNotFound err then (s, Some err)
          else (case k_delete (le_routings E) s key of
                  (s', Some derr) \<Rightarrow> (s', map_option (Wrapped ''error deleting load balancer routing'') (IgnoreNotFound (Some derr)))
                | (s', None) \<Rightarrow> (s', None))
      | Inr lb \<Rightarrow> if om_DeletionTimestamp (lb_Meta lb) \<noteq> None then (s, None) else lb_reconcile E s lb)"

section \<open>The plan of a reconciliation\<close>

text \<open>The instances that are, or are to be, on a node.\<close>

definition on :: "Instance list \<Rightarrow> string \<Rightarrow> Instance list" where
  "on insts name = filter (\<lambda>i. GetTargetNodeName i = Inr name) insts"

lemma group_instances_on:
  "map_of (group_instances insts m) name =
   (if on insts name = [] then map_of m name else Some ((case map_of m name of None \<Rightarrow> [] | Some is \<Rightarrow> is) @ on insts name))"
  by (induction insts m rule: group_instances.induct) (auto simp: on_def update_conv' split: sum.splits option.splits)

lemma group_instances_keys: "distinct (map fst m) \<Longrightarrow> distinct (map fst (group_instances insts m))"
  by (induction insts m rule: group_instances.induct) (auto simp: distinct_update split: sum.splits)

lemma grouped: "map_of (group_instances insts []) name = (if on insts name = [] then None else Some (on insts name))"
  using group_instances_on [of insts "[]" name] by simp

lemma on_same_name:
  assumes "distinct (map inst_name insts)" "i \<in> set (on insts a)" "j \<in> set (on insts b)" "inst_name i = inst_name j"
  shows "a = b"
proof -
  have "inj_on inst_name (set insts)" using assms(1) by (simp add: distinct_map)
  moreover have "i \<in> set insts" "j \<in> set insts" using assms(2,3) by (simp_all add: on_def)
  ultimately have "i = j" using assms(4) inj_onD [of inst_name "set insts" i j] by simp
  then show ?thesis using assms(2,3) by (simp add: on_def)
qed

lemma set_tl: "set (tl xs) \<subseteq> set xs"
  by (cases xs) auto

abbreviation live :: "Instance \<Rightarrow> bool" where
  "live i \<equiv> om_DeletionTimestamp (inst_Meta i) = None"

abbreviation age_key :: "Instance \<Rightarrow> int" where
  "age_key i \<equiv> om_CreationTimestamp (inst_Meta i)"

text \<open>Sorting by age and dropping the first leaves exactly one instance, an oldest one.\<close>

lemma oldest_kept:
  assumes "distinct (map inst_name xs)" "xs \<noteq> []" "mset ys = mset xs"
  obtains x where "filter (\<lambda>i. inst_name i \<notin> set (map inst_name (tl (sort_key age_key ys)))) xs = [x]"
    "\<forall>y\<in>set xs. age_key x \<le> age_key y"
proof -
  let ?zs = "sort_key age_key ys"
  have m: "mset ?zs = mset xs" using assms(3) by simp
  then have "?zs \<noteq> []" using assms(2) by (metis mset_zero_iff)
  then obtain x zs where z: "?zs = x # zs" by (cases ?zs) auto
  have mz: "mset xs = add_mset x (mset zs)" using m z by simp
  have d: "distinct (map inst_name (x # zs))"
    using assms(1) mset_eq_imp_distinct_iff [of "map inst_name xs" "map inst_name (x # zs)"] mz by simp
  have "mset (filter (\<lambda>i. inst_name i \<notin> inst_name ` set zs) xs) = filter_mset (\<lambda>i. inst_name i \<notin> inst_name ` set zs) (add_mset x (mset zs))"
    using mz by simp
  also have "\<dots> = {#x#}"
    using d by (auto simp: filter_mset_eq_conv)
  finally have f: "mset (filter (\<lambda>i. inst_name i \<notin> inst_name ` set zs) xs) = {#x#}" .
  have "filter (\<lambda>i. inst_name i \<notin> inst_name ` set zs) xs = [x]" using f by (simp only: mset_single_iff)
  then have "filter (\<lambda>i. inst_name i \<notin> set (map inst_name (tl ?zs))) xs = [x]" using z by simp
  moreover have "sorted (map age_key ?zs)" by simp
  then have "\<forall>y\<in>set zs. age_key x \<le> age_key y" using z by simp
  then have "\<forall>y\<in>set xs. age_key x \<le> age_key y" using mset_eq_setD [of xs "x # zs"] mz by auto
  ultimately show thesis using that by blast
qed

text \<open>What a node keeps and gets, given the names its own part of the plan deletes.\<close>

definition node_balanced ::
  "('s, 'q, 'l, 'f) ds_env \<Rightarrow> DaemonSet \<Rightarrow> Instance list \<Rightarrow> Node \<Rightarrow> string list \<Rightarrow> nat \<Rightarrow> bool" where
  "node_balanced E ds insts n dels created \<longleftrightarrow>
     (let kept = filter (\<lambda>i. live i \<and> inst_name i \<notin> set dels) (on insts (node_name n)) in
      if nodeShouldRunDaemonInstance (de_selectors E) n ds
      then length kept + created = 1 \<and>
        (\<forall>i\<in>set kept. \<forall>j\<in>set (on insts (node_name n)). live j \<longrightarrow> age_key i \<le> age_key j)
      else created = 0 \<and> kept = [] \<and> inst_name ` set (on insts (node_name n)) \<subseteq> set dels)"

lemma instancesShouldBeOnNode_spec:
  assumes d: "distinct (map inst_name insts)" and o: "\<And>xs. mset (de_sortOrder E xs) = mset xs"
    and r: "instancesShouldBeOnNode E n (group_instances insts []) ds = (need, dels)"
  shows "node_balanced E ds insts n dels (length need)" "set need \<subseteq> {node_name n}" "length need \<le> 1"
    "set dels \<subseteq> inst_name ` set (on insts (node_name n))"
proof -
  let ?is = "on insts (node_name n)" and ?run = "nodeShouldRunDaemonInstance (de_selectors E) n ds"
  let ?f = "filter live ?is"
  have "node_balanced E ds insts n dels (length need) \<and> set need \<subseteq> {node_name n} \<and> length need \<le> 1 \<and>
    set dels \<subseteq> inst_name ` set ?is"
  proof (cases ?run)
    case False
    then have "need = []" "dels = map inst_name ?is" using r by (auto simp: instancesShouldBeOnNode_def grouped Let_def split: if_splits)
    then show ?thesis using False by (auto simp: node_balanced_def Let_def filter_empty_conv)
  next
    case True
    show ?thesis
    proof (cases "?f = []")
      case True
      then have "need = [node_name n]" "dels = []"
        using r \<open>?run\<close> by (auto simp: instancesShouldBeOnNode_def grouped Let_def split: if_splits)
      then show ?thesis using True \<open>?run\<close> by (simp add: node_balanced_def Let_def)
    next
      case False
      then have ne: "?is \<noteq> []" by auto
      have df: "distinct (map inst_name ?f)" using d by (simp add: on_def distinct_map_filter)
      show ?thesis
      proof (cases "length ?f > 1")
        case True
        then have nd: "need = []" "dels = map inst_name (tl (sort_key age_key (de_sortOrder E ?f)))"
          using r \<open>?run\<close> False ne by (auto simp: instancesShouldBeOnNode_def grouped Let_def split: if_splits)
        obtain x where x: "filter (\<lambda>i. inst_name i \<notin> set dels) ?f = [x]" "\<forall>y\<in>set ?f. age_key x \<le> age_key y"
          using oldest_kept [OF df False o] nd(2) by metis
        have k: "filter (\<lambda>i. live i \<and> inst_name i \<notin> set dels) ?is = [x]" using x(1) by (simp add: filter_filter conj_commute)
        have "set dels \<subseteq> inst_name ` set (sort_key age_key (de_sortOrder E ?f))" unfolding nd(2) set_map by (intro image_mono set_tl)
        also have "\<dots> \<subseteq> inst_name ` set ?is" using mset_eq_setD [OF o, of ?f] by auto
        finally show ?thesis using k x(2) nd(1) \<open>?run\<close> by (simp add: node_balanced_def Let_def)
      next
        case one: False
        then have l: "length ?f = 1" using False by (cases ?f) auto
        then obtain x where x: "?f = [x]" by (cases ?f) auto
        have "need = []" "dels = []"
          using r \<open>?run\<close> False one ne by (auto simp: instancesShouldBeOnNode_def grouped Let_def split: if_splits)
        moreover have "\<forall>j\<in>set ?is. live j \<longrightarrow> j = x" using arg_cong [OF x, of set] by auto
        ultimately show ?thesis using x \<open>?run\<close> by (simp add: node_balanced_def Let_def)
      qed
    qed
  qed
  then show "node_balanced E ds insts n dels (length need)" "set need \<subseteq> {node_name n}" "length need \<le> 1"
    "set dels \<subseteq> inst_name ` set (on insts (node_name n))" by blast+
qed

lemma instancesShouldBeOnNode_parts:
  assumes "distinct (map inst_name insts)" "\<And>xs. mset (de_sortOrder E xs) = mset xs"
  shows "node_balanced E ds insts n (snd (instancesShouldBeOnNode E n (group_instances insts []) ds))
      (length (fst (instancesShouldBeOnNode E n (group_instances insts []) ds)))"
    and "set (fst (instancesShouldBeOnNode E n (group_instances insts []) ds)) \<subseteq> {node_name n}"
    and "set (snd (instancesShouldBeOnNode E n (group_instances insts []) ds)) \<subseteq> inst_name ` set (on insts (node_name n))"
  using instancesShouldBeOnNode_spec [OF assms prod.collapse [symmetric]] by blast+

lemma count_list_own: "set xs \<subseteq> {b} \<Longrightarrow> count_list xs a = (if a = b then length xs else 0)"
  by (induction xs) auto

lemma count_concat_own:
  assumes "distinct (map f ns)" "n \<in> set ns" "\<And>m. m \<in> set ns \<Longrightarrow> set (g m) \<subseteq> {f m}"
  shows "count_list (concat (map g ns)) (f n) = length (g n)"
  using assms
proof (induction ns)
  case (Cons m ns)
  have own: "count_list (g m) (f n) = (if f n = f m then length (g m) else 0)"
    using Cons.prems(3) [of m] count_list_own by fastforce
  show ?case
  proof (cases "n \<in> set ns")
    case True
    then have "f n \<in> f ` set ns" by simp
    then have "f n \<noteq> f m" using Cons.prems(1) by auto
    moreover have "count_list (concat (map g ns)) (f n) = length (g n)" using Cons True by simp
    ultimately show ?thesis using own by simp
  next
    case False
    then have nm: "n = m" using Cons.prems(2) by simp
    then have "f n \<notin> set (concat (map g ns))" using Cons.prems(1,3) by fastforce
    then show ?thesis using own nm by (simp add: count_list_0_iff)
  qed
qed simp

lemma node_balanced_cong:
  assumes "\<And>i. i \<in> set (on insts (node_name n)) \<Longrightarrow> inst_name i \<in> set dels \<longleftrightarrow> inst_name i \<in> set dels'"
  shows "node_balanced E ds insts n dels c = node_balanced E ds insts n dels' c"
proof -
  have "filter (\<lambda>i. live i \<and> inst_name i \<notin> set dels) (on insts (node_name n)) =
    filter (\<lambda>i. live i \<and> inst_name i \<notin> set dels') (on insts (node_name n))"
    using assms by (intro filter_cong) auto
  moreover have "inst_name ` set (on insts (node_name n)) \<subseteq> set dels \<longleftrightarrow> inst_name ` set (on insts (node_name n)) \<subseteq> set dels'"
    using assms by auto
  ultimately show ?thesis by (simp add: node_balanced_def Let_def)
qed

text \<open>The unscheduled instances of the plan target nodes that do not exist.\<close>

lemma unscheduled_elsewhere:
  assumes "\<And>xs. set (de_mapOrder E xs) = set xs"
    and "d \<in> set (getUnscheduledInstancesWithoutNode E nodes (group_instances insts []))"
  obtains name i where "name \<notin> node_name ` set nodes" "i \<in> set (on insts name)" "inst_name i = d"
proof -
  obtain name "is" where e: "(name, is) \<in> set (group_instances insts [])" "name \<notin> node_name ` set nodes" "d \<in> inst_name ` set is"
    using assms by (auto simp: getUnscheduledInstancesWithoutNode_def split: if_splits)
  have "map_of (group_instances insts []) name = Some is"
    using e(1) group_instances_keys [of "[]" insts] by (simp add: map_of_is_SomeI)
  then have "is = on insts name" by (simp add: grouped split: if_splits)
  then show thesis using e(2,3) that by auto
qed

lemma plan_deletes_on_node:
  assumes d: "distinct (map inst_name insts)" "distinct (map node_name nodes)" and n: "n \<in> set nodes"
    and o: "\<And>xs. mset (de_sortOrder E xs) = mset xs" "\<And>xs. set (de_mapOrder E xs) = set xs"
    and i: "i \<in> set (on insts (node_name n))"
  shows "inst_name i \<in> set (snd (ds_plan E nodes (group_instances insts []) ds)) \<longleftrightarrow>
    inst_name i \<in> set (snd (instancesShouldBeOnNode E n (group_instances insts []) ds))" (is "?l = ?r")
proof
  assume ?l
  then consider m where "m \<in> set nodes" "inst_name i \<in> set (snd (instancesShouldBeOnNode E m (group_instances insts []) ds))"
    | "inst_name i \<in> set (getUnscheduledInstancesWithoutNode E nodes (group_instances insts []))"
    by (auto simp: ds_plan_def)
  then show ?r
  proof cases
    case (1 m)
    then obtain j where "j \<in> set (on insts (node_name m))" "inst_name i = inst_name j"
      using instancesShouldBeOnNode_parts(3) [OF d(1) o(1)] by blast
    then have "node_name m = node_name n" using on_same_name [OF d(1)] i by metis
    then have "m = n" using d(2) n 1(1) by (auto simp: distinct_map inj_on_def)
    then show ?thesis using 1 by simp
  next
    case 2
    then obtain name j where "name \<notin> node_name ` set nodes" "j \<in> set (on insts name)" "inst_name j = inst_name i"
      using unscheduled_elsewhere [OF o(2)] by metis
    then show ?thesis using on_same_name [OF d(1)] i n by (metis imageI)
  qed
next
  assume ?r
  then show ?l using n by (auto simp: ds_plan_def)
qed

text \<open>
  C7. The plan of a reconciliation is exact: whatever order maps are traversed in and instances of
  the same age are sorted in, every node that should run the daemon ends with exactly one instance
  that is not being deleted, namely one kept (an oldest one) or one created, and every node that
  should not gets none and has all of its instances deleted.
\<close>

theorem daemonset_plan_exact:
  assumes "distinct (map inst_name insts)" "distinct (map node_name nodes)" "n \<in> set nodes"
    and "\<And>xs. mset (de_sortOrder E xs) = mset xs" "\<And>xs. set (de_mapOrder E xs) = set xs"
  shows "node_balanced E ds insts n (snd (ds_plan E nodes (group_instances insts []) ds))
    (count_list (fst (ds_plan E nodes (group_instances insts []) ds)) (node_name n))"
proof -
  let ?p = "\<lambda>n. instancesShouldBeOnNode E n (group_instances insts []) ds"
  note spec = instancesShouldBeOnNode_parts [OF assms(1,4)]
  have "count_list (fst (ds_plan E nodes (group_instances insts []) ds)) (node_name n) = length (fst (?p n))"
    unfolding ds_plan_def fst_conv by (rule count_concat_own [OF assms(2,3)]) (use spec(2) in blast)
  moreover have "node_balanced E ds insts n (snd (ds_plan E nodes (group_instances insts []) ds)) c =
    node_balanced E ds insts n (snd (?p n)) c" for c
    using plan_deletes_on_node [OF assms(1,2,3,4,5)] by (rule node_balanced_cong)
  ultimately show ?thesis using spec(1) by simp
qed

lemma replaced_required:
  "Option.bind (aff_NodeAffinity (ReplaceDaemonSetInstanceNodeNameNodeAffinity a name)) na_Required = Some (node_name_selector name)"
  by (auto simp: ReplaceDaemonSetInstanceNodeNameNodeAffinity_def Let_def node_name_selector_def split: option.splits)

lemma pinned_selected:
  assumes "is_Affinity (inst_Spec inst) = Some (ReplaceDaemonSetInstanceNodeNameNodeAffinity a name)" "node_name node \<noteq> []"
  shows "node_selected A holds inst node \<longleftrightarrow> node_name node = name"
proof -
  obtain na where na: "aff_NodeAffinity (ReplaceDaemonSetInstanceNodeNameNodeAffinity a name) = Some na"
    "na_Required na = Some (node_name_selector name)"
    using replaced_required [of a name] by (auto simp: bind_eq_Some_conv)
  have "required_terms inst = Some (ns_NodeSelectorTerms (node_name_selector name))"
    using assms(1) na by (simp add: required_terms_def node_name_selector_def isEmptyNodeSelectorTerm_def)
  then show ?thesis using assms(2)
    by (simp add: node_selected_def node_name_selector_def term_parses_def term_selects_def field_holds_def
        fields_Get_def extractNodeFields_def ObjectNameField_def)
qed

lemma pinned_target:
  assumes "is_Affinity (inst_Spec inst) = Some (ReplaceDaemonSetInstanceNodeNameNodeAffinity a name)"
    and "is_NodeRef (inst_Spec inst) = None \<or> is_NodeRef (inst_Spec inst) = Some name"
  shows "GetTargetNodeName inst = Inr name"
  using assms replaced_required [of a name]
  by (auto simp: GetTargetNodeName_def node_name_selector_def)

text \<open>
  C30. An instance the daemon set controller creates for a node is pinned to it. Either setting the
  controller reference fails and nothing is sent, or the object sent to the server has the given
  node as its target, so that later reconciliations count it there, and its required affinity
  matches a named node if and only if it is the given one, whatever affinity the template has.
\<close>

theorem daemon_instance_pinned:
  assumes "selectors (de_selectors E) holds" "node_name node \<noteq> []"
    and "is_NodeRef (it_Spec (dss_Template (ds_Spec ds))) = None \<or> is_NodeRef (it_Spec (dss_Template (ds_Spec ds))) = Some nodeName"
  shows "(\<exists>meta err. de_setController E (ds_Meta ds) meta = Inl err \<and> createInstance E s ds nodeName instName hash = (s, Inl err)) \<or>
    (\<exists>obj. createInstance E s ds nodeName instName hash = k_create (de_instances E) s obj \<and> GetTargetNodeName obj = Inr nodeName \<and>
       (fst (affinity_Match (de_selectors E) (GetRequiredNodeAffinity (de_selectors E) obj) (Some node)) \<longleftrightarrow> node_name node = nodeName))"
proof (cases "de_setController E (ds_Meta ds)
    (de_setLabel E ControllerRevisionHashLabel hash ((inst_Meta (template_instance ds))\<lparr>om_Name := instName\<rparr>))")
  case (Inl err)
  moreover then have "createInstance E s ds nodeName instName hash = (s, Inl err)" by (simp add: createInstance_def Let_def)
  ultimately show ?thesis by blast
next
  case (Inr meta)
  define obj where "obj = (template_instance ds)\<lparr>inst_Meta := meta, inst_Spec := (inst_Spec (template_instance ds))\<lparr>is_Affinity :=
    Some (ReplaceDaemonSetInstanceNodeNameNodeAffinity (is_Affinity (inst_Spec (template_instance ds))) nodeName)\<rparr>\<rparr>"
  have c: "createInstance E s ds nodeName instName hash = k_create (de_instances E) s obj"
    using Inr by (simp add: createInstance_def Let_def obj_def)
  have a: "is_Affinity (inst_Spec obj) =
    Some (ReplaceDaemonSetInstanceNodeNameNodeAffinity (is_Affinity (inst_Spec (template_instance ds))) nodeName)"
    by (simp add: obj_def)
  have "is_NodeRef (inst_Spec obj) = is_NodeRef (it_Spec (dss_Template (ds_Spec ds)))"
    by (simp add: obj_def template_instance_def)
  then have "GetTargetNodeName obj = Inr nodeName" using pinned_target [OF a] assms(3) by simp
  moreover have "fst (affinity_Match (de_selectors E) (GetRequiredNodeAffinity (de_selectors E) obj) (Some node)) \<longleftrightarrow>
    node_name node = nodeName"
    using pinned_selected [OF a assms(2)] selectors.affinity_Match_spec(1) [OF assms(1,2)] by blast
  ultimately show ?thesis using c by blast
qed

section \<open>Witnesses\<close>

text \<open>A cluster whose instances are kept in memory and whose other objects cannot be read.\<close>

definition mem_ds_env ::
  "(Instance kube_mem, string \<times> selection_op \<times> string list, (string \<times> selection_op \<times> string list) list option, labels \<Rightarrow> bool) ds_env" where
  "mem_ds_env =
     \<lparr>de_daemonsets = \<lparr>k_get = (\<lambda>_ _. Inl NotFound), k_list = (\<lambda>_ _. Inl NotFound), k_create = (\<lambda>s _. (s, Inl NotFound)),
        k_delete = (\<lambda>s _. (s, Some NotFound)), k_patch = (\<lambda>s _ _ _. (s, Inl NotFound)),
        k_statusPatch = (\<lambda>s _ _. (s, Inl NotFound)), k_apply = (\<lambda>s _. (s, Inl NotFound))\<rparr>,
      de_instances = mem_kclient inst_Meta (\<lambda>v i. i\<lparr>inst_Meta := (inst_Meta i)\<lparr>om_ResourceVersion := v\<rparr>\<rparr>) (\<lambda>base i i0. i),
      de_nodes = (\<lambda>_. Inl NotFound), de_allDaemonSets = (\<lambda>_. Inl NotFound), de_selectors = plain_selectors,
      de_gvk = Inr (''core.apinet.onmetal.de/v1alpha1'', ''DaemonSet''),
      de_setLabel = (\<lambda>k v m. m\<lparr>om_Labels := AList.update k v (om_Labels m)\<rparr>), de_setController = (\<lambda>owner m. Inr m),
      de_render = (\<lambda>_. [1, 2, 3]), de_encode = (\<lambda>x. x), de_sortOrder = rev, de_mapOrder = rev, de_setOrder = (\<lambda>xs. xs)\<rparr>"

definition example_ds :: DaemonSet where
  "example_ds = \<lparr>ds_Meta = zero_meta\<lparr>om_Name := ''ds'', om_Namespace := ''ns''\<rparr>,
     ds_Spec = \<lparr>dss_Selector = None, dss_Template = \<lparr>it_Meta = zero_meta, it_Spec = inst_Spec example_affine\<rparr>\<rparr>,
     ds_Status = \<lparr>dst_CollisionCount = None\<rparr>\<rparr>"

definition example_on :: "string \<Rightarrow> string \<Rightarrow> int \<Rightarrow> Instance" where
  "example_on name node created =
     example_affine\<lparr>inst_Meta := zero_meta\<lparr>om_Name := name, om_CreationTimestamp := created\<rparr>,
       inst_Spec := (inst_Spec example_affine)\<lparr>is_NodeRef := Some node\<rparr>\<rparr>"

theorem daemonset_plan_exact_witness:
  "node_balanced mem_ds_env example_ds [example_on ''i1'' ''a'' 7, example_on ''i2'' ''a'' 3, example_on ''i3'' ''b'' 5]
     (example_node ''a'' [(''zone'', ''a'')])
     (snd (ds_plan mem_ds_env [example_node ''a'' [(''zone'', ''a'')], example_node ''c'' [(''zone'', ''a'')]]
        (group_instances [example_on ''i1'' ''a'' 7, example_on ''i2'' ''a'' 3, example_on ''i3'' ''b'' 5] []) example_ds))
     (count_list (fst (ds_plan mem_ds_env [example_node ''a'' [(''zone'', ''a'')], example_node ''c'' [(''zone'', ''a'')]]
        (group_instances [example_on ''i1'' ''a'' 7, example_on ''i2'' ''a'' 3, example_on ''i3'' ''b'' 5] []) example_ds))
        (node_name (example_node ''a'' [(''zone'', ''a'')])))"
  by (rule daemonset_plan_exact) (simp_all add: mem_ds_env_def example_on_def example_node_def)

theorem daemon_instance_pinned_witness:
  "\<exists>obj. createInstance mem_ds_env \<lparr>km_objs = [], km_version = 0\<rparr> example_ds ''a'' ''ds-x'' ''h'' =
     k_create (de_instances mem_ds_env) \<lparr>km_objs = [], km_version = 0\<rparr> obj \<and> GetTargetNodeName obj = Inr ''a''"
proof -
  have "\<not> (\<exists>meta err. de_setController mem_ds_env (ds_Meta example_ds) meta = Inl err \<and>
    createInstance mem_ds_env \<lparr>km_objs = [], km_version = 0\<rparr> example_ds ''a'' ''ds-x'' ''h'' = (\<lparr>km_objs = [], km_version = 0\<rparr>, Inl err))"
    by (simp add: mem_ds_env_def)
  moreover have "selectors (de_selectors mem_ds_env) label_requirement"
    using plain.selectors_axioms by (simp add: mem_ds_env_def)
  moreover have "node_name (example_node ''a'' []) \<noteq> []" "is_NodeRef (it_Spec (dss_Template (ds_Spec example_ds))) = None"
    by (simp_all add: example_node_def example_ds_def example_affine_def)
  ultimately show ?thesis
    using daemon_instance_pinned [of mem_ds_env label_requirement "example_node ''a'' []" example_ds "''a''"
        "\<lparr>km_objs = [], km_version = 0\<rparr>" "''ds-x''" "''h''"] by blast
qed

end
