(* ===== verification/NetworkIDs.thy ===== *)
theory NetworkIDs
  imports ApiStore
begin

text \<open>
  Network IDs (VNIs): \<open>networkid/networkid.go\<close>, the allocator of
  \<open>internal/registry/network/networkidallocator\<close> and the hooks of
  \<open>internal/registry/network/storage.go\<close> that allocate an ID when a network is created
  and release it when the network is gone.
\<close>

section \<open>networkid.go\<close>

definition ErrInvalidVNI :: go_error where
  "ErrInvalidVNI = Sentinel ''invalid VNI''"

definition ParseVNI :: "string \<Rightarrow> int result" where
  "ParseVNI vid = (case ParseInt32 vid of None \<Rightarrow> Inl ErrInvalidVNI | Some vni64 \<Rightarrow> Inr (i32 vni64))"

definition EncodeVNI :: "int \<Rightarrow> string" where
  "EncodeVNI vni = FormatInt vni"

lemma EncodeVNI_nonempty [simp]: "EncodeVNI v \<noteq> []"
  by (simp add: EncodeVNI_def FormatInt_def)

lemma ParseVNI_Some: "ParseVNI s = Inr v \<Longrightarrow> in_i32 v \<and> ParseInt32 s = Some v"
  by (auto simp: ParseVNI_def i32_id ParseInt32_range split: option.splits)

lemma ParseVNI_Encode: "in_i32 v \<Longrightarrow> ParseVNI (EncodeVNI v) = Inr v"
  by (simp add: ParseVNI_def EncodeVNI_def ParseInt32_FormatInt i32_id)

lemma EncodeVNI_inj: "in_i32 x \<Longrightarrow> in_i32 y \<Longrightarrow> EncodeVNI x = EncodeVNI y \<longleftrightarrow> x = y"
  using FormatInt_inj by (auto simp: EncodeVNI_def)

section \<open>The allocator\<close>

definition ErrFull :: go_error where "ErrFull = Sentinel ''all IDs are allocated''"
definition ErrAllocated :: go_error where "ErrAllocated = Sentinel ''provided ID is already allocated''"
definition ErrNotInRange :: go_error where "ErrNotInRange = Sentinel ''the provided ID is not in range''"

record nid_allocator =
  minVNI :: int
  maxVNI :: int

text \<open>The client, the informer's lister and the synced flag the allocator was built with.\<close>

record 's nid_env =
  nid_client :: "('s, NetworkID) resource_client"
  networkIDLister :: "'s \<Rightarrow> string \<Rightarrow> NetworkID result"
  networkIDSynced :: "'s \<Rightarrow> bool"

definition NewNetworkIDAllocator :: "int \<Rightarrow> int \<Rightarrow> nid_allocator result" where
  "NewNetworkIDAllocator mn mx =
     (if mn < 0 \<or> mx < 0 \<or> mn > mx \<or> mx = 0 \<or> mn = mx
      then Inl (ErrMsg ''invalid min / max vnis'')
      else Inr \<lparr>minVNI = mn, maxVNI = mx\<rparr>)"

definition networkToRef :: "core_Network \<Rightarrow> NetworkIDClaimRef" where
  "networkToRef network =
     \<lparr>nidref_Group = GroupName, nidref_Resource = ''networks'',
      nidref_Namespace = om_Namespace (net_Meta network), nidref_Name = om_Name (net_Meta network),
      nidref_UID = om_UID (net_Meta network)\<rparr>"

definition new_NetworkID :: "string \<Rightarrow> core_Network \<Rightarrow> NetworkID" where
  "new_NetworkID name network =
     \<lparr>nid_Meta = zero_meta\<lparr>om_Name := name\<rparr>, nid_Spec = \<lparr>nidspec_ClaimRef = networkToRef network\<rparr>\<rparr>"

definition createNetworkID :: "'s nid_env \<Rightarrow> 's \<Rightarrow> string \<Rightarrow> core_Network \<Rightarrow> 's \<times> go_error option" where
  "createNetworkID E s name network =
     (case rc_create (nid_client E) s (new_NetworkID name network) of
        (s', Inl err) \<Rightarrow> (s', Some (if IsAlreadyExists err then ErrAllocated else err))
      | (s', Inr _) \<Rightarrow> (s', None))"

definition allocateNetwork ::
  "'s nid_env \<Rightarrow> nid_allocator \<Rightarrow> 's \<Rightarrow> core_Network \<Rightarrow> string \<Rightarrow> bool \<Rightarrow> 's \<times> go_error option" where
  "allocateNetwork E a s network vid dryRun =
     (if \<not> networkIDSynced E s then (s, Some (ErrMsg ''allocator not ready''))
      else case ParseVNI vid of
        Inl err \<Rightarrow> (s, Some err)
      | Inr vni \<Rightarrow>
          if vni < minVNI a \<or> vni > maxVNI a then (s, Some ErrNotInRange)
          else if dryRun then (s, None)
          else createNetworkID E s (EncodeVNI vni) network)"

text \<open>\<open>rand.Int31n(diff)\<close> is the argument \<open>n\<close>; it lies below \<open>diff\<close>.\<close>

definition randomVNIIteratorStart :: "int \<Rightarrow> int \<Rightarrow> int \<Rightarrow> int" where
  "randomVNIIteratorStart mn mx n = i32 (mn + n)"

definition vni_next :: "int \<Rightarrow> int \<Rightarrow> int \<Rightarrow> int" where
  "vni_next mn mx vni = (if vni = mx then mn else i32 (vni + 1))"

definition vniIterator :: "int \<Rightarrow> int \<Rightarrow> int \<Rightarrow> int \<times> bool \<Rightarrow> int option \<times> (int \<times> bool)" where
  "vniIterator mn mx start = cyclic_iter (vni_next mn mx) start"

definition allocate_vni :: "'s nid_env \<Rightarrow> core_Network \<Rightarrow> 's \<Rightarrow> int \<Rightarrow> 's \<times> string option" where
  "allocate_vni E network s vni =
     (let name = EncodeVNI vni in
      case networkIDLister E s name of
        Inr _ \<Rightarrow> (s, None)
      | Inl err \<Rightarrow>
          if \<not> IsNotFound err then (s, None)
          else (case createNetworkID E s name network of
                  (s', Some _) \<Rightarrow> (s', None)
                | (s', None) \<Rightarrow> (s', Some (EncodeVNI vni))))"

definition allocateFromRange ::
  "nat \<Rightarrow> 's nid_env \<Rightarrow> 's \<Rightarrow> (int \<times> bool \<Rightarrow> int option \<times> (int \<times> bool)) \<Rightarrow> int \<times> bool \<Rightarrow>
   core_Network \<Rightarrow> ('s \<times> string result) option" where
  "allocateFromRange fuel E s iterator i0 network =
     map_option (\<lambda>(s', r). (s', case r of None \<Rightarrow> Inl ErrFull | Some vid \<Rightarrow> Inr vid))
       (loop_iter fuel iterator (allocate_vni E network) s i0)"

definition allocateNextNetwork ::
  "nat \<Rightarrow> 's nid_env \<Rightarrow> nid_allocator \<Rightarrow> int \<Rightarrow> 's \<Rightarrow> core_Network \<Rightarrow> bool \<Rightarrow> ('s \<times> string result) option" where
  "allocateNextNetwork fuel E a n s network dryRun =
     (if \<not> networkIDSynced E s then Some (s, Inl (ErrMsg ''allocator not ready''))
      else if dryRun then Some (s, Inr (EncodeVNI (minVNI a)))
      else let start = randomVNIIteratorStart (minVNI a) (maxVNI a) n in
           allocateFromRange fuel E s (vniIterator (minVNI a) (maxVNI a) start) (start, False) network)"

definition nid_release :: "'s nid_env \<Rightarrow> 's \<Rightarrow> string \<Rightarrow> bool \<Rightarrow> 's \<times> go_error option" where
  "nid_release E s vid dryRun =
     (if \<not> networkIDSynced E s then (s, Some (ErrMsg ''allocator not ready''))
      else if dryRun then (s, None)
      else (fst (rc_delete (nid_client E) s (cluster_key vid)), None))"

text \<open>
  \<open>networkidallocator.Interface\<close>: the real allocator and, with \<open>dryRun\<close>, the one its
  \<open>DryRun\<close> returns.
\<close>

record 's nid_interface =
  AllocateNetwork :: "'s \<Rightarrow> core_Network \<Rightarrow> string \<Rightarrow> 's \<times> go_error option"
  AllocateNextNetwork :: "'s \<Rightarrow> core_Network \<Rightarrow> ('s \<times> string result) option"
  ReleaseNetwork :: "'s \<Rightarrow> string \<Rightarrow> 's \<times> go_error option"

definition nid_iface :: "nat \<Rightarrow> 's nid_env \<Rightarrow> nid_allocator \<Rightarrow> int \<Rightarrow> bool \<Rightarrow> 's nid_interface" where
  "nid_iface fuel E a n dryRun =
     \<lparr>AllocateNetwork = (\<lambda>s network vid. allocateNetwork E a s network vid dryRun),
      AllocateNextNetwork = (\<lambda>s network. allocateNextNetwork fuel E a n s network dryRun),
      ReleaseNetwork = (\<lambda>s vid. nid_release E s vid dryRun)\<rparr>"

section \<open>The storage hooks\<close>

text \<open>
  \<open>beginCreate\<close> returns the network with its ID filled in and the ID the finish function
  captured; \<open>networkFinish\<close> is that function. The interface argument is a family: \<open>ifc True\<close>
  is what \<open>DryRun()\<close> returns.
\<close>

definition network_beginCreate ::
  "(bool \<Rightarrow> 's nid_interface) \<Rightarrow> 's \<Rightarrow> core_Network \<Rightarrow> bool \<Rightarrow> ('s \<times> (core_Network \<times> string) result) option"
where
  "network_beginCreate ifc s network dryRun =
     (let allocator = ifc dryRun; vid = netspec_ID (net_Spec network) in
      if vid \<noteq> [] then
        (case AllocateNetwork allocator s network vid of
           (s', Some err) \<Rightarrow> Some (s', Inl err)
         | (s', None) \<Rightarrow> Some (s', Inr (network, vid)))
      else
        (case AllocateNextNetwork allocator s network of
           None \<Rightarrow> None
         | Some (s', Inl err) \<Rightarrow> Some (s', Inl err)
         | Some (s', Inr newID) \<Rightarrow> Some (s', Inr (network\<lparr>net_Spec := \<lparr>netspec_ID = newID\<rparr>\<rparr>, newID))))"

definition network_finishCreate :: "(bool \<Rightarrow> 's nid_interface) \<Rightarrow> 's \<Rightarrow> bool \<Rightarrow> string \<Rightarrow> bool \<Rightarrow> 's" where
  "network_finishCreate ifc s dryRun vid success =
     (if success then s else fst (ReleaseNetwork (ifc dryRun) s vid))"

definition network_afterDelete :: "(bool \<Rightarrow> 's nid_interface) \<Rightarrow> 's \<Rightarrow> core_Network \<Rightarrow> bool \<Rightarrow> 's" where
  "network_afterDelete ifc s network dryRun =
     (if dryRun then s else fst (ReleaseNetwork (ifc False) s (netspec_ID (net_Spec network))))"

section \<open>The iterator covers the range\<close>

definition nid_allocator_ok :: "nid_allocator \<Rightarrow> bool" where
  "nid_allocator_ok a \<longleftrightarrow> 0 \<le> minVNI a \<and> minVNI a < maxVNI a \<and> maxVNI a < 2147483648"

lemma NewNetworkIDAllocator_ok:
  "NewNetworkIDAllocator mn mx = Inr a \<Longrightarrow> mx < 2147483648 \<Longrightarrow> nid_allocator_ok a"
  by (auto simp: NewNetworkIDAllocator_def nid_allocator_ok_def split: if_splits)

definition vni_order :: "nid_allocator \<Rightarrow> int \<Rightarrow> int list" where
  "vni_order a start = [start..maxVNI a] @ [minVNI a..start - 1]"

lemma map_upt_int: "map (\<lambda>i. mn + int i) [j..<k] = [mn + int j..mn + int k - 1]"
proof (induction k)
  case 0
  then show ?case by simp
next
  case (Suc k)
  show ?case
  proof (cases "j \<le> k")
    case True
    with Suc show ?thesis by (simp add: upto_rec2 [of "mn + int j" "mn + int k"])
  next
    case False
    then show ?thesis by simp
  qed
qed

lemma vniIterator_yields:
  assumes ok: "nid_allocator_ok a" and st: "minVNI a \<le> start" "start \<le> maxVNI a"
  shows "yields (vniIterator (minVNI a) (maxVNI a) start) (start, False) (vni_order a start)"
proof -
  let ?mn = "minVNI a" and ?N = "nat (maxVNI a - minVNI a + 1)" and ?k = "nat (start - minVNI a)"
  let ?elem = "\<lambda>i. ?mn + int i"
  have "yields (cyclic_iter (vni_next ?mn (maxVNI a)) (?elem ?k)) (?elem ?k, False)
      (map ?elem ([?k..<?N] @ [0..<?k]))"
    by (rule cyclic_iter_yields_range)
      (use ok st in \<open>auto simp: vni_next_def nid_allocator_ok_def inj_on_def\<close>)
  moreover have "map ?elem ([?k..<?N] @ [0..<?k]) = vni_order a start" "?elem ?k = start"
    using ok st by (simp_all add: map_upt_int vni_order_def nid_allocator_ok_def)
  ultimately show ?thesis by (simp add: vniIterator_def)
qed

lemma set_vni_order:
  "minVNI a \<le> start \<Longrightarrow> start \<le> maxVNI a \<Longrightarrow> set (vni_order a start) = {minVNI a..maxVNI a}"
  by (auto simp: vni_order_def)

lemma length_vni_order:
  "minVNI a \<le> start \<Longrightarrow> start \<le> maxVNI a \<Longrightarrow> length (vni_order a start) = nat (maxVNI a - minVNI a + 1)"
  by (simp add: vni_order_def)

lemma start_in_range:
  assumes "nid_allocator_ok a" "0 \<le> n" "n < maxVNI a - minVNI a"
  shows "minVNI a \<le> randomVNIIteratorStart (minVNI a) (maxVNI a) n"
    and "randomVNIIteratorStart (minVNI a) (maxVNI a) n \<le> maxVNI a"
  using assms by (auto simp: randomVNIIteratorStart_def nid_allocator_ok_def)

text \<open>
  The loop is the search of a free ID along \<open>vni_order\<close>; one unit of fuel more than the size
  of the range is enough.
\<close>

lemma allocateNextNetwork_search:
  assumes "nid_allocator_ok a" "0 \<le> n" "n < maxVNI a - minVNI a" "networkIDSynced E s"
    and "nat (maxVNI a - minVNI a) + 1 < fuel"
  shows "allocateNextNetwork fuel E a n s network False =
    (let (s', r) = first_success (allocate_vni E network) s
                     (vni_order a (randomVNIIteratorStart (minVNI a) (maxVNI a) n))
     in Some (s', case r of None \<Rightarrow> Inl ErrFull | Some vid \<Rightarrow> Inr vid))"
proof -
  let ?st = "randomVNIIteratorStart (minVNI a) (maxVNI a) n"
  have st: "minVNI a \<le> ?st" "?st \<le> maxVNI a" using start_in_range assms by auto
  have "length (vni_order a ?st) < fuel"
    using assms st by (simp add: length_vni_order nid_allocator_ok_def)
  then have "loop_iter fuel (vniIterator (minVNI a) (maxVNI a) ?st) (allocate_vni E network) s (?st, False)
     = Some (first_success (allocate_vni E network) s (vni_order a ?st))"
    using vniIterator_yields [OF assms(1) st] by (rule loop_iter_first_success [rotated])
  then show ?thesis using assms
    by (simp add: allocateNextNetwork_def allocateFromRange_def Let_def split: prod.splits)
qed

section \<open>The allocator over the server's laws\<close>

abbreviation nid_key :: "NetworkID \<Rightarrow> ObjectKey" where
  "nid_key x \<equiv> meta_key (nid_Meta x)"

lemma new_NetworkID_key [simp]: "nid_key (new_NetworkID name network) = cluster_key name"
  by (simp add: new_NetworkID_def)

lemma new_NetworkID_spec [simp]:
  "nid_Spec (new_NetworkID name network) = \<lparr>nidspec_ClaimRef = networkToRef network\<rparr>"
  by (simp add: new_NetworkID_def)

locale nid_server = resource_api "nid_client E" objs nid_key nid_Spec
  for E :: "'s nid_env" and objs :: "'s \<Rightarrow> ObjectKey \<rightharpoonup> NetworkID"
begin

lemma createNetworkID_ok:
  assumes "createNetworkID E s name network = (s', None)"
  shows "objs s (cluster_key name) = None" and
    "\<exists>x. objs s' = (objs s)(cluster_key name \<mapsto> x) \<and> nid_Spec x = \<lparr>nidspec_ClaimRef = networkToRef network\<rparr>"
  using assms by (cases rule: create_cases [of s "new_NetworkID name network"];
      auto simp: createNetworkID_def)+

lemma createNetworkID_err: "createNetworkID E s name network = (s', Some e) \<Longrightarrow> objs s' = objs s"
  by (cases rule: create_cases [of s "new_NetworkID name network"]) (auto simp: createNetworkID_def)

lemma allocate_vni_None: "allocate_vni E network s vni = (s', None) \<Longrightarrow> objs s' = objs s"
  by (auto simp: allocate_vni_def Let_def split: sum.splits if_splits prod.splits option.splits
      dest: createNetworkID_err)

lemma allocate_vni_Some:
  assumes "allocate_vni E network s vni = (s', Some v)"
  shows "v = EncodeVNI vni \<and> objs s (cluster_key v) = None \<and>
    (\<exists>x. objs s' = (objs s)(cluster_key v \<mapsto> x) \<and> nid_Spec x = \<lparr>nidspec_ClaimRef = networkToRef network\<rparr>)"
  using assms createNetworkID_ok
  by (fastforce simp: allocate_vni_def Let_def split: sum.splits if_splits prod.splits option.splits)

lemma search_Some:
  assumes "first_success (allocate_vni E network) s xs = (s', Some v)"
  shows "\<exists>vni\<in>set xs. v = EncodeVNI vni \<and> objs s (cluster_key v) = None \<and>
    (\<exists>x. objs s' = (objs s)(cluster_key v \<mapsto> x) \<and> nid_Spec x = \<lparr>nidspec_ClaimRef = networkToRef network\<rparr>)"
proof -
  have "\<exists>vni\<in>set xs. \<exists>t. objs t = objs s \<and> allocate_vni E network t vni = (s', Some v)"
    by (rule first_success_Some [OF assms]) (auto dest: allocate_vni_None)
  then show ?thesis by (metis allocate_vni_Some)
qed

lemma search_None:
  "first_success (allocate_vni E network) s xs = (s', None) \<Longrightarrow> objs s' = objs s"
proof (induction xs arbitrary: s)
  case (Cons x xs)
  then show ?case
    by (fastforce split: prod.splits option.splits dest: allocate_vni_None)
qed simp

lemma allocateNetwork_ok:
  assumes "allocateNetwork E a s network v False = (s', None)"
  obtains vni where "ParseVNI v = Inr vni" "minVNI a \<le> vni" "vni \<le> maxVNI a"
    "objs s (cluster_key (EncodeVNI vni)) = None"
    "\<exists>x. objs s' = (objs s)(cluster_key (EncodeVNI vni) \<mapsto> x) \<and>
         nid_Spec x = \<lparr>nidspec_ClaimRef = networkToRef network\<rparr>"
  using assms that createNetworkID_ok
  by (fastforce simp: allocateNetwork_def split: if_splits sum.splits)

lemma allocateNetwork_err: "allocateNetwork E a s network v dry = (s', Some e) \<Longrightarrow> objs s' = objs s"
  by (auto simp: allocateNetwork_def split: if_splits sum.splits dest: createNetworkID_err)

end

text \<open>
  A reachable server whose informer cache is up to date: then the search misses no free ID.
\<close>

locale nid_server_reliable = nid_server E objs + reliable_api "nid_client E" objs nid_key nid_Spec
  for E :: "'s nid_env" and objs +
  assumes lister_fresh: "networkIDLister E s name = rc_get (nid_client E) s (cluster_key name)"
    and synced: "networkIDSynced E s"
begin

lemma allocate_vni_free:
  assumes "objs s (cluster_key (EncodeVNI vni)) = None"
  shows "\<exists>s'. allocate_vni E network s vni = (s', Some (EncodeVNI vni))"
proof -
  obtain s' x' where "rc_create (nid_client E) s (new_NetworkID (EncodeVNI vni) network) = (s', Inr x')"
    using create_free [of s "new_NetworkID (EncodeVNI vni) network"] assms by auto
  then show ?thesis
    using get_free [OF assms] by (simp add: allocate_vni_def lister_fresh createNetworkID_def)
qed

lemma search_None_iff:
  "snd (first_success (allocate_vni E network) s xs) = None \<longleftrightarrow>
     (\<forall>vni\<in>set xs. objs s (cluster_key (EncodeVNI vni)) \<noteq> None)"
proof (induction xs)
  case (Cons vni xs)
  show ?case
  proof (cases "objs s (cluster_key (EncodeVNI vni))")
    case None
    then show ?thesis using allocate_vni_free [of s vni network] by auto
  next
    case (Some x)
    then have "allocate_vni E network s vni = (s, None)"
      using get_taken by (simp add: allocate_vni_def lister_fresh)
    with Cons Some show ?thesis by simp
  qed
qed simp

lemma release_held:
  "objs (fst (nid_release E s v False)) = (objs s)(cluster_key v := None)"
proof (cases "rc_delete (nid_client E) s (cluster_key v)")
  case (Pair s' r)
  show ?thesis
  proof (cases r)
    case None
    with Pair delete_ok show ?thesis by (simp add: nid_release_def synced)
  next
    case (Some e)
    with Pair delete_taken have "objs s (cluster_key v) = None"
      by (cases "objs s (cluster_key v)") force+
    with Pair Some delete_err show ?thesis by (auto simp: nid_release_def synced)
  qed
qed

end

section \<open>The interface the storage relies on\<close>

locale network_id_allocator =
  fixes ifc :: "'s nid_interface"
    and held :: "'s \<Rightarrow> string set"
  assumes next_new: "AllocateNextNetwork ifc s network = Some (s', Inr v) \<Longrightarrow>
      v \<noteq> [] \<and> v \<notin> held s \<and> held s' = insert v (held s)"
    and next_failed: "AllocateNextNetwork ifc s network = Some (s', Inl e) \<Longrightarrow> held s' = held s"
    and named_failed: "AllocateNetwork ifc s network v = (s', Some e) \<Longrightarrow> held s' = held s"
    and release_frees: "held (fst (ReleaseNetwork ifc s v)) = held s - {v}"
begin

text \<open>A network created without an ID and rolled back, or deleted, leaves no ID behind.\<close>

lemma create_rollback:
  assumes "network_beginCreate (\<lambda>_. ifc) s network False = Some (s', Inr (network', v))"
    and "netspec_ID (net_Spec network) = []"
  shows "held (network_finishCreate (\<lambda>_. ifc) s' False v False) = held s"
  using assms next_new [of s network s' v] release_frees
  by (auto simp: network_beginCreate_def network_finishCreate_def
      split: option.splits sum.splits prod.splits)

lemma create_delete:
  assumes "network_beginCreate (\<lambda>_. ifc) s network False = Some (s', Inr (network', v))"
    and "netspec_ID (net_Spec network) = []"
  shows "held (network_afterDelete (\<lambda>_. ifc) s' network' False) = held s"
  using assms next_new [of s network s' v] release_frees
  by (auto simp: network_beginCreate_def network_afterDelete_def
      split: option.splits sum.splits prod.splits)

lemma create_failed:
  "network_beginCreate (\<lambda>_. ifc) s network False = Some (s', Inl e) \<Longrightarrow> held s' = held s"
  by (auto simp: network_beginCreate_def Let_def dest: next_failed named_failed
      split: option.splits sum.splits prod.splits if_splits)

end

definition held_ids :: "('s \<Rightarrow> ObjectKey \<rightharpoonup> NetworkID) \<Rightarrow> 's \<Rightarrow> string set" where
  "held_ids objs s = {v. objs s (cluster_key v) \<noteq> None}"

text \<open>The allocator of the code provides the interface.\<close>

locale nid_alloc = nid_server_reliable E objs
  for E :: "'s nid_env" and objs +
  fixes a :: nid_allocator and n :: int and fuel :: nat
  assumes a_ok: "nid_allocator_ok a" and n_range: "0 \<le> n" "n < maxVNI a - minVNI a"
    and fuel_ok: "nat (maxVNI a - minVNI a) + 1 < fuel"
begin

lemma search_eq:
  "allocateNextNetwork fuel E a n s network False =
    (let (s', r) = first_success (allocate_vni E network) s
                     (vni_order a (randomVNIIteratorStart (minVNI a) (maxVNI a) n))
     in Some (s', case r of None \<Rightarrow> Inl ErrFull | Some v \<Rightarrow> Inr v))"
  by (rule allocateNextNetwork_search) (use a_ok n_range fuel_ok synced in auto)

lemma contract: "network_id_allocator (nid_iface fuel E a n False) (held_ids objs)"
proof
  fix s network s' v e
  show "AllocateNextNetwork (nid_iface fuel E a n False) s network = Some (s', Inr v) \<Longrightarrow>
      v \<noteq> [] \<and> v \<notin> held_ids objs s \<and> held_ids objs s' = insert v (held_ids objs s)"
    by (auto simp: nid_iface_def search_eq held_ids_def split: prod.splits option.splits
        dest!: search_Some)
  show "AllocateNextNetwork (nid_iface fuel E a n False) s network = Some (s', Inl e) \<Longrightarrow>
      held_ids objs s' = held_ids objs s"
    by (auto simp: nid_iface_def search_eq held_ids_def split: prod.splits option.splits
        dest: search_None)
  show "AllocateNetwork (nid_iface fuel E a n False) s network v = (s', Some e) \<Longrightarrow>
      held_ids objs s' = held_ids objs s"
    by (auto simp: nid_iface_def held_ids_def dest: allocateNetwork_err)
  show "held_ids objs (fst (ReleaseNetwork (nid_iface fuel E a n False) s v)) = held_ids objs s - {v}"
    by (auto simp: nid_iface_def held_ids_def release_held)
qed

end

sublocale nid_alloc \<subseteq> network_id_allocator "nid_iface fuel E a n False" "held_ids objs"
  by (rule contract)

definition mem_nid_env :: "NetworkID mem_store nid_env" where
  "mem_nid_env =
     \<lparr>nid_client = mem_client nid_key,
      networkIDLister = (\<lambda>s name. rc_get (mem_client nid_key) s (cluster_key name)),
      networkIDSynced = (\<lambda>_. True)\<rparr>"

lemma mem_nid_reliable: "reliable_api (nid_client mem_nid_env) map_of nid_key nid_Spec"
  by (simp add: mem_nid_env_def mem.reliable_api_axioms)

lemmas mem_nid_resource = reliable_api.axioms(1) [OF mem_nid_reliable]

lemma mem_nid_server_reliable: "nid_server_reliable mem_nid_env map_of"
  by (intro nid_server_reliable.intro nid_server.intro nid_server_reliable_axioms.intro
      mem_nid_reliable mem_nid_resource) (simp_all add: mem_nid_env_def)

interpretation mem_nid: nid_alloc mem_nid_env map_of "\<lparr>minVNI = 200, maxVNI = 16777215\<rparr>" 0 16777217
  by (intro nid_alloc.intro nid_alloc_axioms.intro mem_nid_server_reliable)
    (simp_all add: nid_allocator_ok_def)

section \<open>Properties\<close>

text \<open>
  C2. On any API server, allocating the next network ID always returns; when it returns an
  ID, that ID encodes a VNI of the configured range, no object had its name before, and the
  only change to the stored IDs is the new one, claimed by the network; otherwise the error is
  \<open>ErrFull\<close> and nothing changed. The informer has synced, and the random offset lies in the range.
\<close>

theorem allocateNextNetwork_safe:
  assumes "nid_server E objs" and "nid_allocator_ok a"
    and "0 \<le> n" "n < maxVNI a - minVNI a" and "networkIDSynced E s"
    and "nat (maxVNI a - minVNI a) + 1 < fuel"
  shows "\<exists>s' r. allocateNextNetwork fuel E a n s network False = Some (s', r) \<and>
    (case r of
       Inr v \<Rightarrow> (\<exists>vni. minVNI a \<le> vni \<and> vni \<le> maxVNI a \<and> v = EncodeVNI vni) \<and>
         objs s (cluster_key v) = None \<and>
         (\<exists>x. objs s' = (objs s)(cluster_key v \<mapsto> x) \<and>
              nidspec_ClaimRef (nid_Spec x) = networkToRef network)
     | Inl e \<Rightarrow> e = ErrFull \<and> objs s' = objs s)"
proof -
  let ?st = "randomVNIIteratorStart (minVNI a) (maxVNI a) n"
  obtain s' r where f: "first_success (allocate_vni E network) s (vni_order a ?st) = (s', r)"
    by fastforce
  have eq: "allocateNextNetwork fuel E a n s network False =
      Some (s', case r of None \<Rightarrow> Inl ErrFull | Some v \<Rightarrow> Inr v)"
    using allocateNextNetwork_search [OF assms(2-6)] f by simp
  show ?thesis
  proof (cases r)
    case None
    then show ?thesis using eq nid_server.search_None [OF assms(1)] f by auto
  next
    case (Some v)
    then obtain vni x where "vni \<in> set (vni_order a ?st)" "v = EncodeVNI vni"
      "objs s (cluster_key v) = None" "objs s' = (objs s)(cluster_key v \<mapsto> x)"
      "nid_Spec x = \<lparr>nidspec_ClaimRef = networkToRef network\<rparr>"
      using nid_server.search_Some [OF assms(1)] f by metis
    moreover have "set (vni_order a ?st) = {minVNI a..maxVNI a}"
      using start_in_range assms(2-4) by (simp add: set_vni_order)
    ultimately show ?thesis using eq Some by auto
  qed
qed

definition example_network :: "string \<Rightarrow> core_Network" where
  "example_network v =
     \<lparr>net_Meta = zero_meta\<lparr>om_Namespace := ''ns'', om_Name := ''net'', om_UID := ''u1''\<rparr>,
      net_Spec = \<lparr>netspec_ID = v\<rparr>\<rparr>"

definition example_allocator :: nid_allocator where
  "example_allocator = \<lparr>minVNI = 1, maxVNI = 3\<rparr>"

lemma example_allocator_ok: "nid_allocator_ok example_allocator" "maxVNI example_allocator = 3"
  "minVNI example_allocator = 1"
  by (simp_all add: example_allocator_def nid_allocator_ok_def)

theorem allocateNextNetwork_safe_witness:
  "\<exists>s' r. allocateNextNetwork 10 mem_nid_env example_allocator 1 [] (example_network []) False
     = Some (s', r) \<and>
    (case r of
       Inr v \<Rightarrow> (\<exists>vni. minVNI example_allocator \<le> vni \<and> vni \<le> maxVNI example_allocator \<and> v = EncodeVNI vni) \<and>
         (map_of [] (cluster_key v) :: NetworkID option) = None \<and>
         (\<exists>x. map_of s' = (map_of [])(cluster_key v \<mapsto> x) \<and>
              nidspec_ClaimRef (nid_Spec x) = networkToRef (example_network []))
     | Inl e \<Rightarrow> e = ErrFull \<and> map_of s' = map_of [])"
  by (rule allocateNextNetwork_safe)
    (simp_all add: example_allocator_ok mem_nid_env_def
      nid_server_reliable.axioms(1) [OF mem_nid_server_reliable, unfolded mem_nid_env_def])

text \<open>
  C24. On a reachable server with a fresh informer cache the search is complete: allocating
  the next network ID reports \<open>ErrFull\<close> exactly when every VNI of the range is taken.
\<close>

theorem allocateNextNetwork_complete:
  assumes "nid_server_reliable E objs" and "nid_allocator_ok a"
    and "0 \<le> n" "n < maxVNI a - minVNI a"
    and "nat (maxVNI a - minVNI a) + 1 < fuel"
  shows "(\<exists>s'. allocateNextNetwork fuel E a n s network False = Some (s', Inl ErrFull)) \<longleftrightarrow>
    (\<forall>vni. minVNI a \<le> vni \<and> vni \<le> maxVNI a \<longrightarrow> objs s (cluster_key (EncodeVNI vni)) \<noteq> None)"
proof -
  let ?st = "randomVNIIteratorStart (minVNI a) (maxVNI a) n"
  obtain s' r where f: "first_success (allocate_vni E network) s (vni_order a ?st) = (s', r)"
    by fastforce
  have syn: "networkIDSynced E s" using assms(1) by (simp add: nid_server_reliable.synced)
  have eq: "allocateNextNetwork fuel E a n s network False =
      Some (s', case r of None \<Rightarrow> Inl ErrFull | Some v \<Rightarrow> Inr v)"
    using allocateNextNetwork_search [OF assms(2-4) syn assms(5)] f by simp
  have "set (vni_order a ?st) = {minVNI a..maxVNI a}"
    using start_in_range assms(2-4) by (simp add: set_vni_order)
  then have "r = None \<longleftrightarrow>
      (\<forall>vni. minVNI a \<le> vni \<and> vni \<le> maxVNI a \<longrightarrow> objs s (cluster_key (EncodeVNI vni)) \<noteq> None)"
    using nid_server_reliable.search_None_iff [OF assms(1), of network s "vni_order a ?st"] f
    by auto
  then show ?thesis using eq by (auto split: option.splits)
qed

theorem allocateNextNetwork_complete_witness:
  "(\<exists>s'. allocateNextNetwork 10 mem_nid_env \<lparr>minVNI = 1, maxVNI = 2\<rparr> 0 [] (example_network []) False
      = Some (s', Inl ErrFull)) \<longleftrightarrow>
    (\<forall>vni. 1 \<le> vni \<and> vni \<le> 2 \<longrightarrow> map_of [] (cluster_key (EncodeVNI vni)) \<noteq> (None :: NetworkID option))"
  using allocateNextNetwork_complete [OF mem_nid_server_reliable,
      of "\<lparr>minVNI = 1, maxVNI = 2\<rparr>" 0 10 "[]" "example_network []"]
  by (simp add: nid_allocator_ok_def)

text \<open>
  Encoding and parsing of VNIs are inverse on all 32 bit integers: every VNI is read back
  from its name, and a name that parses to a VNI is either canonical or names the same VNI as
  its canonical form.
\<close>

theorem VNI_roundtrip:
  "(in_i32 v \<longrightarrow> ParseVNI (EncodeVNI v) = Inr v) \<and>
   (ParseVNI s = Inr v \<longrightarrow> in_i32 v \<and> ParseVNI (EncodeVNI v) = ParseVNI s)"
  using ParseVNI_Encode ParseVNI_Some by auto

theorem VNI_roundtrip_witness:
  "ParseVNI (EncodeVNI 4711) = Inr 4711 \<and> in_i32 7 \<and> ParseVNI (EncodeVNI 7) = ParseVNI ''007''"
proof -
  have "in_i32 4711" "ParseVNI ''007'' = Inr 7"
    by (simp_all add: in_i32_def ParseVNI_def ParseInt32_def ParseUint10_def digit_val_def)
  then show ?thesis using VNI_roundtrip [of 4711] VNI_roundtrip [of 7 "''007''"] by blast
qed

text \<open>
  C22. A network that is created without an ID and then rolled back, or deleted, gives its ID
  back: the set of held IDs is what it was before. A create that fails holds no ID. The server answers
  reliably (the code ignores an error of the release).
\<close>

theorem network_create_release:
  assumes "nid_alloc E objs a n fuel"
    and "network_beginCreate (nid_iface fuel E a n) s network False = Some (s', r)"
    and "netspec_ID (net_Spec network) = []"
  shows "case r of
      Inl e \<Rightarrow> held_ids objs s' = held_ids objs s
    | Inr (network', v) \<Rightarrow> v \<notin> held_ids objs s \<and> held_ids objs s' = insert v (held_ids objs s) \<and>
        netspec_ID (net_Spec network') = v \<and>
        held_ids objs (network_finishCreate (nid_iface fuel E a n) s' False v False) = held_ids objs s \<and>
        held_ids objs (network_afterDelete (nid_iface fuel E a n) s' network' False) = held_ids objs s"
proof -
  let ?i = "nid_iface fuel E a n False"
  have loc: "network_id_allocator ?i (held_ids objs)"
    using assms(1) by (rule nid_alloc.contract)
  show ?thesis
  proof (cases r)
    case (Inl e)
    then show ?thesis using network_id_allocator.create_failed [OF loc] assms(2)
      by (simp add: network_beginCreate_def)
  next
    case (Inr p)
    obtain network' v where p: "p = (network', v)" by fastforce
    have b: "network_beginCreate (\<lambda>_. ?i) s network False = Some (s', Inr (network', v))"
      using assms(2) Inr p by (simp add: network_beginCreate_def)
    then have "AllocateNextNetwork ?i s network = Some (s', Inr v) \<and> netspec_ID (net_Spec network') = v"
      using assms(3) by (auto simp: network_beginCreate_def split: option.splits sum.splits)
    then show ?thesis
      using Inr p network_id_allocator.next_new [OF loc]
        network_id_allocator.create_rollback [OF loc b assms(3)]
        network_id_allocator.create_delete [OF loc b assms(3)]
      by (auto simp: network_finishCreate_def network_afterDelete_def)
  qed
qed

lemma example_nid_alloc: "nid_alloc mem_nid_env map_of example_allocator 0 10"
  by (intro nid_alloc.intro nid_alloc_axioms.intro mem_nid_server_reliable)
    (simp_all add: example_allocator_ok)

lemmas nid_eval = Let_def nid_iface_def network_beginCreate_def network_afterDelete_def
  network_finishCreate_def allocateNextNetwork_def allocateNetwork_def allocateFromRange_def
  allocate_vni_def createNetworkID_def nid_release_def vniIterator_def cyclic_iter_def
  randomVNIIteratorStart_def vni_next_def loop_iter_numeral mem_nid_env_def mem_client_def
  example_network_def example_allocator_def EncodeVNI_def FormatInt_def dec_nat.simps
  ParseVNI_def ParseInt32_def ParseUint10_def digit_val_def held_ids_def cluster_key_def
  new_NetworkID_def meta_key_def zero_meta_def

theorem network_create_release_witness:
  "\<exists>s' network' v. network_beginCreate (nid_iface 10 mem_nid_env example_allocator 0) [] (example_network []) False
      = Some (s', Inr (network', v)) \<and>
    v \<notin> held_ids map_of [] \<and> held_ids map_of s' = insert v (held_ids map_of []) \<and>
    held_ids map_of (network_afterDelete (nid_iface 10 mem_nid_env example_allocator 0) s' network' False)
      = held_ids map_of []"
proof -
  obtain s' network' v where r: "network_beginCreate (nid_iface 10 mem_nid_env example_allocator 0) []
      (example_network []) False = Some (s', Inr (network', v))"
    by (simp add: nid_eval)
  moreover have "netspec_ID (net_Spec (example_network [])) = []" by (simp add: example_network_def)
  ultimately show ?thesis using network_create_release [OF example_nid_alloc r] by auto
qed

text \<open>
  The code does not release an ID that was requested in a non-canonical spelling: a
  network created with the ID \<open>007\<close> holds the network ID object \<open>7\<close>, and deleting the
  network asks for the object \<open>007\<close>, so the ID \<open>7\<close> stays held.
\<close>

theorem noncanonical_id_leaks:
  "\<exists>s'. network_beginCreate (nid_iface 10 mem_nid_env \<lparr>minVNI = 1, maxVNI = 9\<rparr> 0) []
        (example_network ''007'') False = Some (s', Inr (example_network ''007'', ''007'')) \<and>
      held_ids map_of s' = {''7''} \<and>
      held_ids map_of (network_afterDelete (nid_iface 10 mem_nid_env \<lparr>minVNI = 1, maxVNI = 9\<rparr> 0) s'
        (example_network ''007'') False) = {''7''}"
  by (auto simp: nid_eval)

end
