(* ===== verification/IPAddresses.thy ===== *)
theory IPAddresses
  imports ApiStore
begin

unbundle bit_operations_syntax

text \<open>
  Public IP addresses: the allocator of \<open>internal/registry/ip/ipaddressallocator\<close>, which
  records an allocated address as an \<open>IPAddress\<close> object named by the address, and the
  hooks of \<open>internal/registry/ip/storage.go\<close> that allocate an address for an \<open>IP\<close>.
\<close>

section \<open>The allocator\<close>

definition ia_ErrFull :: go_error where "ia_ErrFull = Sentinel ''all IPs are allocated''"
definition ia_ErrAllocated :: go_error where "ia_ErrAllocated = Sentinel ''provided IP is already allocated''"
definition ia_ErrNotInRange :: go_error where "ia_ErrNotInRange = Sentinel ''the provided IP is not in range''"

record ia_allocator =
  ia_family :: IPFamily
  ia_prefix :: prefix
  ia_firstIP :: addr
  ia_lastIP :: addr
  ia_size :: int

record 's ia_env =
  ia_client :: "('s, IPAddress) resource_client"
  ipAddressSynced :: "'s \<Rightarrow> bool"

text \<open>\<open>netipx.PrefixLastIP\<close> of a third-party package is an argument.\<close>

definition ia_New :: "(prefix \<Rightarrow> addr) \<Rightarrow> prefix \<Rightarrow> ia_allocator" where
  "ia_New PrefixLastIP prefix =
     \<lparr>ia_family = (if Is6 (p_Addr prefix) then IPv6Protocol else IPv4Protocol),
      ia_prefix = prefix,
      ia_firstIP = p_Addr (Masked prefix),
      ia_lastIP = PrefixLastIP prefix,
      ia_size = PrefixSize prefix\<rparr>"

definition new_IPAddress :: "string \<Rightarrow> IPAddressClaimRef \<Rightarrow> IPAddress" where
  "new_IPAddress name claimRef =
     \<lparr>ia_Meta = zero_meta\<lparr>om_Name := name\<rparr>, ia_Spec = \<lparr>iaspec_IP = ZeroAddr, iaspec_ClaimRef = claimRef\<rparr>\<rparr>"

definition createIPAddress ::
  "'s ia_env \<Rightarrow> 's \<Rightarrow> string \<Rightarrow> IPAddressClaimRef \<Rightarrow> 's \<times> go_error option" where
  "createIPAddress E s name claimRef =
     (case rc_create (ia_client E) s (new_IPAddress name claimRef) of
        (s', Inl err) \<Rightarrow> (s', Some (if IsAlreadyExists err then ia_ErrAllocated else err))
      | (s', Inr _) \<Rightarrow> (s', None))"

definition ia_allocate ::
  "'s ia_env \<Rightarrow> ia_allocator \<Rightarrow> 's \<Rightarrow> IPAddressClaimRef \<Rightarrow> addr \<Rightarrow> bool \<Rightarrow> 's \<times> go_error option" where
  "ia_allocate E a s claimRef ip dryRun =
     (if \<not> ipAddressSynced E s then (s, Some (ErrMsg ''allocator not ready''))
      else if \<not> IsValid ip then (s, Some (ErrMsg ''invalid IP''))
      else if ip < ia_firstIP a \<or> ia_lastIP a < ip then (s, Some ia_ErrNotInRange)
      else if dryRun then (s, None)
      else createIPAddress E s (addr_String ip) claimRef)"

definition ip_modulo :: "addr \<Rightarrow> addr \<Rightarrow> addr \<Rightarrow> addr" where
  "ip_modulo firstA lastA a = (if Compare a lastA = 1 then firstA else a)"

definition ip_next :: "addr \<Rightarrow> addr \<Rightarrow> addr \<Rightarrow> addr" where
  "ip_next firstA lastA a = ip_modulo firstA lastA (Next a)"

text \<open>
  The closure of \<open>ipIterator\<close>, as a step function on the captured \<open>ip\<close> and \<open>seen\<close>, with
  the initial values of the two; an invalid address is its end.
\<close>

definition ipIterator_step :: "addr \<Rightarrow> addr \<Rightarrow> addr \<Rightarrow> addr \<times> bool \<Rightarrow> addr \<times> (addr \<times> bool)" where
  "ipIterator_step firstA lastA start st =
     (let (ip, seen) = st; value = ip in
      if value = start \<and> seen then (ZeroAddr, st)
      else (value, (ip_next firstA lastA ip, seen \<or> value = start)))"

definition ipIterator ::
  "addr \<Rightarrow> addr \<Rightarrow> nat \<Rightarrow> (addr \<times> bool \<Rightarrow> addr \<times> (addr \<times> bool)) \<times> (addr \<times> bool)" where
  "ipIterator firstA lastA offset =
     (case AddOffsetAddress firstA offset of
        Inl _ \<Rightarrow> ((\<lambda>st. (ZeroAddr, st)), (ZeroAddr, False))
      | Inr start0 \<Rightarrow>
          let start = ip_modulo firstA lastA start0 in (ipIterator_step firstA lastA start, (start, False)))"

definition try_address :: "'s ia_env \<Rightarrow> IPAddressClaimRef \<Rightarrow> 's \<Rightarrow> addr \<Rightarrow> 's \<times> addr option" where
  "try_address E claimRef s a =
     (let name = addr_String a in
      case rc_get (ia_client E) s (cluster_key name) of
        Inr _ \<Rightarrow> (s, None)
      | Inl err \<Rightarrow>
          if \<not> IsNotFound err then (s, None)
          else (case createIPAddress E s name claimRef of
                  (s', Some _) \<Rightarrow> (s', None)
                | (s', None) \<Rightarrow> (s', Some a)))"

text \<open>\<open>addr := it(); if !addr.IsValid() { return ia_ErrFull }\<close>: an invalid address ends the loop.\<close>

definition valid_iter :: "('i \<Rightarrow> addr \<times> 'i) \<Rightarrow> 'i \<Rightarrow> addr option \<times> 'i" where
  "valid_iter it i = (let (a, i') = it i in (if IsValid a then Some a else None, i'))"

definition allocateFromIterator ::
  "nat \<Rightarrow> 's ia_env \<Rightarrow> 's \<Rightarrow> IPAddressClaimRef \<Rightarrow> ('i \<Rightarrow> addr \<times> 'i) \<Rightarrow> 'i \<Rightarrow> ('s \<times> addr result) option" where
  "allocateFromIterator fuel E s claimRef it i0 =
     map_option (\<lambda>(s', r). (s', case r of None \<Rightarrow> Inl ia_ErrFull | Some a \<Rightarrow> Inr a))
       (loop_iter fuel (valid_iter it) (try_address E claimRef) s i0)"

text \<open>\<open>rand.Int63n(size)\<close> is the argument \<open>rnd\<close>; it panics when the size is not positive.\<close>

definition ia_allocateNext ::
  "nat \<Rightarrow> 's ia_env \<Rightarrow> ia_allocator \<Rightarrow> nat \<Rightarrow> 's \<Rightarrow> IPAddressClaimRef \<Rightarrow> bool \<Rightarrow>
   ('s \<times> addr result) option outcome" where
  "ia_allocateNext fuel E a rnd s claimRef dryRun =
     (if \<not> ipAddressSynced E s then Returns (Some (s, Inl (ErrMsg ''allocator not ready'')))
      else if dryRun then Returns (Some (s, Inr (p_Addr (ia_prefix a))))
      else if ia_size a \<le> 0 then Panics
      else let (it, i0) = ipIterator (ia_firstIP a) (ia_lastIP a) rnd in
           Returns (allocateFromIterator fuel E s claimRef it i0))"

definition ia_release :: "'s ia_env \<Rightarrow> 's \<Rightarrow> addr \<Rightarrow> bool \<Rightarrow> 's \<times> go_error option" where
  "ia_release E s ip dryRun =
     (if \<not> ipAddressSynced E s then (s, Some (ErrMsg ''allocator not ready''))
      else if dryRun then (s, None)
      else (fst (rc_delete (ia_client E) s (cluster_key (addr_String ip))), None))"

record 's ia_interface =
  ia_IPFamily :: IPFamily
  AllocateAddr :: "'s \<Rightarrow> IPAddressClaimRef \<Rightarrow> addr \<Rightarrow> 's \<times> go_error option"
  AllocateNextAddr :: "'s \<Rightarrow> IPAddressClaimRef \<Rightarrow> ('s \<times> addr result) option outcome"
  ReleaseAddr :: "'s \<Rightarrow> addr \<Rightarrow> 's \<times> go_error option"

definition ia_iface :: "nat \<Rightarrow> 's ia_env \<Rightarrow> ia_allocator \<Rightarrow> nat \<Rightarrow> bool \<Rightarrow> 's ia_interface" where
  "ia_iface fuel E a rnd dryRun =
     \<lparr>ia_IPFamily = ia_family a,
      AllocateAddr = (\<lambda>s claimRef ip. ia_allocate E a s claimRef ip dryRun),
      AllocateNextAddr = (\<lambda>s claimRef. ia_allocateNext fuel E a rnd s claimRef dryRun),
      ReleaseAddr = (\<lambda>s ip. ia_release E s ip dryRun)\<rparr>"

section \<open>The storage hooks of IP\<close>

definition ip_claim_ref :: "core_IP \<Rightarrow> IPAddressClaimRef" where
  "ip_claim_ref ip =
     \<lparr>iaref_Group = GroupName, iaref_Resource = ''ips'', iaref_Namespace = om_Namespace (ip_Meta ip),
      iaref_Name = om_Name (ip_Meta ip), iaref_UID = om_UID (ip_Meta ip)\<rparr>"

definition set_ip_labels :: "'s ia_interface \<Rightarrow> addr \<Rightarrow> core_IP \<Rightarrow> core_IP" where
  "set_ip_labels alloc a ip =
     ip\<lparr>ip_Meta := (ip_Meta ip)\<lparr>om_Labels :=
        AList.update IPIPLabel (addr_String a)
          (AList.update IPFamilyLabel (ia_IPFamily alloc) (om_Labels (ip_Meta ip)))\<rparr>\<rparr>"

definition ip_beginCreate ::
  "(IPFamily \<rightharpoonup> (bool \<Rightarrow> 's ia_interface)) \<Rightarrow> 's \<Rightarrow> core_IP \<Rightarrow> bool \<Rightarrow>
   ('s \<times> (core_IP \<times> addr) result) option outcome" where
  "ip_beginCreate allocatorByFamily s ip dryRun =
     (case allocatorByFamily (ipspec_IPFamily (ip_Spec ip)) of
        None \<Rightarrow> Returns (Some (s, Inl (ErrMsg ''cannot allocate IPs of family'')))
      | Some allocs \<Rightarrow>
          let alloc = allocs dryRun; claimRef = ip_claim_ref ip; a = ipspec_IP (ip_Spec ip) in
          if IsValid a then
            (case AllocateAddr alloc s claimRef a of
               (s', Some err) \<Rightarrow> Returns (Some (s', Inl err))
             | (s', None) \<Rightarrow> Returns (Some (s', Inr (set_ip_labels alloc a ip, a))))
          else
            (case AllocateNextAddr alloc s claimRef of
               Panics \<Rightarrow> Panics
             | Returns None \<Rightarrow> Returns None
             | Returns (Some (s', Inl err)) \<Rightarrow> Returns (Some (s', Inl err))
             | Returns (Some (s', Inr newAddr)) \<Rightarrow>
                 Returns (Some (s', Inr (set_ip_labels alloc newAddr
                   (ip\<lparr>ip_Spec := (ip_Spec ip)\<lparr>ipspec_IP := newAddr\<rparr>\<rparr>), newAddr)))))"

definition ip_finishCreate ::
  "(IPFamily \<rightharpoonup> (bool \<Rightarrow> 's ia_interface)) \<Rightarrow> 's \<Rightarrow> core_IP \<Rightarrow> bool \<Rightarrow> addr \<Rightarrow> bool \<Rightarrow> 's" where
  "ip_finishCreate allocatorByFamily s ip dryRun a success =
     (if success then s
      else case allocatorByFamily (ipspec_IPFamily (ip_Spec ip)) of
        None \<Rightarrow> s
      | Some allocs \<Rightarrow> fst (ReleaseAddr (allocs dryRun) s a))"

definition ip_afterDelete ::
  "(IPFamily \<rightharpoonup> (bool \<Rightarrow> 's ia_interface)) \<Rightarrow> 's \<Rightarrow> core_IP \<Rightarrow> bool \<Rightarrow> 's" where
  "ip_afterDelete allocatorByFamily s ip dryRun =
     (if dryRun then s
      else case allocatorByFamily (ipspec_IPFamily (ip_Spec ip)) of
        None \<Rightarrow> s
      | Some allocs \<Rightarrow> fst (ReleaseAddr (allocs False) s (ipspec_IP (ip_Spec ip))))"

section \<open>The iterator covers the address range\<close>

text \<open>Both families at once: \<open>fam_addr v6 n\<close> is the address of value \<open>n\<close>.\<close>

definition fam_addr :: "bool \<Rightarrow> nat \<Rightarrow> addr" where
  "fam_addr v6 n = (if v6 then V6 (of_nat n) [] else V4 (of_nat n))"

definition fam_max :: "bool \<Rightarrow> nat" where
  "fam_max v6 = (if v6 then 2 ^ 128 - 1 else 2 ^ 32 - 1)"

lemma fam_addr_valid [simp]: "IsValid (fam_addr v6 n)"
  by (simp add: fam_addr_def)

lemma of_nat_less_word: "m < 2 ^ LENGTH('a) \<Longrightarrow> n < 2 ^ LENGTH('a) \<Longrightarrow>
    (of_nat m :: 'a::len word) < of_nat n \<longleftrightarrow> m < n"
  by (simp add: word_less_nat_alt take_bit_nat_eq_self unat_of_nat)

lemma of_nat_eq_word: "m < 2 ^ LENGTH('a) \<Longrightarrow> n < 2 ^ LENGTH('a) \<Longrightarrow>
    (of_nat m :: 'a::len word) = of_nat n \<longleftrightarrow> m = n"
  by (metis of_nat_less_word linorder_neq_iff)

lemma fam_addr_less: "m \<le> fam_max v6 \<Longrightarrow> n \<le> fam_max v6 \<Longrightarrow> fam_addr v6 m < fam_addr v6 n \<longleftrightarrow> m < n"
  by (auto simp: fam_addr_def fam_max_def of_nat_less_word split: if_splits)

lemma fam_addr_eq: "m \<le> fam_max v6 \<Longrightarrow> n \<le> fam_max v6 \<Longrightarrow> fam_addr v6 m = fam_addr v6 n \<longleftrightarrow> m = n"
  by (metis fam_addr_less linorder_neq_iff)

lemma Next_fam_addr:
  assumes "n \<le> fam_max v6"
  shows "Next (fam_addr v6 n) = (if n = fam_max v6 then ZeroAddr else fam_addr v6 (Suc n))"
proof (cases v6)
  case True
  have "(of_nat (Suc n) :: 128 word) = 0 \<longleftrightarrow> n = 2 ^ 128 - 1"
  proof (cases "n = 2 ^ 128 - 1")
    case False
    then have "Suc n < 2 ^ LENGTH(128)" using assms True by (simp add: fam_max_def)
    then show ?thesis using of_nat_eq_word [of "Suc n" 0, where 'a = 128] False by simp
  qed (simp flip: word_arith_power_alt)
  then show ?thesis using True by (simp add: fam_addr_def fam_max_def add.commute)
next
  case False
  have "(of_nat (Suc n) :: 32 word) = 0 \<longleftrightarrow> n = 2 ^ 32 - 1"
  proof (cases "n = 2 ^ 32 - 1")
    case False
    then have "Suc n < 2 ^ LENGTH(32)" using assms \<open>\<not> v6\<close> by (simp add: fam_max_def)
    then show ?thesis using of_nat_eq_word [of "Suc n" 0, where 'a = 32] False by simp
  qed simp
  then show ?thesis using False by (simp add: fam_addr_def fam_max_def add.commute)
qed

lemma ip_next_fam_addr:
  assumes "n \<le> l" "l < fam_max v6"
  shows "ip_next (fam_addr v6 f) (fam_addr v6 l) (fam_addr v6 n) =
    (if n = l then fam_addr v6 f else fam_addr v6 (Suc n))"
  using assms by (auto simp: ip_next_def ip_modulo_def Next_fam_addr Compare_greater fam_addr_less)

lemma yields_valid_iter:
  "yields (cyclic_iter (ip_next firstA lastA) start) i xs \<Longrightarrow> \<forall>x\<in>set xs. IsValid x \<Longrightarrow>
   yields (valid_iter (ipIterator_step firstA lastA start)) i xs"
proof (induction xs arbitrary: i)
  case Nil
  then show ?case
    by (cases i) (auto simp: cyclic_iter_def valid_iter_def ipIterator_step_def Let_def split: if_splits)
next
  case (Cons x xs)
  have "ipIterator_step firstA lastA start i = (x, snd (cyclic_iter (ip_next firstA lastA) start i))"
    using Cons.prems(1)
    by (cases i) (auto simp: cyclic_iter_def ipIterator_step_def Let_def split: if_splits)
  with Cons show ?case by (simp add: valid_iter_def)
qed

text \<open>The order in which a range is searched from an offset.\<close>

definition ip_order :: "bool \<Rightarrow> nat \<Rightarrow> nat \<Rightarrow> nat \<Rightarrow> addr list" where
  "ip_order v6 f l off = map (fam_addr v6) ([f + off..<Suc l] @ [f..<f + off])"

lemma ip_order_valid: "\<forall>x\<in>set (ip_order v6 f l off). IsValid x"
  by (auto simp: ip_order_def)

lemma ipIterator_yields:
  assumes l: "l < fam_max v6" and off: "f + off \<le> l"
    and start: "AddOffsetAddress (fam_addr v6 f) off = Inr (fam_addr v6 (f + off))"
  shows "yields (valid_iter (fst (ipIterator (fam_addr v6 f) (fam_addr v6 l) off)))
     (snd (ipIterator (fam_addr v6 f) (fam_addr v6 l) off)) (ip_order v6 f l off)"
proof -
  let ?elem = "\<lambda>i. fam_addr v6 (f + i)" and ?N = "Suc l - f"
  let ?F = "fam_addr v6 f" and ?L = "fam_addr v6 l"
  have modulo: "ip_modulo ?F ?L (?elem off) = ?elem off"
    using l off by (simp add: ip_modulo_def Compare_greater fam_addr_less)
  have "yields (cyclic_iter (ip_next ?F ?L) (?elem off)) (?elem off, False)
      (map ?elem ([off..<?N] @ [0..<off]))"
  proof (rule cyclic_iter_yields_range)
    show "ip_next ?F ?L (?elem i) = ?elem (Suc i)" if "Suc i < ?N" for i
      proof -
      have "f + i < l" using that by linarith
      then show ?thesis using l ip_next_fam_addr [of "f + i" l v6 f] by simp
    qed
    show "ip_next ?F ?L (?elem (?N - 1)) = ?elem 0"
      using l off by (simp add: ip_next_fam_addr)
    show "inj_on ?elem {..<?N}" using l off by (auto simp: inj_on_def fam_addr_eq)
    show "off < ?N" using off by simp
  qed
  moreover have "map ?elem ([off..<?N] @ [0..<off]) = ip_order v6 f l off"
  proof -
    have shift: "map ?elem [a..<b] = map (fam_addr v6) [f + a..<f + b]" for a b
      by (induction b) auto
    show ?thesis using off by (simp add: ip_order_def shift)
  qed
  ultimately have "yields (valid_iter (ipIterator_step ?F ?L (?elem off))) (?elem off, False)
      (ip_order v6 f l off)"
    using ip_order_valid by (metis yields_valid_iter)
  then show ?thesis by (simp add: ipIterator_def start modulo Let_def)
qed

text \<open>The families' addresses whose leading byte is not zero, which \<open>AddOffsetAddress\<close> handles.\<close>

definition fam_min :: "bool \<Rightarrow> nat" where
  "fam_min v6 = (if v6 then 256 ^ 15 else 16777216)"

lemma addr_value_fam_addr: "n \<le> fam_max v6 \<Longrightarrow> addr_value (fam_addr v6 n) = n"
  by (auto simp: fam_addr_def fam_max_def unat_of_nat)

lemma AddOffsetAddress_fam:
  "fam_min v6 \<le> f \<Longrightarrow> f + off \<le> fam_max v6 \<Longrightarrow> off < 2 ^ 63 \<Longrightarrow>
   AddOffsetAddress (fam_addr v6 f) off = Inr (fam_addr v6 (f + off))"
  by (auto simp: AddOffsetAddress_eq addr_value_fam_addr fam_min_def)
    (auto simp: fam_addr_def fam_max_def)

text \<open>An allocator whose range lies strictly inside its family.\<close>

definition ia_allocator_ok :: "ia_allocator \<Rightarrow> bool \<Rightarrow> nat \<Rightarrow> nat \<Rightarrow> bool" where
  "ia_allocator_ok a v6 f l \<longleftrightarrow>
     ia_firstIP a = fam_addr v6 f \<and> ia_lastIP a = fam_addr v6 l \<and>
     fam_min v6 \<le> f \<and> f \<le> l \<and> l < fam_max v6 \<and>
     0 < ia_size a \<and> ia_size a \<le> int (Suc l - f) \<and> ia_size a \<le> MaxInt64"

lemma set_ip_order: "f + off \<le> l \<Longrightarrow> set (ip_order v6 f l off) = fam_addr v6 ` {f..l}"
proof -
  assume "f + off \<le> l"
  then have "{f..l} = {f + off..<Suc l} \<union> {f..<f + off}" by auto
  then show ?thesis by (simp add: ip_order_def image_Un del: upt_Suc)
qed

lemma length_ip_order: "f + off \<le> l \<Longrightarrow> length (ip_order v6 f l off) = Suc l - f"
  by (simp add: ip_order_def)

lemma ia_allocateNext_search:
  assumes ok: "ia_allocator_ok a v6 f l" and rnd: "int rnd < ia_size a"
    and sync: "ipAddressSynced E s" and fuel: "Suc l - f < fuel"
  shows "ia_allocateNext fuel E a rnd s claimRef False =
    (let (s', r) = first_success (try_address E claimRef) s (ip_order v6 f l rnd)
     in Returns (Some (s', case r of None \<Rightarrow> Inl ia_ErrFull | Some x \<Rightarrow> Inr x)))"
proof -
  let ?F = "fam_addr v6 f" and ?L = "fam_addr v6 l"
  have off: "f + rnd \<le> l" using ok rnd by (auto simp: ia_allocator_ok_def)
  have "rnd < 2 ^ 63" using ok rnd by (simp add: ia_allocator_ok_def MaxInt64_def)
  then have start: "AddOffsetAddress ?F rnd = Inr (fam_addr v6 (f + rnd))"
    using ok off by (intro AddOffsetAddress_fam) (auto simp: ia_allocator_ok_def)
  have y: "yields (valid_iter (fst (ipIterator ?F ?L rnd))) (snd (ipIterator ?F ?L rnd)) (ip_order v6 f l rnd)"
    using ok off start by (intro ipIterator_yields) (auto simp: ia_allocator_ok_def)
  have "loop_iter fuel (valid_iter (fst (ipIterator ?F ?L rnd))) (try_address E claimRef) s
      (snd (ipIterator ?F ?L rnd)) = Some (first_success (try_address E claimRef) s (ip_order v6 f l rnd))"
    by (rule loop_iter_first_success [OF y]) (simp add: length_ip_order [OF off] fuel)
  then show ?thesis using ok sync
    by (simp add: ia_allocateNext_def allocateFromIterator_def ia_allocator_ok_def Let_def
        case_prod_unfold)
qed

section \<open>The allocator over the server's laws\<close>

abbreviation ia_key :: "IPAddress \<Rightarrow> ObjectKey" where
  "ia_key x \<equiv> meta_key (ia_Meta x)"

lemma new_IPAddress_key [simp]: "ia_key (new_IPAddress name claimRef) = cluster_key name"
  by (simp add: new_IPAddress_def)

lemma new_IPAddress_spec [simp]:
  "ia_Spec (new_IPAddress name claimRef) = \<lparr>iaspec_IP = ZeroAddr, iaspec_ClaimRef = claimRef\<rparr>"
  by (simp add: new_IPAddress_def)

text \<open>
  The server fills \<open>Spec.IP\<close> of an \<open>IPAddress\<close> in from its name, so only the claim is stored
  as it was sent.
\<close>

abbreviation ia_claim :: "IPAddress \<Rightarrow> IPAddressClaimRef" where
  "ia_claim x \<equiv> iaspec_ClaimRef (ia_Spec x)"

locale ia_server = resource_api "ia_client E" objs ia_key ia_claim
  for E :: "'s ia_env" and objs :: "'s \<Rightarrow> ObjectKey \<rightharpoonup> IPAddress"
begin

lemma createIPAddress_ok:
  assumes "createIPAddress E s name claimRef = (s', None)"
  shows "objs s (cluster_key name) = None" and
    "\<exists>x. objs s' = (objs s)(cluster_key name \<mapsto> x) \<and> ia_claim x = claimRef"
  using assms by (cases rule: create_cases [of s "new_IPAddress name claimRef"];
      auto simp: createIPAddress_def)+

lemma createIPAddress_err: "createIPAddress E s name claimRef = (s', Some e) \<Longrightarrow> objs s' = objs s"
  by (cases rule: create_cases [of s "new_IPAddress name claimRef"]) (auto simp: createIPAddress_def)

lemma try_address_None: "try_address E claimRef s a = (s', None) \<Longrightarrow> objs s' = objs s"
  by (auto simp: try_address_def Let_def split: sum.splits if_splits prod.splits option.splits
      dest: createIPAddress_err)

lemma try_address_Some:
  assumes "try_address E claimRef s a = (s', Some b)"
  shows "b = a \<and> objs s (cluster_key (addr_String a)) = None \<and>
    (\<exists>x. objs s' = (objs s)(cluster_key (addr_String a) \<mapsto> x) \<and> ia_claim x = claimRef)"
  using assms createIPAddress_ok
  by (fastforce simp: try_address_def Let_def split: sum.splits if_splits prod.splits option.splits)

lemma ia_search_Some:
  assumes "first_success (try_address E claimRef) s xs = (s', Some a)"
  shows "a \<in> set xs \<and> objs s (cluster_key (addr_String a)) = None \<and>
    (\<exists>x. objs s' = (objs s)(cluster_key (addr_String a) \<mapsto> x) \<and> ia_claim x = claimRef)"
proof -
  have "\<exists>b\<in>set xs. \<exists>t. objs t = objs s \<and> try_address E claimRef t b = (s', Some a)"
    by (rule first_success_Some [OF assms]) (auto dest: try_address_None)
  then show ?thesis by (metis try_address_Some)
qed

lemma ia_search_None:
  "first_success (try_address E claimRef) s xs = (s', None) \<Longrightarrow> objs s' = objs s"
proof (induction xs arbitrary: s)
  case (Cons x xs)
  then show ?case
    by (fastforce split: prod.splits option.splits dest: try_address_None)
qed simp

lemma ia_allocate_ok:
  "ia_allocate E a s claimRef ip False = (s', None) \<Longrightarrow>
   IsValid ip \<and> ia_firstIP a \<le> ip \<and> ip \<le> ia_lastIP a \<and> objs s (cluster_key (addr_String ip)) = None \<and>
   (\<exists>x. objs s' = (objs s)(cluster_key (addr_String ip) \<mapsto> x) \<and> ia_claim x = claimRef)"
  using createIPAddress_ok by (auto simp: ia_allocate_def not_less split: if_splits)

lemma ia_allocate_err: "ia_allocate E a s claimRef ip dry = (s', Some e) \<Longrightarrow> objs s' = objs s"
  by (auto simp: ia_allocate_def split: if_splits dest: createIPAddress_err)

end

locale ia_server_reliable = ia_server E objs + reliable_api "ia_client E" objs ia_key ia_claim
  for E :: "'s ia_env" and objs +
  assumes synced: "ipAddressSynced E s"
begin

lemma try_address_free:
  assumes "objs s (cluster_key (addr_String a)) = None"
  shows "\<exists>s'. try_address E claimRef s a = (s', Some a)"
proof -
  obtain s' x' where "rc_create (ia_client E) s (new_IPAddress (addr_String a) claimRef) = (s', Inr x')"
    using create_free [of s "new_IPAddress (addr_String a) claimRef"] assms by auto
  then show ?thesis
    using get_free [OF assms] by (simp add: try_address_def createIPAddress_def)
qed

lemma ia_search_None_iff:
  "snd (first_success (try_address E claimRef) s xs) = None \<longleftrightarrow>
     (\<forall>a\<in>set xs. objs s (cluster_key (addr_String a)) \<noteq> None)"
proof (induction xs)
  case (Cons a xs)
  show ?case
  proof (cases "objs s (cluster_key (addr_String a))")
    case None
    then show ?thesis using try_address_free [of s a claimRef] by auto
  next
    case (Some x)
    then have "try_address E claimRef s a = (s, None)"
      using get_taken by (simp add: try_address_def)
    with Cons Some show ?thesis by simp
  qed
qed simp

lemma ia_release_objs:
  "objs (fst (ia_release E s a False)) = (objs s)(cluster_key (addr_String a) := None)"
proof (cases "rc_delete (ia_client E) s (cluster_key (addr_String a))")
  case (Pair s' r)
  show ?thesis
  proof (cases r)
    case None
    with Pair delete_ok show ?thesis by (simp add: ia_release_def synced)
  next
    case (Some e)
    with Pair delete_taken have "objs s (cluster_key (addr_String a)) = None"
      by (cases "objs s (cluster_key (addr_String a))") force+
    with Pair Some delete_err show ?thesis by (auto simp: ia_release_def synced)
  qed
qed

end

section \<open>The interface the storage relies on\<close>

locale ip_address_allocator =
  fixes ifc :: "'s ia_interface"
    and held :: "'s \<Rightarrow> string set"
  assumes next_total: "\<exists>s' r. AllocateNextAddr ifc s claimRef = Returns (Some (s', r))"
    and next_new: "AllocateNextAddr ifc s claimRef = Returns (Some (s', Inr a)) \<Longrightarrow>
      IsValid a \<and> addr_String a \<notin> held s \<and> held s' = insert (addr_String a) (held s)"
    and next_failed: "AllocateNextAddr ifc s claimRef = Returns (Some (s', Inl e)) \<Longrightarrow> held s' = held s"
    and named_ok: "AllocateAddr ifc s claimRef a = (s', None) \<Longrightarrow>
      addr_String a \<notin> held s \<and> held s' = insert (addr_String a) (held s)"
    and named_failed: "AllocateAddr ifc s claimRef a = (s', Some e) \<Longrightarrow> held s' = held s"
    and release_frees: "held (fst (ReleaseAddr ifc s a)) = held s - {addr_String a}"
begin

lemma ip_begin_cases:
  assumes "abf (ipspec_IPFamily (ip_Spec ip)) = Some allocs" and "allocs False = ifc"
  obtains (err) s' e where "ip_beginCreate abf s ip False = Returns (Some (s', Inl e))" "held s' = held s"
  | (ok) s' ip' a where "ip_beginCreate abf s ip False = Returns (Some (s', Inr (set_ip_labels ifc a ip', a)))"
      "ip' = ip\<lparr>ip_Spec := (ip_Spec ip)\<lparr>ipspec_IP := a\<rparr>\<rparr>" "addr_String a \<notin> held s"
      "held s' = insert (addr_String a) (held s)"
proof (cases "IsValid (ipspec_IP (ip_Spec ip))")
  case True
  obtain s' r where p: "AllocateAddr ifc s (ip_claim_ref ip) (ipspec_IP (ip_Spec ip)) = (s', r)" by fastforce
  with True assms have "ip_beginCreate abf s ip False = Returns (Some (s',
      case r of Some e \<Rightarrow> Inl e
      | None \<Rightarrow> Inr (set_ip_labels ifc (ipspec_IP (ip_Spec ip)) ip, ipspec_IP (ip_Spec ip))))"
    by (simp add: ip_beginCreate_def Let_def split: option.splits)
  then show ?thesis using p err ok named_ok named_failed by (cases r) auto
next
  case False
  obtain s' r where p: "AllocateNextAddr ifc s (ip_claim_ref ip) = Returns (Some (s', r))"
    using next_total by blast
  with False assms have "ip_beginCreate abf s ip False = Returns (Some (s',
      case r of Inl e \<Rightarrow> Inl e
      | Inr a \<Rightarrow> Inr (set_ip_labels ifc a (ip\<lparr>ip_Spec := (ip_Spec ip)\<lparr>ipspec_IP := a\<rparr>\<rparr>), a)))"
    by (simp add: ip_beginCreate_def Let_def split: sum.splits)
  then show ?thesis using p err ok next_new next_failed by (cases r) auto
qed

end

definition held_names :: "('s \<Rightarrow> ObjectKey \<rightharpoonup> 'o) \<Rightarrow> 's \<Rightarrow> string set" where
  "held_names objs s = {v. objs s (cluster_key v) \<noteq> None}"

locale ia_alloc = ia_server_reliable E objs
  for E :: "'s ia_env" and objs +
  fixes a :: ia_allocator and v6 :: bool and f l :: nat and rnd :: nat and fuel :: nat
  assumes a_ok: "ia_allocator_ok a v6 f l" and rnd_range: "int rnd < ia_size a"
    and fuel_ok: "Suc l - f < fuel"
begin

lemmas search_eq = ia_allocateNext_search [OF a_ok rnd_range synced fuel_ok]

lemma ia_contract: "ip_address_allocator (ia_iface fuel E a rnd False) (held_names objs)"
proof
  fix s claimRef s' x e
  let ?i = "ia_iface fuel E a rnd False"
  show "\<exists>s' r. AllocateNextAddr ?i s claimRef = Returns (Some (s', r))"
    by (simp add: ia_iface_def search_eq case_prod_unfold Let_def)
  show "AllocateNextAddr ?i s claimRef = Returns (Some (s', Inr x)) \<Longrightarrow>
      IsValid x \<and> addr_String x \<notin> held_names objs s \<and>
      held_names objs s' = insert (addr_String x) (held_names objs s)"
    by (auto simp: ia_iface_def search_eq held_names_def split: prod.splits option.splits
        dest!: ia_search_Some bspec [OF ip_order_valid])
  show "AllocateNextAddr ?i s claimRef = Returns (Some (s', Inl e)) \<Longrightarrow>
      held_names objs s' = held_names objs s"
    by (auto simp: ia_iface_def search_eq held_names_def split: prod.splits option.splits
        dest: ia_search_None)
  show "AllocateAddr ?i s claimRef x = (s', None) \<Longrightarrow>
      addr_String x \<notin> held_names objs s \<and>
      held_names objs s' = insert (addr_String x) (held_names objs s)"
    by (auto simp: ia_iface_def held_names_def dest: ia_allocate_ok)
  show "AllocateAddr ?i s claimRef x = (s', Some e) \<Longrightarrow> held_names objs s' = held_names objs s"
    by (auto simp: ia_iface_def held_names_def dest: ia_allocate_err)
  show "held_names objs (fst (ReleaseAddr ?i s x)) = held_names objs s - {addr_String x}"
    by (auto simp: ia_iface_def held_names_def ia_release_objs)
qed

end

sublocale ia_alloc \<subseteq> ip_address_allocator "ia_iface fuel E a rnd False" "held_names objs"
  by (rule ia_contract)

definition mem_ia_env :: "IPAddress mem_store ia_env" where
  "mem_ia_env = \<lparr>ia_client = mem_client ia_key, ipAddressSynced = (\<lambda>_. True)\<rparr>"

lemma mem_ia_server_reliable: "ia_server_reliable mem_ia_env map_of"
proof -
  have "reliable_api (ia_client mem_ia_env) map_of ia_key ia_claim"
    by (simp add: mem_ia_env_def mem.reliable_api_axioms)
  then show ?thesis
    by (intro ia_server_reliable.intro ia_server.intro ia_server_reliable_axioms.intro)
      (simp_all add: mem_ia_env_def reliable_api.axioms(1))
qed

text \<open>The network 10.0.0.0/30, with \<open>PrefixLastIP\<close> as documented.\<close>

definition last_ip4 :: "prefix \<Rightarrow> addr" where
  "last_ip4 p = (case p_Addr p of V4 w \<Rightarrow> V4 (w OR mask (nat (32 - p_Bits p))) | a \<Rightarrow> a)"

definition example_ia_allocator :: ia_allocator where
  "example_ia_allocator = ia_New last_ip4 \<lparr>p_Addr = V4 0x0A000002, p_Bits = 30\<rparr>"

lemma example_ia_allocator_ok:
  "ia_allocator_ok example_ia_allocator False 0x0A000000 0x0A000003" "ia_size example_ia_allocator = 4"
  by (simp_all add: example_ia_allocator_def ia_allocator_ok_def ia_New_def last_ip4_def Masked_def
      prefix_IsValid_def fam_addr_def fam_min_def fam_max_def PrefixSize_def MaxInt64_def mask_low_def
      mask_eq_exp_minus_1 Let_def)

interpretation mem_ia: ia_alloc mem_ia_env map_of example_ia_allocator False "0x0A000000" "0x0A000003" 1 10
  by (intro ia_alloc.intro ia_alloc_axioms.intro mem_ia_server_reliable example_ia_allocator_ok)
    (simp_all add: example_ia_allocator_ok)

section \<open>Properties\<close>

text \<open>
  C3. On any API server, once the informer has synced, allocating the next address from a range strictly inside
  its family (from the address 1.0.0.0 or 100:: on, below the last one) always
  returns without a panic; a returned address lies in the range, had no \<open>IPAddress\<close> object
  before, and the only change is the new object with the given claim; otherwise the error is
  \<open>ErrFull\<close> and nothing changed.
\<close>

theorem ia_allocateNext_safe:
  assumes "ia_server E objs" and "ia_allocator_ok a v6 f l" and "int rnd < ia_size a"
    and "ipAddressSynced E s" and "Suc l - f < fuel"
  shows "\<exists>s' r. ia_allocateNext fuel E a rnd s claimRef False = Returns (Some (s', r)) \<and>
    (case r of
       Inr x \<Rightarrow> ia_firstIP a \<le> x \<and> x \<le> ia_lastIP a \<and> objs s (cluster_key (addr_String x)) = None \<and>
         (\<exists>y. objs s' = (objs s)(cluster_key (addr_String x) \<mapsto> y) \<and> ia_claim y = claimRef)
     | Inl e \<Rightarrow> e = ia_ErrFull \<and> objs s' = objs s)"
proof -
  obtain s' r where fs: "first_success (try_address E claimRef) s (ip_order v6 f l rnd) = (s', r)"
    by fastforce
  have eq: "ia_allocateNext fuel E a rnd s claimRef False =
      Returns (Some (s', case r of None \<Rightarrow> Inl ia_ErrFull | Some x \<Rightarrow> Inr x))"
    using ia_allocateNext_search [OF assms(2-5)] fs by simp
  show ?thesis
  proof (cases r)
    case None
    then show ?thesis using eq ia_server.ia_search_None [OF assms(1)] fs by auto
  next
    case (Some x)
    have "x \<in> set (ip_order v6 f l rnd)"
      using ia_server.ia_search_Some [OF assms(1)] fs Some by blast
    moreover have "f + rnd \<le> l" using assms(2,3) by (auto simp: ia_allocator_ok_def)
    ultimately obtain n where "x = fam_addr v6 n" "f \<le> n" "n \<le> l" by (auto simp: set_ip_order)
    then have "ia_firstIP a \<le> x \<and> x \<le> ia_lastIP a"
      using assms(2) by (auto simp: ia_allocator_ok_def fam_addr_less simp flip: not_less)
    then show ?thesis using eq Some ia_server.ia_search_Some [OF assms(1)] fs by auto
  qed
qed

definition example_claim :: IPAddressClaimRef where
  "example_claim = \<lparr>iaref_Group = GroupName, iaref_Resource = ''ips'', iaref_Namespace = ''ns'',
     iaref_Name = ''x'', iaref_UID = ''u''\<rparr>"

theorem ia_allocateNext_safe_witness:
  "\<exists>s' r. ia_allocateNext 10 mem_ia_env example_ia_allocator 1 [] example_claim False = Returns (Some (s', r)) \<and>
    (case r of
       Inr x \<Rightarrow> ia_firstIP example_ia_allocator \<le> x \<and> x \<le> ia_lastIP example_ia_allocator \<and>
         map_of [] (cluster_key (addr_String x)) = (None :: IPAddress option) \<and>
         (\<exists>y. map_of s' = (map_of [])(cluster_key (addr_String x) \<mapsto> y) \<and> ia_claim y = example_claim)
     | Inl e \<Rightarrow> e = ia_ErrFull \<and> map_of s' = map_of [])"
  by (rule ia_allocateNext_safe [OF mem_ia.ia_server_axioms example_ia_allocator_ok(1)])
    (simp_all add: example_ia_allocator_ok mem_ia_env_def)

text \<open>
  On a reachable server the search of a range inside its family is complete: the
  allocator reports \<open>ErrFull\<close> exactly when every address of the range has an object.
\<close>

theorem ia_allocateNext_complete:
  assumes "ia_server_reliable E objs" and "ia_allocator_ok a v6 f l" and "int rnd < ia_size a"
    and "Suc l - f < fuel"
  shows "(\<exists>s'. ia_allocateNext fuel E a rnd s claimRef False = Returns (Some (s', Inl ia_ErrFull))) \<longleftrightarrow>
    (\<forall>n\<in>{f..l}. objs s (cluster_key (addr_String (fam_addr v6 n))) \<noteq> None)"
proof -
  obtain s' r where fs: "first_success (try_address E claimRef) s (ip_order v6 f l rnd) = (s', r)"
    by fastforce
  have syn: "ipAddressSynced E s" using assms(1) by (simp add: ia_server_reliable.synced)
  have eq: "ia_allocateNext fuel E a rnd s claimRef False =
      Returns (Some (s', case r of None \<Rightarrow> Inl ia_ErrFull | Some x \<Rightarrow> Inr x))"
    using ia_allocateNext_search [OF assms(2,3) syn assms(4)] fs by simp
  have "f + rnd \<le> l" using assms(2,3) by (auto simp: ia_allocator_ok_def)
  then have "r = None \<longleftrightarrow> (\<forall>n\<in>{f..l}. objs s (cluster_key (addr_String (fam_addr v6 n))) \<noteq> None)"
    using ia_server_reliable.ia_search_None_iff [OF assms(1), of claimRef s "ip_order v6 f l rnd"] fs
    by (auto simp: set_ip_order)
  then show ?thesis using eq by (auto split: option.splits)
qed

theorem ia_allocateNext_complete_witness:
  "(\<exists>s'. ia_allocateNext 10 mem_ia_env example_ia_allocator 1 [] example_claim False
       = Returns (Some (s', Inl ia_ErrFull))) \<longleftrightarrow>
    (\<forall>n\<in>{0x0A000000..0x0A000003}.
       map_of [] (cluster_key (addr_String (fam_addr False n))) \<noteq> (None :: IPAddress option))"
  by (rule ia_allocateNext_complete [OF mem_ia_server_reliable example_ia_allocator_ok(1)])
    (simp_all add: example_ia_allocator_ok)

definition end_of_family_allocator :: ia_allocator where
  "end_of_family_allocator = ia_New last_ip4 \<lparr>p_Addr = V4 0xFFFFFFFE, p_Bits = 31\<rparr>"

lemmas ia_eval = Let_def ia_allocateNext_def allocateFromIterator_def try_address_def createIPAddress_def
  ipIterator_def ipIterator_step_def valid_iter_def ip_modulo_def ip_next_def loop_iter_numeral
  mem_ia_env_def mem_client_def cluster_key_def AddOffsetAddress_eq string4_def dec_nat.simps

text \<open>
  A range that ends at the last address of its family is not searched completely: in
  255.255.255.254/31 with 255.255.255.255 taken, a search that starts at the taken address
  reports \<open>ErrFull\<close> although 255.255.255.254 is free.
\<close>

theorem family_end_not_searched:
  "let s = [(cluster_key ''255.255.255.255'', new_IPAddress ''255.255.255.255'' example_claim)] in
   ia_size end_of_family_allocator = 2 \<and>
   ia_firstIP end_of_family_allocator = V4 0xFFFFFFFE \<and>
   map_of s (cluster_key (addr_String (V4 0xFFFFFFFE))) = None \<and>
   ia_allocateNext 10 mem_ia_env end_of_family_allocator 1 s example_claim False =
     Returns (Some (s, Inl ia_ErrFull))"
  by (simp add: end_of_family_allocator_def ia_New_def last_ip4_def Masked_def prefix_IsValid_def
      PrefixSize_def mask_low_def mask_eq_exp_minus_1 ia_eval cmp3_def)

text \<open>
  Creating an \<open>IP\<close>, with a requested address or without one, either fails and holds
  nothing, or holds exactly one new address, which the object carries in its spec and in its
  family and IP labels (other labels stay); rolling the create back and deleting the object
  both free exactly that address.
\<close>

theorem ip_create_release:
  assumes "ia_alloc E objs a v6 f l rnd fuel"
    and "abf (ipspec_IPFamily (ip_Spec ip)) = Some (ia_iface fuel E a rnd)"
  shows "\<exists>s' r. ip_beginCreate abf s ip False = Returns (Some (s', r)) \<and>
    (case r of
       Inl e \<Rightarrow> held_names objs s' = held_names objs s
     | Inr (ip', x) \<Rightarrow>
        addr_String x \<notin> held_names objs s \<and>
        held_names objs s' = insert (addr_String x) (held_names objs s) \<and>
        ip_Spec ip' = (ip_Spec ip)\<lparr>ipspec_IP := x\<rparr> \<and>
        map_of (om_Labels (ip_Meta ip')) =
          (map_of (om_Labels (ip_Meta ip)))(IPFamilyLabel \<mapsto> ia_family a, IPIPLabel \<mapsto> addr_String x) \<and>
        held_names objs (ip_finishCreate abf s' ip' False x False) = held_names objs s \<and>
        held_names objs (ip_finishCreate abf s' ip' False x True) = held_names objs s' \<and>
        held_names objs (ip_afterDelete abf s' ip' False) = held_names objs s)"
proof -
  let ?i = "ia_iface fuel E a rnd False"
  have loc: "ip_address_allocator ?i (held_names objs)"
    using assms(1) by (rule ia_alloc.ia_contract)
  have fam: "ia_IPFamily ?i = ia_family a" by (simp add: ia_iface_def)
  have al: "ia_iface fuel E a rnd False = ?i" by simp
  show ?thesis
  proof (cases rule: ip_address_allocator.ip_begin_cases [where abf = abf and ip = ip and s = s
        and allocs = "ia_iface fuel E a rnd", OF loc assms(2) al, case_names err ok])
    case (err s' e)
    then show ?thesis by simp
  next
    case (ok s' ip' x)
    have "abf (ipspec_IPFamily (ip_Spec (set_ip_labels ?i x ip'))) = Some (ia_iface fuel E a rnd)"
      "ipspec_IP (ip_Spec (set_ip_labels ?i x ip')) = x"
      using ok(2) assms(2) by (simp_all add: set_ip_labels_def)
    then show ?thesis using ok
      by (simp add: ip_finishCreate_def ip_afterDelete_def ip_address_allocator.release_frees [OF loc])
        (simp add: set_ip_labels_def fam update_conv')
  qed
qed

definition example_ip :: core_IP where
  "example_ip = \<lparr>ip_Meta = zero_meta\<lparr>om_Name := ''x'', om_Namespace := ''ns''\<rparr>,
     ip_Spec = \<lparr>ipspec_Type = IPTypePublic, ipspec_IPFamily = IPv4Protocol, ipspec_IP = ZeroAddr,
       ipspec_ClaimRef = None\<rparr>\<rparr>"

definition example_abf :: "IPFamily \<Rightarrow> (bool \<Rightarrow> IPAddress mem_store ia_interface) option" where
  "example_abf = [IPv4Protocol \<mapsto> ia_iface 10 mem_ia_env example_ia_allocator 1]"

theorem ip_create_release_witness:
  "\<exists>s' r. ip_beginCreate example_abf [] example_ip False = Returns (Some (s', r)) \<and>
    (case r of
       Inl e \<Rightarrow> held_names map_of s' = held_names map_of ([] :: IPAddress mem_store)
     | Inr (ip', x) \<Rightarrow>
        addr_String x \<notin> held_names map_of ([] :: IPAddress mem_store) \<and>
        held_names map_of s' = insert (addr_String x) (held_names map_of ([] :: IPAddress mem_store)) \<and>
        ip_Spec ip' = (ip_Spec example_ip)\<lparr>ipspec_IP := x\<rparr> \<and>
        map_of (om_Labels (ip_Meta ip')) =
          (map_of (om_Labels (ip_Meta example_ip)))
            (IPFamilyLabel \<mapsto> ia_family example_ia_allocator, IPIPLabel \<mapsto> addr_String x) \<and>
        held_names map_of (ip_finishCreate example_abf s' ip' False x False) = held_names map_of ([] :: IPAddress mem_store) \<and>
        held_names map_of (ip_finishCreate example_abf s' ip' False x True) = held_names map_of s' \<and>
        held_names map_of (ip_afterDelete example_abf s' ip' False) = held_names map_of ([] :: IPAddress mem_store))"
  by (rule ip_create_release [OF mem_ia.ia_alloc_axioms])
    (simp add: example_abf_def example_ip_def)

end
