(* ===== verification/GarbageCollection.thy ===== *)
theory GarbageCollection
  imports NetworkIDs IPAddresses Kube
begin

text \<open>
  The controllers that release what a vanished object left behind:
  \<open>internal/controllers/ipaddressgc_controller.go\<close>, \<open>networkidgc_controller.go\<close> and
  \<open>networkinterfacenatrelease_controller.go\<close>. The REST mapper, the live reader and the LRU cache
  of absent UIDs are parameters.
\<close>

section \<open>Looking up the claimer of an object\<close>

text \<open>\<open>lru.Cache\<close> of \<open>k8s.io/utils\<close>: a lookup changes the recency of the entry.\<close>

record 'c lru_ops =
  lru_Get :: "'c \<Rightarrow> string \<Rightarrow> bool \<times> 'c"
  lru_Add :: "'c \<Rightarrow> string \<Rightarrow> 'c"

text \<open>
  \<open>gc_KindsFor\<close> takes the resource and the group, \<open>gc_namespaced\<close> says whether the scope of the
  REST mapping of a kind is the namespace, and \<open>gc_read\<close> reads the metadata of an object with the
  \<open>APIReader\<close>, past the cache.
\<close>

record ('s, 'c) gc_env =
  gc_KindsFor :: "string \<Rightarrow> string \<Rightarrow> GroupVersionKind list result"
  gc_namespaced :: "GroupVersionKind \<Rightarrow> bool result"
  gc_read :: "'s \<Rightarrow> GroupVersionKind \<Rightarrow> ObjectKey \<Rightarrow> ObjectMeta result"
  gc_AbsenceCache :: "'c lru_ops"

record claim_ref =
  cr_Group :: string
  cr_Resource :: string
  cr_Namespace :: string
  cr_Name :: string
  cr_UID :: string

text \<open>The two collectors have the same body here, except for the words of an error.\<close>

definition claimer_exists :: "('s, 'c) gc_env \<Rightarrow> 's \<Rightarrow> 'c \<Rightarrow> claim_ref \<Rightarrow> 'c \<times> bool result" where
  "claimer_exists E s c claimRef =
     (case lru_Get (gc_AbsenceCache E) c (cr_UID claimRef) of
        (True, c1) \<Rightarrow> (c1, Inr False)
      | (False, c1) \<Rightarrow>
          (case gc_KindsFor E (cr_Resource claimRef) (cr_Group claimRef) of
             Inl err \<Rightarrow> (c1, Inl (Wrapped ''error getting kinds'' err))
           | Inr [] \<Rightarrow> (c1, Inl (ErrMsg ''no kind''))
           | Inr (gvk # _) \<Rightarrow>
               (case gc_namespaced E gvk of
                  Inl err \<Rightarrow> (c1, Inl (Wrapped ''error getting REST mapping'' err))
                | Inr namespaced \<Rightarrow>
                    (case gc_read E s gvk \<lparr>key_Namespace = (if namespaced then cr_Namespace claimRef else []), key_Name = cr_Name claimRef\<rparr> of
                       Inl err \<Rightarrow>
                         if \<not> IsNotFound err then (c1, Inl (Wrapped ''error getting claiming object'' err))
                         else (lru_Add (gc_AbsenceCache E) c1 (cr_UID claimRef), Inr False)
                     | Inr claimer \<Rightarrow>
                         if cr_UID claimRef \<noteq> om_UID claimer
                         then (lru_Add (gc_AbsenceCache E) c1 (cr_UID claimRef), Inr False)
                         else (c1, Inr True)))))"

section \<open>ipaddressgc_controller.go\<close>

definition ipaddress_claim :: "IPAddress \<Rightarrow> claim_ref" where
  "ipaddress_claim a =
     (let r = iaspec_ClaimRef (ia_Spec a) in
      \<lparr>cr_Group = iaref_Group r, cr_Resource = iaref_Resource r, cr_Namespace = iaref_Namespace r,
       cr_Name = iaref_Name r, cr_UID = iaref_UID r\<rparr>)"

definition ipAddressClaimerExists :: "('s, 'c) gc_env \<Rightarrow> 's \<Rightarrow> 'c \<Rightarrow> IPAddress \<Rightarrow> 'c \<times> bool result" where
  "ipAddressClaimerExists E s c a = claimer_exists E s c (ipaddress_claim a)"

definition ipaddressgc_Reconcile ::
  "('s, 'c) gc_env \<Rightarrow> ('s, IPAddress) resource_client \<Rightarrow> 's \<Rightarrow> 'c \<Rightarrow> ObjectKey \<Rightarrow> 's \<times> 'c \<times> go_error option" where
  "ipaddressgc_Reconcile E C s c key =
     (case rc_get C s key of
        Inl err \<Rightarrow> (s, c, IgnoreNotFound (Some err))
      | Inr a \<Rightarrow>
          if om_DeletionTimestamp (ia_Meta a) \<noteq> None then (s, c, None)
          else (case ipAddressClaimerExists E s c a of
                  (c', Inl err) \<Rightarrow> (s, c', Some (Wrapped ''error checking whether IP address claimer exists'' err))
                | (c', Inr True) \<Rightarrow> (s, c', None)
                | (c', Inr False) \<Rightarrow>
                    (case rc_delete C s (meta_key (ia_Meta a)) of
                       (s', None) \<Rightarrow> (s', c', None)
                     | (s', Some err) \<Rightarrow>
                         (s', c', if IgnoreNotFound (Some err) \<noteq> None then Some (Wrapped ''error deleting IP address'' err) else None))))"

text \<open>The requests that the deletion of a claimer puts into the queue.\<close>

definition ipaddressgc_enqueueByClaimer :: "('s, IPAddress) resource_client \<Rightarrow> 's \<Rightarrow> ObjectMeta \<Rightarrow> ObjectKey list" where
  "ipaddressgc_enqueueByClaimer C s claimer =
     (case rc_list C s of
        Inl _ \<Rightarrow> []
      | Inr addrs \<Rightarrow> map (\<lambda>a. meta_key (ia_Meta a)) (filter (\<lambda>a. IsIPAddressClaimedBy a claimer) addrs))"

section \<open>networkidgc_controller.go\<close>

definition networkid_claim :: "NetworkID \<Rightarrow> claim_ref" where
  "networkid_claim n =
     (let r = nidspec_ClaimRef (nid_Spec n) in
      \<lparr>cr_Group = nidref_Group r, cr_Resource = nidref_Resource r, cr_Namespace = nidref_Namespace r,
       cr_Name = nidref_Name r, cr_UID = nidref_UID r\<rparr>)"

definition networkIDClaimerExists :: "('s, 'c) gc_env \<Rightarrow> 's \<Rightarrow> 'c \<Rightarrow> NetworkID \<Rightarrow> 'c \<times> bool result" where
  "networkIDClaimerExists E s c n = claimer_exists E s c (networkid_claim n)"

definition networkidgc_Reconcile ::
  "('s, 'c) gc_env \<Rightarrow> ('s, NetworkID) resource_client \<Rightarrow> 's \<Rightarrow> 'c \<Rightarrow> ObjectKey \<Rightarrow> 's \<times> 'c \<times> go_error option" where
  "networkidgc_Reconcile E C s c key =
     (case rc_get C s key of
        Inl err \<Rightarrow> (s, c, IgnoreNotFound (Some err))
      | Inr n \<Rightarrow>
          if om_DeletionTimestamp (nid_Meta n) \<noteq> None then (s, c, None)
          else (case networkIDClaimerExists E s c n of
                  (c', Inl err) \<Rightarrow> (s, c', Some (Wrapped ''error checking whether network ID claimer exists'' err))
                | (c', Inr True) \<Rightarrow> (s, c', None)
                | (c', Inr False) \<Rightarrow>
                    (case rc_delete C s (meta_key (nid_Meta n)) of
                       (s', None) \<Rightarrow> (s', c', None)
                     | (s', Some err) \<Rightarrow> (s', c', Some (Wrapped ''error releasing network ID'' err)))))"

definition networkidgc_enqueueByClaimer :: "('s, NetworkID) resource_client \<Rightarrow> 's \<Rightarrow> ObjectMeta \<Rightarrow> ObjectKey list" where
  "networkidgc_enqueueByClaimer C s claimer =
     (case rc_list C s of
        Inl _ \<Rightarrow> []
      | Inr ids \<Rightarrow> map (\<lambda>n. meta_key (nid_Meta n)) (filter (\<lambda>n. IsNetworkIDClaimedBy n claimer) ids))"

section \<open>networkinterfacenatrelease_controller.go\<close>

text \<open>\<open>gc_read\<close> gets the metadata of the NAT gateway, whose kind is fixed.\<close>

definition natGateway_kind :: GroupVersionKind where
  "natGateway_kind = \<lparr>gvk_Group = GroupName, gvk_Version = ''v1alpha1'', gvk_Kind = ''NATGateway''\<rparr>"

definition networkInterfaceNATExists ::
  "('s, 'c) gc_env \<Rightarrow> 's \<Rightarrow> 'c \<Rightarrow> NetworkInterface \<Rightarrow> NetworkInterfaceNAT \<Rightarrow> 'c \<times> bool result" where
  "networkInterfaceNATExists E s c nic nt =
     (let claimRef = nnat_ClaimRef nt in
      case lru_Get (gc_AbsenceCache E) c (nnref_UID claimRef) of
        (True, c1) \<Rightarrow> (c1, Inr False)
      | (False, c1) \<Rightarrow>
          (case gc_read E s natGateway_kind \<lparr>key_Namespace = om_Namespace (nic_Meta nic), key_Name = nnref_Name claimRef\<rparr> of
             Inl err \<Rightarrow>
               if \<not> IsNotFound err then (c1, Inl (Wrapped ''error getting NAT gateway'' err))
               else (lru_Add (gc_AbsenceCache E) c1 (nnref_UID claimRef), Inr False)
           | Inr natGateway \<Rightarrow>
               if nnref_UID claimRef \<noteq> om_UID natGateway
               then (lru_Add (gc_AbsenceCache E) c1 (nnref_UID claimRef), Inr False)
               else (c1, Inr True)))"

fun filter_nats ::
  "('s, 'c) gc_env \<Rightarrow> 's \<Rightarrow> 'c \<Rightarrow> NetworkInterface \<Rightarrow> NetworkInterfaceNAT list \<Rightarrow> 'c \<times> NetworkInterfaceNAT list result" where
  "filter_nats E s c nic [] = (c, Inr [])"
| "filter_nats E s c nic (nt # nats) =
     (case networkInterfaceNATExists E s c nic nt of
        (c', Inl err) \<Rightarrow> (c', Inl (Wrapped ''error checking whether NAT exists'' err))
      | (c', Inr ok) \<Rightarrow>
          (case filter_nats E s c' nic nats of
             (c'', Inl err) \<Rightarrow> (c'', Inl err)
           | (c'', Inr filtered) \<Rightarrow> (c'', Inr (if ok then nt # filtered else filtered))))"

definition natrelease_Reconcile ::
  "('s, 'c) gc_env \<Rightarrow> ('s, NetworkInterface) kclient \<Rightarrow> 's \<Rightarrow> 'c \<Rightarrow> ObjectKey \<Rightarrow> 's \<times> 'c \<times> go_error option" where
  "natrelease_Reconcile E K s c key =
     (case k_get K s key of
        Inl err \<Rightarrow> (s, c, IgnoreNotFound (Some err))
      | Inr nic \<Rightarrow>
          if om_DeletionTimestamp (nic_Meta nic) \<noteq> None then (s, c, None)
          else (case filter_nats E s c nic (nics_NATs (nic_Spec nic)) of
                  (c', Inl err) \<Rightarrow> (s, c', Some err)
                | (c', Inr filtered) \<Rightarrow>
                    if length filtered = length (nics_NATs (nic_Spec nic)) then (s, c', None)
                    else (case k_patch K s (nic\<lparr>nic_Spec := (nic_Spec nic)\<lparr>nics_NATs := filtered\<rparr>\<rparr>) nic False of
                            (s', Inl err) \<Rightarrow> (s', c', Some (Wrapped ''error patching network interface'' err))
                          | (s', Inr _) \<Rightarrow> (s', c', None))))"

definition natrelease_enqueueByNATGateway :: "('s, NetworkInterface) kclient \<Rightarrow> 's \<Rightarrow> NATGateway \<Rightarrow> ObjectKey list" where
  "natrelease_enqueueByNATGateway K s natGateway =
     (case k_list K s (om_Namespace (ng_Meta natGateway)) of
        Inl _ \<Rightarrow> []
      | Inr nics \<Rightarrow> map (\<lambda>nic. meta_key (nic_Meta nic)) (filter (\<lambda>nic. IsNetworkInterfaceNATClaimedBy nic natGateway) nics))"

section \<open>What the collectors rely on\<close>

text \<open>A cache of UIDs holds at most what was added to it, and finds only what it holds.\<close>

locale absence_cache =
  fixes L :: "'c lru_ops" and members :: "'c \<Rightarrow> string set"
  assumes get_hit: "lru_Get L c u = (True, c') \<Longrightarrow> u \<in> members c"
    and get_members: "lru_Get L c u = (b, c') \<Longrightarrow> members c' \<subseteq> members c"
    and add_members: "members (lru_Add L c u) \<subseteq> insert u (members c)"

text \<open>A cache of the \<open>n\<close> most recent UIDs, which drops the least recently used one.\<close>

definition lru_list :: "nat \<Rightarrow> string list lru_ops" where
  "lru_list n =
     \<lparr>lru_Get = (\<lambda>c u. if u \<in> set c then (True, u # removeAll u c) else (False, c)),
      lru_Add = (\<lambda>c u. take n (u # removeAll u c))\<rparr>"

interpretation lru: absence_cache "lru_list n" set for n
  by unfold_locales (auto simp: lru_list_def dest: in_set_takeD split: if_splits)

text \<open>
  The reader returns what the cluster stores: \<open>objects\<close> gives the metadata of the objects of a
  kind by their keys.
\<close>

definition live_uids :: "('s \<Rightarrow> GroupVersionKind \<Rightarrow> ObjectKey \<rightharpoonup> ObjectMeta) \<Rightarrow> 's \<Rightarrow> string set" where
  "live_uids objects s = {om_UID m | g k m. objects s g k = Some m}"

text \<open>
  A claim is located when the object with its UID, if there is one, is where the lookup of the
  claimer searches for it.
\<close>

definition located ::
  "('s, 'c) gc_env \<Rightarrow> ('s \<Rightarrow> GroupVersionKind \<Rightarrow> ObjectKey \<rightharpoonup> ObjectMeta) \<Rightarrow> 's \<Rightarrow> claim_ref \<Rightarrow> bool" where
  "located E objects s r \<longleftrightarrow>
     (\<forall>g k m gs g0 namespaced. objects s g k = Some m \<and> om_UID m = cr_UID r \<and>
        gc_KindsFor E (cr_Resource r) (cr_Group r) = Inr (g0 # gs) \<and> gc_namespaced E g0 = Inr namespaced \<longrightarrow>
        g = g0 \<and> k = \<lparr>key_Namespace = (if namespaced then cr_Namespace r else []), key_Name = cr_Name r\<rparr>)"

locale claim_reader = absence_cache "gc_AbsenceCache E" members
  for E :: "('s, 'c) gc_env" and members :: "'c \<Rightarrow> string set" +
  fixes objects :: "'s \<Rightarrow> GroupVersionKind \<Rightarrow> ObjectKey \<rightharpoonup> ObjectMeta"
  assumes read_ok: "gc_read E s g k = Inr m \<Longrightarrow> objects s g k = Some m"
    and read_missing: "gc_read E s g k = Inl e \<Longrightarrow> IsNotFound e \<Longrightarrow> objects s g k = None"
begin

lemma not_live:
  assumes "located E objects s r" "gc_KindsFor E (cr_Resource r) (cr_Group r) = Inr (g0 # gs)" "gc_namespaced E g0 = Inr ns"
    and "\<And>m. objects s g0 \<lparr>key_Namespace = (if ns then cr_Namespace r else []), key_Name = cr_Name r\<rparr> = Some m \<Longrightarrow> om_UID m \<noteq> cr_UID r"
  shows "cr_UID r \<notin> live_uids objects s"
proof
  assume "cr_UID r \<in> live_uids objects s"
  then obtain g k m where m: "objects s g k = Some m" "om_UID m = cr_UID r" by (auto simp: live_uids_def)
  then have "g = g0 \<and> k = \<lparr>key_Namespace = (if ns then cr_Namespace r else []), key_Name = cr_Name r\<rparr>"
    using assms(1,2,3) unfolding located_def by blast
  then show False using assms(4) m by blast
qed

lemma claimer_exists_found:
  assumes "claimer_exists E s c r = (c', Inr True)"
  shows "members c' \<subseteq> members c \<and> cr_UID r \<in> live_uids objects s"
  using assms get_members [of c "cr_UID r"] read_ok
  by (auto simp: claimer_exists_def live_uids_def split: prod.splits bool.splits sum.splits list.splits if_splits) metis+

lemma claimer_exists_failed:
  assumes "claimer_exists E s c r = (c', Inl err)"
  shows "members c' \<subseteq> members c"
  using assms get_members [of c "cr_UID r"]
  by (auto simp: claimer_exists_def split: prod.splits bool.splits sum.splits list.splits if_splits)

lemma claimer_exists_gone:
  assumes "claimer_exists E s c r = (c', Inr False)" "located E objects s r"
  obtains "cr_UID r \<in> members c" "members c' \<subseteq> members c"
  | "cr_UID r \<notin> live_uids objects s" "members c' \<subseteq> insert (cr_UID r) (members c)"
proof (cases "lru_Get (gc_AbsenceCache E) c (cr_UID r)")
  case (Pair b c1)
  show thesis
  proof (cases b)
    case True
    then show thesis using that(1) Pair get_hit get_members assms(1) by (simp add: claimer_exists_def)
  next
    case False
    have cs: "members c' \<subseteq> insert (cr_UID r) (members c)" if "c' = lru_Add (gc_AbsenceCache E) c1 (cr_UID r)"
      using that add_members [of c1 "cr_UID r"] get_members [OF Pair] by blast
    obtain g0 gs ns where g: "gc_KindsFor E (cr_Resource r) (cr_Group r) = Inr (g0 # gs)" "gc_namespaced E g0 = Inr ns"
      using assms(1) Pair False by (auto simp: claimer_exists_def split: sum.splits list.splits)
    have "c' = lru_Add (gc_AbsenceCache E) c1 (cr_UID r) \<and> (\<forall>m. objects s g0
        \<lparr>key_Namespace = (if ns then cr_Namespace r else []), key_Name = cr_Name r\<rparr> = Some m \<longrightarrow> om_UID m \<noteq> cr_UID r)"
      using assms(1) Pair False g read_ok read_missing
      by (auto simp: claimer_exists_def split: sum.splits if_splits)
    then show thesis using that(2) cs not_live [OF assms(2) g] by blast
  qed
qed

end

section \<open>Collecting in a changing cluster\<close>

text \<open>
  The runs of a collector \<open>rec\<close> next to other clients. \<open>claims\<close> are the UIDs that the collected
  objects name, \<open>live\<close> those of the stored objects, and the last argument collects the UIDs
  that were claimed so far. Other clients may change everything, but a UID that was already
  claimed is not given to a new object: UIDs are unique, and claims name stored objects.
\<close>

inductive gc_reach ::
  "('s \<Rightarrow> 'c \<Rightarrow> ObjectKey \<Rightarrow> 's \<times> 'c \<times> go_error option) \<Rightarrow> ('s \<Rightarrow> string set) \<Rightarrow> ('s \<Rightarrow> string set) \<Rightarrow> ('s \<Rightarrow> bool) \<Rightarrow> 'c \<Rightarrow>
   's \<Rightarrow> 'c \<Rightarrow> string set \<Rightarrow> bool"
  for rec :: "'s \<Rightarrow> 'c \<Rightarrow> ObjectKey \<Rightarrow> 's \<times> 'c \<times> go_error option" and claims live :: "'s \<Rightarrow> string set" and loc :: "'s \<Rightarrow> bool" and c0 :: 'c
where
  start: "loc s \<Longrightarrow> gc_reach rec claims live loc c0 s c0 (claims s)"
| collect: "gc_reach rec claims live loc c0 s c seen \<Longrightarrow> rec s c key = (s', c', err) \<Longrightarrow> gc_reach rec claims live loc c0 s' c' seen"
| other: "gc_reach rec claims live loc c0 s c seen \<Longrightarrow> (live s' - live s) \<inter> seen = {} \<Longrightarrow> loc s' \<Longrightarrow>
    gc_reach rec claims live loc c0 s' c (seen \<union> claims s')"

lemma ran_drop: "ran (m(k := None)) \<subseteq> ran m"
  by (auto simp: ran_def split: if_splits)

text \<open>
  One step of a collector: objects vanish one at a time and only when the UID they name is
  in the cache or not live; only such a UID is added to the cache; nothing is created.
\<close>

locale collector =
  fixes rec :: "'s \<Rightarrow> 'c \<Rightarrow> ObjectKey \<Rightarrow> 's \<times> 'c \<times> go_error option"
    and objs :: "'s \<Rightarrow> ObjectKey \<rightharpoonup> 'o" and uid :: "'o \<Rightarrow> string" and live :: "'s \<Rightarrow> string set" and loc :: "'s \<Rightarrow> bool"
    and members :: "'c \<Rightarrow> string set"
  assumes step_objs: "rec s c key = (s', c', err) \<Longrightarrow> loc s \<Longrightarrow>
      objs s' = objs s \<or> (\<exists>x. objs s key = Some x \<and> objs s' = (objs s)(key := None) \<and> (uid x \<in> members c \<or> uid x \<notin> live s))"
    and step_members: "rec s c key = (s', c', err) \<Longrightarrow> loc s \<Longrightarrow>
      members c' \<subseteq> members c \<union> (uid ` ran (objs s) - live s)"
    and step_live: "rec s c key = (s', c', err) \<Longrightarrow> live s' \<subseteq> live s"
    and step_loc: "rec s c key = (s', c', err) \<Longrightarrow> loc s \<Longrightarrow> loc s'"
begin

abbreviation claims :: "'s \<Rightarrow> string set" where
  "claims s \<equiv> uid ` ran (objs s)"

lemma step_claims: "rec s c key = (s', c', err) \<Longrightarrow> loc s \<Longrightarrow> claims s' \<subseteq> claims s"
  using step_objs [of s c key s' c' err] ran_drop [of "objs s" key] by auto

lemma reach_sound:
  assumes "gc_reach rec claims live loc c0 s c seen" "members c0 = {}"
  shows "loc s \<and> claims s \<subseteq> seen \<and> members c \<subseteq> seen - live s"
  using assms
proof (induction rule: gc_reach.induct)
  case (collect s c seen key s' c' err)
  then have "loc s" "claims s \<subseteq> seen" "members c \<subseteq> seen - live s" by auto
  then show ?case
    using step_claims [OF collect.hyps(2)] step_members [OF collect.hyps(2)] step_live [OF collect.hyps(2)] step_loc [OF collect.hyps(2)]
    by blast
qed auto

lemma collects_orphans_only:
  assumes "gc_reach rec claims live loc c0 s c seen" "members c0 = {}" "rec s c key = (s', c', err)"
    and "objs s k = Some x" "objs s' k = None"
  shows "uid x \<notin> live s"
proof -
  have "loc s" "members c \<subseteq> seen - live s" using reach_sound [OF assms(1,2)] by auto
  then show ?thesis using step_objs [OF assms(3)] assms(4,5) by (auto split: if_splits)
qed

end

text \<open>Objects are stored under their keys and their claims are located.\<close>

definition all_located ::
  "('s, 'c) gc_env \<Rightarrow> ('s \<Rightarrow> GroupVersionKind \<Rightarrow> ObjectKey \<rightharpoonup> ObjectMeta) \<Rightarrow> ('s \<Rightarrow> ObjectKey \<rightharpoonup> 'o) \<Rightarrow> ('o \<Rightarrow> ObjectKey) \<Rightarrow>
   ('o \<Rightarrow> claim_ref) \<Rightarrow> 's \<Rightarrow> bool" where
  "all_located E objects objs mkey ref s \<longleftrightarrow> (\<forall>k x. objs s k = Some x \<longrightarrow> mkey x = k \<and> located E objects s (ref x))"

text \<open>
  Both collectors delete through a client whose calls keep the laws of \<open>resource_api\<close>; deleting an
  object brings no other object into being.
\<close>

locale gc_cluster = claim_reader E members objects + resource_api C objs mkey spec
  for E :: "('s, 'c) gc_env" and members :: "'c \<Rightarrow> string set"
    and objects :: "'s \<Rightarrow> GroupVersionKind \<Rightarrow> ObjectKey \<rightharpoonup> ObjectMeta"
    and C :: "('s, 'o) resource_client" and objs :: "'s \<Rightarrow> ObjectKey \<rightharpoonup> 'o" and mkey :: "'o \<Rightarrow> ObjectKey" and spec :: "'o \<Rightarrow> 'p" +
  fixes ref :: "'o \<Rightarrow> claim_ref"
  assumes delete_objects: "rc_delete C s k = (s', r) \<Longrightarrow> objects s' g j = Some m \<Longrightarrow> objects s g j = Some m"
begin

lemma delete_step:
  assumes "rc_delete C s k = (s', r)"
  shows "live_uids objects s' \<subseteq> live_uids objects s" "objs s' = objs s \<or> objs s' = (objs s)(k := None)"
    and "all_located E objects objs mkey ref s \<Longrightarrow> all_located E objects objs mkey ref s'"
proof -
  show o: "objs s' = objs s \<or> objs s' = (objs s)(k := None)" using assms delete_ok delete_err by (cases r) auto
  show "live_uids objects s' \<subseteq> live_uids objects s" using delete_objects [OF assms] unfolding live_uids_def by blast
  assume "all_located E objects objs mkey ref s"
  moreover have "objs s j = Some x" if "objs s' j = Some x" for j x using o that by (auto split: if_splits)
  ultimately show "all_located E objects objs mkey ref s'"
    using delete_objects [OF assms] unfolding all_located_def located_def by blast
qed

text \<open>
  A collector looks the object up, asks for its claimer and deletes it when the claimer is gone:
  the branches of a run, whatever errors it returns.
\<close>

lemma collector_of:
  assumes rec: "\<And>s c key s' c' err. rec s c key = (s', c', err) \<Longrightarrow>
      s' = s \<and> c' = c \<or>
      (\<exists>x b. rc_get C s key = Inr x \<and> claimer_exists E s c (ref x) = (c', b) \<and>
         (s' = s \<or> b = Inr False \<and> (\<exists>r. rc_delete C s (mkey x) = (s', r))))"
  shows "collector rec objs (\<lambda>x. cr_UID (ref x)) (live_uids objects) (all_located E objects objs mkey ref) members"
proof
  fix s c key s' c' err
  assume r: "rec s c key = (s', c', err)"
  have d: "s' = s \<or> (\<exists>k r. rc_delete C s k = (s', r))" using rec [OF r] by blast
  then show "live_uids objects s' \<subseteq> live_uids objects s" using delete_step(1) by blast
  assume l: "all_located E objects objs mkey ref s"
  show "all_located E objects objs mkey ref s'" using d delete_step(3) l by blast
  have lx: "located E objects s (ref x) \<and> x \<in> ran (objs s) \<and> objs s key = Some x \<and> mkey x = key" if "rc_get C s key = Inr x" for x
    using get_ok [OF that] l by (auto simp: all_located_def ranI)
  show "members c' \<subseteq> members c \<union> ((\<lambda>x. cr_UID (ref x)) ` ran (objs s) - live_uids objects s)"
    using rec [OF r]
  proof
    assume "\<exists>x b. rc_get C s key = Inr x \<and> claimer_exists E s c (ref x) = (c', b) \<and>
      (s' = s \<or> b = Inr False \<and> (\<exists>r. rc_delete C s (mkey x) = (s', r)))"
    then obtain x b where x: "rc_get C s key = Inr x" "claimer_exists E s c (ref x) = (c', b)" by blast
    have u: "cr_UID (ref x) \<in> (\<lambda>x. cr_UID (ref x)) ` ran (objs s)" using lx [OF x(1)] by simp
    consider e where "b = Inl e" | "b = Inr True" | "b = Inr False" by (metis (full_types) sum.exhaust)
    then show ?thesis
    proof cases
      case 3
      then have "claimer_exists E s c (ref x) = (c', Inr False)" using x(2) by simp
      then show ?thesis by (rule claimer_exists_gone) (use lx [OF x(1)] u in blast)+
    qed (use x(2) claimer_exists_failed claimer_exists_found in blast)+
  qed blast
  show "objs s' = objs s \<or> (\<exists>x. objs s key = Some x \<and> objs s' = (objs s)(key := None) \<and>
      (cr_UID (ref x) \<in> members c \<or> cr_UID (ref x) \<notin> live_uids objects s))"
    using rec [OF r]
  proof
    assume "\<exists>x b. rc_get C s key = Inr x \<and> claimer_exists E s c (ref x) = (c', b) \<and>
      (s' = s \<or> b = Inr False \<and> (\<exists>r. rc_delete C s (mkey x) = (s', r)))"
    then obtain x where x: "rc_get C s key = Inr x"
      "s' = s \<or> claimer_exists E s c (ref x) = (c', Inr False) \<and> (\<exists>r. rc_delete C s key = (s', r))" using lx by blast
    then show ?thesis using claimer_exists_gone [of s c "ref x" c'] lx [OF x(1)] delete_step(2) by metis
  qed blast
qed

end

lemma ipaddressgc_branches:
  assumes "ipaddressgc_Reconcile E C s c key = (s', c', err)"
  shows "s' = s \<and> c' = c \<or>
    (\<exists>x b. rc_get C s key = Inr x \<and> claimer_exists E s c (ipaddress_claim x) = (c', b) \<and>
       (s' = s \<or> b = Inr False \<and> (\<exists>r. rc_delete C s (ia_key x) = (s', r))))"
  using assms unfolding ipaddressgc_Reconcile_def ipAddressClaimerExists_def
  by (auto split: sum.splits if_splits prod.splits bool.splits option.splits)

lemma networkidgc_branches:
  assumes "networkidgc_Reconcile E C s c key = (s', c', err)"
  shows "s' = s \<and> c' = c \<or>
    (\<exists>x b. rc_get C s key = Inr x \<and> claimer_exists E s c (networkid_claim x) = (c', b) \<and>
       (s' = s \<or> b = Inr False \<and> (\<exists>r. rc_delete C s (nid_key x) = (s', r))))"
  using assms unfolding networkidgc_Reconcile_def networkIDClaimerExists_def
  by (auto split: sum.splits if_splits prod.splits bool.splits option.splits)

text \<open>The UIDs that the stored addresses and network IDs name.\<close>

definition address_claims :: "('s \<Rightarrow> ObjectKey \<rightharpoonup> IPAddress) \<Rightarrow> 's \<Rightarrow> string set" where
  "address_claims objs s = (\<lambda>a. iaref_UID (ia_claim a)) ` ran (objs s)"

definition networkid_claims :: "('s \<Rightarrow> ObjectKey \<rightharpoonup> NetworkID) \<Rightarrow> 's \<Rightarrow> string set" where
  "networkid_claims objs s = (\<lambda>n. nidref_UID (nidspec_ClaimRef (nid_Spec n))) ` ran (objs s)"

lemma ipaddress_claim_sels [simp]:
  "cr_UID (ipaddress_claim a) = iaref_UID (ia_claim a)" "cr_Group (ipaddress_claim a) = iaref_Group (ia_claim a)"
  "cr_Resource (ipaddress_claim a) = iaref_Resource (ia_claim a)" "cr_Namespace (ipaddress_claim a) = iaref_Namespace (ia_claim a)"
  "cr_Name (ipaddress_claim a) = iaref_Name (ia_claim a)"
  by (simp_all add: ipaddress_claim_def Let_def)

lemma cr_UID_networkid [simp]: "cr_UID (networkid_claim n) = nidref_UID (nidspec_ClaimRef (nid_Spec n))"
  by (simp add: networkid_claim_def Let_def)

text \<open>
  C8. The collector of IP addresses never takes an address from a stored object. Take any state that
  its runs and those of other clients lead to, starting with an empty absence cache, where the other
  clients keep two conditions. In every state each stored address is stored under its name, and if the
  UID its claim names is that of a stored object, the claim points to where that object is stored: its
  kind is the one the REST mapper gives for the resource, its name and namespace are those of the claim
  (an address whose claimed UID is live elsewhere would be deleted). And a UID that was already claimed
  is never given to an object that is stored only later, which excludes the time between the allocation of an
  address and the storing of its \<open>IP\<close>: for it see the property on pending addresses. Then an address
  that a reconciliation removes names a UID that no stored object has.
\<close>

theorem ipaddress_gc_orphans_only:
  assumes "gc_cluster E members objects C objs ia_key ia_claim"
    and "gc_reach (ipaddressgc_Reconcile E C) (address_claims objs) (live_uids objects)
      (all_located E objects objs ia_key ipaddress_claim) c0 s c seen" "members c0 = {}"
    and "ipaddressgc_Reconcile E C s c key = (s', c', err)" "objs s k = Some a" "objs s' k = None"
  shows "iaref_UID (ia_claim a) \<notin> live_uids objects s"
proof -
  have "collector (ipaddressgc_Reconcile E C) objs (\<lambda>x. cr_UID (ipaddress_claim x)) (live_uids objects)
      (all_located E objects objs ia_key ipaddress_claim) members"
    by (rule gc_cluster.collector_of [OF assms(1)]) (rule ipaddressgc_branches)
  from collector.collects_orphans_only [OF this _ assms(3,4,5,6)] assms(2)
  show ?thesis by (simp add: address_claims_def [abs_def])
qed

text \<open>
  The collector of network IDs never takes an ID from a stored object: in every state that its
  runs and those of other clients lead to under the conditions named for addresses, a network ID
  that a reconciliation removes names a UID that no stored object has.
\<close>

theorem networkid_gc_orphans_only:
  assumes "gc_cluster E members objects C objs nid_key nid_Spec"
    and "gc_reach (networkidgc_Reconcile E C) (networkid_claims objs) (live_uids objects)
      (all_located E objects objs nid_key networkid_claim) c0 s c seen" "members c0 = {}"
    and "networkidgc_Reconcile E C s c key = (s', c', err)" "objs s k = Some n" "objs s' k = None"
  shows "nidref_UID (nidspec_ClaimRef (nid_Spec n)) \<notin> live_uids objects s"
proof -
  have "collector (networkidgc_Reconcile E C) objs (\<lambda>x. cr_UID (networkid_claim x)) (live_uids objects)
      (all_located E objects objs nid_key networkid_claim) members"
    by (rule gc_cluster.collector_of [OF assms(1)]) (rule networkidgc_branches)
  from collector.collects_orphans_only [OF this _ assms(3,4,5,6)] assms(2)
  show ?thesis by (simp add: networkid_claims_def [abs_def])
qed

lemma orphan_collected:
  assumes "reliable_api C objs ia_key ia_claim" "objs s (ia_key a) = Some a" "om_DeletionTimestamp (ia_Meta a) = None"
    and "gc_KindsFor E (iaref_Resource (ia_claim a)) (iaref_Group (ia_claim a)) = Inr (g # gs)" "gc_namespaced E g = Inr ns"
    and "(case gc_read E s g \<lparr>key_Namespace = (if ns then iaref_Namespace (ia_claim a) else []), key_Name = iaref_Name (ia_claim a)\<rparr> of
        Inl e \<Rightarrow> IsNotFound e | Inr m \<Rightarrow> om_UID m \<noteq> iaref_UID (ia_claim a))"
  shows "\<exists>s' c'. ipaddressgc_Reconcile E C s c (ia_key a) = (s', c', None) \<and> objs s' = (objs s)(ia_key a := None)"
proof -
  have g: "rc_get C s (ia_key a) = Inr a" by (rule reliable_api.get_taken [OF assms(1,2)])
  obtain s' where d: "rc_delete C s (ia_key a) = (s', None)" using reliable_api.delete_taken [OF assms(1,2)] by (metis prod.collapse)
  then have "objs s' = (objs s)(ia_key a := None)" using resource_api.delete_ok [OF reliable_api.axioms(1) [OF assms(1)]] by blast
  moreover obtain c' where "ipAddressClaimerExists E s c a = (c', Inr False)"
  proof (cases "lru_Get (gc_AbsenceCache E) c (iaref_UID (ia_claim a))")
    case (Pair b c1)
    then show thesis using assms(4,5,6) that
      by (cases b; cases ns) (auto simp: ipAddressClaimerExists_def claimer_exists_def split: sum.splits)
  qed
  ultimately show ?thesis using g d assms(3) by (simp add: ipaddressgc_Reconcile_def)
qed

text \<open>
  C27. An orphaned address is collected: when no object or another one is stored where the claim
  points to, reconciling the address deletes it, provided that the REST mapper knows the claimed
  resource, the address is not being deleted already and the server answers reliably.
\<close>

theorem ipaddress_gc_collects:
  assumes "reliable_api C objs ia_key ia_claim" "objs s (ia_key a) = Some a" "om_DeletionTimestamp (ia_Meta a) = None"
    and "gc_KindsFor E (iaref_Resource (ia_claim a)) (iaref_Group (ia_claim a)) = Inr (g # gs)" "gc_namespaced E g = Inr ns"
    and "(case gc_read E s g \<lparr>key_Namespace = (if ns then iaref_Namespace (ia_claim a) else []), key_Name = iaref_Name (ia_claim a)\<rparr> of
        Inl e \<Rightarrow> IsNotFound e | Inr m \<Rightarrow> om_UID m \<noteq> iaref_UID (ia_claim a))"
  shows "\<exists>s' c'. ipaddressgc_Reconcile E C s c (ia_key a) = (s', c', None) \<and> objs s' (ia_key a) = None"
  using orphan_collected [where C = C and objs = objs and s = s and a = a and E = E and g = g and gs = gs and ns = ns and c = c, OF assms] by fastforce

text \<open>The gateway that a NAT names, if it exists, is the one of that name in the namespace of the interface.\<close>

definition nat_located ::
  "('s \<Rightarrow> GroupVersionKind \<Rightarrow> ObjectKey \<rightharpoonup> ObjectMeta) \<Rightarrow> 's \<Rightarrow> NetworkInterface \<Rightarrow> NetworkInterfaceNAT \<Rightarrow> bool" where
  "nat_located objects s nic n \<longleftrightarrow>
     (\<forall>g k m. objects s g k = Some m \<and> om_UID m = nnref_UID (nnat_ClaimRef n) \<longrightarrow>
        g = natGateway_kind \<and> k = \<lparr>key_Namespace = om_Namespace (nic_Meta nic), key_Name = nnref_Name (nnat_ClaimRef n)\<rparr>)"

text \<open>Reading a gateway fails only when there is none.\<close>

definition gateways_readable :: "('s, 'c) gc_env \<Rightarrow> 's \<Rightarrow> bool" where
  "gateways_readable E s \<longleftrightarrow> (\<forall>k e. gc_read E s natGateway_kind k = Inl e \<longrightarrow> IsNotFound e)"

lemma networkInterfaceNATExists_spec:
  assumes "claim_reader E members objects" "members c \<inter> live_uids objects s = {}"
    and "nat_located objects s nic n" "gateways_readable E s"
  shows "\<exists>c'. networkInterfaceNATExists E s c nic n = (c', Inr (nnref_UID (nnat_ClaimRef n) \<in> live_uids objects s)) \<and>
    members c' \<inter> live_uids objects s = {}"
proof (cases "lru_Get (gc_AbsenceCache E) c (nnref_UID (nnat_ClaimRef n))")
  case (Pair b c1)
  let ?u = "nnref_UID (nnat_ClaimRef n)" and ?k = "\<lparr>key_Namespace = om_Namespace (nic_Meta nic), key_Name = nnref_Name (nnat_ClaimRef n)\<rparr>"
  have L: "absence_cache (gc_AbsenceCache E) members" using assms(1) by (simp add: claim_reader_def)
  have c1: "members c1 \<inter> live_uids objects s = {}" using absence_cache.get_members [OF L Pair] assms(2) by blast
  have add: "members (lru_Add (gc_AbsenceCache E) c1 ?u) \<inter> live_uids objects s = {}" if "?u \<notin> live_uids objects s"
    using absence_cache.add_members [OF L, of c1 ?u] c1 that by blast
  have lu: "?u \<in> live_uids objects s \<longleftrightarrow> (\<exists>m. objects s natGateway_kind ?k = Some m \<and> om_UID m = ?u)"
    unfolding live_uids_def using assms(3) by (force simp: nat_located_def)
  show ?thesis
  proof (cases b)
    case True
    then have "?u \<in> members c" using absence_cache.get_hit [OF L, of c ?u c1] Pair by simp
    then have "?u \<notin> live_uids objects s" using assms(2) by blast
    then show ?thesis using True Pair c1 by (simp add: networkInterfaceNATExists_def)
  next
    case False
    show ?thesis
    proof (cases "gc_read E s natGateway_kind ?k")
      case (Inl e)
      then have "objects s natGateway_kind ?k = None" using claim_reader.read_missing [OF assms(1)] assms(4) unfolding gateways_readable_def by blast
      moreover have "IsNotFound e" using Inl assms(4) by (simp add: gateways_readable_def)
      ultimately show ?thesis using Inl False Pair add lu by (simp add: networkInterfaceNATExists_def)
    next
      case (Inr m)
      then have "objects s natGateway_kind ?k = Some m" by (rule claim_reader.read_ok [OF assms(1)])
      then show ?thesis using Inr False Pair add lu c1 by (auto simp: networkInterfaceNATExists_def)
    qed
  qed
qed

lemma filter_nats_spec:
  assumes "claim_reader E members objects" "members c \<inter> live_uids objects s = {}"
    and "list_all (nat_located objects s nic) ns" "gateways_readable E s"
  shows "\<exists>c'. filter_nats E s c nic ns = (c', Inr (filter (\<lambda>n. nnref_UID (nnat_ClaimRef n) \<in> live_uids objects s) ns)) \<and>
    members c' \<inter> live_uids objects s = {}"
  using assms(2,3)
proof (induction ns arbitrary: c)
  case (Cons n ns)
  obtain c1 where c1: "networkInterfaceNATExists E s c nic n = (c1, Inr (nnref_UID (nnat_ClaimRef n) \<in> live_uids objects s))"
    "members c1 \<inter> live_uids objects s = {}"
    using networkInterfaceNATExists_spec [OF assms(1) Cons.prems(1) _ assms(4), of nic n] Cons.prems(2) by auto
  obtain c2 where "filter_nats E s c1 nic ns = (c2, Inr (filter (\<lambda>n. nnref_UID (nnat_ClaimRef n) \<in> live_uids objects s) ns))"
    "members c2 \<inter> live_uids objects s = {}"
    using Cons.IH [OF c1(2)] Cons.prems(2) by auto
  then show ?case using c1 by simp
qed simp

text \<open>
  C28. Reconciling an interface keeps exactly the NATs whose gateways exist: with a cache that holds
  no UID of a stored object, claims that point to the gateways they name and a reader that answers
  for gateways, the patch that is sent drops the NATs of the other gateways, no patch is sent when
  there are none, and the cache still holds no UID of a stored object.
\<close>

theorem nat_release_exact:
  assumes "claim_reader E members objects" "members c \<inter> live_uids objects s = {}"
    and "k_get K s key = Inr nic" "om_DeletionTimestamp (nic_Meta nic) = None"
    and "list_all (nat_located objects s nic) (nics_NATs (nic_Spec nic))" "gateways_readable E s"
  shows "let kept = filter (\<lambda>n. nnref_UID (nnat_ClaimRef n) \<in> live_uids objects s) (nics_NATs (nic_Spec nic)) in
    \<exists>c'. members c' \<inter> live_uids objects s = {} \<and>
      natrelease_Reconcile E K s c key =
        (if kept = nics_NATs (nic_Spec nic) then (s, c', None)
         else case k_patch K s (nic\<lparr>nic_Spec := (nic_Spec nic)\<lparr>nics_NATs := kept\<rparr>\<rparr>) nic False of
           (s', Inl err) \<Rightarrow> (s', c', Some (Wrapped ''error patching network interface'' err))
         | (s', Inr _) \<Rightarrow> (s', c', None))"
proof -
  obtain c' where "filter_nats E s c nic (nics_NATs (nic_Spec nic)) =
      (c', Inr (filter (\<lambda>n. nnref_UID (nnat_ClaimRef n) \<in> live_uids objects s) (nics_NATs (nic_Spec nic))))"
    "members c' \<inter> live_uids objects s = {}"
    using filter_nats_spec [OF assms(1,2,5,6)] by blast
  moreover have "length (filter P xs) = length xs \<longleftrightarrow> filter P xs = xs" for P and xs :: "NetworkInterfaceNAT list"
    by (metis filter_id_conv length_filter_less nat_neq_iff)
  ultimately show ?thesis using assms(3,4) by (auto simp: natrelease_Reconcile_def Let_def)
qed

section \<open>A cluster in memory\<close>

text \<open>
  The collected objects next to the metadata of the claimers, which the live reader serves. The
  cache keeps the 500 most recent UIDs.
\<close>

type_synonym 'o gc_mem = "'o mem_store \<times> ((GroupVersionKind \<times> ObjectKey) \<times> ObjectMeta) list"

definition core_kind :: "string \<Rightarrow> GroupVersionKind" where
  "core_kind kind = \<lparr>gvk_Group = GroupName, gvk_Version = ''v1alpha1'', gvk_Kind = kind\<rparr>"

definition mem_gc_client :: "('o \<Rightarrow> ObjectKey) \<Rightarrow> ('o gc_mem, 'o) resource_client" where
  "mem_gc_client mkey =
     (let C = mem_client mkey in
      \<lparr>rc_get = (\<lambda>(s, m) k. rc_get C s k), rc_list = (\<lambda>(s, m). rc_list C s),
       rc_create = (\<lambda>(s, m) x. case rc_create C s x of (s', r) \<Rightarrow> ((s', m), r)),
       rc_delete = (\<lambda>(s, m) k. case rc_delete C s k of (s', r) \<Rightarrow> ((s', m), r))\<rparr>)"

definition mem_gc_env :: "('o gc_mem, string list) gc_env" where
  "mem_gc_env =
     \<lparr>gc_KindsFor = (\<lambda>resource group.
        if group = GroupName \<and> resource = ''ips'' then Inr [core_kind ''IP'']
        else if group = GroupName \<and> resource = ''networks'' then Inr [core_kind ''Network'']
        else Inl (ErrMsg ''no matches'')),
      gc_namespaced = (\<lambda>_. Inr True),
      gc_read = (\<lambda>(s, m) g k. case map_of m (g, k) of None \<Rightarrow> Inl NotFound | Some x \<Rightarrow> Inr x),
      gc_AbsenceCache = lru_list 500\<rparr>"

definition mem_gc_objects :: "'o gc_mem \<Rightarrow> GroupVersionKind \<Rightarrow> ObjectKey \<rightharpoonup> ObjectMeta" where
  "mem_gc_objects s g k = map_of (snd s) (g, k)"

lemma mem_claim_reader: "claim_reader mem_gc_env set mem_gc_objects"
proof -
  have "absence_cache (gc_AbsenceCache mem_gc_env) set" using lru.absence_cache_axioms by (simp add: mem_gc_env_def)
  moreover have "claim_reader_axioms mem_gc_env mem_gc_objects"
    by unfold_locales (auto simp: mem_gc_env_def mem_gc_objects_def split: option.splits)
  ultimately show ?thesis by (rule claim_reader.intro)
qed

lemma mem_gc_resource: "resource_api (mem_gc_client mkey) (\<lambda>s. map_of (fst s)) mkey spec"
  by unfold_locales
    (auto simp: mem_gc_client_def mem_client_def Let_def update_conv' delete_conv' ran_map_of split: if_splits option.splits, force)

lemma mem_gc_cluster: "gc_cluster mem_gc_env set mem_gc_objects (mem_gc_client mkey) (\<lambda>s. map_of (fst s)) mkey spec"
proof (intro gc_cluster.intro gc_cluster_axioms.intro mem_claim_reader mem_gc_resource)
  fix s :: "'a gc_mem" and k s' r g j m
  assume "rc_delete (mem_gc_client mkey) s k = (s', r)" "mem_gc_objects s' g j = Some m"
  then show "mem_gc_objects s g j = Some m"
    by (cases s) (auto simp: mem_gc_client_def mem_gc_objects_def Let_def split: prod.splits)
qed

interpretation mem_gc: claim_reader mem_gc_env set mem_gc_objects
  by (rule mem_claim_reader)

interpretation mem_ip_gc: gc_cluster mem_gc_env set mem_gc_objects "mem_gc_client ia_key" "\<lambda>s. map_of (fst s)" ia_key ia_claim ipaddress_claim
  by (rule mem_gc_cluster)

interpretation mem_nid_gc: gc_cluster mem_gc_env set mem_gc_objects "mem_gc_client nid_key" "\<lambda>s. map_of (fst s)" nid_key nid_Spec networkid_claim
  by (rule mem_gc_cluster)

interpretation ip_collector: collector "ipaddressgc_Reconcile mem_gc_env (mem_gc_client ia_key)" "\<lambda>s. map_of (fst s)"
  "\<lambda>x. cr_UID (ipaddress_claim x)" "live_uids mem_gc_objects" "all_located mem_gc_env mem_gc_objects (\<lambda>s. map_of (fst s)) ia_key ipaddress_claim" set
  by (rule mem_ip_gc.collector_of) (rule ipaddressgc_branches)

section \<open>Witnesses and a race\<close>

definition gc_ia_env :: "IPAddress gc_mem ia_env" where
  "gc_ia_env = \<lparr>ia_client = mem_gc_client ia_key, ipAddressSynced = (\<lambda>_. True)\<rparr>"

definition gc_abf :: "IPFamily \<Rightarrow> (bool \<Rightarrow> IPAddress gc_mem ia_interface) option" where
  "gc_abf = [IPv4Protocol \<mapsto> ia_iface 10 gc_ia_env example_ia_allocator 1]"

definition uid_ip :: "string \<Rightarrow> core_IP" where
  "uid_ip u = example_ip\<lparr>ip_Meta := (ip_Meta example_ip)\<lparr>om_Name := u, om_UID := u\<rparr>\<rparr>"

context ia_alloc
begin

text \<open>What a successful creation has done, and when it succeeds for a requested address.\<close>

lemma begin_claims:
  assumes "abf (ipspec_IPFamily (ip_Spec ip)) = Some (ia_iface fuel E a rnd)"
    and "ip_beginCreate abf s ip False = Returns (Some (s1, Inr (ip1, x)))"
  shows "objs s (cluster_key (addr_String x)) = None \<and>
    (\<exists>y. objs s1 = (objs s)(cluster_key (addr_String x) \<mapsto> y) \<and> ia_claim y = ip_claim_ref ip) \<and>
    IsValid x \<and> ia_firstIP a \<le> x \<and> x \<le> ia_lastIP a \<and> ipspec_IP (ip_Spec ip1) = x"
proof (cases "IsValid (ipspec_IP (ip_Spec ip))")
  case True
  then have al: "ia_allocate E a s (ip_claim_ref ip) x False = (s1, None)" "ipspec_IP (ip_Spec ip) = x"
    "ip1 = set_ip_labels (ia_iface fuel E a rnd False) x ip"
    using assms by (auto simp: ip_beginCreate_def ia_iface_def Let_def split: prod.splits option.splits)
  from ia_allocate_ok [OF al(1)] al(2,3) show ?thesis by (simp add: set_ip_labels_def)
next
  case False
  then have fs: "first_success (try_address E (ip_claim_ref ip)) s (ip_order v6 f l rnd) = (s1, Some x)"
    and ip1: "ip1 = set_ip_labels (ia_iface fuel E a rnd False) x (ip\<lparr>ip_Spec := (ip_Spec ip)\<lparr>ipspec_IP := x\<rparr>\<rparr>)"
    using assms by (auto simp: ip_beginCreate_def ia_iface_def search_eq Let_def split: prod.splits option.splits)
  have "f + rnd \<le> l" using a_ok rnd_range by (auto simp: ia_allocator_ok_def)
  with ia_search_Some [OF fs] obtain n where n: "x = fam_addr v6 n" "f \<le> n" "n \<le> l" by (auto simp: set_ip_order)
  have "ia_firstIP a \<le> x \<and> x \<le> ia_lastIP a"
    using n a_ok by (auto simp: ia_allocator_ok_def not_less [symmetric] fam_addr_less)
  with ia_search_Some [OF fs] ip1 n(1) show ?thesis by (simp add: set_ip_labels_def)
qed

lemma begin_requested:
  assumes "abf (ipspec_IPFamily (ip_Spec ip)) = Some (ia_iface fuel E a rnd)" "ipspec_IP (ip_Spec ip) = x"
    and "IsValid x" "ia_firstIP a \<le> x" "x \<le> ia_lastIP a" "objs s (cluster_key (addr_String x)) = None"
  shows "\<exists>s1 ip1. ip_beginCreate abf s ip False = Returns (Some (s1, Inr (ip1, x)))"
proof -
  obtain s1 y where "rc_create (ia_client E) s (new_IPAddress (addr_String x) (ip_claim_ref ip)) = (s1, Inr y)"
    using create_free [of s "new_IPAddress (addr_String x) (ip_claim_ref ip)"] assms(6) by auto
  then have "ia_allocate E a s (ip_claim_ref ip) x False = (s1, None)"
    using assms(3,4,5) by (simp add: ia_allocate_def createIPAddress_def synced not_less)
  then show ?thesis using assms(1-3) by (simp add: ip_beginCreate_def ia_iface_def Let_def)
qed

end

text \<open>
  C38. The storage hook of \<open>IP\<close> creates the address before the \<open>IP\<close> itself is stored, so its claim names
  a UID that is not stored yet. If the collector reconciles the address in between, when reading the
  \<open>IP\<close> finds nothing (or an older object of that name), it deletes the address of the \<open>IP\<close> that is being
  created, whatever its absence cache holds, and reports no error. Finishing the creation changes nothing, and
  every other \<open>IP\<close> of the family that requests this address is then given it, so that two \<open>IP\<close>s carry the same
  address and only the second one holds it. This is for every IP, requested or free address, map of allocators
  and reliable server whose mapper knows \<open>IP\<close> as a namespaced resource, the address being stored under its
  name and not being deleted.
\<close>

theorem gc_takes_pending_address:
  assumes "ia_alloc Ea objs al v6 f l rnd fuel"
    and "abf (ipspec_IPFamily (ip_Spec ip)) = Some (ia_iface fuel Ea al rnd)"
    and "ip_beginCreate abf s ip False = Returns (Some (s1, Inr (ip1, x)))"
    and "\<And>y. objs s1 (cluster_key (addr_String x)) = Some y \<Longrightarrow>
      ia_key y = cluster_key (addr_String x) \<and> om_DeletionTimestamp (ia_Meta y) = None"
    and "gc_KindsFor E ''ips'' GroupName = Inr (g # gs)" "gc_namespaced E g = Inr True"
    and "case gc_read E s1 g (meta_key (ip_Meta ip)) of Inl e \<Rightarrow> IsNotFound e | Inr m \<Rightarrow> om_UID m \<noteq> om_UID (ip_Meta ip)"
    and "ipspec_IPFamily (ip_Spec ip2) = ipspec_IPFamily (ip_Spec ip)" "ipspec_IP (ip_Spec ip2) = x"
  shows "\<exists>s2 c2 s3 ip3 y. ipaddressgc_Reconcile E (ia_client Ea) s1 c (cluster_key (addr_String x)) = (s2, c2, None) \<and>
    objs s2 = (objs s1)(cluster_key (addr_String x) := None) \<and> ip_finishCreate abf s2 ip1 False x True = s2 \<and>
    ip_beginCreate abf s2 ip2 False = Returns (Some (s3, Inr (ip3, x))) \<and>
    ipspec_IP (ip_Spec ip1) = x \<and> ipspec_IP (ip_Spec ip3) = x \<and>
    objs s3 (cluster_key (addr_String x)) = Some y \<and> ia_claim y = ip_claim_ref ip2"
proof -
  let ?k = "cluster_key (addr_String x)"
  note b = ia_alloc.begin_claims [where abf = abf and ip = ip, OF assms(1,2,3)]
  then obtain y where y: "objs s1 ?k = Some y" "ia_claim y = ip_claim_ref ip" by auto
  note k = assms(4) [OF y(1)]
  have api: "reliable_api (ia_client Ea) objs ia_key ia_claim"
    using assms(1) by (simp add: ia_alloc_def ia_server_reliable_def)
  have "\<exists>s2 c2. ipaddressgc_Reconcile E (ia_client Ea) s1 c (ia_key y) = (s2, c2, None) \<and> objs s2 = (objs s1)(ia_key y := None)"
    by (rule orphan_collected [OF api, where g = g and gs = gs and ns = True])
      (use y k assms(5,6,7) in \<open>simp_all add: ip_claim_ref_def meta_key_def split: sum.splits\<close>)
  then obtain s2 c2 where gc: "ipaddressgc_Reconcile E (ia_client Ea) s1 c ?k = (s2, c2, None)" "objs s2 = (objs s1)(?k := None)"
    using k by auto
  have fam2: "abf (ipspec_IPFamily (ip_Spec ip2)) = Some (ia_iface fuel Ea al rnd)" using assms(2,8) by simp
  obtain s3 ip3 where b2: "ip_beginCreate abf s2 ip2 False = Returns (Some (s3, Inr (ip3, x)))"
    using ia_alloc.begin_requested [where s = s2 and abf = abf and ip = ip2, OF assms(1) fam2 assms(9)] b gc(2) by auto
  from ia_alloc.begin_claims [where abf = abf and ip = ip2, OF assms(1) fam2 b2] b gc b2 show ?thesis by (auto simp: ip_finishCreate_def)
qed

lemma mem_gc_reliable: "reliable_api (mem_gc_client mkey) (\<lambda>s. map_of (fst s)) mkey spec"
  by (intro reliable_api.intro mem_gc_resource reliable_api_axioms.intro)
    (auto simp: mem_gc_client_def mem_client_def Let_def split: prod.splits)

lemma gc_ia_alloc: "ia_alloc gc_ia_env (\<lambda>s. map_of (fst s)) example_ia_allocator False 0x0A000000 0x0A000003 1 10"
proof (intro ia_alloc.intro ia_alloc_axioms.intro example_ia_allocator_ok)
  have "reliable_api (ia_client gc_ia_env) (\<lambda>s. map_of (fst s)) ia_key ia_claim"
    using mem_gc_reliable by (simp add: gc_ia_env_def)
  then show "ia_server_reliable gc_ia_env (\<lambda>s. map_of (fst s))"
    by (auto simp: ia_server_reliable_def ia_server_reliable_axioms_def ia_server_def reliable_api_def gc_ia_env_def)
qed (simp_all add: example_ia_allocator_ok)

text \<open>A first \<open>IP\<close> takes a free address; a second one requests it after the collector ran.\<close>

theorem gc_takes_pending_address_witness:
  "\<exists>s1 ip1 x s2 c2 s3 ip3. ip_beginCreate gc_abf ([], []) (uid_ip ''u1'') False = Returns (Some (s1, Inr (ip1, x))) \<and>
     ipaddressgc_Reconcile mem_gc_env (mem_gc_client ia_key) s1 [] (cluster_key (addr_String x)) = (s2, c2, None) \<and>
     ip_beginCreate gc_abf s2 ((uid_ip ''u2'')\<lparr>ip_Spec := (ip_Spec (uid_ip ''u2''))\<lparr>ipspec_IP := x\<rparr>\<rparr>) False =
       Returns (Some (s3, Inr (ip3, x))) \<and> ipspec_IP (ip_Spec ip1) = ipspec_IP (ip_Spec ip3)"
proof -
  obtain s1 ip1 where b: "ip_beginCreate gc_abf ([], []) (uid_ip ''u1'') False = Returns (Some (s1, Inr (ip1, V4 0x0A000001)))"
    and s1: "s1 = ([(cluster_key ''10.0.0.1'', new_IPAddress ''10.0.0.1'' (ip_claim_ref (uid_ip ''u1'')))], [])"
    by (simp add: gc_abf_def gc_ia_env_def uid_ip_def example_ip_def ip_beginCreate_def ia_iface_def ia_eval example_ia_allocator_def
        ia_New_def last_ip4_def Masked_def prefix_IsValid_def PrefixSize_def mask_low_def mask_eq_exp_minus_1 cmp3_def
        mem_gc_client_def ip_claim_ref_def new_IPAddress_def zero_meta_def meta_key_def)
  let ?ip2 = "(uid_ip ''u2'')\<lparr>ip_Spec := (ip_Spec (uid_ip ''u2''))\<lparr>ipspec_IP := V4 0x0A000001\<rparr>\<rparr>"
  have fam: "gc_abf (ipspec_IPFamily (ip_Spec (uid_ip ''u1''))) = Some (ia_iface 10 gc_ia_env example_ia_allocator 1)"
    by (simp add: gc_abf_def uid_ip_def example_ip_def)
  have cl: "ia_client gc_ia_env = mem_gc_client ia_key" by (simp add: gc_ia_env_def)
  have "\<exists>s2 c2 s3 ip3 y. ipaddressgc_Reconcile mem_gc_env (ia_client gc_ia_env) s1 [] (cluster_key (addr_String (V4 0x0A000001))) = (s2, c2, None) \<and>
      map_of (fst s2) = (map_of (fst s1))(cluster_key (addr_String (V4 0x0A000001)) := None) \<and>
      ip_finishCreate gc_abf s2 ip1 False (V4 0x0A000001) True = s2 \<and>
      ip_beginCreate gc_abf s2 ?ip2 False = Returns (Some (s3, Inr (ip3, V4 0x0A000001))) \<and>
      ipspec_IP (ip_Spec ip1) = V4 0x0A000001 \<and> ipspec_IP (ip_Spec ip3) = V4 0x0A000001 \<and>
      map_of (fst s3) (cluster_key (addr_String (V4 0x0A000001))) = Some y \<and> ia_claim y = ip_claim_ref ?ip2"
    by (rule gc_takes_pending_address [OF gc_ia_alloc fam b, where g = "core_kind ''IP''" and gs = "[]"])
      (simp_all add: s1 mem_gc_env_def uid_ip_def example_ip_def new_IPAddress_def zero_meta_def meta_key_def cluster_key_def ia_eval)
  then show ?thesis unfolding cl using b by metis
qed

definition example_address :: IPAddress where
  "example_address = new_IPAddress ''10.0.0.1'' example_claim"

definition orphan_cluster :: "IPAddress gc_mem" where
  "orphan_cluster = ([(cluster_key ''10.0.0.1'', example_address)], [])"

lemma orphan_reachable:
  "gc_reach (ipaddressgc_Reconcile mem_gc_env (mem_gc_client ia_key)) (address_claims (\<lambda>s. map_of (fst s))) (live_uids mem_gc_objects)
     (all_located mem_gc_env mem_gc_objects (\<lambda>s. map_of (fst s)) ia_key ipaddress_claim) [] orphan_cluster []
     (address_claims (\<lambda>s. map_of (fst s)) orphan_cluster)"
  by (rule gc_reach.start)
    (simp add: all_located_def located_def orphan_cluster_def mem_gc_objects_def example_address_def)

lemmas gc_eval = ipaddressgc_Reconcile_def networkidgc_Reconcile_def ipAddressClaimerExists_def networkIDClaimerExists_def claimer_exists_def
  mem_gc_client_def mem_client_def mem_gc_env_def lru_list_def Let_def

theorem ipaddress_gc_orphans_only_witness:
  "''u'' \<notin> live_uids mem_gc_objects orphan_cluster"
proof -
  have r: "ipaddressgc_Reconcile mem_gc_env (mem_gc_client ia_key) orphan_cluster [] (cluster_key ''10.0.0.1'') = (([], []), [''u''], None)"
    by (simp add: gc_eval orphan_cluster_def example_address_def new_IPAddress_def example_claim_def zero_meta_def meta_key_def
        cluster_key_def ipaddress_claim_def)
  have "iaref_UID (ia_claim example_address) \<notin> live_uids mem_gc_objects orphan_cluster"
    by (rule ipaddress_gc_orphans_only [OF mem_gc_cluster orphan_reachable _ r, of "cluster_key ''10.0.0.1''"])
      (simp_all add: orphan_cluster_def)
  then show ?thesis by (simp add: example_address_def example_claim_def)
qed

definition example_networkid :: NetworkID where
  "example_networkid = new_NetworkID ''7'' (example_network [])"

definition orphan_networkids :: "NetworkID gc_mem" where
  "orphan_networkids = ([(cluster_key ''7'', example_networkid)], [])"

theorem networkid_gc_orphans_only_witness:
  "''u1'' \<notin> live_uids mem_gc_objects orphan_networkids"
proof -
  have r: "networkidgc_Reconcile mem_gc_env (mem_gc_client nid_key) orphan_networkids [] (cluster_key ''7'') = (([], []), [''u1''], None)"
    by (simp add: gc_eval orphan_networkids_def example_networkid_def new_NetworkID_def networkToRef_def example_network_def zero_meta_def
        meta_key_def cluster_key_def networkid_claim_def)
  have a: "gc_reach (networkidgc_Reconcile mem_gc_env (mem_gc_client nid_key)) (networkid_claims (\<lambda>s. map_of (fst s))) (live_uids mem_gc_objects)
     (all_located mem_gc_env mem_gc_objects (\<lambda>s. map_of (fst s)) nid_key networkid_claim) [] orphan_networkids []
     (networkid_claims (\<lambda>s. map_of (fst s)) orphan_networkids)"
    by (rule gc_reach.start) (simp add: all_located_def located_def orphan_networkids_def mem_gc_objects_def example_networkid_def)
  have "nidref_UID (nidspec_ClaimRef (nid_Spec example_networkid)) \<notin> live_uids mem_gc_objects orphan_networkids"
    by (rule networkid_gc_orphans_only [OF mem_gc_cluster a _ r, of "cluster_key ''7''"]) (simp_all add: orphan_networkids_def)
  then show ?thesis by (simp add: example_networkid_def new_NetworkID_def networkToRef_def example_network_def)
qed

theorem ipaddress_gc_collects_witness:
  "\<exists>s' c'. ipaddressgc_Reconcile mem_gc_env (mem_gc_client ia_key) orphan_cluster [] (ia_key example_address) = (s', c', None) \<and>
     map_of (fst s') (ia_key example_address) = None"
  by (rule ipaddress_gc_collects [OF mem_gc_reliable, where g = "core_kind ''IP''" and gs = "[]" and ns = True])
    (simp_all add: orphan_cluster_def example_address_def example_claim_def mem_gc_env_def new_IPAddress_def zero_meta_def meta_key_def cluster_key_def)

definition example_nats :: "NetworkInterfaceNAT list" where
  "example_nats =
     [\<lparr>nnat_IPFamily = IPv4Protocol, nnat_ClaimRef = \<lparr>nnref_Name = ''a'', nnref_UID = ''ua''\<rparr>\<rparr>,
      \<lparr>nnat_IPFamily = IPv6Protocol, nnat_ClaimRef = \<lparr>nnref_Name = ''b'', nnref_UID = ''ub''\<rparr>\<rparr>]"

definition example_nat_nic :: NetworkInterface where
  "example_nat_nic =
     \<lparr>nic_Meta = zero_meta\<lparr>om_Name := ''nic'', om_Namespace := ''ns''\<rparr>,
      nic_Spec = \<lparr>nics_NodeRef = ''node'', nics_NetworkRef = ''net'', nics_IPs = [], nics_Prefixes = [],
        nics_NATs = example_nats, nics_PublicIPs = []\<rparr>,
      nic_Status = \<lparr>nicst_State = NetworkInterfaceStateReady, nicst_PCIAddress = None, nicst_Prefixes = [],
        nicst_PublicIPs = [], nicst_NATIPs = []\<rparr>\<rparr>"

definition one_nic_client :: "('s, NetworkInterface) kclient" where
  "one_nic_client = \<lparr>k_get = (\<lambda>_ _. Inr example_nat_nic), k_list = (\<lambda>_ _. Inr [example_nat_nic]), k_create = (\<lambda>s x. (s, Inr x)),
     k_delete = (\<lambda>s _. (s, None)), k_patch = (\<lambda>s x _ _. (s, Inr x)), k_statusPatch = (\<lambda>s x _. (s, Inr x)), k_apply = (\<lambda>s x. (s, Inr x))\<rparr>"

definition gateway_cluster :: "IPAddress gc_mem" where
  "gateway_cluster = ([], [((natGateway_kind, \<lparr>key_Namespace = ''ns'', key_Name = ''a''\<rparr>), zero_meta\<lparr>om_UID := ''ua''\<rparr>)])"

theorem nat_release_exact_witness:
  "\<exists>c'. natrelease_Reconcile mem_gc_env one_nic_client gateway_cluster [] (cluster_key ''nic'') = (gateway_cluster, c', None) \<and> ''ua'' \<notin> set c'"
proof -
  have l: "live_uids mem_gc_objects gateway_cluster = {''ua''}"
    by (auto simp: live_uids_def mem_gc_objects_def gateway_cluster_def split: if_splits)
  have "list_all (nat_located mem_gc_objects gateway_cluster example_nat_nic) (nics_NATs (nic_Spec example_nat_nic))"
    by (simp add: nat_located_def mem_gc_objects_def gateway_cluster_def example_nat_nic_def example_nats_def zero_meta_def)
  moreover have "gateways_readable mem_gc_env gateway_cluster"
    by (auto simp: gateways_readable_def mem_gc_env_def gateway_cluster_def split: option.splits if_splits)
  ultimately show ?thesis
    using nat_release_exact [OF mem_claim_reader, of "[]" gateway_cluster one_nic_client "cluster_key ''nic''" example_nat_nic]
    by (auto simp: l Let_def one_nic_client_def example_nat_nic_def zero_meta_def split: if_splits)
qed

end
