(* ===== verification/Certificates.thy ===== *)
theory Certificates
  imports Prelude "HOL-Library.Sublist"
begin

text \<open>
  The approval of certificate signing requests:
  \<open>internal/controllers/certificateapproval_controller.go\<close> and the recognizers under
  \<open>internal/controllers/certificate/\<close>. Decoding a request is a parameter.
\<close>

section \<open>certificate/generic/certificate.go\<close>

type_synonym bytes = "nat list"

record x509_CertificateRequest =
  x_Organization :: "string list"
  x_CommonName :: string
  x_DNSNames :: "string list"
  x_EmailAddresses :: "string list"
  x_IPAddresses :: "bytes list"
  x_URIs :: "string list"

record csr_condition =
  cc_Type :: string
  cc_Status :: string
  cc_Reason :: string
  cc_Message :: string

record CertificateSigningRequest =
  csr_Name :: string
  csr_Request :: bytes
  csr_SignerName :: string
  csr_Usages :: "string list"
  csr_Username :: string
  csr_UID :: string
  csr_Groups :: "string list"
  csr_Extra :: "(string \<times> string list) list"
  csr_Certificate :: bytes
  csr_Conditions :: "csr_condition list"

record ResourceAttributes =
  ra_Group :: string
  ra_Resource :: string
  ra_Verb :: string
  ra_Subresource :: string

record certificateSigningRequestRecognizer =
  rg_Recognize :: "CertificateSigningRequest \<Rightarrow> x509_CertificateRequest \<Rightarrow> bool"
  rg_Permission :: ResourceAttributes
  rg_SuccessMessage :: string

definition NewCertificateSigningRequestRecognizer ::
  "(CertificateSigningRequest \<Rightarrow> x509_CertificateRequest \<Rightarrow> bool) \<Rightarrow> ResourceAttributes \<Rightarrow> string \<Rightarrow> certificateSigningRequestRecognizer" where
  "NewCertificateSigningRequestRecognizer recognize permission successMessage =
     \<lparr>rg_Recognize = recognize, rg_Permission = permission, rg_SuccessMessage = successMessage\<rparr>"

definition CertificateRequestPEMBlockType :: string where
  "CertificateRequestPEMBlockType = ''CERTIFICATE REQUEST''"

text \<open>\<open>decode\<close> is \<open>pem.Decode\<close>, with the type and the bytes of the block; \<open>parse\<close> is \<open>x509.ParseCertificateRequest\<close>.\<close>

record csr_codec =
  cd_decode :: "bytes \<Rightarrow> (string \<times> bytes) option"
  cd_parse :: "bytes \<Rightarrow> x509_CertificateRequest result"

definition ParseCertificateRequest :: "csr_codec \<Rightarrow> bytes \<Rightarrow> x509_CertificateRequest result" where
  "ParseCertificateRequest D pemBytes =
     (case cd_decode D pemBytes of
        None \<Rightarrow> Inl (ErrMsg ''pem block type must be CERTIFICATE REQUEST'')
      | Some (ty, bs) \<Rightarrow>
          if ty \<noteq> CertificateRequestPEMBlockType then Inl (ErrMsg ''pem block type must be CERTIFICATE REQUEST'')
          else cd_parse D bs)"

definition CertificateApproved :: string where "CertificateApproved = ''Approved''"
definition CertificateDenied :: string where "CertificateDenied = ''Denied''"

definition GetCertificateSigningRequestApprovalCondition :: "csr_condition list \<Rightarrow> bool \<times> bool" where
  "GetCertificateSigningRequestApprovalCondition cs =
     fold (\<lambda>c (approved, denied). (approved \<or> cc_Type c = CertificateApproved, denied \<or> cc_Type c = CertificateDenied)) cs (False, False)"

definition IsCertificateSigningRequestApproved :: "CertificateSigningRequest \<Rightarrow> bool" where
  "IsCertificateSigningRequestApproved csr =
     (case GetCertificateSigningRequestApprovalCondition (csr_Conditions csr) of (approved, denied) \<Rightarrow> approved \<and> \<not> denied)"

section \<open>certificate/onmetal-api-net\<close>

definition KubeAPIServerClientSignerName :: string where
  "KubeAPIServerClientSignerName = ''kubernetes.io/kube-apiserver-client''"

definition RequiredUsages :: "string set" where
  "RequiredUsages = {''digital signature'', ''key encipherment'', ''client auth''}"

definition APINetletsGroup :: string where "APINetletsGroup = ''apinet.api.onmetal.de:system:apinetlets''"
definition APINetletUserNamePrefix :: string where "APINetletUserNamePrefix = ''apinet.api.onmetal.de:system:apinetlet:''"
definition MetalnetletsGroup :: string where "MetalnetletsGroup = ''apinet.api.onmetal.de:system:metalnetlets''"
definition MetalnetletUserNamePrefix :: string where "MetalnetletUserNamePrefix = ''apinet.api.onmetal.de:system:metalnetlet:''"

definition APINetletCommonName :: "string \<Rightarrow> string" where
  "APINetletCommonName name = APINetletUserNamePrefix @ name"

definition MetalnetletCommonName :: "string \<Rightarrow> string" where
  "MetalnetletCommonName name = MetalnetletUserNamePrefix @ name"

text \<open>The two validations differ in the group and in the prefix of the user name.\<close>

definition validate_client_csr :: "string \<Rightarrow> string \<Rightarrow> x509_CertificateRequest \<Rightarrow> string set \<Rightarrow> go_error option" where
  "validate_client_csr grp pre req usages =
     (if [grp] \<noteq> x_Organization req then Some (ErrMsg ''organization'')
      else if x_DNSNames req \<noteq> [] then Some (ErrMsg ''dns subject alternative names are not allowed'')
      else if x_EmailAddresses req \<noteq> [] then Some (ErrMsg ''email subject alternative names are not allowed'')
      else if x_IPAddresses req \<noteq> [] then Some (ErrMsg ''ip subject alternative names are not allowed'')
      else if x_URIs req \<noteq> [] then Some (ErrMsg ''uri subject alternative names are not allowed'')
      else if \<not> Sublist.prefix pre (x_CommonName req) then Some (ErrMsg ''subject common name'')
      else if RequiredUsages \<noteq> usages then Some (ErrMsg ''usages did not match'')
      else None)"

definition ValidateAPINetletClientCSR :: "x509_CertificateRequest \<Rightarrow> string set \<Rightarrow> go_error option" where
  "ValidateAPINetletClientCSR = validate_client_csr APINetletsGroup APINetletUserNamePrefix"

definition IsAPINetletClientCert :: "CertificateSigningRequest \<Rightarrow> x509_CertificateRequest \<Rightarrow> bool" where
  "IsAPINetletClientCert csr x509cr =
     (if csr_SignerName csr \<noteq> KubeAPIServerClientSignerName then False
      else ValidateAPINetletClientCSR x509cr (set (csr_Usages csr)) = None)"

definition ValidateMetalnetletClientCSR :: "x509_CertificateRequest \<Rightarrow> string set \<Rightarrow> go_error option" where
  "ValidateMetalnetletClientCSR = validate_client_csr MetalnetletsGroup MetalnetletUserNamePrefix"

definition IsMetalnetletClientCert :: "CertificateSigningRequest \<Rightarrow> x509_CertificateRequest \<Rightarrow> bool" where
  "IsMetalnetletClientCert csr x509cr =
     (if csr_SignerName csr \<noteq> KubeAPIServerClientSignerName then False
      else ValidateMetalnetletClientCSR x509cr (set (csr_Usages csr)) = None)"

definition csr_permission :: "string \<Rightarrow> ResourceAttributes" where
  "csr_permission sub =
     \<lparr>ra_Group = ''certificates.k8s.io'', ra_Resource = ''certificatesigningrequests'', ra_Verb = ''create'', ra_Subresource = sub\<rparr>"

definition APINetletRecognizer :: certificateSigningRequestRecognizer where
  "APINetletRecognizer = NewCertificateSigningRequestRecognizer IsAPINetletClientCert (csr_permission ''apinetletclient'')
     ''Auto approving apinetlet client certificate after SubjectAccessReview.''"

definition MetalnetletRecognizer :: certificateSigningRequestRecognizer where
  "MetalnetletRecognizer = NewCertificateSigningRequestRecognizer IsMetalnetletClientCert (csr_permission ''metalnetletclient'')
     ''Auto approving metalnetlet client certificate after SubjectAccessReview.''"

text \<open>The files of a package are initialised in the order of their names.\<close>

definition Recognizers :: "certificateSigningRequestRecognizer list" where
  "Recognizers = [APINetletRecognizer, MetalnetletRecognizer]"

section \<open>certificateapproval_controller.go\<close>

record SubjectAccessReviewSpec =
  sar_User :: string
  sar_UID :: string
  sar_Groups :: "string list"
  sar_Extra :: "(string \<times> string list) list"
  sar_ResourceAttributes :: ResourceAttributes

text \<open>
  The client: reading a request, creating an access review, whose answer says whether the access is
  allowed, and updating the approval of a request.
\<close>

record 's csr_env =
  ce_get :: "'s \<Rightarrow> string \<Rightarrow> CertificateSigningRequest result"
  ce_review :: "'s \<Rightarrow> SubjectAccessReviewSpec \<Rightarrow> 's \<times> bool result"
  ce_updateApproval :: "'s \<Rightarrow> CertificateSigningRequest \<Rightarrow> 's \<times> go_error option"
  ce_codec :: csr_codec

definition access_review :: "CertificateSigningRequest \<Rightarrow> ResourceAttributes \<Rightarrow> SubjectAccessReviewSpec" where
  "access_review csr attrs =
     \<lparr>sar_User = csr_Username csr, sar_UID = csr_UID csr, sar_Groups = csr_Groups csr, sar_Extra = csr_Extra csr,
      sar_ResourceAttributes = attrs\<rparr>"

definition csr_authorize :: "'s csr_env \<Rightarrow> 's \<Rightarrow> CertificateSigningRequest \<Rightarrow> ResourceAttributes \<Rightarrow> 's \<times> bool result" where
  "csr_authorize E s csr attrs =
     (case ce_review E s (access_review csr attrs) of
        (s', Inl err) \<Rightarrow> (s', Inl (Wrapped ''error creating subject access review'' err))
      | (s', Inr allowed) \<Rightarrow> (s', Inr allowed))"

definition appendApprovalCondition :: "CertificateSigningRequest \<Rightarrow> string \<Rightarrow> CertificateSigningRequest" where
  "appendApprovalCondition csr message =
     csr\<lparr>csr_Conditions := csr_Conditions csr @
       [\<lparr>cc_Type = CertificateApproved, cc_Status = ''True'', cc_Reason = ''AutoApproved'', cc_Message = message\<rparr>]\<rparr>"

fun recognizer_loop ::
  "'s csr_env \<Rightarrow> CertificateSigningRequest \<Rightarrow> x509_CertificateRequest \<Rightarrow> 's \<Rightarrow> certificateSigningRequestRecognizer list \<Rightarrow>
   's \<times> go_error option" where
  "recognizer_loop E csr x509CR s [] = (s, None)"
| "recognizer_loop E csr x509CR s (recognizer # rs) =
     (if rg_Recognize recognizer csr x509CR then recognizer_loop E csr x509CR s rs
      else (case csr_authorize E s csr (rg_Permission recognizer) of
              (s', Inl err) \<Rightarrow> (s', Some (Wrapped ''error approving permission subresource'' err))
            | (s', Inr False) \<Rightarrow> recognizer_loop E csr x509CR s' rs
            | (s', Inr True) \<Rightarrow>
                (case ce_updateApproval E s' (appendApprovalCondition csr (rg_SuccessMessage recognizer)) of
                   (s'', Some err) \<Rightarrow> (s'', Some (Wrapped ''error updating approval for certificate signing request'' err))
                 | (s'', None) \<Rightarrow> (s'', None))))"

definition csr_Reconcile :: "'s csr_env \<Rightarrow> certificateSigningRequestRecognizer list \<Rightarrow> 's \<Rightarrow> string \<Rightarrow> 's \<times> go_error option" where
  "csr_Reconcile E recognizers s name =
     (case ce_get E s name of
        Inl err \<Rightarrow> (s, IgnoreNotFound (Some err))
      | Inr csr \<Rightarrow>
          if csr_Certificate csr \<noteq> [] then (s, None)
          else (case GetCertificateSigningRequestApprovalCondition (csr_Conditions csr) of
                  (approved, denied) \<Rightarrow>
                    if approved \<or> denied then (s, None)
                    else (case ParseCertificateRequest (ce_codec E) (csr_Request csr) of
                            Inl err \<Rightarrow> (s, Some (Wrapped ''error parsing csr'' err))
                          | Inr x509CR \<Rightarrow> recognizer_loop E csr x509CR s recognizers)))"

section \<open>Which requests are approved\<close>

text \<open>A request is pending when it has no certificate and no decision yet and can be parsed.\<close>

definition pending :: "'s csr_env \<Rightarrow> 's \<Rightarrow> string \<Rightarrow> CertificateSigningRequest \<Rightarrow> x509_CertificateRequest \<Rightarrow> bool" where
  "pending E s name csr x \<longleftrightarrow>
     ce_get E s name = Inr csr \<and> csr_Certificate csr = [] \<and> (\<forall>c\<in>set (csr_Conditions csr). cc_Type c \<notin> {CertificateApproved, CertificateDenied}) \<and>
     ParseCertificateRequest (ce_codec E) (csr_Request csr) = Inr x"

text \<open>Reviews are answered without changing the cluster, according to \<open>allowed\<close>.\<close>

definition reviews_by :: "'s csr_env \<Rightarrow> (SubjectAccessReviewSpec \<Rightarrow> bool) \<Rightarrow> bool" where
  "reviews_by E allowed \<longleftrightarrow> (\<forall>s r. ce_review E s r = (s, Inr (allowed r)))"

definition approve_with :: "'s csr_env \<Rightarrow> 's \<Rightarrow> CertificateSigningRequest \<Rightarrow> certificateSigningRequestRecognizer \<Rightarrow> 's \<times> go_error option" where
  "approve_with E s csr r =
     (case ce_updateApproval E s (appendApprovalCondition csr (rg_SuccessMessage r)) of
        (s', err) \<Rightarrow> (s', map_option (Wrapped ''error updating approval for certificate signing request'') err))"

lemma approval_condition:
  "GetCertificateSigningRequestApprovalCondition cs =
     (\<exists>c\<in>set cs. cc_Type c = CertificateApproved, \<exists>c\<in>set cs. cc_Type c = CertificateDenied)"
proof -
  have "fold (\<lambda>c (a, d). (a \<or> cc_Type c = CertificateApproved, d \<or> cc_Type c = CertificateDenied)) cs (a, d) =
    (a \<or> (\<exists>c\<in>set cs. cc_Type c = CertificateApproved), d \<or> (\<exists>c\<in>set cs. cc_Type c = CertificateDenied))" for a d
    by (induction cs arbitrary: a d) auto
  then show ?thesis by (simp add: GetCertificateSigningRequestApprovalCondition_def)
qed

lemma recognizer_loop_find:
  assumes "reviews_by E allowed"
  shows "recognizer_loop E csr x s rs =
    (case find (\<lambda>r. \<not> rg_Recognize r csr x \<and> allowed (access_review csr (rg_Permission r))) rs of
       None \<Rightarrow> (s, None) | Some r \<Rightarrow> approve_with E s csr r)"
  using assms
  by (induction rs) (auto simp: reviews_by_def csr_authorize_def approve_with_def split: bool.splits prod.splits option.splits)

lemma Reconcile_pending:
  assumes "pending E s name csr x"
  shows "csr_Reconcile E recognizers s name = recognizer_loop E csr x s recognizers"
  using assms by (auto simp: pending_def csr_Reconcile_def approval_condition)

lemma recognizers_exclusive: "\<not> (IsAPINetletClientCert csr x \<and> IsMetalnetletClientCert csr x)"
proof -
  have "x_Organization x = [APINetletsGroup]" if "IsAPINetletClientCert csr x"
    using that by (auto simp: IsAPINetletClientCert_def ValidateAPINetletClientCSR_def validate_client_csr_def split: if_splits)
  moreover have "x_Organization x = [MetalnetletsGroup]" if "IsMetalnetletClientCert csr x"
    using that by (auto simp: IsMetalnetletClientCert_def ValidateMetalnetletClientCSR_def validate_client_csr_def split: if_splits)
  ultimately show ?thesis by (auto simp: APINetletsGroup_def MetalnetletsGroup_def)
qed

text \<open>
  A pending request is approved by the first recognizer that does \<^emph>\<open>not\<close> recognize it and whose
  permission the requesting user has; if there is none, nothing happens. A recognizer that
  recognizes the request is skipped, whatever the user may do.
\<close>

theorem approval_by_unrecognizing:
  assumes "pending E s name csr x" "reviews_by E allowed"
  shows "csr_Reconcile E recognizers s name =
    (case find (\<lambda>r. \<not> rg_Recognize r csr x \<and> allowed (access_review csr (rg_Permission r))) recognizers of
       None \<Rightarrow> (s, None) | Some r \<Rightarrow> approve_with E s csr r)"
  using Reconcile_pending [OF assms(1)] recognizer_loop_find [OF assms(2)] by simp

text \<open>
  C39. With the recognizers of the program, a user who has both permissions gets every pending
  request approved, whatever its signer, subject and usages are, while an apinetlet that has
  the permission for its own kind only never gets its valid client request approved.
\<close>

theorem certificate_approval_inverted:
  assumes "pending E s name csr x" "reviews_by E allowed"
  shows "(allowed (access_review csr (csr_permission ''apinetletclient'')) \<and> allowed (access_review csr (csr_permission ''metalnetletclient'')) \<longrightarrow>
      (\<exists>r\<in>set Recognizers. csr_Reconcile E Recognizers s name = approve_with E s csr r)) \<and>
    (IsAPINetletClientCert csr x \<and> \<not> allowed (access_review csr (csr_permission ''metalnetletclient'')) \<longrightarrow>
      csr_Reconcile E Recognizers s name = (s, None))"
  using Reconcile_pending [OF assms(1), of Recognizers] recognizer_loop_find [OF assms(2), of csr x s Recognizers] recognizers_exclusive [of csr x]
  by (auto simp: Recognizers_def APINetletRecognizer_def MetalnetletRecognizer_def NewCertificateSigningRequestRecognizer_def)

section \<open>Witnesses\<close>

definition example_csr :: CertificateSigningRequest where
  "example_csr = \<lparr>csr_Name = ''csr'', csr_Request = [1], csr_SignerName = ''example.com/other'', csr_Usages = [''server auth''],
     csr_Username = ''u'', csr_UID = ''uid'', csr_Groups = [], csr_Extra = [], csr_Certificate = [], csr_Conditions = []\<rparr>"

definition example_x509 :: x509_CertificateRequest where
  "example_x509 = \<lparr>x_Organization = [''system:masters''], x_CommonName = ''admin'', x_DNSNames = [], x_EmailAddresses = [],
     x_IPAddresses = [], x_URIs = []\<rparr>"

definition example_csr_env :: "CertificateSigningRequest csr_env" where
  "example_csr_env = \<lparr>ce_get = (\<lambda>s _. Inr s), ce_review = (\<lambda>s _. (s, Inr True)), ce_updateApproval = (\<lambda>s c. (c, None)),
     ce_codec = \<lparr>cd_decode = (\<lambda>bs. Some (CertificateRequestPEMBlockType, bs)), cd_parse = (\<lambda>_. Inr example_x509)\<rparr>\<rparr>"

lemma example_pending: "pending example_csr_env example_csr ''csr'' example_csr example_x509" "reviews_by example_csr_env (\<lambda>_. True)"
  by (simp_all add: pending_def reviews_by_def example_csr_env_def example_csr_def ParseCertificateRequest_def)

theorem approval_by_unrecognizing_witness:
  "csr_Reconcile example_csr_env [APINetletRecognizer] example_csr ''csr'' = approve_with example_csr_env example_csr example_csr APINetletRecognizer"
  using approval_by_unrecognizing [OF example_pending, of "[APINetletRecognizer]"]
  by (simp add: APINetletRecognizer_def NewCertificateSigningRequestRecognizer_def IsAPINetletClientCert_def example_csr_def
      KubeAPIServerClientSignerName_def)

theorem certificate_approval_inverted_witness:
  "\<exists>r\<in>set Recognizers. csr_Reconcile example_csr_env Recognizers example_csr ''csr'' = approve_with example_csr_env example_csr example_csr r"
  using certificate_approval_inverted [OF example_pending] by simp

end
