(* ===== verification/Validation.thy ===== *)
theory Validation
  imports NatGateway NodeAffinity NetworkIDs IPAddresses
begin

text \<open>
  The checks of the API server on its objects: \<open>internal/apis/core/validation\<close>, the defaults of
  \<open>internal/apis/core/v1alpha1/defaults.go\<close>, and the parts of the storage strategies that change an
  object. The generic checks of \<open>k8s.io/apimachinery\<close> are parameters.
\<close>

section \<open>Errors and generic checks\<close>

type_synonym path = "string list"

datatype field_error = Required path string | NotSupported path string | Invalid path string | Forbidden path string

definition Child :: "path \<Rightarrow> string \<Rightarrow> path" where
  "Child p name = p @ [name]"

definition Index :: "path \<Rightarrow> nat \<Rightarrow> path" where
  "Index p i = p @ [''['' @ dec_nat i @ '']'']"

text \<open>
  \<open>mv_ObjectMeta\<close> takes the metadata, whether the object is namespaced and the check of its name;
  \<open>mv_Immutable\<close> takes the path and whether the values are semantically equal; \<open>mv_ParseAddr\<close> is
  \<open>netip.ParseAddr\<close> and \<open>mv_DerefZero\<close> is \<open>generic.DerefZero\<close> of the controller utilities.
\<close>

record ('q, 'l, 'f) validators =
  mv_ObjectMeta :: "ObjectMeta \<Rightarrow> bool \<Rightarrow> (string \<Rightarrow> bool \<Rightarrow> string list) \<Rightarrow> path \<Rightarrow> field_error list"
  mv_ObjectMetaUpdate :: "ObjectMeta \<Rightarrow> ObjectMeta \<Rightarrow> path \<Rightarrow> field_error list"
  mv_NameIsDNSLabel :: "string \<Rightarrow> bool \<Rightarrow> string list"
  mv_NameIsDNSSubdomain :: "string \<Rightarrow> bool \<Rightarrow> string list"
  mv_Immutable :: "path \<Rightarrow> bool \<Rightarrow> field_error list"
  mv_Nonnegative :: "int \<Rightarrow> path \<Rightarrow> field_error list"
  mv_DerefZero :: "int option \<Rightarrow> int"
  mv_LabelSelector :: "LabelSelector option \<Rightarrow> path \<Rightarrow> field_error list"
  mv_selectors :: "('q, 'l, 'f) selector_api"
  mv_ParseAddr :: "string \<Rightarrow> addr result"

section \<open>common.go\<close>

text \<open>The zero value of the enumerations is the empty string.\<close>

definition ValidateEnum :: "string set \<Rightarrow> string \<Rightarrow> path \<Rightarrow> string \<Rightarrow> field_error list" where
  "ValidateEnum allowed v p requiredDetail =
     (if v = [] \<and> [] \<notin> allowed then [Required p requiredDetail]
      else if v \<notin> allowed then [NotSupported p v]
      else [])"

definition IPFamilies :: "string set" where
  "IPFamilies = {IPv4Protocol, IPv6Protocol}"

definition ValidateIPFamily :: "IPFamily \<Rightarrow> path \<Rightarrow> field_error list" where
  "ValidateIPFamily ipFamily p = ValidateEnum IPFamilies ipFamily p ''must specify IP family''"

definition ValidateIPMatchesFamily :: "net_IP \<Rightarrow> IPFamily \<Rightarrow> path \<Rightarrow> field_error list" where
  "ValidateIPMatchesFamily ip ipFamily p = (if Family ip \<noteq> ipFamily then [Invalid p ''IP should have family''] else [])"

section \<open>ip.go and ipaddress.go\<close>

definition IPTypes :: "string set" where
  "IPTypes = {IPTypePublic}"

definition ValidateIPType :: "IPType \<Rightarrow> path \<Rightarrow> field_error list" where
  "ValidateIPType ipType p = ValidateEnum IPTypes ipType p ''must specify IP type''"

definition ValidateIPSpec :: "IPSpec \<Rightarrow> path \<Rightarrow> field_error list" where
  "ValidateIPSpec spec p =
     ValidateIPType (ipspec_Type spec) (Child p ''type'') @ ValidateIPFamily (ipspec_IPFamily spec) (Child p ''ipFamily'') @
     (if IP_IsValid (Some (ipspec_IP spec)) then ValidateIPMatchesFamily (ipspec_IP spec) (ipspec_IPFamily spec) (Child p ''ip'') else [])"

definition ValidateIP :: "('q, 'l, 'f) validators \<Rightarrow> IP \<Rightarrow> field_error list" where
  "ValidateIP V ip =
     mv_ObjectMeta V (ip_Meta ip) True (mv_NameIsDNSLabel V) [''metadata''] @ ValidateIPSpec (ip_Spec ip) [''spec'']"

definition ValidateIPSpecUpdate :: "('q, 'l, 'f) validators \<Rightarrow> IPSpec \<Rightarrow> IPSpec \<Rightarrow> path \<Rightarrow> field_error list" where
  "ValidateIPSpecUpdate V newSpec oldSpec p =
     mv_Immutable V (Child p ''type'') (ipspec_Type newSpec = ipspec_Type oldSpec) @
     mv_Immutable V (Child p ''ipFamily'') (ipspec_IPFamily newSpec = ipspec_IPFamily oldSpec) @
     (if ipspec_IP newSpec \<noteq> ipspec_IP oldSpec then [Invalid (Child p ''ip'') ''field is immutable''] else [])"

definition ValidateIPUpdate :: "('q, 'l, 'f) validators \<Rightarrow> IP \<Rightarrow> IP \<Rightarrow> field_error list" where
  "ValidateIPUpdate V newIP oldIP =
     mv_ObjectMetaUpdate V (ip_Meta newIP) (ip_Meta oldIP) [''metadata''] @ ValidateIP V newIP @
     ValidateIPSpecUpdate V (ip_Spec newIP) (ip_Spec oldIP) [''spec'']"

definition ValidateIPStatusUpdate :: "('q, 'l, 'f) validators \<Rightarrow> IP \<Rightarrow> IP \<Rightarrow> field_error list" where
  "ValidateIPStatusUpdate V newIP oldIP = mv_ObjectMetaUpdate V (ip_Meta newIP) (ip_Meta oldIP) [''metadata'']"

definition ValidateIPAddressName :: "('q, 'l, 'f) validators \<Rightarrow> string \<Rightarrow> bool \<Rightarrow> string list" where
  "ValidateIPAddressName V name pre =
     (case mv_ParseAddr V name of
        Inl err \<Rightarrow> [''unable to parse IP'']
      | Inr ip \<Rightarrow> if addr_String ip \<noteq> name then [''not a valid IP address in canonical format''] else [])"

definition ValidateIPAddress :: "('q, 'l, 'f) validators \<Rightarrow> IPAddress \<Rightarrow> field_error list" where
  "ValidateIPAddress V a = mv_ObjectMeta V (ia_Meta a) False (ValidateIPAddressName V) [''metadata'']"

definition ValidateIPAddressSpecUpdate :: "('q, 'l, 'f) validators \<Rightarrow> IPAddressSpec \<Rightarrow> IPAddressSpec \<Rightarrow> path \<Rightarrow> field_error list" where
  "ValidateIPAddressSpecUpdate V newSpec oldSpec p =
     (if iaspec_IP newSpec \<noteq> iaspec_IP oldSpec then [Invalid (Child p ''ip'') ''field is immutable''] else []) @
     mv_Immutable V (Child p ''clamRef'') (iaspec_ClaimRef newSpec = iaspec_ClaimRef oldSpec)"

definition ValidateIPAddressUpdate :: "('q, 'l, 'f) validators \<Rightarrow> IPAddress \<Rightarrow> IPAddress \<Rightarrow> field_error list" where
  "ValidateIPAddressUpdate V newA oldA =
     mv_ObjectMetaUpdate V (ia_Meta newA) (ia_Meta oldA) [''metadata''] @ ValidateIPAddress V newA @
     ValidateIPAddressSpecUpdate V (ia_Spec newA) (ia_Spec oldA) [''spec'']"

definition ValidateIPAddressStatusUpdate :: "('q, 'l, 'f) validators \<Rightarrow> IPAddress \<Rightarrow> IPAddress \<Rightarrow> field_error list" where
  "ValidateIPAddressStatusUpdate V newA oldA = mv_ObjectMetaUpdate V (ia_Meta newA) (ia_Meta oldA) [''metadata'']"

section \<open>network.go and networkid.go\<close>

definition ValidateNetworkSpec :: "NetworkSpec \<Rightarrow> path \<Rightarrow> field_error list" where
  "ValidateNetworkSpec spec p = []"

definition ValidateNetwork :: "('q, 'l, 'f) validators \<Rightarrow> Network \<Rightarrow> field_error list" where
  "ValidateNetwork V network =
     mv_ObjectMeta V (net_Meta network) True (mv_NameIsDNSLabel V) [''metadata''] @ ValidateNetworkSpec (net_Spec network) [''spec'']"

definition ValidateNetworkSpecUpdate :: "('q, 'l, 'f) validators \<Rightarrow> NetworkSpec \<Rightarrow> NetworkSpec \<Rightarrow> path \<Rightarrow> field_error list" where
  "ValidateNetworkSpecUpdate V newSpec oldSpec p = mv_Immutable V (Child p ''id'') (netspec_ID newSpec = netspec_ID oldSpec)"

definition ValidateNetworkUpdate :: "('q, 'l, 'f) validators \<Rightarrow> Network \<Rightarrow> Network \<Rightarrow> field_error list" where
  "ValidateNetworkUpdate V newN oldN =
     mv_ObjectMetaUpdate V (net_Meta newN) (net_Meta oldN) [''metadata''] @ ValidateNetwork V newN @
     ValidateNetworkSpecUpdate V (net_Spec newN) (net_Spec oldN) [''spec'']"

definition ValidateNetworkStatusUpdate :: "('q, 'l, 'f) validators \<Rightarrow> Network \<Rightarrow> Network \<Rightarrow> field_error list" where
  "ValidateNetworkStatusUpdate V newN oldN = mv_ObjectMetaUpdate V (net_Meta newN) (net_Meta oldN) [''metadata'']"

definition ValidateNetworkIDName :: "string \<Rightarrow> bool \<Rightarrow> string list" where
  "ValidateNetworkIDName name pre =
     (case ParseVNI name of
        Inl err \<Rightarrow> [''unable to parse VNI'']
      | Inr vni \<Rightarrow> if EncodeVNI vni \<noteq> name then [''not a valid VNI in canonical format''] else [])"

definition ValidateNetworkID :: "('q, 'l, 'f) validators \<Rightarrow> NetworkID \<Rightarrow> field_error list" where
  "ValidateNetworkID V n = mv_ObjectMeta V (nid_Meta n) False ValidateNetworkIDName [''metadata'']"

definition ValidateNetworkIDSpecUpdate :: "('q, 'l, 'f) validators \<Rightarrow> NetworkIDSpec \<Rightarrow> NetworkIDSpec \<Rightarrow> path \<Rightarrow> field_error list" where
  "ValidateNetworkIDSpecUpdate V newSpec oldSpec p = mv_Immutable V (Child p ''claimRef'') (nidspec_ClaimRef newSpec = nidspec_ClaimRef oldSpec)"

definition ValidateNetworkIDUpdate :: "('q, 'l, 'f) validators \<Rightarrow> NetworkID \<Rightarrow> NetworkID \<Rightarrow> field_error list" where
  "ValidateNetworkIDUpdate V newN oldN =
     mv_ObjectMetaUpdate V (nid_Meta newN) (nid_Meta oldN) [''metadata''] @ ValidateNetworkID V newN @
     ValidateNetworkIDSpecUpdate V (nid_Spec newN) (nid_Spec oldN) [''spec'']"

section \<open>natgateway.go and natgatewayautoscaler.go\<close>

definition ValidateNATGatewaySpec :: "NATGatewaySpec \<Rightarrow> path \<Rightarrow> field_error list" where
  "ValidateNATGatewaySpec spec p =
     ValidateIPFamily (ngs_IPFamily spec) (Child p ''ipFamily'') @
     concat (map (\<lambda>(i, ip). if IP_IsValid (Some (natip_IP ip))
        then ValidateIPMatchesFamily (natip_IP ip) (ngs_IPFamily spec) (Child (Index (Child p ''ips'') i) ''ip'') else [])
       (enumerate 0 (ngs_IPs spec)))"

definition ValidateNATGateway :: "('q, 'l, 'f) validators \<Rightarrow> NATGateway \<Rightarrow> field_error list" where
  "ValidateNATGateway V ng =
     mv_ObjectMeta V (ng_Meta ng) True (mv_NameIsDNSLabel V) [''metadata''] @ ValidateNATGatewaySpec (ng_Spec ng) [''spec'']"

definition ValidateNATGatewaySpecUpdate :: "('q, 'l, 'f) validators \<Rightarrow> NATGatewaySpec \<Rightarrow> NATGatewaySpec \<Rightarrow> path \<Rightarrow> field_error list" where
  "ValidateNATGatewaySpecUpdate V newSpec oldSpec p =
     mv_Immutable V (Child p ''ipFamily'') (ngs_IPFamily newSpec = ngs_IPFamily oldSpec) @
     mv_Immutable V (Child p ''networkRef'') (ngs_NetworkRef newSpec = ngs_NetworkRef oldSpec)"

definition ValidateNATGatewayUpdate :: "('q, 'l, 'f) validators \<Rightarrow> NATGateway \<Rightarrow> NATGateway \<Rightarrow> field_error list" where
  "ValidateNATGatewayUpdate V newN oldN =
     mv_ObjectMetaUpdate V (ng_Meta newN) (ng_Meta oldN) [''metadata''] @ ValidateNATGateway V newN @
     ValidateNATGatewaySpecUpdate V (ng_Spec newN) (ng_Spec oldN) [''spec'']"

definition ValidateNATGatewayStatusUpdate :: "('q, 'l, 'f) validators \<Rightarrow> NATGateway \<Rightarrow> NATGateway \<Rightarrow> field_error list" where
  "ValidateNATGatewayStatusUpdate V newN oldN = mv_ObjectMetaUpdate V (ng_Meta newN) (ng_Meta oldN) [''metadata'']"

definition ValidateNATGatewayAutoscalerSpec :: "('q, 'l, 'f) validators \<Rightarrow> NATGatewayAutoscalerSpec \<Rightarrow> path \<Rightarrow> field_error list" where
  "ValidateNATGatewayAutoscalerSpec V spec p =
     (let minPublicIPs = mv_DerefZero V (ngas_MinPublicIPs spec); maxPublicIPs = mv_DerefZero V (ngas_MaxPublicIPs spec) in
      mv_Nonnegative V minPublicIPs (Child p ''minPublicIPs'') @ mv_Nonnegative V maxPublicIPs (Child p ''maxPublicIPs'') @
      (if minPublicIPs > maxPublicIPs then [Invalid (Child p ''maxPublicIPs'') ''must >= minPublicIPs''] else []))"

definition ValidateNATGatewayAutoscaler :: "('q, 'l, 'f) validators \<Rightarrow> NATGatewayAutoscaler \<Rightarrow> field_error list" where
  "ValidateNATGatewayAutoscaler V a =
     mv_ObjectMeta V (nga_Meta a) True (mv_NameIsDNSLabel V) [''metadata''] @ ValidateNATGatewayAutoscalerSpec V (nga_Spec a) [''spec'']"

definition ValidateNATGatewayAutoscalerUpdate :: "('q, 'l, 'f) validators \<Rightarrow> NATGatewayAutoscaler \<Rightarrow> NATGatewayAutoscaler \<Rightarrow> field_error list" where
  "ValidateNATGatewayAutoscalerUpdate V newA oldA =
     mv_ObjectMetaUpdate V (nga_Meta newA) (nga_Meta oldA) [''metadata''] @ ValidateNATGatewayAutoscaler V newA"

definition ValidateNATGatewayAutoscalerSpecUpdate ::
  "('q, 'l, 'f) validators \<Rightarrow> NATGatewayAutoscalerSpec \<Rightarrow> NATGatewayAutoscalerSpec \<Rightarrow> path \<Rightarrow> field_error list" where
  "ValidateNATGatewayAutoscalerSpecUpdate V newSpec oldSpec p =
     mv_Immutable V (Child p ''natGatewayRef'') (ngas_NATGatewayRef newSpec = ngas_NATGatewayRef oldSpec)"

definition ValidateNATGatewayAutoscalerStatusUpdate ::
  "('q, 'l, 'f) validators \<Rightarrow> NATGatewayAutoscaler \<Rightarrow> NATGatewayAutoscaler \<Rightarrow> field_error list" where
  "ValidateNATGatewayAutoscalerStatusUpdate V newA oldA =
     mv_ObjectMetaUpdate V (nga_Meta newA) (nga_Meta oldA) [''metadata''] @
     ValidateNATGatewayAutoscalerSpecUpdate V (nga_Spec newA) (nga_Spec oldA) [''spec'']"

section \<open>networkinterface.go\<close>

fun internal_ips :: "path \<Rightarrow> string set \<Rightarrow> (nat \<times> net_IP) list \<Rightarrow> field_error list" where
  "internal_ips p seen [] = []"
| "internal_ips p seen ((i, ip) # ips) =
     (if \<not> IP_IsValid (Some ip) then Invalid (Index [''ips''] i) ''must specify valid IP'' # internal_ips p seen ips
      else if Family ip \<in> seen then Invalid (Index [''ips''] i) ''cannot have multiple internal IPs of family'' # internal_ips p seen ips
      else internal_ips p (insert (Family ip) seen) ips)"

text \<open>The loops over public IPs and over NATs share the set of families seen.\<close>

fun external_families :: "(nat \<Rightarrow> path) \<Rightarrow> string \<Rightarrow> string set \<Rightarrow> (nat \<times> IPFamily) list \<Rightarrow> field_error list \<times> string set" where
  "external_families p msg seen [] = ([], seen)"
| "external_families p msg seen ((i, fam) # fams) =
     (let (errs, seen') = external_families p msg (insert fam seen) fams in
      (ValidateIPFamily fam (Child (p i) ''ipFamily'') @ (if fam \<in> seen then [Forbidden (p i) msg] else []) @ errs, seen'))"

definition ValidateNetworkInterfaceSpec :: "NetworkInterfaceSpec \<Rightarrow> path \<Rightarrow> field_error list" where
  "ValidateNetworkInterfaceSpec spec p =
     (let nodeErrs = (if nics_NodeRef spec = [] then [Required (Child (Child p ''nodeRef'') ''name'') ''must specify target node''] else []);
          ipErrs = internal_ips p {} (enumerate 0 (nics_IPs spec));
          (pubErrs, seen) = external_families (Index (Child p ''publicIPs'')) ''cannot have multiple external IPs of family'' {}
            (enumerate 0 (map npub_IPFamily (nics_PublicIPs spec)));
          (natErrs, _) = external_families (Index (Child p ''nats'')) ''cannot have nat for already present external IP family'' seen
            (enumerate 0 (map nnat_IPFamily (nics_NATs spec))) in
      nodeErrs @ ipErrs @ pubErrs @ natErrs)"

definition ValidateNetworkInterface :: "('q, 'l, 'f) validators \<Rightarrow> NetworkInterface \<Rightarrow> field_error list" where
  "ValidateNetworkInterface V nic =
     mv_ObjectMeta V (nic_Meta nic) True (mv_NameIsDNSLabel V) [''metadata''] @ ValidateNetworkInterfaceSpec (nic_Spec nic) [''spec'']"

definition ValidateNetworkInterfaceSpecUpdate ::
  "('q, 'l, 'f) validators \<Rightarrow> NetworkInterfaceSpec \<Rightarrow> NetworkInterfaceSpec \<Rightarrow> path \<Rightarrow> field_error list" where
  "ValidateNetworkInterfaceSpecUpdate V newSpec oldSpec p =
     mv_Immutable V (Child p ''networkRef'') (nics_NetworkRef newSpec = nics_NetworkRef oldSpec) @
     mv_Immutable V (Child p ''nodeRef'') (nics_NodeRef newSpec = nics_NodeRef oldSpec) @
     (if nics_IPs newSpec \<noteq> nics_IPs oldSpec then [Invalid (Child p ''ips'') ''field is immutable''] else [])"

definition ValidateNetworkInterfaceUpdate :: "('q, 'l, 'f) validators \<Rightarrow> NetworkInterface \<Rightarrow> NetworkInterface \<Rightarrow> field_error list" where
  "ValidateNetworkInterfaceUpdate V newN oldN =
     mv_ObjectMetaUpdate V (nic_Meta newN) (nic_Meta oldN) [''metadata''] @ ValidateNetworkInterface V newN @
     ValidateNetworkInterfaceSpecUpdate V (nic_Spec newN) (nic_Spec oldN) [''spec'']"

definition ValidateNetworkInterfaceStatusUpdate :: "('q, 'l, 'f) validators \<Rightarrow> NetworkInterface \<Rightarrow> NetworkInterface \<Rightarrow> field_error list" where
  "ValidateNetworkInterfaceStatusUpdate V newN oldN = mv_ObjectMetaUpdate V (nic_Meta newN) (nic_Meta oldN) [''metadata'']"

section \<open>loadbalancer.go, daemonset.go and instance.go\<close>

definition LoadBalancerTypes :: "string set" where
  "LoadBalancerTypes = {LoadBalancerTypePublic, LoadBalancerTypeInternal}"

definition ValidateLoadBalancerType :: "LoadBalancerType \<Rightarrow> path \<Rightarrow> field_error list" where
  "ValidateLoadBalancerType typ p = ValidateEnum LoadBalancerTypes typ p ''must specify type''"

text \<open>The selector must match the labels of the template, unless it cannot be converted.\<close>

definition validate_selector :: "('q, 'l, 'f) validators \<Rightarrow> LabelSelector option \<Rightarrow> InstanceTemplate \<Rightarrow> path \<Rightarrow> field_error list" where
  "validate_selector V selector template p =
     mv_LabelSelector V selector (Child p ''selector'') @
     (case sa_AsSelector (mv_selectors V) selector of
        Inl _ \<Rightarrow> []
      | Inr sel \<Rightarrow>
          if \<not> sa_Matches (mv_selectors V) sel (om_Labels (it_Meta template))
          then [Invalid (Child (Child p ''template'') ''labels'') ''`selector` does not match template `labels`''] else [])"

definition ValidateLoadBalancerSpec :: "('q, 'l, 'f) validators \<Rightarrow> LoadBalancerSpec \<Rightarrow> path \<Rightarrow> field_error list" where
  "ValidateLoadBalancerSpec V spec p =
     ValidateLoadBalancerType (lbs_Type spec) (Child p ''type'') @
     concat (map (\<lambda>(i, ip). ValidateIPFamily (lbip_IPFamily ip) (Index (Child p ''ips'') i) @
        (if IP_IsValid (Some (lbip_IP ip))
         then ValidateIPMatchesFamily (lbip_IP ip) (lbip_IPFamily ip) (Child (Index (Child p ''ips'') i) ''ip'') else []))
       (enumerate 0 (lbs_IPs spec))) @
     validate_selector V (lbs_Selector spec) (lbs_Template spec) p"

definition ValidateLoadBalancer :: "('q, 'l, 'f) validators \<Rightarrow> LoadBalancer \<Rightarrow> field_error list" where
  "ValidateLoadBalancer V lb =
     mv_ObjectMeta V (lb_Meta lb) True (mv_NameIsDNSLabel V) [''metadata''] @ ValidateLoadBalancerSpec V (lb_Spec lb) [''spec'']"

text \<open>Semantic equality of selectors does not depend on the order of the labels.\<close>

definition selector_equal :: "LabelSelector option \<Rightarrow> LabelSelector option \<Rightarrow> bool" where
  "selector_equal a b =
     (case (a, b) of
        (None, None) \<Rightarrow> True
      | (Some x, Some y) \<Rightarrow> map_of (ls_MatchLabels x) = map_of (ls_MatchLabels y) \<and> ls_MatchExpressions x = ls_MatchExpressions y
      | _ \<Rightarrow> False)"

definition ValidateLoadBalancerSpecUpdate :: "('q, 'l, 'f) validators \<Rightarrow> LoadBalancerSpec \<Rightarrow> LoadBalancerSpec \<Rightarrow> path \<Rightarrow> field_error list" where
  "ValidateLoadBalancerSpecUpdate V newSpec oldSpec p =
     mv_Immutable V (Child p ''type'') (lbs_Type newSpec = lbs_Type oldSpec) @
     mv_Immutable V (Child p ''networkRef'') (lbs_NetworkRef newSpec = lbs_NetworkRef oldSpec) @
     mv_Immutable V (Child p ''selector'') (selector_equal (lbs_Selector newSpec) (lbs_Selector oldSpec))"

definition ValidateLoadBalancerUpdate :: "('q, 'l, 'f) validators \<Rightarrow> LoadBalancer \<Rightarrow> LoadBalancer \<Rightarrow> field_error list" where
  "ValidateLoadBalancerUpdate V newL oldL =
     mv_ObjectMetaUpdate V (lb_Meta newL) (lb_Meta oldL) [''metadata''] @ ValidateLoadBalancer V newL @
     ValidateLoadBalancerSpecUpdate V (lb_Spec newL) (lb_Spec oldL) [''spec'']"

definition ValidateLoadBalancerStatusUpdate :: "('q, 'l, 'f) validators \<Rightarrow> LoadBalancer \<Rightarrow> LoadBalancer \<Rightarrow> field_error list" where
  "ValidateLoadBalancerStatusUpdate V newL oldL = mv_ObjectMetaUpdate V (lb_Meta newL) (lb_Meta oldL) [''metadata'']"

definition ValidateDaemonSetSpec :: "('q, 'l, 'f) validators \<Rightarrow> DaemonSetSpec \<Rightarrow> path \<Rightarrow> field_error list" where
  "ValidateDaemonSetSpec V spec p = validate_selector V (dss_Selector spec) (dss_Template spec) p"

definition ValidateDaemonSet :: "('q, 'l, 'f) validators \<Rightarrow> DaemonSet \<Rightarrow> field_error list" where
  "ValidateDaemonSet V ds =
     mv_ObjectMeta V (ds_Meta ds) True (mv_NameIsDNSLabel V) [''metadata''] @ ValidateDaemonSetSpec V (ds_Spec ds) [''spec'']"

definition ValidateDaemonSetUpdate :: "('q, 'l, 'f) validators \<Rightarrow> DaemonSet \<Rightarrow> DaemonSet \<Rightarrow> field_error list" where
  "ValidateDaemonSetUpdate V newD oldD =
     mv_ObjectMetaUpdate V (ds_Meta newD) (ds_Meta oldD) [''metadata''] @ ValidateDaemonSet V newD"

definition ValidateDaemonSetStatusUpdate :: "('q, 'l, 'f) validators \<Rightarrow> DaemonSet \<Rightarrow> DaemonSet \<Rightarrow> field_error list" where
  "ValidateDaemonSetStatusUpdate V newD oldD = mv_ObjectMetaUpdate V (ds_Meta newD) (ds_Meta oldD) [''metadata'']"

definition InstanceTypes :: "string set" where
  "InstanceTypes = {InstanceTypeLoadBalancer}"

definition ValidateInstanceType :: "InstanceType \<Rightarrow> path \<Rightarrow> field_error list" where
  "ValidateInstanceType typ p = ValidateEnum InstanceTypes typ p ''must specify instance type''"

definition ValidateInstanceSpec :: "InstanceSpec \<Rightarrow> path \<Rightarrow> field_error list" where
  "ValidateInstanceSpec spec p =
     ValidateInstanceType (is_Type spec) (Child p ''type'') @
     (if is_Type spec = InstanceTypeLoadBalancer
      then ValidateLoadBalancerType (is_LoadBalancerType spec) (Child p ''loadBalancerType'') else [])"

definition ValidateInstance :: "('q, 'l, 'f) validators \<Rightarrow> Instance \<Rightarrow> field_error list" where
  "ValidateInstance V i =
     mv_ObjectMeta V (inst_Meta i) True (mv_NameIsDNSLabel V) [''metadata''] @ ValidateInstanceSpec (inst_Spec i) [''spec'']"

text \<open>An old object without a node takes the node of the new one before the two are compared.\<close>

definition ValidateInstanceSpecUpdate :: "('q, 'l, 'f) validators \<Rightarrow> InstanceSpec \<Rightarrow> InstanceSpec \<Rightarrow> path \<Rightarrow> field_error list" where
  "ValidateInstanceSpecUpdate V newSpec oldSpec p =
     (let oldSpec = (if is_NodeRef oldSpec = None then oldSpec\<lparr>is_NodeRef := is_NodeRef newSpec\<rparr> else oldSpec) in
      mv_Immutable V (Child p ''type'') (is_Type newSpec = is_Type oldSpec) @
      mv_Immutable V (Child p ''loadBalancerType'') (is_LoadBalancerType newSpec = is_LoadBalancerType oldSpec) @
      mv_Immutable V (Child p ''networkRef'') (is_NetworkRef newSpec = is_NetworkRef oldSpec) @
      mv_Immutable V (Child p ''nodeRef'') (is_NodeRef newSpec = is_NodeRef oldSpec))"

definition ValidateInstanceUpdate :: "('q, 'l, 'f) validators \<Rightarrow> Instance \<Rightarrow> Instance \<Rightarrow> field_error list" where
  "ValidateInstanceUpdate V newI oldI =
     mv_ObjectMetaUpdate V (inst_Meta newI) (inst_Meta oldI) [''metadata''] @ ValidateInstance V newI @
     ValidateInstanceSpecUpdate V (inst_Spec newI) (inst_Spec oldI) [''spec'']"

definition ValidateInstanceStatusUpdate :: "('q, 'l, 'f) validators \<Rightarrow> Instance \<Rightarrow> Instance \<Rightarrow> field_error list" where
  "ValidateInstanceStatusUpdate V newI oldI = mv_ObjectMetaUpdate V (inst_Meta newI) (inst_Meta oldI) [''metadata'']"

section \<open>nattable.go, loadbalancerrouting.go and node.go\<close>

definition ValidateNATTable :: "('q, 'l, 'f) validators \<Rightarrow> NATTable \<Rightarrow> field_error list" where
  "ValidateNATTable V t = mv_ObjectMeta V (nt_Meta t) True (mv_NameIsDNSLabel V) [''metadata'']"

definition ValidateNATTableUpdate :: "('q, 'l, 'f) validators \<Rightarrow> NATTable \<Rightarrow> NATTable \<Rightarrow> field_error list" where
  "ValidateNATTableUpdate V newT oldT = mv_ObjectMetaUpdate V (nt_Meta newT) (nt_Meta oldT) [''metadata''] @ ValidateNATTable V newT"

definition ValidateLoadBalancerRouting :: "('q, 'l, 'f) validators \<Rightarrow> LoadBalancerRouting \<Rightarrow> field_error list" where
  "ValidateLoadBalancerRouting V r = mv_ObjectMeta V (lbr_Meta r) True (mv_NameIsDNSLabel V) [''metadata'']"

definition ValidateLoadBalancerRoutingUpdate :: "('q, 'l, 'f) validators \<Rightarrow> LoadBalancerRouting \<Rightarrow> LoadBalancerRouting \<Rightarrow> field_error list" where
  "ValidateLoadBalancerRoutingUpdate V newR oldR =
     mv_ObjectMetaUpdate V (lbr_Meta newR) (lbr_Meta oldR) [''metadata''] @ ValidateLoadBalancerRouting V newR"

definition ValidateNode :: "('q, 'l, 'f) validators \<Rightarrow> Node \<Rightarrow> field_error list" where
  "ValidateNode V n = mv_ObjectMeta V (node_Meta n) False (mv_NameIsDNSSubdomain V) [''metadata'']"

definition ValidateNodeUpdate :: "('q, 'l, 'f) validators \<Rightarrow> Node \<Rightarrow> Node \<Rightarrow> field_error list" where
  "ValidateNodeUpdate V newN oldN = mv_ObjectMetaUpdate V (node_Meta newN) (node_Meta oldN) [''metadata''] @ ValidateNode V newN"

definition ValidateNodeStatusUpdate :: "('q, 'l, 'f) validators \<Rightarrow> Node \<Rightarrow> Node \<Rightarrow> field_error list" where
  "ValidateNodeStatusUpdate V newN oldN = mv_ObjectMetaUpdate V (node_Meta newN) (node_Meta oldN) [''metadata'']"

section \<open>Defaults and status updates\<close>

definition default_family :: "IPFamily \<Rightarrow> net_IP \<Rightarrow> IPFamily" where
  "default_family fam ip = (if fam = [] \<and> IP_IsValid (Some ip) then Family ip else fam)"

definition SetDefaults_IPSpec :: "IPSpec \<Rightarrow> IPSpec" where
  "SetDefaults_IPSpec spec = spec\<lparr>ipspec_IPFamily := default_family (ipspec_IPFamily spec) (ipspec_IP spec)\<rparr>"

definition SetDefaults_NetworkInterfacePublicIP :: "NetworkInterfacePublicIP \<Rightarrow> NetworkInterfacePublicIP" where
  "SetDefaults_NetworkInterfacePublicIP ip = ip\<lparr>npub_IPFamily := default_family (npub_IPFamily ip) (npub_IP ip)\<rparr>"

definition SetDefaults_LoadBalancerIP :: "LoadBalancerIP \<Rightarrow> LoadBalancerIP" where
  "SetDefaults_LoadBalancerIP ip = ip\<lparr>lbip_IPFamily := default_family (lbip_IPFamily ip) (lbip_IP ip)\<rparr>"

text \<open>An update of the status keeps the stored spec; then it is validated.\<close>

definition networkInterfaceStatus_update :: "('q, 'l, 'f) validators \<Rightarrow> NetworkInterface \<Rightarrow> NetworkInterface \<Rightarrow> NetworkInterface \<times> field_error list" where
  "networkInterfaceStatus_update V newN oldN =
     (let newN' = newN\<lparr>nic_Spec := nic_Spec oldN\<rparr> in (newN', ValidateNetworkInterfaceStatusUpdate V newN' oldN))"

definition natGatewayAutoscalerStatus_update ::
  "('q, 'l, 'f) validators \<Rightarrow> NATGatewayAutoscaler \<Rightarrow> NATGatewayAutoscaler \<Rightarrow> NATGatewayAutoscaler \<times> field_error list" where
  "natGatewayAutoscalerStatus_update V newA oldA =
     (let newA' = newA\<lparr>nga_Spec := nga_Spec oldA\<rparr> in (newA', ValidateNATGatewayAutoscalerStatusUpdate V newA' oldA))"

section \<open>What the generic checks promise\<close>

locale field_validators = selectors "mv_selectors V" holds
  for V :: "('q, 'l, 'f) validators" and holds :: "'q \<Rightarrow> labels \<Rightarrow> bool" +
  assumes immutable_ok: "mv_Immutable V p b = [] \<longleftrightarrow> b"
    and nonnegative_ok: "mv_Nonnegative V n p = [] \<longleftrightarrow> 0 \<le> n"
    and deref_zero: "mv_DerefZero V x = (case x of None \<Rightarrow> 0 | Some v \<Rightarrow> v)"
    and name_checked: "mv_ObjectMeta V m namespaced check p = [] \<Longrightarrow> om_Name m \<noteq> [] \<and> check (om_Name m) False = []"

begin

lemma network_update_id: "ValidateNetworkUpdate V n' n = [] \<Longrightarrow> netspec_ID (net_Spec n') = netspec_ID (net_Spec n)"
  by (simp add: ValidateNetworkUpdate_def ValidateNetworkSpecUpdate_def immutable_ok)

lemma ip_update_spec:
  assumes "ValidateIPUpdate V i' i = []"
  shows "ipspec_Type (ip_Spec i') = ipspec_Type (ip_Spec i)" "ipspec_IPFamily (ip_Spec i') = ipspec_IPFamily (ip_Spec i)"
    "ipspec_IP (ip_Spec i') = ipspec_IP (ip_Spec i)"
  using assms by (simp_all add: ValidateIPUpdate_def ValidateIPSpecUpdate_def immutable_ok split: if_splits)

lemma nic_spec_update:
  "ValidateNetworkInterfaceSpecUpdate V n' n p = [] \<longleftrightarrow>
     nics_NetworkRef n' = nics_NetworkRef n \<and> nics_NodeRef n' = nics_NodeRef n \<and> nics_IPs n' = nics_IPs n"
  by (simp add: ValidateNetworkInterfaceSpecUpdate_def immutable_ok)

lemma instance_update_node:
  "ValidateInstanceUpdate V i' i = [] \<Longrightarrow> is_NodeRef (inst_Spec i) = Some n \<Longrightarrow> is_NodeRef (inst_Spec i') = Some n"
  by (simp add: ValidateInstanceUpdate_def ValidateInstanceSpecUpdate_def Let_def immutable_ok)

end

section \<open>Properties\<close>

lemma ValidateIPFamily_ok: "ValidateIPFamily fam p = [] \<longleftrightarrow> fam \<in> IPFamilies"
  by (simp add: ValidateIPFamily_def ValidateEnum_def)

lemma internal_ips_ok:
  "internal_ips p seen (enumerate i ips) = [] \<longleftrightarrow>
     list_all IsValid ips \<and> distinct (map Family ips) \<and> seen \<inter> Family ` set ips = {}"
  by (induction ips arbitrary: seen i) (auto simp: IP_IsValid_def)

lemma external_families_seen: "external_families p msg seen (enumerate i fams) = (errs, seen') \<Longrightarrow> seen' = seen \<union> set fams"
  by (induction fams arbitrary: seen i errs) (auto simp: Let_def split: prod.splits)

lemma external_families_ok:
  "external_families p msg seen (enumerate i fams) = (errs, seen') \<Longrightarrow>
     errs = [] \<longleftrightarrow> set fams \<subseteq> IPFamilies \<and> distinct fams \<and> seen \<inter> set fams = {}"
proof (induction fams arbitrary: seen i errs)
  case (Cons fam fams)
  obtain es where es: "external_families p msg (insert fam seen) (enumerate (Suc i) fams) = (es, seen')"
    "errs = ValidateIPFamily fam (Child (p i) ''ipFamily'') @ (if fam \<in> seen then [Forbidden (p i) msg] else []) @ es"
    using Cons.prems by (auto simp: Let_def split: prod.splits)
  show ?case using Cons.IH [OF es(1)] es(2) by (auto simp: ValidateIPFamily_ok)
qed auto

lemma network_interface_valid_iff:
  "ValidateNetworkInterfaceSpec spec p = [] \<longleftrightarrow>
     nics_NodeRef spec \<noteq> [] \<and> list_all IsValid (nics_IPs spec) \<and> distinct (map Family (nics_IPs spec)) \<and>
     set (map npub_IPFamily (nics_PublicIPs spec) @ map nnat_IPFamily (nics_NATs spec)) \<subseteq> IPFamilies \<and>
     distinct (map npub_IPFamily (nics_PublicIPs spec) @ map nnat_IPFamily (nics_NATs spec))"
proof -
  obtain e1 s1 where 1: "external_families (Index (Child p ''publicIPs'')) ''cannot have multiple external IPs of family'' {}
      (enumerate 0 (map npub_IPFamily (nics_PublicIPs spec))) = (e1, s1)" by (metis surj_pair)
  obtain e2 s2 where 2: "external_families (Index (Child p ''nats'')) ''cannot have nat for already present external IP family'' s1
      (enumerate 0 (map nnat_IPFamily (nics_NATs spec))) = (e2, s2)" by (metis surj_pair)
  have "ValidateNetworkInterfaceSpec spec p = [] \<longleftrightarrow> nics_NodeRef spec \<noteq> [] \<and> internal_ips p {} (enumerate 0 (nics_IPs spec)) = [] \<and> e1 = [] \<and> e2 = []"
    by (simp add: ValidateNetworkInterfaceSpec_def Let_def 1 2)
  moreover have "e1 = [] \<and> e2 = [] \<longleftrightarrow>
     set (map npub_IPFamily (nics_PublicIPs spec) @ map nnat_IPFamily (nics_NATs spec)) \<subseteq> IPFamilies \<and>
     distinct (map npub_IPFamily (nics_PublicIPs spec) @ map nnat_IPFamily (nics_NATs spec))"
    unfolding external_families_ok [OF 1] external_families_ok [OF 2] external_families_seen [OF 1] set_append distinct_append Un_subset_iff
    by blast
  ultimately show ?thesis by (simp add: internal_ips_ok)
qed

text \<open>
  C10. An interface is accepted exactly when it names a node, all of its IPs are valid and of
  different families, and the families of its public IPs and NATs, taken together, are known and
  different from each other.
\<close>

theorem network_interface_valid:
  "ValidateNetworkInterfaceSpec spec p = [] \<longleftrightarrow>
     nics_NodeRef spec \<noteq> [] \<and> list_all IsValid (nics_IPs spec) \<and> distinct (map Family (nics_IPs spec)) \<and>
     set (map npub_IPFamily (nics_PublicIPs spec) @ map nnat_IPFamily (nics_NATs spec)) \<subseteq> IPFamilies \<and>
     distinct (map npub_IPFamily (nics_PublicIPs spec) @ map nnat_IPFamily (nics_NATs spec))"
  by (rule network_interface_valid_iff)

lemma gateway_family: "ValidateNATGatewaySpec spec p = [] \<Longrightarrow> ngs_IPFamily spec \<in> IPFamilies"
  by (simp add: ValidateNATGatewaySpec_def ValidateIPFamily_ok)

lemma claimed_valid:
  assumes "ValidateNetworkInterfaceSpec (nic_Spec nic) p = []" "fam \<in> IPFamilies"
    and "fam \<notin> npub_IPFamily ` set (nics_PublicIPs (nic_Spec nic))" "GetNetworkInterfaceNATClaimer nic fam = None"
  shows "ValidateNetworkInterfaceSpec (nic_Spec (set_NATs (nic_NATs nic @ [\<lparr>nnat_IPFamily = fam, nnat_ClaimRef = ref\<rparr>]) nic)) p = []"
  using assms unfolding network_interface_valid_iff
  by (auto simp: set_NATs_def GetNetworkInterfaceNATClaimer_def nats_claimer_None)

text \<open>
  C9. The claim that the NAT gateway controller sends for an interface passes the validation of
  the server: for a stored interface and a gateway that are both valid, an interface that the
  gateway selects and that has no claimer, the patch either is not needed, or sends an object
  whose spec is valid and whose update of the spec is allowed.
\<close>

theorem claim_passes_validation:
  assumes "field_validators V holds" "ValidateNetworkInterfaceSpec (nic_Spec nic) p = []" "ValidateNATGatewaySpec (ng_Spec ng) q = []"
    and "natGatewayNetworkInterfaceSelector ng nic" "GetNetworkInterfaceNATClaimer nic (ngs_IPFamily (ng_Spec ng)) = None"
  shows "\<exists>nic'. fst (fst (claim_attempt K (nic_key nic) (nic_uid nic) (ngs_IPFamily (ng_Spec ng)) ref s (nic, False))) =
      fst (k_patch K s nic' nic True) \<and>
    ValidateNetworkInterfaceSpec (nic_Spec nic') p = [] \<and> ValidateNetworkInterfaceSpecUpdate V (nic_Spec nic') (nic_Spec nic) p = [] \<and>
    GetNetworkInterfaceNATClaimer nic' (ngs_IPFamily (ng_Spec ng)) = Some ref"
proof -
  let ?f = "ngs_IPFamily (ng_Spec ng)"
  define nic' where "nic' = set_NATs (nic_NATs nic @ [\<lparr>nnat_IPFamily = ?f, nnat_ClaimRef = ref\<rparr>]) nic"
  have "?f \<notin> npub_IPFamily ` set (nics_PublicIPs (nic_Spec nic))"
    using assms(4) by (auto simp: natGatewayNetworkInterfaceSelector_def Let_def list_ex_iff split: if_splits)
  then have "ValidateNetworkInterfaceSpec (nic_Spec nic') p = []"
    unfolding nic'_def using claimed_valid assms(2,5) gateway_family [OF assms(3)] by blast
  moreover have "ValidateNetworkInterfaceSpecUpdate V (nic_Spec nic') (nic_Spec nic) p = []"
    by (simp add: field_validators.nic_spec_update [OF assms(1)] nic'_def set_NATs_def)
  moreover have "GetNetworkInterfaceNATClaimer nic' ?f = Some ref"
    using assms(5) by (simp add: nic'_def set_NATs_def GetNetworkInterfaceNATClaimer_def nats_claimer_append)
  moreover have "fst (fst (claim_attempt K (nic_key nic) (nic_uid nic) ?f ref s (nic, False))) = fst (k_patch K s nic' nic True)"
    using assms(5) by (simp add: claim_attempt_def nic'_def Let_def split: prod.split sum.split)
  ultimately show ?thesis by blast
qed

text \<open>
  An accepted update changes nothing that deleting the object releases: deleting the updated
  network or IP releases the same identifier or address as deleting the old one.
\<close>

theorem update_keeps_release:
  assumes "field_validators V holds" "ValidateNetworkUpdate V n' n = []" "ValidateIPUpdate V i' i = []"
  shows "network_afterDelete ifc s n' dryRun = network_afterDelete ifc s n dryRun \<and>
    ip_afterDelete abf t i' dryRun = ip_afterDelete abf t i dryRun"
  using field_validators.network_update_id [OF assms(1,2)] field_validators.ip_update_spec [OF assms(1,3)]
  by (simp add: network_afterDelete_def ip_afterDelete_def split: option.split)

text \<open>
  A name is accepted for a network ID exactly when it is the decimal form of a 32 bit VNI, so
  the names that the allocator creates are accepted and different names are different VNIs.
\<close>

theorem network_id_names:
  "ValidateNetworkIDName name pre = [] \<longleftrightarrow> (\<exists>v. in_i32 v \<and> name = EncodeVNI v)"
proof
  assume "ValidateNetworkIDName name pre = []"
  then obtain v where "ParseVNI name = Inr v" "EncodeVNI v = name"
    by (auto simp: ValidateNetworkIDName_def split: sum.splits if_splits)
  then show "\<exists>v. in_i32 v \<and> name = EncodeVNI v" using ParseVNI_Some by blast
qed (auto simp: ValidateNetworkIDName_def ParseVNI_Encode)

text \<open>
  C40. The number of ports per interface of a NAT gateway is not validated: any number is accepted
  where another one is, and with 0 the controller panics as soon as it can list the interfaces.
\<close>

theorem zero_ports_accepted:
  assumes "k_list (ne_nic E) s (om_Namespace (ng_Meta ng)) = Inr nics" "ngs_PortsPerNetworkInterface (ng_Spec ng) = 0"
  shows "ValidateNATGatewaySpec (ng_Spec ng) p = ValidateNATGatewaySpec ((ng_Spec ng)\<lparr>ngs_PortsPerNetworkInterface := k\<rparr>) p \<and>
    manageNATTable B ord ordS ordI env E ng ips existing s = Panics"
  using assms by (simp add: ValidateNATGatewaySpec_def manageNATTable_def NewAllocationManager_def case_prod_beta cong: if_cong)

text \<open>
  An autoscaler with a minimum and no maximum is refused, although the controller reads a
  missing maximum as no bound; and the gateway an autoscaler points to can be changed, because
  an update does not compare it and an update of the status, which does, first restores it.
\<close>

theorem autoscaler_validation_gaps:
  assumes "field_validators V holds"
  shows "(ngas_MinPublicIPs spec = Some m \<and> 0 < m \<and> ngas_MaxPublicIPs spec = None \<longrightarrow> ValidateNATGatewayAutoscalerSpec V spec p \<noteq> []) \<and>
    ValidateNATGatewayAutoscalerUpdate V (newA\<lparr>nga_Spec := (nga_Spec newA)\<lparr>ngas_NATGatewayRef := r\<rparr>\<rparr>) oldA =
      ValidateNATGatewayAutoscalerUpdate V newA oldA \<and>
    snd (natGatewayAutoscalerStatus_update V newA oldA) = mv_ObjectMetaUpdate V (nga_Meta newA) (nga_Meta oldA) [''metadata'']"
  using field_validators.immutable_ok [OF assms] field_validators.deref_zero [OF assms]
  by (auto simp: ValidateNATGatewayAutoscalerSpec_def ValidateNATGatewayAutoscalerUpdate_def ValidateNATGatewayAutoscaler_def
      natGatewayAutoscalerStatus_update_def ValidateNATGatewayAutoscalerStatusUpdate_def ValidateNATGatewayAutoscalerSpecUpdate_def
      Let_def)

section \<open>An instance of the generic checks\<close>

definition plain_validators ::
  "(string \<times> selection_op \<times> string list, (string \<times> selection_op \<times> string list) list option, labels \<Rightarrow> bool) validators" where
  "plain_validators =
     \<lparr>mv_ObjectMeta = (\<lambda>m namespaced check p. if om_Name m = [] then [Required p ''name'']
        else map (Invalid p) (check (om_Name m) False) @ (if namespaced \<and> om_Namespace m = [] then [Required p ''namespace''] else [])),
      mv_ObjectMetaUpdate = (\<lambda>m' m p. if om_UID m' = om_UID m then [] else [Invalid p ''uid'']),
      mv_NameIsDNSLabel = (\<lambda>name _. if length name \<le> 63 then [] else [''too long'']),
      mv_NameIsDNSSubdomain = (\<lambda>name _. if length name \<le> 253 then [] else [''too long'']),
      mv_Immutable = (\<lambda>p b. if b then [] else [Invalid p ''field is immutable'']),
      mv_Nonnegative = (\<lambda>n p. if n < 0 then [Invalid p ''must be greater than or equal to 0''] else []),
      mv_DerefZero = (\<lambda>x. case x of None \<Rightarrow> 0 | Some v \<Rightarrow> v), mv_LabelSelector = (\<lambda>_ _. []), mv_selectors = plain_selectors, mv_ParseAddr = (\<lambda>_. Inl (ErrMsg ''unable to parse IP''))\<rparr>"

lemma plain_field_validators: "field_validators plain_validators label_requirement"
proof -
  have "selectors (mv_selectors plain_validators) label_requirement" using plain.selectors_axioms by (simp add: plain_validators_def)
  moreover have "field_validators_axioms plain_validators"
    by unfold_locales (auto simp: plain_validators_def split: if_splits)
  ultimately show ?thesis by (rule field_validators.intro)
qed

interpretation plain_checks: field_validators plain_validators label_requirement
  by (rule plain_field_validators)

section \<open>Witnesses\<close>

theorem claim_passes_validation_witness:
  "\<exists>nic'. fst (fst (claim_attempt mem_nic_client (nic_key (example_nic ''a'' [])) (nic_uid (example_nic ''a'' []))
        (ngs_IPFamily (ng_Spec example_gateway2)) example_ref \<lparr>km_objs = [], km_version = 0\<rparr> (example_nic ''a'' [], False))) =
      fst (k_patch mem_nic_client \<lparr>km_objs = [], km_version = 0\<rparr> nic' (example_nic ''a'' []) True) \<and>
    ValidateNetworkInterfaceSpec (nic_Spec nic') [''spec''] = [] \<and>
    ValidateNetworkInterfaceSpecUpdate plain_validators (nic_Spec nic') (nic_Spec (example_nic ''a'' [])) [''spec''] = [] \<and>
    GetNetworkInterfaceNATClaimer nic' (ngs_IPFamily (ng_Spec example_gateway2)) = Some example_ref"
  by (rule claim_passes_validation [OF plain_field_validators, where q = "[''spec'']"])
    (simp_all add: network_interface_valid_iff example_nic_def example_gateway2_def example_gateway_def ValidateNATGatewaySpec_def
      ValidateIPFamily_ok IPFamilies_def natGatewayNetworkInterfaceSelector_def GetNetworkInterfaceNATClaimer_def Family_def
      ValidateIPMatchesFamily_def IP_IsValid_def)

definition example_named_ip :: IP where
  "example_named_ip = example_ip\<lparr>ip_Meta := (ip_Meta example_ip)\<lparr>om_UID := ''u''\<rparr>\<rparr>"

theorem update_keeps_release_witness:
  "network_afterDelete (nid_iface 10 mem_nid_env example_allocator 0) []
       ((example_network ''7'')\<lparr>net_Meta := (net_Meta (example_network ''7''))\<lparr>om_Labels := [(''a'', ''b'')]\<rparr>\<rparr>) False =
     network_afterDelete (nid_iface 10 mem_nid_env example_allocator 0) [] (example_network ''7'') False \<and>
   ip_afterDelete example_abf [] (example_named_ip\<lparr>ip_Meta := (ip_Meta example_named_ip)\<lparr>om_Labels := [(''a'', ''b'')]\<rparr>\<rparr>) False =
     ip_afterDelete example_abf [] example_named_ip False"
  by (rule update_keeps_release [OF plain_field_validators])
    (simp_all add: ValidateNetworkUpdate_def ValidateNetwork_def ValidateNetworkSpec_def ValidateNetworkSpecUpdate_def
      ValidateIPUpdate_def ValidateIP_def ValidateIPSpec_def ValidateIPSpecUpdate_def ValidateIPType_def ValidateEnum_def IPTypes_def
      ValidateIPFamily_ok IPFamilies_def plain_validators_def example_network_def example_named_ip_def example_ip_def IP_IsValid_def)

theorem zero_ports_accepted_witness:
  "manageNATTable list_bitset rev rev rev (\<lambda>_ s. s) mem_nat_env
     (example_gateway2\<lparr>ng_Spec := (ng_Spec example_gateway2)\<lparr>ngs_PortsPerNetworkInterface := 0\<rparr>\<rparr>) [] Map.empty example_world = Panics"
  by (rule conjunct2 [OF zero_ports_accepted [where nics = "[example_nic ''a'' []]" and k = 64 and p = "[''spec'']"]])
    (simp_all add: example_world_reads)

theorem autoscaler_validation_gaps_witness:
  "ValidateNATGatewayAutoscalerSpec plain_validators \<lparr>ngas_NATGatewayRef = ''g'', ngas_MinPublicIPs = Some 1, ngas_MaxPublicIPs = None\<rparr> [''spec''] \<noteq> []"
  using autoscaler_validation_gaps [OF plain_field_validators,
      of "\<lparr>ngas_NATGatewayRef = ''g'', ngas_MinPublicIPs = Some 1, ngas_MaxPublicIPs = None\<rparr>" 1 "[''spec'']"] by simp

end
