(* ===== verification/SourceAware.thy ===== *)
theory SourceAware
  imports Kube
begin

text \<open>
  The labels by which the netlets find the source of an object they made:
  \<open>utils/api/sourceaware.go\<close> (the names of the labels), \<open>utils/client/sourceaware.go\<close> (writing,
  reading and matching them), \<open>utils/handler/sourceaware.go\<close> (turning events on labelled objects
  into requests for their sources), their instances in \<open>metalnetlet\<close> and \<open>apinetlet\<close>, and
  \<open>metalnetlet/client/client.go\<close>. The scheme, the REST mapper, label selectors and the work queue
  belong to other packages and are parameters.
\<close>

section \<open>utils/api/sourceaware.go\<close>

record SourceAwareSystem =
  SourceUIDLabel :: "string \<Rightarrow> string"
  SourceNameLabel :: "string \<Rightarrow> string"
  SourceNamespaceLabel :: "string \<Rightarrow> string"

text \<open>\<open>strings.ToLower\<close> on ASCII, the alphabet of the names of kinds.\<close>

definition lower_char :: "char \<Rightarrow> char" where
  "lower_char c = (let n = of_char c :: nat in if 65 \<le> n \<and> n \<le> 90 then char_of (n + 32) else c)"

definition ToLower :: "string \<Rightarrow> string" where
  "ToLower s = map lower_char s"

definition mkLabelFunc :: "string \<Rightarrow> string \<Rightarrow> string \<Rightarrow> string" where
  "mkLabelFunc pre name kind = pre @ ToLower kind @ ''-'' @ name"

definition PrefixSourceAwareSystem :: "string \<Rightarrow> SourceAwareSystem" where
  "PrefixSourceAwareSystem pre =
     \<lparr>SourceUIDLabel = mkLabelFunc pre ''uid'',
      SourceNameLabel = mkLabelFunc pre ''name'',
      SourceNamespaceLabel = mkLabelFunc pre ''namespace''\<rparr>"

text \<open>The systems of the two netlets.\<close>

definition metalnetletSystem :: SourceAwareSystem where
  "metalnetletSystem = PrefixSourceAwareSystem ''metalnetlet.api.onmetal.de/''"

definition apinetletSystem :: SourceAwareSystem where
  "apinetletSystem = PrefixSourceAwareSystem ''apinetlet.api.onmetal.de/''"

section \<open>utils/client/sourceaware.go\<close>

text \<open>
  An object is its Go type and its metadata. \<open>GVKForObject\<close> looks the type up in the scheme,
  \<open>IsGVKNamespaced\<close> and \<open>RESTMapping\<close> ask the REST mapper for the scope of a kind, and
  \<open>selectorMatches\<close> is \<open>labels.SelectorFromSet(set).Matches(lbls)\<close>.
\<close>

record client_object =
  co_Type :: string
  co_Meta :: ObjectMeta

record scheme_mapper =
  sm_GVKForObject :: "string \<Rightarrow> GroupVersionKind result"
  sm_IsGVKNamespaced :: "GroupVersionKind \<Rightarrow> bool result"
  sm_RESTMapping :: "GroupVersionKind \<Rightarrow> bool result"
  sm_selectorMatches :: "labels \<Rightarrow> labels \<Rightarrow> bool"

text \<open>A function without the suffix \<open>E\<close> panics where the one with it returns an error.\<close>

definition must :: "'a result \<Rightarrow> 'a outcome" where
  "must r = (case r of Inl _ \<Rightarrow> Panics | Inr x \<Rightarrow> Returns x)"

definition NewSourceAwareSystemE :: "SourceAwareSystem \<Rightarrow> SourceAwareSystem result" where
  "NewSourceAwareSystemE system = Inr system"

definition NewSourceAwareSystem :: "SourceAwareSystem \<Rightarrow> SourceAwareSystem outcome" where
  "NewSourceAwareSystem system = must (NewSourceAwareSystemE system)"

text \<open>The kind of the source and whether it is namespaced, which all functions look up first.\<close>

definition source_kind :: "scheme_mapper \<Rightarrow> client_object \<Rightarrow> (string \<times> bool) result" where
  "source_kind E sourceObj =
     (case sm_GVKForObject E (co_Type sourceObj) of
        Inl err \<Rightarrow> Inl err
      | Inr sourceGVK \<Rightarrow>
          (case sm_IsGVKNamespaced E sourceGVK of
             Inl err \<Rightarrow> Inl err
           | Inr sourceNamespaced \<Rightarrow> Inr (gvk_Kind sourceGVK, sourceNamespaced)))"

definition SourceLabelKeysE :: "SourceAwareSystem \<Rightarrow> scheme_mapper \<Rightarrow> client_object \<Rightarrow> string list result" where
  "SourceLabelKeysE S E sourceObj =
     (case source_kind E sourceObj of
        Inl err \<Rightarrow> Inl err
      | Inr (kind, sourceNamespaced) \<Rightarrow>
          Inr ([SourceUIDLabel S kind, SourceNameLabel S kind] @
               (if sourceNamespaced then [SourceNamespaceLabel S kind] else [])))"

definition SourceLabelKeys :: "SourceAwareSystem \<Rightarrow> scheme_mapper \<Rightarrow> client_object \<Rightarrow> string list outcome" where
  "SourceLabelKeys S E sourceObj = must (SourceLabelKeysE S E sourceObj)"

definition SourceLabelsE :: "SourceAwareSystem \<Rightarrow> scheme_mapper \<Rightarrow> client_object \<Rightarrow> labels result" where
  "SourceLabelsE S E sourceObj =
     (case source_kind E sourceObj of
        Inl err \<Rightarrow> Inl err
      | Inr (kind, sourceNamespaced) \<Rightarrow>
          let lbls = AList.update (SourceNameLabel S kind) (om_Name (co_Meta sourceObj))
                       [(SourceUIDLabel S kind, om_UID (co_Meta sourceObj))] in
          Inr (if sourceNamespaced
               then AList.update (SourceNamespaceLabel S kind) (om_Namespace (co_Meta sourceObj)) lbls
               else lbls))"

definition SourceLabels :: "SourceAwareSystem \<Rightarrow> scheme_mapper \<Rightarrow> client_object \<Rightarrow> labels outcome" where
  "SourceLabels S E sourceObj = must (SourceLabelsE S E sourceObj)"

definition MatchingSourceLabelsE :: "SourceAwareSystem \<Rightarrow> scheme_mapper \<Rightarrow> client_object \<Rightarrow> labels result" where
  "MatchingSourceLabelsE S E sourceObj =
     (case SourceLabelsE S E sourceObj of Inl err \<Rightarrow> Inl err | Inr lbls \<Rightarrow> Inr lbls)"

definition MatchingSourceLabels :: "SourceAwareSystem \<Rightarrow> scheme_mapper \<Rightarrow> client_object \<Rightarrow> labels outcome" where
  "MatchingSourceLabels S E sourceObj = must (MatchingSourceLabelsE S E sourceObj)"

definition HasSourceLabelsE ::
  "SourceAwareSystem \<Rightarrow> scheme_mapper \<Rightarrow> client_object \<Rightarrow> ObjectMeta \<Rightarrow> bool result" where
  "HasSourceLabelsE S E sourceObj obj =
     (case SourceLabelsE S E sourceObj of
        Inl err \<Rightarrow> Inl err
      | Inr sourceLabels \<Rightarrow> Inr (sm_selectorMatches E sourceLabels (om_Labels obj)))"

definition HasSourceLabels ::
  "SourceAwareSystem \<Rightarrow> scheme_mapper \<Rightarrow> client_object \<Rightarrow> ObjectMeta \<Rightarrow> bool outcome" where
  "HasSourceLabels S E sourceObj obj = must (HasSourceLabelsE S E sourceObj obj)"

definition SourceKeyLabelsE ::
  "SourceAwareSystem \<Rightarrow> scheme_mapper \<Rightarrow> ObjectKey \<Rightarrow> client_object \<Rightarrow> labels result" where
  "SourceKeyLabelsE S E sourceKey sourceObj =
     (case source_kind E sourceObj of
        Inl err \<Rightarrow> Inl err
      | Inr (kind, sourceNamespaced) \<Rightarrow>
          let lbls = [(SourceNameLabel S kind, key_Name sourceKey)] in
          Inr (if sourceNamespaced
               then AList.update (SourceNamespaceLabel S kind) (key_Namespace sourceKey) lbls
               else lbls))"

definition SourceKeyLabels ::
  "SourceAwareSystem \<Rightarrow> scheme_mapper \<Rightarrow> ObjectKey \<Rightarrow> client_object \<Rightarrow> labels outcome" where
  "SourceKeyLabels S E sourceKey sourceObj = must (SourceKeyLabelsE S E sourceKey sourceObj)"

definition MatchingSourceKeyLabelsE ::
  "SourceAwareSystem \<Rightarrow> scheme_mapper \<Rightarrow> ObjectKey \<Rightarrow> client_object \<Rightarrow> labels result" where
  "MatchingSourceKeyLabelsE S E sourceKey sourceObj =
     (case SourceKeyLabelsE S E sourceKey sourceObj of Inl err \<Rightarrow> Inl err | Inr lbls \<Rightarrow> Inr lbls)"

definition MatchingSourceKeyLabels ::
  "SourceAwareSystem \<Rightarrow> scheme_mapper \<Rightarrow> ObjectKey \<Rightarrow> client_object \<Rightarrow> labels outcome" where
  "MatchingSourceKeyLabels S E sourceKey sourceObj = must (MatchingSourceKeyLabelsE S E sourceKey sourceObj)"

text \<open>An absent label gives no key and no error.\<close>

definition SourceObjectKeyFromObjectE ::
  "SourceAwareSystem \<Rightarrow> scheme_mapper \<Rightarrow> client_object \<Rightarrow> ObjectMeta \<Rightarrow> ObjectKey option result" where
  "SourceObjectKeyFromObjectE S E sourceObj obj =
     (case source_kind E sourceObj of
        Inl err \<Rightarrow> Inl err
      | Inr (kind, sourceNamespaced) \<Rightarrow>
          let lbls = om_Labels obj in
          (case (if sourceNamespaced then map_of lbls (SourceNamespaceLabel S kind) else Some []) of
             None \<Rightarrow> Inr None
           | Some namespace \<Rightarrow>
               (case map_of lbls (SourceNameLabel S kind) of
                  None \<Rightarrow> Inr None
                | Some name \<Rightarrow> Inr (Some \<lparr>key_Namespace = namespace, key_Name = name\<rparr>))))"

definition SourceObjectKeyFromObject ::
  "SourceAwareSystem \<Rightarrow> scheme_mapper \<Rightarrow> client_object \<Rightarrow> ObjectMeta \<Rightarrow> ObjectKey option outcome" where
  "SourceObjectKeyFromObject S E sourceObj obj = must (SourceObjectKeyFromObjectE S E sourceObj obj)"

record SourceObjectData =
  sod_Namespace :: string
  sod_Name :: string
  sod_UID :: string

definition SourceObjectDataFromObjectE ::
  "SourceAwareSystem \<Rightarrow> scheme_mapper \<Rightarrow> client_object \<Rightarrow> ObjectMeta \<Rightarrow> SourceObjectData option result" where
  "SourceObjectDataFromObjectE S E sourceObj obj =
     (case source_kind E sourceObj of
        Inl err \<Rightarrow> Inl err
      | Inr (kind, sourceNamespaced) \<Rightarrow>
          let lbls = om_Labels obj in
          (case (if sourceNamespaced then map_of lbls (SourceNamespaceLabel S kind) else Some []) of
             None \<Rightarrow> Inr None
           | Some namespace \<Rightarrow>
               (case map_of lbls (SourceNameLabel S kind) of
                  None \<Rightarrow> Inr None
                | Some name \<Rightarrow>
                    (case map_of lbls (SourceUIDLabel S kind) of
                       None \<Rightarrow> Inr None
                     | Some uid \<Rightarrow> Inr (Some \<lparr>sod_Namespace = namespace, sod_Name = name, sod_UID = uid\<rparr>)))))"

definition SourceObjectDataFromObject ::
  "SourceAwareSystem \<Rightarrow> scheme_mapper \<Rightarrow> client_object \<Rightarrow> ObjectMeta \<Rightarrow> SourceObjectData option outcome" where
  "SourceObjectDataFromObject S E sourceObj obj = must (SourceObjectDataFromObjectE S E sourceObj obj)"

section \<open>utils/handler/sourceaware.go\<close>

text \<open>
  The requests of an event are collected in a set, here a list without repetitions, and added
  to the queue in an arbitrary order \<open>ord\<close>.
\<close>

record enqueueRequestForSource =
  er_system :: SourceAwareSystem
  er_gvk :: GroupVersionKind

definition EnqueueRequestForSource ::
  "SourceAwareSystem \<Rightarrow> scheme_mapper \<Rightarrow> client_object \<Rightarrow> enqueueRequestForSource outcome" where
  "EnqueueRequestForSource S E sourceObj =
     (case sm_GVKForObject E (co_Type sourceObj) of
        Inl err \<Rightarrow> Panics
      | Inr gvk \<Rightarrow> Returns \<lparr>er_system = S, er_gvk = gvk\<rparr>)"

definition getLabels :: "scheme_mapper \<Rightarrow> enqueueRequestForSource \<Rightarrow> (string \<times> string) result" where
  "getLabels E e =
     (case sm_RESTMapping E (er_gvk e) of
        Inl err \<Rightarrow> Inl err
      | Inr namespaceScope \<Rightarrow>
          let namespaceLabel = (if namespaceScope then SourceNamespaceLabel (er_system e) (gvk_Kind (er_gvk e)) else []);
              nameLabel = SourceNameLabel (er_system e) (gvk_Kind (er_gvk e)) in
          Inr (namespaceLabel, nameLabel))"

definition addRequests :: "ObjectMeta \<Rightarrow> string \<Rightarrow> string \<Rightarrow> ObjectKey list \<Rightarrow> ObjectKey list" where
  "addRequests obj namespaceLabel nameLabel reqs =
     (case (if namespaceLabel \<noteq> [] then map_of (om_Labels obj) namespaceLabel else Some []) of
        None \<Rightarrow> reqs
      | Some namespace \<Rightarrow>
          (case map_of (om_Labels obj) nameLabel of
             None \<Rightarrow> reqs
           | Some name \<Rightarrow> List.insert \<lparr>key_Namespace = namespace, key_Name = name\<rparr> reqs))"

definition enqueueRequests ::
  "(ObjectKey list \<Rightarrow> ObjectKey list) \<Rightarrow> ('q \<Rightarrow> ObjectKey \<Rightarrow> 'q) \<Rightarrow> ObjectKey list \<Rightarrow> 'q \<Rightarrow> 'q" where
  "enqueueRequests ord add reqs queue = fold (\<lambda>req q. add q req) (ord reqs) queue"

definition source_Create ::
  "(ObjectKey list \<Rightarrow> ObjectKey list) \<Rightarrow> ('q \<Rightarrow> ObjectKey \<Rightarrow> 'q) \<Rightarrow> scheme_mapper \<Rightarrow> enqueueRequestForSource \<Rightarrow>
   ObjectMeta \<Rightarrow> 'q \<Rightarrow> 'q" where
  "source_Create ord add E e obj queue =
     (case getLabels E e of
        Inl err \<Rightarrow> queue
      | Inr (namespaceLabel, nameLabel) \<Rightarrow>
          enqueueRequests ord add (addRequests obj namespaceLabel nameLabel []) queue)"

definition source_Update ::
  "(ObjectKey list \<Rightarrow> ObjectKey list) \<Rightarrow> ('q \<Rightarrow> ObjectKey \<Rightarrow> 'q) \<Rightarrow> scheme_mapper \<Rightarrow> enqueueRequestForSource \<Rightarrow>
   ObjectMeta \<Rightarrow> ObjectMeta \<Rightarrow> 'q \<Rightarrow> 'q" where
  "source_Update ord add E e objectOld objectNew queue =
     (case getLabels E e of
        Inl err \<Rightarrow> queue
      | Inr (namespaceLabel, nameLabel) \<Rightarrow>
          enqueueRequests ord add
            (addRequests objectNew namespaceLabel nameLabel (addRequests objectOld namespaceLabel nameLabel [])) queue)"

definition source_Delete ::
  "(ObjectKey list \<Rightarrow> ObjectKey list) \<Rightarrow> ('q \<Rightarrow> ObjectKey \<Rightarrow> 'q) \<Rightarrow> scheme_mapper \<Rightarrow> enqueueRequestForSource \<Rightarrow>
   ObjectMeta \<Rightarrow> 'q \<Rightarrow> 'q" where
  "source_Delete ord add E e obj queue =
     (case getLabels E e of
        Inl err \<Rightarrow> queue
      | Inr (namespaceLabel, nameLabel) \<Rightarrow>
          enqueueRequests ord add (addRequests obj namespaceLabel nameLabel []) queue)"

definition source_Generic ::
  "(ObjectKey list \<Rightarrow> ObjectKey list) \<Rightarrow> ('q \<Rightarrow> ObjectKey \<Rightarrow> 'q) \<Rightarrow> scheme_mapper \<Rightarrow> enqueueRequestForSource \<Rightarrow>
   ObjectMeta \<Rightarrow> 'q \<Rightarrow> 'q" where
  "source_Generic ord add E e obj queue =
     (case getLabels E e of
        Inl err \<Rightarrow> queue
      | Inr (namespaceLabel, nameLabel) \<Rightarrow>
          enqueueRequests ord add (addRequests obj namespaceLabel nameLabel []) queue)"

section \<open>metalnetlet/client/client.go\<close>

text \<open>
  A client of one kind in the cluster the netlet writes to. A list takes the namespace, the
  label selector, the limit (zero for none) and the continue token, and returns the items of
  the page with the token of the next one.
\<close>

record ('m, 't) mclient =
  m_get :: "'m \<Rightarrow> ObjectKey \<Rightarrow> 't result"
  m_list :: "'m \<Rightarrow> string \<Rightarrow> labels \<Rightarrow> nat \<Rightarrow> string \<Rightarrow> ('t list \<times> string) result"
  m_create :: "'m \<Rightarrow> 't \<Rightarrow> 'm \<times> 't result"
  m_delete :: "'m \<Rightarrow> ObjectKey \<Rightarrow> 'm \<times> go_error option"
  m_deleteAllOf :: "'m \<Rightarrow> string \<Rightarrow> labels \<Rightarrow> 'm \<times> go_error option"
  m_apply :: "'m \<Rightarrow> 't \<Rightarrow> 'm \<times> 't result"
  m_newList :: "go_error option"

text \<open>
  The loop of \<open>AnyExists\<close>; \<open>pages i\<close> answers the request number \<open>i\<close>. The loop does not change its
  options, so the token stays the one the caller passed; \<open>None\<close> is a loop that does not end.
\<close>

partial_function (option) anyExists_loop ::
  "(nat \<Rightarrow> ('t list \<times> string) result) \<Rightarrow> string \<Rightarrow> nat \<Rightarrow> bool result option" where
  "anyExists_loop pages continue i =
     (case pages i of
        Inl err \<Rightarrow> Some (Inl err)
      | Inr (items, _) \<Rightarrow>
          if items \<noteq> [] then Some (Inr True)
          else if continue = [] then Some (Inr False)
          else anyExists_loop pages continue (Suc i))"

declare anyExists_loop.simps [code]

text \<open>The cluster may change between two requests, which \<open>env\<close> describes.\<close>

definition AnyExists ::
  "(nat \<Rightarrow> 'm \<Rightarrow> 'm) \<Rightarrow> ('m, 't) mclient \<Rightarrow> 'm \<Rightarrow> string \<Rightarrow> labels \<Rightarrow> string \<Rightarrow> bool result option" where
  "AnyExists env C m ns sel continue =
     (case m_newList C of
        Some err \<Rightarrow> Some (Inl (Wrapped ''error creating new list for object'' err))
      | None \<Rightarrow> anyExists_loop (\<lambda>i. m_list C (env i m) ns sel 1 continue) continue 0)"

definition DeleteAllOfAndAnyExists ::
  "(nat \<Rightarrow> 'm \<Rightarrow> 'm) \<Rightarrow> ('m, 't) mclient \<Rightarrow> 'm \<Rightarrow> string \<Rightarrow> labels \<Rightarrow> string \<Rightarrow> 'm \<times> bool result option" where
  "DeleteAllOfAndAnyExists env C m ns sel continue =
     (case m_deleteAllOf C m ns sel of
        (m', Some err) \<Rightarrow> (m', Some (Inl err))
      | (m', None) \<Rightarrow> (m', AnyExists env C m' ns sel continue))"

section \<open>Labels\<close>

text \<open>The names of the three labels differ, for every prefix and kind.\<close>

lemma mkLabelFunc_inject [simp]: "mkLabelFunc pre n kind = mkLabelFunc pre n' kind \<longleftrightarrow> n = n'"
  by (simp add: mkLabelFunc_def)

lemma mkLabelFunc_nonempty [simp]: "mkLabelFunc pre n kind \<noteq> []"
  by (simp add: mkLabelFunc_def)

definition distinct_labels :: "SourceAwareSystem \<Rightarrow> bool" where
  "distinct_labels S \<longleftrightarrow> (\<forall>kind. SourceUIDLabel S kind \<noteq> SourceNameLabel S kind \<and>
     SourceUIDLabel S kind \<noteq> SourceNamespaceLabel S kind \<and>
     SourceNameLabel S kind \<noteq> SourceNamespaceLabel S kind \<and> SourceNamespaceLabel S kind \<noteq> [])"

lemma distinct_labels_prefix [simp, intro]: "distinct_labels (PrefixSourceAwareSystem pre)"
  by (simp add: distinct_labels_def PrefixSourceAwareSystem_def)

lemma distinct_labels_netlets [simp]:
  "distinct_labels metalnetletSystem" "distinct_labels apinetletSystem"
  by (simp_all add: metalnetletSystem_def apinetletSystem_def)

text \<open>
  What is known of the parameters: a selector made of a set asks for each of its labels, and
  the two questions to the REST mapper have the same answer.
\<close>

locale source_labels =
  fixes E :: scheme_mapper
  assumes selects: "sm_selectorMatches E sel lbls \<longleftrightarrow> map_of sel \<subseteq>\<^sub>m map_of lbls"
    and same_scope: "sm_IsGVKNamespaced E g = Inr b \<Longrightarrow> sm_RESTMapping E g = Inr b"

text \<open>The identity of a source as its labels record it.\<close>

definition source_data :: "bool \<Rightarrow> ObjectMeta \<Rightarrow> SourceObjectData" where
  "source_data namespaced m =
     \<lparr>sod_Namespace = (if namespaced then om_Namespace m else []), sod_Name = om_Name m, sod_UID = om_UID m\<rparr>"

definition source_key :: "bool \<Rightarrow> ObjectMeta \<Rightarrow> ObjectKey" where
  "source_key namespaced m =
     \<lparr>key_Namespace = (if namespaced then om_Namespace m else []), key_Name = om_Name m\<rparr>"

lemma map_le_upd_iff: "k \<notin> dom m \<Longrightarrow> m(k \<mapsto> v) \<subseteq>\<^sub>m m' \<longleftrightarrow> m' k = Some v \<and> m \<subseteq>\<^sub>m m'"
  by (auto simp: map_le_def)

lemma SourceLabelsE_le:
  assumes "source_kind E src = Inr (kind, namespaced)" "distinct_labels S"
  shows "\<exists>ls. SourceLabelsE S E src = Inr ls \<and>
    (map_of ls \<subseteq>\<^sub>m m \<longleftrightarrow> m (SourceUIDLabel S kind) = Some (om_UID (co_Meta src)) \<and>
       m (SourceNameLabel S kind) = Some (om_Name (co_Meta src)) \<and>
       (namespaced \<longrightarrow> m (SourceNamespaceLabel S kind) = Some (om_Namespace (co_Meta src))))"
proof -
  have "SourceUIDLabel S kind \<noteq> SourceNameLabel S kind" "SourceUIDLabel S kind \<noteq> SourceNamespaceLabel S kind"
    "SourceNameLabel S kind \<noteq> SourceNamespaceLabel S kind"
    using assms(2) by (auto simp: distinct_labels_def)
  with assms(1) show ?thesis
    by (auto simp: SourceLabelsE_def Let_def update_conv' map_le_upd_iff)
qed

lemma SourceKeyLabelsE_le:
  assumes "source_kind E src = Inr (kind, namespaced)" "distinct_labels S"
  shows "\<exists>ls. SourceKeyLabelsE S E key src = Inr ls \<and>
    (map_of ls \<subseteq>\<^sub>m m \<longleftrightarrow> m (SourceNameLabel S kind) = Some (key_Name key) \<and>
       (namespaced \<longrightarrow> m (SourceNamespaceLabel S kind) = Some (key_Namespace key)))"
proof -
  have "SourceNameLabel S kind \<noteq> SourceNamespaceLabel S kind"
    using assms(2) by (auto simp: distinct_labels_def)
  with assms(1) show ?thesis
    by (auto simp: SourceKeyLabelsE_def Let_def update_conv' map_le_upd_iff)
qed

context source_labels
begin

lemma Matching_iff_Data:
  assumes "source_kind E src = Inr (kind, namespaced)" "distinct_labels S"
  shows "HasSourceLabelsE S E src obj = Inr True \<longleftrightarrow>
    SourceObjectDataFromObjectE S E src obj = Inr (Some (source_data namespaced (co_Meta src)))"
proof -
  obtain ls where "SourceLabelsE S E src = Inr ls" and ls: "map_of ls \<subseteq>\<^sub>m map_of (om_Labels obj) \<longleftrightarrow>
      map_of (om_Labels obj) (SourceUIDLabel S kind) = Some (om_UID (co_Meta src)) \<and>
      map_of (om_Labels obj) (SourceNameLabel S kind) = Some (om_Name (co_Meta src)) \<and>
      (namespaced \<longrightarrow> map_of (om_Labels obj) (SourceNamespaceLabel S kind) = Some (om_Namespace (co_Meta src)))"
    using SourceLabelsE_le [OF assms, of "map_of (om_Labels obj)"] by blast
  then have "HasSourceLabelsE S E src obj = Inr (map_of ls \<subseteq>\<^sub>m map_of (om_Labels obj))"
    by (simp add: HasSourceLabelsE_def selects)
  with ls assms(1) show ?thesis
    by (auto simp: SourceObjectDataFromObjectE_def Let_def source_data_def split: option.splits)
qed

lemma KeyMatching_iff_Key:
  assumes "source_kind E src = Inr (kind, namespaced)" "distinct_labels S"
    and "SourceKeyLabelsE S E key src = Inr sel"
  shows "sm_selectorMatches E sel (om_Labels obj) \<longleftrightarrow>
    SourceObjectKeyFromObjectE S E src obj =
      Inr (Some \<lparr>key_Namespace = (if namespaced then key_Namespace key else []), key_Name = key_Name key\<rparr>)"
proof -
  have "map_of sel \<subseteq>\<^sub>m map_of (om_Labels obj) \<longleftrightarrow>
      map_of (om_Labels obj) (SourceNameLabel S kind) = Some (key_Name key) \<and>
      (namespaced \<longrightarrow> map_of (om_Labels obj) (SourceNamespaceLabel S kind) = Some (key_Namespace key))"
    using SourceKeyLabelsE_le [OF assms(1,2), of key "map_of (om_Labels obj)"] assms(3) by auto
  with assms(1) show ?thesis
    by (auto simp: selects SourceObjectKeyFromObjectE_def Let_def split: option.splits)
qed

text \<open>The handler reads the same key as the client.\<close>

lemma addRequests_key:
  assumes "sm_GVKForObject E (co_Type src) = Inr gvk" "source_kind E src = Inr (kind, namespaced)"
    and "distinct_labels S" "getLabels E \<lparr>er_system = S, er_gvk = gvk\<rparr> = Inr (nsl, nml)"
  shows "addRequests obj nsl nml reqs =
    (case SourceObjectKeyFromObjectE S E src obj of Inr (Some k) \<Rightarrow> List.insert k reqs | _ \<Rightarrow> reqs)"
proof -
  have kind: "kind = gvk_Kind gvk" and "sm_IsGVKNamespaced E gvk = Inr namespaced"
    using assms(1,2) by (auto simp: source_kind_def split: sum.splits)
  then have "sm_RESTMapping E gvk = Inr namespaced" by (rule_tac same_scope)
  then have "nsl = (if namespaced then SourceNamespaceLabel S kind else [])" "nml = SourceNameLabel S kind"
    using assms(4) kind by (auto simp: getLabels_def Let_def)
  moreover have "SourceNamespaceLabel S kind \<noteq> []" using assms(3) by (simp add: distinct_labels_def)
  ultimately show ?thesis using assms(2)
    by (auto simp: addRequests_def SourceObjectKeyFromObjectE_def Let_def split: option.split)
qed

lemma getLabels_ok:
  assumes "sm_GVKForObject E (co_Type src) = Inr gvk" "source_kind E src = Inr (kind, namespaced)"
  shows "\<exists>nsl nml. getLabels E \<lparr>er_system = S, er_gvk = gvk\<rparr> = Inr (nsl, nml)"
proof -
  have "sm_IsGVKNamespaced E gvk = Inr namespaced"
    using assms by (auto simp: source_kind_def split: sum.splits)
  then have "sm_RESTMapping E gvk = Inr namespaced" by (rule same_scope)
  then show ?thesis by (simp add: getLabels_def Let_def)
qed

lemma labelled_key:
  assumes "source_kind E src = Inr (kind, namespaced)" "distinct_labels S"
    and "HasSourceLabelsE S E src obj = Inr True"
  shows "SourceObjectKeyFromObjectE S E src obj = Inr (Some (source_key namespaced (co_Meta src)))"
  using assms(3) unfolding Matching_iff_Data [OF assms(1,2)]
  by (auto simp: SourceObjectDataFromObjectE_def SourceObjectKeyFromObjectE_def Let_def source_data_def source_key_def
      split: sum.splits option.splits if_splits)

end

section \<open>The loop of AnyExists\<close>

text \<open>An answer comes from a page that was an error or had an item, unless the token is empty.\<close>

lemma anyExists_loop_Some:
  assumes "anyExists_loop pages continue i = Some r" "continue \<noteq> []"
  shows "\<exists>j. \<forall>c. pages j \<noteq> Inr ([], c)"
proof -
  have "continue \<noteq> [] \<longrightarrow> (\<exists>j. \<forall>c. pages j \<noteq> Inr ([], c))"
  proof (rule anyExists_loop.raw_induct [OF _ assms(1)], intro impI)
    fix loop and pages' :: "nat \<Rightarrow> ('a list \<times> string) result" and continue' :: string and i r
    assume IH: "\<And>p c i r. loop p c i = Some r \<Longrightarrow> c \<noteq> [] \<longrightarrow> (\<exists>j. \<forall>d. p j \<noteq> Inr ([], d))"
      and step: "(case pages' i of Inl err \<Rightarrow> Some (Inl err)
        | Inr (items, _) \<Rightarrow> if items \<noteq> [] then Some (Inr True)
            else if continue' = [] then Some (Inr False) else loop pages' continue' (Suc i)) = Some r"
      and "continue' \<noteq> []"
    show "\<exists>j. \<forall>c. pages' j \<noteq> Inr ([], c)"
    proof (cases "\<exists>c. pages' i = Inr ([], c)")
      case True
      with step \<open>continue' \<noteq> []\<close> have "loop pages' continue' (Suc i) = Some r" by auto
      from IH [OF this] \<open>continue' \<noteq> []\<close> show ?thesis by blast
    qed blast
  qed
  with assms(2) show ?thesis by blast
qed

lemma anyExists_loop_first [simp]:
  "anyExists_loop pages [] i =
     Some (case pages i of Inl err \<Rightarrow> Inl err | Inr (items, _) \<Rightarrow> Inr (items \<noteq> []))"
  by (subst anyExists_loop.simps) (auto split: sum.split prod.split)

section \<open>A scheme\<close>

text \<open>
  The scheme of the API: the Go type is the kind, nodes, IP addresses and network IDs are not
  namespaced, and selectors are evaluated label by label.
\<close>

definition cluster_scoped :: "string list" where
  "cluster_scoped = [''Node'', ''IPAddress'', ''NetworkID'']"

definition plain_scheme :: scheme_mapper where
  "plain_scheme =
     \<lparr>sm_GVKForObject = (\<lambda>t. Inr \<lparr>gvk_Group = GroupName, gvk_Version = ''v1alpha1'', gvk_Kind = t\<rparr>),
      sm_IsGVKNamespaced = (\<lambda>g. Inr (gvk_Kind g \<notin> set cluster_scoped)),
      sm_RESTMapping = (\<lambda>g. Inr (gvk_Kind g \<notin> set cluster_scoped)),
      sm_selectorMatches = (\<lambda>sel lbls. list_all (\<lambda>(k, _). map_of lbls k = map_of sel k) sel)\<rparr>"

lemma plain_selector: "list_all (\<lambda>(k, _). map_of lbls k = map_of sel k) sel \<longleftrightarrow> map_of sel \<subseteq>\<^sub>m map_of lbls"
  by (auto simp: list_all_iff map_le_def dom_map_of_conv_image_fst dest: bspec)

interpretation plain: source_labels plain_scheme
  by unfold_locales (auto simp: plain_scheme_def plain_selector)

section \<open>Properties\<close>

text \<open>
  C32. Source labels identify their source: an object carries the labels that are written for a
  source exactly when the namespace, name and UID read back from it are those of the source (the
  namespace is left out for a kind without one). This holds for every prefix and kind, and for
  objects with other labels besides.
\<close>

theorem source_labels_roundtrip:
  assumes "source_labels E" "source_kind E src = Inr (kind, namespaced)"
  shows "(\<exists>ls. SourceLabels (PrefixSourceAwareSystem pre) E src = Returns ls \<and>
      (map_of ls \<subseteq>\<^sub>m map_of (om_Labels obj) \<longleftrightarrow>
       SourceObjectDataFromObject (PrefixSourceAwareSystem pre) E src obj =
         Returns (Some (source_data namespaced (co_Meta src)))))"
proof -
  let ?S = "PrefixSourceAwareSystem pre"
  obtain ls where ls: "SourceLabelsE ?S E src = Inr ls"
    using SourceLabelsE_le [OF assms(2) distinct_labels_prefix] by blast
  have "HasSourceLabelsE ?S E src obj = Inr True \<longleftrightarrow> map_of ls \<subseteq>\<^sub>m map_of (om_Labels obj)"
    using ls by (simp add: HasSourceLabelsE_def source_labels.selects [OF assms(1)])
  then have "map_of ls \<subseteq>\<^sub>m map_of (om_Labels obj) \<longleftrightarrow>
      SourceObjectDataFromObjectE ?S E src obj = Inr (Some (source_data namespaced (co_Meta src)))"
    using source_labels.Matching_iff_Data [OF assms distinct_labels_prefix] by simp
  then show ?thesis
    using ls by (auto simp: SourceLabels_def SourceObjectDataFromObject_def must_def split: sum.splits)
qed

definition example_source :: client_object where
  "example_source = \<lparr>co_Type = ''Network'', co_Meta = zero_meta\<lparr>om_Namespace := ''ns'', om_Name := ''net'', om_UID := ''u1''\<rparr>\<rparr>"

definition example_labelled :: ObjectMeta where
  "example_labelled = zero_meta\<lparr>om_Labels :=
     [(''app'', ''x''), (''metalnetlet.api.onmetal.de/network-namespace'', ''ns''),
      (''metalnetlet.api.onmetal.de/network-name'', ''net''), (''metalnetlet.api.onmetal.de/network-uid'', ''u1'')]\<rparr>"

lemma example_source_kind: "source_kind plain_scheme example_source = Inr (''Network'', True)"
  by (simp add: source_kind_def plain_scheme_def example_source_def cluster_scoped_def)

lemma example_data:
  "SourceObjectDataFromObject metalnetletSystem plain_scheme example_source example_labelled =
     Returns (Some \<lparr>sod_Namespace = ''ns'', sod_Name = ''net'', sod_UID = ''u1''\<rparr>)"
  by code_simp

theorem source_labels_roundtrip_witness:
  "\<exists>ls. SourceLabels metalnetletSystem plain_scheme example_source = Returns ls \<and>
     map_of ls \<subseteq>\<^sub>m map_of (om_Labels example_labelled)"
  using source_labels_roundtrip [OF plain.source_labels_axioms example_source_kind,
      of "''metalnetlet.api.onmetal.de/''" example_labelled]
    example_data
  by (auto simp: metalnetletSystem_def source_data_def example_source_def)

text \<open>
  C34. Every event on an object that carries the labels of a source adds exactly the request for
  that source to the queue, whatever the order in which the set of requests is traversed: the
  handlers of the netlets read the labels the way their clients write them.
\<close>

theorem labelled_events_reach_source:
  assumes "source_labels E" "source_kind E src = Inr (kind, namespaced)"
    and "HasSourceLabels (PrefixSourceAwareSystem pre) E src obj = Returns True"
    and "HasSourceLabels (PrefixSourceAwareSystem pre) E src old = Returns True"
    and "\<And>xs. length xs \<le> 1 \<Longrightarrow> ord xs = xs"
  shows "(\<exists>e. EnqueueRequestForSource (PrefixSourceAwareSystem pre) E src = Returns e \<and>
    source_Create ord add E e obj q = add q (source_key namespaced (co_Meta src)) \<and>
    source_Update ord add E e old obj q = add q (source_key namespaced (co_Meta src)) \<and>
    source_Delete ord add E e obj q = add q (source_key namespaced (co_Meta src)) \<and>
    source_Generic ord add E e obj q = add q (source_key namespaced (co_Meta src)))"
proof -
  let ?S = "PrefixSourceAwareSystem pre"
  obtain gvk where gvk: "sm_GVKForObject E (co_Type src) = Inr gvk"
    using assms(2) by (auto simp: source_kind_def split: sum.splits)
  obtain nsl nml where l: "getLabels E \<lparr>er_system = ?S, er_gvk = gvk\<rparr> = Inr (nsl, nml)"
    using source_labels.getLabels_ok [OF assms(1) gvk assms(2)] by blast
  have key: "SourceObjectKeyFromObjectE ?S E src x = Inr (Some (source_key namespaced (co_Meta src)))"
    if "HasSourceLabels ?S E src x = Returns True" for x
    by (rule source_labels.labelled_key [OF assms(1,2) distinct_labels_prefix])
      (use that in \<open>simp add: HasSourceLabels_def must_def split: sum.splits\<close>)
  have "addRequests x nsl nml reqs = List.insert (source_key namespaced (co_Meta src)) reqs"
    if "HasSourceLabels ?S E src x = Returns True" for x reqs
    by (simp add: source_labels.addRequests_key [OF assms(1) gvk assms(2) distinct_labels_prefix l] key [OF that])
  then show ?thesis
    using gvk l assms(3,4,5)
    by (simp add: EnqueueRequestForSource_def source_Create_def source_Update_def source_Delete_def
        source_Generic_def enqueueRequests_def)
qed

theorem labelled_events_reach_source_witness:
  "\<exists>e. EnqueueRequestForSource (PrefixSourceAwareSystem ''metalnetlet.api.onmetal.de/'') plain_scheme example_source = Returns e \<and>
    source_Update id (\<lambda>q k. q @ [k]) plain_scheme e example_labelled example_labelled [] =
      [\<lparr>key_Namespace = ''ns'', key_Name = ''net''\<rparr>]"
proof -
  have "HasSourceLabels (PrefixSourceAwareSystem ''metalnetlet.api.onmetal.de/'') plain_scheme example_source example_labelled =
      Returns True"
    by code_simp
  from labelled_events_reach_source [OF plain.source_labels_axioms example_source_kind this this,
      of id "\<lambda>q k. q @ [k]" "[]"]
  show ?thesis by (auto simp: source_key_def example_source_def zero_meta_def)
qed

text \<open>
  Whether any object exists: without a continue token the answer is given by the first page
  alone, even when the server says that more pages follow, so an empty first page is reported
  as nothing left; with a token the loop repeats the same request, and does not end as long as
  the pages are empty.
\<close>

theorem AnyExists_ignores_pages:
  assumes "m_newList C = None" "continue \<noteq> []"
    and "m_list C (env 0 m) ns sel 1 [] = Inr ([], token)"
    and "\<And>i. \<exists>t. m_list C (env i m) ns sel 1 continue = Inr ([], t)"
  shows "AnyExists env C m ns sel [] = Some (Inr False) \<and> AnyExists env C m ns sel continue = None"
proof -
  have "anyExists_loop (\<lambda>i. m_list C (env i m) ns sel 1 continue) continue 0 = None"
  proof (rule ccontr)
    assume "anyExists_loop (\<lambda>i. m_list C (env i m) ns sel 1 continue) continue 0 \<noteq> None"
    then obtain r where "anyExists_loop (\<lambda>i. m_list C (env i m) ns sel 1 continue) continue 0 = Some r" by blast
    from anyExists_loop_Some [OF this assms(2)] assms(4) show False by metis
  qed
  with assms(1,3) show ?thesis by (simp add: AnyExists_def)
qed

definition paged_client :: "(unit, ObjectMeta) mclient" where
  "paged_client =
     \<lparr>m_get = (\<lambda>_ _. Inl NotFound),
      m_list = (\<lambda>_ _ _ _ token. if token = ''page2'' then Inr ([zero_meta], []) else Inr ([], ''page2'')),
      m_create = (\<lambda>m x. (m, Inr x)), m_delete = (\<lambda>m _. (m, None)), m_deleteAllOf = (\<lambda>m _ _. (m, None)),
      m_apply = (\<lambda>m x. (m, Inr x)), m_newList = None\<rparr>"

theorem AnyExists_ignores_pages_witness:
  "AnyExists (\<lambda>_ m. m) paged_client () ''ns'' [] [] = Some (Inr False) \<and>
   m_list paged_client () ''ns'' [] 1 ''page2'' = Inr ([zero_meta], [])"
  using AnyExists_ignores_pages [of paged_client "''page1''" "\<lambda>_ m. m" "()" "''ns''" "[]" "''page2''"]
  by (simp add: paged_client_def)

end
