(* ===== verification/Netlet.thy ===== *)
theory Netlet
  imports SourceAware
begin

text \<open>
  What the controllers of the two netlets share: clients of the source cluster with the
  finalizer helpers of \<open>controller-utils\<close> (\<open>PatchEnsureFinalizer\<close> and \<open>PatchRemoveFinalizer\<close>),
  the laws the theorems rely on of both clusters, and the discipline of finalizers: an object
  of the target cluster exists only as long as its source carries the netlet's finalizer.
\<close>

section \<open>Strings\<close>

text \<open>\<open>strings.HasPrefix\<close> and \<open>strings.TrimPrefix\<close>\<close>

definition HasPrefix :: "string \<Rightarrow> string \<Rightarrow> bool" where
  "HasPrefix s pre \<longleftrightarrow> take (length pre) s = pre"

definition TrimPrefix :: "string \<Rightarrow> string \<Rightarrow> string" where
  "TrimPrefix s pre = (if HasPrefix s pre then drop (length pre) s else s)"

lemma HasPrefix_append [simp]: "HasPrefix (pre @ s) pre"
  by (simp add: HasPrefix_def)

lemma TrimPrefix_append [simp]: "TrimPrefix (pre @ s) pre = s"
  by (simp add: TrimPrefix_def)

lemma HasPrefix_iff: "HasPrefix s pre \<longleftrightarrow> (\<exists>r. s = pre @ r)"
  by (metis HasPrefix_def append_take_drop_id HasPrefix_append)

section \<open>Clients\<close>

text \<open>
  \<open>f_ensure\<close> adds a finalizer unless it is there, and returns whether it changed the object;
  \<open>f_remove\<close> removes one.
\<close>

record ('s, 'o) fin_client = "('s, 'o) kclient" +
  f_ensure :: "'s \<Rightarrow> 'o \<Rightarrow> string \<Rightarrow> 's \<times> bool result"
  f_remove :: "'s \<Rightarrow> 'o \<Rightarrow> string \<Rightarrow> 's \<times> go_error option"

text \<open>\<open>controllerutil.ContainsFinalizer\<close>\<close>

definition ContainsFinalizer :: "ObjectMeta \<Rightarrow> string \<Rightarrow> bool" where
  "ContainsFinalizer m f \<longleftrightarrow> f \<in> set (om_Finalizers m)"

text \<open>
  The source cluster. Requests for one object leave the others alone, a finalizer is reported
  as present only if it is, and neither adding a finalizer nor a change of the status takes a
  finalizer away or changes the UID, the namespace or the name.
\<close>

definition identity :: "ObjectMeta \<Rightarrow> string \<times> ObjectKey" where
  "identity m = (om_UID m, meta_key m)"

definition keeps_owner :: "('o \<Rightarrow> ObjectMeta) \<Rightarrow> 'o option \<Rightarrow> 'o option \<Rightarrow> bool" where
  "keeps_owner meta x x' \<longleftrightarrow> (case x of None \<Rightarrow> True | Some z \<Rightarrow>
     (case x' of None \<Rightarrow> False | Some z' \<Rightarrow> identity (meta z') = identity (meta z) \<and>
        set (om_Finalizers (meta z)) \<subseteq> set (om_Finalizers (meta z'))))"

lemma keeps_owner_refl [simp]: "keeps_owner meta x x"
  by (auto simp: keeps_owner_def split: option.split)

locale source_api =
  fixes K :: "('s, 'o) fin_client"
    and objs :: "'s \<Rightarrow> ObjectKey \<rightharpoonup> 'o"
    and meta :: "'o \<Rightarrow> ObjectMeta"
  assumes get_ok: "k_get K s k = Inr x \<Longrightarrow> objs s k = Some x \<and> meta_key (meta x) = k"
    and ensure_present: "f_ensure K s x f = (s', Inr False) \<Longrightarrow> s' = s \<and> f \<in> set (om_Finalizers (meta x))"
    and ensure_keeps: "f_ensure K s x f = (s', r) \<Longrightarrow> objs s (meta_key (meta x)) = Some x \<Longrightarrow>
      keeps_owner meta (objs s k) (objs s' k)"
    and remove_other: "f_remove K s x f = (s', re) \<Longrightarrow> k \<noteq> meta_key (meta x) \<Longrightarrow> objs s' k = objs s k"
    and status_keeps: "k_statusPatch K s x base = (s', rs) \<Longrightarrow> meta x = meta base \<Longrightarrow>
      keeps_owner meta (objs s k) (objs s' k)"

text \<open>
  The target cluster. \<open>not_found\<close>: a deletion that reports not found finds no object.
  \<open>list_none\<close>: an empty list means that nothing matches. Deletions create nothing and leave
  labels alone; an applied or created object appears under its own name, a created one with
  its own labels.
\<close>

definition only_deletes :: "('t \<Rightarrow> ObjectMeta) \<Rightarrow> (ObjectKey \<rightharpoonup> 't) \<Rightarrow> (ObjectKey \<rightharpoonup> 't) \<Rightarrow> bool" where
  "only_deletes tmeta T T' \<longleftrightarrow> (\<forall>k y'. T' k = Some y' \<longrightarrow>
     (\<exists>y. T k = Some y \<and> om_Labels (tmeta y') = om_Labels (tmeta y)))"

lemma only_deletes_refl [simp]: "only_deletes tmeta T T"
  by (simp add: only_deletes_def)

lemma only_deletes_trans: "only_deletes tmeta T T' \<Longrightarrow> only_deletes tmeta T' T'' \<Longrightarrow> only_deletes tmeta T T''"
  unfolding only_deletes_def by metis

locale target_api =
  fixes C :: "('m, 't) mclient"
    and tobjs :: "'m \<Rightarrow> ObjectKey \<rightharpoonup> 't"
    and tmeta :: "'t \<Rightarrow> ObjectMeta"
  assumes not_found: "m_delete C m k = (m', Some e) \<Longrightarrow> IsNotFound e \<Longrightarrow> tobjs m k = None"
    and delete_only: "m_delete C m k = (m', r) \<Longrightarrow> only_deletes tmeta (tobjs m) (tobjs m')"
    and deleteAllOf_only: "m_deleteAllOf C m ns sel = (m', r) \<Longrightarrow> only_deletes tmeta (tobjs m) (tobjs m')"
    and list_none: "m_list C m ns sel n [] = Inr ([], t) \<Longrightarrow> tobjs m k = Some y \<Longrightarrow>
      key_Namespace k = ns \<Longrightarrow> \<not> map_of sel \<subseteq>\<^sub>m map_of (om_Labels (tmeta y))"
    and apply_own: "m_apply C m x = (m', ra) \<Longrightarrow> k \<noteq> meta_key (tmeta x) \<Longrightarrow> tobjs m' k = tobjs m k"
    and create_own: "m_create C m x = (m', ra) \<Longrightarrow> tobjs m' k = Some y \<Longrightarrow>
      tobjs m k = Some y \<or> k = meta_key (tmeta x) \<and> om_Labels (tmeta y) = om_Labels (tmeta x)"
begin

lemma AnyExists_False:
  assumes "AnyExists (\<lambda>_ m. m) C m ns sel [] = Some (Inr False)" "tobjs m k = Some y" "key_Namespace k = ns"
  shows "\<not> map_of sel \<subseteq>\<^sub>m map_of (om_Labels (tmeta y))"
proof -
  obtain t where "m_list C m ns sel 1 [] = Inr ([], t)"
    using assms(1) by (auto simp: AnyExists_def split: option.splits sum.splits)
  from list_none [OF this assms(2,3)] show ?thesis .
qed

end

section \<open>The discipline of finalizers\<close>

text \<open>
  The netlet manages the objects of the target cluster for which \<open>managed\<close> holds of the key and
  the labels; \<open>dep\<close> says which source such an object belongs to, by the identity of the source.
  The objects are guarded if each belongs to a source that exists and carries the finalizer.
\<close>

definition guarded ::
  "('o \<Rightarrow> ObjectMeta) \<Rightarrow> string \<Rightarrow> ('t \<Rightarrow> ObjectMeta) \<Rightarrow> (ObjectKey \<Rightarrow> labels \<Rightarrow> bool) \<Rightarrow>
   (string \<times> ObjectKey \<Rightarrow> ObjectKey \<Rightarrow> labels \<Rightarrow> bool) \<Rightarrow> (ObjectKey \<rightharpoonup> 'o) \<Rightarrow> (ObjectKey \<rightharpoonup> 't) \<Rightarrow> bool" where
  "guarded meta f tmeta managed dep Own T \<longleftrightarrow>
     (\<forall>k y. T k = Some y \<and> managed k (om_Labels (tmeta y)) \<longrightarrow>
        (\<exists>k' x. Own k' = Some x \<and> f \<in> set (om_Finalizers (meta x)) \<and> dep (identity (meta x)) k (om_Labels (tmeta y))))"

text \<open>Targets named by the UID of their source, and targets with the labels of their source.\<close>

definition in_namespace :: "string \<Rightarrow> ObjectKey \<Rightarrow> labels \<Rightarrow> bool" where
  "in_namespace ns k l \<longleftrightarrow> key_Namespace k = ns"

definition named_by :: "string \<times> ObjectKey \<Rightarrow> ObjectKey \<Rightarrow> labels \<Rightarrow> bool" where
  "named_by i k l \<longleftrightarrow> key_Name k = fst i"

definition labelled :: "SourceAwareSystem \<Rightarrow> string \<Rightarrow> string \<Rightarrow> ObjectKey \<Rightarrow> labels \<Rightarrow> bool" where
  "labelled S kind ns k l \<longleftrightarrow> key_Namespace k = ns \<and> map_of l (SourceUIDLabel S kind) \<noteq> None"

definition labelled_by :: "SourceAwareSystem \<Rightarrow> string \<Rightarrow> bool \<Rightarrow> string \<times> ObjectKey \<Rightarrow> ObjectKey \<Rightarrow> labels \<Rightarrow> bool" where
  "labelled_by S kind namespaced i k l \<longleftrightarrow> map_of l (SourceUIDLabel S kind) = Some (fst i) \<and>
     map_of l (SourceNameLabel S kind) = Some (key_Name (snd i)) \<and>
     (namespaced \<longrightarrow> map_of l (SourceNamespaceLabel S kind) = Some (key_Namespace (snd i)))"

lemma guardedD:
  "guarded meta f tmeta managed dep Own T \<Longrightarrow> T k = Some y \<Longrightarrow> managed k (om_Labels (tmeta y)) \<Longrightarrow>
   \<exists>k' x. Own k' = Some x \<and> f \<in> set (om_Finalizers (meta x)) \<and> dep (identity (meta x)) k (om_Labels (tmeta y))"
  by (simp add: guarded_def)

lemma guarded_targets:
  assumes "guarded meta f tmeta managed dep Own T" "only_deletes tmeta T T'"
  shows "guarded meta f tmeta managed dep Own T'"
  using assms unfolding guarded_def only_deletes_def by metis

lemma guarded_add:
  assumes "guarded meta f tmeta managed dep Own T" "Own k0 = Some x" "f \<in> set (om_Finalizers (meta x))"
    and "\<And>k y. T' k = Some y \<Longrightarrow> managed k (om_Labels (tmeta y)) \<Longrightarrow>
      T k = Some y \<or> dep (identity (meta x)) k (om_Labels (tmeta y))"
  shows "guarded meta f tmeta managed dep Own T'"
  using assms unfolding guarded_def by metis

lemma guarded_owners:
  assumes "guarded meta f tmeta managed dep Own T" "\<And>k. keeps_owner meta (Own k) (Own' k)"
  shows "guarded meta f tmeta managed dep Own' T"
  unfolding guarded_def
proof (intro allI impI)
  fix k y
  assume "T k = Some y \<and> managed k (om_Labels (tmeta y))"
  then obtain k' x where x: "Own k' = Some x" "f \<in> set (om_Finalizers (meta x))"
      "dep (identity (meta x)) k (om_Labels (tmeta y))"
    using guardedD [OF assms(1)] by blast
  with assms(2) [of k'] show "\<exists>k' x. Own' k' = Some x \<and> f \<in> set (om_Finalizers (meta x)) \<and>
      dep (identity (meta x)) k (om_Labels (tmeta y))"
    by (intro exI [of _ k']) (auto simp: keeps_owner_def split: option.splits)
qed

lemma guarded_remove:
  assumes "guarded meta f tmeta managed dep Own T" "Own k0 = Some x"
    and "\<And>k y. T k = Some y \<Longrightarrow> managed k (om_Labels (tmeta y)) \<Longrightarrow> \<not> dep (identity (meta x)) k (om_Labels (tmeta y))"
    and "\<And>k. k \<noteq> k0 \<Longrightarrow> Own' k = Own k"
  shows "guarded meta f tmeta managed dep Own' T"
  unfolding guarded_def
proof (intro allI impI)
  fix k y
  assume y: "T k = Some y \<and> managed k (om_Labels (tmeta y))"
  then obtain k' z where z: "Own k' = Some z" "f \<in> set (om_Finalizers (meta z))"
      "dep (identity (meta z)) k (om_Labels (tmeta y))"
    using guardedD [OF assms(1)] by blast
  with y assms(2,3) have "k' \<noteq> k0" by auto
  with z assms(4) show "\<exists>k' x. Own' k' = Some x \<and> f \<in> set (om_Finalizers (meta x)) \<and>
      dep (identity (meta x)) k (om_Labels (tmeta y))"
    by metis
qed

context source_api
begin

lemma guarded_ensure:
  assumes "guarded meta f tmeta managed dep (objs s) T" "f_ensure K s x g = (s', r)" "objs s (meta_key (meta x)) = Some x"
  shows "guarded meta f tmeta managed dep (objs s') T"
  using guarded_owners [OF assms(1)] ensure_keeps [OF assms(2,3)] by blast

lemma guarded_status:
  assumes "guarded meta f tmeta managed dep (objs s) T" "k_statusPatch K s x base = (s', r)" "meta x = meta base"
  shows "guarded meta f tmeta managed dep (objs s') T"
  using guarded_owners [OF assms(1)] status_keeps [OF assms(2,3)] by blast

lemma guarded_finalize:
  assumes "guarded meta f tmeta managed dep (objs s) T" "f_remove K s x g = (s', r)" "objs s (meta_key (meta x)) = Some x"
    and "\<And>k y. T k = Some y \<Longrightarrow> managed k (om_Labels (tmeta y)) \<Longrightarrow> \<not> dep (identity (meta x)) k (om_Labels (tmeta y))"
  shows "guarded meta f tmeta managed dep (objs s') T"
  using guarded_remove [OF assms(1,3,4)] remove_other [OF assms(2)] by blast

end

section \<open>Targets named by the UID of their source\<close>

text \<open>
  The two moves the controllers of networks and network interfaces make: a deletion followed by
  the removal of the finalizer, and an object applied once the finalizer is there.
\<close>

locale named_netlet = src: source_api K objs meta + tgt: target_api C tobjs tmeta
  for K :: "('s, 'o) fin_client" and objs :: "'s \<Rightarrow> ObjectKey \<rightharpoonup> 'o" and meta :: "'o \<Rightarrow> ObjectMeta"
    and C :: "('m, 't) mclient" and tobjs :: "'m \<Rightarrow> ObjectKey \<rightharpoonup> 't" and tmeta :: "'t \<Rightarrow> ObjectMeta"
begin

lemma deleted_guarded:
  assumes "guarded meta f tmeta (in_namespace ns) named_by (objs a) (tobjs m)" "m_delete C m k = (m', e)"
  shows "guarded meta f tmeta (in_namespace ns) named_by (objs a) (tobjs m')"
  by (rule guarded_targets [OF assms(1) tgt.delete_only [OF assms(2)]])

lemma finalized_guarded:
  assumes "guarded meta f tmeta (in_namespace ns) named_by (objs a) (tobjs m)" "objs a (meta_key (meta x)) = Some x"
    and "m_delete C m \<lparr>key_Namespace = ns, key_Name = om_UID (meta x)\<rparr> = (m', Some e)" "IsNotFound e"
    and "f_remove K a x g = (a', r)"
  shows "guarded meta f tmeta (in_namespace ns) named_by (objs a') (tobjs m')"
proof (rule src.guarded_finalize [OF deleted_guarded [OF assms(1,3)] assms(5,2)])
  fix k y
  assume "tobjs m' k = Some y" "in_namespace ns k (om_Labels (tmeta y))"
  then have "tobjs m k \<noteq> None" "key_Namespace k = ns"
    using tgt.delete_only [OF assms(3)] by (auto simp: only_deletes_def in_namespace_def)
  then have "k \<noteq> \<lparr>key_Namespace = ns, key_Name = om_UID (meta x)\<rparr>" using tgt.not_found [OF assms(3,4)] by auto
  with \<open>key_Namespace k = ns\<close> show "\<not> named_by (identity (meta x)) k (om_Labels (tmeta y))"
    by (cases k) (simp add: named_by_def identity_def)
qed

lemma applied_guarded:
  assumes "guarded meta f tmeta (in_namespace ns) named_by (objs a) (tobjs m)" "objs a (meta_key (meta x)) = Some x"
    and "f_ensure K a x f = (a', Inr False)" "m_apply C m y = (m', r)"
    and "meta_key (tmeta y) = \<lparr>key_Namespace = ns, key_Name = om_UID (meta x)\<rparr>"
  shows "guarded meta f tmeta (in_namespace ns) named_by (objs a') (tobjs m')"
proof -
  have "a' = a" "f \<in> set (om_Finalizers (meta x))" using src.ensure_present [OF assms(3)] by auto
  moreover have "tobjs m k = Some z \<or> named_by (identity (meta x)) k l" if "tobjs m' k = Some z" for k z l
    using tgt.apply_own [OF assms(4), of k] assms(5) that
    by (cases "k = meta_key (tmeta y)") (simp_all add: named_by_def identity_def)
  ultimately show ?thesis using guarded_add [OF assms(1,2)] by blast
qed

end

section \<open>Targets that carry the labels of their source\<close>

text \<open>
  The controller of instances removes the finalizer once no object with the labels is left,
  and creates objects with the labels only while the finalizer is there.
\<close>

locale labelled_netlet = src: source_api K objs meta + tgt: target_api C tobjs tmeta
  for K :: "('s, 'o) fin_client" and objs :: "'s \<Rightarrow> ObjectKey \<rightharpoonup> 'o" and meta :: "'o \<Rightarrow> ObjectMeta"
    and C :: "('m, 't) mclient" and tobjs :: "'m \<Rightarrow> ObjectKey \<rightharpoonup> 't" and tmeta :: "'t \<Rightarrow> ObjectMeta" +
  fixes S :: SourceAwareSystem and E :: scheme_mapper and ty kind :: string and namespaced :: bool
  assumes distinct: "distinct_labels S"
    and kind: "source_kind E \<lparr>co_Type = ty, co_Meta = mt\<rparr> = Inr (kind, namespaced)"
begin

lemma labels_iff:
  assumes "SourceLabels S E \<lparr>co_Type = ty, co_Meta = mt\<rparr> = Returns ls"
  shows "map_of ls \<subseteq>\<^sub>m map_of l \<longleftrightarrow> labelled_by S kind namespaced (identity mt) k l"
  using assms SourceLabelsE_le [OF kind distinct, of mt "map_of l"]
  by (auto simp: SourceLabels_def must_def labelled_by_def identity_def meta_key_def)

lemma swept_guarded:
  assumes "guarded meta f tmeta (labelled S kind ns) (labelled_by S kind namespaced) (objs a) (tobjs m)"
    and "DeleteAllOfAndAnyExists (\<lambda>_ m. m) C m ns sel [] = (m', e)"
  shows "guarded meta f tmeta (labelled S kind ns) (labelled_by S kind namespaced) (objs a) (tobjs m')"
  using guarded_targets [OF assms(1)] tgt.deleteAllOf_only assms(2)
  by (auto simp: DeleteAllOfAndAnyExists_def split: prod.splits option.splits)

lemma swept_finalized_guarded:
  assumes "guarded meta f tmeta (labelled S kind ns) (labelled_by S kind namespaced) (objs a) (tobjs m)"
    and "objs a (meta_key (meta x)) = Some x"
    and "SourceLabels S E \<lparr>co_Type = ty, co_Meta = meta x\<rparr> = Returns sel"
    and "DeleteAllOfAndAnyExists (\<lambda>_ m. m) C m ns sel [] = (m', Some (Inr False))"
    and "f_remove K a x g = (a', r)"
  shows "guarded meta f tmeta (labelled S kind ns) (labelled_by S kind namespaced) (objs a') (tobjs m')"
proof (rule src.guarded_finalize [OF swept_guarded [OF assms(1,4)] assms(5,2)])
  fix k y
  assume y: "tobjs m' k = Some y" "labelled S kind ns k (om_Labels (tmeta y))"
  have "AnyExists (\<lambda>_ m. m) C m' ns sel [] = Some (Inr False)"
    using assms(4) by (auto simp: DeleteAllOfAndAnyExists_def split: prod.splits option.splits)
  from tgt.AnyExists_False [OF this y(1)] y(2)
  show "\<not> labelled_by S kind namespaced (identity (meta x)) k (om_Labels (tmeta y))"
    by (simp add: labelled_def labels_iff [OF assms(3), of _ k])
qed

lemma created_guarded:
  assumes "guarded meta f tmeta (labelled S kind ns) (labelled_by S kind namespaced) (objs a) (tobjs m)"
    and "objs a k0 = Some x" "f \<in> set (om_Finalizers (meta x))"
    and "m_create C m y = (m', r)" "SourceLabels S E \<lparr>co_Type = ty, co_Meta = meta x\<rparr> = Returns (om_Labels (tmeta y))"
  shows "guarded meta f tmeta (labelled S kind ns) (labelled_by S kind namespaced) (objs a) (tobjs m')"
proof (rule guarded_add [OF assms(1-3)])
  fix k z
  assume "tobjs m' k = Some z"
  from tgt.create_own [OF assms(4) this]
  show "tobjs m k = Some z \<or> labelled_by S kind namespaced (identity (meta x)) k (om_Labels (tmeta z))"
    using labels_iff [OF assms(5), of "om_Labels (tmeta y)" k] by auto
qed

end

section \<open>Runs\<close>

text \<open>
  A run interleaves the handler \<open>H\<close> for any requests with other clients of the two clusters, whose
  steps are restricted by \<open>R\<close> and \<open>T\<close>.
\<close>

inductive netlet_run ::
  "('a \<Rightarrow> 'm \<Rightarrow> ObjectKey \<Rightarrow> (('a \<times> 'm) \<times> 'r) outcome) \<Rightarrow> ('a \<Rightarrow> 'a \<Rightarrow> bool) \<Rightarrow> ('m \<Rightarrow> 'm \<Rightarrow> bool) \<Rightarrow>
   'a \<times> 'm \<Rightarrow> 'a \<times> 'm \<Rightarrow> bool"
  for H R T w0 where
  run_start: "netlet_run H R T w0 w0"
| run_handler: "netlet_run H R T w0 (a, m) \<Longrightarrow> H a m req = Returns (w', r) \<Longrightarrow> netlet_run H R T w0 w'"
| run_source: "netlet_run H R T w0 (a, m) \<Longrightarrow> R a a' \<Longrightarrow> netlet_run H R T w0 (a', m)"
| run_target: "netlet_run H R T w0 (a, m) \<Longrightarrow> T m m' \<Longrightarrow> netlet_run H R T w0 (a, m')"

lemma netlet_run_inv:
  assumes "netlet_run H R T w0 w" "I (fst w0) (snd w0)"
    and "\<And>a m req a' m' r. I a m \<Longrightarrow> H a m req = Returns ((a', m'), r) \<Longrightarrow> I a' m'"
    and "\<And>a m a'. I a m \<Longrightarrow> R a a' \<Longrightarrow> I a' m" and "\<And>a m m'. I a m \<Longrightarrow> T m m' \<Longrightarrow> I a m'"
  shows "I (fst w) (snd w)"
  using assms(1,2)
proof induction
  case run_start
  then show ?case .
next
  case (run_handler a m req w' r)
  then show ?case using assms(3) [of a m req "fst w'" "snd w'" r] by simp
next
  case (run_source a m a')
  then show ?case using assms(4) [of a m a'] by simp
next
  case (run_target a m m')
  then show ?case using assms(5) [of a m m'] by simp
qed

text \<open>
  Other clients of the source cluster may change everything but objects with the finalizer,
  which they neither take away nor give another identity: the server keeps an object as long as it
  has a finalizer, and no one but the netlet removes the netlet's.
\<close>

definition keeps_finalized :: "('o \<Rightarrow> ObjectMeta) \<Rightarrow> string \<Rightarrow> (ObjectKey \<rightharpoonup> 'o) \<Rightarrow> (ObjectKey \<rightharpoonup> 'o) \<Rightarrow> bool" where
  "keeps_finalized meta f Own Own' \<longleftrightarrow>
     (\<forall>k x. Own k = Some x \<and> f \<in> set (om_Finalizers (meta x)) \<longrightarrow>
        (\<exists>x'. Own' k = Some x' \<and> identity (meta x') = identity (meta x) \<and> f \<in> set (om_Finalizers (meta x'))))"

lemma guarded_clients:
  assumes "guarded meta f tmeta managed dep Own T" "keeps_finalized meta f Own Own'"
  shows "guarded meta f tmeta managed dep Own' T"
  using assms unfolding guarded_def keeps_finalized_def by metis

lemma guarded_run:
  assumes "netlet_run H (\<lambda>a a'. keeps_finalized meta f (objs a) (objs a'))
      (\<lambda>m m'. only_deletes tmeta (tobjs m) (tobjs m')) w0 w"
    and "guarded meta f tmeta managed dep (objs (fst w0)) (tobjs (snd w0))"
    and "\<And>a m req a' m' r. guarded meta f tmeta managed dep (objs a) (tobjs m) \<Longrightarrow> H a m req = Returns ((a', m'), r) \<Longrightarrow>
      guarded meta f tmeta managed dep (objs a') (tobjs m')"
  shows "guarded meta f tmeta managed dep (objs (fst w)) (tobjs (snd w))"
  using assms(1,2)
proof (rule netlet_run_inv [where I = "\<lambda>a m. guarded meta f tmeta managed dep (objs a) (tobjs m)"])
  show "guarded meta f tmeta managed dep (objs a') (tobjs m)"
    if "guarded meta f tmeta managed dep (objs a) (tobjs m)" "keeps_finalized meta f (objs a) (objs a')" for a m a'
    using guarded_clients that .
  show "guarded meta f tmeta managed dep (objs a) (tobjs m')"
    if "guarded meta f tmeta managed dep (objs a) (tobjs m)" "only_deletes tmeta (tobjs m) (tobjs m')" for a m m'
    using guarded_targets that .
qed (rule assms(3))

section \<open>In-memory clusters\<close>

text \<open>
  Stores of objects under their keys. An object that is being deleted vanishes with its last
  finalizer; a change of the status leaves the metadata of the stored object alone. The target
  store deletes at once and does not page its lists.
\<close>

type_synonym 'o key_store = "(ObjectKey \<times> 'o) list"

definition mem_fin :: "('o \<Rightarrow> ObjectMeta) \<Rightarrow> (ObjectMeta \<Rightarrow> 'o \<Rightarrow> 'o) \<Rightarrow> ('o key_store, 'o) fin_client" where
  "mem_fin meta setMeta =
     (let key = (\<lambda>x. meta_key (meta x));
          put = (\<lambda>s x. (AList.update (key x) x s, Inr x));
          change = (\<lambda>s x y. if map_of s (key x) = None then (s, Inl NotFound) else put s y) in
      \<lparr>k_get = (\<lambda>s k. case map_of s k of
           None \<Rightarrow> Inl NotFound | Some x \<Rightarrow> if key x = k then Inr x else Inl NotFound),
       k_list = (\<lambda>s ns. Inr (map snd (filter (\<lambda>(k, x). key x = k \<and> (ns = [] \<or> key_Namespace k = ns)) (AList.clearjunk s)))),
       k_create = (\<lambda>s x. if map_of s (key x) \<noteq> None then (s, Inl AlreadyExists) else put s x),
       k_delete = (\<lambda>s k. if map_of s k = None then (s, Some NotFound) else (AList.delete k s, None)),
       k_patch = (\<lambda>s x base lock. change s x x),
       k_statusPatch = (\<lambda>s x base. case map_of s (key x) of
           None \<Rightarrow> (s, Inl NotFound)
         | Some x0 \<Rightarrow> let y = setMeta (meta x0) x in (AList.update (key x) y s, Inr y)),
       k_apply = put,
       f_ensure = (\<lambda>s x f. if f \<in> set (om_Finalizers (meta x)) then (s, Inr False)
          else if map_of s (key x) = None then (s, Inl NotFound)
          else (AList.update (key x) (setMeta ((meta x)\<lparr>om_Finalizers := om_Finalizers (meta x) @ [f]\<rparr>) x) s, Inr True)),
       f_remove = (\<lambda>s x f.
          let fs = filter (\<lambda>g. g \<noteq> f) (om_Finalizers (meta x)) in
          if map_of s (key x) = None then (s, Some NotFound)
          else if fs = [] \<and> om_DeletionTimestamp (meta x) \<noteq> None then (AList.delete (key x) s, None)
          else (AList.update (key x) (setMeta ((meta x)\<lparr>om_Finalizers := fs\<rparr>) x) s, None))\<rparr>)"

lemma mem_fin_source:
  assumes "\<And>n x. meta (setMeta n x) = n"
  shows "source_api (mem_fin meta setMeta) map_of meta"
  by unfold_locales
    (auto simp: mem_fin_def Let_def update_conv' delete_conv' keeps_owner_def identity_def meta_key_def assms split: option.splits if_splits)

text \<open>The names of the objects of a namespace differ.\<close>

lemma mem_fin_list:
  assumes "k_list (mem_fin meta setMeta) s ns = Inr xs" "ns \<noteq> []"
  shows "distinct (map (\<lambda>x. om_Name (meta x)) xs)"
proof -
  let ?fs = "filter (\<lambda>(k, x). meta_key (meta x) = k \<and> key_Namespace k = ns) (AList.clearjunk s)"
  have xs: "xs = map snd ?fs" using assms by (simp add: mem_fin_def Let_def)
  have "map (\<lambda>x. \<lparr>key_Namespace = ns, key_Name = om_Name (meta x)\<rparr>) xs = map fst ?fs"
    unfolding xs by (auto simp: meta_key_def)
  moreover have "distinct (map fst ?fs)" by (rule distinct_map_filter [OF distinct_clearjunk])
  ultimately have "distinct (map (\<lambda>x. \<lparr>key_Namespace = ns, key_Name = om_Name (meta x)\<rparr>) xs)" by simp
  then show ?thesis by (auto simp: distinct_map inj_on_def)
qed

definition keyed_view :: "('t \<Rightarrow> ObjectMeta) \<Rightarrow> 't key_store \<Rightarrow> ObjectKey \<rightharpoonup> 't" where
  "keyed_view tmeta m k = (case map_of m k of None \<Rightarrow> None | Some x \<Rightarrow> if meta_key (tmeta x) = k then Some x else None)"

definition mem_target :: "('t \<Rightarrow> ObjectMeta) \<Rightarrow> ('t key_store, 't) mclient" where
  "mem_target tmeta =
     (let key = (\<lambda>x. meta_key (tmeta x));
          selects = (\<lambda>ns sel (k, x). key x = k \<and> key_Namespace k = ns \<and>
            list_all (\<lambda>(l, _). map_of (om_Labels (tmeta x)) l = map_of sel l) sel) in
      \<lparr>m_get = (\<lambda>m k. case keyed_view tmeta m k of None \<Rightarrow> Inl NotFound | Some x \<Rightarrow> Inr x),
       m_list = (\<lambda>m ns sel n token. let xs = map snd (filter (selects ns sel) (AList.clearjunk m)) in
          Inr (if n = 0 then xs else take n xs, [])),
       m_create = (\<lambda>m x. if keyed_view tmeta m (key x) \<noteq> None then (m, Inl AlreadyExists)
          else (AList.update (key x) x m, Inr x)),
       m_delete = (\<lambda>m k. if keyed_view tmeta m k = None then (m, Some NotFound) else (AList.delete k m, None)),
       m_deleteAllOf = (\<lambda>m ns sel. (filter (\<lambda>e. \<not> selects ns sel e) (AList.clearjunk m), None)),
       m_apply = (\<lambda>m x. (AList.update (key x) x m, Inr x)),
       m_newList = None\<rparr>)"

lemma keyed_view_Some: "keyed_view tmeta m k = Some y \<longleftrightarrow> map_of m k = Some y \<and> meta_key (tmeta y) = k"
  by (auto simp: keyed_view_def split: option.splits)

lemma keyed_view_update [simp]:
  "keyed_view tmeta (AList.update (meta_key (tmeta x)) x m) = (keyed_view tmeta m)(meta_key (tmeta x) \<mapsto> x)"
  by (auto simp: keyed_view_def update_conv' fun_eq_iff)

lemma keyed_view_delete [simp]: "keyed_view tmeta (AList.delete k m) = (keyed_view tmeta m)(k := None)"
  by (auto simp: keyed_view_def delete_conv' fun_eq_iff)

lemma map_of_filter_clearjunk: "map_of (filter P (AList.clearjunk xs)) k = Some y \<Longrightarrow> map_of xs k = Some y"
proof -
  assume "map_of (filter P (AList.clearjunk xs)) k = Some y"
  then have "(k, y) \<in> set (AList.clearjunk xs)" by (auto dest: map_of_SomeD)
  then have "map_of (AList.clearjunk xs) k = Some y" by (simp add: distinct_clearjunk)
  then show "map_of xs k = Some y" by (simp add: map_of_clearjunk)
qed

lemma in_clearjunk_iff: "(k, y) \<in> set (AList.clearjunk m) \<longleftrightarrow> map_of m k = Some y"
  by (metis distinct_clearjunk map_of_clearjunk map_of_eq_Some_iff)

lemma mem_target_target: "target_api (mem_target tmeta) (keyed_view tmeta) tmeta"
proof
  show "only_deletes tmeta (keyed_view tmeta m) (keyed_view tmeta m')"
    if "m_deleteAllOf (mem_target tmeta) m ns sel = (m', r)" for m m' ns sel r
    using that by (auto simp: mem_target_def Let_def only_deletes_def keyed_view_Some dest!: map_of_filter_clearjunk)
  show "\<not> map_of sel \<subseteq>\<^sub>m map_of (om_Labels (tmeta y))"
    if "m_list (mem_target tmeta) m ns sel n [] = Inr ([], t)" "keyed_view tmeta m k = Some y" "key_Namespace k = ns"
    for m ns sel n t k y
  proof -
    have "(k, y) \<in> set (AList.clearjunk m)" "meta_key (tmeta y) = k"
      using that(2) by (simp_all add: keyed_view_Some in_clearjunk_iff)
    with that(1,3) have "\<not> list_all (\<lambda>(l, _). map_of (om_Labels (tmeta y)) l = map_of sel l) sel"
      by (auto simp: mem_target_def Let_def filter_empty_conv split: if_splits)
    then show ?thesis by (metis plain_selector)
  qed
qed (auto simp: mem_target_def Let_def only_deletes_def split: if_splits)

text \<open>Its lists are complete, and name every object once.\<close>

lemma mem_target_list:
  assumes "m_list (mem_target tmeta) m ns sel 0 [] = Inr (xs, t)"
  shows "distinct (map (\<lambda>y. meta_key (tmeta y)) xs) \<and>
    set xs = {y. \<exists>k. keyed_view tmeta m k = Some y \<and> key_Namespace k = ns \<and> map_of sel \<subseteq>\<^sub>m map_of (om_Labels (tmeta y))}"
proof -
  let ?P = "\<lambda>(k, x). meta_key (tmeta x) = k \<and> key_Namespace k = ns \<and>
    list_all (\<lambda>(l, _). map_of (om_Labels (tmeta x)) l = map_of sel l) sel"
  let ?fs = "filter ?P (AList.clearjunk m)"
  have xs: "xs = map snd ?fs" using assms by (auto simp: mem_target_def Let_def)
  have "map (\<lambda>y. meta_key (tmeta y)) xs = map fst ?fs" unfolding xs by (simp add: case_prod_unfold)
  moreover have "distinct (map fst ?fs)" by (rule distinct_map_filter [OF distinct_clearjunk])
  moreover have "y \<in> set xs \<longleftrightarrow> (\<exists>k. keyed_view tmeta m k = Some y \<and> key_Namespace k = ns \<and>
      map_of sel \<subseteq>\<^sub>m map_of (om_Labels (tmeta y)))" for y
    unfolding xs by (force simp: image_iff in_clearjunk_iff keyed_view_Some plain_selector)
  ultimately show ?thesis by auto
qed

text \<open>Clients of one part of a larger state.\<close>

definition focus_fin :: "('s \<Rightarrow> 'a) \<Rightarrow> ('a \<Rightarrow> 's \<Rightarrow> 's) \<Rightarrow> ('a, 'o) fin_client \<Rightarrow> ('s, 'o) fin_client" where
  "focus_fin get put K =
     \<lparr>k_get = (\<lambda>s. k_get K (get s)), k_list = (\<lambda>s. k_list K (get s)),
      k_create = (\<lambda>s x. let (a, r) = k_create K (get s) x in (put a s, r)),
      k_delete = (\<lambda>s k. let (a, r) = k_delete K (get s) k in (put a s, r)),
      k_patch = (\<lambda>s x b l. let (a, r) = k_patch K (get s) x b l in (put a s, r)),
      k_statusPatch = (\<lambda>s x b. let (a, r) = k_statusPatch K (get s) x b in (put a s, r)),
      k_apply = (\<lambda>s x. let (a, r) = k_apply K (get s) x in (put a s, r)),
      f_ensure = (\<lambda>s x f. let (a, r) = f_ensure K (get s) x f in (put a s, r)),
      f_remove = (\<lambda>s x f. let (a, r) = f_remove K (get s) x f in (put a s, r))\<rparr>"

lemma focus_fin_source:
  assumes "source_api K objs meta" "\<And>a s. get (put a s) = a" "\<And>s. put (get s) s = s"
  shows "source_api (focus_fin get put K) (\<lambda>s. objs (get s)) meta"
proof
  fix s k x f s' r re rs base
  let ?F = "focus_fin get put K"
  show "k_get ?F s k = Inr x \<Longrightarrow> objs (get s) k = Some x \<and> meta_key (meta x) = k"
    using source_api.get_ok [OF assms(1)] by (simp add: focus_fin_def)
  show "f_ensure ?F s x f = (s', Inr False) \<Longrightarrow> s' = s \<and> f \<in> set (om_Finalizers (meta x))"
    using source_api.ensure_present [OF assms(1)] assms(3)
    by (fastforce simp: focus_fin_def split: prod.splits)
  show "f_ensure ?F s x f = (s', r) \<Longrightarrow> objs (get s) (meta_key (meta x)) = Some x \<Longrightarrow>
      keeps_owner meta (objs (get s) k) (objs (get s') k)"
    using source_api.ensure_keeps [OF assms(1)] assms(2) by (auto simp: focus_fin_def split: prod.splits)
  show "f_remove ?F s x f = (s', re) \<Longrightarrow> k \<noteq> meta_key (meta x) \<Longrightarrow> objs (get s') k = objs (get s) k"
    using source_api.remove_other [OF assms(1)] assms(2) by (auto simp: focus_fin_def split: prod.splits)
  show "k_statusPatch ?F s x base = (s', rs) \<Longrightarrow> meta x = meta base \<Longrightarrow>
      keeps_owner meta (objs (get s) k) (objs (get s') k)"
    using source_api.status_keeps [OF assms(1)] assms(2) by (auto simp: focus_fin_def split: prod.splits)
qed

definition focus_target :: "('s \<Rightarrow> 'a) \<Rightarrow> ('a \<Rightarrow> 's \<Rightarrow> 's) \<Rightarrow> ('a, 't) mclient \<Rightarrow> ('s, 't) mclient" where
  "focus_target get put C =
     \<lparr>m_get = (\<lambda>s. m_get C (get s)), m_list = (\<lambda>s. m_list C (get s)),
      m_create = (\<lambda>s x. let (a, r) = m_create C (get s) x in (put a s, r)),
      m_delete = (\<lambda>s k. let (a, r) = m_delete C (get s) k in (put a s, r)),
      m_deleteAllOf = (\<lambda>s ns sel. let (a, r) = m_deleteAllOf C (get s) ns sel in (put a s, r)),
      m_apply = (\<lambda>s x. let (a, r) = m_apply C (get s) x in (put a s, r)),
      m_newList = m_newList C\<rparr>"

lemma focus_target_target:
  assumes "target_api C tobjs tmeta" "\<And>a s. get (put a s) = a"
  shows "target_api (focus_target get put C) (\<lambda>s. tobjs (get s)) tmeta"
proof
  fix m k m' e r ra ns sel n t x y
  let ?F = "focus_target get put C"
  show "m_delete ?F m k = (m', Some e) \<Longrightarrow> IsNotFound e \<Longrightarrow> tobjs (get m) k = None"
    using target_api.not_found [OF assms(1)] by (auto simp: focus_target_def split: prod.splits)
  show "m_delete ?F m k = (m', r) \<Longrightarrow> only_deletes tmeta (tobjs (get m)) (tobjs (get m'))"
    using target_api.delete_only [OF assms(1)] assms(2) by (auto simp: focus_target_def split: prod.splits)
  show "m_deleteAllOf ?F m ns sel = (m', r) \<Longrightarrow> only_deletes tmeta (tobjs (get m)) (tobjs (get m'))"
    using target_api.deleteAllOf_only [OF assms(1)] assms(2) by (auto simp: focus_target_def split: prod.splits)
  show "m_list ?F m ns sel n [] = Inr ([], t) \<Longrightarrow> tobjs (get m) k = Some y \<Longrightarrow> key_Namespace k = ns \<Longrightarrow>
      \<not> map_of sel \<subseteq>\<^sub>m map_of (om_Labels (tmeta y))"
    by (rule target_api.list_none [OF assms(1)]) (simp_all add: focus_target_def)
  show "m_apply ?F m x = (m', ra) \<Longrightarrow> k \<noteq> meta_key (tmeta x) \<Longrightarrow> tobjs (get m') k = tobjs (get m) k"
    using target_api.apply_own [OF assms(1)] assms(2) by (auto simp: focus_target_def split: prod.splits)
  show "m_create ?F m x = (m', ra) \<Longrightarrow> tobjs (get m') k = Some y \<Longrightarrow>
      tobjs (get m) k = Some y \<or> k = meta_key (tmeta x) \<and> om_Labels (tmeta y) = om_Labels (tmeta x)"
    using target_api.create_own [OF assms(1), of "get m" x "get m'" ra k y] assms(2)
    by (auto simp: focus_target_def split: prod.splits)
qed

end
