(* ===== verification/Metalnet.thy ===== *)
theory Metalnet
  imports Netlet NetworkIDs
begin

text \<open>
  The metalnetlet, part one: \<open>metalnetlet/controllers/common.go\<close>, \<open>conversion.go\<close>,
  \<open>network_controller.go\<close> and \<open>metalnetnode_controller.go\<close>. The types of metalnet live in another
  repository; the records below have the fields this netlet reads and writes, and the values
  of metalnet's enumerations and its test for the zero address are parameters.
\<close>

section \<open>Metalnet objects\<close>

record metalnet_Network =
  mnet_Meta :: ObjectMeta
  mnet_ID :: int

record LBPort =
  mport_Protocol :: string
  mport_Port :: int

record metalnet_LoadBalancer =
  mlb_Meta :: ObjectMeta
  mlb_NetworkRef :: string
  mlb_LBtype :: string
  mlb_IPFamily :: IPFamily
  mlb_IP :: addr
  mlb_Ports :: "LBPort list"
  mlb_NodeName :: "string option"

record NATDetails =
  nd_IP :: "addr option"
  nd_Port :: int
  nd_EndPort :: int

record metalnet_NetworkInterfaceStatus =
  mnst_State :: string
  mnst_PCIAddress :: "PCIAddress option"
  mnst_VirtualIP :: "addr option"
  mnst_NatIP :: "NATDetails option"

record metalnet_NetworkInterface =
  mnic_Meta :: ObjectMeta
  mnic_NetworkRef :: string
  mnic_IPFamilies :: "IPFamily list"
  mnic_IPs :: "addr list"
  mnic_VirtualIP :: "addr option"
  mnic_Prefixes :: "prefix list"
  mnic_LoadBalancerTargets :: "prefix list"
  mnic_NAT :: "NATDetails option"
  mnic_NodeName :: "string option"
  mnic_Status :: metalnet_NetworkInterfaceStatus

record metalnet_values =
  mv_StatePending :: string
  mv_StateReady :: string
  mv_StateError :: string
  mv_LBPublic :: string
  mv_LBInternal :: string
  mv_IPIsZero :: "addr option \<Rightarrow> bool"

section \<open>The clusters and the configuration\<close>

text \<open>
  The state \<open>'a\<close> is the cluster of this API, \<open>'m\<close> the metalnet cluster. A \<open>corev1.Node\<close> is its
  metadata. \<open>ml_appendMap\<close> is \<open>maps.AppendMap\<close> and \<open>ml_encode\<close> is \<open>rand.SafeEncodeString\<close>.
\<close>

record ('a, 'm) metalnetlet =
  ml_network :: "('a, Network) fin_client"
  ml_nic :: "('a, NetworkInterface) fin_client"
  ml_instance :: "('a, Instance) fin_client"
  ml_node :: "('a, Node) kclient"
  ml_lb :: "('a, LoadBalancer) kclient"
  ml_lbrouting :: "('a, LoadBalancerRouting) kclient"
  ml_gw :: "('a, NATGateway) kclient"
  ml_table :: "('a, NATTable) kclient"
  mm_network :: "('m, metalnet_Network) mclient"
  mm_nic :: "('m, metalnet_NetworkInterface) mclient"
  mm_lb :: "('m, metalnet_LoadBalancer) mclient"
  mm_node :: "('m, ObjectMeta) fin_client"
  ml_scheme :: scheme_mapper
  ml_values :: metalnet_values
  ml_appendMap :: "labels \<Rightarrow> labels \<Rightarrow> labels"
  ml_encode :: "string \<Rightarrow> string"
  ml_PartitionName :: string
  ml_MetalnetNamespace :: string
  ml_NodeLabels :: labels

section \<open>common.go\<close>

definition PartitionFinalizerPrefix :: string where
  "PartitionFinalizerPrefix = ''partition.metalnetlet.apinet.onmetal.de/''"

definition PartitionFieldOwnerPrefix :: string where
  "PartitionFieldOwnerPrefix = ''partition.metalnetlet.apinet.onmetal.de/''"

definition PartitionFieldOwner :: "string \<Rightarrow> string" where
  "PartitionFieldOwner partitionName = PartitionFieldOwnerPrefix @ partitionName"

definition PartitionFinalizer :: "string \<Rightarrow> string" where
  "PartitionFinalizer partitionName = PartitionFinalizerPrefix @ partitionName"

definition PartitionNodeName :: "string \<Rightarrow> string \<Rightarrow> string" where
  "PartitionNodeName partitionName metalnetNodeName = partitionName @ ''.'' @ metalnetNodeName"

definition ParseNodeName :: "string \<Rightarrow> string \<Rightarrow> string result" where
  "ParseNodeName partitionName nodeName =
     (let pre = partitionName @ ''.'' in
      if \<not> HasPrefix nodeName pre then Inl (ErrMsg ''node name does not belong to partition'')
      else Inr (TrimPrefix nodeName pre))"

definition isOk :: "'a result \<Rightarrow> bool" where
  "isOk r = (case r of Inl _ \<Rightarrow> False | Inr _ \<Rightarrow> True)"

definition IsNodeOnPartitionPredicate :: "string \<Rightarrow> Node \<Rightarrow> bool" where
  "IsNodeOnPartitionPredicate partitionName node = isOk (ParseNodeName partitionName (om_Name (node_Meta node)))"

definition GetMetalnetNode :: "string \<Rightarrow> ('m, ObjectMeta) fin_client \<Rightarrow> 'm \<Rightarrow> string \<Rightarrow> ObjectMeta option result" where
  "GetMetalnetNode partitionName C m nodeName =
     (case ParseNodeName partitionName nodeName of
        Inl _ \<Rightarrow> Inr None
      | Inr metalnetNodeName \<Rightarrow>
          (case k_get C m (cluster_key metalnetNodeName) of
             Inl err \<Rightarrow> if \<not> IsNotFound err then Inl err else Inr None
           | Inr metalnetNode \<Rightarrow> Inr (Some metalnetNode)))"

section \<open>conversion.go\<close>

text \<open>An address or prefix of metalnet wraps the same \<open>netip\<close> value as one of this API.\<close>

definition ipPrefixToMetalnetPrefix :: "net_IPPrefix \<Rightarrow> prefix" where
  "ipPrefixToMetalnetPrefix p = p"

definition ipPrefixesToMetalnetPrefixes :: "net_IPPrefix list \<Rightarrow> prefix list" where
  "ipPrefixesToMetalnetPrefixes ps = map ipPrefixToMetalnetPrefix ps"

definition ipToMetalnetIP :: "net_IP \<Rightarrow> addr" where
  "ipToMetalnetIP ip = ip"

definition ipsToMetalnetIPs :: "net_IP list \<Rightarrow> addr list" where
  "ipsToMetalnetIPs ips = map ipToMetalnetIP ips"

text \<open>\<open>netip.PrefixFrom\<close> drops the zone and keeps a length that fits.\<close>

fun withoutZone :: "addr \<Rightarrow> addr" where
  "withoutZone (V6 w _) = V6 w []"
| "withoutZone a = a"

definition PrefixFrom :: "addr \<Rightarrow> int \<Rightarrow> prefix" where
  "PrefixFrom a bits = \<lparr>p_Addr = withoutZone a, p_Bits = (if \<not> IsValid a \<or> bits < 0 \<or> bits > BitLen a then -1 else bits)\<rparr>"

definition ipToMetalnetIPPrefix :: "net_IP \<Rightarrow> prefix" where
  "ipToMetalnetIPPrefix ip = PrefixFrom ip (BitLen ip)"

definition ipsToMetalnetIPPrefixes :: "net_IP list \<Rightarrow> prefix list" where
  "ipsToMetalnetIPPrefixes ips = map ipToMetalnetIPPrefix ips"

definition ipsIPFamilies :: "net_IP list \<Rightarrow> IPFamily list" where
  "ipsIPFamilies ips = map Family ips"

definition metalnetNetworkInterfaceStateToNetworkInterfaceStatus :: "metalnet_values \<Rightarrow> string \<Rightarrow> NetworkInterfaceState" where
  "metalnetNetworkInterfaceStateToNetworkInterfaceStatus V mStatus =
     (if mStatus = mv_StatePending V then NetworkInterfaceStatePending
      else if mStatus = mv_StateReady V then NetworkInterfaceStateReady
      else if mStatus = mv_StateError V then NetworkInterfaceStateError
      else NetworkInterfaceStatePending)"

definition metalnetIPToIP :: "addr \<Rightarrow> net_IP" where
  "metalnetIPToIP ip = ip"

definition metalnetIPsToIPs :: "addr list \<Rightarrow> net_IP list" where
  "metalnetIPsToIPs ips = map metalnetIPToIP ips"

definition metalnetIPPrefixToIPPrefix :: "prefix \<Rightarrow> net_IPPrefix" where
  "metalnetIPPrefixToIPPrefix p = p"

definition metalnetIPPrefixesToIPPrefixes :: "prefix list \<Rightarrow> net_IPPrefix list" where
  "metalnetIPPrefixesToIPPrefixes ps = map metalnetIPPrefixToIPPrefix ps"

definition loadBalancerTypeToMetalnetLoadBalancerType :: "metalnet_values \<Rightarrow> LoadBalancerType \<Rightarrow> string result" where
  "loadBalancerTypeToMetalnetLoadBalancerType V t =
     (if t = LoadBalancerTypePublic then Inr (mv_LBPublic V)
      else if t = LoadBalancerTypeInternal then Inr (mv_LBInternal V)
      else Inl (ErrMsg ''unknown load balancer type''))"

definition loadBalancerPortToMetalnetLoadBalancerPort :: "LoadBalancerPort \<Rightarrow> LBPort" where
  "loadBalancerPortToMetalnetLoadBalancerPort port =
     \<lparr>mport_Protocol = (case lbport_Protocol port of None \<Rightarrow> ''TCP'' | Some p \<Rightarrow> p), mport_Port = lbport_Port port\<rparr>"

definition loadBalancerPortsToMetalnetLoadBalancerPorts :: "LoadBalancerPort list \<Rightarrow> LBPort list" where
  "loadBalancerPortsToMetalnetLoadBalancerPorts ports = map loadBalancerPortToMetalnetLoadBalancerPort ports"

definition workaroundMetalnetNoIPv6VirtualIPSupportIPsToIP :: "addr list \<Rightarrow> addr option" where
  "workaroundMetalnetNoIPv6VirtualIPSupportIPsToIP ips = find Is4 ips"

definition workaroundMetalnetNoIPv6IPToIPs :: "metalnet_values \<Rightarrow> addr option \<Rightarrow> addr list outcome" where
  "workaroundMetalnetNoIPv6IPToIPs V metalnetVirtualIP =
     (if mv_IPIsZero V metalnetVirtualIP then Returns []
      else (case metalnetVirtualIP of None \<Rightarrow> Panics | Some ip \<Rightarrow> Returns [ip]))"

text \<open>NAT details without an address are dereferenced all the same.\<close>

definition workaroundMetalnetNoIPv6NATIPToIPs :: "NATDetails option \<Rightarrow> addr list outcome" where
  "workaroundMetalnetNoIPv6NATIPToIPs natDetails =
     (case natDetails of
        None \<Rightarrow> Returns []
      | Some d \<Rightarrow> (case nd_IP d of None \<Rightarrow> Panics | Some ip \<Rightarrow> Returns [ip]))"

fun workaroundMetalnetNoIPv6NATDetailsToNATDetailsPointer :: "NATDetails list \<Rightarrow> NATDetails option outcome" where
  "workaroundMetalnetNoIPv6NATDetailsToNATDetailsPointer [] = Returns None"
| "workaroundMetalnetNoIPv6NATDetailsToNATDetailsPointer (d # ds) =
     (case nd_IP d of
        None \<Rightarrow> Panics
      | Some ip \<Rightarrow> if Is4 ip then Returns (Some d) else workaroundMetalnetNoIPv6NATDetailsToNATDetailsPointer ds)"

section \<open>network_controller.go\<close>

text \<open>
  A handler takes the states of both clusters and returns the new ones with the error or, in a
  result, whether to requeue the request.
\<close>

type_synonym ('a, 'm) handled = "(('a \<times> 'm) \<times> bool result) outcome"

definition network_object :: "ObjectMeta \<Rightarrow> client_object" where
  "network_object m = \<lparr>co_Type = ''Network'', co_Meta = m\<rparr>"

definition metalnet_key :: "('a, 'm) metalnetlet \<Rightarrow> ObjectMeta \<Rightarrow> ObjectKey" where
  "metalnet_key L m = \<lparr>key_Namespace = ml_MetalnetNamespace L, key_Name = om_UID m\<rparr>"

definition network_deleteGone :: "('a, 'm) metalnetlet \<Rightarrow> 'a \<Rightarrow> 'm \<Rightarrow> ObjectKey \<Rightarrow> ('a, 'm) handled" where
  "network_deleteGone L a m networkKey =
     (case MatchingSourceKeyLabels metalnetletSystem (ml_scheme L) networkKey (network_object zero_meta) of
        Panics \<Rightarrow> Panics
      | Returns sel \<Rightarrow>
          (case m_deleteAllOf (mm_network L) m (ml_MetalnetNamespace L) sel of
             (m', Some err) \<Rightarrow> Returns ((a, m'), Inl (Wrapped ''error deleting metalnet networks matching network label'' err))
           | (m', None) \<Rightarrow> Returns ((a, m'), Inr False)))"

definition network_delete :: "('a, 'm) metalnetlet \<Rightarrow> 'a \<Rightarrow> 'm \<Rightarrow> Network \<Rightarrow> ('a, 'm) handled" where
  "network_delete L a m network =
     (if \<not> ContainsFinalizer (net_Meta network) (PartitionFinalizer (ml_PartitionName L)) then Returns ((a, m), Inr False)
      else
        (case m_delete (mm_network L) m (metalnet_key L (net_Meta network)) of
           (m', None) \<Rightarrow> Returns ((a, m'), Inr True)
         | (m', Some err) \<Rightarrow>
             if \<not> IsNotFound err then Returns ((a, m'), Inl (Wrapped ''error deleting metalnet network'' err))
             else
               (case f_remove (ml_network L) a network (PartitionFinalizer (ml_PartitionName L)) of
                  (a', Some err) \<Rightarrow> Returns ((a', m'), Inl (Wrapped ''error removing finalizer'' err))
                | (a', None) \<Rightarrow> Returns ((a', m'), Inr False))))"

definition network_reconcile :: "('a, 'm) metalnetlet \<Rightarrow> 'a \<Rightarrow> 'm \<Rightarrow> Network \<Rightarrow> ('a, 'm) handled" where
  "network_reconcile L a m network =
     (case ParseVNI (netspec_ID (net_Spec network)) of
        Inl err \<Rightarrow> Returns ((a, m), Inr False)
      | Inr vni \<Rightarrow>
          (case f_ensure (ml_network L) a network (PartitionFinalizer (ml_PartitionName L)) of
             (a', Inl err) \<Rightarrow> Returns ((a', m), Inl (Wrapped ''error ensuring finalizer'' err))
           | (a', Inr True) \<Rightarrow> Returns ((a', m), Inr True)
           | (a', Inr False) \<Rightarrow>
               (case SourceLabels metalnetletSystem (ml_scheme L) (network_object (net_Meta network)) of
                  Panics \<Rightarrow> Panics
                | Returns lbls \<Rightarrow>
                    let metalnetNetwork =
                      \<lparr>mnet_Meta = zero_meta\<lparr>om_Namespace := ml_MetalnetNamespace L, om_Name := om_UID (net_Meta network),
                                             om_Labels := lbls\<rparr>,
                       mnet_ID = vni\<rparr> in
                    (case m_apply (mm_network L) m metalnetNetwork of
                       (m', Inl err) \<Rightarrow> Returns ((a', m'), Inl (Wrapped ''error applying network'' err))
                     | (m', Inr _) \<Rightarrow> Returns ((a', m'), Inr False)))))"

definition network_reconcileExists :: "('a, 'm) metalnetlet \<Rightarrow> 'a \<Rightarrow> 'm \<Rightarrow> Network \<Rightarrow> ('a, 'm) handled" where
  "network_reconcileExists L a m network =
     (if om_DeletionTimestamp (net_Meta network) \<noteq> None then network_delete L a m network
      else network_reconcile L a m network)"

definition network_Reconcile :: "('a, 'm) metalnetlet \<Rightarrow> 'a \<Rightarrow> 'm \<Rightarrow> ObjectKey \<Rightarrow> ('a, 'm) handled" where
  "network_Reconcile L a m req =
     (case k_get (ml_network L) a req of
        Inl err \<Rightarrow>
          if \<not> IsNotFound err then Returns ((a, m), Inl (Wrapped ''error getting network'' err))
          else network_deleteGone L a m req
      | Inr network \<Rightarrow> network_reconcileExists L a m network)"

section \<open>metalnetnode_controller.go\<close>

text \<open>Here the metalnet cluster is the source and the node of this API is the dependant.\<close>

definition metalnetNodeFinalizer :: string where
  "metalnetNodeFinalizer = ''apinet.api.onmetal.de/node''"

definition TopologyLabelPrefix :: string where
  "TopologyLabelPrefix = ''topology.core.apinet.api.onmetal.de/''"

definition TopologyPartitionLabel :: string where
  "TopologyPartitionLabel = TopologyLabelPrefix @ ''partition''"

definition partition_node_key :: "('a, 'm) metalnetlet \<Rightarrow> ObjectMeta \<Rightarrow> ObjectKey" where
  "partition_node_key L metalnetNode = cluster_key (PartitionNodeName (ml_PartitionName L) (om_Name metalnetNode))"

definition node_delete :: "('a, 'm) metalnetlet \<Rightarrow> 'a \<Rightarrow> 'm \<Rightarrow> ObjectMeta \<Rightarrow> ('a, 'm) handled" where
  "node_delete L a m metalnetNode =
     (if \<not> ContainsFinalizer metalnetNode metalnetNodeFinalizer then Returns ((a, m), Inr False)
      else
        (case k_delete (ml_node L) a (partition_node_key L metalnetNode) of
           (a', None) \<Rightarrow> Returns ((a', m), Inr True)
         | (a', Some err) \<Rightarrow>
             if \<not> IsNotFound err then Returns ((a', m), Inl (Wrapped ''error deleting node'' err))
             else
               (case f_remove (mm_node L) m metalnetNode metalnetNodeFinalizer of
                  (m', Some err) \<Rightarrow> Returns ((a', m'), Inl (Wrapped ''error removing finalizer'' err))
                | (m', None) \<Rightarrow> Returns ((a', m'), Inr False))))"

definition node_reconcile :: "('a, 'm) metalnetlet \<Rightarrow> 'a \<Rightarrow> 'm \<Rightarrow> ObjectMeta \<Rightarrow> ('a, 'm) handled" where
  "node_reconcile L a m metalnetNode =
     (case f_ensure (mm_node L) m metalnetNode metalnetNodeFinalizer of
        (m', Inl err) \<Rightarrow> Returns ((a, m'), Inl (Wrapped ''error ensuring finalizer'' err))
      | (m', Inr True) \<Rightarrow> Returns ((a, m'), Inr True)
      | (m', Inr False) \<Rightarrow>
          let node = \<lparr>node_Meta = zero_meta\<lparr>om_Name := PartitionNodeName (ml_PartitionName L) (om_Name metalnetNode),
                        om_Labels := ml_appendMap L [(TopologyPartitionLabel, ml_PartitionName L)] (ml_NodeLabels L)\<rparr>\<rparr> in
          (case k_apply (ml_node L) a node of
             (a', Inl err) \<Rightarrow> Returns ((a', m'), Inl (Wrapped ''error applying node'' err))
           | (a', Inr _) \<Rightarrow> Returns ((a', m'), Inr False)))"

definition node_reconcileExists :: "('a, 'm) metalnetlet \<Rightarrow> 'a \<Rightarrow> 'm \<Rightarrow> ObjectMeta \<Rightarrow> ('a, 'm) handled" where
  "node_reconcileExists L a m metalnetNode =
     (if om_DeletionTimestamp metalnetNode \<noteq> None then node_delete L a m metalnetNode
      else node_reconcile L a m metalnetNode)"

text \<open>
  When the metalnet node is not found, the code builds the name of the node to delete from the
  object it has just failed to read, whose name is empty.
\<close>

definition node_Reconcile :: "('a, 'm) metalnetlet \<Rightarrow> 'a \<Rightarrow> 'm \<Rightarrow> ObjectKey \<Rightarrow> ('a, 'm) handled" where
  "node_Reconcile L a m req =
     (case k_get (mm_node L) m req of
        Inl err \<Rightarrow>
          if \<not> IsNotFound err then Returns ((a, m), Inl (Wrapped ''error getting metalnet node'' err))
          else
            (case k_delete (ml_node L) a (partition_node_key L zero_meta) of
               (a', e) \<Rightarrow>
                 (case IgnoreNotFound e of
                    Some err \<Rightarrow> Returns ((a', m), Inl (Wrapped ''error deleting node'' err))
                  | None \<Rightarrow> Returns ((a', m), Inr False)))
      | Inr metalnetNode \<Rightarrow> node_reconcileExists L a m metalnetNode)"

definition node_enqueueByMetalnetNode :: "ObjectMeta \<Rightarrow> ObjectKey list" where
  "node_enqueueByMetalnetNode node = [cluster_key (om_Name node)]"

definition node_enqueueByNode :: "('a, 'm) metalnetlet \<Rightarrow> Node \<Rightarrow> ObjectKey list" where
  "node_enqueueByNode L node =
     (case ParseNodeName (ml_PartitionName L) (om_Name (node_Meta node)) of
        Inl _ \<Rightarrow> []
      | Inr metalnetNodeName \<Rightarrow> [cluster_key metalnetNodeName])"

section \<open>Names of nodes\<close>

lemma ParseNodeName_iff: "ParseNodeName p n = Inr x \<longleftrightarrow> n = PartitionNodeName p x"
proof -
  have "ParseNodeName p n = Inr x \<longleftrightarrow> HasPrefix n (p @ ''.'') \<and> TrimPrefix n (p @ ''.'') = x"
    by (auto simp: ParseNodeName_def Let_def)
  also have "\<dots> \<longleftrightarrow> n = (p @ ''.'') @ x"
    using HasPrefix_iff [of n "p @ ''.''"] TrimPrefix_append [of "p @ ''.''"] by auto
  finally show ?thesis by (simp add: PartitionNodeName_def)
qed

section \<open>Finalizers of networks\<close>

locale metalnet_networks = named_netlet "ml_network L" objs net_Meta "mm_network L" tobjs mnet_Meta
  for L :: "('a, 'm) metalnetlet" and objs :: "'a \<Rightarrow> ObjectKey \<rightharpoonup> Network"
    and tobjs :: "'m \<Rightarrow> ObjectKey \<rightharpoonup> metalnet_Network"
begin

lemma delete_guarded:
  assumes "guarded net_Meta (PartitionFinalizer (ml_PartitionName L)) mnet_Meta (in_namespace (ml_MetalnetNamespace L)) named_by (objs a) (tobjs m)"
    and "objs a (meta_key (net_Meta x)) = Some x"
    and "network_delete L a m x = Returns ((a', m'), r)"
  shows "guarded net_Meta (PartitionFinalizer (ml_PartitionName L)) mnet_Meta (in_namespace (ml_MetalnetNamespace L)) named_by (objs a') (tobjs m')"
  using assms(3) deleted_guarded [OF assms(1)] finalized_guarded [OF assms(1,2)] assms(1)
  by (auto simp: network_delete_def metalnet_key_def split: if_splits option.splits prod.splits)

lemma reconcile_guarded:
  assumes "guarded net_Meta (PartitionFinalizer (ml_PartitionName L)) mnet_Meta (in_namespace (ml_MetalnetNamespace L)) named_by (objs a) (tobjs m)"
    and "objs a (meta_key (net_Meta x)) = Some x"
    and "network_reconcile L a m x = Returns ((a', m'), r)"
  shows "guarded net_Meta (PartitionFinalizer (ml_PartitionName L)) mnet_Meta (in_namespace (ml_MetalnetNamespace L)) named_by (objs a') (tobjs m')"
proof (cases "ParseVNI (netspec_ID (net_Spec x))")
  case (Inr vni)
  let ?f = "PartitionFinalizer (ml_PartitionName L)"
  obtain a1 e where ens: "f_ensure (ml_network L) a x ?f = (a1, e)" by fastforce
  note g = src.guarded_ensure [OF assms(1) ens assms(2)]
  show ?thesis
  proof (cases "e = Inr False")
    case True
    with assms(3) ens Inr show ?thesis
      by (auto simp: network_reconcile_def Let_def meta_key_def zero_meta_def
          split: outcome.splits sum.splits prod.splits
          intro!: applied_guarded [OF assms(1,2)])
  next
    case False
    with assms(3) ens Inr g show ?thesis
      by (auto simp: network_reconcile_def split: sum.splits bool.splits)
  qed
qed (use assms in \<open>simp add: network_reconcile_def\<close>)

lemma Reconcile_guarded:
  assumes "guarded net_Meta (PartitionFinalizer (ml_PartitionName L)) mnet_Meta (in_namespace (ml_MetalnetNamespace L)) named_by (objs a) (tobjs m)"
    and "network_Reconcile L a m req = Returns ((a', m'), r)"
  shows "guarded net_Meta (PartitionFinalizer (ml_PartitionName L)) mnet_Meta (in_namespace (ml_MetalnetNamespace L)) named_by (objs a') (tobjs m')"
proof (cases "k_get (ml_network L) a req")
  case (Inl err)
  with assms have "a' = a" "tobjs m' = tobjs m \<or> only_deletes mnet_Meta (tobjs m) (tobjs m')"
    using tgt.deleteAllOf_only
    by (auto simp: network_Reconcile_def network_deleteGone_def split: if_splits outcome.splits option.splits prod.splits)
  then show ?thesis
    using guarded_targets [OF assms(1)] assms(1) by metis
next
  case (Inr x)
  then have "objs a (meta_key (net_Meta x)) = Some x" using src.get_ok by blast
  with Inr assms show ?thesis
    by (auto simp: network_Reconcile_def network_reconcileExists_def split: if_splits
        intro: delete_guarded reconcile_guarded)
qed

end

section \<open>In-memory clusters\<close>

record apinet_world =
  aw_networks :: "Network key_store"
  aw_nics :: "NetworkInterface key_store"
  aw_instances :: "Instance key_store"
  aw_nodes :: "Node key_store"
  aw_lbs :: "LoadBalancer key_store"
  aw_lbroutings :: "LoadBalancerRouting key_store"
  aw_gws :: "NATGateway key_store"
  aw_tables :: "NATTable key_store"

record metalnet_world =
  mw_networks :: "metalnet_Network key_store"
  mw_nics :: "metalnet_NetworkInterface key_store"
  mw_lbs :: "metalnet_LoadBalancer key_store"
  mw_nodes :: "ObjectMeta key_store"

definition empty_apinet :: apinet_world where
  "empty_apinet = \<lparr>aw_networks = [], aw_nics = [], aw_instances = [], aw_nodes = [], aw_lbs = [], aw_lbroutings = [],
     aw_gws = [], aw_tables = []\<rparr>"

definition empty_metalnet :: metalnet_world where
  "empty_metalnet = \<lparr>mw_networks = [], mw_nics = [], mw_lbs = [], mw_nodes = []\<rparr>"

definition mem_metalnetlet :: "(apinet_world, metalnet_world) metalnetlet" where
  "mem_metalnetlet =
     \<lparr>ml_network = focus_fin aw_networks (\<lambda>v s. s\<lparr>aw_networks := v\<rparr>) (mem_fin net_Meta (\<lambda>n x. x\<lparr>net_Meta := n\<rparr>)),
      ml_nic = focus_fin aw_nics (\<lambda>v s. s\<lparr>aw_nics := v\<rparr>) (mem_fin nic_Meta (\<lambda>n x. x\<lparr>nic_Meta := n\<rparr>)),
      ml_instance = focus_fin aw_instances (\<lambda>v s. s\<lparr>aw_instances := v\<rparr>) (mem_fin inst_Meta (\<lambda>n x. x\<lparr>inst_Meta := n\<rparr>)),
      ml_node = kclient.truncate (focus_fin aw_nodes (\<lambda>v s. s\<lparr>aw_nodes := v\<rparr>) (mem_fin node_Meta (\<lambda>n x. x\<lparr>node_Meta := n\<rparr>))),
      ml_lb = kclient.truncate (focus_fin aw_lbs (\<lambda>v s. s\<lparr>aw_lbs := v\<rparr>) (mem_fin lb_Meta (\<lambda>n x. x\<lparr>lb_Meta := n\<rparr>))),
      ml_lbrouting = kclient.truncate (focus_fin aw_lbroutings (\<lambda>v s. s\<lparr>aw_lbroutings := v\<rparr>) (mem_fin lbr_Meta (\<lambda>n x. x\<lparr>lbr_Meta := n\<rparr>))),
      ml_gw = kclient.truncate (focus_fin aw_gws (\<lambda>v s. s\<lparr>aw_gws := v\<rparr>) (mem_fin ng_Meta (\<lambda>n x. x\<lparr>ng_Meta := n\<rparr>))),
      ml_table = kclient.truncate (focus_fin aw_tables (\<lambda>v s. s\<lparr>aw_tables := v\<rparr>) (mem_fin nt_Meta (\<lambda>n x. x\<lparr>nt_Meta := n\<rparr>))),
      mm_network = focus_target mw_networks (\<lambda>v s. s\<lparr>mw_networks := v\<rparr>) (mem_target mnet_Meta),
      mm_nic = focus_target mw_nics (\<lambda>v s. s\<lparr>mw_nics := v\<rparr>) (mem_target mnic_Meta),
      mm_lb = focus_target mw_lbs (\<lambda>v s. s\<lparr>mw_lbs := v\<rparr>) (mem_target mlb_Meta),
      mm_node = focus_fin mw_nodes (\<lambda>v s. s\<lparr>mw_nodes := v\<rparr>) (mem_fin (\<lambda>x. x) (\<lambda>n x. n)),
      ml_scheme = plain_scheme,
      ml_values = \<lparr>mv_StatePending = ''Pending'', mv_StateReady = ''Ready'', mv_StateError = ''Error'',
        mv_LBPublic = ''Public'', mv_LBInternal = ''Internal'', mv_IPIsZero = IP_IsZero\<rparr>,
      ml_appendMap = (\<lambda>d s. fold (\<lambda>(k, v). AList.update k v) s d), ml_encode = (\<lambda>s. s),
      ml_PartitionName = ''p1'', ml_MetalnetNamespace = ''metalnet'', ml_NodeLabels = [(''rack'', ''r1'')]\<rparr>"

lemma mem_networks: "metalnet_networks mem_metalnetlet (\<lambda>a. map_of (aw_networks a)) (\<lambda>m. keyed_view mnet_Meta (mw_networks m))"
  unfolding metalnet_networks_def named_netlet_def mem_metalnetlet_def
  by (auto intro!: focus_fin_source mem_fin_source focus_target_target mem_target_target)

interpretation mem_nets: metalnet_networks mem_metalnetlet "\<lambda>a. map_of (aw_networks a)" "\<lambda>m. keyed_view mnet_Meta (mw_networks m)"
  by (rule mem_networks)

section \<open>Properties\<close>

text \<open>
  Networks are never leaked to metalnet: along every run of the network controller of a partition,
  interleaved with arbitrary other clients of both clusters, each network in the metalnet
  namespace is named by the UID of a network of this API that exists and carries the finalizer
  of the partition, provided that this held at the start. The other clients may do anything to
  networks without that finalizer, and delete networks of metalnet.
\<close>

theorem metalnet_networks_guarded:
  assumes "metalnet_networks L objs tobjs"
    and "guarded net_Meta (PartitionFinalizer (ml_PartitionName L)) mnet_Meta
      (in_namespace (ml_MetalnetNamespace L)) named_by (objs a0) (tobjs m0)"
    and "netlet_run (network_Reconcile L)
      (\<lambda>a a'. keeps_finalized net_Meta (PartitionFinalizer (ml_PartitionName L)) (objs a) (objs a'))
      (\<lambda>m m'. only_deletes mnet_Meta (tobjs m) (tobjs m')) (a0, m0) (a, m)"
  shows "guarded net_Meta (PartitionFinalizer (ml_PartitionName L)) mnet_Meta
      (in_namespace (ml_MetalnetNamespace L)) named_by (objs a) (tobjs m)"
  using guarded_run [OF assms(3)] assms(2) metalnet_networks.Reconcile_guarded [OF assms(1)] by simp

definition finalized_network :: Network where
  "finalized_network = \<lparr>net_Meta = zero_meta\<lparr>om_Namespace := ''ns'', om_Name := ''net'', om_UID := ''u1'',
     om_Finalizers := [PartitionFinalizer ''p1'']\<rparr>, net_Spec = \<lparr>netspec_ID = ''7''\<rparr>\<rparr>"

definition example_apinet :: apinet_world where
  "example_apinet = empty_apinet\<lparr>aw_networks := [(meta_key (net_Meta finalized_network), finalized_network)]\<rparr>"

text \<open>A reconciliation of the example applies the metalnet network, so the property speaks about a network.\<close>

theorem metalnet_networks_guarded_witness:
  "\<exists>a m. network_Reconcile mem_metalnetlet example_apinet empty_metalnet (meta_key (net_Meta finalized_network)) = Returns ((a, m), Inr False) \<and>
     map mnet_ID (map snd (mw_networks m)) = [7] \<and>
     guarded net_Meta (PartitionFinalizer (ml_PartitionName mem_metalnetlet)) mnet_Meta
       (in_namespace (ml_MetalnetNamespace mem_metalnetlet)) named_by (map_of (aw_networks a)) (keyed_view mnet_Meta (mw_networks m))"
proof -
  have "k_get (ml_network mem_metalnetlet) example_apinet (meta_key (net_Meta finalized_network)) = Inr finalized_network"
    "f_ensure (ml_network mem_metalnetlet) example_apinet finalized_network (PartitionFinalizer (ml_PartitionName mem_metalnetlet)) =
       (example_apinet, Inr False)"
    "om_DeletionTimestamp (net_Meta finalized_network) = None"
    by code_simp+
  moreover have "ParseVNI (netspec_ID (net_Spec finalized_network)) = Inr 7"
    by (simp add: finalized_network_def ParseVNI_def ParseInt32_def ParseUint10_def digit_val_def)
  moreover obtain lbls where "SourceLabels metalnetletSystem (ml_scheme mem_metalnetlet) (network_object (net_Meta finalized_network)) = Returns lbls"
    by (simp add: SourceLabels_def SourceLabelsE_def source_kind_def mem_metalnetlet_def plain_scheme_def must_def Let_def)
  ultimately obtain a m where run: "network_Reconcile mem_metalnetlet example_apinet empty_metalnet (meta_key (net_Meta finalized_network)) =
      Returns ((a, m), Inr False)" and "map mnet_ID (map snd (mw_networks m)) = [7]"
    by (simp add: network_Reconcile_def network_reconcileExists_def network_reconcile_def mem_metalnetlet_def focus_target_def
        mem_target_def empty_metalnet_def Let_def)
  moreover have "guarded net_Meta (PartitionFinalizer (ml_PartitionName mem_metalnetlet)) mnet_Meta
       (in_namespace (ml_MetalnetNamespace mem_metalnetlet)) named_by (map_of (aw_networks a)) (keyed_view mnet_Meta (mw_networks m))"
    by (rule metalnet_networks_guarded [OF mem_networks, of example_apinet empty_metalnet],
        simp add: guarded_def empty_metalnet_def keyed_view_def, rule run_handler, rule run_start, rule run)
  ultimately show ?thesis by (intro exI conjI)
qed

text \<open>
  A node of this API outlives its metalnet node: when the metalnet node of a request no longer
  exists, the reconciliation asks the server to delete the node of the partition whose metalnet
  name is empty, so that the node that belonged to the request is left as it was.
\<close>

theorem gone_metalnet_node_leaks:
  assumes "k_get (mm_node L) m (cluster_key name) = Inl NotFound" "name \<noteq> []"
    and "\<And>a k a' e k'. k_delete (ml_node L) a k = (a', e) \<Longrightarrow> k' \<noteq> k \<Longrightarrow> nodes a' k' = nodes a k'"
    and "node_Reconcile L a m (cluster_key name) = Returns ((a', m'), r)"
  shows "nodes a' (cluster_key (PartitionNodeName (ml_PartitionName L) name)) =
    nodes a (cluster_key (PartitionNodeName (ml_PartitionName L) name))"
proof -
  obtain e where "k_delete (ml_node L) a (partition_node_key L zero_meta) = (a', e)"
    using assms(1,4) by (auto simp: node_Reconcile_def split: prod.splits option.splits)
  then show ?thesis
    by (rule assms(3)) (use assms(2) in \<open>simp add: partition_node_key_def PartitionNodeName_def cluster_key_def zero_meta_def\<close>)
qed

definition example_nodes :: apinet_world where
  "example_nodes = empty_apinet\<lparr>aw_nodes := [(cluster_key ''p1.n1'', \<lparr>node_Meta = zero_meta\<lparr>om_Name := ''p1.n1''\<rparr>\<rparr>)]\<rparr>"

lemma mem_node_delete_other:
  "k_delete (ml_node mem_metalnetlet) a k = (a', e) \<Longrightarrow> k' \<noteq> k \<Longrightarrow> map_of (aw_nodes a') k' = map_of (aw_nodes a) k'"
  by (auto simp: mem_metalnetlet_def kclient.truncate_def focus_fin_def mem_fin_def Let_def delete_conv' split: if_splits)

theorem gone_metalnet_node_leaks_witness:
  "\<exists>a' m' r. node_Reconcile mem_metalnetlet example_nodes empty_metalnet (cluster_key ''n1'') = Returns ((a', m'), r) \<and>
     map_of (aw_nodes a') (cluster_key (PartitionNodeName (ml_PartitionName mem_metalnetlet) ''n1'')) \<noteq> None"
proof -
  have "node_Reconcile mem_metalnetlet example_nodes empty_metalnet (cluster_key ''n1'') \<noteq> Panics" by code_simp
  then obtain a' m' r where run: "node_Reconcile mem_metalnetlet example_nodes empty_metalnet (cluster_key ''n1'') = Returns ((a', m'), r)"
    by (metis outcome.exhaust prod.exhaust)
  moreover have "k_get (mm_node mem_metalnetlet) empty_metalnet (cluster_key ''n1'') = Inl NotFound" by code_simp
  moreover have "map_of (aw_nodes example_nodes) (cluster_key (PartitionNodeName (ml_PartitionName mem_metalnetlet) ''n1'')) \<noteq> None"
    by code_simp
  ultimately show ?thesis
    using gone_metalnet_node_leaks [of mem_metalnetlet empty_metalnet "''n1''" "\<lambda>a. map_of (aw_nodes a)" example_nodes, OF _ _ mem_node_delete_other]
    by fastforce
qed

end
