(* ===== verification/MetalnetInstances.thy ===== *)
theory MetalnetInstances
  imports Metalnet "HOL-Library.Multiset"
begin

text \<open>
  The metalnetlet, part two: \<open>metalnetlet/controllers/instance_controller.go\<close>. Instances of load
  balancers on nodes of the partition become one metalnet load balancer per address.
\<close>

section \<open>instance_controller.go\<close>

text \<open>As \<open>handled\<close>, with \<open>None\<close> for a loop of \<open>AnyExists\<close> that does not end.\<close>

type_synonym ('a, 'm) handled_loop = "(('a \<times> 'm) \<times> bool result option) outcome"

definition instance_object :: "ObjectMeta \<Rightarrow> client_object" where
  "instance_object m = \<lparr>co_Type = ''Instance'', co_Meta = m\<rparr>"

definition deleteMetalnetLoadBalancersByLoadBalancerInstanceKeyAndAnyExists ::
  "('a, 'm) metalnetlet \<Rightarrow> 'm \<Rightarrow> ObjectKey \<Rightarrow> ('m \<times> bool result option) outcome" where
  "deleteMetalnetLoadBalancersByLoadBalancerInstanceKeyAndAnyExists L m key =
     (case MatchingSourceKeyLabels metalnetletSystem (ml_scheme L) key (instance_object zero_meta) of
        Panics \<Rightarrow> Panics
      | Returns sel \<Rightarrow> Returns (DeleteAllOfAndAnyExists (\<lambda>_ m. m) (mm_lb L) m (ml_MetalnetNamespace L) sel []))"

definition deleteMetalnetLoadBalancersByLoadBalancerInstanceAndAnyExists ::
  "('a, 'm) metalnetlet \<Rightarrow> 'm \<Rightarrow> Instance \<Rightarrow> ('m \<times> bool result option) outcome" where
  "deleteMetalnetLoadBalancersByLoadBalancerInstanceAndAnyExists L m inst =
     (case MatchingSourceLabels metalnetletSystem (ml_scheme L) (instance_object (inst_Meta inst)) of
        Panics \<Rightarrow> Panics
      | Returns sel \<Rightarrow> Returns (DeleteAllOfAndAnyExists (\<lambda>_ m. m) (mm_lb L) m (ml_MetalnetNamespace L) sel []))"

text \<open>The clean-up both \<open>delete\<close> and \<open>reconcile\<close> make, up to the removal of the finalizer.\<close>

definition instance_cleanup :: "('a, 'm) metalnetlet \<Rightarrow> 'a \<Rightarrow> 'm \<Rightarrow> Instance \<Rightarrow> ('a, 'm) handled_loop" where
  "instance_cleanup L a m inst =
     (case deleteMetalnetLoadBalancersByLoadBalancerInstanceAndAnyExists L m inst of
        Panics \<Rightarrow> Panics
      | Returns (m', None) \<Rightarrow> Returns ((a, m'), None)
      | Returns (m', Some (Inl err)) \<Rightarrow> Returns ((a, m'), Some (Inl err))
      | Returns (m', Some (Inr True)) \<Rightarrow> Returns ((a, m'), Some (Inr True))
      | Returns (m', Some (Inr False)) \<Rightarrow>
          (case f_remove (ml_instance L) a inst (PartitionFinalizer (ml_PartitionName L)) of
             (a', Some err) \<Rightarrow> Returns ((a', m'), Some (Inl (Wrapped ''error removing finalizer'' err)))
           | (a', None) \<Rightarrow> Returns ((a', m'), Some (Inr False))))"

definition instance_delete :: "('a, 'm) metalnetlet \<Rightarrow> 'a \<Rightarrow> 'm \<Rightarrow> Instance \<Rightarrow> ('a, 'm) handled_loop" where
  "instance_delete L a m inst =
     (if \<not> ContainsFinalizer (inst_Meta inst) (PartitionFinalizer (ml_PartitionName L)) then Returns ((a, m), Some (Inr False))
      else instance_cleanup L a m inst)"

definition getMetalnetLoadBalancersForLoadBalancerInstance ::
  "('a, 'm) metalnetlet \<Rightarrow> 'm \<Rightarrow> Instance \<Rightarrow> metalnet_LoadBalancer list result outcome" where
  "getMetalnetLoadBalancersForLoadBalancerInstance L m inst =
     (case MatchingSourceLabels metalnetletSystem (ml_scheme L) (instance_object (inst_Meta inst)) of
        Panics \<Rightarrow> Panics
      | Returns sel \<Rightarrow>
          (case m_list (mm_lb L) m (ml_MetalnetNamespace L) sel 0 [] of
             Inl err \<Rightarrow> Returns (Inl (Wrapped ''error listing metalnet load balancer instances'' err))
           | Inr (items, _) \<Rightarrow> Returns (Inr items)))"

definition EqualMetalnetLoadBalancers :: "metalnet_LoadBalancer \<Rightarrow> metalnet_LoadBalancer \<Rightarrow> bool" where
  "EqualMetalnetLoadBalancers inst1 inst2 \<longleftrightarrow>
     mlb_IP inst1 = mlb_IP inst2 \<and> mlb_IPFamily inst1 = mlb_IPFamily inst2 \<and>
     mlb_NetworkRef inst1 = mlb_NetworkRef inst2 \<and> mlb_LBtype inst1 = mlb_LBtype inst2 \<and>
     mlb_Ports inst1 = mlb_Ports inst2"

definition computeMetalnetLoadBalancerHash :: "(string \<Rightarrow> string) \<Rightarrow> net_IP \<Rightarrow> int option \<Rightarrow> string" where
  "computeMetalnetLoadBalancerHash encode ip collisionCount =
     (let h = fnv32a_write (AsSlice ip) fnv32a_offset;
          h' = (case collisionCount of None \<Rightarrow> h | Some c \<Rightarrow> fnv32a_write (le_bytes32 c) h) in
      encode (dec_nat h'))"

definition bumpLoadBalancerInstanceCollisionCount ::
  "('a, 'm) metalnetlet \<Rightarrow> 'a \<Rightarrow> Instance \<Rightarrow> 'a \<times> go_error option" where
  "bumpLoadBalancerInstanceCollisionCount L a inst =
     (let old = (case ist_CollisionCount (inst_Status inst) of None \<Rightarrow> 0 | Some c \<Rightarrow> c);
          inst' = inst\<lparr>inst_Status := (inst_Status inst)\<lparr>ist_CollisionCount := Some (i32 (old + 1))\<rparr>\<rparr> in
      case k_statusPatch (ml_instance L) a inst' inst of
        (a', Inl err) \<Rightarrow> (a', Some err)
      | (a', Inr _) \<Rightarrow> (a', None))"

text \<open>The first loop: keep one load balancer per address, delete the others.\<close>

fun lb_scan ::
  "('m, metalnet_LoadBalancer) mclient \<Rightarrow> 'm \<Rightarrow> net_IP list \<Rightarrow> go_error list \<Rightarrow> metalnet_LoadBalancer list \<Rightarrow>
   'm \<times> net_IP list \<times> go_error list" where
  "lb_scan C m unsatisfiedIPs errs [] = (m, unsatisfiedIPs, errs)"
| "lb_scan C m unsatisfiedIPs errs (lb # lbs) =
     (if om_DeletionTimestamp (mlb_Meta lb) \<noteq> None then lb_scan C m unsatisfiedIPs errs lbs
      else
        let ip = metalnetIPToIP (mlb_IP lb) in
        if ip \<in> set unsatisfiedIPs then lb_scan C m (removeAll ip unsatisfiedIPs) errs lbs
        else
          (case m_delete C m (meta_key (mlb_Meta lb)) of
             (m', e) \<Rightarrow> lb_scan C m' unsatisfiedIPs (errs @ (case IgnoreNotFound e of None \<Rightarrow> [] | Some _ \<Rightarrow> [the e])) lbs))"

text \<open>The load balancer for one address, and the second loop over the addresses that have none.\<close>

definition new_metalnet_lb ::
  "('a, 'm) metalnetlet \<Rightarrow> Instance \<Rightarrow> Network \<Rightarrow> string \<Rightarrow> string \<Rightarrow> labels \<Rightarrow> net_IP \<Rightarrow> metalnet_LoadBalancer" where
  "new_metalnet_lb L inst network lbType metalnetNodeName lbls ip =
     \<lparr>mlb_Meta = zero_meta\<lparr>om_Namespace := ml_MetalnetNamespace L,
        om_Name := om_UID (inst_Meta inst) @ ''-'' @
          computeMetalnetLoadBalancerHash (ml_encode L) ip (ist_CollisionCount (inst_Status inst)),
        om_Labels := lbls\<rparr>,
      mlb_NetworkRef = om_UID (net_Meta network), mlb_LBtype = lbType, mlb_IPFamily = Family ip, mlb_IP = ipToMetalnetIP ip,
      mlb_Ports = loadBalancerPortsToMetalnetLoadBalancerPorts (is_LoadBalancerPorts (inst_Spec inst)),
      mlb_NodeName = Some metalnetNodeName\<rparr>"

fun lb_create ::
  "('m, metalnet_LoadBalancer) mclient \<Rightarrow> (net_IP \<Rightarrow> metalnet_LoadBalancer) \<Rightarrow> 'm \<Rightarrow> bool \<Rightarrow> go_error list \<Rightarrow> net_IP list \<Rightarrow>
   'm \<times> bool \<times> go_error list" where
  "lb_create C mk m bump errs [] = (m, bump, errs)"
| "lb_create C mk m bump errs (ip # ips) =
     (case m_create C m (mk ip) of
        (m', Inr _) \<Rightarrow> lb_create C mk m' bump errs ips
      | (m', Inl err) \<Rightarrow>
          if \<not> IsAlreadyExists err then lb_create C mk m' bump (errs @ [err]) ips
          else
            (case m_get C m' (meta_key (mlb_Meta (mk ip))) of
               Inl err' \<Rightarrow> lb_create C mk m' bump (errs @ [err']) ips
             | Inr lb \<Rightarrow>
                 if om_DeletionTimestamp (mlb_Meta lb) = None \<and> EqualMetalnetLoadBalancers (mk ip) lb
                 then lb_create C mk m' bump errs ips
                 else lb_create C mk m' True (errs @ [err]) ips))"

text \<open>
  \<open>ord\<close> is the order in which the set of addresses is traversed. The result is the error or
  whether the network was there.
\<close>

definition manageMetalnetLoadBalancers ::
  "(net_IP list \<Rightarrow> net_IP list) \<Rightarrow> ('a, 'm) metalnetlet \<Rightarrow> 'a \<Rightarrow> 'm \<Rightarrow> Instance \<Rightarrow> string \<Rightarrow> ('a, 'm) handled" where
  "manageMetalnetLoadBalancers ord L a m inst metalnetNodeName =
     (let networkKey = \<lparr>key_Namespace = om_Namespace (inst_Meta inst), key_Name = is_NetworkRef (inst_Spec inst)\<rparr> in
      case k_get (ml_network L) a networkKey of
        Inl err \<Rightarrow> Returns ((a, m), case IgnoreNotFound (Some err) of None \<Rightarrow> Inr False | Some e \<Rightarrow> Inl e)
      | Inr network \<Rightarrow>
          (case loadBalancerTypeToMetalnetLoadBalancerType (ml_values L) (is_LoadBalancerType (inst_Spec inst)) of
             Inl err \<Rightarrow> Returns ((a, m), Inl err)
           | Inr lbType \<Rightarrow>
               (case getMetalnetLoadBalancersForLoadBalancerInstance L m inst of
                  Panics \<Rightarrow> Panics
                | Returns (Inl err) \<Rightarrow> Returns ((a, m), Inl err)
                | Returns (Inr lbs) \<Rightarrow>
                    (case SourceLabels metalnetletSystem (ml_scheme L) (instance_object (inst_Meta inst)) of
                       Panics \<Rightarrow> Panics
                     | Returns lbls \<Rightarrow>
                         (case lb_scan (mm_lb L) m (remdups (is_IPs (inst_Spec inst))) [] lbs of
                            (m1, unsatisfiedIPs, errs1) \<Rightarrow>
                              (case lb_create (mm_lb L) (new_metalnet_lb L inst network lbType metalnetNodeName lbls)
                                      m1 False errs1 (ord unsatisfiedIPs) of
                                 (m2, bump, errs) \<Rightarrow>
                                   let a' = (if bump then fst (bumpLoadBalancerInstanceCollisionCount L a inst) else a) in
                                   Returns ((a', m2), case errors_Join errs of None \<Rightarrow> Inr True | Some err \<Rightarrow> Inl err)))))))"

definition instance_reconcile ::
  "(net_IP list \<Rightarrow> net_IP list) \<Rightarrow> ('a, 'm) metalnetlet \<Rightarrow> 'a \<Rightarrow> 'm \<Rightarrow> Instance \<Rightarrow> ('a, 'm) handled_loop" where
  "instance_reconcile ord L a m inst =
     (case is_NodeRef (inst_Spec inst) of
        None \<Rightarrow> Panics
      | Some nodeName \<Rightarrow>
          (case GetMetalnetNode (ml_PartitionName L) (mm_node L) m nodeName of
             Inl err \<Rightarrow> Returns ((a, m), Some (Inl err))
           | Inr metalnetNode \<Rightarrow>
               (case (case metalnetNode of None \<Rightarrow> None | Some n \<Rightarrow> if om_DeletionTimestamp n \<noteq> None then None else Some n) of
                  None \<Rightarrow>
                    if \<not> ContainsFinalizer (inst_Meta inst) (PartitionFinalizer (ml_PartitionName L))
                    then Returns ((a, m), Some (Inr False))
                    else instance_cleanup L a m inst
                | Some n \<Rightarrow>
                    (case f_ensure (ml_instance L) a inst (PartitionFinalizer (ml_PartitionName L)) of
                       (a', Inl err) \<Rightarrow> Returns ((a', m), Some (Inl err))
                     | (a', Inr True) \<Rightarrow> Returns ((a', m), Some (Inr True))
                     | (a', Inr False) \<Rightarrow>
                         (case manageMetalnetLoadBalancers ord L a' m inst (om_Name n) of
                            Panics \<Rightarrow> Panics
                          | Returns (w, Inl err) \<Rightarrow> Returns (w, Some (Inl (Wrapped ''error managing metalnet load balancers'' err)))
                          | Returns (w, Inr _) \<Rightarrow> Returns (w, Some (Inr False)))))))"

definition instance_reconcileExists ::
  "(net_IP list \<Rightarrow> net_IP list) \<Rightarrow> ('a, 'm) metalnetlet \<Rightarrow> 'a \<Rightarrow> 'm \<Rightarrow> Instance \<Rightarrow> ('a, 'm) handled_loop" where
  "instance_reconcileExists ord L a m inst =
     (if om_DeletionTimestamp (inst_Meta inst) \<noteq> None then instance_delete L a m inst
      else instance_reconcile ord L a m inst)"

definition instance_Reconcile ::
  "(net_IP list \<Rightarrow> net_IP list) \<Rightarrow> ('a, 'm) metalnetlet \<Rightarrow> 'a \<Rightarrow> 'm \<Rightarrow> ObjectKey \<Rightarrow> ('a, 'm) handled_loop" where
  "instance_Reconcile ord L a m req =
     (case k_get (ml_instance L) a req of
        Inl err \<Rightarrow>
          if \<not> IsNotFound err then Returns ((a, m), Some (Inl err))
          else
            (case deleteMetalnetLoadBalancersByLoadBalancerInstanceKeyAndAnyExists L m req of
               Panics \<Rightarrow> Panics
             | Returns (m', r) \<Rightarrow> Returns ((a, m'), r))
      | Inr inst \<Rightarrow> instance_reconcileExists ord L a m inst)"

definition isPartitionLoadBalancerInstance :: "('a, 'm) metalnetlet \<Rightarrow> Instance \<Rightarrow> bool" where
  "isPartitionLoadBalancerInstance L inst =
     (case is_NodeRef (inst_Spec inst) of
        None \<Rightarrow> False
      | Some nodeName \<Rightarrow> isOk (ParseNodeName (ml_PartitionName L) nodeName))"

section \<open>Finalizers of instances\<close>

locale metalnet_instances =
  labelled_netlet "ml_instance L" objs inst_Meta "mm_lb L" tobjs mlb_Meta metalnetletSystem "ml_scheme L" "''Instance''" kind namespaced
  for L :: "('a, 'm) metalnetlet" and objs :: "'a \<Rightarrow> ObjectKey \<rightharpoonup> Instance"
    and tobjs :: "'m \<Rightarrow> ObjectKey \<rightharpoonup> metalnet_LoadBalancer" and kind :: string and namespaced :: bool
begin

abbreviation lb_guarded :: "'a \<Rightarrow> 'm \<Rightarrow> bool" where
  "lb_guarded a m \<equiv> guarded inst_Meta (PartitionFinalizer (ml_PartitionName L)) mlb_Meta
     (labelled metalnetletSystem kind (ml_MetalnetNamespace L)) (labelled_by metalnetletSystem kind namespaced) (objs a) (tobjs m)"

lemma scan_guarded:
  "lb_scan (mm_lb L) m uns errs lbs = (m', r) \<Longrightarrow> lb_guarded a m \<Longrightarrow> lb_guarded a m'"
proof (induction lbs arbitrary: m uns errs)
  case (Cons lb lbs)
  obtain m1 e where del: "m_delete (mm_lb L) m (meta_key (mlb_Meta lb)) = (m1, e)" by fastforce
  have "lb_guarded a m1" by (rule guarded_targets [OF Cons.prems(2) tgt.delete_only [OF del]])
  with Cons del show ?case by (auto simp: Let_def split: if_splits)
qed simp

lemma create_guarded:
  assumes "objs a k0 = Some x" "PartitionFinalizer (ml_PartitionName L) \<in> set (om_Finalizers (inst_Meta x))"
    and "\<And>ip. SourceLabels metalnetletSystem (ml_scheme L) (instance_object (inst_Meta x)) = Returns (om_Labels (mlb_Meta (mk ip)))"
  shows "lb_create (mm_lb L) mk m bump errs ips = (m', r) \<Longrightarrow> lb_guarded a m \<Longrightarrow> lb_guarded a m'"
proof (induction ips arbitrary: m bump errs)
  case (Cons ip ips)
  obtain m1 e where cr: "m_create (mm_lb L) m (mk ip) = (m1, e)" by fastforce
  have "lb_guarded a m1"
    using created_guarded [OF Cons.prems(2) assms(1,2) cr] assms(3) by (simp add: instance_object_def)
  with Cons cr show ?case by (auto split: sum.splits if_splits)
qed simp

lemma bump_guarded: "lb_guarded a m \<Longrightarrow> lb_guarded (fst (bumpLoadBalancerInstanceCollisionCount L a x)) m"
  by (auto simp: bumpLoadBalancerInstanceCollisionCount_def Let_def split: prod.split sum.split intro: src.guarded_status)

lemma manage_guarded:
  assumes "manageMetalnetLoadBalancers ord L a m x n = Returns ((a', m'), r)" "lb_guarded a m"
    and "objs a k0 = Some x" "PartitionFinalizer (ml_PartitionName L) \<in> set (om_Finalizers (inst_Meta x))"
  shows "lb_guarded a' m'"
  using assms(1)
proof (cases "m' = m \<and> a' = a")
  case False
  then obtain network lbType lbs lbls m1 uns errs1 bump errs where
    sc: "lb_scan (mm_lb L) m (remdups (is_IPs (inst_Spec x))) [] lbs = (m1, uns, errs1)"
    and cr: "lb_create (mm_lb L) (new_metalnet_lb L x network lbType n lbls) m1 False errs1 (ord uns) = (m', bump, errs)"
    and ls: "SourceLabels metalnetletSystem (ml_scheme L) (instance_object (inst_Meta x)) = Returns lbls"
    and a': "a' = (if bump then fst (bumpLoadBalancerInstanceCollisionCount L a x) else a)"
    using assms(1)
    by (auto simp: manageMetalnetLoadBalancers_def Let_def split: sum.splits outcome.splits prod.splits)
  have "lb_guarded a m'"
    using create_guarded [OF assms(3,4) _ cr scan_guarded [OF sc assms(2)]] ls
    by (simp add: new_metalnet_lb_def)
  then show ?thesis using a' bump_guarded by simp
qed (use assms in simp)

lemma cleanup_guarded:
  assumes "instance_cleanup L a m x = Returns ((a', m'), r)" "lb_guarded a m" "objs a (meta_key (inst_Meta x)) = Some x"
  shows "lb_guarded a' m'"
proof (cases "MatchingSourceLabels metalnetletSystem (ml_scheme L) (instance_object (inst_Meta x))")
  case (Returns sel)
  then have sel: "SourceLabels metalnetletSystem (ml_scheme L) \<lparr>co_Type = ''Instance'', co_Meta = inst_Meta x\<rparr> = Returns sel"
    by (auto simp: MatchingSourceLabels_def MatchingSourceLabelsE_def SourceLabels_def must_def instance_object_def split: sum.splits)
  obtain m1 e where sw: "DeleteAllOfAndAnyExists (\<lambda>_ m. m) (mm_lb L) m (ml_MetalnetNamespace L) sel [] = (m1, e)" by fastforce
  note g = swept_guarded [OF assms(2) sw]
  show ?thesis
  proof (cases "e = Some (Inr False)")
    case True
    with assms(1) Returns sw show ?thesis
      by (auto simp: instance_cleanup_def deleteMetalnetLoadBalancersByLoadBalancerInstanceAndAnyExists_def
          split: prod.splits option.splits
          intro: swept_finalized_guarded [OF assms(2,3) sel])
  next
    case False
    with assms(1) Returns sw g show ?thesis
      by (auto simp: instance_cleanup_def deleteMetalnetLoadBalancersByLoadBalancerInstanceAndAnyExists_def
          split: option.splits sum.splits bool.splits)
  qed
qed (use assms(1) in \<open>simp add: instance_cleanup_def deleteMetalnetLoadBalancersByLoadBalancerInstanceAndAnyExists_def\<close>)

lemma reconcile_guarded:
  assumes "instance_reconcile ord L a m x = Returns ((a', m'), r)" "lb_guarded a m" "objs a (meta_key (inst_Meta x)) = Some x"
  shows "lb_guarded a' m'"
proof -
  let ?f = "PartitionFinalizer (ml_PartitionName L)"
  obtain a1 e where ens: "f_ensure (ml_instance L) a x ?f = (a1, e)" by fastforce
  note g = src.guarded_ensure [OF assms(2) ens assms(3)]
  have managed: "lb_guarded a' m'" if "e = Inr False" "manageMetalnetLoadBalancers ord L a1 m x n = Returns ((a', m'), q)" for n q
    using src.ensure_present [of a x ?f a1] ens that manage_guarded [of ord a1 m x n a' m' q, OF _ g] assms(3) by auto
  show ?thesis
    using assms(1,2) ens g managed cleanup_guarded [OF _ assms(2,3)]
    by (auto simp: instance_reconcile_def split: option.splits sum.splits if_splits bool.splits outcome.splits)
qed

lemma Reconcile_guarded:
  assumes "instance_Reconcile ord L a m req = Returns ((a', m'), r)" "lb_guarded a m"
  shows "lb_guarded a' m'"
proof (cases "k_get (ml_instance L) a req")
  case (Inl err)
  with assms show ?thesis
    using swept_guarded [OF assms(2)]
    by (auto simp: instance_Reconcile_def deleteMetalnetLoadBalancersByLoadBalancerInstanceKeyAndAnyExists_def
        split: if_splits outcome.splits prod.splits)
next
  case (Inr x)
  then have "objs a (meta_key (inst_Meta x)) = Some x" using src.get_ok by blast
  with Inr assms show ?thesis
    by (auto simp: instance_Reconcile_def instance_reconcileExists_def instance_delete_def split: if_splits
        intro: reconcile_guarded cleanup_guarded)
qed

end

section \<open>One load balancer per address\<close>

text \<open>
  The load balancers of an instance that are not being deleted, as pairs of key and address;
  \<open>sel\<close> are the labels of the instance.
\<close>

definition live_lbs :: "string \<Rightarrow> labels \<Rightarrow> (ObjectKey \<rightharpoonup> metalnet_LoadBalancer) \<Rightarrow> (ObjectKey \<times> addr) set" where
  "live_lbs ns sel T = {(k, ip). \<exists>y. T k = Some y \<and> key_Namespace k = ns \<and> map_of sel \<subseteq>\<^sub>m map_of (om_Labels (mlb_Meta y)) \<and>
     om_DeletionTimestamp (mlb_Meta y) = None \<and> mlb_IP y = ip}"

locale exact_lbs =
  fixes C :: "('m, metalnet_LoadBalancer) mclient" and tobjs :: "'m \<Rightarrow> ObjectKey \<rightharpoonup> metalnet_LoadBalancer"
  assumes keyed: "tobjs m k = Some y \<Longrightarrow> meta_key (mlb_Meta y) = k"
    and listed: "m_list C m ns sel 0 [] = Inr (xs, t) \<Longrightarrow> distinct (map (\<lambda>y. meta_key (mlb_Meta y)) xs) \<and>
      set xs = {y. \<exists>k. tobjs m k = Some y \<and> key_Namespace k = ns \<and> map_of sel \<subseteq>\<^sub>m map_of (om_Labels (mlb_Meta y))}"
    and deleted: "m_delete C m k = (m', e) \<Longrightarrow> IgnoreNotFound e = None \<Longrightarrow>
      \<exists>v. tobjs m' = (tobjs m)(k := v) \<and> pred_option (\<lambda>y. om_DeletionTimestamp (mlb_Meta y) \<noteq> None) v"
    and created: "m_create C m x = (m', Inr z) \<Longrightarrow> tobjs m (meta_key (mlb_Meta x)) = None \<and>
      tobjs m' = (tobjs m)(meta_key (mlb_Meta x) \<mapsto> z) \<and> mlb_IP z = mlb_IP x \<and>
      om_Labels (mlb_Meta z) = om_Labels (mlb_Meta x) \<and> om_DeletionTimestamp (mlb_Meta z) = om_DeletionTimestamp (mlb_Meta x)"
    and not_created: "m_create C m x = (m', Inl err) \<Longrightarrow> tobjs m' = tobjs m"
    and got: "m_get C m k = Inr y \<Longrightarrow> tobjs m k = Some y"
begin

lemma live_deleted:
  assumes "m_delete C m k = (m', e)" "IgnoreNotFound e = None"
  shows "live_lbs ns sel (tobjs m') = {(k', ip) \<in> live_lbs ns sel (tobjs m). k' \<noteq> k}"
proof -
  obtain v where "tobjs m' = (tobjs m)(k := v)" "pred_option (\<lambda>y. om_DeletionTimestamp (mlb_Meta y) \<noteq> None) v"
    using deleted [OF assms] by blast
  then show ?thesis by (cases v) (auto simp: live_lbs_def split: if_splits)
qed

lemma lb_scan_errs: "lb_scan C m uns errs lbs = (m', uns', errs') \<Longrightarrow> \<exists>es. errs' = errs @ es"
  by (induction lbs arbitrary: m uns errs) (fastforce simp: Let_def split: if_splits prod.splits)+

lemma lb_scan_distinct: "lb_scan C m uns errs lbs = (m', uns', errs') \<Longrightarrow> distinct uns \<Longrightarrow> distinct uns'"
  by (induction lbs arbitrary: m uns errs)
    (auto simp: Let_def distinct_removeAll split: if_splits prod.splits)

text \<open>
  What the first loop keeps has one load balancer per address, and the addresses that have one
  are those taken off the set.
\<close>

lemma lb_scan_live:
  assumes "lb_scan C m uns [] lbs = (m', uns', [])" "distinct (map (\<lambda>y. meta_key (mlb_Meta y)) lbs)"
    and "live_lbs ns sel (tobjs m) = kept \<union>
      {(meta_key (mlb_Meta y), mlb_IP y) | y. y \<in> set lbs \<and> om_DeletionTimestamp (mlb_Meta y) = None}"
    and "fst ` kept \<inter> (\<lambda>y. meta_key (mlb_Meta y)) ` set lbs = {}" "inj_on snd kept" "snd ` kept \<inter> set uns = {}"
  shows "inj_on snd (live_lbs ns sel (tobjs m')) \<and> set uns' \<subseteq> set uns \<and>
    snd ` live_lbs ns sel (tobjs m') = snd ` kept \<union> (set uns - set uns') \<and>
    snd ` live_lbs ns sel (tobjs m') \<inter> set uns' = {}"
  using assms
proof (induction lbs arbitrary: m uns kept)
  case Nil
  then show ?case by auto
next
  case (Cons y lbs)
  let ?k = "meta_key (mlb_Meta y)" and ?rest = "\<lambda>lbs. {(meta_key (mlb_Meta y), mlb_IP y) | y. y \<in> set lbs \<and> om_DeletionTimestamp (mlb_Meta y) = None}"
  have "?k \<notin> fst ` kept" "?k \<notin> (\<lambda>y. meta_key (mlb_Meta y)) ` set lbs"
    using Cons.prems(2,4) by simp_all
  then have fresh: "(k, ip) \<in> kept \<Longrightarrow> k \<noteq> ?k" "z \<in> set lbs \<Longrightarrow> meta_key (mlb_Meta z) \<noteq> ?k" for k ip z
    by (metis fst_conv image_eqI, metis image_eqI)
  consider (dying) "om_DeletionTimestamp (mlb_Meta y) \<noteq> None"
    | (keep) "om_DeletionTimestamp (mlb_Meta y) = None" "mlb_IP y \<in> set uns"
    | (drop) "om_DeletionTimestamp (mlb_Meta y) = None" "mlb_IP y \<notin> set uns" by blast
  then show ?case
  proof cases
    case dying
    have "live_lbs ns sel (tobjs m) = kept \<union> ?rest lbs" using Cons.prems(3) dying by auto
    with Cons.prems dying show ?thesis by (intro Cons.IH) auto
  next
    case keep
    let ?kept = "insert (?k, mlb_IP y) kept"
    have "live_lbs ns sel (tobjs m) = ?kept \<union> ?rest lbs" using Cons.prems(3) keep(1) by auto
    moreover have "inj_on snd ?kept" using Cons.prems(5,6) keep(2) by force
    ultimately have "inj_on snd (live_lbs ns sel (tobjs m')) \<and> set uns' \<subseteq> set (removeAll (mlb_IP y) uns) \<and>
        snd ` live_lbs ns sel (tobjs m') = snd ` ?kept \<union> (set (removeAll (mlb_IP y) uns) - set uns') \<and>
        snd ` live_lbs ns sel (tobjs m') \<inter> set uns' = {}"
      using Cons.prems keep by (intro Cons.IH) (auto simp: metalnetIPToIP_def)
    then show ?thesis using keep(2) by auto
  next
    case drop
    obtain m1 e where del: "m_delete C m ?k = (m1, e)" by fastforce
    have e: "IgnoreNotFound e = None"
      using Cons.prems(1) drop del lb_scan_errs [of m1 uns _ lbs m' uns' "[]"]
      by (auto simp: metalnetIPToIP_def split: option.splits)
    have "live_lbs ns sel (tobjs m1) = kept \<union> ?rest lbs"
      unfolding live_deleted [OF del e] Cons.prems(3) by (auto dest: fresh)
    with Cons.prems drop del e show ?thesis by (intro Cons.IH) (auto simp: metalnetIPToIP_def)
  qed
qed

lemma lb_create_errs: "lb_create C mk m bump errs ips = (m', bump', errs') \<Longrightarrow> \<exists>es. errs' = errs @ es"
  by (induction ips arbitrary: m bump errs) (fastforce split: if_splits prod.splits sum.splits)+

lemma lb_create_keeps:
  "lb_create C mk m bump errs ips = (m', r) \<Longrightarrow> tobjs m \<subseteq>\<^sub>m tobjs m'"
proof (induction ips arbitrary: m bump errs)
  case (Cons ip ips)
  obtain m1 e where cr: "m_create C m (mk ip) = (m1, e)" by fastforce
  have "tobjs m \<subseteq>\<^sub>m tobjs m1"
    using cr created [of m "mk ip" m1] not_created [of m "mk ip" m1] by (cases e) (auto simp: map_le_def)
  moreover have "tobjs m1 \<subseteq>\<^sub>m tobjs m'"
    using Cons.prems cr Cons.IH by (auto split: sum.splits if_splits)
  ultimately show ?case by (rule map_le_trans)
qed simp

text \<open>The second loop adds at most one load balancer per address, and one for each that is not there already.\<close>

lemma lb_create_live:
  assumes "lb_create C mk m bump [] ips = (m', bump', [])" "distinct ips"
    and "\<And>ip. mlb_IP (mk ip) = ip" "\<And>ip. om_Labels (mlb_Meta (mk ip)) = sel" "\<And>ip. om_Namespace (mlb_Meta (mk ip)) = ns"
    and "\<And>ip. om_DeletionTimestamp (mlb_Meta (mk ip)) = None" and "inj_on snd (live_lbs ns sel (tobjs m))" "snd ` live_lbs ns sel (tobjs m) \<inter> set ips = {}"
  shows "inj_on snd (live_lbs ns sel (tobjs m')) \<and>
    snd ` live_lbs ns sel (tobjs m') \<subseteq> snd ` live_lbs ns sel (tobjs m) \<union> set ips \<and>
    live_lbs ns sel (tobjs m) \<subseteq> live_lbs ns sel (tobjs m') \<and>
    (\<forall>ip\<in>set ips. \<exists>y. tobjs m' (meta_key (mlb_Meta (mk ip))) = Some y \<and> mlb_IP y = ip \<and> om_DeletionTimestamp (mlb_Meta y) = None)"
  using assms(1,2,7,8)
proof (induction ips arbitrary: m bump)
  case (Cons ip ips)
  let ?x = "mk ip" and ?live = "\<lambda>m. live_lbs ns sel (tobjs m)"
  obtain m1 e where cr: "m_create C m ?x = (m1, e)" by fastforce
  have "lb_create C mk m1 bump [] ips = (m', bump', []) \<and>
      (\<exists>y. tobjs m1 (meta_key (mlb_Meta ?x)) = Some y \<and> mlb_IP y = ip \<and> om_DeletionTimestamp (mlb_Meta y) = None) \<and>
      (?live m1 = ?live m \<or> ?live m1 = insert (meta_key (mlb_Meta ?x), ip) (?live m))"
  proof (cases e)
    case (Inr z)
    have z: "tobjs m1 = (tobjs m)(meta_key (mlb_Meta ?x) \<mapsto> z)" "mlb_IP z = ip" "om_Labels (mlb_Meta z) = sel"
      "om_DeletionTimestamp (mlb_Meta z) = None" "tobjs m (meta_key (mlb_Meta ?x)) = None"
      using created [of m ?x m1 z] cr Inr assms(3,4,6) by auto
    moreover have "?live m1 = insert (meta_key (mlb_Meta ?x), ip) (?live m)"
      using z assms(5) by (auto simp: live_lbs_def meta_key_def split: if_splits)
    ultimately show ?thesis using cr Inr Cons.prems(1) by simp
  next
    case (Inl err)
    obtain y where y: "m_get C m1 (meta_key (mlb_Meta ?x)) = Inr y" "om_DeletionTimestamp (mlb_Meta y) = None"
        "EqualMetalnetLoadBalancers ?x y" and r: "lb_create C mk m1 bump [] ips = (m', bump', [])"
      using Cons.prems(1) cr Inl by (auto split: if_splits sum.splits dest!: lb_create_errs)
    have "tobjs m1 (meta_key (mlb_Meta ?x)) = Some y" "mlb_IP y = ip"
      using y got assms(3) by (auto simp: EqualMetalnetLoadBalancers_def)
    with r y(2) not_created [of m ?x m1 err] cr Inl show ?thesis by simp
  qed
  then have rest: "lb_create C mk m1 bump [] ips = (m', bump', [])"
    and there: "\<exists>y. tobjs m1 (meta_key (mlb_Meta ?x)) = Some y \<and> mlb_IP y = ip \<and> om_DeletionTimestamp (mlb_Meta y) = None"
    and live: "?live m1 = ?live m \<or> ?live m1 = insert (meta_key (mlb_Meta ?x), ip) (?live m)"
    by blast+
  have "ip \<notin> snd ` ?live m" using Cons.prems(4) by auto
  then have "inj_on snd (?live m1)" "snd ` ?live m1 \<inter> set ips = {}"
    using live Cons.prems(2-4) by (force, force)
  from Cons.IH [OF rest _ this] Cons.prems(2) have IH: "inj_on snd (?live m') \<and> snd ` ?live m' \<subseteq> snd ` ?live m1 \<union> set ips \<and>
      ?live m1 \<subseteq> ?live m' \<and> (\<forall>ip\<in>set ips. \<exists>y. tobjs m' (meta_key (mlb_Meta (mk ip))) = Some y \<and> mlb_IP y = ip \<and>
        om_DeletionTimestamp (mlb_Meta y) = None)" by simp
  then have sub: "snd ` ?live m' \<subseteq> snd ` ?live m1 \<union> set ips" "?live m1 \<subseteq> ?live m'" by simp_all
  have "snd ` ?live m1 \<subseteq> insert ip (snd ` ?live m)" "?live m \<subseteq> ?live m1" using live by auto
  with sub have "snd ` ?live m' \<subseteq> snd ` ?live m \<union> set (ip # ips)" "?live m \<subseteq> ?live m'"
    by (simp_all add: subset_iff) metis
  moreover have "tobjs m' (meta_key (mlb_Meta ?x)) = tobjs m1 (meta_key (mlb_Meta ?x))"
    using lb_create_keeps [OF rest] there by (force simp: map_le_def)
  ultimately have "snd ` ?live m' \<subseteq> snd ` ?live m \<union> set (ip # ips)" "?live m \<subseteq> ?live m'"
    "\<exists>y. tobjs m' (meta_key (mlb_Meta ?x)) = Some y \<and> mlb_IP y = ip \<and> om_DeletionTimestamp (mlb_Meta y) = None"
    using there by simp_all
  with IH show ?case by simp
qed (use assms(7) in simp)

end

lemma mem_exact_lbs: "exact_lbs (mem_target mlb_Meta) (keyed_view mlb_Meta)"
proof
  show "distinct (map (\<lambda>y. meta_key (mlb_Meta y)) xs) \<and>
      set xs = {y. \<exists>k. keyed_view mlb_Meta m k = Some y \<and> key_Namespace k = ns \<and> map_of sel \<subseteq>\<^sub>m map_of (om_Labels (mlb_Meta y))}"
    if "m_list (mem_target mlb_Meta) m ns sel 0 [] = Inr (xs, t)" for m ns sel xs t
    by (rule mem_target_list [OF that])
  show "\<exists>v. keyed_view mlb_Meta m' = (keyed_view mlb_Meta m)(k := v) \<and>
      pred_option (\<lambda>y. om_DeletionTimestamp (mlb_Meta y) \<noteq> None) v"
    if "m_delete (mem_target mlb_Meta) m k = (m', e)" "IgnoreNotFound e = None" for m k m' e
    using that(1) by (intro exI [of _ None]) (auto simp: mem_target_def Let_def fun_upd_idem split: if_splits)
  show "meta_key (mlb_Meta y) = k" if "keyed_view mlb_Meta m k = Some y" for m k y
    using that by (simp add: keyed_view_Some)
qed (auto simp: mem_target_def Let_def split: if_splits option.splits)

lemma focus_exact_lbs:
  assumes "exact_lbs C tobjs" "\<And>v s. get (put v s) = v"
  shows "exact_lbs (focus_target get put C) (\<lambda>s. tobjs (get s))"
proof
  fix m k y ns sel xs t m' e x z err
  let ?F = "focus_target get put C"
  show "tobjs (get m) k = Some y \<Longrightarrow> meta_key (mlb_Meta y) = k" by (rule exact_lbs.keyed [OF assms(1)])
  show "m_list ?F m ns sel 0 [] = Inr (xs, t) \<Longrightarrow> distinct (map (\<lambda>y. meta_key (mlb_Meta y)) xs) \<and>
      set xs = {y. \<exists>k. tobjs (get m) k = Some y \<and> key_Namespace k = ns \<and> map_of sel \<subseteq>\<^sub>m map_of (om_Labels (mlb_Meta y))}"
    by (rule exact_lbs.listed [OF assms(1)]) (simp add: focus_target_def)
  show "m_delete ?F m k = (m', e) \<Longrightarrow> IgnoreNotFound e = None \<Longrightarrow> \<exists>v. tobjs (get m') = (tobjs (get m))(k := v) \<and>
      pred_option (\<lambda>y. om_DeletionTimestamp (mlb_Meta y) \<noteq> None) v"
    by (rule exact_lbs.deleted [OF assms(1), of "get m"]) (auto simp: focus_target_def assms(2) split: prod.splits)
  show "m_create ?F m x = (m', Inr z) \<Longrightarrow> tobjs (get m) (meta_key (mlb_Meta x)) = None \<and>
      tobjs (get m') = (tobjs (get m))(meta_key (mlb_Meta x) \<mapsto> z) \<and> mlb_IP z = mlb_IP x \<and>
      om_Labels (mlb_Meta z) = om_Labels (mlb_Meta x) \<and> om_DeletionTimestamp (mlb_Meta z) = om_DeletionTimestamp (mlb_Meta x)"
    by (rule exact_lbs.created [OF assms(1)]) (auto simp: focus_target_def assms(2) split: prod.splits)
  show "m_create ?F m x = (m', Inl err) \<Longrightarrow> tobjs (get m') = tobjs (get m)"
    by (rule exact_lbs.not_created [OF assms(1)]) (auto simp: focus_target_def assms(2) split: prod.splits)
  show "m_get ?F m k = Inr y \<Longrightarrow> tobjs (get m) k = Some y"
    by (rule exact_lbs.got [OF assms(1)]) (simp add: focus_target_def)
qed

lemma mem_lbs: "exact_lbs (mm_lb mem_metalnetlet) (\<lambda>m. keyed_view mlb_Meta (mw_lbs m))"
  unfolding mem_metalnetlet_def by (simp, rule focus_exact_lbs [OF mem_exact_lbs]) simp

interpretation mem_exact: exact_lbs "mm_lb mem_metalnetlet" "\<lambda>m. keyed_view mlb_Meta (mw_lbs m)"
  by (rule mem_lbs)

lemma mem_instances:
  "metalnet_instances mem_metalnetlet (\<lambda>a. map_of (aw_instances a)) (\<lambda>m. keyed_view mlb_Meta (mw_lbs m)) ''Instance'' True"
  unfolding metalnet_instances_def labelled_netlet_def labelled_netlet_axioms_def
  by (auto simp: mem_metalnetlet_def source_kind_def plain_scheme_def cluster_scoped_def
      intro!: focus_fin_source mem_fin_source focus_target_target mem_target_target)

interpretation mem_inst: metalnet_instances mem_metalnetlet "\<lambda>a. map_of (aw_instances a)"
    "\<lambda>m. keyed_view mlb_Meta (mw_lbs m)" "''Instance''" True
  by (rule mem_instances)

text \<open>A live load balancer for an address, with the labels of the instance or with the name generated for it.\<close>

definition lb_there :: "('a, 'm) metalnetlet \<Rightarrow> Instance \<Rightarrow> labels \<Rightarrow> (ObjectKey \<rightharpoonup> metalnet_LoadBalancer) \<Rightarrow> net_IP \<Rightarrow> bool" where
  "lb_there L inst sel T ip \<longleftrightarrow>
     (\<exists>k y. T k = Some y \<and> key_Namespace k = ml_MetalnetNamespace L \<and>
        mlb_IP y = ip \<and> om_DeletionTimestamp (mlb_Meta y) = None \<and>
        (map_of sel \<subseteq>\<^sub>m map_of (om_Labels (mlb_Meta y)) \<or>
         key_Name k = om_UID (inst_Meta inst) @ ''-'' @
           computeMetalnetLoadBalancerHash (ml_encode L) ip (ist_CollisionCount (inst_Status inst))))"

lemma metalnet_lbs_found:
  assumes "exact_lbs (mm_lb L) tobjs" "\<And>xs. mset (ord xs) = mset xs"
    and "SourceLabels metalnetletSystem (ml_scheme L) (instance_object (inst_Meta inst)) = Returns sel"
    and "manageMetalnetLoadBalancers ord L a m inst n = Returns ((a', m'), Inr True)"
  shows "inj_on snd (live_lbs (ml_MetalnetNamespace L) sel (tobjs m')) \<and>
    snd ` live_lbs (ml_MetalnetNamespace L) sel (tobjs m') \<subseteq> set (is_IPs (inst_Spec inst)) \<and>
    (\<forall>ip\<in>set (is_IPs (inst_Spec inst)). lb_there L inst sel (tobjs m') ip)"
proof -
  let ?N = "ml_MetalnetNamespace L" and ?ips = "is_IPs (inst_Spec inst)"
  have sel: "MatchingSourceLabels metalnetletSystem (ml_scheme L) (instance_object (inst_Meta inst)) = Returns sel"
    using assms(3) by (auto simp: MatchingSourceLabels_def MatchingSourceLabelsE_def SourceLabels_def must_def split: sum.splits)
  obtain network lbType lbs t m1 uns errs1 bump errs where
    lst: "m_list (mm_lb L) m ?N sel 0 [] = Inr (lbs, t)"
    and sc: "lb_scan (mm_lb L) m (remdups ?ips) [] lbs = (m1, uns, errs1)"
    and cr: "lb_create (mm_lb L) (new_metalnet_lb L inst network lbType n sel) m1 False errs1 (ord uns) = (m', bump, errs)"
    and "errors_Join errs = None"
    using assms(3,4) sel
    by (auto simp: manageMetalnetLoadBalancers_def getMetalnetLoadBalancersForLoadBalancerInstance_def Let_def
        split: sum.splits outcome.splits prod.splits option.splits)
  then have errs: "errs = []" "errs1 = []" using exact_lbs.lb_create_errs [OF assms(1) cr] by auto
  have lbs: "distinct (map (\<lambda>y. meta_key (mlb_Meta y)) lbs)"
    "set lbs = {y. \<exists>k. tobjs m k = Some y \<and> key_Namespace k = ?N \<and> map_of sel \<subseteq>\<^sub>m map_of (om_Labels (mlb_Meta y))}"
    using exact_lbs.listed [OF assms(1) lst] by auto
  have live: "live_lbs ?N sel (tobjs m) = {} \<union>
      {(meta_key (mlb_Meta y), mlb_IP y) | y. y \<in> set lbs \<and> om_DeletionTimestamp (mlb_Meta y) = None}"
    unfolding lbs(2) using exact_lbs.keyed [OF assms(1)] by (auto simp: live_lbs_def)
  have scan: "inj_on snd (live_lbs ?N sel (tobjs m1))" "set uns \<subseteq> set ?ips"
    "snd ` live_lbs ?N sel (tobjs m1) = set ?ips - set uns" "snd ` live_lbs ?N sel (tobjs m1) \<inter> set (ord uns) = {}"
    using exact_lbs.lb_scan_live [OF assms(1) sc [unfolded errs] lbs(1) live] mset_eq_setD [OF assms(2) [of uns]] by auto
  have "distinct (ord uns)"
    using exact_lbs.lb_scan_distinct [OF assms(1) sc] mset_eq_imp_distinct_iff [OF assms(2)] by simp
  moreover have "mlb_IP (new_metalnet_lb L inst network lbType n sel ip) = ip"
    "om_Labels (mlb_Meta (new_metalnet_lb L inst network lbType n sel ip)) = sel"
    "om_Namespace (mlb_Meta (new_metalnet_lb L inst network lbType n sel ip)) = ?N"
    "om_DeletionTimestamp (mlb_Meta (new_metalnet_lb L inst network lbType n sel ip)) = None" for ip
    by (simp_all add: new_metalnet_lb_def ipToMetalnetIP_def zero_meta_def)
  ultimately have crt: "inj_on snd (live_lbs ?N sel (tobjs m')) \<and>
    snd ` live_lbs ?N sel (tobjs m') \<subseteq> snd ` live_lbs ?N sel (tobjs m1) \<union> set (ord uns) \<and>
    live_lbs ?N sel (tobjs m1) \<subseteq> live_lbs ?N sel (tobjs m') \<and>
    (\<forall>ip\<in>set (ord uns). \<exists>y. tobjs m' (meta_key (mlb_Meta (new_metalnet_lb L inst network lbType n sel ip))) = Some y \<and>
      mlb_IP y = ip \<and> om_DeletionTimestamp (mlb_Meta y) = None)"
    using exact_lbs.lb_create_live [OF assms(1) cr [unfolded errs] _ _ _ _ _ scan(1,4)] by blast
  have there: "lb_there L inst sel (tobjs m') ip" if ip: "ip \<in> set ?ips" for ip
  proof (cases "ip \<in> set (ord uns)")
    case True
    with crt obtain y where "tobjs m' (meta_key (mlb_Meta (new_metalnet_lb L inst network lbType n sel ip))) = Some y"
      "mlb_IP y = ip" "om_DeletionTimestamp (mlb_Meta y) = None" by blast
    then show ?thesis
      unfolding lb_there_def by (intro exI conjI disjI2) (assumption, simp_all add: new_metalnet_lb_def meta_key_def)
  next
    case False
    then have "ip \<in> snd ` live_lbs ?N sel (tobjs m1)" using scan(3) ip mset_eq_setD [OF assms(2) [of uns]] by simp
    then obtain k where "(k, ip) \<in> live_lbs ?N sel (tobjs m1)" by auto
    then have "(k, ip) \<in> live_lbs ?N sel (tobjs m')" using crt by blast
    then show ?thesis by (auto simp: live_lbs_def lb_there_def)
  qed
  have "snd ` live_lbs ?N sel (tobjs m1) \<union> set (ord uns) \<subseteq> set ?ips"
    using scan(2,3) mset_eq_setD [OF assms(2) [of uns]] by simp
  with crt have "snd ` live_lbs ?N sel (tobjs m') \<subseteq> set ?ips" by (meson subset_trans)
  with crt there show ?thesis by simp
qed

lemma metalnet_lbs_not_found:
  assumes "manageMetalnetLoadBalancers ord L a m inst n = Returns ((a', m'), Inr False)"
  shows "(a', m') = (a, m) \<and> (\<exists>err. IsNotFound err \<and> k_get (ml_network L) a
    \<lparr>key_Namespace = om_Namespace (inst_Meta inst), key_Name = is_NetworkRef (inst_Spec inst)\<rparr> = Inl err)"
proof (cases "k_get (ml_network L) a
    \<lparr>key_Namespace = om_Namespace (inst_Meta inst), key_Name = is_NetworkRef (inst_Spec inst)\<rparr>")
  case (Inl err)
  with assms show ?thesis
    by (auto simp: manageMetalnetLoadBalancers_def IgnoreNotFound_def split: if_splits option.splits)
next
  case (Inr network)
  with assms show ?thesis
    by (auto simp: manageMetalnetLoadBalancers_def Let_def split: sum.splits outcome.splits prod.splits option.splits)
qed

section \<open>Properties\<close>

text \<open>
  C13. A reconciliation of the load balancers of an instance that reports no error reports whether the
  network of the instance was there. If it was not, nothing is changed in either cluster (load balancers
  of removed addresses stay). If it was, then of the load balancers in the metalnet namespace that carry
  the instance's labels and are not being deleted there is at most one per address and none for an
  address the instance does not have; and for every address of the instance there is a load balancer in
  that namespace, with that address and not being deleted, that carries these labels or has the name the
  code generates for the instance and the address. The order in which the set of missing addresses is
  traversed does not matter. Metalnet's answers are exact: no other client writes load balancers meanwhile.
\<close>

theorem metalnet_lbs_exact:
  assumes "exact_lbs (mm_lb L) tobjs" "\<And>xs. mset (ord xs) = mset xs"
    and "SourceLabels metalnetletSystem (ml_scheme L) (instance_object (inst_Meta inst)) = Returns sel"
    and "manageMetalnetLoadBalancers ord L a m inst n = Returns ((a', m'), Inr found)"
  shows "if found then
      inj_on snd (live_lbs (ml_MetalnetNamespace L) sel (tobjs m')) \<and>
      snd ` live_lbs (ml_MetalnetNamespace L) sel (tobjs m') \<subseteq> set (is_IPs (inst_Spec inst)) \<and>
      (\<forall>ip\<in>set (is_IPs (inst_Spec inst)). \<exists>k y. tobjs m' k = Some y \<and> key_Namespace k = ml_MetalnetNamespace L \<and>
         mlb_IP y = ip \<and> om_DeletionTimestamp (mlb_Meta y) = None \<and>
         (map_of sel \<subseteq>\<^sub>m map_of (om_Labels (mlb_Meta y)) \<or>
          key_Name k = om_UID (inst_Meta inst) @ ''-'' @
            computeMetalnetLoadBalancerHash (ml_encode L) ip (ist_CollisionCount (inst_Status inst))))
    else (a', m') = (a, m) \<and> (\<exists>err. IsNotFound err \<and> k_get (ml_network L) a
      \<lparr>key_Namespace = om_Namespace (inst_Meta inst), key_Name = is_NetworkRef (inst_Spec inst)\<rparr> = Inl err)"
proof (cases found)
  case True
  with metalnet_lbs_found [OF assms(1-3)] assms(4) show ?thesis by (simp add: lb_there_def)
next
  case False
  with metalnet_lbs_not_found [of ord L a m inst n a' m'] assms(4) show ?thesis by simp
qed

definition example_instance :: Instance where
  "example_instance = \<lparr>inst_Meta = zero_meta\<lparr>om_Namespace := ''ns'', om_Name := ''lb-x'', om_UID := ''u2'',
       om_Finalizers := [PartitionFinalizer ''p1'']\<rparr>,
     inst_Spec = \<lparr>is_Type = InstanceTypeLoadBalancer, is_LoadBalancerType = LoadBalancerTypePublic, is_NetworkRef = ''net'',
       is_IPs = [V4 1, V4 2], is_LoadBalancerPorts = [\<lparr>lbport_Protocol = None, lbport_Port = 80, lbport_EndPort = None\<rparr>],
       is_Affinity = None, is_TopologySpreadConstraints = None, is_NodeRef = Some ''p1.n1''\<rparr>,
     inst_Status = \<lparr>ist_IPs = [], ist_CollisionCount = None\<rparr>\<rparr>"

definition example_sel :: labels where
  "example_sel = [(''metalnetlet.api.onmetal.de/instance-uid'', ''u2''), (''metalnetlet.api.onmetal.de/instance-name'', ''lb-x''),
     (''metalnetlet.api.onmetal.de/instance-namespace'', ''ns'')]"

text \<open>Metalnet has two load balancers of the instance, one of them for an address the instance no longer has.\<close>

definition stale_lb :: "string \<Rightarrow> addr \<Rightarrow> metalnet_LoadBalancer" where
  "stale_lb name ip = \<lparr>mlb_Meta = zero_meta\<lparr>om_Namespace := ''metalnet'', om_Name := name, om_Labels := example_sel\<rparr>,
     mlb_NetworkRef = ''u1'', mlb_LBtype = ''Public'', mlb_IPFamily = IPv4Protocol, mlb_IP = ip, mlb_Ports = [], mlb_NodeName = None\<rparr>"

definition example_metalnet :: metalnet_world where
  "example_metalnet = empty_metalnet\<lparr>mw_lbs := map (\<lambda>lb. (meta_key (mlb_Meta lb), lb)) [stale_lb ''a'' (V4 2), stale_lb ''b'' (V4 9)]\<rparr>"

definition lb_apinet :: apinet_world where
  "lb_apinet = example_apinet\<lparr>aw_instances := [(meta_key (inst_Meta example_instance), example_instance)]\<rparr>"

theorem metalnet_lbs_exact_witness:
  "\<exists>a m. manageMetalnetLoadBalancers rev mem_metalnetlet lb_apinet example_metalnet example_instance ''n1'' = Returns ((a, m), Inr True) \<and>
     snd ` live_lbs ''metalnet'' example_sel (keyed_view mlb_Meta (mw_lbs m)) \<subseteq> {V4 1, V4 2} \<and>
     (\<forall>ip\<in>{V4 1, V4 2}. \<exists>k y. keyed_view mlb_Meta (mw_lbs m) k = Some y \<and> key_Namespace k = ''metalnet'' \<and> mlb_IP y = ip)"
proof -
  have sel: "SourceLabels metalnetletSystem (ml_scheme mem_metalnetlet) (instance_object (inst_Meta example_instance)) = Returns example_sel"
    by code_simp
  have "k_get (ml_network mem_metalnetlet) lb_apinet
      \<lparr>key_Namespace = om_Namespace (inst_Meta example_instance), key_Name = is_NetworkRef (inst_Spec example_instance)\<rparr> = Inr finalized_network"
    "loadBalancerTypeToMetalnetLoadBalancerType (ml_values mem_metalnetlet) (is_LoadBalancerType (inst_Spec example_instance)) = Inr ''Public''"
    "getMetalnetLoadBalancersForLoadBalancerInstance mem_metalnetlet example_metalnet example_instance =
      Returns (Inr [stale_lb ''a'' (V4 2), stale_lb ''b'' (V4 9)])"
    by code_simp+
  moreover have "lb_scan (mm_lb mem_metalnetlet) example_metalnet (remdups (is_IPs (inst_Spec example_instance))) []
      [stale_lb ''a'' (V4 2), stale_lb ''b'' (V4 9)] =
      (empty_metalnet\<lparr>mw_lbs := [(\<lparr>key_Namespace = ''metalnet'', key_Name = ''a''\<rparr>, stale_lb ''a'' (V4 2))]\<rparr>, [V4 1], [])"
    by code_simp
  ultimately obtain a m where run: "manageMetalnetLoadBalancers rev mem_metalnetlet lb_apinet example_metalnet example_instance ''n1'' = Returns ((a, m), Inr True)"
    using sel
    by (simp add: manageMetalnetLoadBalancers_def mem_metalnetlet_def focus_target_def mem_target_def keyed_view_def
        new_metalnet_lb_def meta_key_def example_instance_def zero_meta_def errors_Join_def Let_def)
  have "ml_MetalnetNamespace mem_metalnetlet = ''metalnet''" "set (is_IPs (inst_Spec example_instance)) = {V4 1, V4 2}"
    by (simp_all add: mem_metalnetlet_def example_instance_def)
  with metalnet_lbs_exact [OF mem_lbs _ sel run]
  have "snd ` live_lbs ''metalnet'' example_sel (keyed_view mlb_Meta (mw_lbs m)) \<subseteq> {V4 1, V4 2}"
    "\<forall>ip\<in>{V4 1, V4 2}. \<exists>k y. keyed_view mlb_Meta (mw_lbs m) k = Some y \<and> key_Namespace k = ''metalnet'' \<and> mlb_IP y = ip"
    by simp_all blast
  with run show ?thesis by blast
qed

text \<open>
  Load balancers of metalnet are never leaked: along every run of the instance controller of a
  partition, interleaved with arbitrary other clients, each labelled load balancer in the metalnet
  namespace belongs to an instance that exists and carries the finalizer of the partition,
  provided that this held at the start; \<open>kind\<close> and \<open>namespaced\<close> are what the scheme says of instances.
\<close>

theorem metalnet_lbs_guarded:
  assumes "metalnet_instances L objs tobjs kind namespaced"
    and "guarded inst_Meta (PartitionFinalizer (ml_PartitionName L)) mlb_Meta
      (labelled metalnetletSystem kind (ml_MetalnetNamespace L)) (labelled_by metalnetletSystem kind namespaced) (objs a0) (tobjs m0)"
    and "netlet_run (instance_Reconcile ord L)
      (\<lambda>a a'. keeps_finalized inst_Meta (PartitionFinalizer (ml_PartitionName L)) (objs a) (objs a'))
      (\<lambda>m m'. only_deletes mlb_Meta (tobjs m) (tobjs m')) (a0, m0) (a, m)"
  shows "guarded inst_Meta (PartitionFinalizer (ml_PartitionName L)) mlb_Meta
      (labelled metalnetletSystem kind (ml_MetalnetNamespace L)) (labelled_by metalnetletSystem kind namespaced) (objs a) (tobjs m)"
  using guarded_run [OF assms(3)] assms(2) metalnet_instances.Reconcile_guarded [OF assms(1)] by simp

theorem metalnet_lbs_guarded_witness:
  "\<exists>a m. instance_Reconcile (\<lambda>x. x) mem_metalnetlet lb_apinet example_metalnet (meta_key (inst_Meta example_instance)) = Returns ((a, m), Some (Inr False)) \<and>
     guarded inst_Meta (PartitionFinalizer (ml_PartitionName mem_metalnetlet)) mlb_Meta
      (labelled metalnetletSystem ''Instance'' (ml_MetalnetNamespace mem_metalnetlet)) (labelled_by metalnetletSystem ''Instance'' True)
      (map_of (aw_instances a)) (keyed_view mlb_Meta (mw_lbs m))"
proof -
  obtain a m where run: "instance_Reconcile (\<lambda>x. x) mem_metalnetlet lb_apinet example_metalnet (meta_key (inst_Meta example_instance)) =
      Returns ((a, m), Some (Inr False))"
    by (rule_tac that) code_simp
  have lbl: "SourceUIDLabel metalnetletSystem ''Instance'' = ''metalnetlet.api.onmetal.de/instance-uid''"
    "SourceNameLabel metalnetletSystem ''Instance'' = ''metalnetlet.api.onmetal.de/instance-name''"
    "SourceNamespaceLabel metalnetletSystem ''Instance'' = ''metalnetlet.api.onmetal.de/instance-namespace''"
    by code_simp+
  have "PartitionFinalizer (ml_PartitionName mem_metalnetlet) \<in> set (om_Finalizers (inst_Meta example_instance))"
    "labelled_by metalnetletSystem ''Instance'' True (identity (inst_Meta example_instance)) k example_sel" for k
    by (code_simp, simp add: labelled_by_def identity_def lbl example_sel_def example_instance_def meta_key_def)
  then have "guarded inst_Meta (PartitionFinalizer (ml_PartitionName mem_metalnetlet)) mlb_Meta
      (labelled metalnetletSystem ''Instance'' (ml_MetalnetNamespace mem_metalnetlet)) (labelled_by metalnetletSystem ''Instance'' True)
      (map_of (aw_instances lb_apinet)) (keyed_view mlb_Meta (mw_lbs example_metalnet))"
    by (auto simp: guarded_def lb_apinet_def example_metalnet_def keyed_view_Some stale_lb_def split: if_splits)
  then have "guarded inst_Meta (PartitionFinalizer (ml_PartitionName mem_metalnetlet)) mlb_Meta
      (labelled metalnetletSystem ''Instance'' (ml_MetalnetNamespace mem_metalnetlet)) (labelled_by metalnetletSystem ''Instance'' True)
      (map_of (aw_instances a)) (keyed_view mlb_Meta (mw_lbs m))"
    by (rule metalnet_lbs_guarded [OF mem_instances, of lb_apinet example_metalnet "\<lambda>x. x"])
      (rule run_handler, rule run_start, rule run)
  with run show ?thesis by (intro exI conjI)
qed

end
