(* ===== verification/MetalnetInterfaces.thy ===== *)
theory MetalnetInterfaces
  imports MetalnetInstances NatGateway
begin

text \<open>
  The metalnetlet, part three: \<open>metalnetlet/controllers/networkinterface_controller.go\<close>. A network
  interface on a node of the partition becomes a metalnet network interface, with its public
  address, the addresses of the load balancers that target it and its share of a NAT address.
\<close>

section \<open>networkinterface_controller.go\<close>

definition nic_object :: "ObjectMeta \<Rightarrow> client_object" where
  "nic_object m = \<lparr>co_Type = ''NetworkInterface'', co_Meta = m\<rparr>"

definition deleteMatchingMetalnetNetworkInterface ::
  "('a, 'm) metalnetlet \<Rightarrow> 'm \<Rightarrow> NetworkInterface \<Rightarrow> 'm \<times> bool result" where
  "deleteMatchingMetalnetNetworkInterface L m nic =
     (case m_delete (mm_nic L) m (metalnet_key L (nic_Meta nic)) of
        (m', Some err) \<Rightarrow>
          if \<not> IsNotFound err then (m', Inl (Wrapped ''error deleting metalnet network interface'' err))
          else (m', Inr False)
      | (m', None) \<Rightarrow> (m', Inr True))"

definition nic_delete :: "('a, 'm) metalnetlet \<Rightarrow> 'a \<Rightarrow> 'm \<Rightarrow> NetworkInterface \<Rightarrow> ('a, 'm) handled_loop" where
  "nic_delete L a m nic =
     (if \<not> ContainsFinalizer (nic_Meta nic) (PartitionFinalizer (ml_PartitionName L)) then Returns ((a, m), Some (Inr False))
      else
        (case m_delete (mm_nic L) m (metalnet_key L (nic_Meta nic)) of
           (m', Some err) \<Rightarrow>
             if \<not> IsNotFound err
             then Returns ((a, m'), Some (Inl (Wrapped ''error deleting metalnet network interface'' err)))
             else
               (case f_remove (ml_nic L) a nic (PartitionFinalizer (ml_PartitionName L)) of
                  (a', Some err) \<Rightarrow> Returns ((a', m'), Some (Inl (Wrapped ''error removing finalizer'' err)))
                | (a', None) \<Rightarrow> Returns ((a', m'), Some (Inr False)))
         | (m', None) \<Rightarrow> Returns ((a, m'), Some (Inr True))))"

definition getMetalnetNetworkNameForNetworkInterface :: "('a, 'm) metalnetlet \<Rightarrow> 'a \<Rightarrow> NetworkInterface \<Rightarrow> string result" where
  "getMetalnetNetworkNameForNetworkInterface L a nic =
     (case k_get (ml_network L) a \<lparr>key_Namespace = om_Namespace (nic_Meta nic), key_Name = nics_NetworkRef (nic_Spec nic)\<rparr> of
        Inl err \<Rightarrow> if \<not> IsNotFound err then Inl (Wrapped ''error getting network'' err) else Inr []
      | Inr network \<Rightarrow> Inr (om_UID (net_Meta network)))"

text \<open>A load balancer that is not found leaves an empty object, which has no addresses.\<close>

fun lb_targets :: "('a, 'm) metalnetlet \<Rightarrow> 'a \<Rightarrow> NetworkInterface \<Rightarrow> net_IP list \<Rightarrow> LoadBalancerRouting list \<Rightarrow> net_IP list result" where
  "lb_targets L a nic ipSet [] = Inr ipSet"
| "lb_targets L a nic ipSet (lbRouting # rs) =
     (let hasDst = list_ex (\<lambda>dst. lbd_IP dst \<in> set (nics_IPs (nic_Spec nic))) (lbr_Destinations lbRouting) in
      if hasDst then
        (case k_get (ml_lb L) a (meta_key (lbr_Meta lbRouting)) of
           Inl err \<Rightarrow> if \<not> IsNotFound err then Inl err else lb_targets L a nic ipSet rs
         | Inr loadBalancer \<Rightarrow> lb_targets L a nic (ipSet @ GetLoadBalancerIPs loadBalancer) rs)
      else lb_targets L a nic ipSet rs)"

definition getLoadBalancerTargetsForNetworkInterface ::
  "('a, 'm) metalnetlet \<Rightarrow> 'a \<Rightarrow> NetworkInterface \<Rightarrow> net_IP list result" where
  "getLoadBalancerTargetsForNetworkInterface L a nic =
     (case k_list (ml_lbrouting L) a (om_Namespace (nic_Meta nic)) of
        Inl err \<Rightarrow> Inl (Wrapped ''error listing load balancer routings'' err)
      | Inr lbRoutings \<Rightarrow>
          (case lb_targets L a nic [] lbRoutings of
             Inl err \<Rightarrow> Inl err
           | Inr ipSet \<Rightarrow> Inr (sort (remdups ipSet))))"

definition find_section :: "string \<Rightarrow> NATTable \<Rightarrow> (net_IP \<times> NATIPSection) option" where
  "find_section uid natTable =
     find (\<lambda>(_, target). case nsec_TargetRef target of None \<Rightarrow> False | Some ref \<Rightarrow> ntref_UID ref = uid)
       (concat (map (\<lambda>natIP. map (Pair (nat_IP natIP)) (nat_Sections natIP)) (nt_IPs natTable)))"

definition getNATIPsForNetworkInterfaceNAT ::
  "('a, 'm) metalnetlet \<Rightarrow> 'a \<Rightarrow> NetworkInterface \<Rightarrow> NetworkInterfaceNAT \<Rightarrow> NATDetails option result" where
  "getNATIPsForNetworkInterfaceNAT L a nic nicNAT =
     (let natGatewayKey = \<lparr>key_Namespace = om_Namespace (nic_Meta nic), key_Name = nnref_Name (nnat_ClaimRef nicNAT)\<rparr> in
      case k_get (ml_gw L) a natGatewayKey of
        Inl err \<Rightarrow> if \<not> IsNotFound err then Inl err else Inr None
      | Inr natGateway \<Rightarrow>
          if om_UID (ng_Meta natGateway) \<noteq> nnref_UID (nnat_ClaimRef nicNAT) then Inr None
          else
            (case k_get (ml_table L) a natGatewayKey of
               Inl err \<Rightarrow> if \<not> IsNotFound err then Inl err else Inr None
             | Inr natTable \<Rightarrow>
                 (case find_section (om_UID (nic_Meta nic)) natTable of
                    None \<Rightarrow> Inr None
                  | Some (ip, target) \<Rightarrow>
                      Inr (Some \<lparr>nd_IP = Some ip, nd_Port = nsec_Port target, nd_EndPort = nsec_EndPort target\<rparr>))))"

fun nat_details :: "('a, 'm) metalnetlet \<Rightarrow> 'a \<Rightarrow> NetworkInterface \<Rightarrow> NATDetails list \<Rightarrow> NetworkInterfaceNAT list \<Rightarrow> NATDetails list result" where
  "nat_details L a nic res [] = Inr res"
| "nat_details L a nic res (nicNAT # nats) =
     (case getNATIPsForNetworkInterfaceNAT L a nic nicNAT of
        Inl err \<Rightarrow> Inl err
      | Inr None \<Rightarrow> nat_details L a nic res nats
      | Inr (Some d) \<Rightarrow> nat_details L a nic (res @ [d]) nats)"

definition getNATDetailsForNetworkInterface :: "('a, 'm) metalnetlet \<Rightarrow> 'a \<Rightarrow> NetworkInterface \<Rightarrow> NATDetails list result" where
  "getNATDetailsForNetworkInterface L a nic = nat_details L a nic [] (nics_NATs (nic_Spec nic))"

definition nic_updateStatus ::
  "('a, 'm) metalnetlet \<Rightarrow> 'a \<Rightarrow> NetworkInterface \<Rightarrow> metalnet_NetworkInterface \<Rightarrow> ('a \<times> go_error option) outcome" where
  "nic_updateStatus L a nic metalnetNic =
     (case workaroundMetalnetNoIPv6IPToIPs (ml_values L) (mnst_VirtualIP (mnic_Status metalnetNic)) of
        Panics \<Rightarrow> Panics
      | Returns publicIPs \<Rightarrow>
          (case workaroundMetalnetNoIPv6NATIPToIPs (mnst_NatIP (mnic_Status metalnetNic)) of
             Panics \<Rightarrow> Panics
           | Returns natIPs \<Rightarrow>
               let nic' = nic\<lparr>nic_Status :=
                 \<lparr>nicst_State = metalnetNetworkInterfaceStateToNetworkInterfaceStatus (ml_values L) (mnst_State (mnic_Status metalnetNic)),
                  nicst_PCIAddress = mnst_PCIAddress (mnic_Status metalnetNic),
                  nicst_Prefixes = metalnetIPPrefixesToIPPrefixes (mnic_Prefixes metalnetNic),
                  nicst_PublicIPs = metalnetIPsToIPs publicIPs,
                  nicst_NATIPs = metalnetIPsToIPs natIPs\<rparr>\<rparr> in
               (case k_statusPatch (ml_nic L) a nic' nic of
                  (a', Inl err) \<Rightarrow> Returns (a', Some (Wrapped ''error patching network interface status'' err))
                | (a', Inr _) \<Rightarrow> Returns (a', None))))"

text \<open>The object that is applied, and the answer of the server, \<open>None\<close> when the network is not there yet.\<close>

definition new_metalnet_nic ::
  "('a, 'm) metalnetlet \<Rightarrow> NetworkInterface \<Rightarrow> string \<Rightarrow> labels \<Rightarrow> string \<Rightarrow> net_IP list \<Rightarrow> NATDetails option \<Rightarrow> metalnet_NetworkInterface" where
  "new_metalnet_nic L nic metalnetNetworkName lbls metalnetNodeName targets natDetails =
     \<lparr>mnic_Meta = zero_meta\<lparr>om_Namespace := ml_MetalnetNamespace L, om_Name := om_UID (nic_Meta nic), om_Labels := lbls\<rparr>,
      mnic_NetworkRef = metalnetNetworkName,
      mnic_IPFamilies = ipsIPFamilies (nics_IPs (nic_Spec nic)),
      mnic_IPs = ipsToMetalnetIPs (nics_IPs (nic_Spec nic)),
      mnic_VirtualIP = workaroundMetalnetNoIPv6VirtualIPSupportIPsToIP (ipsToMetalnetIPs (GetNetworkInterfacePublicIPs nic)),
      mnic_Prefixes = ipPrefixesToMetalnetPrefixes (nics_Prefixes (nic_Spec nic)),
      mnic_LoadBalancerTargets = ipsToMetalnetIPPrefixes targets,
      mnic_NAT = natDetails,
      mnic_NodeName = Some metalnetNodeName,
      mnic_Status = \<lparr>mnst_State = [], mnst_PCIAddress = None, mnst_VirtualIP = None, mnst_NatIP = None\<rparr>\<rparr>"

definition applyMetalnetNic ::
  "('a, 'm) metalnetlet \<Rightarrow> 'a \<Rightarrow> 'm \<Rightarrow> NetworkInterface \<Rightarrow> string \<Rightarrow> ('m \<times> metalnet_NetworkInterface option result) outcome" where
  "applyMetalnetNic L a m nic metalnetNodeName =
     (case getMetalnetNetworkNameForNetworkInterface L a nic of
        Inl err \<Rightarrow> Returns (m, Inl err)
      | Inr metalnetNetworkName \<Rightarrow>
          if metalnetNetworkName = [] then Returns (m, Inr None)
          else
            (case getLoadBalancerTargetsForNetworkInterface L a nic of
               Inl err \<Rightarrow> Returns (m, Inl (Wrapped ''error getting load balancer targets'' err))
             | Inr targets \<Rightarrow>
                 (case getNATDetailsForNetworkInterface L a nic of
                    Inl err \<Rightarrow> Returns (m, Inl (Wrapped ''error getting NAT IPs'' err))
                  | Inr natIPs \<Rightarrow>
                      (case SourceLabels metalnetletSystem (ml_scheme L) (nic_object (nic_Meta nic)) of
                         Panics \<Rightarrow> Panics
                       | Returns lbls \<Rightarrow>
                           (case workaroundMetalnetNoIPv6NATDetailsToNATDetailsPointer natIPs of
                              Panics \<Rightarrow> Panics
                            | Returns natDetails \<Rightarrow>
                                (case m_apply (mm_nic L) m
                                        (new_metalnet_nic L nic metalnetNetworkName lbls metalnetNodeName targets natDetails) of
                                   (m', Inl err) \<Rightarrow> Returns (m', Inl (Wrapped ''error applying metalnet network interface'' err))
                                 | (m', Inr y) \<Rightarrow> Returns (m', Inr (Some y))))))))"

definition nic_cleanup :: "('a, 'm) metalnetlet \<Rightarrow> 'a \<Rightarrow> 'm \<Rightarrow> NetworkInterface \<Rightarrow> ('a, 'm) handled_loop" where
  "nic_cleanup L a m nic =
     (if \<not> ContainsFinalizer (nic_Meta nic) (PartitionFinalizer (ml_PartitionName L)) then Returns ((a, m), Some (Inr False))
      else
        (case deleteMatchingMetalnetNetworkInterface L m nic of
           (m', Inl err) \<Rightarrow> Returns ((a, m'), Some (Inl err))
         | (m', Inr True) \<Rightarrow> Returns ((a, m'), Some (Inr True))
         | (m', Inr False) \<Rightarrow>
             (case f_remove (ml_nic L) a nic (PartitionFinalizer (ml_PartitionName L)) of
                (a', Some err) \<Rightarrow> Returns ((a', m'), Some (Inl (Wrapped ''error removing finalizer'' err)))
              | (a', None) \<Rightarrow> Returns ((a', m'), Some (Inr False)))))"

definition nic_sync :: "('a, 'm) metalnetlet \<Rightarrow> 'a \<Rightarrow> 'm \<Rightarrow> NetworkInterface \<Rightarrow> string \<Rightarrow> ('a, 'm) handled_loop" where
  "nic_sync L a m nic metalnetNodeName =
     (case applyMetalnetNic L a m nic metalnetNodeName of
        Panics \<Rightarrow> Panics
      | Returns (m', Inl err) \<Rightarrow> Returns ((a, m'), Some (Inl (Wrapped ''error managing metalnet network interface'' err)))
      | Returns (m', Inr None) \<Rightarrow> Returns ((a, m'), Some (Inr False))
      | Returns (m', Inr (Some metalnetNic)) \<Rightarrow>
          (case nic_updateStatus L a nic metalnetNic of
             Panics \<Rightarrow> Panics
           | Returns (a', Some err) \<Rightarrow> Returns ((a', m'), Some (Inl (Wrapped ''error updating status'' err)))
           | Returns (a', None) \<Rightarrow> Returns ((a', m'), Some (Inr False))))"

definition nic_reconcile :: "('a, 'm) metalnetlet \<Rightarrow> 'a \<Rightarrow> 'm \<Rightarrow> NetworkInterface \<Rightarrow> ('a, 'm) handled_loop" where
  "nic_reconcile L a m nic =
     (case GetMetalnetNode (ml_PartitionName L) (mm_node L) m (nics_NodeRef (nic_Spec nic)) of
        Inl err \<Rightarrow> Returns ((a, m), Some (Inl err))
      | Inr metalnetNode \<Rightarrow>
          (case (case metalnetNode of None \<Rightarrow> None | Some n \<Rightarrow> if om_DeletionTimestamp n \<noteq> None then None else Some n) of
             None \<Rightarrow> nic_cleanup L a m nic
           | Some n \<Rightarrow>
               (case f_ensure (ml_nic L) a nic (PartitionFinalizer (ml_PartitionName L)) of
                  (a', Inl err) \<Rightarrow> Returns ((a', m), Some (Inl err))
                | (a', Inr True) \<Rightarrow> Returns ((a', m), Some (Inr True))
                | (a', Inr False) \<Rightarrow> nic_sync L a' m nic (om_Name n))))"

definition nic_reconcileExists :: "('a, 'm) metalnetlet \<Rightarrow> 'a \<Rightarrow> 'm \<Rightarrow> NetworkInterface \<Rightarrow> ('a, 'm) handled_loop" where
  "nic_reconcileExists L a m nic =
     (if om_DeletionTimestamp (nic_Meta nic) \<noteq> None then nic_delete L a m nic else nic_reconcile L a m nic)"

definition nic_Reconcile :: "('a, 'm) metalnetlet \<Rightarrow> 'a \<Rightarrow> 'm \<Rightarrow> ObjectKey \<Rightarrow> ('a, 'm) handled_loop" where
  "nic_Reconcile L a m req =
     (case k_get (ml_nic L) a req of
        Inl err \<Rightarrow>
          if \<not> IsNotFound err then Returns ((a, m), Some (Inl err))
          else
            (case MatchingSourceKeyLabels metalnetletSystem (ml_scheme L) req (nic_object zero_meta) of
               Panics \<Rightarrow> Panics
             | Returns sel \<Rightarrow>
                 (case DeleteAllOfAndAnyExists (\<lambda>_ m. m) (mm_nic L) m (ml_MetalnetNamespace L) sel [] of
                    (m', None) \<Rightarrow> Returns ((a, m'), None)
                  | (m', Some (Inl err)) \<Rightarrow>
                      Returns ((a, m'), Some (Inl (Wrapped ''error deleting matching metalnet network interfaces'' err)))
                  | (m', Some (Inr exists)) \<Rightarrow> Returns ((a, m'), Some (Inr exists))))
      | Inr nic \<Rightarrow> nic_reconcileExists L a m nic)"

definition isPartitionNetworkInterface :: "('a, 'm) metalnetlet \<Rightarrow> NetworkInterface \<Rightarrow> bool" where
  "isPartitionNetworkInterface L nic = isOk (ParseNodeName (ml_PartitionName L) (nics_NodeRef (nic_Spec nic)))"

definition nic_enqueueByNATTable :: "('a, 'm) metalnetlet \<Rightarrow> NATTable \<Rightarrow> ObjectKey list" where
  "nic_enqueueByNATTable L natTable =
     concat (map (\<lambda>natIP. concat (map (\<lambda>s.
       (case nsec_TargetRef s of
          None \<Rightarrow> []
        | Some ref \<Rightarrow>
            if \<not> isOk (ParseNodeName (ml_PartitionName L) (ntref_NodeRef ref)) then []
            else [\<lparr>key_Namespace = om_Namespace (nt_Meta natTable), key_Name = ntref_Name ref\<rparr>]))
       (nat_Sections natIP))) (nt_IPs natTable))"

definition reconcileRequestsByLoadBalancerRouting :: "('a, 'm) metalnetlet \<Rightarrow> 'a \<Rightarrow> 'm \<Rightarrow> LoadBalancerRouting \<Rightarrow> ObjectKey list" where
  "reconcileRequestsByLoadBalancerRouting L a m lbRouting =
     (case k_list (ml_nic L) a (om_Namespace (lbr_Meta lbRouting)) of
        Inl _ \<Rightarrow> []
      | Inr nics \<Rightarrow>
          (case k_list (mm_node L) m [] of
             Inl _ \<Rightarrow> []
           | Inr _ \<Rightarrow>
               map (\<lambda>nic. meta_key (nic_Meta nic))
                 (filter (\<lambda>nic. isPartitionNetworkInterface L nic \<and>
                    list_ex (\<lambda>ip. ip \<in> lbd_IP ` set (lbr_Destinations lbRouting)) (nics_IPs (nic_Spec nic))) nics)))"

definition nic_enqueueByLoadBalancer :: "('a, 'm) metalnetlet \<Rightarrow> 'a \<Rightarrow> 'm \<Rightarrow> LoadBalancer \<Rightarrow> ObjectKey list" where
  "nic_enqueueByLoadBalancer L a m loadBalancer =
     (case k_get (ml_lbrouting L) a (meta_key (lb_Meta loadBalancer)) of
        Inl _ \<Rightarrow> []
      | Inr lbRouting \<Rightarrow> reconcileRequestsByLoadBalancerRouting L a m lbRouting)"

definition nic_enqueueByMetalnetNode :: "('a, 'm) metalnetlet \<Rightarrow> 'a \<Rightarrow> ObjectMeta \<Rightarrow> ObjectKey list" where
  "nic_enqueueByMetalnetNode L a metalnetNode =
     (case k_list (ml_nic L) a [] of
        Inl _ \<Rightarrow> []
      | Inr nics \<Rightarrow>
          map (\<lambda>nic. meta_key (nic_Meta nic))
            (filter (\<lambda>nic. nics_NodeRef (nic_Spec nic) = PartitionNodeName (ml_PartitionName L) (om_Name metalnetNode)) nics))"

section \<open>Finalizers of network interfaces\<close>

locale metalnet_interfaces = named_netlet "ml_nic L" objs nic_Meta "mm_nic L" tobjs mnic_Meta
  for L :: "('a, 'm) metalnetlet" and objs :: "'a \<Rightarrow> ObjectKey \<rightharpoonup> NetworkInterface"
    and tobjs :: "'m \<Rightarrow> ObjectKey \<rightharpoonup> metalnet_NetworkInterface"
begin

abbreviation nic_guarded :: "'a \<Rightarrow> 'm \<Rightarrow> bool" where
  "nic_guarded a m \<equiv> guarded nic_Meta (PartitionFinalizer (ml_PartitionName L)) mnic_Meta
     (in_namespace (ml_MetalnetNamespace L)) named_by (objs a) (tobjs m)"

lemma delete_guarded:
  assumes "nic_guarded a m" "objs a (meta_key (nic_Meta x)) = Some x" "nic_delete L a m x = Returns ((a', m'), r)"
  shows "nic_guarded a' m'"
  using assms(3) deleted_guarded [OF assms(1)] finalized_guarded [OF assms(1,2)] assms(1)
  by (auto simp: nic_delete_def metalnet_key_def split: if_splits option.splits prod.splits)

lemma cleanup_guarded:
  assumes "nic_guarded a m" "objs a (meta_key (nic_Meta x)) = Some x" "nic_cleanup L a m x = Returns ((a', m'), r)"
  shows "nic_guarded a' m'"
  using assms(3) deleted_guarded [OF assms(1)] finalized_guarded [OF assms(1,2)] assms(1)
  by (auto simp: nic_cleanup_def deleteMatchingMetalnetNetworkInterface_def metalnet_key_def
      split: if_splits option.splits prod.splits sum.splits bool.splits)

lemma applyMetalnetNic_cases:
  assumes "applyMetalnetNic L a m x n = Returns (m', r)"
  obtains "m' = m" | y q where "m_apply (mm_nic L) m y = (m', q)"
    "meta_key (mnic_Meta y) = \<lparr>key_Namespace = ml_MetalnetNamespace L, key_Name = om_UID (nic_Meta x)\<rparr>"
proof -
  have "m' = m \<or> (\<exists>nn lbls ts d q. m_apply (mm_nic L) m (new_metalnet_nic L x nn lbls n ts d) = (m', q))"
    using assms by (auto simp: applyMetalnetNic_def split: sum.splits if_splits outcome.splits prod.splits)
  then show ?thesis using that by (auto simp: new_metalnet_nic_def meta_key_def)
qed

lemma updateStatus_guarded:
  assumes "nic_updateStatus L a x y = Returns (a', r)" "nic_guarded a m"
  shows "nic_guarded a' m"
proof -
  obtain z q where "k_statusPatch (ml_nic L) a z x = (a', q)" "nic_Meta z = nic_Meta x"
    using assms(1) by (auto simp: nic_updateStatus_def Let_def split: outcome.splits prod.splits sum.splits)
  then show ?thesis by (rule src.guarded_status [OF assms(2)])
qed

lemma sync_guarded:
  assumes "nic_guarded a m" "objs a (meta_key (nic_Meta x)) = Some x"
    and "f_ensure (ml_nic L) a x (PartitionFinalizer (ml_PartitionName L)) = (a1, Inr False)"
    and "nic_sync L a1 m x n = Returns ((a', m'), r)"
  shows "nic_guarded a' m'"
proof -
  obtain q where q: "applyMetalnetNic L a1 m x n = Returns (m', q)"
    using assms(4) by (auto simp: nic_sync_def split: outcome.splits sum.splits option.splits prod.splits)
  have "nic_guarded a1 m'"
  proof (rule applyMetalnetNic_cases [OF q])
    show "m' = m \<Longrightarrow> nic_guarded a1 m'" using src.guarded_ensure [OF assms(1,3,2)] by simp
  qed (rule applied_guarded [OF assms(1-3)])
  with assms(4) q show ?thesis
    by (auto simp: nic_sync_def split: outcome.splits sum.splits option.splits prod.splits dest: updateStatus_guarded)
qed

lemma reconcile_guarded:
  assumes "nic_guarded a m" "objs a (meta_key (nic_Meta x)) = Some x" "nic_reconcile L a m x = Returns ((a', m'), r)"
  shows "nic_guarded a' m'"
proof -
  let ?f = "PartitionFinalizer (ml_PartitionName L)"
  obtain a1 e where ens: "f_ensure (ml_nic L) a x ?f = (a1, e)" by fastforce
  show ?thesis
    using assms(3) ens assms(1) src.guarded_ensure [OF assms(1) ens assms(2)]
      cleanup_guarded [OF assms(1,2)] sync_guarded [OF assms(1,2)]
    by (auto simp: nic_reconcile_def split: option.splits sum.splits if_splits bool.splits)
qed

lemma Reconcile_guarded:
  assumes "nic_Reconcile L a m req = Returns ((a', m'), r)" "nic_guarded a m"
  shows "nic_guarded a' m'"
proof (cases "k_get (ml_nic L) a req")
  case (Inl err)
  with assms have "a' = a" "m' = m \<or> (\<exists>sel q. m_deleteAllOf (mm_nic L) m (ml_MetalnetNamespace L) sel = (m', q))"
    by (auto simp: nic_Reconcile_def DeleteAllOfAndAnyExists_def
        split: if_splits outcome.splits prod.splits option.splits sum.splits)
  then show ?thesis using guarded_targets [OF assms(2)] tgt.deleteAllOf_only assms(2) by blast
next
  case (Inr x)
  then have "objs a (meta_key (nic_Meta x)) = Some x" using src.get_ok by blast
  with Inr assms show ?thesis
    by (auto simp: nic_Reconcile_def nic_reconcileExists_def split: if_splits intro: reconcile_guarded delete_guarded)
qed

end

section \<open>Shares of NAT addresses\<close>

text \<open>
  Tables as the NAT gateway controller writes them, and addresses that belong to one gateway only.
\<close>

definition nat_tables_sound :: "('a, 'm) metalnetlet \<Rightarrow> 'a \<Rightarrow> bool" where
  "nat_tables_sound L a \<longleftrightarrow>
     (\<forall>k t. k_get (ml_table L) a k = Inr t \<longrightarrow> (\<exists>p ips. 0 < p \<and> table_ok p ips t)) \<and>
     (\<forall>k k' t t'. k_get (ml_table L) a k = Inr t \<and> k_get (ml_table L) a k' = Inr t' \<and> k \<noteq> k' \<longrightarrow>
        nat_IP ` set (nt_IPs t) \<inter> nat_IP ` set (nt_IPs t') = {})"

lemma find_section_Some:
  assumes "find_section uid t = Some (ip, sec)"
  shows "\<exists>n\<in>set (nt_IPs t). nat_IP n = ip \<and> sec \<in> set (nat_Sections n) \<and>
    (\<exists>ref. nsec_TargetRef sec = Some ref \<and> ntref_UID ref = uid)"
proof -
  have "find P xs = Some x \<Longrightarrow> x \<in> set xs \<and> P x" for P :: "net_IP \<times> NATIPSection \<Rightarrow> bool" and xs x
    by (auto simp: find_Some_iff)
  from this [OF assms [unfolded find_section_def]] show ?thesis by (auto split: option.splits)
qed

lemma getNATIPs_Some:
  assumes "getNATIPsForNetworkInterfaceNAT L a nic nn = Inr (Some d)"
  shows "\<exists>k t ip sec. k_get (ml_table L) a k = Inr t \<and> find_section (om_UID (nic_Meta nic)) t = Some (ip, sec) \<and>
    d = \<lparr>nd_IP = Some ip, nd_Port = nsec_Port sec, nd_EndPort = nsec_EndPort sec\<rparr>"
  using assms by (auto simp: getNATIPsForNetworkInterfaceNAT_def Let_def split: sum.splits if_splits option.splits)

lemma nat_details_from:
  "nat_details L a nic res nats = Inr ds \<Longrightarrow> d \<in> set ds \<Longrightarrow>
   d \<in> set res \<or> (\<exists>nn\<in>set nats. getNATIPsForNetworkInterfaceNAT L a nic nn = Inr (Some d))"
  by (induction nats arbitrary: res) (fastforce split: sum.splits option.splits)+

lemma workaround_NAT:
  assumes "\<And>d. d \<in> set ds \<Longrightarrow> nd_IP d \<noteq> None"
  shows "\<exists>x. workaroundMetalnetNoIPv6NATDetailsToNATDetailsPointer ds = Returns x \<and>
    pred_option (\<lambda>d. d \<in> set ds \<and> Is4 (the (nd_IP d))) x"
  using assms
proof (induction ds)
  case (Cons d ds)
  then obtain x where "workaroundMetalnetNoIPv6NATDetailsToNATDetailsPointer ds = Returns x"
    "pred_option (\<lambda>d. d \<in> set ds \<and> Is4 (the (nd_IP d))) x" by auto
  moreover obtain ip where "nd_IP d = Some ip" using Cons.prems [of d] by auto
  ultimately show ?case by (cases x) auto
qed simp

text \<open>The port ranges of two interfaces at one address.\<close>

definition nat_exclusive :: "NATDetails \<Rightarrow> NATDetails \<Rightarrow> bool" where
  "nat_exclusive d1 d2 \<longleftrightarrow> {nd_Port d1..nd_EndPort d1} \<subseteq> {1024..65535} \<and>
     (nd_IP d1 = nd_IP d2 \<longrightarrow> {nd_Port d1..nd_EndPort d1} \<inter> {nd_Port d2..nd_EndPort d2} = {})"

lemma nat_details_range:
  assumes "nat_tables_sound L a" "getNATIPsForNetworkInterfaceNAT L a nic nn = Inr (Some d)"
  shows "{nd_Port d..nd_EndPort d} \<subseteq> {1024..65535}"
proof -
  obtain k t ip sec where 1: "k_get (ml_table L) a k = Inr t" "find_section (om_UID (nic_Meta nic)) t = Some (ip, sec)"
    "d = \<lparr>nd_IP = Some ip, nd_Port = nsec_Port sec, nd_EndPort = nsec_EndPort sec\<rparr>"
    using getNATIPs_Some [OF assms(2)] by blast
  obtain n where n: "n \<in> set (nt_IPs t)" "sec \<in> set (nat_Sections n)" using find_section_Some [OF 1(2)] by blast
  obtain p ips where "0 < p" "table_ok p ips t" using assms(1) 1(1) unfolding nat_tables_sound_def by blast
  from table_ok_ports(1) [OF this(2,1) n(1)] n(2) have "{nsec_Port sec..nsec_EndPort sec} \<subseteq> {1024..65535}" by blast
  then show ?thesis unfolding 1(3) by simp
qed

lemma nat_details_exclusive:
  assumes "nat_tables_sound L a" "om_UID (nic_Meta nic1) \<noteq> om_UID (nic_Meta nic2)"
    and "getNATIPsForNetworkInterfaceNAT L a nic1 nn1 = Inr (Some d1)"
    and "getNATIPsForNetworkInterfaceNAT L a nic2 nn2 = Inr (Some d2)"
  shows "nat_exclusive d1 d2"
proof -
  obtain k1 t1 ip1 s1 where 1: "k_get (ml_table L) a k1 = Inr t1" "find_section (om_UID (nic_Meta nic1)) t1 = Some (ip1, s1)"
    "d1 = \<lparr>nd_IP = Some ip1, nd_Port = nsec_Port s1, nd_EndPort = nsec_EndPort s1\<rparr>"
    using getNATIPs_Some [OF assms(3)] by blast
  obtain k2 t2 ip2 s2 where 2: "k_get (ml_table L) a k2 = Inr t2" "find_section (om_UID (nic_Meta nic2)) t2 = Some (ip2, s2)"
    "d2 = \<lparr>nd_IP = Some ip2, nd_Port = nsec_Port s2, nd_EndPort = nsec_EndPort s2\<rparr>"
    using getNATIPs_Some [OF assms(4)] by blast
  obtain n1 r1 where n1: "n1 \<in> set (nt_IPs t1)" "nat_IP n1 = ip1" "s1 \<in> set (nat_Sections n1)"
    "nsec_TargetRef s1 = Some r1" "ntref_UID r1 = om_UID (nic_Meta nic1)" using find_section_Some [OF 1(2)] by blast
  obtain n2 r2 where n2: "n2 \<in> set (nt_IPs t2)" "nat_IP n2 = ip2" "s2 \<in> set (nat_Sections n2)"
    "nsec_TargetRef s2 = Some r2" "ntref_UID r2 = om_UID (nic_Meta nic2)" using find_section_Some [OF 2(2)] by blast
  obtain p ips where ok: "0 < p" "table_ok p ips t1" using assms(1) 1(1) unfolding nat_tables_sound_def by blast
  have "{nsec_Port s1..nsec_EndPort s1} \<inter> {nsec_Port s2..nsec_EndPort s2} = {}" if "ip1 = ip2"
  proof -
    have "k1 = k2" using assms(1) 1(1) 2(1) n1(1,2) n2(1,2) that unfolding nat_tables_sound_def by blast
    then have "t1 = t2" using 1(1) 2(1) by simp
    moreover have "inj_on nat_IP (set (nt_IPs t1))" using ok(2) by (simp add: table_ok_def distinct_map)
    ultimately have "n1 = n2" using n1(1,2) n2(1,2) that by (auto dest: inj_onD)
    moreover have "s1 \<noteq> s2" using n1(4,5) n2(4,5) assms(2) by auto
    ultimately show ?thesis using table_ok_ports(2) [OF ok(2,1) n1(1)] n1(3) n2(3) by blast
  qed
  with nat_details_range [OF assms(1,3)] show ?thesis unfolding nat_exclusive_def 1(3) 2(3) by simp
qed

section \<open>Load balancer targets\<close>

text \<open>The addresses of the load balancers with a destination among the addresses of the interface.\<close>

definition target_ips :: "('a, 'm) metalnetlet \<Rightarrow> 'a \<Rightarrow> NetworkInterface \<Rightarrow> LoadBalancerRouting list \<Rightarrow> net_IP set" where
  "target_ips L a nic rs = (\<Union>r\<in>{r \<in> set rs. lbd_IP ` set (lbr_Destinations r) \<inter> set (nics_IPs (nic_Spec nic)) \<noteq> {}}.
     (case k_get (ml_lb L) a (meta_key (lbr_Meta r)) of Inl _ \<Rightarrow> {} | Inr lb \<Rightarrow> set (GetLoadBalancerIPs lb)))"

lemma has_destination:
  "list_ex (\<lambda>dst. lbd_IP dst \<in> ips) ds \<longleftrightarrow> lbd_IP ` set ds \<inter> ips \<noteq> {}"
  by (auto simp: list_ex_iff)

lemma target_ips_Cons:
  "target_ips L a nic (r # rs) = target_ips L a nic rs \<union>
     (if list_ex (\<lambda>dst. lbd_IP dst \<in> set (nics_IPs (nic_Spec nic))) (lbr_Destinations r)
      then (case k_get (ml_lb L) a (meta_key (lbr_Meta r)) of Inl _ \<Rightarrow> {} | Inr lb \<Rightarrow> set (GetLoadBalancerIPs lb)) else {})"
proof -
  have "{x \<in> set (r # rs). P x} = {x \<in> set rs. P x} \<union> (if P r then {r} else {})" for P by auto
  then show ?thesis unfolding target_ips_def has_destination by (simp only: UN_Un) auto
qed

lemma lb_targets_set:
  "lb_targets L a nic acc rs = Inr ips \<Longrightarrow> set ips = set acc \<union> target_ips L a nic rs"
proof (induction rs arbitrary: acc)
  case Nil
  then show ?case by (simp add: target_ips_def)
next
  case (Cons r rs)
  then show ?case
    by (cases "k_get (ml_lb L) a (meta_key (lbr_Meta r))")
      (auto simp: target_ips_Cons Let_def split: if_splits)
qed

section \<open>An example\<close>

lemma mem_interfaces:
  "metalnet_interfaces mem_metalnetlet (\<lambda>a. map_of (aw_nics a)) (\<lambda>m. keyed_view mnic_Meta (mw_nics m))"
  unfolding metalnet_interfaces_def named_netlet_def mem_metalnetlet_def
  by (auto intro!: focus_fin_source mem_fin_source focus_target_target mem_target_target)

interpretation mem_ifs: metalnet_interfaces mem_metalnetlet "\<lambda>a. map_of (aw_nics a)" "\<lambda>m. keyed_view mnic_Meta (mw_nics m)"
  by (rule mem_interfaces)

text \<open>Two interfaces that share an address of a NAT gateway, the first also the target of a load balancer.\<close>

definition nat_nic :: "string \<Rightarrow> addr \<Rightarrow> NetworkInterface" where
  "nat_nic uid ip =
     \<lparr>nic_Meta = zero_meta\<lparr>om_Namespace := ''ns'', om_Name := uid, om_UID := uid, om_Finalizers := [PartitionFinalizer ''p1'']\<rparr>,
      nic_Spec = \<lparr>nics_NodeRef = ''p1.n1'', nics_NetworkRef = ''net'', nics_IPs = [ip], nics_Prefixes = [],
        nics_NATs = [\<lparr>nnat_IPFamily = IPv4Protocol, nnat_ClaimRef = \<lparr>nnref_Name = ''gw'', nnref_UID = ''g1''\<rparr>\<rparr>], nics_PublicIPs = []\<rparr>,
      nic_Status = \<lparr>nicst_State = [], nicst_PCIAddress = None, nicst_Prefixes = [], nicst_PublicIPs = [], nicst_NATIPs = []\<rparr>\<rparr>"

definition nat_section :: "string \<Rightarrow> addr \<Rightarrow> int \<Rightarrow> NATIPSection" where
  "nat_section uid ip port = \<lparr>nsec_IP = ip, nsec_Port = port, nsec_EndPort = port + 63,
     nsec_TargetRef = Some \<lparr>ntref_UID = uid, ntref_Name = uid, ntref_NodeRef = ''p1.n1''\<rparr>\<rparr>"

definition nat_table :: NATTable where
  "nat_table = \<lparr>nt_Meta = zero_meta\<lparr>om_Namespace := ''ns'', om_Name := ''gw''\<rparr>,
     nt_IPs = [\<lparr>nat_IP = V4 10, nat_Sections = [nat_section ''n1'' (V4 1) 1024, nat_section ''n2'' (V4 2) 1088]\<rparr>]\<rparr>"

definition nat_apinet :: apinet_world where
  "nat_apinet = example_apinet
     \<lparr>aw_nics := map (\<lambda>x. (meta_key (nic_Meta x), x)) [nat_nic ''n1'' (V4 1), nat_nic ''n2'' (V4 2)],
      aw_gws := [(meta_key (nt_Meta nat_table), \<lparr>ng_Meta = zero_meta\<lparr>om_Namespace := ''ns'', om_Name := ''gw'', om_UID := ''g1''\<rparr>,
        ng_Spec = \<lparr>ngs_IPFamily = IPv4Protocol, ngs_NetworkRef = ''net'', ngs_IPs = [], ngs_PortsPerNetworkInterface = 64\<rparr>,
        ng_Status = \<lparr>ngst_UsedNATIPs = 0, ngst_RequestedNATIPs = 0\<rparr>\<rparr>)],
      aw_tables := [(meta_key (nt_Meta nat_table), nat_table)],
      aw_lbs := [(\<lparr>key_Namespace = ''ns'', key_Name = ''lb''\<rparr>, \<lparr>lb_Meta = zero_meta\<lparr>om_Namespace := ''ns'', om_Name := ''lb''\<rparr>,
        lb_Spec = \<lparr>lbs_Type = LoadBalancerTypePublic, lbs_NetworkRef = ''net'',
          lbs_IPs = [\<lparr>lbip_Name = ''b'', lbip_IPFamily = IPv4Protocol, lbip_IP = V4 8\<rparr>, \<lparr>lbip_Name = ''a'', lbip_IPFamily = IPv4Protocol, lbip_IP = V4 7\<rparr>],
          lbs_Ports = [], lbs_Selector = None, lbs_Template = \<lparr>it_Meta = zero_meta, it_Spec = inst_Spec example_instance\<rparr>\<rparr>,
        lb_Status = \<lparr>lbst_CollisionCount = None\<rparr>\<rparr>)],
      aw_lbroutings := [(\<lparr>key_Namespace = ''ns'', key_Name = ''lb''\<rparr>,
        \<lparr>lbr_Meta = zero_meta\<lparr>om_Namespace := ''ns'', om_Name := ''lb''\<rparr>, lbr_Destinations = [\<lparr>lbd_IP = V4 1, lbd_TargetRef = None\<rparr>]\<rparr>)]\<rparr>"

definition node_metalnet :: metalnet_world where
  "node_metalnet = empty_metalnet\<lparr>mw_nodes := [(cluster_key ''n1'', zero_meta\<lparr>om_Name := ''n1''\<rparr>)]\<rparr>"

lemma nat_table_ok: "table_ok 64 {V4 10} nat_table"
  by (simp add: table_ok_def nat_table_def nat_section_def sec_ok_def sec_slot_def port_consts)

lemma nat_apinet_sound: "nat_tables_sound mem_metalnetlet nat_apinet"
proof -
  have "k_get (ml_table mem_metalnetlet) nat_apinet k = Inr t \<longleftrightarrow> k = meta_key (nt_Meta nat_table) \<and> t = nat_table" for k t
    by (auto simp: mem_metalnetlet_def kclient.truncate_def focus_fin_def mem_fin_def Let_def nat_apinet_def split: if_splits)
  then show ?thesis using nat_table_ok unfolding nat_tables_sound_def by (metis zero_less_numeral)
qed

section \<open>Properties\<close>

text \<open>
  C11. The share of a NAT address that metalnet is told for an interface, when there is one, is an IPv4 address
  with a port range within 1024..65535, whether or not other interfaces have shares; and it does not overlap with
  the share that metalnet is told for any interface with another UID. Telling metalnet does not panic. The tables
  are assumed to be as the NAT gateway controller writes them, and every address to belong to one table.
\<close>

theorem metalnet_nat_exclusive:
  assumes "nat_tables_sound L a" and "getNATDetailsForNetworkInterface L a nic1 = Inr ds1"
  shows "\<exists>x1. workaroundMetalnetNoIPv6NATDetailsToNATDetailsPointer ds1 = Returns x1 \<and>
    pred_option (\<lambda>d1. Is4 (the (nd_IP d1)) \<and> {nd_Port d1..nd_EndPort d1} \<subseteq> {1024..65535}) x1 \<and>
    (\<forall>nic2 ds2. om_UID (nic_Meta nic1) \<noteq> om_UID (nic_Meta nic2) \<and> getNATDetailsForNetworkInterface L a nic2 = Inr ds2 \<longrightarrow>
       (\<exists>x2. workaroundMetalnetNoIPv6NATDetailsToNATDetailsPointer ds2 = Returns x2 \<and>
          pred_option (\<lambda>d1. pred_option (nat_exclusive d1) x2) x1))"
proof -
  have src: "\<exists>nn. getNATIPsForNetworkInterfaceNAT L a nic nn = Inr (Some d)"
    if "getNATDetailsForNetworkInterface L a nic = Inr ds" "d \<in> set ds" for nic ds d
    using nat_details_from [of L a nic "[]"] that by (fastforce simp: getNATDetailsForNetworkInterface_def)
  have told: "\<exists>x. workaroundMetalnetNoIPv6NATDetailsToNATDetailsPointer ds = Returns x \<and>
      pred_option (\<lambda>d. d \<in> set ds \<and> Is4 (the (nd_IP d))) x"
    if "getNATDetailsForNetworkInterface L a nic = Inr ds" for nic ds
    using src [OF that] getNATIPs_Some by (intro workaround_NAT) fastforce
  obtain x1 where x1: "workaroundMetalnetNoIPv6NATDetailsToNATDetailsPointer ds1 = Returns x1"
      "pred_option (\<lambda>d. d \<in> set ds1 \<and> Is4 (the (nd_IP d))) x1"
    using told [OF assms(2)] by blast
  have range: "pred_option (\<lambda>d1. Is4 (the (nd_IP d1)) \<and> {nd_Port d1..nd_EndPort d1} \<subseteq> {1024..65535}) x1"
    using x1(2) src [OF assms(2)] nat_details_range [OF assms(1)] by (cases x1) (simp, simp, blast)
  have "\<exists>x2. workaroundMetalnetNoIPv6NATDetailsToNATDetailsPointer ds2 = Returns x2 \<and>
      pred_option (\<lambda>d1. pred_option (nat_exclusive d1) x2) x1"
    if uid: "om_UID (nic_Meta nic1) \<noteq> om_UID (nic_Meta nic2)" and ds2: "getNATDetailsForNetworkInterface L a nic2 = Inr ds2"
    for nic2 ds2
  proof -
    obtain x2 where x2: "workaroundMetalnetNoIPv6NATDetailsToNATDetailsPointer ds2 = Returns x2"
        "pred_option (\<lambda>d. d \<in> set ds2 \<and> Is4 (the (nd_IP d))) x2"
      using told [OF ds2] by blast
    have "nat_exclusive d1 d2" if "d1 \<in> set ds1" "d2 \<in> set ds2" for d1 d2
      using src [OF assms(2) that(1)] src [OF ds2 that(2)] nat_details_exclusive [OF assms(1) uid] by blast
    with x1(2) x2 show ?thesis by (cases x1; cases x2) auto
  qed
  with x1(1) range show ?thesis by blast
qed

theorem metalnet_nat_exclusive_witness:
  "\<exists>ds1 ds2 d1 d2. getNATDetailsForNetworkInterface mem_metalnetlet nat_apinet (nat_nic ''n1'' (V4 1)) = Inr ds1 \<and>
     getNATDetailsForNetworkInterface mem_metalnetlet nat_apinet (nat_nic ''n2'' (V4 2)) = Inr ds2 \<and>
     workaroundMetalnetNoIPv6NATDetailsToNATDetailsPointer ds1 = Returns (Some d1) \<and>
     workaroundMetalnetNoIPv6NATDetailsToNATDetailsPointer ds2 = Returns (Some d2) \<and>
     nd_IP d1 = Some (V4 10) \<and> nd_IP d2 = Some (V4 10) \<and>
     {nd_Port d1..nd_EndPort d1} \<subseteq> {1024..65535} \<and> nat_exclusive d1 d2"
proof -
  let ?d1 = "\<lparr>nd_IP = Some (V4 10), nd_Port = 1024, nd_EndPort = 1087\<rparr>"
  let ?d2 = "\<lparr>nd_IP = Some (V4 10), nd_Port = 1088, nd_EndPort = 1151\<rparr>"
  have d: "getNATDetailsForNetworkInterface mem_metalnetlet nat_apinet (nat_nic ''n1'' (V4 1)) = Inr [?d1]"
    "getNATDetailsForNetworkInterface mem_metalnetlet nat_apinet (nat_nic ''n2'' (V4 2)) = Inr [?d2]"
    by code_simp+
  have w: "workaroundMetalnetNoIPv6NATDetailsToNATDetailsPointer [?d1] = Returns (Some ?d1)"
    "workaroundMetalnetNoIPv6NATDetailsToNATDetailsPointer [?d2] = Returns (Some ?d2)"
    by simp_all
  have uid: "om_UID (nic_Meta (nat_nic ''n1'' (V4 1))) \<noteq> om_UID (nic_Meta (nat_nic ''n2'' (V4 2)))"
    by (simp add: nat_nic_def)
  from metalnet_nat_exclusive [OF nat_apinet_sound d(1)] uid d(2) w
  have "{nd_Port ?d1..nd_EndPort ?d1} \<subseteq> {1024..65535}" "nat_exclusive ?d1 ?d2" by fastforce+
  with d w show ?thesis by (intro exI conjI) (assumption | simp)+
qed

text \<open>
  C35. The load balancer targets that metalnet is told for an interface are the addresses of exactly the
  existing load balancers in its namespace whose routing has a destination among the addresses of the
  interface, each once and in ascending order.
\<close>

theorem metalnet_targets_exact:
  assumes "k_list (ml_lbrouting L) a (om_Namespace (nic_Meta nic)) = Inr rs"
    and "getLoadBalancerTargetsForNetworkInterface L a nic = Inr ips"
  shows "sorted ips \<and> distinct ips \<and> set ips = target_ips L a nic rs"
proof -
  obtain xs where "lb_targets L a nic [] rs = Inr xs" "ips = sort (remdups xs)"
    using assms by (auto simp: getLoadBalancerTargetsForNetworkInterface_def split: sum.splits)
  then show ?thesis using lb_targets_set [of L a nic "[]" rs xs] by simp
qed

theorem metalnet_targets_exact_witness:
  "\<exists>rs. k_list (ml_lbrouting mem_metalnetlet) nat_apinet ''ns'' = Inr rs \<and>
     {V4 7, V4 8} = target_ips mem_metalnetlet nat_apinet (nat_nic ''n1'' (V4 1)) rs"
proof -
  obtain rs where rs: "k_list (ml_lbrouting mem_metalnetlet) nat_apinet (om_Namespace (nic_Meta (nat_nic ''n1'' (V4 1)))) = Inr rs"
    by (simp add: mem_metalnetlet_def kclient.truncate_def focus_fin_def mem_fin_def Let_def)
  have "getLoadBalancerTargetsForNetworkInterface mem_metalnetlet nat_apinet (nat_nic ''n1'' (V4 1)) = Inr [V4 7, V4 8]"
    by code_simp
  from metalnet_targets_exact [OF rs this] rs show ?thesis by (auto simp: nat_nic_def)
qed

text \<open>
  C12. Network interfaces are never leaked to metalnet: along every run of the network interface controller
  of a partition, interleaved with other clients of both clusters, each network interface in the metalnet
  namespace is named by the UID of a network interface of this API that exists and carries the
  finalizer of the partition, provided that this held at the start. The other clients of this API may do
  anything to network interfaces without the finalizer, but do not take it from others or make those vanish or
  change identity; those of metalnet may delete network interfaces and change them except for their labels, but not create any.
\<close>

theorem metalnet_nics_guarded:
  assumes "metalnet_interfaces L objs tobjs"
    and "guarded nic_Meta (PartitionFinalizer (ml_PartitionName L)) mnic_Meta
      (in_namespace (ml_MetalnetNamespace L)) named_by (objs a0) (tobjs m0)"
    and "netlet_run (nic_Reconcile L)
      (\<lambda>a a'. keeps_finalized nic_Meta (PartitionFinalizer (ml_PartitionName L)) (objs a) (objs a'))
      (\<lambda>m m'. only_deletes mnic_Meta (tobjs m) (tobjs m')) (a0, m0) (a, m)"
  shows "guarded nic_Meta (PartitionFinalizer (ml_PartitionName L)) mnic_Meta
      (in_namespace (ml_MetalnetNamespace L)) named_by (objs a) (tobjs m)"
  using guarded_run [OF assms(3)] assms(2) metalnet_interfaces.Reconcile_guarded [OF assms(1)] by simp

theorem metalnet_nics_guarded_witness:
  "\<exists>a m. nic_Reconcile mem_metalnetlet nat_apinet node_metalnet (meta_key (nic_Meta (nat_nic ''n1'' (V4 1)))) = Returns ((a, m), Some (Inr False)) \<and>
     guarded nic_Meta (PartitionFinalizer (ml_PartitionName mem_metalnetlet)) mnic_Meta
      (in_namespace (ml_MetalnetNamespace mem_metalnetlet)) named_by (map_of (aw_nics a)) (keyed_view mnic_Meta (mw_nics m))"
proof -
  obtain a m where run: "nic_Reconcile mem_metalnetlet nat_apinet node_metalnet (meta_key (nic_Meta (nat_nic ''n1'' (V4 1)))) =
      Returns ((a, m), Some (Inr False))"
    by (rule_tac that) code_simp
  moreover have "guarded nic_Meta (PartitionFinalizer (ml_PartitionName mem_metalnetlet)) mnic_Meta
      (in_namespace (ml_MetalnetNamespace mem_metalnetlet)) named_by (map_of (aw_nics a)) (keyed_view mnic_Meta (mw_nics m))"
    by (rule metalnet_nics_guarded [OF mem_interfaces, of nat_apinet node_metalnet],
        simp add: guarded_def node_metalnet_def empty_metalnet_def keyed_view_def, rule run_handler, rule run_start, rule run)
  ultimately show ?thesis by (intro exI conjI)
qed

end
