(* ===== verification/Apinetlet.thy ===== *)
theory Apinetlet
  imports Netlet
begin

text \<open>
  The apinetlet, part one: \<open>apinetlet/provider/provider.go\<close>, \<open>apinetlet/controllers/conversion.go\<close>,
  \<open>helper.go\<close>, \<open>network_controller.go\<close>, \<open>virtualip_controller.go\<close> and \<open>natgateway_controller.go\<close>.
  The types of onmetal-api live in another repository; the records below have the fields this
  netlet reads and writes, and the values of its constants, the names it derives and its methods
  on addresses are parameters. An object that is applied has the zero value in the fields
  the configuration leaves out.
\<close>

section \<open>provider/provider.go\<close>

text \<open>\<open>strings.SplitN\<close> for a separator of one character and a positive number of parts.\<close>

fun SplitN :: "nat \<Rightarrow> char \<Rightarrow> string \<Rightarrow> string list" where
  "SplitN 0 c s = []"
| "SplitN (Suc 0) c s = [s]"
| "SplitN (Suc (Suc n)) c s =
     (if c \<in> set s
      then takeWhile (\<lambda>x. x \<noteq> c) s # SplitN (Suc n) c (tl (dropWhile (\<lambda>x. x \<noteq> c) s))
      else [s])"

definition apiNetPrefix :: string where
  "apiNetPrefix = ''onmetal-api-net://''"

text \<open>\<open>isSubdomain\<close> is \<open>validation.NameIsDNSSubdomain(name, false)\<close>, the list of what is wrong with a name.\<close>

definition ParseNetworkInterfaceID ::
  "(string \<Rightarrow> string list) \<Rightarrow> string \<Rightarrow> (string \<times> string \<times> string \<times> string) result" where
  "ParseNetworkInterfaceID isSubdomain i =
     (case SplitN 5 (CHR ''/'') (TrimPrefix i apiNetPrefix) of
        [namespace, name, node, uid] \<Rightarrow>
          if isSubdomain node \<noteq> [] then Inl (ErrMsg ''node is not a dns label'')
          else Inr (namespace, name, node, uid)
      | _ \<Rightarrow> Inl (ErrMsg ''invalid provider id''))"

definition GetNetworkInterfaceID :: "string \<Rightarrow> string \<Rightarrow> string \<Rightarrow> string \<Rightarrow> string" where
  "GetNetworkInterfaceID namespace name node uid =
     apiNetPrefix @ namespace @ ''/'' @ name @ ''/'' @ node @ ''/'' @ uid"

definition ParseNetworkID :: "string \<Rightarrow> (string \<times> string \<times> string \<times> string) result" where
  "ParseNetworkID s =
     (case SplitN 5 (CHR ''/'') (TrimPrefix s apiNetPrefix) of
        [namespace, name, i, uid] \<Rightarrow> Inr (namespace, name, i, uid)
      | _ \<Rightarrow> Inl (ErrMsg ''invalid provider id''))"

definition GetNetworkID :: "string \<Rightarrow> string \<Rightarrow> string \<Rightarrow> string \<Rightarrow> string" where
  "GetNetworkID namespace name i uid =
     apiNetPrefix @ namespace @ ''/'' @ name @ ''/'' @ i @ ''/'' @ uid"

section \<open>Objects of onmetal-api\<close>

record onmetal_Network =
  onet_Meta :: ObjectMeta
  onet_ProviderID :: string
  onet_State :: string

record onmetal_NATGateway =
  ogw_Meta :: ObjectMeta
  ogw_IPFamily :: IPFamily
  ogw_NetworkRef :: string
  ogw_PortsPerNetworkInterface :: "int option"
  ogw_StatusIPs :: "addr list"

record LocalUIDReference =
  lur_Name :: string
  lur_UID :: string

record onmetal_VirtualIP =
  ovip_Meta :: ObjectMeta
  ovip_IPFamily :: IPFamily
  ovip_TargetRef :: "LocalUIDReference option"
  ovip_StatusIP :: "addr option"

record IPSource =
  ips_Value :: "addr option"
  ips_Ephemeral :: bool

record onmetal_LoadBalancer =
  olb_Meta :: ObjectMeta
  olb_Type :: string
  olb_IPFamilies :: "IPFamily list"
  olb_IPs :: "IPSource list"
  olb_NetworkRef :: string
  olb_Ports :: "LoadBalancerPort list"
  olb_StatusIPs :: "addr list"

record onmetal_LoadBalancerDestination =
  old_IP :: addr
  old_TargetProviderID :: "string option"

record onmetal_LoadBalancerRouting =
  olbr_Meta :: ObjectMeta
  olbr_Destinations :: "onmetal_LoadBalancerDestination list"

record ipam_Prefix =
  opre_Meta :: ObjectMeta
  opre_IPFamily :: IPFamily
  opre_Prefix :: "prefix option"
  opre_Phase :: string

record PrefixSource =
  pres_Value :: "prefix option"
  pres_Ephemeral :: bool

record VirtualIPSource =
  vips_VirtualIPRef :: "string option"
  vips_Ephemeral :: bool

record onmetal_NetworkInterfaceStatus =
  onst_State :: string
  onst_LastStateTransitionTime :: "int option"
  onst_IPs :: "addr list"
  onst_Prefixes :: "prefix list"
  onst_VirtualIP :: "addr option"

record onmetal_NetworkInterface =
  onic_Meta :: ObjectMeta
  onic_ProviderID :: string
  onic_VirtualIP :: "VirtualIPSource option"
  onic_Prefixes :: "PrefixSource list"
  onic_Status :: onmetal_NetworkInterfaceStatus

record onmetal_values =
  ov_NetworkStatePending :: string
  ov_NetworkStateAvailable :: string
  ov_NICStatePending :: string
  ov_NICStateAvailable :: string
  ov_NICStateError :: string
  ov_LBPublic :: string
  ov_LBInternal :: string
  ov_PrefixPhaseAllocated :: string
  ov_DefaultPortsPerNetworkInterface :: int
  ov_LBIPPrefixName :: "string \<Rightarrow> nat \<Rightarrow> string"
  ov_NICPrefixName :: "string \<Rightarrow> nat \<Rightarrow> string"
  ov_NICVirtualIPName :: "string \<Rightarrow> VirtualIPSource \<Rightarrow> string"
  ov_IsValid :: "addr option \<Rightarrow> bool"
  ov_Family :: "addr \<Rightarrow> IPFamily"
  ov_String :: "addr \<Rightarrow> string"
  ov_PrefixIP :: "prefix option \<Rightarrow> addr outcome"

section \<open>The claim manager\<close>

text \<open>
  \<open>claimmanager\<close> belongs to onmetal-api: \<open>Claim\<close> asks the strategy of its client for the state of a
  claim, and adopts or releases the object. The object is passed by pointer, so that a
  strategy returns the object it has changed; a call may panic where the strategy does.
\<close>

datatype ClaimState = ClaimStateInvalid | ClaimStateFree | ClaimStateTaken | ClaimStateClaimed

record ('s, 'o) ClaimStrategy =
  cs_ClaimState :: "client_object \<Rightarrow> 'o \<Rightarrow> ClaimState outcome"
  cs_Adopt :: "'s \<Rightarrow> client_object \<Rightarrow> 'o \<Rightarrow> ('s \<times> 'o \<times> go_error option) outcome"
  cs_Release :: "'s \<Rightarrow> client_object \<Rightarrow> 'o \<Rightarrow> ('s \<times> 'o \<times> go_error option) outcome"

type_synonym ('s, 'o) claim_fun =
  "('s, 'o) ClaimStrategy \<Rightarrow> client_object \<Rightarrow> ('o \<Rightarrow> bool) \<Rightarrow> 's \<Rightarrow> 'o \<Rightarrow> ('s \<times> 'o \<times> bool result) outcome"

text \<open>
  The behaviour the theorems rely on: only free objects that match are adopted, only claimed
  objects that do not match are released, and they are released unless the claimer is being deleted; an object
  is reported as claimed if it matches, and was claimed before or has been adopted; a
  not-found error is ignored.
\<close>

locale claim_manager =
  fixes claim :: "('s, 'o) claim_fun"
  assumes claim_calls: "claim strat claimer sel s x = Returns (s', x', rc) \<Longrightarrow>
        (s' = s \<and> x' = x) \<or>
        (cs_ClaimState strat claimer x = Returns ClaimStateFree \<and> sel x \<and> (\<exists>e. cs_Adopt strat s claimer x = Returns (s', x', e))) \<or>
        (cs_ClaimState strat claimer x = Returns ClaimStateClaimed \<and> \<not> sel x \<and> (\<exists>e. cs_Release strat s claimer x = Returns (s', x', e)))"
    and claim_true: "claim strat claimer sel s x = Returns (s', x', Inr True) \<Longrightarrow> sel x \<and>
        (cs_ClaimState strat claimer x = Returns ClaimStateClaimed \<and> s' = s \<and> x' = x \<or>
         cs_ClaimState strat claimer x = Returns ClaimStateFree \<and> cs_Adopt strat s claimer x = Returns (s', x', None))"
    and claim_released: "claim strat claimer sel s x = Returns (s', x', Inr False) \<Longrightarrow>
        cs_ClaimState strat claimer x = Returns ClaimStateClaimed \<Longrightarrow> \<not> sel x \<Longrightarrow> om_DeletionTimestamp (co_Meta claimer) = None \<Longrightarrow>
        \<exists>e. cs_Release strat s claimer x = Returns (s', x', e) \<and> IgnoreNotFound e = None"

definition plain_claim :: "('s, 'o) claim_fun" where
  "plain_claim strat claimer sel s x =
     (let finish = (\<lambda>b (s', x', e). Returns (s', x', case e of None \<Rightarrow> Inr b | Some err \<Rightarrow> if IsNotFound err then Inr False else Inl err));
          deleted = om_DeletionTimestamp (co_Meta claimer) \<noteq> None in
      case cs_ClaimState strat claimer x of
        Panics \<Rightarrow> Panics
      | Returns st \<Rightarrow>
          if st = ClaimStateClaimed then
            if sel x then Returns (s, x, Inr True)
            else if deleted then Returns (s, x, Inr False)
            else (case cs_Release strat s claimer x of Panics \<Rightarrow> Panics | Returns p \<Rightarrow> finish False p)
          else if st = ClaimStateFree \<and> \<not> deleted \<and> sel x then
            (case cs_Adopt strat s claimer x of Panics \<Rightarrow> Panics | Returns p \<Rightarrow> finish True p)
          else Returns (s, x, Inr False))"

interpretation plain_claims: claim_manager plain_claim
  by unfold_locales
    (auto simp: plain_claim_def Let_def IgnoreNotFound_def split: outcome.splits if_splits prod.splits option.splits)

section \<open>The clusters and the configuration\<close>

text \<open>
  The state \<open>'s\<close> is the cluster of onmetal-api, \<open>'n\<close> the cluster of this API; \<open>p_patch\<close> is
  a strategic merge patch. \<open>an_setControllerReference\<close>, \<open>an_newControllerRef\<close> and \<open>an_isControlledBy\<close>
  are functions of the controller runtime and of apimachinery, \<open>an_setLabels\<close> and \<open>an_deleteLabels\<close>
  the functions \<open>SetLabels\<close> and \<open>DeleteLabels\<close> of \<open>controller-utils\<close> on the labels of an object; \<open>an_now\<close> is the
  clock.
\<close>

record ('n, 't) pclient = "('n, 't) mclient" +
  p_patch :: "'n \<Rightarrow> 't \<Rightarrow> 't \<Rightarrow> 'n \<times> 't result"

record ('s, 'n) apinetlet =
  ao_network :: "('s, onmetal_Network) fin_client"
  ao_gw :: "('s, onmetal_NATGateway) fin_client"
  ao_vip :: "('s, onmetal_VirtualIP) fin_client"
  ao_lb :: "('s, onmetal_LoadBalancer) fin_client"
  ao_nic :: "('s, onmetal_NetworkInterface) fin_client"
  ao_lbrouting :: "('s, onmetal_LoadBalancerRouting) kclient"
  ao_prefix :: "('s, ipam_Prefix) kclient"
  an_network :: "('n, Network) mclient"
  an_ip :: "('n, IP) mclient"
  an_gw :: "('n, NATGateway) mclient"
  an_autoscaler :: "('n, NATGatewayAutoscaler) mclient"
  an_lb :: "('n, LoadBalancer) mclient"
  an_lbrouting :: "('n, LoadBalancerRouting) mclient"
  an_nic :: "('n, NetworkInterface) pclient"
  an_claimVIP :: "('s, onmetal_VirtualIP) claim_fun"
  an_claimNIC :: "('n, NetworkInterface) claim_fun"
  an_scheme :: scheme_mapper
  an_values :: onmetal_values
  an_isSubdomain :: "string \<Rightarrow> string list"
  an_setControllerReference :: "ObjectMeta \<Rightarrow> ObjectMeta \<Rightarrow> ObjectMeta result"
  an_newControllerRef :: "ObjectMeta \<Rightarrow> GroupVersionKind \<Rightarrow> OwnerReference"
  an_isControlledBy :: "ObjectMeta \<Rightarrow> ObjectMeta \<Rightarrow> bool"
  an_setLabels :: "labels \<Rightarrow> labels \<Rightarrow> labels"
  an_deleteLabels :: "labels \<Rightarrow> string list \<Rightarrow> labels"
  an_now :: "'s \<Rightarrow> int"
  an_APINetNamespace :: string

text \<open>A handler takes the states of both clusters and returns the new ones and whether to requeue.\<close>

type_synonym ('s, 'n) anet_handled = "(('s \<times> 'n) \<times> bool result) outcome"

section \<open>conversion.go\<close>

definition ipToAPINetIP :: "addr \<Rightarrow> net_IP" where
  "ipToAPINetIP ip = ip"

definition loadBalancerTypeToAPINetLoadBalancerType :: "onmetal_values \<Rightarrow> string \<Rightarrow> LoadBalancerType result" where
  "loadBalancerTypeToAPINetLoadBalancerType V t =
     (if t = ov_LBPublic V then Inr LoadBalancerTypePublic
      else if t = ov_LBInternal V then Inr LoadBalancerTypeInternal
      else Inl (ErrMsg ''unknown load balancer type''))"

definition loadBalancerPortToAPINetLoadBalancerPortConfig :: "LoadBalancerPort \<Rightarrow> LoadBalancerPort" where
  "loadBalancerPortToAPINetLoadBalancerPortConfig port =
     \<lparr>lbport_Protocol = lbport_Protocol port, lbport_Port = lbport_Port port, lbport_EndPort = lbport_EndPort port\<rparr>"

definition loadBalancerPortsToAPINetLoadBalancerPortConfigs :: "LoadBalancerPort list \<Rightarrow> LoadBalancerPort list" where
  "loadBalancerPortsToAPINetLoadBalancerPortConfigs ports = map loadBalancerPortToAPINetLoadBalancerPortConfig ports"

definition apiNetIPToIP :: "net_IP \<Rightarrow> addr" where
  "apiNetIPToIP ip = ip"

definition apiNetIPsToIPs :: "net_IP list \<Rightarrow> addr list" where
  "apiNetIPsToIPs ips = map apiNetIPToIP ips"

definition apiNetIPPrefixToIPPrefix :: "net_IPPrefix \<Rightarrow> prefix" where
  "apiNetIPPrefixToIPPrefix p = p"

definition apiNetIPPrefixesToIPPrefixes :: "net_IPPrefix list \<Rightarrow> prefix list" where
  "apiNetIPPrefixesToIPPrefixes ps = map apiNetIPPrefixToIPPrefix ps"

definition apiNetNetworkInterfaceStateToNetworkInterfaceState :: "onmetal_values \<Rightarrow> NetworkInterfaceState \<Rightarrow> string" where
  "apiNetNetworkInterfaceStateToNetworkInterfaceState V st =
     (if st = NetworkInterfaceStatePending then ov_NICStatePending V
      else if st = NetworkInterfaceStateReady then ov_NICStateAvailable V
      else if st = NetworkInterfaceStateError then ov_NICStateError V
      else ov_NICStatePending V)"

section \<open>helper.go\<close>

definition getAPINetNetworkName :: "('s, 'n) apinetlet \<Rightarrow> 's \<Rightarrow> ObjectKey \<Rightarrow> string result" where
  "getAPINetNetworkName L s networkKey =
     (case k_get (ao_network L) s networkKey of
        Inl err \<Rightarrow> if \<not> IsNotFound err then Inl (Wrapped ''error getting network for nat gateway'' err) else Inr []
      | Inr network \<Rightarrow> Inr (om_UID (onet_Meta network)))"

definition isPrefixAllocated :: "onmetal_values \<Rightarrow> ipam_Prefix \<Rightarrow> bool" where
  "isPrefixAllocated V p \<longleftrightarrow> opre_Phase p = ov_PrefixPhaseAllocated V"

definition virtualIPClaimedPredicate :: "onmetal_VirtualIP \<Rightarrow> bool" where
  "virtualIPClaimedPredicate vip \<longleftrightarrow> ovip_TargetRef vip \<noteq> None"

definition virtualIPFreePredicate :: "onmetal_VirtualIP \<Rightarrow> bool" where
  "virtualIPFreePredicate vip \<longleftrightarrow> ovip_TargetRef vip = None"

text \<open>The key and the metadata of the object a source is translated to.\<close>

definition anet_key :: "('s, 'n) apinetlet \<Rightarrow> ObjectMeta \<Rightarrow> ObjectKey" where
  "anet_key L m = \<lparr>key_Namespace = an_APINetNamespace L, key_Name = om_UID m\<rparr>"

definition anet_meta :: "('s, 'n) apinetlet \<Rightarrow> ObjectMeta \<Rightarrow> labels \<Rightarrow> ObjectMeta" where
  "anet_meta L m lbls = zero_meta\<lparr>om_Namespace := an_APINetNamespace L, om_Name := om_UID m, om_Labels := lbls\<rparr>"

lemma anet_meta_key [simp]: "meta_key (anet_meta L m lbls) = anet_key L m"
  by (simp add: anet_meta_def anet_key_def meta_key_def)

definition onmetal_object :: "string \<Rightarrow> ObjectMeta \<Rightarrow> client_object" where
  "onmetal_object kind m = \<lparr>co_Type = kind, co_Meta = m\<rparr>"

section \<open>network_controller.go\<close>

definition networkFinalizer :: string where
  "networkFinalizer = ''apinet.api.onmetal.de/network''"

definition anet_deleteGone :: "('s, 'n) apinetlet \<Rightarrow> 's \<Rightarrow> 'n \<Rightarrow> ObjectKey \<Rightarrow> ('s, 'n) anet_handled" where
  "anet_deleteGone L s n networkKey =
     (case MatchingSourceKeyLabels apinetletSystem (an_scheme L) networkKey (onmetal_object ''Network'' zero_meta) of
        Panics \<Rightarrow> Panics
      | Returns sel \<Rightarrow>
          (case m_deleteAllOf (an_network L) n (an_APINetNamespace L) sel of
             (n', Some err) \<Rightarrow> Returns ((s, n'), Inl (Wrapped ''error deleting apinet networks'' err))
           | (n', None) \<Rightarrow> Returns ((s, n'), Inr False)))"

definition anet_delete :: "('s, 'n) apinetlet \<Rightarrow> 's \<Rightarrow> 'n \<Rightarrow> onmetal_Network \<Rightarrow> ('s, 'n) anet_handled" where
  "anet_delete L s n network =
     (if \<not> ContainsFinalizer (onet_Meta network) networkFinalizer then Returns ((s, n), Inr False)
      else
        (case m_delete (an_network L) n (anet_key L (onet_Meta network)) of
           (n', None) \<Rightarrow> Returns ((s, n'), Inr True)
         | (n', Some err) \<Rightarrow>
             if \<not> IsNotFound err then Returns ((s, n'), Inl (Wrapped ''error deleting target apinet network'' err))
             else
               (case f_remove (ao_network L) s network networkFinalizer of
                  (s', Some err) \<Rightarrow> Returns ((s', n'), Inl (Wrapped ''error removing finalizer'' err))
                | (s', None) \<Rightarrow> Returns ((s', n'), Inr False))))"

definition updateNetworkStatus :: "('s, 'n) apinetlet \<Rightarrow> 's \<Rightarrow> onmetal_Network \<Rightarrow> string \<Rightarrow> 's \<times> go_error option" where
  "updateNetworkStatus L s network st =
     (case k_statusPatch (ao_network L) s (network\<lparr>onet_State := st\<rparr>) network of
        (s', Inl err) \<Rightarrow> (s', Some (Wrapped ''unable to patch network'' err))
      | (s', Inr _) \<Rightarrow> (s', None))"

definition applyAPINetNetwork :: "('s, 'n) apinetlet \<Rightarrow> 'n \<Rightarrow> onmetal_Network \<Rightarrow> ('n \<times> Network result) outcome" where
  "applyAPINetNetwork L n network =
     (case SourceLabels apinetletSystem (an_scheme L) (onmetal_object ''Network'' (onet_Meta network)) of
        Panics \<Rightarrow> Panics
      | Returns lbls \<Rightarrow>
          (case m_apply (an_network L) n \<lparr>net_Meta = anet_meta L (onet_Meta network) lbls, net_Spec = \<lparr>netspec_ID = []\<rparr>\<rparr> of
             (n', Inl err) \<Rightarrow> Returns (n', Inl (Wrapped ''error applying apinet network'' err))
           | (n', Inr apiNetNetwork) \<Rightarrow> Returns (n', Inr apiNetNetwork)))"

definition setNetworkProviderID :: "('s, 'n) apinetlet \<Rightarrow> 's \<Rightarrow> onmetal_Network \<Rightarrow> Network \<Rightarrow> 's \<times> go_error option" where
  "setNetworkProviderID L s network apiNetNetwork =
     (let m = net_Meta apiNetNetwork;
          providerID = GetNetworkID (om_Namespace m) (om_Name m) (netspec_ID (net_Spec apiNetNetwork)) (om_UID m) in
      case k_patch (ao_network L) s (network\<lparr>onet_ProviderID := providerID\<rparr>) network False of
        (s', Inl err) \<Rightarrow> (s', Some (Wrapped ''unable to patch network'' err))
      | (s', Inr _) \<Rightarrow> (s', None))"

definition anet_reconcile :: "('s, 'n) apinetlet \<Rightarrow> 's \<Rightarrow> 'n \<Rightarrow> onmetal_Network \<Rightarrow> ('s, 'n) anet_handled" where
  "anet_reconcile L s n network =
     (case f_ensure (ao_network L) s network networkFinalizer of
        (s', Inl err) \<Rightarrow> Returns ((s', n), Inl (Wrapped ''error ensuring finalizer'' err))
      | (s', Inr True) \<Rightarrow> Returns ((s', n), Inr True)
      | (s', Inr False) \<Rightarrow>
          (case applyAPINetNetwork L n network of
             Panics \<Rightarrow> Panics
           | Returns (n', Inl err) \<Rightarrow>
               let s2 = (if onet_State network \<noteq> ov_NetworkStateAvailable (an_values L)
                         then fst (updateNetworkStatus L s' network (ov_NetworkStatePending (an_values L))) else s') in
               Returns ((s2, n'), Inl (Wrapped ''error applying apinet network'' err))
           | Returns (n', Inr apiNetNetwork) \<Rightarrow>
               if onet_ProviderID network = [] then
                 (case setNetworkProviderID L s' network apiNetNetwork of
                    (s2, Some err) \<Rightarrow> Returns ((s2, n'), Inl (Wrapped ''error setting network provider id'' err))
                  | (s2, None) \<Rightarrow> Returns ((s2, n'), Inr True))
               else
                 (case updateNetworkStatus L s' network (ov_NetworkStateAvailable (an_values L)) of
                    (s2, Some err) \<Rightarrow> Returns ((s2, n'), Inl (Wrapped ''error updating network status'' err))
                  | (s2, None) \<Rightarrow> Returns ((s2, n'), Inr False))))"

definition anet_reconcileExists :: "('s, 'n) apinetlet \<Rightarrow> 's \<Rightarrow> 'n \<Rightarrow> onmetal_Network \<Rightarrow> ('s, 'n) anet_handled" where
  "anet_reconcileExists L s n network =
     (if om_DeletionTimestamp (onet_Meta network) \<noteq> None then anet_delete L s n network else anet_reconcile L s n network)"

definition anet_Reconcile :: "('s, 'n) apinetlet \<Rightarrow> 's \<Rightarrow> 'n \<Rightarrow> ObjectKey \<Rightarrow> ('s, 'n) anet_handled" where
  "anet_Reconcile L s n req =
     (case k_get (ao_network L) s req of
        Inl err \<Rightarrow>
          if \<not> IsNotFound err then Returns ((s, n), Inl (Wrapped ''error getting network'' err))
          else anet_deleteGone L s n req
      | Inr network \<Rightarrow> anet_reconcileExists L s n network)"

section \<open>virtualip_controller.go\<close>

definition virtualIPFinalizer :: string where
  "virtualIPFinalizer = ''apinet.api.onmetal.de/virtualip''"

definition avip_deleteGone :: "('s, 'n) apinetlet \<Rightarrow> 's \<Rightarrow> 'n \<Rightarrow> ObjectKey \<Rightarrow> ('s, 'n) anet_handled" where
  "avip_deleteGone L s n key =
     (case MatchingSourceKeyLabels apinetletSystem (an_scheme L) key (onmetal_object ''VirtualIP'' zero_meta) of
        Panics \<Rightarrow> Panics
      | Returns sel \<Rightarrow>
          (case m_deleteAllOf (an_ip L) n (an_APINetNamespace L) sel of
             (n', Some err) \<Rightarrow> Returns ((s, n'), Inl (Wrapped ''error deleting apinet ips'' err))
           | (n', None) \<Rightarrow> Returns ((s, n'), Inr False)))"

definition avip_delete :: "('s, 'n) apinetlet \<Rightarrow> 's \<Rightarrow> 'n \<Rightarrow> onmetal_VirtualIP \<Rightarrow> ('s, 'n) anet_handled" where
  "avip_delete L s n virtualIP =
     (if \<not> ContainsFinalizer (ovip_Meta virtualIP) virtualIPFinalizer then Returns ((s, n), Inr False)
      else
        (case m_delete (an_ip L) n (anet_key L (ovip_Meta virtualIP)) of
           (n', None) \<Rightarrow> Returns ((s, n'), Inr True)
         | (n', Some err) \<Rightarrow>
             if \<not> IsNotFound err then Returns ((s, n'), Inl (Wrapped ''error deleting target apinet ip'' err))
             else
               (case f_remove (ao_vip L) s virtualIP virtualIPFinalizer of
                  (s', Some err) \<Rightarrow> Returns ((s', n'), Inl (Wrapped ''error removing finalizer'' err))
                | (s', None) \<Rightarrow> Returns ((s', n'), Inr False))))"

definition applyIP :: "('s, 'n) apinetlet \<Rightarrow> 'n \<Rightarrow> onmetal_VirtualIP \<Rightarrow> ('n \<times> addr result) outcome" where
  "applyIP L n virtualIP =
     (case SourceLabels apinetletSystem (an_scheme L) (onmetal_object ''VirtualIP'' (ovip_Meta virtualIP)) of
        Panics \<Rightarrow> Panics
      | Returns lbls \<Rightarrow>
          (case m_apply (an_ip L) n
              \<lparr>ip_Meta = anet_meta L (ovip_Meta virtualIP) lbls,
               ip_Spec = \<lparr>ipspec_Type = IPTypePublic, ipspec_IPFamily = ovip_IPFamily virtualIP,
                          ipspec_IP = ZeroAddr, ipspec_ClaimRef = None\<rparr>\<rparr> of
             (n', Inl err) \<Rightarrow> Returns (n', Inl (Wrapped ''error applying apinet IP'' err))
           | (n', Inr apiNetIP) \<Rightarrow> Returns (n', Inr (ipspec_IP (ip_Spec apiNetIP)))))"

definition patchStatusAllocated :: "('s, 'n) apinetlet \<Rightarrow> 's \<Rightarrow> onmetal_VirtualIP \<Rightarrow> addr \<Rightarrow> 's \<times> go_error option" where
  "patchStatusAllocated L s virtualIP addr =
     (case k_statusPatch (ao_vip L) s (virtualIP\<lparr>ovip_StatusIP := Some addr\<rparr>) virtualIP of
        (s', Inl err) \<Rightarrow> (s', Some (Wrapped ''error patching virtual ip status'' err))
      | (s', Inr _) \<Rightarrow> (s', None))"

definition patchStatusUnallocated :: "('s, 'n) apinetlet \<Rightarrow> 's \<Rightarrow> onmetal_VirtualIP \<Rightarrow> 's \<times> go_error option" where
  "patchStatusUnallocated L s virtualIP =
     (case k_statusPatch (ao_vip L) s (virtualIP\<lparr>ovip_StatusIP := None\<rparr>) virtualIP of
        (s', Inl err) \<Rightarrow> (s', Some (Wrapped ''error patching virtual ip status'' err))
      | (s', Inr _) \<Rightarrow> (s', None))"

definition avip_reconcile :: "('s, 'n) apinetlet \<Rightarrow> 's \<Rightarrow> 'n \<Rightarrow> onmetal_VirtualIP \<Rightarrow> ('s, 'n) anet_handled" where
  "avip_reconcile L s n virtualIP =
     (case f_ensure (ao_vip L) s virtualIP virtualIPFinalizer of
        (s', Inl err) \<Rightarrow> Returns ((s', n), Inl (Wrapped ''error ensuring finalizer'' err))
      | (s', Inr True) \<Rightarrow> Returns ((s', n), Inr True)
      | (s', Inr False) \<Rightarrow>
          (case applyIP L n virtualIP of
             Panics \<Rightarrow> Panics
           | Returns (n', Inl err) \<Rightarrow>
               let s2 = (if ovip_StatusIP virtualIP = None then fst (patchStatusUnallocated L s' virtualIP) else s') in
               Returns ((s2, n'), Inl (Wrapped ''error applying apinet ip'' err))
           | Returns (n', Inr ip) \<Rightarrow>
               (case patchStatusAllocated L s' virtualIP ip of
                  (s2, Some err) \<Rightarrow> Returns ((s2, n'), Inl (ErrMsg ''error patching virtual ip status''))
                | (s2, None) \<Rightarrow> Returns ((s2, n'), Inr False))))"

definition avip_reconcileExists :: "('s, 'n) apinetlet \<Rightarrow> 's \<Rightarrow> 'n \<Rightarrow> onmetal_VirtualIP \<Rightarrow> ('s, 'n) anet_handled" where
  "avip_reconcileExists L s n virtualIP =
     (if om_DeletionTimestamp (ovip_Meta virtualIP) \<noteq> None then avip_delete L s n virtualIP else avip_reconcile L s n virtualIP)"

definition avip_Reconcile :: "('s, 'n) apinetlet \<Rightarrow> 's \<Rightarrow> 'n \<Rightarrow> ObjectKey \<Rightarrow> ('s, 'n) anet_handled" where
  "avip_Reconcile L s n req =
     (case k_get (ao_vip L) s req of
        Inl err \<Rightarrow>
          if \<not> IsNotFound err then Returns ((s, n), Inl (Wrapped ''error getting virtual ip'' err))
          else avip_deleteGone L s n req
      | Inr virtualIP \<Rightarrow> avip_reconcileExists L s n virtualIP)"

section \<open>natgateway_controller.go\<close>

definition natGatewayFinalizer :: string where
  "natGatewayFinalizer = ''apinet.api.onmetal.de/natgateway''"

definition agw_deleteGone :: "('s, 'n) apinetlet \<Rightarrow> 's \<Rightarrow> 'n \<Rightarrow> ObjectKey \<Rightarrow> ('s, 'n) anet_handled" where
  "agw_deleteGone L s n key =
     (case MatchingSourceKeyLabels apinetletSystem (an_scheme L) key (onmetal_object ''NATGateway'' zero_meta) of
        Panics \<Rightarrow> Panics
      | Returns sel \<Rightarrow>
          (case m_deleteAllOf (an_gw L) n (an_APINetNamespace L) sel of
             (n', Some err) \<Rightarrow> Returns ((s, n'), Inl (Wrapped ''error deleting apinet nat gateways by key'' err))
           | (n', None) \<Rightarrow> Returns ((s, n'), Inr False)))"

definition agw_delete :: "('s, 'n) apinetlet \<Rightarrow> 's \<Rightarrow> 'n \<Rightarrow> onmetal_NATGateway \<Rightarrow> ('s, 'n) anet_handled" where
  "agw_delete L s n natGateway =
     (if \<not> ContainsFinalizer (ogw_Meta natGateway) natGatewayFinalizer then Returns ((s, n), Inr False)
      else
        (case m_delete (an_gw L) n (anet_key L (ogw_Meta natGateway)) of
           (n', None) \<Rightarrow> Returns ((s, n'), Inr True)
         | (n', Some err) \<Rightarrow>
             if \<not> IsNotFound err then Returns ((s, n'), Inl (Wrapped ''error deleting apinet NAT Gateway'' err))
             else
               (case f_remove (ao_gw L) s natGateway natGatewayFinalizer of
                  (s', Some err) \<Rightarrow> Returns ((s', n'), Inl (Wrapped ''error removing NAT gateway finalizer'' err))
                | (s', None) \<Rightarrow> Returns ((s', n'), Inr False))))"

definition updateNATGatewayStatus ::
  "('s, 'n) apinetlet \<Rightarrow> 's \<Rightarrow> onmetal_NATGateway \<Rightarrow> addr list \<Rightarrow> 's \<times> go_error option" where
  "updateNATGatewayStatus L s natGateway ips =
     (case k_statusPatch (ao_gw L) s (natGateway\<lparr>ogw_StatusIPs := ips\<rparr>) natGateway of
        (s', Inl err) \<Rightarrow> (s', Some err)
      | (s', Inr _) \<Rightarrow> (s', None))"

text \<open>The NAT gateway and the autoscaler the controller applies for a NAT gateway of onmetal-api.\<close>

definition anet_gateway :: "('s, 'n) apinetlet \<Rightarrow> labels \<Rightarrow> string \<Rightarrow> onmetal_NATGateway \<Rightarrow> NATGateway" where
  "anet_gateway L lbls networkName natGateway =
     \<lparr>ng_Meta = anet_meta L (ogw_Meta natGateway) lbls,
      ng_Spec = \<lparr>ngs_IPFamily = ogw_IPFamily natGateway, ngs_NetworkRef = networkName, ngs_IPs = [],
        ngs_PortsPerNetworkInterface =
          (case ogw_PortsPerNetworkInterface natGateway of
             None \<Rightarrow> ov_DefaultPortsPerNetworkInterface (an_values L) | Some ports \<Rightarrow> ports)\<rparr>,
      ng_Status = \<lparr>ngst_UsedNATIPs = 0, ngst_RequestedNATIPs = 0\<rparr>\<rparr>"

definition anet_autoscaler ::
  "('s, 'n) apinetlet \<Rightarrow> labels \<Rightarrow> onmetal_NATGateway \<Rightarrow> NATGateway \<Rightarrow> NATGatewayAutoscaler" where
  "anet_autoscaler L lbls natGateway apiNetNATGateway =
     (let m = anet_meta L (ogw_Meta natGateway) lbls in
      \<lparr>nga_Meta = (case an_setControllerReference L (ng_Meta apiNetNATGateway) m of Inl _ \<Rightarrow> m | Inr m' \<Rightarrow> m'),
       nga_Spec = \<lparr>ngas_NATGatewayRef = om_Name (ng_Meta apiNetNATGateway),
         ngas_MinPublicIPs = Some 1, ngas_MaxPublicIPs = Some 10\<rparr>\<rparr>)"

definition agw_reconcile :: "('s, 'n) apinetlet \<Rightarrow> 's \<Rightarrow> 'n \<Rightarrow> onmetal_NATGateway \<Rightarrow> ('s, 'n) anet_handled" where
  "agw_reconcile L s n natGateway =
     (case f_ensure (ao_gw L) s natGateway natGatewayFinalizer of
        (s', Inl err) \<Rightarrow> Returns ((s', n), Inl (Wrapped ''error ensuring finalizer'' err))
      | (s', Inr True) \<Rightarrow> Returns ((s', n), Inr True)
      | (s', Inr False) \<Rightarrow>
          (case getAPINetNetworkName L s' \<lparr>key_Namespace = om_Namespace (ogw_Meta natGateway), key_Name = ogw_NetworkRef natGateway\<rparr> of
             Inl err \<Rightarrow> Returns ((s', n), Inl (Wrapped ''error getting apinet network name'' err))
           | Inr networkName \<Rightarrow>
               if networkName = [] then Returns ((s', n), Inr False)
               else
                 (case SourceLabels apinetletSystem (an_scheme L) (onmetal_object ''NATGateway'' (ogw_Meta natGateway)) of
                    Panics \<Rightarrow> Panics
                  | Returns lbls \<Rightarrow>
                      (case m_apply (an_gw L) n (anet_gateway L lbls networkName natGateway) of
                         (n', Inl err) \<Rightarrow> Returns ((s', n'), Inl (Wrapped ''error applying apinet nat gateway'' err))
                       | (n', Inr apiNetNATGateway) \<Rightarrow>
                           (case m_apply (an_autoscaler L) n' (anet_autoscaler L lbls natGateway apiNetNATGateway) of
                              (n2, Inl err) \<Rightarrow> Returns ((s', n2), Inl (Wrapped ''error applying apinet NAT gateway autoscaler'' err))
                            | (n2, Inr _) \<Rightarrow>
                                let natGatewayIPs = apiNetIPsToIPs (GetNATGatewayIPs apiNetNATGateway) in
                                if ogw_StatusIPs natGateway \<noteq> natGatewayIPs then
                                  (case updateNATGatewayStatus L s' natGateway natGatewayIPs of
                                     (s2, Some err) \<Rightarrow> Returns ((s2, n2), Inl (Wrapped ''error updating NAT gateway status IPs'' err))
                                   | (s2, None) \<Rightarrow> Returns ((s2, n2), Inr False))
                                else Returns ((s', n2), Inr False))))))"

definition agw_reconcileExists :: "('s, 'n) apinetlet \<Rightarrow> 's \<Rightarrow> 'n \<Rightarrow> onmetal_NATGateway \<Rightarrow> ('s, 'n) anet_handled" where
  "agw_reconcileExists L s n natGateway =
     (if om_DeletionTimestamp (ogw_Meta natGateway) \<noteq> None then agw_delete L s n natGateway else agw_reconcile L s n natGateway)"

definition agw_Reconcile :: "('s, 'n) apinetlet \<Rightarrow> 's \<Rightarrow> 'n \<Rightarrow> ObjectKey \<Rightarrow> ('s, 'n) anet_handled" where
  "agw_Reconcile L s n req =
     (case k_get (ao_gw L) s req of
        Inl err \<Rightarrow>
          if \<not> IsNotFound err then Returns ((s, n), Inl (Wrapped ''error getting nat gateway'' err))
          else agw_deleteGone L s n req
      | Inr natGateway \<Rightarrow> agw_reconcileExists L s n natGateway)"

section \<open>Provider IDs\<close>

lemma SplitN_last: "SplitN (Suc (Suc n)) c s = [x] \<longleftrightarrow> s = x \<and> c \<notin> set x"
  by (cases n) (auto simp: in_set_conv_decomp)

lemma SplitN_step:
  "SplitN (Suc (Suc n)) c s = x # y # zs \<longleftrightarrow> (\<exists>r. s = x @ c # r \<and> c \<notin> set x \<and> SplitN (Suc n) c r = y # zs)"
proof (cases "c \<in> set s")
  case True
  then obtain u v where "s = u @ c # v" "c \<notin> set u" by (metis split_list_first)
  then have "takeWhile (\<lambda>x. x \<noteq> c) s = u" "tl (dropWhile (\<lambda>x. x \<noteq> c) s) = v"
    by (auto simp: takeWhile_append dropWhile_append)
  with True \<open>s = u @ c # v\<close> \<open>c \<notin> set u\<close> show ?thesis
    by (auto simp: append_sep_inj)
qed auto

text \<open>Four parts are found exactly in a string of four parts without slashes.\<close>

lemma SplitN_four:
  "SplitN 5 c s = [w, x, y, z] \<longleftrightarrow>
     s = w @ c # x @ c # y @ c # z \<and> c \<notin> set w \<and> c \<notin> set x \<and> c \<notin> set y \<and> c \<notin> set z"
  by (auto simp: eval_nat_numeral SplitN_step SplitN_last simp del: SplitN.simps)

section \<open>The discipline of finalizers\<close>

text \<open>
  The contract the controllers of networks, virtual IPs, NAT gateways and load balancers share.
  A request for an object that is gone deletes targets; a deletion removes the finalizer only
  after the target is reported as not found; a reconciliation applies the target once the
  finalizer is there, and changes nothing else of the source's identity or finalizers.
\<close>

locale named_handler = named_netlet K objs meta C tobjs tmeta
  for K :: "('s, 'o) fin_client" and objs :: "'s \<Rightarrow> ObjectKey \<rightharpoonup> 'o" and meta :: "'o \<Rightarrow> ObjectMeta"
    and C :: "('n, 't) mclient" and tobjs :: "'n \<Rightarrow> ObjectKey \<rightharpoonup> 't" and tmeta :: "'t \<Rightarrow> ObjectMeta" +
  fixes f ns :: string
    and Rec :: "'s \<Rightarrow> 'n \<Rightarrow> ObjectKey \<Rightarrow> ('s, 'n) anet_handled"
    and Gone :: "'s \<Rightarrow> 'n \<Rightarrow> ObjectKey \<Rightarrow> ('s, 'n) anet_handled"
    and Del Apply :: "'s \<Rightarrow> 'n \<Rightarrow> 'o \<Rightarrow> ('s, 'n) anet_handled"
  assumes dispatch: "\<exists>e. Rec s n req = (case k_get K s req of
        Inl err \<Rightarrow> if \<not> IsNotFound err then Returns ((s, n), e) else Gone s n req
      | Inr x \<Rightarrow> if om_DeletionTimestamp (meta x) \<noteq> None then Del s n x else Apply s n x)"
    and gone: "Gone s n req = Returns ((s', n'), r) \<Longrightarrow> s' = s \<and> (\<exists>sel e. m_deleteAllOf C n ns sel = (n', e))"
    and deletes: "Del s n x = Returns ((s', n'), r) \<Longrightarrow>
        s' = s \<and> (n' = n \<or> (\<exists>k e. m_delete C n k = (n', e))) \<or>
        (\<exists>e re. m_delete C n \<lparr>key_Namespace = ns, key_Name = om_UID (meta x)\<rparr> = (n', Some e) \<and> IsNotFound e \<and> f_remove K s x f = (s', re))"
    and ensures: "f_ensure K s x f = (s1, ef) \<Longrightarrow> ef \<noteq> Inr False \<Longrightarrow> Apply s n x = Returns ((s', n'), r) \<Longrightarrow> s' = s1 \<and> n' = n"
    and applies: "f_ensure K s x f = (s, Inr False) \<Longrightarrow> objs s (meta_key (meta x)) = Some x \<Longrightarrow> Apply s n x = Returns ((s', n'), r) \<Longrightarrow>
        (\<forall>k. keeps_owner meta (objs s k) (objs s' k)) \<and>
        (tobjs n' = tobjs n \<or>
         (\<exists>y n1 r1. m_apply C n y = (n1, r1) \<and> tobjs n' = tobjs n1 \<and> meta_key (tmeta y) = \<lparr>key_Namespace = ns, key_Name = om_UID (meta x)\<rparr>))"
begin

lemma Reconcile_guarded:
  assumes g: "guarded meta f tmeta (in_namespace ns) named_by (objs s) (tobjs n)" and r: "Rec s n req = Returns ((s', n'), r)"
  shows "guarded meta f tmeta (in_namespace ns) named_by (objs s') (tobjs n')"
proof (cases "k_get K s req")
  case (Inl err)
  then consider "s' = s" "n' = n" | "Gone s n req = Returns ((s', n'), r)"
    using r dispatch [of s n req] by (auto split: if_splits)
  then show ?thesis
  proof cases
    case 2
    then obtain sel e where "s' = s" "m_deleteAllOf C n ns sel = (n', e)" using gone by blast
    then show ?thesis using guarded_targets [OF g] tgt.deleteAllOf_only by metis
  qed (use g in simp)
next
  case (Inr x)
  then have x: "objs s (meta_key (meta x)) = Some x" using src.get_ok by blast
  from Inr consider "Del s n x = Returns ((s', n'), r)" | "Apply s n x = Returns ((s', n'), r)"
    using r dispatch [of s n req] by (auto split: if_splits)
  then show ?thesis
  proof cases
    case 1
    from deletes [OF this] show ?thesis
      using g deleted_guarded [OF g] finalized_guarded [OF g x] by auto
  next
    case 2
    obtain s1 ef where e: "f_ensure K s x f = (s1, ef)" by fastforce
    show ?thesis
    proof (cases "ef = Inr False")
      case True
      with e src.ensure_present have e': "f_ensure K s x f = (s, Inr False)" by auto
      note a = applies [OF e' x 2]
      then have "guarded meta f tmeta (in_namespace ns) named_by (objs s) (tobjs n')"
        using g applied_guarded [OF g x e'] by auto
      then show ?thesis using a by (auto intro: guarded_owners)
    next
      case False
      with ensures [OF e _ 2] src.guarded_ensure [OF g e x] show ?thesis by simp
    qed
  qed
qed

end

text \<open>A merge patch that leaves the metadata alone keeps finalizers, too.\<close>

locale patch_source = source_api K objs meta
  for K :: "('s, 'o) fin_client" and objs :: "'s \<Rightarrow> ObjectKey \<rightharpoonup> 'o" and meta :: "'o \<Rightarrow> ObjectMeta" +
  assumes patch_keeps: "k_patch K s x base lock = (s', rp) \<Longrightarrow> meta x = meta base \<Longrightarrow>
      objs s (meta_key (meta base)) = Some base \<Longrightarrow> keeps_owner meta (objs s k) (objs s' k)"

locale apinet_networks = named_netlet "ao_network L" objs onet_Meta "an_network L" tobjs net_Meta +
  patch_source "ao_network L" objs onet_Meta
  for L :: "('s, 'n) apinetlet" and objs :: "'s \<Rightarrow> ObjectKey \<rightharpoonup> onmetal_Network" and tobjs :: "'n \<Rightarrow> ObjectKey \<rightharpoonup> Network"
begin

lemma network_status_keeps:
  "keeps_owner onet_Meta (objs s k) (objs (fst (updateNetworkStatus L s x st)) k)"
  using src.status_keeps [of s "x\<lparr>onet_State := st\<rparr>" x]
  by (auto simp: updateNetworkStatus_def split: prod.splits sum.splits)

lemma network_provider_keeps:
  "objs s (meta_key (onet_Meta x)) = Some x \<Longrightarrow> keeps_owner onet_Meta (objs s k) (objs (fst (setNetworkProviderID L s x y)) k)"
  using patch_keeps [of s _ x False]
  by (auto simp: setNetworkProviderID_def Let_def split: prod.splits sum.splits)

lemma applyAPINetNetwork_applies:
  "applyAPINetNetwork L n x = Returns (n', r) \<Longrightarrow>
   \<exists>y r1. m_apply (an_network L) n y = (n', r1) \<and> meta_key (net_Meta y) = anet_key L (onet_Meta x)"
  by (auto simp: applyAPINetNetwork_def split: outcome.splits prod.splits sum.splits; metis Network.select_convs(1) anet_meta_key)

lemma network_reconcile_applies:
  assumes "anet_reconcile L s n x = Returns ((s', n'), r)" "f_ensure (ao_network L) s x networkFinalizer = (s, Inr False)"
    and "objs s (meta_key (onet_Meta x)) = Some x"
  shows "(\<exists>a. applyAPINetNetwork L n x = Returns (n', a)) \<and> (\<forall>k. keeps_owner onet_Meta (objs s k) (objs s' k))"
proof (cases "applyAPINetNetwork L n x")
  case (Returns p)
  obtain n1 a where p: "p = (n1, a)" by (cases p)
  show ?thesis
  proof (cases a)
    case (Inl err)
    with assms(1,2) Returns p network_status_keeps show ?thesis by (auto simp: anet_reconcile_def Let_def split: if_splits)
  next
    case (Inr y)
    obtain s2 e2 s3 e3 where "setNetworkProviderID L s x y = (s2, e2)"
        "updateNetworkStatus L s x (ov_NetworkStateAvailable (an_values L)) = (s3, e3)"
      by fastforce
    with assms(1,2) Returns p Inr network_status_keeps [of s _ x "ov_NetworkStateAvailable (an_values L)"]
      network_provider_keeps [OF assms(3), of _ y] show ?thesis
      by (auto simp: anet_reconcile_def split: if_splits option.splits)
  qed
qed (use assms in \<open>simp add: anet_reconcile_def\<close>)

end

locale apinet_vips = named_netlet "ao_vip L" objs ovip_Meta "an_ip L" tobjs ip_Meta
  for L :: "('s, 'n) apinetlet" and objs :: "'s \<Rightarrow> ObjectKey \<rightharpoonup> onmetal_VirtualIP" and tobjs :: "'n \<Rightarrow> ObjectKey \<rightharpoonup> IP"
begin

lemma vip_status_keeps:
  "keeps_owner ovip_Meta (objs s k) (objs (fst (patchStatusAllocated L s x ip)) k)"
  "keeps_owner ovip_Meta (objs s k) (objs (fst (patchStatusUnallocated L s x)) k)"
  using src.status_keeps [of s _ x]
  by (auto simp: patchStatusAllocated_def patchStatusUnallocated_def split: prod.splits sum.splits)

lemma applyIP_applies:
  "applyIP L n x = Returns (n', r) \<Longrightarrow> \<exists>y r1. m_apply (an_ip L) n y = (n', r1) \<and> meta_key (ip_Meta y) = anet_key L (ovip_Meta x)"
  by (auto simp: applyIP_def split: outcome.splits prod.splits sum.splits; metis IP.select_convs(1) anet_meta_key)

lemma vip_reconcile_applies:
  assumes "avip_reconcile L s n x = Returns ((s', n'), r)" "f_ensure (ao_vip L) s x virtualIPFinalizer = (s, Inr False)"
  shows "(\<exists>a. applyIP L n x = Returns (n', a)) \<and> (\<forall>k. keeps_owner ovip_Meta (objs s k) (objs s' k))"
proof (cases "applyIP L n x")
  case (Returns p)
  obtain n1 a where p: "p = (n1, a)" by (cases p)
  show ?thesis
  proof (cases a)
    case (Inl err)
    with assms Returns p vip_status_keeps(2) show ?thesis by (auto simp: avip_reconcile_def Let_def split: if_splits)
  next
    case (Inr ip)
    obtain s2 e2 where "patchStatusAllocated L s x ip = (s2, e2)" by fastforce
    with assms Returns p Inr vip_status_keeps(1) [of s _ x ip] show ?thesis
      by (auto simp: avip_reconcile_def split: option.splits)
  qed
qed (use assms in \<open>simp add: avip_reconcile_def\<close>)

end

text \<open>The autoscaler is another kind of object, and leaves NAT gateways alone.\<close>

locale apinet_gws = named_netlet "ao_gw L" objs ogw_Meta "an_gw L" tobjs ng_Meta
  for L :: "('s, 'n) apinetlet" and objs :: "'s \<Rightarrow> ObjectKey \<rightharpoonup> onmetal_NATGateway" and tobjs :: "'n \<Rightarrow> ObjectKey \<rightharpoonup> NATGateway" +
  assumes autoscaler_other: "m_apply (an_autoscaler L) n z = (n', rz) \<Longrightarrow> tobjs n' = tobjs n"
begin

lemma gateway_status_keeps:
  "updateNATGatewayStatus L s x ips = (s', e) \<Longrightarrow> keeps_owner ogw_Meta (objs s k) (objs s' k)"
  by (auto simp: updateNATGatewayStatus_def split: prod.splits sum.splits intro!: src.status_keeps)

lemma anet_gateway_key:
  "meta_key (ng_Meta (anet_gateway L lbls net x)) = \<lparr>key_Namespace = an_APINetNamespace L, key_Name = om_UID (ogw_Meta x)\<rparr>"
  by (simp add: anet_gateway_def) (simp add: anet_key_def)

lemma gateway_applies:
  assumes "agw_reconcile L s n x = Returns ((s', n'), r)" "f_ensure (ao_gw L) s x natGatewayFinalizer = (s, Inr False)"
  shows "(\<forall>k. keeps_owner ogw_Meta (objs s k) (objs s' k)) \<and>
    (tobjs n' = tobjs n \<or> (\<exists>lbls net n1 r1. m_apply (an_gw L) n (anet_gateway L lbls net x) = (n1, r1) \<and> tobjs n' = tobjs n1))"
  using assms gateway_status_keeps autoscaler_other
  by (auto simp: agw_reconcile_def Let_def split: sum.splits if_splits outcome.splits prod.splits option.splits; metis)

end

sublocale apinet_networks \<subseteq> net: named_handler "ao_network L" objs onet_Meta "an_network L" tobjs net_Meta networkFinalizer "an_APINetNamespace L"
    "anet_Reconcile L" "anet_deleteGone L" "anet_delete L" "anet_reconcile L"
proof
  fix s n x s' n' r
  assume e: "f_ensure (ao_network L) s x networkFinalizer = (s, Inr False)" and x: "objs s (meta_key (onet_Meta x)) = Some x"
    and r: "anet_reconcile L s n x = Returns ((s', n'), r)"
  show "(\<forall>k. keeps_owner onet_Meta (objs s k) (objs s' k)) \<and>
        (tobjs n' = tobjs n \<or> (\<exists>y n1 r1. m_apply (an_network L) n y = (n1, r1) \<and> tobjs n' = tobjs n1 \<and>
            meta_key (net_Meta y) = \<lparr>key_Namespace = an_APINetNamespace L, key_Name = om_UID (onet_Meta x)\<rparr>))"
    using network_reconcile_applies [OF r e x] applyAPINetNetwork_applies [of n x n'] by (fastforce simp: anet_key_def)
qed (auto simp: anet_Reconcile_def anet_reconcileExists_def anet_deleteGone_def anet_delete_def anet_reconcile_def anet_key_def
    split: sum.splits outcome.splits prod.splits option.splits if_splits bool.splits)

sublocale apinet_vips \<subseteq> vip: named_handler "ao_vip L" objs ovip_Meta "an_ip L" tobjs ip_Meta virtualIPFinalizer "an_APINetNamespace L"
    "avip_Reconcile L" "avip_deleteGone L" "avip_delete L" "avip_reconcile L"
proof
  fix s n x s' n' r
  assume e: "f_ensure (ao_vip L) s x virtualIPFinalizer = (s, Inr False)" and x: "objs s (meta_key (ovip_Meta x)) = Some x"
    and r: "avip_reconcile L s n x = Returns ((s', n'), r)"
  show "(\<forall>k. keeps_owner ovip_Meta (objs s k) (objs s' k)) \<and>
        (tobjs n' = tobjs n \<or> (\<exists>y n1 r1. m_apply (an_ip L) n y = (n1, r1) \<and> tobjs n' = tobjs n1 \<and>
            meta_key (ip_Meta y) = \<lparr>key_Namespace = an_APINetNamespace L, key_Name = om_UID (ovip_Meta x)\<rparr>))"
    using vip_reconcile_applies [OF r e] applyIP_applies [of n x n'] by (fastforce simp: anet_key_def)
qed (auto simp: avip_Reconcile_def avip_reconcileExists_def avip_deleteGone_def avip_delete_def avip_reconcile_def anet_key_def
    split: sum.splits outcome.splits prod.splits option.splits if_splits bool.splits)

sublocale apinet_gws \<subseteq> gw: named_handler "ao_gw L" objs ogw_Meta "an_gw L" tobjs ng_Meta natGatewayFinalizer "an_APINetNamespace L"
    "agw_Reconcile L" "agw_deleteGone L" "agw_delete L" "agw_reconcile L"
proof
  fix s n x s' n' r
  assume e: "f_ensure (ao_gw L) s x natGatewayFinalizer = (s, Inr False)" and x: "objs s (meta_key (ogw_Meta x)) = Some x"
    and r: "agw_reconcile L s n x = Returns ((s', n'), r)"
  show "(\<forall>k. keeps_owner ogw_Meta (objs s k) (objs s' k)) \<and>
        (tobjs n' = tobjs n \<or> (\<exists>y n1 r1. m_apply (an_gw L) n y = (n1, r1) \<and> tobjs n' = tobjs n1 \<and>
            meta_key (ng_Meta y) = \<lparr>key_Namespace = an_APINetNamespace L, key_Name = om_UID (ogw_Meta x)\<rparr>))"
    using gateway_applies [OF r e] anet_gateway_key by metis
qed (auto simp: agw_Reconcile_def agw_reconcileExists_def agw_deleteGone_def agw_delete_def agw_reconcile_def anet_key_def
    split: sum.splits outcome.splits prod.splits option.splits if_splits bool.splits)

context apinet_networks
begin

lemmas network_guarded = net.Reconcile_guarded

end

context apinet_vips
begin

lemmas vip_guarded = vip.Reconcile_guarded

end

context apinet_gws
begin

lemmas gateway_guarded = gw.Reconcile_guarded

end

section \<open>In-memory clusters\<close>

record onmetal_world =
  ow_networks :: "onmetal_Network key_store"
  ow_gws :: "onmetal_NATGateway key_store"
  ow_vips :: "onmetal_VirtualIP key_store"
  ow_lbs :: "onmetal_LoadBalancer key_store"
  ow_nics :: "onmetal_NetworkInterface key_store"
  ow_lbroutings :: "onmetal_LoadBalancerRouting key_store"
  ow_prefixes :: "ipam_Prefix key_store"

record anet_world =
  nw_networks :: "Network key_store"
  nw_ips :: "IP key_store"
  nw_gws :: "NATGateway key_store"
  nw_autoscalers :: "NATGatewayAutoscaler key_store"
  nw_lbs :: "LoadBalancer key_store"
  nw_lbroutings :: "LoadBalancerRouting key_store"
  nw_nics :: "NetworkInterface key_store"

definition empty_onmetal :: onmetal_world where
  "empty_onmetal = \<lparr>ow_networks = [], ow_gws = [], ow_vips = [], ow_lbs = [], ow_nics = [], ow_lbroutings = [], ow_prefixes = []\<rparr>"

definition empty_anet :: anet_world where
  "empty_anet = \<lparr>nw_networks = [], nw_ips = [], nw_gws = [], nw_autoscalers = [], nw_lbs = [], nw_lbroutings = [], nw_nics = []\<rparr>"

definition mem_patch :: "('t \<Rightarrow> ObjectMeta) \<Rightarrow> 't key_store \<Rightarrow> 't \<Rightarrow> 't \<Rightarrow> 't key_store \<times> 't result" where
  "mem_patch tmeta m x base =
     (if keyed_view tmeta m (meta_key (tmeta x)) = None then (m, Inl NotFound)
      else (AList.update (meta_key (tmeta x)) x m, Inr x))"

text \<open>A kind whose objects all have a namespace.\<close>

definition namespaced_fin :: "('s, 'o) fin_client \<Rightarrow> ('s, 'o) fin_client" where
  "namespaced_fin K = K\<lparr>k_get := (\<lambda>s k. if key_Namespace k = [] then Inl NotFound else k_get K s k)\<rparr>"

lemma namespaced_fin_source: "source_api K objs meta \<Longrightarrow> source_api (namespaced_fin K) objs meta"
  by (auto simp: source_api_def namespaced_fin_def)

definition mem_apinetlet :: "(onmetal_world, anet_world) apinetlet" where
  "mem_apinetlet =
     \<lparr>ao_network = focus_fin ow_networks (\<lambda>v s. s\<lparr>ow_networks := v\<rparr>) (mem_fin onet_Meta (\<lambda>n x. x\<lparr>onet_Meta := n\<rparr>)),
      ao_gw = focus_fin ow_gws (\<lambda>v s. s\<lparr>ow_gws := v\<rparr>) (mem_fin ogw_Meta (\<lambda>n x. x\<lparr>ogw_Meta := n\<rparr>)),
      ao_vip = focus_fin ow_vips (\<lambda>v s. s\<lparr>ow_vips := v\<rparr>) (mem_fin ovip_Meta (\<lambda>n x. x\<lparr>ovip_Meta := n\<rparr>)),
      ao_lb = focus_fin ow_lbs (\<lambda>v s. s\<lparr>ow_lbs := v\<rparr>) (mem_fin olb_Meta (\<lambda>n x. x\<lparr>olb_Meta := n\<rparr>)),
      ao_nic = namespaced_fin (focus_fin ow_nics (\<lambda>v s. s\<lparr>ow_nics := v\<rparr>) (mem_fin onic_Meta (\<lambda>n x. x\<lparr>onic_Meta := n\<rparr>))),
      ao_lbrouting = kclient.truncate (focus_fin ow_lbroutings (\<lambda>v s. s\<lparr>ow_lbroutings := v\<rparr>) (mem_fin olbr_Meta (\<lambda>n x. x\<lparr>olbr_Meta := n\<rparr>))),
      ao_prefix = kclient.truncate (focus_fin ow_prefixes (\<lambda>v s. s\<lparr>ow_prefixes := v\<rparr>) (mem_fin opre_Meta (\<lambda>n x. x\<lparr>opre_Meta := n\<rparr>))),
      an_network = focus_target nw_networks (\<lambda>v s. s\<lparr>nw_networks := v\<rparr>) (mem_target net_Meta),
      an_ip = focus_target nw_ips (\<lambda>v s. s\<lparr>nw_ips := v\<rparr>) (mem_target ip_Meta),
      an_gw = focus_target nw_gws (\<lambda>v s. s\<lparr>nw_gws := v\<rparr>) (mem_target ng_Meta),
      an_autoscaler = focus_target nw_autoscalers (\<lambda>v s. s\<lparr>nw_autoscalers := v\<rparr>) (mem_target nga_Meta),
      an_lb = focus_target nw_lbs (\<lambda>v s. s\<lparr>nw_lbs := v\<rparr>) (mem_target lb_Meta),
      an_lbrouting = focus_target nw_lbroutings (\<lambda>v s. s\<lparr>nw_lbroutings := v\<rparr>) (mem_target lbr_Meta),
      an_nic = mclient.extend (focus_target nw_nics (\<lambda>v s. s\<lparr>nw_nics := v\<rparr>) (mem_target nic_Meta))
        (pclient.fields (\<lambda>s x base. let (m, r) = mem_patch nic_Meta (nw_nics s) x base in (s\<lparr>nw_nics := m\<rparr>, r))),
      an_claimVIP = plain_claim,
      an_claimNIC = plain_claim,
      an_scheme = plain_scheme,
      an_values = \<lparr>ov_NetworkStatePending = ''Pending'', ov_NetworkStateAvailable = ''Available'',
        ov_NICStatePending = ''Pending'', ov_NICStateAvailable = ''Available'', ov_NICStateError = ''Error'',
        ov_LBPublic = ''Public'', ov_LBInternal = ''Internal'', ov_PrefixPhaseAllocated = ''Allocated'',
        ov_DefaultPortsPerNetworkInterface = 2048,
        ov_LBIPPrefixName = (\<lambda>name i. name @ ''-'' @ dec_nat i), ov_NICPrefixName = (\<lambda>name i. name @ ''-'' @ dec_nat i),
        ov_NICVirtualIPName = (\<lambda>name src. case vips_VirtualIPRef src of None \<Rightarrow> name | Some ref \<Rightarrow> ref),
        ov_IsValid = IP_IsValid, ov_Family = Family, ov_String = (\<lambda>_. ''ip''), ov_PrefixIP = (\<lambda>p. case p of None \<Rightarrow> Panics | Some q \<Rightarrow> Returns (p_Addr q))\<rparr>,
      an_isSubdomain = (\<lambda>name. if name = [] then [''name must not be empty''] else []),
      an_setControllerReference = (\<lambda>owner m. Inr (m\<lparr>om_OwnerReferences := [\<lparr>or_APIVersion = [], or_Kind = [], or_Name = om_Name owner,
        or_UID = om_UID owner, or_Controller = Some True, or_BlockOwnerDeletion = Some True\<rparr>]\<rparr>)),
      an_newControllerRef = (\<lambda>owner gvk. \<lparr>or_APIVersion = gvk_Version gvk, or_Kind = gvk_Kind gvk, or_Name = om_Name owner,
        or_UID = om_UID owner, or_Controller = Some True, or_BlockOwnerDeletion = Some True\<rparr>),
      an_isControlledBy = (\<lambda>m owner. case GetControllerOf m of None \<Rightarrow> False | Some ref \<Rightarrow> or_UID ref = om_UID owner),
      an_setLabels = (\<lambda>l new. new @ l),
      an_deleteLabels = (\<lambda>l ks. fold AList.delete ks l),
      an_now = (\<lambda>s. 0),
      an_APINetNamespace = ''apinet''\<rparr>"

lemma mem_fin_patch:
  assumes "\<And>n x. meta (setMeta n x) = n"
  shows "patch_source (mem_fin meta setMeta) map_of meta"
proof (rule patch_source.intro)
  show "source_api (mem_fin meta setMeta) map_of meta" by (rule mem_fin_source) (rule assms)
  show "patch_source_axioms (mem_fin meta setMeta) map_of meta"
    by unfold_locales (auto simp: mem_fin_def Let_def update_conv' keeps_owner_def split: option.splits if_splits)
qed

lemma focus_fin_patch:
  assumes "patch_source K objs meta" "\<And>a s. get (put a s) = a" "\<And>s. put (get s) s = s"
  shows "patch_source (focus_fin get put K) (\<lambda>s. objs (get s)) meta"
proof (rule patch_source.intro)
  show "source_api (focus_fin get put K) (\<lambda>s. objs (get s)) meta"
    by (rule focus_fin_source) (use assms in \<open>simp_all add: patch_source_def\<close>)
  show "patch_source_axioms (focus_fin get put K) (\<lambda>s. objs (get s)) meta"
    by unfold_locales (use patch_source.patch_keeps [OF assms(1)] assms(2) in \<open>auto simp: focus_fin_def split: prod.splits\<close>)
qed

lemma mem_apinet_networks: "apinet_networks mem_apinetlet (\<lambda>s. map_of (ow_networks s)) (\<lambda>n. keyed_view net_Meta (nw_networks n))"
  unfolding apinet_networks_def named_netlet_def mem_apinetlet_def
  by (auto intro!: focus_fin_patch mem_fin_patch focus_fin_source mem_fin_source focus_target_target mem_target_target)

lemma mem_apinet_vips: "apinet_vips mem_apinetlet (\<lambda>s. map_of (ow_vips s)) (\<lambda>n. keyed_view ip_Meta (nw_ips n))"
  unfolding apinet_vips_def named_netlet_def mem_apinetlet_def
  by (auto intro!: focus_fin_source mem_fin_source focus_target_target mem_target_target)

lemma mem_apinet_gws: "apinet_gws mem_apinetlet (\<lambda>s. map_of (ow_gws s)) (\<lambda>n. keyed_view ng_Meta (nw_gws n))"
  unfolding apinet_gws_def apinet_gws_axioms_def named_netlet_def mem_apinetlet_def
  by (auto intro!: focus_fin_source mem_fin_source focus_target_target mem_target_target)
    (auto simp: focus_target_def split: prod.splits)

interpretation mem_anets: apinet_networks mem_apinetlet "\<lambda>s. map_of (ow_networks s)" "\<lambda>n. keyed_view net_Meta (nw_networks n)"
  by (rule mem_apinet_networks)

interpretation mem_avips: apinet_vips mem_apinetlet "\<lambda>s. map_of (ow_vips s)" "\<lambda>n. keyed_view ip_Meta (nw_ips n)"
  by (rule mem_apinet_vips)

interpretation mem_agws: apinet_gws mem_apinetlet "\<lambda>s. map_of (ow_gws s)" "\<lambda>n. keyed_view ng_Meta (nw_gws n)"
  by (rule mem_apinet_gws)

section \<open>Properties\<close>

text \<open>
  C33. Provider IDs of network interfaces: an ID is parsed into four parts exactly if it is the
  ID written for these parts, with or without the scheme, none of the parts has a slash in it and the name
  of the node is a DNS subdomain. In particular, a written ID is read back as it was.
\<close>

theorem provider_id_roundtrip:
  "ParseNetworkInterfaceID isSubdomain i = Inr (namespace, name, node, uid) \<longleftrightarrow>
     (i = GetNetworkInterfaceID namespace name node uid \<or>
      apiNetPrefix @ i = GetNetworkInterfaceID namespace name node uid \<and> \<not> HasPrefix i apiNetPrefix) \<and>
     CHR ''/'' \<notin> set namespace \<and> CHR ''/'' \<notin> set name \<and> CHR ''/'' \<notin> set node \<and> CHR ''/'' \<notin> set uid \<and>
     isSubdomain node = []"
proof -
  have "ParseNetworkInterfaceID isSubdomain i = Inr (namespace, name, node, uid) \<longleftrightarrow>
      SplitN 5 (CHR ''/'') (TrimPrefix i apiNetPrefix) = [namespace, name, node, uid] \<and> isSubdomain node = []"
    by (auto simp: ParseNetworkInterfaceID_def split: list.splits if_splits)
  moreover have "TrimPrefix i apiNetPrefix = t \<longleftrightarrow> i = apiNetPrefix @ t \<or> i = t \<and> \<not> HasPrefix i apiNetPrefix" for t
    by (auto simp: TrimPrefix_def HasPrefix_iff)
  ultimately show ?thesis by (auto simp: SplitN_four GetNetworkInterfaceID_def)
qed

text \<open>
  C17. Public addresses are never leaked by virtual IPs: along every run of the virtual IP
  controller, interleaved with arbitrary other clients of both clusters, each IP in the namespace of the
  apinetlet is named by the UID of a virtual IP that exists and carries the finalizer, provided
  that this held at the start. The other clients may do anything to virtual IPs without the
  finalizer, and delete IPs or change them except for their labels, but not create any.
\<close>

theorem apinet_ips_guarded:
  assumes "apinet_vips L objs tobjs"
    and "guarded ovip_Meta virtualIPFinalizer ip_Meta (in_namespace (an_APINetNamespace L)) named_by (objs s0) (tobjs n0)"
    and "netlet_run (avip_Reconcile L)
      (\<lambda>s s'. keeps_finalized ovip_Meta virtualIPFinalizer (objs s) (objs s'))
      (\<lambda>n n'. only_deletes ip_Meta (tobjs n) (tobjs n')) (s0, n0) (s, n)"
  shows "guarded ovip_Meta virtualIPFinalizer ip_Meta (in_namespace (an_APINetNamespace L)) named_by (objs s) (tobjs n)"
  using guarded_run [OF assms(3)] assms(2)
    apinet_vips.vip_guarded [OF assms(1)] by simp

definition finalized_vip :: onmetal_VirtualIP where
  "finalized_vip = \<lparr>ovip_Meta = zero_meta\<lparr>om_Namespace := ''ns'', om_Name := ''vip'', om_UID := ''u1'',
     om_Finalizers := [virtualIPFinalizer]\<rparr>, ovip_IPFamily = IPv4Protocol, ovip_TargetRef = None, ovip_StatusIP = None\<rparr>"

definition example_onmetal :: onmetal_world where
  "example_onmetal = empty_onmetal\<lparr>ow_vips := [(meta_key (ovip_Meta finalized_vip), finalized_vip)]\<rparr>"

theorem apinet_ips_guarded_witness:
  "\<exists>s n. avip_Reconcile mem_apinetlet example_onmetal empty_anet (meta_key (ovip_Meta finalized_vip)) = Returns ((s, n), Inr False) \<and>
     map (\<lambda>x. om_Name (ip_Meta x)) (map snd (nw_ips n)) = [''u1''] \<and>
     guarded ovip_Meta virtualIPFinalizer ip_Meta (in_namespace (an_APINetNamespace mem_apinetlet)) named_by
       (map_of (ow_vips s)) (keyed_view ip_Meta (nw_ips n))"
proof -
  obtain s n where run: "avip_Reconcile mem_apinetlet example_onmetal empty_anet (meta_key (ovip_Meta finalized_vip)) = Returns ((s, n), Inr False)"
      and "map (\<lambda>x. om_Name (ip_Meta x)) (map snd (nw_ips n)) = [''u1'']"
    by (rule_tac that, code_simp, simp)
  moreover have "guarded ovip_Meta virtualIPFinalizer ip_Meta (in_namespace (an_APINetNamespace mem_apinetlet)) named_by
       (map_of (ow_vips s)) (keyed_view ip_Meta (nw_ips n))"
    by (rule apinet_ips_guarded [OF mem_apinet_vips, of example_onmetal empty_anet],
        simp add: guarded_def empty_anet_def keyed_view_def, rule run_handler, rule run_start, rule run)
  ultimately show ?thesis by (intro exI conjI)
qed

end
