(* ===== verification/ApinetInterfaces.thy ===== *)
theory ApinetInterfaces
  imports Apinetlet Validation
begin

text \<open>
  The apinetlet, part three: \<open>apinetlet/controllers/networkinterface_controller.go\<close>. The network
  interfaces of this API are created by others; the controller claims the one a network
  interface of onmetal-api names in its provider ID, by labels, and gives it the
  addresses of the virtual IPs and the prefixes of its source.
\<close>

section \<open>networkinterface_controller.go\<close>

definition networkInterfaceFinalizer :: string where
  "networkInterfaceFinalizer = ''apinet.api.onmetal.de/networkinterface''"

abbreviation nic_source :: "ObjectMeta \<Rightarrow> client_object" where
  "nic_source m \<equiv> \<lparr>co_Type = ''NetworkInterface'', co_Meta = m\<rparr>"

text \<open>A patch of a network interface of this API; a successful one reads the object back.\<close>

definition patch_anic ::
  "('s, 'n) apinetlet \<Rightarrow> 'n \<Rightarrow> NetworkInterface \<Rightarrow> NetworkInterface \<Rightarrow> 'n \<times> NetworkInterface \<times> go_error option" where
  "patch_anic L n x base =
     (case p_patch (an_nic L) n x base of
        (n', Inl err) \<Rightarrow> (n', x, Some err)
      | (n', Inr y) \<Rightarrow> (n', y, None))"

definition releaseAPINetNetworkInterface ::
  "('s, 'n) apinetlet \<Rightarrow> 'n \<Rightarrow> NetworkInterface \<Rightarrow> ('n \<times> go_error option) outcome" where
  "releaseAPINetNetworkInterface L n apiNetNic =
     (case SourceLabelKeys apinetletSystem (an_scheme L) (nic_source zero_meta) of
        Panics \<Rightarrow> Panics
      | Returns keys \<Rightarrow>
          (case patch_anic L n
              (apiNetNic\<lparr>nic_Meta := (nic_Meta apiNetNic)\<lparr>om_Labels := an_deleteLabels L (om_Labels (nic_Meta apiNetNic)) keys\<rparr>\<rparr>) apiNetNic of
             (n', _, e) \<Rightarrow> Returns (n', e)))"

fun release_key_loop ::
  "('s, 'n) apinetlet \<Rightarrow> 'n \<Rightarrow> NetworkInterface list \<Rightarrow> go_error list \<Rightarrow> ('n \<times> go_error list) outcome" where
  "release_key_loop L n [] errs = Returns (n, errs)"
| "release_key_loop L n (apiNetNic # rest) errs =
     (case releaseAPINetNetworkInterface L n apiNetNic of
        Panics \<Rightarrow> Panics
      | Returns (n', e) \<Rightarrow>
          release_key_loop L n' rest (case IgnoreNotFound e of None \<Rightarrow> errs | Some err \<Rightarrow> errs @ [err]))"

definition releaseNetworkInterfaceKeyAPINetInterfaces ::
  "('s, 'n) apinetlet \<Rightarrow> 'n \<Rightarrow> ObjectKey \<Rightarrow> ('n \<times> go_error option) outcome" where
  "releaseNetworkInterfaceKeyAPINetInterfaces L n nicKey =
     (case MatchingSourceKeyLabels apinetletSystem (an_scheme L) nicKey (nic_source zero_meta) of
        Panics \<Rightarrow> Panics
      | Returns sel \<Rightarrow>
          (case m_list (an_nic L) n (an_APINetNamespace L) sel 0 [] of
             Inl err \<Rightarrow> Returns (n, Some (Wrapped ''error listing apinet network interfaces'' err))
           | Inr (items, _) \<Rightarrow>
               (case release_key_loop L n items [] of
                  Panics \<Rightarrow> Panics
                | Returns (n', errs) \<Rightarrow> Returns (n', errors_Join errs))))"

text \<open>The strategies of the two claim managers.\<close>

definition anic_ClaimState :: "('s, 'n) apinetlet \<Rightarrow> client_object \<Rightarrow> NetworkInterface \<Rightarrow> ClaimState outcome" where
  "anic_ClaimState L claimer apiNetNic =
     (case SourceObjectDataFromObject apinetletSystem (an_scheme L) claimer (nic_Meta apiNetNic) of
        Panics \<Rightarrow> Panics
      | Returns None \<Rightarrow> Returns ClaimStateFree
      | Returns (Some data) \<Rightarrow>
          Returns (if sod_UID data = om_UID (co_Meta claimer) then ClaimStateClaimed else ClaimStateTaken))"

definition anic_Adopt ::
  "('s, 'n) apinetlet \<Rightarrow> 'n \<Rightarrow> client_object \<Rightarrow> NetworkInterface \<Rightarrow> ('n \<times> NetworkInterface \<times> go_error option) outcome" where
  "anic_Adopt L n claimer apiNetNic =
     (case SourceLabels apinetletSystem (an_scheme L) claimer of
        Panics \<Rightarrow> Panics
      | Returns lbls \<Rightarrow> Returns (patch_anic L n
          (apiNetNic\<lparr>nic_Meta := (nic_Meta apiNetNic)\<lparr>om_Labels := an_setLabels L (om_Labels (nic_Meta apiNetNic)) lbls\<rparr>\<rparr>) apiNetNic))"

definition anic_Release ::
  "('s, 'n) apinetlet \<Rightarrow> 'n \<Rightarrow> client_object \<Rightarrow> NetworkInterface \<Rightarrow> ('n \<times> NetworkInterface \<times> go_error option) outcome" where
  "anic_Release L n claimer apiNetNic =
     (case SourceLabelKeys apinetletSystem (an_scheme L) claimer of
        Panics \<Rightarrow> Panics
      | Returns keys \<Rightarrow> Returns (patch_anic L n
          (apiNetNic\<lparr>nic_Meta := (nic_Meta apiNetNic)\<lparr>om_Labels := an_deleteLabels L (om_Labels (nic_Meta apiNetNic)) keys\<rparr>,
             nic_Spec := (nic_Spec apiNetNic)\<lparr>nics_PublicIPs := [], nics_Prefixes := []\<rparr>\<rparr>) apiNetNic))"

definition apiNetNetworkInterfaceClaimStrategy :: "('s, 'n) apinetlet \<Rightarrow> ('n, NetworkInterface) ClaimStrategy" where
  "apiNetNetworkInterfaceClaimStrategy L =
     \<lparr>cs_ClaimState = anic_ClaimState L, cs_Adopt = anic_Adopt L, cs_Release = anic_Release L\<rparr>"

definition vip_ClaimState :: "client_object \<Rightarrow> onmetal_VirtualIP \<Rightarrow> ClaimState outcome" where
  "vip_ClaimState claimer vip =
     Returns (case ovip_TargetRef vip of
        None \<Rightarrow> ClaimStateFree
      | Some targetRef \<Rightarrow> if lur_UID targetRef = om_UID (co_Meta claimer) then ClaimStateClaimed else ClaimStateTaken)"

definition patch_vip ::
  "('s, 'n) apinetlet \<Rightarrow> 's \<Rightarrow> onmetal_VirtualIP \<Rightarrow> onmetal_VirtualIP \<Rightarrow> 's \<times> onmetal_VirtualIP \<times> go_error option" where
  "patch_vip L s x base =
     (case k_patch (ao_vip L) s x base False of
        (s', Inl err) \<Rightarrow> (s', x, Some err)
      | (s', Inr y) \<Rightarrow> (s', y, None))"

definition vip_Adopt ::
  "('s, 'n) apinetlet \<Rightarrow> 's \<Rightarrow> client_object \<Rightarrow> onmetal_VirtualIP \<Rightarrow> ('s \<times> onmetal_VirtualIP \<times> go_error option) outcome" where
  "vip_Adopt L s claimer vip =
     Returns (patch_vip L s
       (vip\<lparr>ovip_TargetRef := Some \<lparr>lur_Name = om_Name (co_Meta claimer), lur_UID = om_UID (co_Meta claimer)\<rparr>\<rparr>) vip)"

definition vip_Release ::
  "('s, 'n) apinetlet \<Rightarrow> 's \<Rightarrow> client_object \<Rightarrow> onmetal_VirtualIP \<Rightarrow> ('s \<times> onmetal_VirtualIP \<times> go_error option) outcome" where
  "vip_Release L s claimer vip = Returns (patch_vip L s (vip\<lparr>ovip_TargetRef := None\<rparr>) vip)"

definition virtualIPClaimStrategy :: "('s, 'n) apinetlet \<Rightarrow> ('s, onmetal_VirtualIP) ClaimStrategy" where
  "virtualIPClaimStrategy L = \<lparr>cs_ClaimState = vip_ClaimState, cs_Adopt = vip_Adopt L, cs_Release = vip_Release L\<rparr>"

text \<open>
  The loops over listed objects: each is claimed, errors are collected, and the claimed objects
  are the result.
\<close>

fun claim_list ::
  "('s \<Rightarrow> 'o \<Rightarrow> ('s \<times> 'o \<times> bool result) outcome) \<Rightarrow> 's \<Rightarrow> 'o list \<Rightarrow> 'o list \<Rightarrow> go_error list \<Rightarrow> ('s \<times> 'o list \<times> go_error list) outcome" where
  "claim_list claim s [] found errs = Returns (s, found, errs)"
| "claim_list claim s (x # xs) found errs =
     (case claim s x of
        Panics \<Rightarrow> Panics
      | Returns (s', x', Inl err) \<Rightarrow> claim_list claim s' xs found (errs @ [err])
      | Returns (s', x', Inr ok) \<Rightarrow> claim_list claim s' xs (if ok then found @ [x'] else found) errs)"

definition releaseNetworkInterfaceAPINetNetworkInterfaces ::
  "('s, 'n) apinetlet \<Rightarrow> 'n \<Rightarrow> onmetal_NetworkInterface \<Rightarrow> ('n \<times> go_error option) outcome" where
  "releaseNetworkInterfaceAPINetNetworkInterfaces L n nic =
     (case MatchingSourceLabels apinetletSystem (an_scheme L) (nic_source (onic_Meta nic)) of
        Panics \<Rightarrow> Panics
      | Returns sel \<Rightarrow>
          (case m_list (an_nic L) n (an_APINetNamespace L) sel 0 [] of
             Inl err \<Rightarrow> Returns (n, Some (Wrapped ''error listing apinet network interfaces'' err))
           | Inr (items, _) \<Rightarrow>
               let nonDeletingNic = nic_source ((onic_Meta nic)\<lparr>om_DeletionTimestamp := None\<rparr>) in
               (case claim_list (an_claimNIC L (apiNetNetworkInterfaceClaimStrategy L) nonDeletingNic (\<lambda>_. False)) n items [] [] of
                  Panics \<Rightarrow> Panics
                | Returns (n', _, errs) \<Rightarrow> Returns (n', errors_Join errs))))"

definition anic_delete :: "('s, 'n) apinetlet \<Rightarrow> 's \<Rightarrow> 'n \<Rightarrow> onmetal_NetworkInterface \<Rightarrow> ('s, 'n) anet_handled" where
  "anic_delete L s n nic =
     (if \<not> ContainsFinalizer (onic_Meta nic) networkInterfaceFinalizer then Returns ((s, n), Inr False)
      else
        (case releaseNetworkInterfaceAPINetNetworkInterfaces L n nic of
           Panics \<Rightarrow> Panics
         | Returns (n', Some err) \<Rightarrow> Returns ((s, n'), Inl (Wrapped ''error releasing apinet network interfaces'' err))
         | Returns (n', None) \<Rightarrow>
             (case f_remove (ao_nic L) s nic networkInterfaceFinalizer of
                (s', Some err) \<Rightarrow> Returns ((s', n'), Inl err)
              | (s', None) \<Rightarrow> Returns ((s', n'), Inr False))))"

definition networkInterfaceVirtualIPSelector :: "('s, 'n) apinetlet \<Rightarrow> onmetal_NetworkInterface \<Rightarrow> onmetal_VirtualIP \<Rightarrow> bool" where
  "networkInterfaceVirtualIPSelector L nic vip =
     (case onic_VirtualIP nic of
        None \<Rightarrow> False
      | Some vipSrc \<Rightarrow> om_Name (ovip_Meta vip) = ov_NICVirtualIPName (an_values L) (om_Name (onic_Meta nic)) vipSrc)"

definition getVirtualIPsForNetworkInterface ::
  "('s, 'n) apinetlet \<Rightarrow> 's \<Rightarrow> onmetal_NetworkInterface \<Rightarrow> ('s \<times> onmetal_VirtualIP list \<times> go_error option) outcome" where
  "getVirtualIPsForNetworkInterface L s nic =
     (case k_list (ao_vip L) s (om_Namespace (onic_Meta nic)) of
        Inl err \<Rightarrow> Returns (s, [], Some (Wrapped ''error listing virtual IPs'' err))
      | Inr items \<Rightarrow>
          (case claim_list (an_claimVIP L (virtualIPClaimStrategy L) (nic_source (onic_Meta nic)) (networkInterfaceVirtualIPSelector L nic)) s items [] [] of
             Panics \<Rightarrow> Panics
           | Returns (s', vips, errs) \<Rightarrow> Returns (s', vips, errors_Join errs)))"

definition networkInterfaceAPINetNetworkInterfaceSelector ::
  "('s, 'n) apinetlet \<Rightarrow> onmetal_NetworkInterface \<Rightarrow> NetworkInterface \<Rightarrow> bool" where
  "networkInterfaceAPINetNetworkInterfaceSelector L nic apiNetNic =
     (case ParseNetworkInterfaceID (an_isSubdomain L) (onic_ProviderID nic) of
        Inl _ \<Rightarrow> False
      | Inr (namespace, name, node, uid) \<Rightarrow> om_UID (nic_Meta apiNetNic) = uid)"

text \<open>The last of the claimed network interfaces is the one that is found.\<close>

definition getAPINetNetworkInterfaceForNetworkInterface ::
  "('s, 'n) apinetlet \<Rightarrow> 'n \<Rightarrow> onmetal_NetworkInterface \<Rightarrow> ('n \<times> NetworkInterface option \<times> go_error option) outcome" where
  "getAPINetNetworkInterfaceForNetworkInterface L n nic =
     (case m_list (an_nic L) n (an_APINetNamespace L) [] 0 [] of
        Inl err \<Rightarrow> Returns (n, None, Some (Wrapped ''error listing apinet network interfaces'' err))
      | Inr (items, _) \<Rightarrow>
          (case claim_list (an_claimNIC L (apiNetNetworkInterfaceClaimStrategy L) (nic_source (onic_Meta nic))
              (networkInterfaceAPINetNetworkInterfaceSelector L nic)) n items [] [] of
             Panics \<Rightarrow> Panics
           | Returns (n', found, errs) \<Rightarrow> Returns (n', if found = [] then None else Some (List.last found), errors_Join errs)))"

fun nic_prefixes ::
  "('s, 'n) apinetlet \<Rightarrow> 's \<Rightarrow> onmetal_NetworkInterface \<Rightarrow> (nat \<times> PrefixSource) list \<Rightarrow> net_IPPrefix list \<Rightarrow> net_IPPrefix list result outcome" where
  "nic_prefixes L s nic [] res = Returns (Inr res)"
| "nic_prefixes L s nic ((idx, prefixSrc) # rest) res =
     (case pres_Value prefixSrc of
        Some v \<Rightarrow> nic_prefixes L s nic rest (res @ [v])
      | None \<Rightarrow>
          if \<not> pres_Ephemeral prefixSrc then nic_prefixes L s nic rest res
          else
            (case k_get (ao_prefix L) s \<lparr>key_Namespace = om_Namespace (onic_Meta nic),
                key_Name = ov_NICPrefixName (an_values L) (om_Name (onic_Meta nic)) idx\<rparr> of
               Inl err \<Rightarrow> if \<not> IsNotFound err then Returns (Inl err) else nic_prefixes L s nic rest res
             | Inr ipamPrefix \<Rightarrow>
                 if opre_Phase ipamPrefix \<noteq> ov_PrefixPhaseAllocated (an_values L) then nic_prefixes L s nic rest res
                 else (case opre_Prefix ipamPrefix of
                         None \<Rightarrow> Panics
                       | Some p \<Rightarrow> nic_prefixes L s nic rest (res @ [p]))))"

definition getPrefixesForNetworkInterface ::
  "('s, 'n) apinetlet \<Rightarrow> 's \<Rightarrow> onmetal_NetworkInterface \<Rightarrow> net_IPPrefix list result outcome" where
  "getPrefixesForNetworkInterface L s nic = nic_prefixes L s nic (enumerate 0 (onic_Prefixes nic)) []"

text \<open>The public IPs of a list of virtual IPs, those without a valid address left out.\<close>

fun public_ips :: "onmetal_values \<Rightarrow> onmetal_VirtualIP list \<Rightarrow> NetworkInterfacePublicIP list outcome" where
  "public_ips V [] = Returns []"
| "public_ips V (vip # vips) =
     (if ov_IsValid V (ovip_StatusIP vip) then
        (case ovip_StatusIP vip of
           None \<Rightarrow> Panics
         | Some ip \<Rightarrow>
             (case public_ips V vips of
                Panics \<Rightarrow> Panics
              | Returns ps \<Rightarrow> Returns (\<lparr>npub_Name = ov_String V ip, npub_IPFamily = ov_Family V ip, npub_IP = ip\<rparr> # ps)))
      else public_ips V vips)"

definition managed_spec ::
  "NetworkInterfaceSpec \<Rightarrow> NetworkInterfacePublicIP list \<Rightarrow> net_IPPrefix list \<Rightarrow> NetworkInterfaceSpec" where
  "managed_spec spec publicIPs prefixes =
     spec\<lparr>nics_PublicIPs := publicIPs,
          nics_NATs := filter (\<lambda>nat. nnat_IPFamily nat \<notin> npub_IPFamily ` set publicIPs) (nics_NATs spec),
          nics_Prefixes := prefixes\<rparr>"

definition manageAPINetNetworkInterface ::
  "('s, 'n) apinetlet \<Rightarrow> 'n \<Rightarrow> NetworkInterface \<Rightarrow> onmetal_VirtualIP list \<Rightarrow> net_IPPrefix list \<Rightarrow>
   ('n \<times> NetworkInterface \<times> go_error option) outcome" where
  "manageAPINetNetworkInterface L n apiNetNic vips prefixes =
     (case public_ips (an_values L) vips of
        Panics \<Rightarrow> Panics
      | Returns publicIPs \<Rightarrow>
          let spec = managed_spec (nic_Spec apiNetNic) publicIPs prefixes in
          if nics_PublicIPs (nic_Spec apiNetNic) = publicIPs \<and> nics_Prefixes (nic_Spec apiNetNic) = prefixes \<and>
             nics_NATs (nic_Spec apiNetNic) = nics_NATs spec
          then Returns (n, apiNetNic, None)
          else Returns (patch_anic L n (apiNetNic\<lparr>nic_Spec := spec\<rparr>) apiNetNic))"

definition setNetworkInterfacePending :: "('s, 'n) apinetlet \<Rightarrow> 's \<Rightarrow> onmetal_NetworkInterface \<Rightarrow> 's \<times> go_error option" where
  "setNetworkInterfacePending L s nic =
     (let st = onic_Status nic;
          st' = \<lparr>onst_State = ov_NICStatePending (an_values L),
                 onst_LastStateTransitionTime = (if onst_State st \<noteq> ov_NICStatePending (an_values L) then Some (an_now L s)
                   else onst_LastStateTransitionTime st),
                 onst_IPs = [], onst_Prefixes = [], onst_VirtualIP = None\<rparr> in
      case k_statusPatch (ao_nic L) s (nic\<lparr>onic_Status := st'\<rparr>) nic of
        (s', Inl err) \<Rightarrow> (s', Some err)
      | (s', Inr _) \<Rightarrow> (s', None))"

definition updateNetworkInterfaceStatus ::
  "('s, 'n) apinetlet \<Rightarrow> 's \<Rightarrow> onmetal_NetworkInterface \<Rightarrow> string \<Rightarrow> addr list \<Rightarrow> prefix list \<Rightarrow> addr option \<Rightarrow> 's \<times> go_error option" where
  "updateNetworkInterfaceStatus L s nic st ips prefixes virtualIP =
     (let st' = \<lparr>onst_State = st,
                 onst_LastStateTransitionTime = (if onst_State (onic_Status nic) \<noteq> st then Some (an_now L s)
                   else onst_LastStateTransitionTime (onic_Status nic)),
                 onst_IPs = ips, onst_Prefixes = prefixes, onst_VirtualIP = virtualIP\<rparr> in
      case k_statusPatch (ao_nic L) s (nic\<lparr>onic_Status := st'\<rparr>) nic of
        (s', Inl err) \<Rightarrow> (s', Some (Wrapped ''error patching status'' err))
      | (s', Inr _) \<Rightarrow> (s', None))"

definition NetworkInterfaceStatusUpToDate ::
  "onmetal_NetworkInterface \<Rightarrow> string \<Rightarrow> addr list \<Rightarrow> prefix list \<Rightarrow> addr option \<Rightarrow> bool" where
  "NetworkInterfaceStatusUpToDate nic expectedState expectedIPs expectedIPPrefixes expectedVirtualIP \<longleftrightarrow>
     onst_State (onic_Status nic) = expectedState \<and> onst_IPs (onic_Status nic) = expectedIPs \<and>
     onst_Prefixes (onic_Status nic) = expectedIPPrefixes \<and> onst_VirtualIP (onic_Status nic) = expectedVirtualIP"

definition WorkaroundOnlyV4VirtualIPs :: "onmetal_values \<Rightarrow> addr list \<Rightarrow> addr option" where
  "WorkaroundOnlyV4VirtualIPs V ips = find (\<lambda>ip. ov_Family V ip = IPv4Protocol) ips"

text \<open>
  The three reads are all made, and their errors joined. After the patch the status is computed
  from the object the server returned.
\<close>

definition anic_reconcile :: "('s, 'n) apinetlet \<Rightarrow> 's \<Rightarrow> 'n \<Rightarrow> onmetal_NetworkInterface \<Rightarrow> ('s, 'n) anet_handled" where
  "anic_reconcile L s n nic =
     (case f_ensure (ao_nic L) s nic networkInterfaceFinalizer of
        (s1, Inl err) \<Rightarrow> Returns ((s1, n), Inl (Wrapped ''error ensuring finalizer'' err))
      | (s1, Inr True) \<Rightarrow> Returns ((s1, n), Inr True)
      | (s1, Inr False) \<Rightarrow>
          (case getAPINetNetworkInterfaceForNetworkInterface L n nic of
             Panics \<Rightarrow> Panics
           | Returns (n1, found, e1) \<Rightarrow>
               (case getVirtualIPsForNetworkInterface L s1 nic of
                  Panics \<Rightarrow> Panics
                | Returns (s2, vips, e2) \<Rightarrow>
                    (case getPrefixesForNetworkInterface L s2 nic of
                       Panics \<Rightarrow> Panics
                     | Returns (Inl e3) \<Rightarrow> Returns ((s2, n1),
                         Inl (Wrapped ''error getting APINet network interface for network interface''
                           (Joined (List.map_filter (\<lambda>e. e) [e1, e2] @ [e3]))))
                     | Returns (Inr prefixes) \<Rightarrow>
                         (case errors_Join (List.map_filter (\<lambda>e. e) [e1, e2]) of
                            Some err \<Rightarrow> Returns ((s2, n1), Inl (Wrapped ''error getting APINet network interface for network interface'' err))
                          | None \<Rightarrow>
                              (case found of
                                 None \<Rightarrow>
                                   (case setNetworkInterfacePending L s2 nic of
                                      (s3, Some err) \<Rightarrow> Returns ((s3, n1), Inl (Wrapped ''error setting network interface to pending'' err))
                                    | (s3, None) \<Rightarrow> Returns ((s3, n1), Inr False))
                               | Some apiNetNic \<Rightarrow>
                                   (case manageAPINetNetworkInterface L n1 apiNetNic vips prefixes of
                                      Panics \<Rightarrow> Panics
                                    | Returns (n2, _, Some err) \<Rightarrow> Returns ((s2, n2), Inl (Wrapped ''error managing apinet network interface'' err))
                                    | Returns (n2, y, None) \<Rightarrow>
                                        let st = apiNetNetworkInterfaceStateToNetworkInterfaceState (an_values L) (nicst_State (nic_Status y));
                                            ips = apiNetIPsToIPs (nics_IPs (nic_Spec y));
                                            ps = apiNetIPPrefixesToIPPrefixes (nics_Prefixes (nic_Spec y));
                                            vip = WorkaroundOnlyV4VirtualIPs (an_values L) (apiNetIPsToIPs (nicst_PublicIPs (nic_Status y))) in
                                        if \<not> NetworkInterfaceStatusUpToDate nic st ips ps vip then
                                          (case updateNetworkInterfaceStatus L s2 nic st ips ps vip of
                                             (s3, Some err) \<Rightarrow> Returns ((s3, n2), Inl (Wrapped ''error updating network interface status'' err))
                                           | (s3, None) \<Rightarrow> Returns ((s3, n2), Inr False))
                                        else Returns ((s2, n2), Inr False))))))))"

definition anic_reconcileExists :: "('s, 'n) apinetlet \<Rightarrow> 's \<Rightarrow> 'n \<Rightarrow> onmetal_NetworkInterface \<Rightarrow> ('s, 'n) anet_handled" where
  "anic_reconcileExists L s n nic =
     (if om_DeletionTimestamp (onic_Meta nic) \<noteq> None then anic_delete L s n nic else anic_reconcile L s n nic)"

definition anic_Reconcile :: "('s, 'n) apinetlet \<Rightarrow> 's \<Rightarrow> 'n \<Rightarrow> ObjectKey \<Rightarrow> ('s, 'n) anet_handled" where
  "anic_Reconcile L s n req =
     (case k_get (ao_nic L) s req of
        Inl err \<Rightarrow>
          if \<not> IsNotFound err then Returns ((s, n), Inl err)
          else
            (case releaseNetworkInterfaceKeyAPINetInterfaces L n req of
               Panics \<Rightarrow> Panics
             | Returns (n', Some err) \<Rightarrow> Returns ((s, n'), Inl (Wrapped ''error releasing apinet network interfaces by key'' err))
             | Returns (n', None) \<Rightarrow> Returns ((s, n'), Inr False))
      | Inr nic \<Rightarrow> anic_reconcileExists L s n nic)"

definition enqueueByVirtualIP :: "onmetal_VirtualIP \<Rightarrow> ObjectKey list" where
  "enqueueByVirtualIP vip =
     (case ovip_TargetRef vip of
        None \<Rightarrow> []
      | Some targetRef \<Rightarrow> [\<lparr>key_Namespace = om_Namespace (ovip_Meta vip), key_Name = lur_Name targetRef\<rparr>])"

definition enqueueByNetworkInterfaceVirtualIPSelection :: "('s, 'n) apinetlet \<Rightarrow> 's \<Rightarrow> onmetal_VirtualIP \<Rightarrow> ObjectKey list" where
  "enqueueByNetworkInterfaceVirtualIPSelection L s vip =
     (case k_list (ao_nic L) s (om_Namespace (ovip_Meta vip)) of
        Inl _ \<Rightarrow> []
      | Inr nics \<Rightarrow> map (\<lambda>nic. meta_key (onic_Meta nic)) (filter (\<lambda>nic. networkInterfaceVirtualIPSelector L nic vip) nics))"

section \<open>Steps on network interfaces of this API\<close>

text \<open>
  What the controller does to the network interfaces of this API, one patch at a time: adopt one (if it
  may), release one, or give one its addresses and prefixes. \<open>own\<close> says that the labels
  are those of the source, \<open>free\<close> that they are those of no source.
\<close>

inductive nic_step ::
  "bool \<Rightarrow> (ObjectKey \<Rightarrow> labels \<Rightarrow> bool) \<Rightarrow> (labels \<Rightarrow> bool) \<Rightarrow> (ObjectKey \<rightharpoonup> NetworkInterface) \<Rightarrow> (ObjectKey \<rightharpoonup> NetworkInterface) \<Rightarrow> bool"
  for adopts own free where
  adopted: "T k = Some y \<Longrightarrow> adopts \<Longrightarrow> own k (om_Labels (nic_Meta z)) \<Longrightarrow> nic_Spec z = nic_Spec y \<Longrightarrow>
    nic_step adopts own free T (T(k \<mapsto> z))"
| released: "T k = Some y \<Longrightarrow> free (om_Labels (nic_Meta z)) \<Longrightarrow>
    nic_Spec z = nic_Spec y \<or> nic_Spec z = (nic_Spec y)\<lparr>nics_PublicIPs := [], nics_Prefixes := []\<rparr> \<Longrightarrow>
    nic_step adopts own free T (T(k \<mapsto> z))"
| managed: "T k = Some y \<Longrightarrow> om_Labels (nic_Meta z) = om_Labels (nic_Meta y) \<Longrightarrow> length pub \<le> 1 \<Longrightarrow> npub_IPFamily ` set pub \<subseteq> IPFamilies \<Longrightarrow>
    nic_Spec z = managed_spec (nic_Spec y) pub ps \<Longrightarrow> nic_step adopts own free T (T(k \<mapsto> z))"

definition nics_valid :: "(ObjectKey \<rightharpoonup> NetworkInterface) \<Rightarrow> bool" where
  "nics_valid T \<longleftrightarrow> (\<forall>k y p. T k = Some y \<longrightarrow> ValidateNetworkInterfaceSpec (nic_Spec y) p = [])"

lemma managed_spec_valid:
  assumes "ValidateNetworkInterfaceSpec spec p = []" "length pub \<le> 1" "npub_IPFamily ` set pub \<subseteq> IPFamilies"
  shows "ValidateNetworkInterfaceSpec (managed_spec spec pub ps) p = []"
proof -
  have "distinct (map npub_IPFamily pub)" using assms(2) by (cases pub) auto
  moreover have "npub_IPFamily ` set pub \<inter> nnat_IPFamily ` {nat \<in> set (nics_NATs spec). nnat_IPFamily nat \<notin> npub_IPFamily ` set pub} = {}"
    by (force simp: disjoint_iff image_iff)
  moreover have "nnat_IPFamily ` {nat \<in> set (nics_NATs spec). nnat_IPFamily nat \<notin> npub_IPFamily ` set pub} \<subseteq> IPFamilies"
    using assms(1) by (auto simp: network_interface_valid_iff)
  ultimately show ?thesis using assms(1,3)
    by (simp add: network_interface_valid_iff managed_spec_def distinct_map_filter)
qed

lemma at_most_one: "distinct (map f xs) \<Longrightarrow> \<forall>x\<in>set xs. f x = c \<Longrightarrow> length xs \<le> 1"
  by (cases xs; cases "tl xs") auto

lemma nic_step_valid: "nic_step adopts own free T T' \<Longrightarrow> nics_valid T \<Longrightarrow> nics_valid T'"
proof (induction rule: nic_step.induct)
  case (released T k y z)
  have "ValidateNetworkInterfaceSpec (nic_Spec z) p = []" for p
  proof -
    have "ValidateNetworkInterfaceSpec (nic_Spec y) p = []" using released(1,4) by (auto simp: nics_valid_def)
    with released(3) show ?thesis by (elim disjE) (simp_all add: network_interface_valid_iff)
  qed
  with released(4) show ?case by (auto simp: nics_valid_def)
next
  case (managed T k y z pub ps)
  then show ?case by (auto simp: nics_valid_def managed_spec_valid)
qed (auto simp: nics_valid_def)

lemma nic_step_guarded:
  assumes "nic_step adopts own free T T'" "guarded meta f nic_Meta (labelled S kind ns) dep Own T"
    and "\<And>l k. free l \<Longrightarrow> \<not> labelled S kind ns k l"
    and "adopts \<Longrightarrow> \<exists>k0 x. Own k0 = Some x \<and> f \<in> set (om_Finalizers (meta x)) \<and> own = dep (identity (meta x))"
  shows "guarded meta f nic_Meta (labelled S kind ns) dep Own T'"
  using assms(1)
proof cases
  case (adopted k y z)
  from assms(4) [OF adopted(3)] obtain k0 x where "Own k0 = Some x" "f \<in> set (om_Finalizers (meta x))" "own = dep (identity (meta x))" by blast
  with adopted show ?thesis by (intro guarded_add [OF assms(2)]) (auto split: if_splits)
next
  case (released k y z)
  then show ?thesis using assms(2,3) unfolding guarded_def by (metis fun_upd_apply option.inject)
next
  case (managed k y z pub ps)
  then show ?thesis using assms(2) unfolding guarded_def by (metis fun_upd_apply option.inject)
qed

lemma steps_inv: "(nic_step adopts own free)\<^sup>*\<^sup>* T T' \<Longrightarrow> P T \<Longrightarrow> (\<And>T T'. nic_step adopts own free T T' \<Longrightarrow> P T \<Longrightarrow> P T') \<Longrightarrow> P T'"
  by (induction rule: rtranclp_induct) auto

section \<open>The controller's clients\<close>

text \<open>
  The laws of the clients: lists of network interfaces are complete and name each once; a patch
  based on the stored object gives it the labels and the spec of the patched one, and is not
  answered with not found; patches of virtual IPs leave network interfaces alone, and virtual IPs of one
  namespace have different names. \<open>SetLabels\<close> and \<open>DeleteLabels\<close> are updates of maps, and valid addresses have
  a family. Network interfaces have a namespace.
\<close>

locale apinet_nics = src: source_api "ao_nic L" objs onic_Meta + nicc: claim_manager "an_claimNIC L" + vipc: claim_manager "an_claimVIP L"
  for L :: "('s, 'n) apinetlet" and objs :: "'s \<Rightarrow> ObjectKey \<rightharpoonup> onmetal_NetworkInterface" +
  fixes tobjs :: "'n \<Rightarrow> ObjectKey \<rightharpoonup> NetworkInterface" and kind :: string and namespaced :: bool
  assumes nic_list: "m_list (an_nic L) n ns sel 0 [] = Inr (xs, t) \<Longrightarrow>
      distinct (map (\<lambda>y. meta_key (nic_Meta y)) xs) \<and>
      set xs = {y. tobjs n (meta_key (nic_Meta y)) = Some y \<and> key_Namespace (meta_key (nic_Meta y)) = ns \<and>
        map_of sel \<subseteq>\<^sub>m map_of (om_Labels (nic_Meta y))}"
    and nic_stored: "tobjs n k = Some y \<Longrightarrow> meta_key (nic_Meta y) = k"
    and nic_patch: "p_patch (an_nic L) n x base = (n', Inr y) \<Longrightarrow> tobjs n (meta_key (nic_Meta base)) = Some base \<Longrightarrow>
      meta_key (nic_Meta x) = meta_key (nic_Meta base) \<Longrightarrow>
      tobjs n' = (tobjs n)(meta_key (nic_Meta base) \<mapsto> y) \<and> meta_key (nic_Meta y) = meta_key (nic_Meta base) \<and>
      om_Labels (nic_Meta y) = om_Labels (nic_Meta x) \<and> nic_Spec y = nic_Spec x"
    and nic_patch_err: "p_patch (an_nic L) n x base = (n', Inl e) \<Longrightarrow>
      tobjs n' = tobjs n \<and> (IsNotFound e \<longrightarrow> tobjs n (meta_key (nic_Meta x)) = None)"
    and vip_patch: "k_patch (ao_vip L) s v b lk = (s', rv) \<Longrightarrow> objs s' = objs s"
    and nic_namespace: "k_get (ao_nic L) s key = Inr nic \<Longrightarrow> om_Namespace (onic_Meta nic) \<noteq> []"
    and vip_list: "k_list (ao_vip L) s nsp = Inr vs \<Longrightarrow> nsp \<noteq> [] \<Longrightarrow> distinct (map (\<lambda>v. om_Name (ovip_Meta v)) vs)"
    and set_labels: "map_of (an_setLabels L l new) = map_of l ++ map_of new"
    and delete_labels: "map_of (an_deleteLabels L l ks) = map_of l |` (- set ks)"
    and kind: "source_kind (an_scheme L) (nic_source mt) = Inr (kind, namespaced)"
    and family: "ov_IsValid (an_values L) (Some a) \<Longrightarrow> ov_Family (an_values L) a \<in> IPFamilies"
begin

abbreviation ofSource :: "ObjectMeta \<Rightarrow> ObjectKey \<Rightarrow> labels \<Rightarrow> bool" where
  "ofSource m \<equiv> labelled_by apinetletSystem kind namespaced (identity m)"

abbreviation ofNone :: "labels \<Rightarrow> bool" where
  "ofNone l \<equiv> map_of l (SourceUIDLabel apinetletSystem kind) = None"

lemma labels_ofSource:
  assumes "SourceLabels apinetletSystem (an_scheme L) (nic_source m) = Returns ls"
  shows "map_of ls \<subseteq>\<^sub>m map_of l \<longleftrightarrow> ofSource m k l"
  using assms SourceLabelsE_le [OF kind, of apinetletSystem m "map_of l"]
  by (auto simp: SourceLabels_def must_def labelled_by_def identity_def meta_key_def)

lemma ofSource_claimed: "ofSource m k (om_Labels (nic_Meta y)) \<Longrightarrow> anic_ClaimState L (nic_source m) y = Returns ClaimStateClaimed"
  by (auto simp: anic_ClaimState_def SourceObjectDataFromObject_def SourceObjectDataFromObjectE_def kind must_def labelled_by_def identity_def
      Let_def meta_key_def split: option.splits)

lemma released_ofNone:
  assumes "SourceLabelKeys apinetletSystem (an_scheme L) (nic_source m) = Returns keys"
  shows "ofNone (an_deleteLabels L l keys)"
  using assms by (auto simp: SourceLabelKeys_def SourceLabelKeysE_def kind must_def delete_labels split: if_splits)

text \<open>A patch whose base is stored changes the one object, or nothing.\<close>

lemma patch_cases:
  assumes "patch_anic L n (base\<lparr>nic_Meta := (nic_Meta base)\<lparr>om_Labels := l\<rparr>, nic_Spec := spec\<rparr>) base = (n', y, e)"
    and "tobjs n (meta_key (nic_Meta base)) = Some base"
  obtains (err) err where "e = Some err" "\<not> IsNotFound err" "tobjs n' = tobjs n"
  | (patched) "e = None" "tobjs n' = (tobjs n)(meta_key (nic_Meta base) \<mapsto> y)" "meta_key (nic_Meta y) = meta_key (nic_Meta base)"
      "om_Labels (nic_Meta y) = l" "nic_Spec y = spec"
proof (cases "p_patch (an_nic L) n (base\<lparr>nic_Meta := (nic_Meta base)\<lparr>om_Labels := l\<rparr>, nic_Spec := spec\<rparr>) base")
  case (Pair n1 r)
  let ?x = "base\<lparr>nic_Meta := (nic_Meta base)\<lparr>om_Labels := l\<rparr>, nic_Spec := spec\<rparr>"
  have k: "meta_key (nic_Meta ?x) = meta_key (nic_Meta base)" by (simp add: meta_key_def)
  show ?thesis
  proof (cases r)
    case (Inl err)
    with Pair assms nic_patch_err [of n ?x base n1 err] k show ?thesis by (intro that(1) [of err]) (auto simp: patch_anic_def)
  next
    case (Inr z)
    with Pair assms nic_patch [of n ?x base n1 z] k show ?thesis by (intro that(2)) (auto simp: patch_anic_def)
  qed
qed

lemma adopt_step:
  assumes "anic_Adopt L n (nic_source m) x = Returns (n', y, e)" "tobjs n (meta_key (nic_Meta x)) = Some x" adopts
  shows "(nic_step adopts (ofSource m) ofNone)\<^sup>*\<^sup>* (tobjs n) (tobjs n') \<and>
    (\<forall>k. k \<noteq> meta_key (nic_Meta x) \<longrightarrow> tobjs n' k = tobjs n k) \<and>
    (e = None \<longrightarrow> meta_key (nic_Meta y) = meta_key (nic_Meta x) \<and> tobjs n' (meta_key (nic_Meta x)) = Some y)"
proof -
  obtain ls where ls: "SourceLabels apinetletSystem (an_scheme L) (nic_source m) = Returns ls"
    and p: "patch_anic L n (x\<lparr>nic_Meta := (nic_Meta x)\<lparr>om_Labels := an_setLabels L (om_Labels (nic_Meta x)) ls\<rparr>, nic_Spec := nic_Spec x\<rparr>) x = (n', y, e)"
    using assms(1) by (auto simp: anic_Adopt_def split: outcome.splits)
  from p assms(2) show ?thesis
  proof (cases rule: patch_cases)
    case patched
    have "map_of ls \<subseteq>\<^sub>m map_of (an_setLabels L (om_Labels (nic_Meta x)) ls)" by (simp add: set_labels)
    then have "ofSource m k (om_Labels (nic_Meta y))" for k using labels_ofSource [OF ls] patched(4) by simp
    then have "nic_step adopts (ofSource m) ofNone (tobjs n) (tobjs n')"
      unfolding patched(2) using assms(2,3) patched(5) by (intro nic_step.adopted) auto
    with patched show ?thesis by auto
  qed auto
qed

lemma release_step:
  assumes "anic_Release L n (nic_source m) x = Returns (n', y, e)" "tobjs n (meta_key (nic_Meta x)) = Some x"
  shows "(nic_step adopts (ofSource m') ofNone)\<^sup>*\<^sup>* (tobjs n) (tobjs n') \<and>
    (\<forall>k. k \<noteq> meta_key (nic_Meta x) \<longrightarrow> tobjs n' k = tobjs n k) \<and>
    (IgnoreNotFound e = None \<longrightarrow> (\<exists>z. tobjs n' (meta_key (nic_Meta x)) = Some z \<and> ofNone (om_Labels (nic_Meta z))))"
proof -
  obtain keys where keys: "SourceLabelKeys apinetletSystem (an_scheme L) (nic_source m) = Returns keys"
    and p: "patch_anic L n (x\<lparr>nic_Meta := (nic_Meta x)\<lparr>om_Labels := an_deleteLabels L (om_Labels (nic_Meta x)) keys\<rparr>,
      nic_Spec := (nic_Spec x)\<lparr>nics_PublicIPs := [], nics_Prefixes := []\<rparr>\<rparr>) x = (n', y, e)"
    using assms(1) by (auto simp: anic_Release_def split: outcome.splits)
  from p assms(2) show ?thesis
  proof (cases rule: patch_cases)
    case patched
    then have f: "ofNone (om_Labels (nic_Meta y))" using released_ofNone [OF keys] by simp
    then have "nic_step adopts (ofSource m') ofNone (tobjs n) (tobjs n')"
      unfolding patched(2) using assms(2) patched(5) by (intro nic_step.released) auto
    with patched f show ?thesis by auto
  qed (auto simp: IgnoreNotFound_def)
qed

text \<open>One claim, and the loop over the claims of a list of stored network interfaces with different keys.\<close>

lemma claim_step:
  assumes "an_claimNIC L (apiNetNetworkInterfaceClaimStrategy L) (nic_source m) sel n x = Returns (n', x', r)"
    and "tobjs n (meta_key (nic_Meta x)) = Some x"
  shows "(nic_step True (ofSource m) ofNone)\<^sup>*\<^sup>* (tobjs n) (tobjs n') \<and>
    (\<forall>k. k \<noteq> meta_key (nic_Meta x) \<longrightarrow> tobjs n' k = tobjs n k) \<and>
    (r = Inr True \<longrightarrow> meta_key (nic_Meta x') = meta_key (nic_Meta x) \<and> tobjs n' (meta_key (nic_Meta x)) = Some x')"
proof -
  let ?P = "(nic_step True (ofSource m) ofNone)\<^sup>*\<^sup>* (tobjs n) (tobjs n') \<and> (\<forall>k. k \<noteq> meta_key (nic_Meta x) \<longrightarrow> tobjs n' k = tobjs n k)"
  have ?P
    using nicc.claim_calls [OF assms(1)] adopt_step [of n m x n' x', OF _ assms(2)] release_step [of n m x n' x' _ True m, OF _ assms(2)]
    by (auto simp: apiNetNetworkInterfaceClaimStrategy_def)
  moreover have "meta_key (nic_Meta x') = meta_key (nic_Meta x) \<and> tobjs n' (meta_key (nic_Meta x)) = Some x'" if "r = Inr True"
    using nicc.claim_true [OF assms(1) [unfolded that]] assms(2) adopt_step [of n m x n' x' None True, OF _ assms(2)]
    by (auto simp: apiNetNetworkInterfaceClaimStrategy_def)
  ultimately show ?thesis by blast
qed

abbreviation stored :: "'n \<Rightarrow> NetworkInterface list \<Rightarrow> bool" where
  "stored n xs \<equiv> (\<forall>x\<in>set xs. tobjs n (meta_key (nic_Meta x)) = Some x)"

lemma claim_list_steps:
  assumes "claim_list (an_claimNIC L (apiNetNetworkInterfaceClaimStrategy L) (nic_source m) sel) n xs found errs = Returns (n', found', errs')"
    and "stored n (found @ xs)" "distinct (map (\<lambda>y. meta_key (nic_Meta y)) xs)"
    and "(\<lambda>y. meta_key (nic_Meta y)) ` set found \<inter> (\<lambda>y. meta_key (nic_Meta y)) ` set xs = {}"
  shows "(nic_step True (ofSource m) ofNone)\<^sup>*\<^sup>* (tobjs n) (tobjs n') \<and> stored n' found' \<and>
    (\<forall>k. k \<notin> (\<lambda>y. meta_key (nic_Meta y)) ` set xs \<longrightarrow> tobjs n' k = tobjs n k)"
  using assms
proof (induction xs arbitrary: n found errs)
  case (Cons x xs)
  obtain n1 x1 r where c: "an_claimNIC L (apiNetNetworkInterfaceClaimStrategy L) (nic_source m) sel n x = Returns (n1, x1, r)"
    using Cons.prems(1) by (cases "an_claimNIC L (apiNetNetworkInterfaceClaimStrategy L) (nic_source m) sel n x") auto
  have st: "tobjs n (meta_key (nic_Meta x)) = Some x" using Cons.prems(2) by simp
  note s = claim_step [OF c st]
  define found1 where "found1 = (if r = Inr True then found @ [x1] else found)"
  obtain errs1 where l: "claim_list (an_claimNIC L (apiNetNetworkInterfaceClaimStrategy L) (nic_source m) sel) n1 xs found1 errs1 = Returns (n', found', errs')"
    using Cons.prems(1) c by (auto simp: found1_def split: sum.splits if_splits)
  have "stored n1 (found1 @ xs)"
    using Cons.prems(2-4) s by (auto simp: found1_def image_iff)
  moreover have "(\<lambda>y. meta_key (nic_Meta y)) ` set found1 \<inter> (\<lambda>y. meta_key (nic_Meta y)) ` set xs = {}"
    using Cons.prems(3,4) s by (auto simp: found1_def)
  ultimately have "(nic_step True (ofSource m) ofNone)\<^sup>*\<^sup>* (tobjs n1) (tobjs n') \<and> stored n' found' \<and>
    (\<forall>k. k \<notin> (\<lambda>y. meta_key (nic_Meta y)) ` set xs \<longrightarrow> tobjs n' k = tobjs n1 k)"
    using Cons.IH [OF l] Cons.prems(3) by simp
  with s show ?case by (auto intro: rtranclp_trans)
qed auto

text \<open>Claims of objects with the labels of the claimer and no selector release all of them, unless there are errors.\<close>

lemma claim_list_releases:
  assumes "claim_list (an_claimNIC L (apiNetNetworkInterfaceClaimStrategy L) (nic_source m) (\<lambda>_. False)) n xs [] [] = Returns (n', found', [])"
    and "stored n xs" "distinct (map (\<lambda>y. meta_key (nic_Meta y)) xs)" "om_DeletionTimestamp m = None"
    and "\<forall>x\<in>set xs. ofSource m (meta_key (nic_Meta x)) (om_Labels (nic_Meta x))"
  shows "\<forall>x\<in>set xs. \<forall>z. tobjs n' (meta_key (nic_Meta x)) = Some z \<longrightarrow> ofNone (om_Labels (nic_Meta z))"
  using assms
proof (induction xs arbitrary: n)
  case (Cons x xs)
  let ?claim = "an_claimNIC L (apiNetNetworkInterfaceClaimStrategy L) (nic_source m) (\<lambda>_. False)"
  have errs: "claim_list ?claim n0 ys f es = Returns (n', found', []) \<Longrightarrow> es = []" for n0 ys f es
    by (induction ys arbitrary: n0 f es) (auto split: outcome.splits sum.splits prod.splits if_splits)
  obtain n1 x1 r where c: "?claim n x = Returns (n1, x1, r)"
    using Cons.prems(1) by (cases "?claim n x") auto
  have "r \<noteq> Inr True" using nicc.claim_true [of _ _ _ n x n1 x1] c by auto
  moreover have "\<not> isl r" using Cons.prems(1) c by (cases r) (auto dest: errs)
  ultimately have r: "r = Inr False" by (cases r) auto
  have st: "tobjs n (meta_key (nic_Meta x)) = Some x" using Cons.prems(2) by simp
  note s = claim_step [OF c st]
  obtain e where e: "anic_Release L n (nic_source m) x = Returns (n1, x1, e)" "IgnoreNotFound e = None"
    using nicc.claim_released [OF c [unfolded r]] ofSource_claimed [of m "meta_key (nic_Meta x)" x] Cons.prems(4,5)
    by (auto simp: apiNetNetworkInterfaceClaimStrategy_def)
  then obtain z where z: "tobjs n1 (meta_key (nic_Meta x)) = Some z" "ofNone (om_Labels (nic_Meta z))"
    using release_step [OF e(1) st, of True m] by auto
  have l: "claim_list ?claim n1 xs [] [] = Returns (n', found', [])" using Cons.prems(1) c r by simp
  have st1: "stored n1 xs" using Cons.prems(2,3) s by (auto simp: image_iff)
  have "tobjs n' (meta_key (nic_Meta x)) = tobjs n1 (meta_key (nic_Meta x))"
    using claim_list_steps [OF l] st1 Cons.prems(3) by auto
  with z Cons.IH [OF l st1] Cons.prems(3-5) show ?case by auto
qed simp

lemma release_key_steps:
  assumes "release_key_loop L n xs errs = Returns (n', errs')" "stored n xs" "distinct (map (\<lambda>y. meta_key (nic_Meta y)) xs)"
  shows "(nic_step adopts (ofSource m') ofNone)\<^sup>*\<^sup>* (tobjs n) (tobjs n')"
  using assms
proof (induction xs arbitrary: n errs)
  case (Cons x xs)
  obtain n1 e errs1 where c: "releaseAPINetNetworkInterface L n x = Returns (n1, e)" "release_key_loop L n1 xs errs1 = Returns (n', errs')"
    using Cons.prems(1) by (auto split: outcome.splits)
  obtain keys y where keys: "SourceLabelKeys apinetletSystem (an_scheme L) (nic_source zero_meta) = Returns keys"
    and p: "patch_anic L n (x\<lparr>nic_Meta := (nic_Meta x)\<lparr>om_Labels := an_deleteLabels L (om_Labels (nic_Meta x)) keys\<rparr>, nic_Spec := nic_Spec x\<rparr>) x = (n1, y, e)"
    using c(1) by (auto simp: releaseAPINetNetworkInterface_def split: outcome.splits prod.splits)
  have st: "tobjs n (meta_key (nic_Meta x)) = Some x" using Cons.prems(2) by simp
  have "(nic_step adopts (ofSource m') ofNone)\<^sup>*\<^sup>* (tobjs n) (tobjs n1) \<and> (\<forall>k. k \<noteq> meta_key (nic_Meta x) \<longrightarrow> tobjs n1 k = tobjs n k)"
    using p st
  proof (cases rule: patch_cases)
    case patched
    then have "ofNone (om_Labels (nic_Meta y))" using released_ofNone [OF keys] by simp
    then have "nic_step adopts (ofSource m') ofNone (tobjs n) (tobjs n1)"
      unfolding patched(2) using st patched(5) by (intro nic_step.released) auto
    with patched show ?thesis by auto
  qed auto
  moreover from this have "stored n1 xs" using Cons.prems(2,3) by (auto simp: image_iff)
  ultimately show ?case using Cons.IH [OF c(2)] Cons.prems(3) by (auto intro: rtranclp_trans)
qed simp

lemma claim_list_vips:
  assumes "claim_list (an_claimVIP L (virtualIPClaimStrategy L) c sel) s xs found errs = Returns (s', found', errs')"
  shows "objs s' = objs s \<and> length found' \<le> length found + length (filter sel xs)"
  using assms
proof (induction xs arbitrary: s found errs)
  case (Cons x xs)
  obtain s1 x1 r where c: "an_claimVIP L (virtualIPClaimStrategy L) c sel s x = Returns (s1, x1, r)"
    using Cons.prems by (cases "an_claimVIP L (virtualIPClaimStrategy L) c sel s x") auto
  have o: "objs s1 = objs s"
    using vipc.claim_calls [OF c] vip_patch
    by (auto simp: virtualIPClaimStrategy_def vip_Adopt_def vip_Release_def patch_vip_def split: prod.splits sum.splits)
  show ?case
  proof (cases "r = Inr True")
    case True
    then have "sel x" using vipc.claim_true c by metis
    with Cons.IH [of s1 "found @ [x1]"] Cons.prems c o True show ?thesis by auto
  next
    case False
    then obtain es where "claim_list (an_claimVIP L (virtualIPClaimStrategy L) c sel) s1 xs found es = Returns (s', found', errs')"
      using Cons.prems c by (auto split: sum.splits if_splits)
    from Cons.IH [OF this] o show ?thesis by auto
  qed
qed simp

lemma getVirtualIPs_one:
  assumes "getVirtualIPsForNetworkInterface L s nic = Returns (s', vips, e)" "om_Namespace (onic_Meta nic) \<noteq> []"
  shows "objs s' = objs s \<and> length vips \<le> 1"
proof (cases "k_list (ao_vip L) s (om_Namespace (onic_Meta nic))")
  case (Inr items)
  let ?sel = "networkInterfaceVirtualIPSelector L nic"
  have d: "distinct (map (\<lambda>v. om_Name (ovip_Meta v)) (filter ?sel items))" by (rule distinct_map_filter [OF vip_list [OF Inr assms(2)]])
  obtain nm where nm: "\<forall>v\<in>set (filter ?sel items). om_Name (ovip_Meta v) = nm"
    by (cases "onic_VirtualIP nic") (auto simp: networkInterfaceVirtualIPSelector_def)
  have "length (filter ?sel items) \<le> 1" by (rule at_most_one [OF d nm])
  moreover obtain errs where "claim_list (an_claimVIP L (virtualIPClaimStrategy L) (nic_source (onic_Meta nic)) ?sel) s items [] [] =
      Returns (s', vips, errs)"
    using assms(1) Inr by (auto simp: getVirtualIPsForNetworkInterface_def split: outcome.splits)
  from claim_list_vips [OF this] have "objs s' = objs s" "length vips \<le> length (filter ?sel items)" by simp_all
  ultimately show ?thesis by simp
qed (use assms in \<open>auto simp: getVirtualIPsForNetworkInterface_def\<close>)

lemma public_ips_families:
  "public_ips (an_values L) vips = Returns pub \<Longrightarrow> length pub \<le> length vips \<and> npub_IPFamily ` set pub \<subseteq> IPFamilies"
  using family
  by (induction vips arbitrary: pub) (fastforce split: if_splits option.splits outcome.splits)+

lemma manage_steps:
  assumes "manageAPINetNetworkInterface L n x vips ps = Returns (n', y, e)" "tobjs n (meta_key (nic_Meta x)) = Some x" "length vips \<le> 1"
  shows "(nic_step adopts own ofNone)\<^sup>*\<^sup>* (tobjs n) (tobjs n')"
proof -
  obtain pub where pub: "public_ips (an_values L) vips = Returns pub"
    using assms(1) by (auto simp: manageAPINetNetworkInterface_def split: outcome.splits)
  then consider "n' = n" | "patch_anic L n (x\<lparr>nic_Meta := (nic_Meta x)\<lparr>om_Labels := om_Labels (nic_Meta x)\<rparr>, nic_Spec := managed_spec (nic_Spec x) pub ps\<rparr>) x = (n', y, e)"
    using assms(1) by (auto simp: manageAPINetNetworkInterface_def Let_def split: if_splits)
  then show ?thesis
  proof cases
    case 2
    then show ?thesis using assms(2)
    proof (cases rule: patch_cases)
      case patched
      have "nic_step adopts own ofNone (tobjs n) (tobjs n')"
        unfolding patched(2) using assms(2,3) patched(4,5) public_ips_families [OF pub] by (intro nic_step.managed) auto
      then show ?thesis by auto
    qed simp
  qed simp
qed

section \<open>The whole handler\<close>

lemma nic_status_keeps:
  "keeps_owner onic_Meta (objs s k) (objs (fst (setNetworkInterfacePending L s nic)) k)"
  "keeps_owner onic_Meta (objs s k) (objs (fst (updateNetworkInterfaceStatus L s nic st ips ps vip)) k)"
  using src.status_keeps [of s _ nic]
  by (auto simp: setNetworkInterfacePending_def updateNetworkInterfaceStatus_def Let_def split: prod.splits sum.splits)

lemma getAPINet_steps:
  assumes "getAPINetNetworkInterfaceForNetworkInterface L n nic = Returns (n', found, e)"
  shows "(nic_step True (ofSource (onic_Meta nic)) ofNone)\<^sup>*\<^sup>* (tobjs n) (tobjs n') \<and>
    (\<forall>x. found = Some x \<longrightarrow> tobjs n' (meta_key (nic_Meta x)) = Some x)"
proof (cases "m_list (an_nic L) n (an_APINetNamespace L) [] 0 []")
  case (Inr p)
  obtain items t where p: "p = (items, t)" by (cases p)
  obtain fs errs where c: "claim_list (an_claimNIC L (apiNetNetworkInterfaceClaimStrategy L) (nic_source (onic_Meta nic))
      (networkInterfaceAPINetNetworkInterfaceSelector L nic)) n items [] [] = Returns (n', fs, errs)"
    "found = (if fs = [] then None else Some (List.last fs))"
    using assms Inr p by (auto simp: getAPINetNetworkInterfaceForNetworkInterface_def split: outcome.splits)
  have "stored n items" "distinct (map (\<lambda>y. meta_key (nic_Meta y)) items)" using nic_list [OF Inr [unfolded p]] by auto
  with claim_list_steps [OF c(1)] c(2) show ?thesis by auto
qed (use assms in \<open>auto simp: getAPINetNetworkInterfaceForNetworkInterface_def\<close>)

lemma reconcile_steps:
  assumes r: "anic_reconcile L s n nic = Returns ((s', n'), r)" and e: "f_ensure (ao_nic L) s nic networkInterfaceFinalizer = (s, Inr False)"
    and ns: "om_Namespace (onic_Meta nic) \<noteq> []"
  shows "(nic_step True (ofSource (onic_Meta nic)) ofNone)\<^sup>*\<^sup>* (tobjs n) (tobjs n') \<and> (\<forall>k. keeps_owner onic_Meta (objs s k) (objs s' k))"
proof -
  obtain n1 found e1 where g: "getAPINetNetworkInterfaceForNetworkInterface L n nic = Returns (n1, found, e1)"
    using r e by (cases "getAPINetNetworkInterfaceForNetworkInterface L n nic") (auto simp: anic_reconcile_def)
  obtain s2 vips e2 where v: "getVirtualIPsForNetworkInterface L s nic = Returns (s2, vips, e2)"
    using r e g by (cases "getVirtualIPsForNetworkInterface L s nic") (auto simp: anic_reconcile_def)
  note g' = getAPINet_steps [OF g] and v' = getVirtualIPs_one [OF v ns]
  obtain p where ps: "getPrefixesForNetworkInterface L s2 nic = Returns p"
    using r e g v by (cases "getPrefixesForNetworkInterface L s2 nic") (auto simp: anic_reconcile_def)
  consider "s' = s2" "n' = n1" | "n' = n1" "s' = fst (setNetworkInterfacePending L s2 nic)"
    | x ps y er where "found = Some x" "manageAPINetNetworkInterface L n1 x vips ps = Returns (n', y, er)"
        "s' = s2 \<or> (\<exists>st ips pss vip. s' = fst (updateNetworkInterfaceStatus L s2 nic st ips pss vip))"
    using r e g v ps
    by (auto simp: anic_reconcile_def Let_def split: sum.splits option.splits outcome.splits prod.splits if_splits) (metis fst_conv)+
  then show ?thesis
  proof cases
    case 3
    then have "(nic_step True (ofSource (onic_Meta nic)) ofNone)\<^sup>*\<^sup>* (tobjs n1) (tobjs n')" using manage_steps g' v' by blast
    with 3 g' v' nic_status_keeps(2) [of s2 _ nic] show ?thesis by (auto intro: rtranclp_trans)
  qed (use g' v' nic_status_keeps(1) [of s2 _ nic] in auto)
qed

lemma release_all_steps:
  assumes "releaseNetworkInterfaceAPINetNetworkInterfaces L n nic = Returns (n', e)"
  shows "(nic_step True (ofSource (onic_Meta nic)) ofNone)\<^sup>*\<^sup>* (tobjs n) (tobjs n') \<and>
    (e = None \<longrightarrow> (\<forall>k y. tobjs n' k = Some y \<and> key_Namespace k = an_APINetNamespace L \<longrightarrow> \<not> ofSource (onic_Meta nic) k (om_Labels (nic_Meta y))))"
proof -
  let ?m = "(onic_Meta nic)\<lparr>om_DeletionTimestamp := None\<rparr>"
  have own: "identity ?m = identity (onic_Meta nic)" by (simp add: identity_def meta_key_def)
  obtain sel where "MatchingSourceLabels apinetletSystem (an_scheme L) (nic_source (onic_Meta nic)) = Returns sel"
    using assms by (auto simp: releaseNetworkInterfaceAPINetNetworkInterfaces_def split: outcome.splits)
  then have sel: "SourceLabels apinetletSystem (an_scheme L) (nic_source (onic_Meta nic)) = Returns sel"
    by (auto simp: MatchingSourceLabels_def MatchingSourceLabelsE_def SourceLabels_def split: sum.splits)
  show ?thesis
  proof (cases "m_list (an_nic L) n (an_APINetNamespace L) sel 0 []")
    case (Inl err)
    with assms \<open>MatchingSourceLabels _ _ _ = _\<close> show ?thesis by (auto simp: releaseNetworkInterfaceAPINetNetworkInterfaces_def)
  next
    case (Inr p)
    obtain items t where p: "p = (items, t)" by (cases p)
    obtain fs errs where c: "claim_list (an_claimNIC L (apiNetNetworkInterfaceClaimStrategy L) (nic_source ?m) (\<lambda>_. False)) n items [] [] =
        Returns (n', fs, errs)" "e = errors_Join errs"
      using assms \<open>MatchingSourceLabels _ _ _ = _\<close> Inr p
      by (auto simp: releaseNetworkInterfaceAPINetNetworkInterfaces_def Let_def split: outcome.splits)
    note l = nic_list [OF Inr [unfolded p]]
    have st: "stored n items" "distinct (map (\<lambda>y. meta_key (nic_Meta y)) items)" using l by auto
    note steps = claim_list_steps [OF c(1)]
    have "\<not> ofSource (onic_Meta nic) k (om_Labels (nic_Meta y))"
      if "e = None" and y: "tobjs n' k = Some y" "key_Namespace k = an_APINetNamespace L" for k y
    proof
      assume o: "ofSource (onic_Meta nic) k (om_Labels (nic_Meta y))"
      have "errs = []" using c(2) that(1) by (metis errors_Join_None)
      with c(1) have c1: "claim_list (an_claimNIC L (apiNetNetworkInterfaceClaimStrategy L) (nic_source ?m) (\<lambda>_. False)) n items [] [] = Returns (n', fs, [])"
        by simp
      have "\<forall>x\<in>set items. ofSource ?m (meta_key (nic_Meta x)) (om_Labels (nic_Meta x))"
        unfolding own using l labels_ofSource [OF sel] by blast
      with claim_list_releases [OF c1 st]
      have "\<forall>x\<in>set items. \<forall>z. tobjs n' (meta_key (nic_Meta x)) = Some z \<longrightarrow> ofNone (om_Labels (nic_Meta z))" by simp
      moreover have "k \<in> (\<lambda>y. meta_key (nic_Meta y)) ` set items"
      proof (rule ccontr)
        assume "k \<notin> (\<lambda>y. meta_key (nic_Meta y)) ` set items"
        then have "tobjs n k = Some y" using steps st y(1) by simp
        then have "y \<in> set items" using l nic_stored [of n k y] y(2) labels_ofSource [OF sel, of "om_Labels (nic_Meta y)" k] o by auto
        with nic_stored [OF \<open>tobjs n k = Some y\<close>] \<open>k \<notin> _\<close> show False by auto
      qed
      ultimately have "ofNone (om_Labels (nic_Meta y))" using y(1) by auto
      with o show False by (simp add: labelled_by_def)
    qed
    with steps st own show ?thesis by simp
  qed
qed

abbreviation nics_guarded :: "'s \<Rightarrow> 'n \<Rightarrow> bool" where
  "nics_guarded s n \<equiv> guarded onic_Meta networkInterfaceFinalizer nic_Meta (labelled apinetletSystem kind (an_APINetNamespace L))
     (labelled_by apinetletSystem kind namespaced) (objs s) (tobjs n)"

lemma steps_guarded:
  assumes "(nic_step adopts (ofSource m) ofNone)\<^sup>*\<^sup>* (tobjs n) (tobjs n')" "nics_guarded s n"
    and "adopts \<Longrightarrow> \<exists>k x. objs s k = Some x \<and> networkInterfaceFinalizer \<in> set (om_Finalizers (onic_Meta x)) \<and> onic_Meta x = m"
  shows "nics_guarded s n'"
  using assms(1,2)
proof (rule steps_inv)
  fix T T'
  assume "nic_step adopts (ofSource m) ofNone T T'"
    and "guarded onic_Meta networkInterfaceFinalizer nic_Meta (labelled apinetletSystem kind (an_APINetNamespace L))
      (labelled_by apinetletSystem kind namespaced) (objs s) T"
  then show "guarded onic_Meta networkInterfaceFinalizer nic_Meta (labelled apinetletSystem kind (an_APINetNamespace L))
      (labelled_by apinetletSystem kind namespaced) (objs s) T'"
    by (rule nic_step_guarded) (use assms(3) in \<open>auto simp: labelled_def\<close>)
qed

lemma gone_steps:
  assumes "releaseNetworkInterfaceKeyAPINetInterfaces L n req = Returns (n', e)"
  shows "(nic_step adopts (ofSource m') ofNone)\<^sup>*\<^sup>* (tobjs n) (tobjs n')"
proof -
  obtain sel where sel: "MatchingSourceKeyLabels apinetletSystem (an_scheme L) req (nic_source zero_meta) = Returns sel"
    using assms by (auto simp: releaseNetworkInterfaceKeyAPINetInterfaces_def split: outcome.splits)
  show ?thesis
  proof (cases "m_list (an_nic L) n (an_APINetNamespace L) sel 0 []")
    case (Inr p)
    obtain items t where p: "p = (items, t)" by (cases p)
    then obtain errs where l: "release_key_loop L n items [] = Returns (n', errs)"
      using assms sel Inr by (auto simp: releaseNetworkInterfaceKeyAPINetInterfaces_def split: outcome.splits)
    show ?thesis by (rule release_key_steps [OF l]) (use nic_list [OF Inr [unfolded p]] in auto)
  qed (use assms sel in \<open>auto simp: releaseNetworkInterfaceKeyAPINetInterfaces_def\<close>)
qed

lemma handler_steps:
  assumes "anic_Reconcile L s n req = Returns ((s', n'), r)"
  shows "\<exists>m. (nic_step True (ofSource m) ofNone)\<^sup>*\<^sup>* (tobjs n) (tobjs n')"
proof (cases "k_get (ao_nic L) s req")
  case (Inl err)
  with assms gone_steps [of n req n' _ True] show ?thesis
    by (auto simp: anic_Reconcile_def split: if_splits outcome.splits option.splits)
next
  case (Inr nic)
  obtain s1 e where e: "f_ensure (ao_nic L) s nic networkInterfaceFinalizer = (s1, e)" by fastforce
  show ?thesis
  proof (cases "om_DeletionTimestamp (onic_Meta nic) = None")
    case True
    show ?thesis
    proof (cases "e = Inr False")
      case True': True
      with e src.ensure_present have "s1 = s" by blast
      with reconcile_steps [of s n nic s' n' r] nic_namespace [OF Inr] assms Inr True e True' show ?thesis
        by (auto simp: anic_Reconcile_def anic_reconcileExists_def)
    next
      case False
      with assms Inr True e have "n' = n" by (auto simp: anic_Reconcile_def anic_reconcileExists_def anic_reconcile_def split: sum.splits bool.splits)
      then show ?thesis by simp
    qed
  next
    case False
    with assms Inr release_all_steps [of n nic n'] show ?thesis
      by (auto simp: anic_Reconcile_def anic_reconcileExists_def anic_delete_def split: if_splits outcome.splits prod.splits option.splits)
  qed
qed

lemma delete_guarded:
  assumes g: "nics_guarded s n" and x: "objs s (meta_key (onic_Meta nic)) = Some nic" and d: "anic_delete L s n nic = Returns ((s', n'), r)"
  shows "nics_guarded s' n'"
proof (cases "ContainsFinalizer (onic_Meta nic) networkInterfaceFinalizer")
  case True
  obtain e where e: "releaseNetworkInterfaceAPINetNetworkInterfaces L n nic = Returns (n', e)"
    using d True by (auto simp: anic_delete_def split: outcome.splits option.splits prod.splits)
  note steps = release_all_steps [OF e]
  have g': "nics_guarded s n'"
    by (rule steps_guarded [OF conjunct1 [OF steps] g]) (use x True in \<open>auto simp: ContainsFinalizer_def\<close>)
  show ?thesis
  proof (cases e)
    case None
    obtain re where "f_remove (ao_nic L) s nic networkInterfaceFinalizer = (s', re)"
      using d True e None by (auto simp: anic_delete_def split: option.splits prod.splits)
    then show ?thesis
      by (rule src.guarded_finalize [OF g' _ x]) (use steps None in \<open>auto simp: labelled_def\<close>)
  next
    case (Some err)
    with d True e g' show ?thesis by (auto simp: anic_delete_def)
  qed
qed (use g d in \<open>simp add: anic_delete_def\<close>)

lemma Reconcile_guarded:
  assumes g: "nics_guarded s n" and r: "anic_Reconcile L s n req = Returns ((s', n'), r)"
  shows "nics_guarded s' n'"
proof (cases "k_get (ao_nic L) s req")
  case (Inl err)
  then consider "s' = s" "n' = n" | e where "s' = s" "releaseNetworkInterfaceKeyAPINetInterfaces L n req = Returns (n', e)"
    using r by (auto simp: anic_Reconcile_def split: if_splits outcome.splits option.splits)
  then show ?thesis
  proof cases
    case 2
    then show ?thesis using steps_guarded [OF gone_steps [of n req n' e False] g] by simp
  qed (use g in simp)
next
  case (Inr nic)
  then have x: "objs s (meta_key (onic_Meta nic)) = Some nic" using src.get_ok by blast
  obtain s1 e where e: "f_ensure (ao_nic L) s nic networkInterfaceFinalizer = (s1, e)" by fastforce
  from Inr consider "anic_delete L s n nic = Returns ((s', n'), r)" | "anic_reconcile L s n nic = Returns ((s', n'), r)"
    using r by (auto simp: anic_Reconcile_def anic_reconcileExists_def split: if_splits)
  then show ?thesis
  proof cases
    case 1
    then show ?thesis by (rule delete_guarded [OF g x])
  next
    case 2
    show ?thesis
    proof (cases "e = Inr False")
      case True
      with e have f: "f_ensure (ao_nic L) s nic networkInterfaceFinalizer = (s, Inr False)" "networkInterfaceFinalizer \<in> set (om_Finalizers (onic_Meta nic))"
        using src.ensure_present by auto
      note steps = reconcile_steps [OF 2 f(1) nic_namespace [OF Inr]]
      have "nics_guarded s n'" by (rule steps_guarded [OF conjunct1 [OF steps] g]) (use x f(2) in auto)
      then show ?thesis using steps by (auto intro: guarded_owners)
    next
      case False
      with 2 e have "s' = s1" "n' = n" by (auto simp: anic_reconcile_def split: sum.splits bool.splits)
      then show ?thesis using src.guarded_ensure [OF g e x] by simp
    qed
  qed
qed

lemma Reconcile_valid: "anic_Reconcile L s n req = Returns ((s', n'), r) \<Longrightarrow> nics_valid (tobjs n) \<Longrightarrow> nics_valid (tobjs n')"
  using handler_steps steps_inv nic_step_valid by metis

text \<open>Releasing by key leaves the specs alone.\<close>

lemma release_key_specs:
  assumes "release_key_loop L n xs errs = Returns (n', errs')" "stored n xs" "distinct (map (\<lambda>y. meta_key (nic_Meta y)) xs)" "tobjs n k = Some y"
  shows "\<exists>z. tobjs n' k = Some z \<and> nic_Spec z = nic_Spec y"
  using assms
proof (induction xs arbitrary: n errs y)
  case (Cons x xs)
  obtain n1 e errs1 where c: "releaseAPINetNetworkInterface L n x = Returns (n1, e)" "release_key_loop L n1 xs errs1 = Returns (n', errs')"
    using Cons.prems(1) by (auto split: outcome.splits)
  obtain keys w where p: "patch_anic L n (x\<lparr>nic_Meta := (nic_Meta x)\<lparr>om_Labels := an_deleteLabels L (om_Labels (nic_Meta x)) keys\<rparr>, nic_Spec := nic_Spec x\<rparr>) x = (n1, w, e)"
    using c(1) by (auto simp: releaseAPINetNetworkInterface_def split: outcome.splits prod.splits)
  have st: "tobjs n (meta_key (nic_Meta x)) = Some x" using Cons.prems(2) by simp
  have other: "(\<forall>k. k \<noteq> meta_key (nic_Meta x) \<longrightarrow> tobjs n1 k = tobjs n k) \<and> (\<exists>z. tobjs n1 (meta_key (nic_Meta x)) = Some z \<and> nic_Spec z = nic_Spec x)"
    using p st by (cases rule: patch_cases) (use st in auto)
  then have "stored n1 xs" using Cons.prems(2,3) by (auto simp: image_iff)
  moreover obtain y1 where y1: "tobjs n1 k = Some y1" "nic_Spec y1 = nic_Spec y"
    using other st Cons.prems(4) by (cases "k = meta_key (nic_Meta x)") auto
  ultimately show ?case using Cons.IH [OF c(2) _ _ y1(1)] Cons.prems(3) y1(2) by auto
qed auto

lemma gone_specs:
  assumes "releaseNetworkInterfaceKeyAPINetInterfaces L n req = Returns (n', e)" "tobjs n k = Some y"
  shows "\<exists>z. tobjs n' k = Some z \<and> nic_Spec z = nic_Spec y"
proof -
  obtain sel where sel: "MatchingSourceKeyLabels apinetletSystem (an_scheme L) req (nic_source zero_meta) = Returns sel"
    using assms(1) by (auto simp: releaseNetworkInterfaceKeyAPINetInterfaces_def split: outcome.splits)
  show ?thesis
  proof (cases "m_list (an_nic L) n (an_APINetNamespace L) sel 0 []")
    case (Inr p)
    obtain items t where p: "p = (items, t)" by (cases p)
    then obtain errs where l: "release_key_loop L n items [] = Returns (n', errs)"
      using assms(1) sel Inr by (auto simp: releaseNetworkInterfaceKeyAPINetInterfaces_def split: outcome.splits)
    show ?thesis by (rule release_key_specs [OF l _ _ assms(2)]) (use nic_list [OF Inr [unfolded p]] in auto)
  qed (use assms sel in \<open>auto simp: releaseNetworkInterfaceKeyAPINetInterfaces_def\<close>)
qed

end

section \<open>In-memory clusters\<close>

lemma mem_nic_list:
  assumes "m_list (an_nic mem_apinetlet) n ns sel 0 [] = Inr (xs, t)"
  shows "distinct (map (\<lambda>y. meta_key (nic_Meta y)) xs) \<and>
      set xs = {y. keyed_view nic_Meta (nw_nics n) (meta_key (nic_Meta y)) = Some y \<and> key_Namespace (meta_key (nic_Meta y)) = ns \<and>
        map_of sel \<subseteq>\<^sub>m map_of (om_Labels (nic_Meta y))}"
proof -
  have "m_list (mem_target nic_Meta) (nw_nics n) ns sel 0 [] = Inr (xs, t)"
    using assms by (simp add: mem_apinetlet_def mclient.defs focus_target_def)
  from mem_target_list [OF this] show ?thesis by (auto simp: keyed_view_Some)
qed

lemma fold_delete: "map_of (fold AList.delete ks l) = map_of l |` (- set ks)"
  by (induction ks arbitrary: l) (auto simp: delete_conv' restrict_map_def fun_eq_iff)

lemma mem_apinet_nics:
  "apinet_nics mem_apinetlet (\<lambda>s. map_of (ow_nics s)) (\<lambda>n. keyed_view nic_Meta (nw_nics n)) ''NetworkInterface'' True"
proof (rule apinet_nics.intro)
  show "source_api (ao_nic mem_apinetlet) (\<lambda>s. map_of (ow_nics s)) onic_Meta"
    by (auto simp: mem_apinetlet_def intro!: namespaced_fin_source focus_fin_source mem_fin_source)
  show "claim_manager (an_claimNIC mem_apinetlet)" "claim_manager (an_claimVIP mem_apinetlet)"
    by (simp_all add: mem_apinetlet_def plain_claims.claim_manager_axioms)
  show "apinet_nics_axioms mem_apinetlet (\<lambda>s. map_of (ow_nics s)) (\<lambda>n. keyed_view nic_Meta (nw_nics n)) ''NetworkInterface'' True"
  proof
    show "distinct (map (\<lambda>v. om_Name (ovip_Meta v)) vs)" if "k_list (ao_vip mem_apinetlet) s nsp = Inr vs" "nsp \<noteq> []" for s nsp vs
      using that by (intro mem_fin_list [of ovip_Meta _ "ow_vips s" nsp]) (auto simp: mem_apinetlet_def focus_fin_def)
    show "om_Namespace (onic_Meta nic) \<noteq> []" if "k_get (ao_nic mem_apinetlet) s key = Inr nic" for s key nic
      using that by (auto simp: mem_apinetlet_def namespaced_fin_def focus_fin_def mem_fin_def Let_def meta_key_def split: if_splits option.splits)
    show "map_of (an_deleteLabels mem_apinetlet l ks) = map_of l |` (- set ks)" for l ks
      by (simp add: mem_apinetlet_def fold_delete)
    show "map_of (an_setLabels mem_apinetlet l new) = map_of l ++ map_of new" for l new
      by (simp add: mem_apinetlet_def)
    show "source_kind (an_scheme mem_apinetlet) (nic_source mt) = Inr (''NetworkInterface'', True)" for mt
      by (simp add: mem_apinetlet_def source_kind_def plain_scheme_def cluster_scoped_def)
    show "ov_Family (an_values mem_apinetlet) a \<in> IPFamilies" if "ov_IsValid (an_values mem_apinetlet) (Some a)" for a
      using that Family_valid [of a] by (simp add: mem_apinetlet_def IP_IsValid_def IPFamilies_def)
    show "map_of (ow_nics s') = map_of (ow_nics s)" if "k_patch (ao_vip mem_apinetlet) s v b lk = (s', rv)" for s v b lk s' rv
      using that by (auto simp: mem_apinetlet_def focus_fin_def split: prod.splits)
  qed (auto simp: mem_nic_list keyed_view_Some,
      auto simp: mem_apinetlet_def mclient.defs pclient.defs mem_patch_def keyed_view_Some split: if_splits, metis keyed_view_update)
qed

interpretation mem_anics: apinet_nics mem_apinetlet "\<lambda>s. map_of (ow_nics s)" "\<lambda>n. keyed_view nic_Meta (nw_nics n)" "''NetworkInterface''" True
  by (rule mem_apinet_nics)

section \<open>Properties\<close>

text \<open>
  C15. A network interface of this API stays claimed only as long as its claimer is there: along every
  run of the controller of network interfaces, interleaved with arbitrary other clients of
  both clusters, each network interface in the namespace of the apinetlet that carries the UID label of the apinetlet carries the
  labels of a network interface of onmetal-api that exists and has the finalizer, provided that this held at the start.
  The other clients may do anything to network interfaces of onmetal-api without the finalizer,
  and delete or change those of this API as long as they leave labels alone.
\<close>

theorem apinet_nics_guarded:
  assumes "apinet_nics L objs tobjs kind namespaced"
    and "guarded onic_Meta networkInterfaceFinalizer nic_Meta (labelled apinetletSystem kind (an_APINetNamespace L))
      (labelled_by apinetletSystem kind namespaced) (objs s0) (tobjs n0)"
    and "netlet_run (anic_Reconcile L)
      (\<lambda>s s'. keeps_finalized onic_Meta networkInterfaceFinalizer (objs s) (objs s'))
      (\<lambda>n n'. only_deletes nic_Meta (tobjs n) (tobjs n')) (s0, n0) (s, n)"
  shows "guarded onic_Meta networkInterfaceFinalizer nic_Meta (labelled apinetletSystem kind (an_APINetNamespace L))
      (labelled_by apinetletSystem kind namespaced) (objs s) (tobjs n)"
  using guarded_run [OF assms(3)] assms(2) apinet_nics.Reconcile_guarded [OF assms(1)] by simp

definition example_onic :: onmetal_NetworkInterface where
  "example_onic =
     \<lparr>onic_Meta = zero_meta\<lparr>om_Namespace := ''ns'', om_Name := ''web'', om_UID := ''u1'', om_Finalizers := [networkInterfaceFinalizer]\<rparr>,
      onic_ProviderID = GetNetworkInterfaceID ''apinet'' ''nic'' ''node'' ''x1'',
      onic_VirtualIP = Some \<lparr>vips_VirtualIPRef = Some ''vip'', vips_Ephemeral = False\<rparr>, onic_Prefixes = [],
      onic_Status = \<lparr>onst_State = [], onst_LastStateTransitionTime = None, onst_IPs = [], onst_Prefixes = [], onst_VirtualIP = None\<rparr>\<rparr>"

definition example_anic :: NetworkInterface where
  "example_anic =
     \<lparr>nic_Meta = zero_meta\<lparr>om_Namespace := ''apinet'', om_Name := ''nic'', om_UID := ''x1''\<rparr>,
      nic_Spec = \<lparr>nics_NodeRef = ''node'', nics_NetworkRef = ''net'', nics_IPs = [V4 2], nics_Prefixes = [],
        nics_NATs = [\<lparr>nnat_IPFamily = IPv4Protocol, nnat_ClaimRef = \<lparr>nnref_Name = ''gw'', nnref_UID = ''g1''\<rparr>\<rparr>], nics_PublicIPs = []\<rparr>,
      nic_Status = \<lparr>nicst_State = NetworkInterfaceStateReady, nicst_PCIAddress = None, nicst_Prefixes = [], nicst_PublicIPs = [], nicst_NATIPs = []\<rparr>\<rparr>"

definition example_nic_vip :: onmetal_VirtualIP where
  "example_nic_vip = \<lparr>ovip_Meta = zero_meta\<lparr>om_Namespace := ''ns'', om_Name := ''vip''\<rparr>, ovip_IPFamily = IPv4Protocol,
     ovip_TargetRef = None, ovip_StatusIP = Some (V4 1)\<rparr>"

definition example_nic_onmetal :: onmetal_world where
  "example_nic_onmetal = empty_onmetal\<lparr>ow_nics := [(meta_key (onic_Meta example_onic), example_onic)],
     ow_vips := [(meta_key (ovip_Meta example_nic_vip), example_nic_vip)]\<rparr>"

definition example_nic_anet :: anet_world where
  "example_nic_anet = empty_anet\<lparr>nw_nics := [(meta_key (nic_Meta example_anic), example_anic)]\<rparr>"

text \<open>The example claims the network interface and the virtual IP, and moves the network interface from NAT to the public address.\<close>

lemma example_nic_run:
  "\<exists>s n. anic_Reconcile mem_apinetlet example_nic_onmetal example_nic_anet (meta_key (onic_Meta example_onic)) = Returns ((s, n), Inr False) \<and>
     (\<forall>x \<in> set (nw_nics n). om_Labels (nic_Meta (snd x)) \<noteq> [] \<and> map npub_IP (nics_PublicIPs (nic_Spec (snd x))) = [V4 1] \<and> nics_NATs (nic_Spec (snd x)) = [])"
  by (rule exI, rule exI, rule conjI, code_simp, simp)

theorem apinet_nics_guarded_witness:
  "\<exists>s n. anic_Reconcile mem_apinetlet example_nic_onmetal example_nic_anet (meta_key (onic_Meta example_onic)) = Returns ((s, n), Inr False) \<and>
     guarded onic_Meta networkInterfaceFinalizer nic_Meta (labelled apinetletSystem ''NetworkInterface'' (an_APINetNamespace mem_apinetlet))
       (labelled_by apinetletSystem ''NetworkInterface'' True) (map_of (ow_nics s)) (keyed_view nic_Meta (nw_nics n))"
proof -
  obtain s n where run: "anic_Reconcile mem_apinetlet example_nic_onmetal example_nic_anet (meta_key (onic_Meta example_onic)) = Returns ((s, n), Inr False)"
    using example_nic_run by blast
  moreover have "guarded onic_Meta networkInterfaceFinalizer nic_Meta (labelled apinetletSystem ''NetworkInterface'' (an_APINetNamespace mem_apinetlet))
       (labelled_by apinetletSystem ''NetworkInterface'' True) (map_of (ow_nics s)) (keyed_view nic_Meta (nw_nics n))"
    by (rule apinet_nics_guarded [OF mem_apinet_nics, of example_nic_onmetal example_nic_anet],
        simp add: guarded_def example_nic_anet_def empty_anet_def keyed_view_def example_anic_def labelled_def zero_meta_def,
        rule run_handler, rule run_start, rule run)
  ultimately show ?thesis by (intro exI conjI)
qed

text \<open>
  C14. The controller writes only network interfaces that the API server's validation accepts: along every run, interleaved
  with arbitrary clients of onmetal-api and with clients of this API whose writes pass the
  validation, all network interfaces of this API satisfy \<open>ValidateNetworkInterfaceSpec\<close>, if they did so at the start. In particular a
  network interface never has a NAT and a public address, or two public addresses, of the same IP family, whatever NATs it had
  when a virtual IP was claimed for it.
\<close>

theorem apinet_nics_valid:
  assumes "apinet_nics L objs tobjs kind namespaced" "nics_valid (tobjs n0)"
    and "netlet_run (anic_Reconcile L) (\<lambda>s s'. True) (\<lambda>n n'. nics_valid (tobjs n')) (s0, n0) (s, n)"
  shows "nics_valid (tobjs n)"
  using netlet_run_inv [OF assms(3), of "\<lambda>s n. nics_valid (tobjs n)"] assms(2) apinet_nics.Reconcile_valid [OF assms(1)] by simp

lemma example_anic_valid: "nics_valid (keyed_view nic_Meta (nw_nics example_nic_anet))"
  by (auto simp: nics_valid_def network_interface_valid_iff example_nic_anet_def example_anic_def keyed_view_def empty_anet_def
      IPFamilies_def split: if_splits option.splits)

theorem apinet_nics_valid_witness:
  "\<exists>s n. anic_Reconcile mem_apinetlet example_nic_onmetal example_nic_anet (meta_key (onic_Meta example_onic)) = Returns ((s, n), Inr False) \<and>
     (\<forall>x \<in> set (nw_nics n). map npub_IP (nics_PublicIPs (nic_Spec (snd x))) = [V4 1] \<and> nics_NATs (nic_Spec (snd x)) = []) \<and>
     nics_valid (keyed_view nic_Meta (nw_nics n))"
proof -
  obtain s n where run: "anic_Reconcile mem_apinetlet example_nic_onmetal example_nic_anet (meta_key (onic_Meta example_onic)) = Returns ((s, n), Inr False)"
    and "\<forall>x \<in> set (nw_nics n). map npub_IP (nics_PublicIPs (nic_Spec (snd x))) = [V4 1] \<and> nics_NATs (nic_Spec (snd x)) = []"
    using example_nic_run by blast
  moreover have "nics_valid (keyed_view nic_Meta (nw_nics n))"
    by (rule apinet_nics_valid [OF mem_apinet_nics example_anic_valid], rule run_handler, rule run_start, rule run)
  ultimately show ?thesis by (intro exI conjI)
qed

text \<open>
  C37. A network interface whose claimer is gone keeps its addresses: when the network interface of
  onmetal-api of a request no longer exists, the reconciliation changes the spec of no
  network interface of this API, so that a released one keeps the public IPs and prefixes it was given.
\<close>

theorem gone_nic_keeps_addresses:
  assumes "apinet_nics L objs tobjs kind namespaced"
    and "k_get (ao_nic L) s req = Inl NotFound" "anic_Reconcile L s n req = Returns ((s', n'), r)" "tobjs n k = Some y"
  shows "\<exists>z. tobjs n' k = Some z \<and> nic_Spec z = nic_Spec y"
proof -
  obtain e where "releaseNetworkInterfaceKeyAPINetInterfaces L n req = Returns (n', e)"
    using assms(2,3) by (auto simp: anic_Reconcile_def split: outcome.splits option.splits)
  then show ?thesis using apinet_nics.gone_specs [OF assms(1) _ assms(4)] by blast
qed

definition example_claimed_anic :: NetworkInterface where
  "example_claimed_anic = example_anic\<lparr>
     nic_Meta := (nic_Meta example_anic)\<lparr>om_Labels := [(''apinetlet.api.onmetal.de/networkinterface-uid'', ''u1''),
       (''apinetlet.api.onmetal.de/networkinterface-name'', ''web''), (''apinetlet.api.onmetal.de/networkinterface-namespace'', ''ns'')]\<rparr>,
     nic_Spec := (nic_Spec example_anic)\<lparr>nics_NATs := [], nics_PublicIPs := [\<lparr>npub_Name = ''ip'', npub_IPFamily = IPv4Protocol, npub_IP = V4 1\<rparr>]\<rparr>\<rparr>"

definition example_claimed_anet :: anet_world where
  "example_claimed_anet = empty_anet\<lparr>nw_nics := [(meta_key (nic_Meta example_claimed_anic), example_claimed_anic)]\<rparr>"

theorem gone_nic_keeps_addresses_witness:
  "\<exists>s' n' z. anic_Reconcile mem_apinetlet empty_onmetal example_claimed_anet (meta_key (onic_Meta example_onic)) = Returns ((s', n'), Inr False) \<and>
     (\<forall>x \<in> set (nw_nics n'). om_Labels (nic_Meta (snd x)) = []) \<and>
     keyed_view nic_Meta (nw_nics n') (meta_key (nic_Meta example_claimed_anic)) = Some z \<and>
     map npub_IP (nics_PublicIPs (nic_Spec z)) = [V4 1]"
proof -
  obtain s' n' where run: "anic_Reconcile mem_apinetlet empty_onmetal example_claimed_anet (meta_key (onic_Meta example_onic)) = Returns ((s', n'), Inr False)"
    and l: "\<forall>x \<in> set (nw_nics n'). om_Labels (nic_Meta (snd x)) = []"
    by (rule_tac that, code_simp, simp)
  have "k_get (ao_nic mem_apinetlet) empty_onmetal (meta_key (onic_Meta example_onic)) = Inl NotFound" by code_simp
  moreover have "keyed_view nic_Meta (nw_nics example_claimed_anet) (meta_key (nic_Meta example_claimed_anic)) = Some example_claimed_anic"
    by (simp add: keyed_view_def example_claimed_anet_def)
  ultimately obtain z where "keyed_view nic_Meta (nw_nics n') (meta_key (nic_Meta example_claimed_anic)) = Some z" "nic_Spec z = nic_Spec example_claimed_anic"
    using gone_nic_keeps_addresses [OF mem_apinet_nics _ run] by blast
  then show ?thesis using run l by (intro exI conjI) (assumption+, simp add: example_claimed_anic_def)
qed

end
