(* ===== verification/ApinetLoadBalancers.thy ===== *)
theory ApinetLoadBalancers
  imports Apinetlet DaemonSets Scheduler
begin

text \<open>
  The apinetlet, part two: \<open>apinetlet/controllers/loadbalancer_controller.go\<close>, which translates
  load balancers of onmetal-api and their routing, and what the template it applies means for the
  instances of the load balancer.
\<close>

section \<open>loadbalancer_controller.go\<close>

definition loadBalancerFinalizer :: string where
  "loadBalancerFinalizer = ''apinet.api.onmetal.de/loadbalancer''"

definition TopologyZoneLabel :: string where
  "TopologyZoneLabel = ''topology.core.apinet.api.onmetal.de/'' @ ''zone''"

definition alb_deleteGone :: "('s, 'n) apinetlet \<Rightarrow> 's \<Rightarrow> 'n \<Rightarrow> ObjectKey \<Rightarrow> ('s, 'n) anet_handled" where
  "alb_deleteGone L s n loadBalancerKey =
     (case MatchingSourceKeyLabels apinetletSystem (an_scheme L) loadBalancerKey (onmetal_object ''LoadBalancer'' zero_meta) of
        Panics \<Rightarrow> Panics
      | Returns sel \<Rightarrow>
          (case m_deleteAllOf (an_lb L) n (an_APINetNamespace L) sel of
             (n', Some err) \<Rightarrow> Returns ((s, n'), Inl (Wrapped ''error deleting apinet public ips'' err))
           | (n', None) \<Rightarrow> Returns ((s, n'), Inr False)))"

definition alb_delete :: "('s, 'n) apinetlet \<Rightarrow> 's \<Rightarrow> 'n \<Rightarrow> onmetal_LoadBalancer \<Rightarrow> ('s, 'n) anet_handled" where
  "alb_delete L s n loadBalancer =
     (if \<not> ContainsFinalizer (olb_Meta loadBalancer) loadBalancerFinalizer then Returns ((s, n), Inr False)
      else
        (case m_delete (an_lb L) n (anet_key L (olb_Meta loadBalancer)) of
           (n', None) \<Rightarrow> Returns ((s, n'), Inr True)
         | (n', Some err) \<Rightarrow>
             if \<not> IsNotFound err then Returns ((s, n'), Inl (Wrapped ''error deleting apinet load balancer'' err))
             else
               (case f_remove (ao_lb L) s loadBalancer loadBalancerFinalizer of
                  (s', Some err) \<Rightarrow> Returns ((s', n'), Inl (Wrapped ''error removing finalizer'' err))
                | (s', None) \<Rightarrow> Returns ((s', n'), Inr False))))"

text \<open>
  A destination whose provider ID does not parse keeps its address and has no target. The
  routing of a load balancer without one is empty.
\<close>

definition anet_destination :: "('s, 'n) apinetlet \<Rightarrow> onmetal_LoadBalancerDestination \<Rightarrow> LoadBalancerDestination" where
  "anet_destination L dst =
     \<lparr>lbd_IP = ipToAPINetIP (old_IP dst),
      lbd_TargetRef =
        (case old_TargetProviderID dst of
           None \<Rightarrow> None
         | Some providerID \<Rightarrow>
             (case ParseNetworkInterfaceID (an_isSubdomain L) providerID of
                Inl _ \<Rightarrow> None
              | Inr (_, name, node, uid) \<Rightarrow> Some \<lparr>lbt_UID = uid, lbt_Name = name, lbt_NodeRef = node\<rparr>))\<rparr>"

definition anet_routing ::
  "('s, 'n) apinetlet \<Rightarrow> labels \<Rightarrow> LoadBalancer \<Rightarrow> onmetal_LoadBalancerDestination list \<Rightarrow> LoadBalancerRouting" where
  "anet_routing L lbls apiNetLoadBalancer dsts =
     \<lparr>lbr_Meta = zero_meta\<lparr>om_Namespace := an_APINetNamespace L, om_Name := om_Name (lb_Meta apiNetLoadBalancer), om_Labels := lbls,
        om_OwnerReferences := [an_newControllerRef L (lb_Meta apiNetLoadBalancer)
          \<lparr>gvk_Group = GroupName, gvk_Version = ''v1alpha1'', gvk_Kind = ''LoadBalancer''\<rparr>]\<rparr>,
      lbr_Destinations = map (anet_destination L) dsts\<rparr>"

definition manageAPINetLoadBalancerRouting ::
  "('s, 'n) apinetlet \<Rightarrow> 's \<Rightarrow> 'n \<Rightarrow> onmetal_LoadBalancer \<Rightarrow> LoadBalancer \<Rightarrow> ('n \<times> go_error option) outcome" where
  "manageAPINetLoadBalancerRouting L s n loadBalancer apiNetLoadBalancer =
     (let applyDestinations = (\<lambda>dsts.
        case SourceLabels apinetletSystem (an_scheme L) (onmetal_object ''LoadBalancer'' (olb_Meta loadBalancer)) of
          Panics \<Rightarrow> Panics
        | Returns lbls \<Rightarrow>
            (case m_apply (an_lbrouting L) n (anet_routing L lbls apiNetLoadBalancer dsts) of
               (n', Inl err) \<Rightarrow> Returns (n', Some (Wrapped ''error applying apinet load balancer routing'' err))
             | (n', Inr _) \<Rightarrow> Returns (n', None))) in
      case k_get (ao_lbrouting L) s (meta_key (olb_Meta loadBalancer)) of
        Inl err \<Rightarrow>
          if \<not> IsNotFound err then Returns (n, Some (Wrapped ''error getting load balancer routing'' err))
          else applyDestinations []
      | Inr loadBalancerRouting \<Rightarrow> applyDestinations (olbr_Destinations loadBalancerRouting))"

definition getPublicLoadBalancerAPINetIPs :: "onmetal_LoadBalancer \<Rightarrow> LoadBalancerIP list" where
  "getPublicLoadBalancerAPINetIPs loadBalancer =
     map (\<lambda>ipFamily. \<lparr>lbip_Name = ToLower ipFamily, lbip_IPFamily = ipFamily, lbip_IP = ZeroAddr\<rparr>) (olb_IPFamilies loadBalancer)"

fun internal_lb_ips ::
  "('s, 'n) apinetlet \<Rightarrow> 's \<Rightarrow> onmetal_LoadBalancer \<Rightarrow> (nat \<times> IPSource) list \<Rightarrow> LoadBalancerIP list \<Rightarrow> LoadBalancerIP list result outcome" where
  "internal_lb_ips L s loadBalancer [] ips = Returns (Inr ips)"
| "internal_lb_ips L s loadBalancer ((i, ip) # rest) ips =
     (case ips_Value ip of
        Some v \<Rightarrow> internal_lb_ips L s loadBalancer rest
          (ips @ [\<lparr>lbip_Name = ''ip-'' @ dec_nat i, lbip_IPFamily = ov_Family (an_values L) v, lbip_IP = v\<rparr>])
      | None \<Rightarrow>
          if \<not> ips_Ephemeral ip then internal_lb_ips L s loadBalancer rest ips
          else
            (case k_get (ao_prefix L) s \<lparr>key_Namespace = om_Namespace (olb_Meta loadBalancer),
                key_Name = ov_LBIPPrefixName (an_values L) (om_Name (olb_Meta loadBalancer)) i\<rparr> of
               Inl err \<Rightarrow>
                 if \<not> IsNotFound err then Returns (Inl (Wrapped ''error getting prefix'' err))
                 else internal_lb_ips L s loadBalancer rest ips
             | Inr p \<Rightarrow>
                 if \<not> an_isControlledBy L (opre_Meta p) (olb_Meta loadBalancer) \<or> \<not> isPrefixAllocated (an_values L) p
                 then internal_lb_ips L s loadBalancer rest ips
                 else
                   (case ov_PrefixIP (an_values L) (opre_Prefix p) of
                      Panics \<Rightarrow> Panics
                    | Returns a \<Rightarrow> internal_lb_ips L s loadBalancer rest
                        (ips @ [\<lparr>lbip_Name = ''ip-'' @ dec_nat i, lbip_IPFamily = opre_IPFamily p, lbip_IP = a\<rparr>]))))"

definition getInternalLoadBalancerAPINetIPs ::
  "('s, 'n) apinetlet \<Rightarrow> 's \<Rightarrow> onmetal_LoadBalancer \<Rightarrow> LoadBalancerIP list result outcome" where
  "getInternalLoadBalancerAPINetIPs L s loadBalancer =
     internal_lb_ips L s loadBalancer (enumerate 0 (olb_IPs loadBalancer)) []"

text \<open>The load balancer that is applied: its selector, its template and the term of its template all carry the source labels.\<close>

definition anet_lb ::
  "('s, 'n) apinetlet \<Rightarrow> labels \<Rightarrow> LoadBalancerType \<Rightarrow> string \<Rightarrow> LoadBalancerIP list \<Rightarrow> onmetal_LoadBalancer \<Rightarrow> LoadBalancer" where
  "anet_lb L lbls lbType networkName ips loadBalancer =
     (let selector = \<lparr>ls_MatchLabels = lbls, ls_MatchExpressions = []\<rparr> in
      \<lparr>lb_Meta = anet_meta L (olb_Meta loadBalancer) lbls,
       lb_Spec =
         \<lparr>lbs_Type = lbType, lbs_NetworkRef = networkName, lbs_IPs = ips,
          lbs_Ports = loadBalancerPortsToAPINetLoadBalancerPortConfigs (olb_Ports loadBalancer),
          lbs_Selector = Some selector,
          lbs_Template =
            \<lparr>it_Meta = zero_meta\<lparr>om_Labels := lbls\<rparr>,
             it_Spec = \<lparr>is_Type = [], is_LoadBalancerType = [], is_NetworkRef = [], is_IPs = [], is_LoadBalancerPorts = [],
               is_Affinity = Some \<lparr>aff_NodeAffinity = None, aff_InstanceAntiAffinity = Some \<lparr>iaa_Required =
                 [\<lparr>iat_LabelSelector = Some selector, iat_TopologyKey = TopologyZoneLabel\<rparr>]\<rparr>\<rparr>,
               is_TopologySpreadConstraints = None, is_NodeRef = None\<rparr>\<rparr>\<rparr>,
       lb_Status = \<lparr>lbst_CollisionCount = None\<rparr>\<rparr>)"

definition applyAPINetLoadBalancer ::
  "('s, 'n) apinetlet \<Rightarrow> 's \<Rightarrow> 'n \<Rightarrow> onmetal_LoadBalancer \<Rightarrow> string \<Rightarrow> ('n \<times> LoadBalancer result) outcome" where
  "applyAPINetLoadBalancer L s n loadBalancer apiNetNetworkName =
     (case loadBalancerTypeToAPINetLoadBalancerType (an_values L) (olb_Type loadBalancer) of
        Inl err \<Rightarrow> Returns (n, Inl err)
      | Inr apiNetLoadBalancerType \<Rightarrow>
          (case (if olb_Type loadBalancer = ov_LBInternal (an_values L) then getInternalLoadBalancerAPINetIPs L s loadBalancer
                 else if olb_Type loadBalancer = ov_LBPublic (an_values L) then Returns (Inr (getPublicLoadBalancerAPINetIPs loadBalancer))
                 else Returns (Inr [])) of
             Panics \<Rightarrow> Panics
           | Returns (Inl err) \<Rightarrow> Returns (n, Inl err)
           | Returns (Inr ips) \<Rightarrow>
               (case SourceLabels apinetletSystem (an_scheme L) (onmetal_object ''LoadBalancer'' (olb_Meta loadBalancer)) of
                  Panics \<Rightarrow> Panics
                | Returns lbls \<Rightarrow>
                    (case m_apply (an_lb L) n (anet_lb L lbls apiNetLoadBalancerType apiNetNetworkName ips loadBalancer) of
                       (n', Inl err) \<Rightarrow> Returns (n', Inl (Wrapped ''error applying apinet load balancer'' err))
                     | (n', Inr apiNetLoadBalancer) \<Rightarrow> Returns (n', Inr apiNetLoadBalancer)))))"

definition updateLoadBalancerIPs ::
  "('s, 'n) apinetlet \<Rightarrow> 's \<Rightarrow> onmetal_LoadBalancer \<Rightarrow> addr list \<Rightarrow> 's \<times> go_error option" where
  "updateLoadBalancerIPs L s loadBalancer ips =
     (case k_statusPatch (ao_lb L) s (loadBalancer\<lparr>olb_StatusIPs := ips\<rparr>) loadBalancer of
        (s', Inl err) \<Rightarrow> (s', Some err)
      | (s', Inr _) \<Rightarrow> (s', None))"

definition alb_reconcile :: "('s, 'n) apinetlet \<Rightarrow> 's \<Rightarrow> 'n \<Rightarrow> onmetal_LoadBalancer \<Rightarrow> ('s, 'n) anet_handled" where
  "alb_reconcile L s n loadBalancer =
     (case f_ensure (ao_lb L) s loadBalancer loadBalancerFinalizer of
        (s', Inl err) \<Rightarrow> Returns ((s', n), Inl (Wrapped ''error ensuring finalizer'' err))
      | (s', Inr True) \<Rightarrow> Returns ((s', n), Inr True)
      | (s', Inr False) \<Rightarrow>
          (case getAPINetNetworkName L s' \<lparr>key_Namespace = om_Namespace (olb_Meta loadBalancer), key_Name = olb_NetworkRef loadBalancer\<rparr> of
             Inl err \<Rightarrow> Returns ((s', n), Inl err)
           | Inr apiNetNetworkName \<Rightarrow>
               if apiNetNetworkName = [] then Returns ((s', n), Inr False)
               else
                 (case applyAPINetLoadBalancer L s' n loadBalancer apiNetNetworkName of
                    Panics \<Rightarrow> Panics
                  | Returns (n', Inl err) \<Rightarrow> Returns ((s', n'), Inl (Wrapped ''error applying apinet load balancer'' err))
                  | Returns (n', Inr apiNetLoadBalancer) \<Rightarrow>
                      (case manageAPINetLoadBalancerRouting L s' n' loadBalancer apiNetLoadBalancer of
                         Panics \<Rightarrow> Panics
                       | Returns (n2, Some err) \<Rightarrow> Returns ((s', n2), Inl err)
                       | Returns (n2, None) \<Rightarrow>
                           let actualIPs = apiNetIPsToIPs (GetLoadBalancerIPs apiNetLoadBalancer) in
                           if actualIPs \<noteq> olb_StatusIPs loadBalancer then
                             (case updateLoadBalancerIPs L s' loadBalancer actualIPs of
                                (s2, Some err) \<Rightarrow> Returns ((s2, n2), Inl (ErrMsg ''error patching load balancer status''))
                              | (s2, None) \<Rightarrow> Returns ((s2, n2), Inr False))
                           else Returns ((s', n2), Inr False)))))"

definition alb_reconcileExists :: "('s, 'n) apinetlet \<Rightarrow> 's \<Rightarrow> 'n \<Rightarrow> onmetal_LoadBalancer \<Rightarrow> ('s, 'n) anet_handled" where
  "alb_reconcileExists L s n loadBalancer =
     (if om_DeletionTimestamp (olb_Meta loadBalancer) \<noteq> None then alb_delete L s n loadBalancer else alb_reconcile L s n loadBalancer)"

definition alb_Reconcile :: "('s, 'n) apinetlet \<Rightarrow> 's \<Rightarrow> 'n \<Rightarrow> ObjectKey \<Rightarrow> ('s, 'n) anet_handled" where
  "alb_Reconcile L s n req =
     (case k_get (ao_lb L) s req of
        Inl err \<Rightarrow>
          if \<not> IsNotFound err then Returns ((s, n), Inl (Wrapped ''error getting load balancer'' err))
          else alb_deleteGone L s n req
      | Inr loadBalancer \<Rightarrow> alb_reconcileExists L s n loadBalancer)"

section \<open>The discipline of finalizers\<close>

text \<open>The routing is another kind of object, and leaves load balancers alone.\<close>

locale apinet_lbs = named_netlet "ao_lb L" objs olb_Meta "an_lb L" tobjs lb_Meta
  for L :: "('s, 'n) apinetlet" and objs :: "'s \<Rightarrow> ObjectKey \<rightharpoonup> onmetal_LoadBalancer" and tobjs :: "'n \<Rightarrow> ObjectKey \<rightharpoonup> LoadBalancer" +
  assumes routing_other: "m_apply (an_lbrouting L) n z = (n', rz) \<Longrightarrow> tobjs n' = tobjs n"
begin

lemma lb_status_keeps:
  "keeps_owner olb_Meta (objs s k) (objs (fst (updateLoadBalancerIPs L s x ips)) k)"
  using src.status_keeps [of s _ x]
  by (auto simp: updateLoadBalancerIPs_def split: prod.splits sum.splits)

lemma routing_keeps: "manageAPINetLoadBalancerRouting L s n x y = Returns (n', e) \<Longrightarrow> tobjs n' = tobjs n"
  using routing_other
  by (auto simp: manageAPINetLoadBalancerRouting_def Let_def split: sum.splits if_splits outcome.splits prod.splits)

lemma anet_lb_key: "meta_key (lb_Meta (anet_lb L lbls ty net ips x)) = \<lparr>key_Namespace = an_APINetNamespace L, key_Name = om_UID (olb_Meta x)\<rparr>"
  by (simp add: anet_lb_def Let_def) (simp add: anet_key_def)

lemma lb_apply_applies:
  "applyAPINetLoadBalancer L s n x net = Returns (n', a) \<Longrightarrow>
   n' = n \<or> (\<exists>y r1. m_apply (an_lb L) n y = (n', r1) \<and> meta_key (lb_Meta y) = \<lparr>key_Namespace = an_APINetNamespace L, key_Name = om_UID (olb_Meta x)\<rparr>)"
  using anet_lb_key
  by (auto simp: applyAPINetLoadBalancer_def split: sum.splits outcome.splits prod.splits; metis)

lemma lb_reconcile_applies:
  assumes r: "alb_reconcile L s n x = Returns ((s', n'), r)" and e: "f_ensure (ao_lb L) s x loadBalancerFinalizer = (s, Inr False)"
  shows "(\<forall>k. keeps_owner olb_Meta (objs s k) (objs s' k)) \<and>
    (tobjs n' = tobjs n \<or> (\<exists>net n1 a. applyAPINetLoadBalancer L s n x net = Returns (n1, a) \<and> tobjs n' = tobjs n1))"
proof -
  consider "s' = s" "n' = n" | net n1 a where "applyAPINetLoadBalancer L s n x net = Returns (n1, a)"
    "s' = s \<or> (\<exists>ips. s' = fst (updateLoadBalancerIPs L s x ips))" "tobjs n' = tobjs n1"
    using r e routing_keeps
    by (auto simp: alb_reconcile_def Let_def split: sum.splits if_splits outcome.splits prod.splits option.splits) (metis fst_conv)+
  then show ?thesis
  proof cases
    case 2
    then have "\<forall>k. keeps_owner olb_Meta (objs s k) (objs s' k)" using lb_status_keeps [of s _ x] by auto
    with 2 show ?thesis by blast
  qed simp
qed

end

sublocale apinet_lbs \<subseteq> lbs: named_handler "ao_lb L" objs olb_Meta "an_lb L" tobjs lb_Meta loadBalancerFinalizer "an_APINetNamespace L"
    "alb_Reconcile L" "alb_deleteGone L" "alb_delete L" "alb_reconcile L"
proof
  fix s n x s' n' r
  assume e: "f_ensure (ao_lb L) s x loadBalancerFinalizer = (s, Inr False)" and x: "objs s (meta_key (olb_Meta x)) = Some x"
    and r: "alb_reconcile L s n x = Returns ((s', n'), r)"
  show "(\<forall>k. keeps_owner olb_Meta (objs s k) (objs s' k)) \<and>
        (tobjs n' = tobjs n \<or> (\<exists>y n1 r1. m_apply (an_lb L) n y = (n1, r1) \<and> tobjs n' = tobjs n1 \<and>
            meta_key (lb_Meta y) = \<lparr>key_Namespace = an_APINetNamespace L, key_Name = om_UID (olb_Meta x)\<rparr>))"
    using lb_reconcile_applies [OF r e] lb_apply_applies [of s n x] by metis
qed (auto simp: alb_Reconcile_def alb_reconcileExists_def alb_deleteGone_def alb_delete_def alb_reconcile_def anet_key_def
    split: sum.splits outcome.splits prod.splits option.splits if_splits bool.splits)

context apinet_lbs
begin

lemmas lb_guarded = lbs.Reconcile_guarded

end

lemma mem_apinet_lbs: "apinet_lbs mem_apinetlet (\<lambda>s. map_of (ow_lbs s)) (\<lambda>n. keyed_view lb_Meta (nw_lbs n))"
  unfolding apinet_lbs_def apinet_lbs_axioms_def named_netlet_def mem_apinetlet_def
  by (auto intro!: focus_fin_source mem_fin_source focus_target_target mem_target_target)
    (auto simp: focus_target_def split: prod.splits)

interpretation mem_albs: apinet_lbs mem_apinetlet "\<lambda>s. map_of (ow_lbs s)" "\<lambda>n. keyed_view lb_Meta (nw_lbs n)"
  by (rule mem_apinet_lbs)

section \<open>Instances of a load balancer\<close>

text \<open>
  An instance of a load balancer carries the labels of its template and the required
  anti-affinity of the template. The daemon set controller creates such instances, as long as setting a label
  and the controller leave the other labels alone.
\<close>

definition instance_of :: "LoadBalancer \<Rightarrow> Instance \<Rightarrow> bool" where
  "instance_of lb inst \<longleftrightarrow>
     map_of (om_Labels (it_Meta (lbs_Template (lb_Spec lb)))) \<subseteq>\<^sub>m map_of (om_Labels (inst_Meta inst)) \<and>
     anti_affinity_terms inst =
       (case is_Affinity (it_Spec (lbs_Template (lb_Spec lb))) of
          None \<Rightarrow> None | Some a \<Rightarrow> map_option iaa_Required (aff_InstanceAntiAffinity a))"

lemma replaced_anti_affinity:
  "aff_InstanceAntiAffinity (ReplaceDaemonSetInstanceNodeNameNodeAffinity a name) =
     (case a of None \<Rightarrow> None | Some x \<Rightarrow> aff_InstanceAntiAffinity x)"
  by (simp add: ReplaceDaemonSetInstanceNodeNameNodeAffinity_def Let_def split: option.split)

lemma created_instance_of:
  assumes "\<And>k v m. k \<notin> fst ` set (om_Labels (it_Meta (lbs_Template (lb_Spec lb)))) \<Longrightarrow> map_of (om_Labels m) \<subseteq>\<^sub>m map_of (om_Labels (de_setLabel E k v m))"
    and "\<And>owner m m'. de_setController E owner m = Inr m' \<Longrightarrow> om_Labels m' = om_Labels m"
    and "ControllerRevisionHashLabel \<notin> fst ` set (om_Labels (it_Meta (lbs_Template (lb_Spec lb))))"
    and "createInstance E s (daemonSet_of apiVersion lb) nodeName instName hash = (s', r)"
  shows "(s' = s \<and> isl r) \<or> (\<exists>obj. k_create (de_instances E) s obj = (s', r) \<and> instance_of lb obj)"
proof (cases "de_setController E (ds_Meta (daemonSet_of apiVersion lb))
    (de_setLabel E ControllerRevisionHashLabel hash ((inst_Meta (template_instance (daemonSet_of apiVersion lb)))\<lparr>om_Name := instName\<rparr>))")
  case (Inr meta)
  define obj where "obj = (template_instance (daemonSet_of apiVersion lb))\<lparr>inst_Meta := meta,
    inst_Spec := (inst_Spec (template_instance (daemonSet_of apiVersion lb)))\<lparr>is_Affinity :=
      Some (ReplaceDaemonSetInstanceNodeNameNodeAffinity (is_Affinity (inst_Spec (template_instance (daemonSet_of apiVersion lb)))) nodeName)\<rparr>\<rparr>"
  have "k_create (de_instances E) s obj = (s', r)" using assms(4) Inr by (simp add: createInstance_def Let_def obj_def)
  moreover have "map_of (om_Labels (it_Meta (lbs_Template (lb_Spec lb)))) \<subseteq>\<^sub>m map_of (om_Labels meta)"
    using assms(1) [OF assms(3), of "(inst_Meta (template_instance (daemonSet_of apiVersion lb)))\<lparr>om_Name := instName\<rparr>" hash] assms(2) [OF Inr]
    by (simp add: template_instance_def daemonSet_of_def)
  then have "instance_of lb obj"
    by (simp add: instance_of_def obj_def anti_affinity_terms_def replaced_anti_affinity template_instance_def daemonSet_of_def split: option.split)
  ultimately show ?thesis by blast
qed (use assms(4) in \<open>auto simp: createInstance_def Let_def\<close>)

text \<open>Selectors made of labels select the objects that carry all of them.\<close>

locale label_selectors =
  fixes A :: "('q, 'l, 'f) selector_api"
  assumes label_selector: "distinct (map fst ls) \<Longrightarrow>
    \<exists>sel. sa_AsSelector A (Some \<lparr>ls_MatchLabels = ls, ls_MatchExpressions = []\<rparr>) = Inr sel \<and>
      (\<forall>lbls. sa_Matches A sel lbls \<longleftrightarrow> map_of ls \<subseteq>\<^sub>m map_of lbls)"
begin

lemma own_term_hits:
  assumes "distinct (map fst lbls)" "instance_of (anet_lb L lbls ty net ips lb) e"
  shows "term_hits A \<lparr>iat_LabelSelector = Some \<lparr>ls_MatchLabels = lbls, ls_MatchExpressions = []\<rparr>, iat_TopologyKey = key\<rparr> (om_Labels (inst_Meta e))"
  using label_selector [OF assms(1)] assms(2)
  by (auto simp: term_hits_def instance_of_def anet_lb_def Let_def)

end

interpretation plain_labels: label_selectors plain_selectors
proof
  fix ls :: labels
  assume d: "distinct (map fst ls)"
  have "list_all (\<lambda>q. label_requirement q lbls) (map (\<lambda>(k, v). (k, SelIn, [v])) ls) \<longleftrightarrow> map_of ls \<subseteq>\<^sub>m map_of lbls" for lbls
  proof -
    have "label_requirement (k, SelIn, [v]) lbls \<longleftrightarrow> map_of lbls k = Some v" for k v
      by (auto simp: label_requirement_def split: option.splits)
    then have "list_all (\<lambda>q. label_requirement q lbls) (map (\<lambda>(k, v). (k, SelIn, [v])) ls) \<longleftrightarrow> (\<forall>(k, v) \<in> set ls. map_of lbls k = Some v)"
      by (auto simp: list_all_iff)
    also have "\<dots> \<longleftrightarrow> (\<forall>k v. map_of ls k = Some v \<longrightarrow> map_of lbls k = Some v)" using d by auto
    also have "\<dots> \<longleftrightarrow> map_of ls \<subseteq>\<^sub>m map_of lbls" unfolding map_le_def dom_def by (simp, metis)
    finally show ?thesis .
  qed
  then show "\<exists>sel. sa_AsSelector plain_selectors (Some \<lparr>ls_MatchLabels = ls, ls_MatchExpressions = []\<rparr>) = Inr sel \<and>
      (\<forall>lbls. sa_Matches plain_selectors sel lbls \<longleftrightarrow> map_of ls \<subseteq>\<^sub>m map_of lbls)"
    by (simp add: plain_selectors_def)
qed

lemma SourceLabels_distinct:
  "SourceLabels S E src = Returns lbls \<Longrightarrow> distinct (map fst lbls)"
  by (auto simp: SourceLabels_def SourceLabelsE_def must_def Let_def split: sum.splits prod.splits
      intro!: distinct_update)

section \<open>Properties\<close>

text \<open>
  C16. Load balancers of onmetal-api are spread over zones: whenever the apinetlet applies a load
  balancer, and the scheduler filters the nodes for one of its instances, no node in a zone in
  which another instance of the load balancer (of the same namespace) already runs is left.
\<close>

theorem apinet_lb_one_per_zone:
  assumes "label_selectors A" "orders_ok ords"
    and "SourceLabels apinetletSystem (an_scheme L) src = Returns lbls"
    and "instance_of (anet_lb L lbls ty net ips lb) inst" "instance_of (anet_lb L lbls ty net ips lb) e"
    and "filterNodesByInstanceAntiAffinity A ords inst nodes = Inr res"
    and "n \<in> set res" "m \<in> set nodes" "e \<in> insts m" "same_ns e inst"
    and "map_of (node_labels m) TopologyZoneLabel = Some zone"
  shows "map_of (node_labels n) TopologyZoneLabel \<noteq> Some zone"
proof -
  let ?t = "\<lparr>iat_LabelSelector = Some \<lparr>ls_MatchLabels = lbls, ls_MatchExpressions = []\<rparr>, iat_TopologyKey = TopologyZoneLabel\<rparr>"
  have "?t \<in> terms_of inst" using assms(4) by (simp add: instance_of_def anet_lb_def Let_def)
  moreover have "term_hits A ?t (om_Labels (inst_Meta e))"
    by (rule label_selectors.own_term_hits [OF assms(1) SourceLabels_distinct [OF assms(3)] assms(5)])
  moreover have "anti_affine A inst nodes n" using filter_anti_affinity [OF assms(2,6)] assms(7) by simp
  ultimately show ?thesis using assms(8-11) unfolding anti_affine_def by fastforce
qed

definition example_onmetal_lb :: onmetal_LoadBalancer where
  "example_onmetal_lb = \<lparr>olb_Meta = zero_meta\<lparr>om_Namespace := ''ns'', om_Name := ''web'', om_UID := ''u1''\<rparr>, olb_Type = ''Public'',
     olb_IPFamilies = [IPv4Protocol], olb_IPs = [], olb_NetworkRef = ''net'', olb_Ports = [], olb_StatusIPs = []\<rparr>"

definition example_lb_labels :: labels where
  "example_lb_labels = [(''apinetlet.api.onmetal.de/loadbalancer-uid'', ''u1''), (''apinetlet.api.onmetal.de/loadbalancer-name'', ''web''),
     (''apinetlet.api.onmetal.de/loadbalancer-namespace'', ''ns'')]"

definition example_lb_applied :: LoadBalancer where
  "example_lb_applied = anet_lb mem_apinetlet example_lb_labels LoadBalancerTypePublic ''n1'' (getPublicLoadBalancerAPINetIPs example_onmetal_lb) example_onmetal_lb"

definition example_lb_instance :: "string \<Rightarrow> Instance" where
  "example_lb_instance name =
     \<lparr>inst_Meta = (it_Meta (lbs_Template (lb_Spec example_lb_applied)))\<lparr>om_Namespace := ''apinet'', om_Name := name\<rparr>,
      inst_Spec = it_Spec (lbs_Template (lb_Spec example_lb_applied)), inst_Status = \<lparr>ist_IPs = [], ist_CollisionCount = None\<rparr>\<rparr>"

definition example_zone_node :: "string \<Rightarrow> string \<Rightarrow> (string \<times> Instance) list \<Rightarrow> snode" where
  "example_zone_node name zone xs = (name, \<lparr>ci_node = Some (example_node name [(TopologyZoneLabel, zone)]), ci_instances = xs\<rparr>)"

text \<open>With an instance on node a of zone z1, node b of the same zone is filtered out and node c of zone z2 is left.\<close>

theorem apinet_lb_one_per_zone_witness:
  "\<exists>a b c. a = example_zone_node ''a'' ''z1'' [(''i1'', example_lb_instance ''i1'')] \<and> b = example_zone_node ''b'' ''z1'' [] \<and>
     c = example_zone_node ''c'' ''z2'' [] \<and>
     filterNodesByInstanceAntiAffinity plain_selectors list_orders (example_lb_instance ''i2'') [a, b, c] = Inr [c] \<and>
     map_of (node_labels c) TopologyZoneLabel \<noteq> Some ''z1''"
proof (intro exI conjI)
  let ?a = "example_zone_node ''a'' ''z1'' [(''i1'', example_lb_instance ''i1'')]"
    and ?b = "example_zone_node ''b'' ''z1'' []" and ?c = "example_zone_node ''c'' ''z2'' []"
  show r: "filterNodesByInstanceAntiAffinity plain_selectors list_orders (example_lb_instance ''i2'') [?a, ?b, ?c] = Inr [?c]"
    by code_simp
  have l: "SourceLabels apinetletSystem (an_scheme mem_apinetlet) (onmetal_object ''LoadBalancer'' (olb_Meta example_onmetal_lb)) = Returns example_lb_labels"
    by code_simp
  have i: "instance_of (anet_lb mem_apinetlet example_lb_labels LoadBalancerTypePublic ''n1'' (getPublicLoadBalancerAPINetIPs example_onmetal_lb) example_onmetal_lb)
      (example_lb_instance name)" for name
    by (simp add: instance_of_def example_lb_instance_def example_lb_applied_def anti_affinity_terms_def split: option.split)
  have o: "orders_ok list_orders" by (simp add: orders_ok_def list_orders_def)
  show "map_of (node_labels ?c) TopologyZoneLabel \<noteq> Some ''z1''"
    by (rule apinet_lb_one_per_zone [OF plain_labels.label_selectors_axioms o l i i r, of _ ?a])
      (simp_all add: example_zone_node_def node_labels_def example_node_def same_ns_def example_lb_instance_def)
qed (rule refl)+

end
