(* ===== verification/Strategies.thy ===== *)
theory Strategies
  imports Validation
begin

text \<open>
  The strategies of the storages in \<open>internal/registry\<close>: how the API server prepares and checks an
  object of each kind before it stores it, the reset fields of the status subresource, and the
  labels and fields by which objects are selected. A \<open>runtime.Object\<close> is a value of a sum type
  with one constructor per kind, so a failing type assertion is a panic. The metadata fields
  that can be selected come from \<open>k8s.io/apiserver\<close> and are a parameter.
\<close>

section \<open>The internal version\<close>

text \<open>
  The strategies work on the types of \<open>internal/apis/core\<close>. They have the fields of the served version,
  which \<open>ApiTypes\<close> models, so each is a synonym of the record of the same name.
\<close>

type_synonym core_DaemonSetSpec = DaemonSetSpec
type_synonym core_DaemonSetStatus = DaemonSetStatus
type_synonym core_InstanceType = InstanceType
type_synonym core_InstanceSpec = InstanceSpec
type_synonym core_Affinity = Affinity
type_synonym core_InstanceAntiAffinity = InstanceAntiAffinity
type_synonym core_InstanceAffinityTerm = InstanceAffinityTerm
type_synonym core_NodeAffinity = NodeAffinity
type_synonym core_NodeSelector = NodeSelector
type_synonym core_NodeSelectorTerm = NodeSelectorTerm
type_synonym core_NodeSelectorRequirement = NodeSelectorRequirement
type_synonym core_NodeSelectorOperator = NodeSelectorOperator
type_synonym core_TopologySpreadConstraint = TopologySpreadConstraint
type_synonym core_InstanceStatus = InstanceStatus
type_synonym core_InstanceTemplate = InstanceTemplate
type_synonym core_IPType = IPType
type_synonym core_IPSpec = IPSpec
type_synonym core_IPClaimRef = IPClaimRef
type_synonym core_IPAddressSpec = IPAddressSpec
type_synonym core_IPAddressClaimRef = IPAddressClaimRef
type_synonym core_LoadBalancerType = LoadBalancerType
type_synonym core_LoadBalancerSpec = LoadBalancerSpec
type_synonym core_LoadBalancerIP = LoadBalancerIP
type_synonym core_LoadBalancerPort = LoadBalancerPort
type_synonym core_LoadBalancerStatus = LoadBalancerStatus
type_synonym core_LoadBalancerRouting = LoadBalancerRouting
type_synonym core_LoadBalancerDestination = LoadBalancerDestination
type_synonym core_LoadBalancerTargetRef = LoadBalancerTargetRef
type_synonym core_NATGatewaySpec = NATGatewaySpec
type_synonym core_NATGatewayIP = NATGatewayIP
type_synonym core_NATGatewayStatus = NATGatewayStatus
type_synonym core_NATGatewayAutoscalerSpec = NATGatewayAutoscalerSpec
type_synonym core_NATTable = NATTable
type_synonym core_NATIP = NATIP
type_synonym core_NATTableIPTargetRef = NATTableIPTargetRef
type_synonym core_NATIPSection = NATIPSection
type_synonym core_NetworkSpec = NetworkSpec
type_synonym core_NetworkIDSpec = NetworkIDSpec
type_synonym core_NetworkIDClaimRef = NetworkIDClaimRef
type_synonym core_NetworkInterfaceSpec = NetworkInterfaceSpec
type_synonym core_NetworkInterfaceNAT = NetworkInterfaceNAT
type_synonym core_NetworkInterfaceNATClaimRef = NetworkInterfaceNATClaimRef
type_synonym core_NetworkInterfacePublicIP = NetworkInterfacePublicIP
type_synonym core_NetworkInterfaceState = NetworkInterfaceState
type_synonym core_PCIAddress = PCIAddress
type_synonym core_NetworkInterfaceStatus = NetworkInterfaceStatus
type_synonym core_Node = Node

section \<open>Objects of any kind\<close>

datatype core_object =
    DaemonSet_obj DaemonSet
  | Instance_obj Instance
  | IP_obj IP
  | IPAddress_obj IPAddress
  | LoadBalancer_obj LoadBalancer
  | LoadBalancerRouting_obj LoadBalancerRouting
  | NATGateway_obj NATGateway
  | NATGatewayAutoscaler_obj NATGatewayAutoscaler
  | NATTable_obj NATTable
  | Network_obj Network
  | NetworkID_obj NetworkID
  | NetworkInterface_obj NetworkInterface
  | Node_obj Node

primrec kind_of :: "core_object \<Rightarrow> string" where
  "kind_of (DaemonSet_obj x) = ''DaemonSet''"
| "kind_of (Instance_obj x) = ''Instance''"
| "kind_of (IP_obj x) = ''IP''"
| "kind_of (IPAddress_obj x) = ''IPAddress''"
| "kind_of (LoadBalancer_obj x) = ''LoadBalancer''"
| "kind_of (LoadBalancerRouting_obj x) = ''LoadBalancerRouting''"
| "kind_of (NATGateway_obj x) = ''NATGateway''"
| "kind_of (NATGatewayAutoscaler_obj x) = ''NATGatewayAutoscaler''"
| "kind_of (NATTable_obj x) = ''NATTable''"
| "kind_of (Network_obj x) = ''Network''"
| "kind_of (NetworkID_obj x) = ''NetworkID''"
| "kind_of (NetworkInterface_obj x) = ''NetworkInterface''"
| "kind_of (Node_obj x) = ''Node''"

primrec object_meta :: "core_object \<Rightarrow> ObjectMeta" where
  "object_meta (DaemonSet_obj x) = ds_Meta x"
| "object_meta (Instance_obj x) = inst_Meta x"
| "object_meta (IP_obj x) = ip_Meta x"
| "object_meta (IPAddress_obj x) = ia_Meta x"
| "object_meta (LoadBalancer_obj x) = lb_Meta x"
| "object_meta (LoadBalancerRouting_obj x) = lbr_Meta x"
| "object_meta (NATGateway_obj x) = ng_Meta x"
| "object_meta (NATGatewayAutoscaler_obj x) = nga_Meta x"
| "object_meta (NATTable_obj x) = nt_Meta x"
| "object_meta (Network_obj x) = net_Meta x"
| "object_meta (NetworkID_obj x) = nid_Meta x"
| "object_meta (NetworkInterface_obj x) = nic_Meta x"
| "object_meta (Node_obj x) = node_Meta x"

primrec set_meta :: "ObjectMeta \<Rightarrow> core_object \<Rightarrow> core_object" where
  "set_meta m (DaemonSet_obj x) = DaemonSet_obj (x\<lparr>ds_Meta := m\<rparr>)"
| "set_meta m (Instance_obj x) = Instance_obj (x\<lparr>inst_Meta := m\<rparr>)"
| "set_meta m (IP_obj x) = IP_obj (x\<lparr>ip_Meta := m\<rparr>)"
| "set_meta m (IPAddress_obj x) = IPAddress_obj (x\<lparr>ia_Meta := m\<rparr>)"
| "set_meta m (LoadBalancer_obj x) = LoadBalancer_obj (x\<lparr>lb_Meta := m\<rparr>)"
| "set_meta m (LoadBalancerRouting_obj x) = LoadBalancerRouting_obj (x\<lparr>lbr_Meta := m\<rparr>)"
| "set_meta m (NATGateway_obj x) = NATGateway_obj (x\<lparr>ng_Meta := m\<rparr>)"
| "set_meta m (NATGatewayAutoscaler_obj x) = NATGatewayAutoscaler_obj (x\<lparr>nga_Meta := m\<rparr>)"
| "set_meta m (NATTable_obj x) = NATTable_obj (x\<lparr>nt_Meta := m\<rparr>)"
| "set_meta m (Network_obj x) = Network_obj (x\<lparr>net_Meta := m\<rparr>)"
| "set_meta m (NetworkID_obj x) = NetworkID_obj (x\<lparr>nid_Meta := m\<rparr>)"
| "set_meta m (NetworkInterface_obj x) = NetworkInterface_obj (x\<lparr>nic_Meta := m\<rparr>)"
| "set_meta m (Node_obj x) = Node_obj (x\<lparr>node_Meta := m\<rparr>)"

text \<open>The type assertions \<open>obj.(*core.Kind)\<close>.\<close>

definition to_DaemonSet :: "core_object \<Rightarrow> DaemonSet option" where
  "to_DaemonSet obj = (case obj of DaemonSet_obj x \<Rightarrow> Some x | _ \<Rightarrow> None)"
definition to_Instance :: "core_object \<Rightarrow> Instance option" where
  "to_Instance obj = (case obj of Instance_obj x \<Rightarrow> Some x | _ \<Rightarrow> None)"
definition to_IP :: "core_object \<Rightarrow> IP option" where
  "to_IP obj = (case obj of IP_obj x \<Rightarrow> Some x | _ \<Rightarrow> None)"
definition to_IPAddress :: "core_object \<Rightarrow> IPAddress option" where
  "to_IPAddress obj = (case obj of IPAddress_obj x \<Rightarrow> Some x | _ \<Rightarrow> None)"
definition to_LoadBalancer :: "core_object \<Rightarrow> LoadBalancer option" where
  "to_LoadBalancer obj = (case obj of LoadBalancer_obj x \<Rightarrow> Some x | _ \<Rightarrow> None)"
definition to_LoadBalancerRouting :: "core_object \<Rightarrow> LoadBalancerRouting option" where
  "to_LoadBalancerRouting obj = (case obj of LoadBalancerRouting_obj x \<Rightarrow> Some x | _ \<Rightarrow> None)"
definition to_NATGateway :: "core_object \<Rightarrow> NATGateway option" where
  "to_NATGateway obj = (case obj of NATGateway_obj x \<Rightarrow> Some x | _ \<Rightarrow> None)"
definition to_NATGatewayAutoscaler :: "core_object \<Rightarrow> NATGatewayAutoscaler option" where
  "to_NATGatewayAutoscaler obj = (case obj of NATGatewayAutoscaler_obj x \<Rightarrow> Some x | _ \<Rightarrow> None)"
definition to_NATTable :: "core_object \<Rightarrow> NATTable option" where
  "to_NATTable obj = (case obj of NATTable_obj x \<Rightarrow> Some x | _ \<Rightarrow> None)"
definition to_Network :: "core_object \<Rightarrow> Network option" where
  "to_Network obj = (case obj of Network_obj x \<Rightarrow> Some x | _ \<Rightarrow> None)"
definition to_NetworkID :: "core_object \<Rightarrow> NetworkID option" where
  "to_NetworkID obj = (case obj of NetworkID_obj x \<Rightarrow> Some x | _ \<Rightarrow> None)"
definition to_NetworkInterface :: "core_object \<Rightarrow> NetworkInterface option" where
  "to_NetworkInterface obj = (case obj of NetworkInterface_obj x \<Rightarrow> Some x | _ \<Rightarrow> None)"
definition to_Node :: "core_object \<Rightarrow> Node option" where
  "to_Node obj = (case obj of Node_obj x \<Rightarrow> Some x | _ \<Rightarrow> None)"

lemmas to_defs = to_DaemonSet_def to_Instance_def to_IP_def to_IPAddress_def to_LoadBalancer_def to_LoadBalancerRouting_def
  to_NATGateway_def to_NATGatewayAutoscaler_def to_NATTable_def to_Network_def to_NetworkID_def to_NetworkInterface_def to_Node_def

text \<open>A function on one asserted object, and on a new and an old one.\<close>

definition asserted :: "(core_object \<Rightarrow> 'a option) \<Rightarrow> core_object \<Rightarrow> ('a \<Rightarrow> 'b) \<Rightarrow> 'b outcome" where
  "asserted to obj f = (case to obj of None \<Rightarrow> Panics | Some x \<Rightarrow> Returns (f x))"

definition asserted2 :: "(core_object \<Rightarrow> 'a option) \<Rightarrow> core_object \<Rightarrow> core_object \<Rightarrow> ('a \<Rightarrow> 'a \<Rightarrow> 'b) \<Rightarrow> 'b outcome" where
  "asserted2 to obj old f = (case (to obj, to old) of (Some x, Some y) \<Rightarrow> Returns (f x y) | _ \<Rightarrow> Panics)"

section \<open>Selection\<close>

type_synonym fields = "(string \<times> string) list"

record meta_fields =
  ObjectMetaFieldsSet :: "ObjectMeta \<Rightarrow> bool \<Rightarrow> fields"
  AddObjectMetaFieldsSet :: "fields \<Rightarrow> ObjectMeta \<Rightarrow> bool \<Rightarrow> fields"

record ('l, 'f) selection_predicate =
  sp_Label :: 'l
  sp_Field :: 'f
  sp_GetAttrs :: "core_object \<Rightarrow> (labels \<times> fields) result"
  sp_IndexFields :: "string list"

definition daemonSet_SelectableFields :: "meta_fields \<Rightarrow> DaemonSet \<Rightarrow> fields" where
  "daemonSet_SelectableFields F x = ObjectMetaFieldsSet F (ds_Meta x) True"

definition daemonSet_GetAttrs :: "meta_fields \<Rightarrow> core_object \<Rightarrow> (labels \<times> fields) result" where
  "daemonSet_GetAttrs F obj =
     (case to_DaemonSet obj of
        None \<Rightarrow> Inl (ErrMsg ''given object is not a DaemonSet'')
      | Some x \<Rightarrow> Inr (om_Labels (ds_Meta x), daemonSet_SelectableFields F x))"

definition MatchDaemonSet :: "meta_fields \<Rightarrow> 'l \<Rightarrow> 'f \<Rightarrow> ('l, 'f) selection_predicate" where
  "MatchDaemonSet F label field = \<lparr>sp_Label = label, sp_Field = field, sp_GetAttrs = daemonSet_GetAttrs F, sp_IndexFields = []\<rparr>"

definition instance_SelectableFields :: "meta_fields \<Rightarrow> Instance \<Rightarrow> fields" where
  "instance_SelectableFields F x = ObjectMetaFieldsSet F (inst_Meta x) True"

definition instance_GetAttrs :: "meta_fields \<Rightarrow> core_object \<Rightarrow> (labels \<times> fields) result" where
  "instance_GetAttrs F obj =
     (case to_Instance obj of
        None \<Rightarrow> Inl (ErrMsg ''given object is not a Instance'')
      | Some x \<Rightarrow> Inr (om_Labels (inst_Meta x), instance_SelectableFields F x))"

definition MatchInstance :: "meta_fields \<Rightarrow> 'l \<Rightarrow> 'f \<Rightarrow> ('l, 'f) selection_predicate" where
  "MatchInstance F label field = \<lparr>sp_Label = label, sp_Field = field, sp_GetAttrs = instance_GetAttrs F, sp_IndexFields = []\<rparr>"

definition ip_SelectableFields :: "meta_fields \<Rightarrow> IP \<Rightarrow> fields" where
  "ip_SelectableFields F ip = AddObjectMetaFieldsSet F [(''spec.ip'', addr_String (ipspec_IP (ip_Spec ip)))] (ip_Meta ip) True"

definition ip_GetAttrs :: "meta_fields \<Rightarrow> core_object \<Rightarrow> (labels \<times> fields) result" where
  "ip_GetAttrs F obj =
     (case to_IP obj of
        None \<Rightarrow> Inl (ErrMsg ''given object is not a IP'')
      | Some x \<Rightarrow> Inr (om_Labels (ip_Meta x), ip_SelectableFields F x))"

definition MatchIP :: "meta_fields \<Rightarrow> 'l \<Rightarrow> 'f \<Rightarrow> ('l, 'f) selection_predicate" where
  "MatchIP F label field = \<lparr>sp_Label = label, sp_Field = field, sp_GetAttrs = ip_GetAttrs F, sp_IndexFields = [''spec.ip'']\<rparr>"

definition ipAddress_SelectableFields :: "meta_fields \<Rightarrow> IPAddress \<Rightarrow> fields" where
  "ipAddress_SelectableFields F x = ObjectMetaFieldsSet F (ia_Meta x) True"

definition ipAddress_GetAttrs :: "meta_fields \<Rightarrow> core_object \<Rightarrow> (labels \<times> fields) result" where
  "ipAddress_GetAttrs F obj =
     (case to_IPAddress obj of
        None \<Rightarrow> Inl (ErrMsg ''given object is not a IPAddress'')
      | Some x \<Rightarrow> Inr (om_Labels (ia_Meta x), ipAddress_SelectableFields F x))"

definition MatchIPAddress :: "meta_fields \<Rightarrow> 'l \<Rightarrow> 'f \<Rightarrow> ('l, 'f) selection_predicate" where
  "MatchIPAddress F label field = \<lparr>sp_Label = label, sp_Field = field, sp_GetAttrs = ipAddress_GetAttrs F, sp_IndexFields = []\<rparr>"

definition loadBalancer_SelectableFields :: "meta_fields \<Rightarrow> LoadBalancer \<Rightarrow> fields" where
  "loadBalancer_SelectableFields F x = ObjectMetaFieldsSet F (lb_Meta x) True"

definition loadBalancer_GetAttrs :: "meta_fields \<Rightarrow> core_object \<Rightarrow> (labels \<times> fields) result" where
  "loadBalancer_GetAttrs F obj =
     (case to_LoadBalancer obj of
        None \<Rightarrow> Inl (ErrMsg ''given object is not a LoadBalancer'')
      | Some x \<Rightarrow> Inr (om_Labels (lb_Meta x), loadBalancer_SelectableFields F x))"

definition MatchLoadBalancer :: "meta_fields \<Rightarrow> 'l \<Rightarrow> 'f \<Rightarrow> ('l, 'f) selection_predicate" where
  "MatchLoadBalancer F label field = \<lparr>sp_Label = label, sp_Field = field, sp_GetAttrs = loadBalancer_GetAttrs F, sp_IndexFields = []\<rparr>"

definition loadBalancerRouting_SelectableFields :: "meta_fields \<Rightarrow> LoadBalancerRouting \<Rightarrow> fields" where
  "loadBalancerRouting_SelectableFields F x = ObjectMetaFieldsSet F (lbr_Meta x) True"

definition loadBalancerRouting_GetAttrs :: "meta_fields \<Rightarrow> core_object \<Rightarrow> (labels \<times> fields) result" where
  "loadBalancerRouting_GetAttrs F obj =
     (case to_LoadBalancerRouting obj of
        None \<Rightarrow> Inl (ErrMsg ''given object is not a LoadBalancerRouting'')
      | Some x \<Rightarrow> Inr (om_Labels (lbr_Meta x), loadBalancerRouting_SelectableFields F x))"

definition MatchLoadBalancerRouting :: "meta_fields \<Rightarrow> 'l \<Rightarrow> 'f \<Rightarrow> ('l, 'f) selection_predicate" where
  "MatchLoadBalancerRouting F label field = \<lparr>sp_Label = label, sp_Field = field, sp_GetAttrs = loadBalancerRouting_GetAttrs F, sp_IndexFields = []\<rparr>"

definition natGateway_SelectableFields :: "meta_fields \<Rightarrow> NATGateway \<Rightarrow> fields" where
  "natGateway_SelectableFields F x = ObjectMetaFieldsSet F (ng_Meta x) True"

definition natGateway_GetAttrs :: "meta_fields \<Rightarrow> core_object \<Rightarrow> (labels \<times> fields) result" where
  "natGateway_GetAttrs F obj =
     (case to_NATGateway obj of
        None \<Rightarrow> Inl (ErrMsg ''given object is not a NATGateway'')
      | Some x \<Rightarrow> Inr (om_Labels (ng_Meta x), natGateway_SelectableFields F x))"

definition MatchNATGateway :: "meta_fields \<Rightarrow> 'l \<Rightarrow> 'f \<Rightarrow> ('l, 'f) selection_predicate" where
  "MatchNATGateway F label field = \<lparr>sp_Label = label, sp_Field = field, sp_GetAttrs = natGateway_GetAttrs F, sp_IndexFields = []\<rparr>"

definition natGatewayAutoscaler_SelectableFields :: "meta_fields \<Rightarrow> NATGatewayAutoscaler \<Rightarrow> fields" where
  "natGatewayAutoscaler_SelectableFields F x = ObjectMetaFieldsSet F (nga_Meta x) True"

definition natGatewayAutoscaler_GetAttrs :: "meta_fields \<Rightarrow> core_object \<Rightarrow> (labels \<times> fields) result" where
  "natGatewayAutoscaler_GetAttrs F obj =
     (case to_NATGatewayAutoscaler obj of
        None \<Rightarrow> Inl (ErrMsg ''given object is not a NATGatewayAutoscaler'')
      | Some x \<Rightarrow> Inr (om_Labels (nga_Meta x), natGatewayAutoscaler_SelectableFields F x))"

definition MatchNATGatewayAutoscaler :: "meta_fields \<Rightarrow> 'l \<Rightarrow> 'f \<Rightarrow> ('l, 'f) selection_predicate" where
  "MatchNATGatewayAutoscaler F label field = \<lparr>sp_Label = label, sp_Field = field, sp_GetAttrs = natGatewayAutoscaler_GetAttrs F, sp_IndexFields = []\<rparr>"

definition natTable_SelectableFields :: "meta_fields \<Rightarrow> NATTable \<Rightarrow> fields" where
  "natTable_SelectableFields F x = ObjectMetaFieldsSet F (nt_Meta x) True"

definition natTable_GetAttrs :: "meta_fields \<Rightarrow> core_object \<Rightarrow> (labels \<times> fields) result" where
  "natTable_GetAttrs F obj =
     (case to_NATTable obj of
        None \<Rightarrow> Inl (ErrMsg ''given object is not a NATTable'')
      | Some x \<Rightarrow> Inr (om_Labels (nt_Meta x), natTable_SelectableFields F x))"

definition MatchNATTable :: "meta_fields \<Rightarrow> 'l \<Rightarrow> 'f \<Rightarrow> ('l, 'f) selection_predicate" where
  "MatchNATTable F label field = \<lparr>sp_Label = label, sp_Field = field, sp_GetAttrs = natTable_GetAttrs F, sp_IndexFields = []\<rparr>"

definition network_SelectableFields :: "meta_fields \<Rightarrow> Network \<Rightarrow> fields" where
  "network_SelectableFields F x = ObjectMetaFieldsSet F (net_Meta x) True"

definition network_GetAttrs :: "meta_fields \<Rightarrow> core_object \<Rightarrow> (labels \<times> fields) result" where
  "network_GetAttrs F obj =
     (case to_Network obj of
        None \<Rightarrow> Inl (ErrMsg ''given object is not a Network'')
      | Some x \<Rightarrow> Inr (om_Labels (net_Meta x), network_SelectableFields F x))"

definition MatchNetwork :: "meta_fields \<Rightarrow> 'l \<Rightarrow> 'f \<Rightarrow> ('l, 'f) selection_predicate" where
  "MatchNetwork F label field = \<lparr>sp_Label = label, sp_Field = field, sp_GetAttrs = network_GetAttrs F, sp_IndexFields = []\<rparr>"

definition networkID_SelectableFields :: "meta_fields \<Rightarrow> NetworkID \<Rightarrow> fields" where
  "networkID_SelectableFields F x = ObjectMetaFieldsSet F (nid_Meta x) True"

definition networkID_GetAttrs :: "meta_fields \<Rightarrow> core_object \<Rightarrow> (labels \<times> fields) result" where
  "networkID_GetAttrs F obj =
     (case to_NetworkID obj of
        None \<Rightarrow> Inl (ErrMsg ''given object is not a NetworkID'')
      | Some x \<Rightarrow> Inr (om_Labels (nid_Meta x), networkID_SelectableFields F x))"

definition MatchNetworkID :: "meta_fields \<Rightarrow> 'l \<Rightarrow> 'f \<Rightarrow> ('l, 'f) selection_predicate" where
  "MatchNetworkID F label field = \<lparr>sp_Label = label, sp_Field = field, sp_GetAttrs = networkID_GetAttrs F, sp_IndexFields = []\<rparr>"

definition networkInterface_SelectableFields :: "meta_fields \<Rightarrow> NetworkInterface \<Rightarrow> fields" where
  "networkInterface_SelectableFields F x = ObjectMetaFieldsSet F (nic_Meta x) True"

definition networkInterface_GetAttrs :: "meta_fields \<Rightarrow> core_object \<Rightarrow> (labels \<times> fields) result" where
  "networkInterface_GetAttrs F obj =
     (case to_NetworkInterface obj of
        None \<Rightarrow> Inl (ErrMsg ''given object is not a NetworkInterface'')
      | Some x \<Rightarrow> Inr (om_Labels (nic_Meta x), networkInterface_SelectableFields F x))"

definition MatchNetworkInterface :: "meta_fields \<Rightarrow> 'l \<Rightarrow> 'f \<Rightarrow> ('l, 'f) selection_predicate" where
  "MatchNetworkInterface F label field = \<lparr>sp_Label = label, sp_Field = field, sp_GetAttrs = networkInterface_GetAttrs F, sp_IndexFields = []\<rparr>"

definition node_SelectableFields :: "meta_fields \<Rightarrow> Node \<Rightarrow> fields" where
  "node_SelectableFields F x = ObjectMetaFieldsSet F (node_Meta x) True"

definition node_GetAttrs :: "meta_fields \<Rightarrow> core_object \<Rightarrow> (labels \<times> fields) result" where
  "node_GetAttrs F obj =
     (case to_Node obj of
        None \<Rightarrow> Inl (ErrMsg ''given object is not a Node'')
      | Some x \<Rightarrow> Inr (om_Labels (node_Meta x), node_SelectableFields F x))"

definition MatchNode :: "meta_fields \<Rightarrow> 'l \<Rightarrow> 'f \<Rightarrow> ('l, 'f) selection_predicate" where
  "MatchNode F label field = \<lparr>sp_Label = label, sp_Field = field, sp_GetAttrs = node_GetAttrs F, sp_IndexFields = []\<rparr>"

text \<open>IPs are indexed by their address.\<close>

definition IPTriggerFunc :: "core_object \<Rightarrow> string outcome" where
  "IPTriggerFunc obj = asserted to_IP obj (\<lambda>ip. addr_String (ipspec_IP (ip_Spec ip)))"

definition IPIndexFunc :: "core_object \<Rightarrow> string list result" where
  "IPIndexFunc obj =
     (case to_IP obj of
        None \<Rightarrow> Inl (ErrMsg ''not an ip'')
      | Some ip \<Rightarrow> Inr [addr_String (ipspec_IP (ip_Spec ip))])"

text \<open>\<open>storage.FieldIndex\<close> gives the name of the index of a field.\<close>

definition Indexers :: "(string \<Rightarrow> string) \<Rightarrow> (string \<times> (core_object \<Rightarrow> string list result)) list" where
  "Indexers FieldIndex = [(FieldIndex ''spec.ip'', IPIndexFunc)]"

section \<open>Strategies\<close>

record strategy =
  NamespaceScoped :: bool
  PrepareForCreate :: "core_object \<Rightarrow> core_object outcome"
  PrepareForUpdate :: "core_object \<Rightarrow> core_object \<Rightarrow> core_object outcome"
  st_Validate :: "core_object \<Rightarrow> field_error list outcome"
  WarningsOnCreate :: "core_object \<Rightarrow> string list"
  AllowCreateOnUpdate :: bool
  AllowUnconditionalUpdate :: bool
  Canonicalize :: "core_object \<Rightarrow> core_object outcome"
  st_ValidateUpdate :: "core_object \<Rightarrow> core_object \<Rightarrow> field_error list outcome"
  WarningsOnUpdate :: "core_object \<Rightarrow> core_object \<Rightarrow> string list"

definition daemonSetStrategy :: "('q, 'l, 'f) validators \<Rightarrow> strategy" where
  "daemonSetStrategy V =
     \<lparr>NamespaceScoped = True,
      PrepareForCreate = (\<lambda>obj. Returns obj),
      PrepareForUpdate = (\<lambda>obj old. Returns obj),
      st_Validate = (\<lambda>obj. asserted to_DaemonSet obj (ValidateDaemonSet V)),
      WarningsOnCreate = (\<lambda>obj. []),
      AllowCreateOnUpdate = False,
      AllowUnconditionalUpdate = False,
      Canonicalize = (\<lambda>obj. Returns obj),
      st_ValidateUpdate = (\<lambda>obj old. asserted2 to_DaemonSet obj old (ValidateDaemonSetUpdate V)),
      WarningsOnUpdate = (\<lambda>obj old. [])\<rparr>"

definition instanceStrategy :: "('q, 'l, 'f) validators \<Rightarrow> strategy" where
  "instanceStrategy V =
     \<lparr>NamespaceScoped = True,
      PrepareForCreate = (\<lambda>obj. Returns obj),
      PrepareForUpdate = (\<lambda>obj old. Returns obj),
      st_Validate = (\<lambda>obj. asserted to_Instance obj (ValidateInstance V)),
      WarningsOnCreate = (\<lambda>obj. []),
      AllowCreateOnUpdate = False,
      AllowUnconditionalUpdate = False,
      Canonicalize = (\<lambda>obj. Returns obj),
      st_ValidateUpdate = (\<lambda>obj old. asserted2 to_Instance obj old (ValidateInstanceUpdate V)),
      WarningsOnUpdate = (\<lambda>obj old. [])\<rparr>"

definition ipStrategy :: "('q, 'l, 'f) validators \<Rightarrow> strategy" where
  "ipStrategy V =
     \<lparr>NamespaceScoped = True,
      PrepareForCreate = (\<lambda>obj. Returns obj),
      PrepareForUpdate = (\<lambda>obj old. Returns obj),
      st_Validate = (\<lambda>obj. asserted to_IP obj (ValidateIP V)),
      WarningsOnCreate = (\<lambda>obj. []),
      AllowCreateOnUpdate = False,
      AllowUnconditionalUpdate = False,
      Canonicalize = (\<lambda>obj. Returns obj),
      st_ValidateUpdate = (\<lambda>obj old. asserted2 to_IP obj old (ValidateIPUpdate V)),
      WarningsOnUpdate = (\<lambda>obj old. [])\<rparr>"

definition ipAddressStrategy :: "('q, 'l, 'f) validators \<Rightarrow> strategy" where
  "ipAddressStrategy V =
     \<lparr>NamespaceScoped = False,
      PrepareForCreate = (\<lambda>obj. Returns obj),
      PrepareForUpdate = (\<lambda>obj old. Returns obj),
      st_Validate = (\<lambda>obj. asserted to_IPAddress obj (ValidateIPAddress V)),
      WarningsOnCreate = (\<lambda>obj. []),
      AllowCreateOnUpdate = False,
      AllowUnconditionalUpdate = False,
      Canonicalize = (\<lambda>obj. Returns obj),
      st_ValidateUpdate = (\<lambda>obj old. asserted2 to_IPAddress obj old (ValidateIPAddressUpdate V)),
      WarningsOnUpdate = (\<lambda>obj old. [])\<rparr>"

definition loadBalancerStrategy :: "('q, 'l, 'f) validators \<Rightarrow> strategy" where
  "loadBalancerStrategy V =
     \<lparr>NamespaceScoped = True,
      PrepareForCreate = (\<lambda>obj. Returns obj),
      PrepareForUpdate = (\<lambda>obj old. Returns obj),
      st_Validate = (\<lambda>obj. asserted to_LoadBalancer obj (ValidateLoadBalancer V)),
      WarningsOnCreate = (\<lambda>obj. []),
      AllowCreateOnUpdate = False,
      AllowUnconditionalUpdate = False,
      Canonicalize = (\<lambda>obj. Returns obj),
      st_ValidateUpdate = (\<lambda>obj old. asserted2 to_LoadBalancer obj old (ValidateLoadBalancerUpdate V)),
      WarningsOnUpdate = (\<lambda>obj old. [])\<rparr>"

definition loadBalancerRoutingStrategy :: "('q, 'l, 'f) validators \<Rightarrow> strategy" where
  "loadBalancerRoutingStrategy V =
     \<lparr>NamespaceScoped = True,
      PrepareForCreate = (\<lambda>obj. Returns obj),
      PrepareForUpdate = (\<lambda>obj old. Returns obj),
      st_Validate = (\<lambda>obj. asserted to_LoadBalancerRouting obj (ValidateLoadBalancerRouting V)),
      WarningsOnCreate = (\<lambda>obj. []),
      AllowCreateOnUpdate = False,
      AllowUnconditionalUpdate = False,
      Canonicalize = (\<lambda>obj. Returns obj),
      st_ValidateUpdate = (\<lambda>obj old. asserted2 to_LoadBalancerRouting obj old (ValidateLoadBalancerRoutingUpdate V)),
      WarningsOnUpdate = (\<lambda>obj old. [])\<rparr>"

definition natGatewayStrategy :: "('q, 'l, 'f) validators \<Rightarrow> strategy" where
  "natGatewayStrategy V =
     \<lparr>NamespaceScoped = True,
      PrepareForCreate = (\<lambda>obj. Returns obj),
      PrepareForUpdate = (\<lambda>obj old. Returns obj),
      st_Validate = (\<lambda>obj. asserted to_NATGateway obj (ValidateNATGateway V)),
      WarningsOnCreate = (\<lambda>obj. []),
      AllowCreateOnUpdate = False,
      AllowUnconditionalUpdate = False,
      Canonicalize = (\<lambda>obj. Returns obj),
      st_ValidateUpdate = (\<lambda>obj old. asserted2 to_NATGateway obj old (ValidateNATGatewayUpdate V)),
      WarningsOnUpdate = (\<lambda>obj old. [])\<rparr>"

definition natGatewayAutoscalerStrategy :: "('q, 'l, 'f) validators \<Rightarrow> strategy" where
  "natGatewayAutoscalerStrategy V =
     \<lparr>NamespaceScoped = True,
      PrepareForCreate = (\<lambda>obj. Returns obj),
      PrepareForUpdate = (\<lambda>obj old. Returns obj),
      st_Validate = (\<lambda>obj. asserted to_NATGatewayAutoscaler obj (ValidateNATGatewayAutoscaler V)),
      WarningsOnCreate = (\<lambda>obj. []),
      AllowCreateOnUpdate = False,
      AllowUnconditionalUpdate = False,
      Canonicalize = (\<lambda>obj. Returns obj),
      st_ValidateUpdate = (\<lambda>obj old. asserted2 to_NATGatewayAutoscaler obj old (ValidateNATGatewayAutoscalerUpdate V)),
      WarningsOnUpdate = (\<lambda>obj old. [])\<rparr>"

definition natTableStrategy :: "('q, 'l, 'f) validators \<Rightarrow> strategy" where
  "natTableStrategy V =
     \<lparr>NamespaceScoped = True,
      PrepareForCreate = (\<lambda>obj. Returns obj),
      PrepareForUpdate = (\<lambda>obj old. Returns obj),
      st_Validate = (\<lambda>obj. asserted to_NATTable obj (ValidateNATTable V)),
      WarningsOnCreate = (\<lambda>obj. []),
      AllowCreateOnUpdate = False,
      AllowUnconditionalUpdate = False,
      Canonicalize = (\<lambda>obj. Returns obj),
      st_ValidateUpdate = (\<lambda>obj old. asserted2 to_NATTable obj old (ValidateNATTableUpdate V)),
      WarningsOnUpdate = (\<lambda>obj old. [])\<rparr>"

definition networkStrategy :: "('q, 'l, 'f) validators \<Rightarrow> strategy" where
  "networkStrategy V =
     \<lparr>NamespaceScoped = True,
      PrepareForCreate = (\<lambda>obj. Returns obj),
      PrepareForUpdate = (\<lambda>obj old. Returns obj),
      st_Validate = (\<lambda>obj. asserted to_Network obj (ValidateNetwork V)),
      WarningsOnCreate = (\<lambda>obj. []),
      AllowCreateOnUpdate = False,
      AllowUnconditionalUpdate = False,
      Canonicalize = (\<lambda>obj. Returns obj),
      st_ValidateUpdate = (\<lambda>obj old. asserted2 to_Network obj old (ValidateNetworkUpdate V)),
      WarningsOnUpdate = (\<lambda>obj old. [])\<rparr>"

definition networkIDStrategy :: "('q, 'l, 'f) validators \<Rightarrow> strategy" where
  "networkIDStrategy V =
     \<lparr>NamespaceScoped = False,
      PrepareForCreate = (\<lambda>obj. Returns obj),
      PrepareForUpdate = (\<lambda>obj old. Returns obj),
      st_Validate = (\<lambda>obj. asserted to_NetworkID obj (ValidateNetworkID V)),
      WarningsOnCreate = (\<lambda>obj. []),
      AllowCreateOnUpdate = False,
      AllowUnconditionalUpdate = False,
      Canonicalize = (\<lambda>obj. Returns obj),
      st_ValidateUpdate = (\<lambda>obj old. asserted2 to_NetworkID obj old (ValidateNetworkIDUpdate V)),
      WarningsOnUpdate = (\<lambda>obj old. [])\<rparr>"

definition networkInterfaceStrategy :: "('q, 'l, 'f) validators \<Rightarrow> strategy" where
  "networkInterfaceStrategy V =
     \<lparr>NamespaceScoped = True,
      PrepareForCreate = (\<lambda>obj. Returns obj),
      PrepareForUpdate = (\<lambda>obj old. Returns obj),
      st_Validate = (\<lambda>obj. asserted to_NetworkInterface obj (ValidateNetworkInterface V)),
      WarningsOnCreate = (\<lambda>obj. []),
      AllowCreateOnUpdate = False,
      AllowUnconditionalUpdate = False,
      Canonicalize = (\<lambda>obj. Returns obj),
      st_ValidateUpdate = (\<lambda>obj old. asserted2 to_NetworkInterface obj old (ValidateNetworkInterfaceUpdate V)),
      WarningsOnUpdate = (\<lambda>obj old. [])\<rparr>"

definition nodeStrategy :: "('q, 'l, 'f) validators \<Rightarrow> strategy" where
  "nodeStrategy V =
     \<lparr>NamespaceScoped = False,
      PrepareForCreate = (\<lambda>obj. Returns obj),
      PrepareForUpdate = (\<lambda>obj old. Returns obj),
      st_Validate = (\<lambda>obj. asserted to_Node obj (ValidateNode V)),
      WarningsOnCreate = (\<lambda>obj. []),
      AllowCreateOnUpdate = False,
      AllowUnconditionalUpdate = False,
      Canonicalize = (\<lambda>obj. Returns obj),
      st_ValidateUpdate = (\<lambda>obj old. asserted2 to_Node obj old (ValidateNodeUpdate V)),
      WarningsOnUpdate = (\<lambda>obj old. [])\<rparr>"

section \<open>Strategies of the status subresources\<close>

text \<open>
  A status strategy embeds the strategy of its kind and overrides three methods. The spec of a
  node has no fields, so restoring it changes nothing.
\<close>

definition daemonSetStatusStrategy :: "('q, 'l, 'f) validators \<Rightarrow> strategy" where
  "daemonSetStatusStrategy V = (daemonSetStrategy V)
     \<lparr>PrepareForUpdate := (\<lambda>obj old. asserted2 to_DaemonSet obj old (\<lambda>new old. DaemonSet_obj (new\<lparr>ds_Spec := ds_Spec old\<rparr>))),
      st_ValidateUpdate := (\<lambda>obj old. asserted2 to_DaemonSet obj old (ValidateDaemonSetStatusUpdate V)),
      WarningsOnUpdate := (\<lambda>obj old. [])\<rparr>"

definition instanceStatusStrategy :: "('q, 'l, 'f) validators \<Rightarrow> strategy" where
  "instanceStatusStrategy V = (instanceStrategy V)
     \<lparr>PrepareForUpdate := (\<lambda>obj old. asserted2 to_Instance obj old (\<lambda>new old. Instance_obj (new\<lparr>inst_Spec := inst_Spec old\<rparr>))),
      st_ValidateUpdate := (\<lambda>obj old. asserted2 to_Instance obj old (ValidateInstanceStatusUpdate V)),
      WarningsOnUpdate := (\<lambda>obj old. [])\<rparr>"

definition loadBalancerStatusStrategy :: "('q, 'l, 'f) validators \<Rightarrow> strategy" where
  "loadBalancerStatusStrategy V = (loadBalancerStrategy V)
     \<lparr>PrepareForUpdate := (\<lambda>obj old. asserted2 to_LoadBalancer obj old (\<lambda>new old. LoadBalancer_obj (new\<lparr>lb_Spec := lb_Spec old\<rparr>))),
      st_ValidateUpdate := (\<lambda>obj old. asserted2 to_LoadBalancer obj old (ValidateLoadBalancerStatusUpdate V)),
      WarningsOnUpdate := (\<lambda>obj old. [])\<rparr>"

definition natGatewayStatusStrategy :: "('q, 'l, 'f) validators \<Rightarrow> strategy" where
  "natGatewayStatusStrategy V = (natGatewayStrategy V)
     \<lparr>PrepareForUpdate := (\<lambda>obj old. asserted2 to_NATGateway obj old (\<lambda>new old. NATGateway_obj (new\<lparr>ng_Spec := ng_Spec old\<rparr>))),
      st_ValidateUpdate := (\<lambda>obj old. asserted2 to_NATGateway obj old (ValidateNATGatewayStatusUpdate V)),
      WarningsOnUpdate := (\<lambda>obj old. [])\<rparr>"

definition natGatewayAutoscalerStatusStrategy :: "('q, 'l, 'f) validators \<Rightarrow> strategy" where
  "natGatewayAutoscalerStatusStrategy V = (natGatewayAutoscalerStrategy V)
     \<lparr>PrepareForUpdate := (\<lambda>obj old. asserted2 to_NATGatewayAutoscaler obj old (\<lambda>new old. NATGatewayAutoscaler_obj (new\<lparr>nga_Spec := nga_Spec old\<rparr>))),
      st_ValidateUpdate := (\<lambda>obj old. asserted2 to_NATGatewayAutoscaler obj old (ValidateNATGatewayAutoscalerStatusUpdate V)),
      WarningsOnUpdate := (\<lambda>obj old. [])\<rparr>"

definition networkStatusStrategy :: "('q, 'l, 'f) validators \<Rightarrow> strategy" where
  "networkStatusStrategy V = (networkStrategy V)
     \<lparr>PrepareForUpdate := (\<lambda>obj old. asserted2 to_Network obj old (\<lambda>new old. Network_obj (new\<lparr>net_Spec := net_Spec old\<rparr>))),
      st_ValidateUpdate := (\<lambda>obj old. asserted2 to_Network obj old (ValidateNetworkStatusUpdate V)),
      WarningsOnUpdate := (\<lambda>obj old. [])\<rparr>"

definition networkInterfaceStatusStrategy :: "('q, 'l, 'f) validators \<Rightarrow> strategy" where
  "networkInterfaceStatusStrategy V = (networkInterfaceStrategy V)
     \<lparr>PrepareForUpdate := (\<lambda>obj old. asserted2 to_NetworkInterface obj old (\<lambda>new old. NetworkInterface_obj (new\<lparr>nic_Spec := nic_Spec old\<rparr>))),
      st_ValidateUpdate := (\<lambda>obj old. asserted2 to_NetworkInterface obj old (ValidateNetworkInterfaceStatusUpdate V)),
      WarningsOnUpdate := (\<lambda>obj old. [])\<rparr>"

definition nodeStatusStrategy :: "('q, 'l, 'f) validators \<Rightarrow> strategy" where
  "nodeStatusStrategy V = (nodeStrategy V)
     \<lparr>PrepareForUpdate := (\<lambda>obj old. asserted2 to_Node obj old (\<lambda>new old. Node_obj new)),
      st_ValidateUpdate := (\<lambda>obj old. asserted2 to_Node obj old (ValidateNodeStatusUpdate V)),
      WarningsOnUpdate := (\<lambda>obj old. [])\<rparr>"

text \<open>Every status strategy resets the same field of the same API version.\<close>

type_synonym reset_fields = "(string \<times> path list) list"

definition daemonSet_GetResetFields :: reset_fields where
  "daemonSet_GetResetFields = [(''apinet.api.onmetal.de/v1alpha1'', [[''spec'']])]"

definition instance_GetResetFields :: reset_fields where
  "instance_GetResetFields = [(''apinet.api.onmetal.de/v1alpha1'', [[''spec'']])]"

definition loadBalancer_GetResetFields :: reset_fields where
  "loadBalancer_GetResetFields = [(''apinet.api.onmetal.de/v1alpha1'', [[''spec'']])]"

definition natGateway_GetResetFields :: reset_fields where
  "natGateway_GetResetFields = [(''apinet.api.onmetal.de/v1alpha1'', [[''spec'']])]"

definition natGatewayAutoscaler_GetResetFields :: reset_fields where
  "natGatewayAutoscaler_GetResetFields = [(''apinet.api.onmetal.de/v1alpha1'', [[''spec'']])]"

definition network_GetResetFields :: reset_fields where
  "network_GetResetFields = [(''apinet.api.onmetal.de/v1alpha1'', [[''spec'']])]"

definition networkInterface_GetResetFields :: reset_fields where
  "networkInterface_GetResetFields = [(''apinet.api.onmetal.de/v1alpha1'', [[''spec'']])]"

definition node_GetResetFields :: reset_fields where
  "node_GetResetFields = [(''apinet.api.onmetal.de/v1alpha1'', [[''spec'']])]"

lemmas strategy_defs =
  daemonSetStrategy_def
  instanceStrategy_def
  ipStrategy_def
  ipAddressStrategy_def
  loadBalancerStrategy_def
  loadBalancerRoutingStrategy_def
  natGatewayStrategy_def
  natGatewayAutoscalerStrategy_def
  natTableStrategy_def
  networkStrategy_def
  networkIDStrategy_def
  networkInterfaceStrategy_def
  nodeStrategy_def

lemmas status_strategy_defs =
  daemonSetStatusStrategy_def
  instanceStatusStrategy_def
  loadBalancerStatusStrategy_def
  natGatewayStatusStrategy_def
  natGatewayAutoscalerStatusStrategy_def
  networkStatusStrategy_def
  networkInterfaceStatusStrategy_def
  nodeStatusStrategy_def
lemmas GetResetFields_defs =
  daemonSet_GetResetFields_def
  instance_GetResetFields_def
  loadBalancer_GetResetFields_def
  natGateway_GetResetFields_def
  natGatewayAutoscaler_GetResetFields_def
  network_GetResetFields_def
  networkInterface_GetResetFields_def
  node_GetResetFields_def

section \<open>A strategy works on the objects of its kind\<close>

text \<open>
  What \<open>k8s.io/apiserver\<close> expects of a strategy that it was given for one kind: no method fails
  an assertion on objects of the kind, and what is stored is again of the kind.
\<close>

locale typed_strategy =
  fixes S :: strategy and kind :: string
  assumes create_kind: "kind_of obj = kind \<Longrightarrow> \<exists>x. PrepareForCreate S obj = Returns x \<and> kind_of x = kind"
    and update_kind: "kind_of obj = kind \<Longrightarrow> kind_of old = kind \<Longrightarrow> \<exists>x. PrepareForUpdate S obj old = Returns x \<and> kind_of x = kind"
    and validate_returns: "kind_of obj = kind \<Longrightarrow> returns (st_Validate S obj)"
    and validate_update_returns: "kind_of obj = kind \<Longrightarrow> kind_of old = kind \<Longrightarrow> returns (st_ValidateUpdate S obj old)"
    and canonical: "kind_of obj = kind \<Longrightarrow> \<exists>x. Canonicalize S obj = Returns x \<and> kind_of x = kind"

lemma kind_of_to:
  "kind_of obj = ''DaemonSet'' \<longleftrightarrow> (\<exists>x. obj = DaemonSet_obj x)"
  "kind_of obj = ''Instance'' \<longleftrightarrow> (\<exists>x. obj = Instance_obj x)"
  "kind_of obj = ''IP'' \<longleftrightarrow> (\<exists>x. obj = IP_obj x)"
  "kind_of obj = ''IPAddress'' \<longleftrightarrow> (\<exists>x. obj = IPAddress_obj x)"
  "kind_of obj = ''LoadBalancer'' \<longleftrightarrow> (\<exists>x. obj = LoadBalancer_obj x)"
  "kind_of obj = ''LoadBalancerRouting'' \<longleftrightarrow> (\<exists>x. obj = LoadBalancerRouting_obj x)"
  "kind_of obj = ''NATGateway'' \<longleftrightarrow> (\<exists>x. obj = NATGateway_obj x)"
  "kind_of obj = ''NATGatewayAutoscaler'' \<longleftrightarrow> (\<exists>x. obj = NATGatewayAutoscaler_obj x)"
  "kind_of obj = ''NATTable'' \<longleftrightarrow> (\<exists>x. obj = NATTable_obj x)"
  "kind_of obj = ''Network'' \<longleftrightarrow> (\<exists>x. obj = Network_obj x)"
  "kind_of obj = ''NetworkID'' \<longleftrightarrow> (\<exists>x. obj = NetworkID_obj x)"
  "kind_of obj = ''NetworkInterface'' \<longleftrightarrow> (\<exists>x. obj = NetworkInterface_obj x)"
  "kind_of obj = ''Node'' \<longleftrightarrow> (\<exists>x. obj = Node_obj x)"
  by (cases obj; simp)+

lemma asserted_simps [simp]:
  "to obj = Some x \<Longrightarrow> asserted to obj f = Returns (f x)"
  "to obj = Some x \<Longrightarrow> to old = Some y \<Longrightarrow> asserted2 to obj old g = Returns (g x y)"
  by (simp_all add: asserted_def asserted2_def)

lemma to_obj [simp]:
  "to_DaemonSet (DaemonSet_obj x0) = Some x0"
  "to_Instance (Instance_obj x1) = Some x1"
  "to_IP (IP_obj x2) = Some x2"
  "to_IPAddress (IPAddress_obj x3) = Some x3"
  "to_LoadBalancer (LoadBalancer_obj x4) = Some x4"
  "to_LoadBalancerRouting (LoadBalancerRouting_obj x5) = Some x5"
  "to_NATGateway (NATGateway_obj x6) = Some x6"
  "to_NATGatewayAutoscaler (NATGatewayAutoscaler_obj x7) = Some x7"
  "to_NATTable (NATTable_obj x8) = Some x8"
  "to_Network (Network_obj x9) = Some x9"
  "to_NetworkID (NetworkID_obj x10) = Some x10"
  "to_NetworkInterface (NetworkInterface_obj x11) = Some x11"
  "to_Node (Node_obj x12) = Some x12"
  by (simp_all add: to_defs)

lemmas typed_rules = kind_of_to strategy_defs status_strategy_defs

interpretation daemonSet_typed: typed_strategy "daemonSetStrategy V" "''DaemonSet''" for V
  by unfold_locales (auto simp: typed_rules)

interpretation daemonSet_status_typed: typed_strategy "daemonSetStatusStrategy V" "''DaemonSet''" for V
  by unfold_locales (auto simp: typed_rules)

interpretation instance_typed: typed_strategy "instanceStrategy V" "''Instance''" for V
  by unfold_locales (auto simp: typed_rules)

interpretation instance_status_typed: typed_strategy "instanceStatusStrategy V" "''Instance''" for V
  by unfold_locales (auto simp: typed_rules)

interpretation ip_typed: typed_strategy "ipStrategy V" "''IP''" for V
  by unfold_locales (auto simp: typed_rules)

interpretation ipAddress_typed: typed_strategy "ipAddressStrategy V" "''IPAddress''" for V
  by unfold_locales (auto simp: typed_rules)

interpretation loadBalancer_typed: typed_strategy "loadBalancerStrategy V" "''LoadBalancer''" for V
  by unfold_locales (auto simp: typed_rules)

interpretation loadBalancer_status_typed: typed_strategy "loadBalancerStatusStrategy V" "''LoadBalancer''" for V
  by unfold_locales (auto simp: typed_rules)

interpretation loadBalancerRouting_typed: typed_strategy "loadBalancerRoutingStrategy V" "''LoadBalancerRouting''" for V
  by unfold_locales (auto simp: typed_rules)

interpretation natGateway_typed: typed_strategy "natGatewayStrategy V" "''NATGateway''" for V
  by unfold_locales (auto simp: typed_rules)

interpretation natGateway_status_typed: typed_strategy "natGatewayStatusStrategy V" "''NATGateway''" for V
  by unfold_locales (auto simp: typed_rules)

interpretation natGatewayAutoscaler_typed: typed_strategy "natGatewayAutoscalerStrategy V" "''NATGatewayAutoscaler''" for V
  by unfold_locales (auto simp: typed_rules)

interpretation natGatewayAutoscaler_status_typed: typed_strategy "natGatewayAutoscalerStatusStrategy V" "''NATGatewayAutoscaler''" for V
  by unfold_locales (auto simp: typed_rules)

interpretation natTable_typed: typed_strategy "natTableStrategy V" "''NATTable''" for V
  by unfold_locales (auto simp: typed_rules)

interpretation network_typed: typed_strategy "networkStrategy V" "''Network''" for V
  by unfold_locales (auto simp: typed_rules)

interpretation network_status_typed: typed_strategy "networkStatusStrategy V" "''Network''" for V
  by unfold_locales (auto simp: typed_rules)

interpretation networkID_typed: typed_strategy "networkIDStrategy V" "''NetworkID''" for V
  by unfold_locales (auto simp: typed_rules)

interpretation networkInterface_typed: typed_strategy "networkInterfaceStrategy V" "''NetworkInterface''" for V
  by unfold_locales (auto simp: typed_rules)

interpretation networkInterface_status_typed: typed_strategy "networkInterfaceStatusStrategy V" "''NetworkInterface''" for V
  by unfold_locales (auto simp: typed_rules)

interpretation node_typed: typed_strategy "nodeStrategy V" "''Node''" for V
  by unfold_locales (auto simp: typed_rules)

interpretation node_status_typed: typed_strategy "nodeStatusStrategy V" "''Node''" for V
  by unfold_locales (auto simp: typed_rules)

section \<open>What an update may not change\<close>

text \<open>The part of an object that identifies it: \<open>identity_kept old new\<close>.\<close>

primrec identity_kept :: "core_object \<Rightarrow> core_object \<Rightarrow> bool" where
  "identity_kept (DaemonSet_obj x) new = (case to_DaemonSet new of None \<Rightarrow> False | Some y \<Rightarrow> True)"
| "identity_kept (Instance_obj x) new = (case to_Instance new of None \<Rightarrow> False | Some y \<Rightarrow> 
      is_Type (inst_Spec y) = is_Type (inst_Spec x) \<and> is_LoadBalancerType (inst_Spec y) = is_LoadBalancerType (inst_Spec x) \<and>
      is_NetworkRef (inst_Spec y) = is_NetworkRef (inst_Spec x) \<and>
      (is_NodeRef (inst_Spec x) \<noteq> None \<longrightarrow> is_NodeRef (inst_Spec y) = is_NodeRef (inst_Spec x)))"
| "identity_kept (IP_obj x) new = (case to_IP new of None \<Rightarrow> False | Some y \<Rightarrow> 
      ipspec_Type (ip_Spec y) = ipspec_Type (ip_Spec x) \<and> ipspec_IPFamily (ip_Spec y) = ipspec_IPFamily (ip_Spec x) \<and>
      ipspec_IP (ip_Spec y) = ipspec_IP (ip_Spec x))"
| "identity_kept (IPAddress_obj x) new = (case to_IPAddress new of None \<Rightarrow> False | Some y \<Rightarrow> 
      iaspec_IP (ia_Spec y) = iaspec_IP (ia_Spec x) \<and> iaspec_ClaimRef (ia_Spec y) = iaspec_ClaimRef (ia_Spec x))"
| "identity_kept (LoadBalancer_obj x) new = (case to_LoadBalancer new of None \<Rightarrow> False | Some y \<Rightarrow> 
      lbs_Type (lb_Spec y) = lbs_Type (lb_Spec x) \<and> lbs_NetworkRef (lb_Spec y) = lbs_NetworkRef (lb_Spec x) \<and>
      selector_equal (lbs_Selector (lb_Spec y)) (lbs_Selector (lb_Spec x)))"
| "identity_kept (LoadBalancerRouting_obj x) new = (case to_LoadBalancerRouting new of None \<Rightarrow> False | Some y \<Rightarrow> True)"
| "identity_kept (NATGateway_obj x) new = (case to_NATGateway new of None \<Rightarrow> False | Some y \<Rightarrow> 
      ngs_IPFamily (ng_Spec y) = ngs_IPFamily (ng_Spec x) \<and> ngs_NetworkRef (ng_Spec y) = ngs_NetworkRef (ng_Spec x))"
| "identity_kept (NATGatewayAutoscaler_obj x) new = (case to_NATGatewayAutoscaler new of None \<Rightarrow> False | Some y \<Rightarrow> True)"
| "identity_kept (NATTable_obj x) new = (case to_NATTable new of None \<Rightarrow> False | Some y \<Rightarrow> True)"
| "identity_kept (Network_obj x) new = (case to_Network new of None \<Rightarrow> False | Some y \<Rightarrow> 
      netspec_ID (net_Spec y) = netspec_ID (net_Spec x))"
| "identity_kept (NetworkID_obj x) new = (case to_NetworkID new of None \<Rightarrow> False | Some y \<Rightarrow> 
      nidspec_ClaimRef (nid_Spec y) = nidspec_ClaimRef (nid_Spec x))"
| "identity_kept (NetworkInterface_obj x) new = (case to_NetworkInterface new of None \<Rightarrow> False | Some y \<Rightarrow> 
      nics_NetworkRef (nic_Spec y) = nics_NetworkRef (nic_Spec x) \<and> nics_NodeRef (nic_Spec y) = nics_NodeRef (nic_Spec x) \<and>
      nics_IPs (nic_Spec y) = nics_IPs (nic_Spec x))"
| "identity_kept (Node_obj x) new = (case to_Node new of None \<Rightarrow> False | Some y \<Rightarrow> True)"

lemma selector_equal_refl [simp]: "selector_equal a a"
  by (simp add: selector_equal_def split: option.split)

lemma selector_equal_trans: "selector_equal c b \<Longrightarrow> selector_equal b a \<Longrightarrow> selector_equal c a"
  by (auto simp: selector_equal_def split: option.splits)

lemma identity_kept_refl [simp]: "identity_kept x x"
  by (cases x) simp_all

lemma to_Some:
  "to_DaemonSet obj = Some x0 \<longleftrightarrow> obj = DaemonSet_obj x0"
  "to_Instance obj = Some x1 \<longleftrightarrow> obj = Instance_obj x1"
  "to_IP obj = Some x2 \<longleftrightarrow> obj = IP_obj x2"
  "to_IPAddress obj = Some x3 \<longleftrightarrow> obj = IPAddress_obj x3"
  "to_LoadBalancer obj = Some x4 \<longleftrightarrow> obj = LoadBalancer_obj x4"
  "to_LoadBalancerRouting obj = Some x5 \<longleftrightarrow> obj = LoadBalancerRouting_obj x5"
  "to_NATGateway obj = Some x6 \<longleftrightarrow> obj = NATGateway_obj x6"
  "to_NATGatewayAutoscaler obj = Some x7 \<longleftrightarrow> obj = NATGatewayAutoscaler_obj x7"
  "to_NATTable obj = Some x8 \<longleftrightarrow> obj = NATTable_obj x8"
  "to_Network obj = Some x9 \<longleftrightarrow> obj = Network_obj x9"
  "to_NetworkID obj = Some x10 \<longleftrightarrow> obj = NetworkID_obj x10"
  "to_NetworkInterface obj = Some x11 \<longleftrightarrow> obj = NetworkInterface_obj x11"
  "to_Node obj = Some x12 \<longleftrightarrow> obj = Node_obj x12"
  by (cases obj; simp add: to_defs)+

lemma identity_kept_trans: "identity_kept x y \<Longrightarrow> identity_kept y z \<Longrightarrow> identity_kept x z"
  by (cases x) (auto simp: to_Some split: option.splits dest: selector_equal_trans)

lemma identity_kept_meta [simp]: "identity_kept x (set_meta m y) = identity_kept x y"
  by (cases x; cases y) (simp_all add: to_defs)

lemma identity_kept_kind: "identity_kept x y \<Longrightarrow> kind_of y = kind_of x"
  by (cases x) (auto simp: to_Some split: option.splits)

text \<open>Other components rely on stored network interfaces being valid.\<close>

definition nic_valid :: "core_object \<Rightarrow> bool" where
  "nic_valid x = (case to_NetworkInterface x of None \<Rightarrow> True | Some n \<Rightarrow> ValidateNetworkInterfaceSpec (nic_Spec n) [''spec''] = [])"

lemma nic_valid_simps [simp]:
  "nic_valid (NetworkInterface_obj n) \<longleftrightarrow> ValidateNetworkInterfaceSpec (nic_Spec n) [''spec''] = []"
  "kind_of x \<noteq> ''NetworkInterface'' \<Longrightarrow> nic_valid x"
  by (auto simp: nic_valid_def to_defs split: core_object.splits)

lemma nic_valid_meta [simp]: "nic_valid (set_meta m x) = nic_valid x"
  by (cases x) simp_all

text \<open>An accepted update keeps the identity of an object and the validity of a network interface.\<close>

locale keeping_strategy =
  fixes S :: strategy
  assumes update_keeps: "PrepareForUpdate S obj old = Returns x \<Longrightarrow> st_ValidateUpdate S x old = Returns [] \<Longrightarrow>
    Canonicalize S x = Returns y \<Longrightarrow> identity_kept old y"
    and update_valid: "PrepareForUpdate S obj old = Returns x \<Longrightarrow> st_ValidateUpdate S x old = Returns [] \<Longrightarrow>
    Canonicalize S x = Returns y \<Longrightarrow> nic_valid old \<Longrightarrow> nic_valid y"

lemma asserted2_Returns:
  "asserted2 to obj old f = Returns r \<longleftrightarrow> (\<exists>x y. to obj = Some x \<and> to old = Some y \<and> r = f x y)"
  by (auto simp: asserted2_def split: option.splits)

lemmas update_rules = ValidateDaemonSetUpdate_def ValidateInstanceUpdate_def ValidateInstanceSpecUpdate_def ValidateIPUpdate_def
  ValidateIPSpecUpdate_def ValidateIPAddressUpdate_def ValidateIPAddressSpecUpdate_def ValidateLoadBalancerUpdate_def
  ValidateLoadBalancerSpecUpdate_def ValidateNATGatewayUpdate_def ValidateNATGatewaySpecUpdate_def ValidateNetworkUpdate_def
  ValidateNetworkSpecUpdate_def ValidateNetworkIDUpdate_def ValidateNetworkIDSpecUpdate_def ValidateNetworkInterfaceUpdate_def
  ValidateNetworkInterfaceSpecUpdate_def ValidateNetworkInterface_def

sublocale field_validators \<subseteq> daemonSet_main: keeping_strategy "daemonSetStrategy V"
  by unfold_locales (auto simp: daemonSetStrategy_def asserted2_Returns to_Some update_rules immutable_ok Let_def split: if_splits)

sublocale field_validators \<subseteq> daemonSet_status: keeping_strategy "daemonSetStatusStrategy V"
  by unfold_locales (auto simp: daemonSetStatusStrategy_def daemonSetStrategy_def asserted2_Returns to_Some split: if_splits)

sublocale field_validators \<subseteq> instance_main: keeping_strategy "instanceStrategy V"
  by unfold_locales (auto simp: instanceStrategy_def asserted2_Returns to_Some update_rules immutable_ok Let_def split: if_splits)

sublocale field_validators \<subseteq> instance_status: keeping_strategy "instanceStatusStrategy V"
  by unfold_locales (auto simp: instanceStatusStrategy_def instanceStrategy_def asserted2_Returns to_Some split: if_splits)

sublocale field_validators \<subseteq> ip_main: keeping_strategy "ipStrategy V"
  by unfold_locales (auto simp: ipStrategy_def asserted2_Returns to_Some update_rules immutable_ok Let_def split: if_splits)

sublocale field_validators \<subseteq> ipAddress_main: keeping_strategy "ipAddressStrategy V"
  by unfold_locales (auto simp: ipAddressStrategy_def asserted2_Returns to_Some update_rules immutable_ok Let_def split: if_splits)

sublocale field_validators \<subseteq> loadBalancer_main: keeping_strategy "loadBalancerStrategy V"
  by unfold_locales (auto simp: loadBalancerStrategy_def asserted2_Returns to_Some update_rules immutable_ok Let_def split: if_splits)

sublocale field_validators \<subseteq> loadBalancer_status: keeping_strategy "loadBalancerStatusStrategy V"
  by unfold_locales (auto simp: loadBalancerStatusStrategy_def loadBalancerStrategy_def asserted2_Returns to_Some split: if_splits)

sublocale field_validators \<subseteq> loadBalancerRouting_main: keeping_strategy "loadBalancerRoutingStrategy V"
  by unfold_locales (auto simp: loadBalancerRoutingStrategy_def asserted2_Returns to_Some update_rules immutable_ok Let_def split: if_splits)

sublocale field_validators \<subseteq> natGateway_main: keeping_strategy "natGatewayStrategy V"
  by unfold_locales (auto simp: natGatewayStrategy_def asserted2_Returns to_Some update_rules immutable_ok Let_def split: if_splits)

sublocale field_validators \<subseteq> natGateway_status: keeping_strategy "natGatewayStatusStrategy V"
  by unfold_locales (auto simp: natGatewayStatusStrategy_def natGatewayStrategy_def asserted2_Returns to_Some split: if_splits)

sublocale field_validators \<subseteq> natGatewayAutoscaler_main: keeping_strategy "natGatewayAutoscalerStrategy V"
  by unfold_locales (auto simp: natGatewayAutoscalerStrategy_def asserted2_Returns to_Some update_rules immutable_ok Let_def split: if_splits)

sublocale field_validators \<subseteq> natGatewayAutoscaler_status: keeping_strategy "natGatewayAutoscalerStatusStrategy V"
  by unfold_locales (auto simp: natGatewayAutoscalerStatusStrategy_def natGatewayAutoscalerStrategy_def asserted2_Returns to_Some split: if_splits)

sublocale field_validators \<subseteq> natTable_main: keeping_strategy "natTableStrategy V"
  by unfold_locales (auto simp: natTableStrategy_def asserted2_Returns to_Some update_rules immutable_ok Let_def split: if_splits)

sublocale field_validators \<subseteq> network_main: keeping_strategy "networkStrategy V"
  by unfold_locales (auto simp: networkStrategy_def asserted2_Returns to_Some update_rules immutable_ok Let_def split: if_splits)

sublocale field_validators \<subseteq> network_status: keeping_strategy "networkStatusStrategy V"
  by unfold_locales (auto simp: networkStatusStrategy_def networkStrategy_def asserted2_Returns to_Some split: if_splits)

sublocale field_validators \<subseteq> networkID_main: keeping_strategy "networkIDStrategy V"
  by unfold_locales (auto simp: networkIDStrategy_def asserted2_Returns to_Some update_rules immutable_ok Let_def split: if_splits)

sublocale field_validators \<subseteq> networkInterface_main: keeping_strategy "networkInterfaceStrategy V"
  by unfold_locales (auto simp: networkInterfaceStrategy_def asserted2_Returns to_Some update_rules immutable_ok Let_def split: if_splits)

sublocale field_validators \<subseteq> networkInterface_status: keeping_strategy "networkInterfaceStatusStrategy V"
  by unfold_locales (auto simp: networkInterfaceStatusStrategy_def networkInterfaceStrategy_def asserted2_Returns to_Some split: if_splits)

sublocale field_validators \<subseteq> node_main: keeping_strategy "nodeStrategy V"
  by unfold_locales (auto simp: nodeStrategy_def asserted2_Returns to_Some update_rules immutable_ok Let_def split: if_splits)

sublocale field_validators \<subseteq> node_status: keeping_strategy "nodeStatusStrategy V"
  by unfold_locales (auto simp: nodeStatusStrategy_def nodeStrategy_def asserted2_Returns to_Some split: if_splits)

context field_validators
begin

lemmas keeping =
  daemonSet_main.keeping_strategy_axioms daemonSet_status.keeping_strategy_axioms
  instance_main.keeping_strategy_axioms instance_status.keeping_strategy_axioms
  ip_main.keeping_strategy_axioms
  ipAddress_main.keeping_strategy_axioms
  loadBalancer_main.keeping_strategy_axioms loadBalancer_status.keeping_strategy_axioms
  loadBalancerRouting_main.keeping_strategy_axioms
  natGateway_main.keeping_strategy_axioms natGateway_status.keeping_strategy_axioms
  natGatewayAutoscaler_main.keeping_strategy_axioms natGatewayAutoscaler_status.keeping_strategy_axioms
  natTable_main.keeping_strategy_axioms
  network_main.keeping_strategy_axioms network_status.keeping_strategy_axioms
  networkID_main.keeping_strategy_axioms
  networkInterface_main.keeping_strategy_axioms networkInterface_status.keeping_strategy_axioms
  node_main.keeping_strategy_axioms node_status.keeping_strategy_axioms

end

end
