(* ===== verification/Tables.thy ===== *)
theory Tables
  imports Strategies
begin

text \<open>
  The printed tables of the API server: \<open>internal/registry/*/tableconvertor.go\<close> and the joiner of
  \<open>utils/strings\<close>. The accessors of list and object metadata, the traversal of the objects to
  print and the printers of group resources and object references are functions of other
  packages and parameters here.
\<close>

section \<open>utils/strings\<close>

record Joiner =
  j_sb :: string
  needSep :: bool
  j_sep :: string

definition NewJoiner :: "string \<Rightarrow> Joiner" where
  "NewJoiner sep = \<lparr>j_sb = [], needSep = False, j_sep = sep\<rparr>"

text \<open>The text of the value is what \<open>fmt.Fprint\<close> writes.\<close>

definition Joiner_Add :: "Joiner \<Rightarrow> string \<Rightarrow> Joiner" where
  "Joiner_Add j v = j\<lparr>j_sb := j_sb j @ (if needSep j then j_sep j else []) @ v, needSep := True\<rparr>"

definition Joiner_String :: "Joiner \<Rightarrow> string" where
  "Joiner_String j = j_sb j"

definition Joiner_Reset :: "Joiner \<Rightarrow> Joiner" where
  "Joiner_Reset j = j\<lparr>j_sb := [], needSep := False\<rparr>"

lemma Joiner_started: "needSep j \<Longrightarrow> j_sb (foldl Joiner_Add j vs) = j_sb j @ concat (map (\<lambda>v. j_sep j @ v) vs)"
  by (induction vs arbitrary: j) (simp_all add: Joiner_Add_def)

lemma Joiner_joins:
  "Joiner_String (foldl Joiner_Add (NewJoiner sep) vs) = (case vs of [] \<Rightarrow> [] | v # vs \<Rightarrow> v @ concat (map (\<lambda>v. sep @ v) vs))"
  by (cases vs) (simp_all add: Joiner_String_def NewJoiner_def Joiner_started Joiner_Add_def)

section \<open>Tables\<close>

record column =
  col_Name :: string
  col_Type :: string
  col_Format :: string
  col_Description :: string

record ListMeta =
  lm_ResourceVersion :: string
  lm_Continue :: string

record table =
  tab_ColumnDefinitions :: "column list"
  tab_ResourceVersion :: string
  tab_Continue :: string
  tab_Rows :: "string list list"

text \<open>
  \<open>MetaToTableRow\<close> returns the cells of the rows and an error; the function it calls for each
  object gets the object, its name and its age.
\<close>

record 'o table_api =
  ListAccessor :: "'o \<Rightarrow> ListMeta result"
  CommonAccessor :: "'o \<Rightarrow> string result"
  MetaToTableRow :: "'o \<Rightarrow> (core_object \<Rightarrow> string \<Rightarrow> string \<Rightarrow> string list outcome) \<Rightarrow> (string list list \<times> go_error option) outcome"
  SwaggerDoc :: "string \<Rightarrow> string"
  GroupResource_String :: "string \<Rightarrow> string \<Rightarrow> string"
  KRef_String :: "string \<Rightarrow> string \<Rightarrow> string"
  ta_DerefZero :: "int option \<Rightarrow> int"

type_synonym 'o convertor = "'o table_api \<Rightarrow> 'o \<Rightarrow> (table \<times> go_error option) outcome"

definition name_column :: "'o table_api \<Rightarrow> column" where
  "name_column T = \<lparr>col_Name = ''Name'', col_Type = ''string'', col_Format = ''name'', col_Description = SwaggerDoc T ''name''\<rparr>"

definition age_column :: "'o table_api \<Rightarrow> column" where
  "age_column T = \<lparr>col_Name = ''Age'', col_Type = ''string'', col_Format = ''date'', col_Description = SwaggerDoc T ''creationTimestamp''\<rparr>"

definition text_column :: "string \<Rightarrow> string \<Rightarrow> column" where
  "text_column name descr = \<lparr>col_Name = name, col_Type = ''string'', col_Format = [], col_Description = descr\<rparr>"

text \<open>The body that the convertors share; they differ in their headers and in the cells of a row.\<close>

definition convert_to_table :: "column list \<Rightarrow> (core_object \<Rightarrow> string \<Rightarrow> string \<Rightarrow> string list outcome) \<Rightarrow> 'o convertor" where
  "convert_to_table headers row T obj =
     (let tab = \<lparr>tab_ColumnDefinitions = headers, tab_ResourceVersion = [], tab_Continue = [], tab_Rows = []\<rparr>;
          tab = (case ListAccessor T obj of
              Inr m \<Rightarrow> tab\<lparr>tab_ResourceVersion := lm_ResourceVersion m, tab_Continue := lm_Continue m\<rparr>
            | Inl _ \<Rightarrow> (case CommonAccessor T obj of
                  Inr rv \<Rightarrow> tab\<lparr>tab_ResourceVersion := rv\<rparr>
                | Inl _ \<Rightarrow> tab)) in
      case MetaToTableRow T obj row of
        Panics \<Rightarrow> Panics
      | Returns (rows, err) \<Rightarrow> Returns (tab\<lparr>tab_Rows := rows\<rparr>, err))"

section \<open>The convertors\<close>

text \<open>The addresses of a list, separated by commas; each package has its own copy of the loop.\<close>

definition instance_formatIPs :: "net_IP list \<Rightarrow> string" where
  "instance_formatIPs ips = Joiner_String (foldl (\<lambda>j ip. Joiner_Add j (addr_String ip)) (NewJoiner '','') ips)"

definition loadBalancer_formatIPs :: "LoadBalancerIP list \<Rightarrow> string" where
  "loadBalancer_formatIPs ips = Joiner_String (foldl (\<lambda>j ip. Joiner_Add j (addr_String (lbip_IP ip))) (NewJoiner '','') ips)"

definition natGateway_formatIPs :: "NATGatewayIP list \<Rightarrow> string" where
  "natGateway_formatIPs ips = Joiner_String (foldl (\<lambda>j ip. Joiner_Add j (addr_String (natip_IP ip))) (NewJoiner '','') ips)"

definition networkInterface_formatIPs :: "net_IP list \<Rightarrow> string" where
  "networkInterface_formatIPs ips = Joiner_String (foldl (\<lambda>j ip. Joiner_Add j (addr_String ip)) (NewJoiner '','') ips)"

definition formatPublicIPs :: "NetworkInterfacePublicIP list \<Rightarrow> string" where
  "formatPublicIPs ips = Joiner_String (foldl (\<lambda>j ip. Joiner_Add j (addr_String (npub_IP ip))) (NewJoiner '','') ips)"

definition ip_formatClaimRef :: "'o table_api \<Rightarrow> IPClaimRef \<Rightarrow> string" where
  "ip_formatClaimRef T claimRef =
     GroupResource_String T (ipref_Group claimRef) (ipref_Resource claimRef) @ '' '' @ ipref_Name claimRef"

definition ipAddress_formatClaimRef :: "'o table_api \<Rightarrow> IPAddressClaimRef \<Rightarrow> string" where
  "ipAddress_formatClaimRef T claimRef =
     GroupResource_String T (iaref_Group claimRef) (iaref_Resource claimRef) @ '' '' @
     KRef_String T (iaref_Namespace claimRef) (iaref_Name claimRef)"

definition networkID_formatClaimRef :: "'o table_api \<Rightarrow> NetworkIDClaimRef \<Rightarrow> string" where
  "networkID_formatClaimRef T claimRef =
     GroupResource_String T (nidref_Group claimRef) (nidref_Resource claimRef) @ '' '' @
     KRef_String T (nidref_Namespace claimRef) (nidref_Name claimRef)"

definition daemonSet_headers :: "'o table_api \<Rightarrow> column list" where
  "daemonSet_headers T = [name_column T, age_column T]"

definition daemonSet_ConvertToTable :: "'o convertor" where
  "daemonSet_ConvertToTable T obj =
     convert_to_table (daemonSet_headers T) (\<lambda>obj name age. asserted to_DaemonSet obj (\<lambda>x. [name, age])) T obj"

definition instance_headers :: "'o table_api \<Rightarrow> column list" where
  "instance_headers T = [name_column T,
     text_column ''Type'' ''The type of the instance'',
     text_column ''LBType'' ''The load balancer type of the instance'',
     text_column ''Network'' ''The network of the instance'',
     text_column ''IPs'' ''The IPs the instance should have'', age_column T]"

definition instance_ConvertToTable :: "'o convertor" where
  "instance_ConvertToTable T obj =
     convert_to_table (instance_headers T) (\<lambda>obj name age. asserted to_Instance obj (\<lambda>x. [name,
        is_Type (inst_Spec x),
        is_LoadBalancerType (inst_Spec x),
        is_NetworkRef (inst_Spec x),
        instance_formatIPs (is_IPs (inst_Spec x)), age])) T obj"

definition ip_headers :: "'o table_api \<Rightarrow> column list" where
  "ip_headers T = [name_column T,
     text_column ''Type'' ''The type of the IP'',
     text_column ''IP'' ''The allocated IP'',
     text_column ''ClaimRef'' ''The claiming entity, if any'', age_column T]"

definition ip_ConvertToTable :: "'o convertor" where
  "ip_ConvertToTable T obj =
     convert_to_table (ip_headers T) (\<lambda>obj name age. asserted to_IP obj (\<lambda>x. [name,
        ipspec_Type (ip_Spec x),
        addr_String (ipspec_IP (ip_Spec x)),
        (case ipspec_ClaimRef (ip_Spec x) of Some claimRef \<Rightarrow> ip_formatClaimRef T claimRef | None \<Rightarrow> ''<none>''), age])) T obj"

definition ipAddress_headers :: "'o table_api \<Rightarrow> column list" where
  "ipAddress_headers T = [name_column T,
     text_column ''ClaimRef'' ''The claiming entity'', age_column T]"

definition ipAddress_ConvertToTable :: "'o convertor" where
  "ipAddress_ConvertToTable T obj =
     convert_to_table (ipAddress_headers T) (\<lambda>obj name age. asserted to_IPAddress obj (\<lambda>x. [name,
        ipAddress_formatClaimRef T (iaspec_ClaimRef (ia_Spec x)), age])) T obj"

definition loadBalancer_headers :: "'o table_api \<Rightarrow> column list" where
  "loadBalancer_headers T = [name_column T,
     text_column ''Type'' ''The type of the load balancer'',
     text_column ''Network'' ''The network of the load balancer'',
     text_column ''IPs'' ''The IPs of the load balancer'', age_column T]"

definition loadBalancer_ConvertToTable :: "'o convertor" where
  "loadBalancer_ConvertToTable T obj =
     convert_to_table (loadBalancer_headers T) (\<lambda>obj name age. asserted to_LoadBalancer obj (\<lambda>x. [name,
        lbs_Type (lb_Spec x),
        lbs_NetworkRef (lb_Spec x),
        loadBalancer_formatIPs (lbs_IPs (lb_Spec x)), age])) T obj"

definition loadBalancerRouting_headers :: "'o table_api \<Rightarrow> column list" where
  "loadBalancerRouting_headers T = [name_column T, age_column T]"

definition loadBalancerRouting_ConvertToTable :: "'o convertor" where
  "loadBalancerRouting_ConvertToTable T obj =
     convert_to_table (loadBalancerRouting_headers T) (\<lambda>obj name age. asserted to_LoadBalancerRouting obj (\<lambda>x. [name, age])) T obj"

definition natGateway_headers :: "'o table_api \<Rightarrow> column list" where
  "natGateway_headers T = [name_column T,
     text_column ''Network'' ''The network of the NAT gateway'',
     text_column ''IPs'' ''The IPs of the NAT gateway'', age_column T]"

definition natGateway_ConvertToTable :: "'o convertor" where
  "natGateway_ConvertToTable T obj =
     convert_to_table (natGateway_headers T) (\<lambda>obj name age. asserted to_NATGateway obj (\<lambda>x. [name,
        ngs_NetworkRef (ng_Spec x),
        natGateway_formatIPs (ngs_IPs (ng_Spec x)), age])) T obj"

definition natGatewayAutoscaler_headers :: "'o table_api \<Rightarrow> column list" where
  "natGatewayAutoscaler_headers T = [name_column T,
     text_column ''NATGateway'' ''The target NAT gateway'',
     text_column ''PublicIPs'' ''The min / max public IPs of the NAT gateway'', age_column T]"

definition natGatewayAutoscaler_ConvertToTable :: "'o convertor" where
  "natGatewayAutoscaler_ConvertToTable T obj =
     convert_to_table (natGatewayAutoscaler_headers T) (\<lambda>obj name age. asserted to_NATGatewayAutoscaler obj (\<lambda>x. [name,
        ngas_NATGatewayRef (nga_Spec x),
        FormatInt (ta_DerefZero T (ngas_MinPublicIPs (nga_Spec x))) @ ''/'' @ FormatInt (ta_DerefZero T (ngas_MaxPublicIPs (nga_Spec x))), age])) T obj"

definition natTable_headers :: "'o table_api \<Rightarrow> column list" where
  "natTable_headers T = [name_column T, age_column T]"

definition natTable_ConvertToTable :: "'o convertor" where
  "natTable_ConvertToTable T obj =
     convert_to_table (natTable_headers T) (\<lambda>obj name age. asserted to_NATTable obj (\<lambda>x. [name, age])) T obj"

definition network_headers :: "'o table_api \<Rightarrow> column list" where
  "network_headers T = [name_column T,
     text_column ''ID'' ''The ID of the network'', age_column T]"

definition network_ConvertToTable :: "'o convertor" where
  "network_ConvertToTable T obj =
     convert_to_table (network_headers T) (\<lambda>obj name age. asserted to_Network obj (\<lambda>x. [name,
        netspec_ID (net_Spec x), age])) T obj"

definition networkID_headers :: "'o table_api \<Rightarrow> column list" where
  "networkID_headers T = [name_column T,
     text_column ''ClaimRef'' ''The claiming entity'', age_column T]"

definition networkID_ConvertToTable :: "'o convertor" where
  "networkID_ConvertToTable T obj =
     convert_to_table (networkID_headers T) (\<lambda>obj name age. asserted to_NetworkID obj (\<lambda>x. [name,
        networkID_formatClaimRef T (nidspec_ClaimRef (nid_Spec x)), age])) T obj"

definition networkInterface_headers :: "'o table_api \<Rightarrow> column list" where
  "networkInterface_headers T = [name_column T,
     text_column ''Network'' ''The network of the network interface'',
     text_column ''IPs'' ''The IPs of the network interface'',
     text_column ''PublicIPs'' ''The public IPs of the network interface'', age_column T]"

definition networkInterface_ConvertToTable :: "'o convertor" where
  "networkInterface_ConvertToTable T obj =
     convert_to_table (networkInterface_headers T) (\<lambda>obj name age. asserted to_NetworkInterface obj (\<lambda>x. [name,
        nics_NetworkRef (nic_Spec x),
        networkInterface_formatIPs (nics_IPs (nic_Spec x)),
        formatPublicIPs (nics_PublicIPs (nic_Spec x)), age])) T obj"

definition node_headers :: "'o table_api \<Rightarrow> column list" where
  "node_headers T = [name_column T, age_column T]"

definition node_ConvertToTable :: "'o convertor" where
  "node_ConvertToTable T obj =
     convert_to_table (node_headers T) (\<lambda>obj name age. asserted to_Node obj (\<lambda>x. [name, age])) T obj"

section \<open>Rows fit the headers\<close>

text \<open>Rows of a convertor that was given objects of its kind only.\<close>

definition table_fits :: "'o table_api \<Rightarrow> ('o \<Rightarrow> core_object list) \<Rightarrow> 'o convertor \<Rightarrow> string \<Rightarrow> bool" where
  "table_fits T items c kind \<longleftrightarrow> (\<forall>obj. (\<forall>x\<in>set (items obj). kind_of x = kind) \<longrightarrow>
     returns (c T obj) \<and>
     (\<forall>tab. c T obj = Returns (tab, None) \<longrightarrow>
        list_all2 (\<lambda>x r. hd r = om_Name (object_meta x) \<and> length r = length (tab_ColumnDefinitions tab)) (items obj) (tab_Rows tab)))"

text \<open>
  \<open>MetaToTableRow\<close> calls the row function once per object with the name of the object. A panic can only
  come from the row function.
\<close>

locale table_rows =
  fixes T :: "'o table_api" and items :: "'o \<Rightarrow> core_object list"
  assumes rows: "MetaToTableRow T obj row = Returns (cells, None) \<Longrightarrow>
      list_all2 (\<lambda>x r. \<exists>age. row x (om_Name (object_meta x)) age = Returns r) (items obj) cells"
    and row_panics: "(\<And>x name age. x \<in> set (items obj) \<Longrightarrow> returns (row x name age)) \<Longrightarrow> returns (MetaToTableRow T obj row)"
begin

lemma convert_fits:
  assumes "\<And>x name age. kind_of x = kind \<Longrightarrow> \<exists>r. row x name age = Returns (name # r) \<and> Suc (length r) = length headers"
    and "\<And>obj. c T obj = convert_to_table headers row T obj"
  shows "table_fits T items c kind"
  unfolding table_fits_def
proof (intro allI impI conjI)
  fix obj assume k: "\<forall>x\<in>set (items obj). kind_of x = kind"
  have "returns (row x name age)" if "x \<in> set (items obj)" for x name age using assms(1) [of x name age] k that by auto
  then have r: "returns (MetaToTableRow T obj row)" by (rule row_panics)
  then show "returns (c T obj)"
    by (cases "MetaToTableRow T obj row") (auto simp: assms(2) convert_to_table_def Let_def)
  fix tab assume "c T obj = Returns (tab, None)"
  then obtain cells where c: "MetaToTableRow T obj row = Returns (cells, None)" "tab_Rows tab = cells" "tab_ColumnDefinitions tab = headers"
    by (auto simp: assms(2) convert_to_table_def Let_def split: outcome.splits sum.splits)
  have "list_all2 (\<lambda>x r. hd r = om_Name (object_meta x) \<and> length r = length headers) (items obj) cells"
    using rows [OF c(1)]
  proof (rule list.rel_mono_strong)
    fix x r assume "x \<in> set (items obj)" and "\<exists>age. row x (om_Name (object_meta x)) age = Returns r"
    then obtain age where "kind_of x = kind" "row x (om_Name (object_meta x)) age = Returns r" using k by blast
    with assms(1) [of x "om_Name (object_meta x)" age] show "hd r = om_Name (object_meta x) \<and> length r = length headers" by auto
  qed
  then show "list_all2 (\<lambda>x r. hd r = om_Name (object_meta x) \<and> length r = length (tab_ColumnDefinitions tab)) (items obj) (tab_Rows tab)"
    using c by simp
qed

lemma convertors_fit:

  "table_fits T items daemonSet_ConvertToTable ''DaemonSet''"
  "table_fits T items instance_ConvertToTable ''Instance''"
  "table_fits T items ip_ConvertToTable ''IP''"
  "table_fits T items ipAddress_ConvertToTable ''IPAddress''"
  "table_fits T items loadBalancer_ConvertToTable ''LoadBalancer''"
  "table_fits T items loadBalancerRouting_ConvertToTable ''LoadBalancerRouting''"
  "table_fits T items natGateway_ConvertToTable ''NATGateway''"
  "table_fits T items natGatewayAutoscaler_ConvertToTable ''NATGatewayAutoscaler''"
  "table_fits T items natTable_ConvertToTable ''NATTable''"
  "table_fits T items network_ConvertToTable ''Network''"
  "table_fits T items networkID_ConvertToTable ''NetworkID''"
  "table_fits T items networkInterface_ConvertToTable ''NetworkInterface''"
  "table_fits T items node_ConvertToTable ''Node''"
proof -
  show "table_fits T items daemonSet_ConvertToTable ''DaemonSet''"
    by (rule convert_fits [rotated], rule daemonSet_ConvertToTable_def) (auto simp: daemonSet_headers_def kind_of_to)
  show "table_fits T items instance_ConvertToTable ''Instance''"
    by (rule convert_fits [rotated], rule instance_ConvertToTable_def) (auto simp: instance_headers_def kind_of_to)
  show "table_fits T items ip_ConvertToTable ''IP''"
    by (rule convert_fits [rotated], rule ip_ConvertToTable_def) (auto simp: ip_headers_def kind_of_to)
  show "table_fits T items ipAddress_ConvertToTable ''IPAddress''"
    by (rule convert_fits [rotated], rule ipAddress_ConvertToTable_def) (auto simp: ipAddress_headers_def kind_of_to)
  show "table_fits T items loadBalancer_ConvertToTable ''LoadBalancer''"
    by (rule convert_fits [rotated], rule loadBalancer_ConvertToTable_def) (auto simp: loadBalancer_headers_def kind_of_to)
  show "table_fits T items loadBalancerRouting_ConvertToTable ''LoadBalancerRouting''"
    by (rule convert_fits [rotated], rule loadBalancerRouting_ConvertToTable_def) (auto simp: loadBalancerRouting_headers_def kind_of_to)
  show "table_fits T items natGateway_ConvertToTable ''NATGateway''"
    by (rule convert_fits [rotated], rule natGateway_ConvertToTable_def) (auto simp: natGateway_headers_def kind_of_to)
  show "table_fits T items natGatewayAutoscaler_ConvertToTable ''NATGatewayAutoscaler''"
    by (rule convert_fits [rotated], rule natGatewayAutoscaler_ConvertToTable_def) (auto simp: natGatewayAutoscaler_headers_def kind_of_to)
  show "table_fits T items natTable_ConvertToTable ''NATTable''"
    by (rule convert_fits [rotated], rule natTable_ConvertToTable_def) (auto simp: natTable_headers_def kind_of_to)
  show "table_fits T items network_ConvertToTable ''Network''"
    by (rule convert_fits [rotated], rule network_ConvertToTable_def) (auto simp: network_headers_def kind_of_to)
  show "table_fits T items networkID_ConvertToTable ''NetworkID''"
    by (rule convert_fits [rotated], rule networkID_ConvertToTable_def) (auto simp: networkID_headers_def kind_of_to)
  show "table_fits T items networkInterface_ConvertToTable ''NetworkInterface''"
    by (rule convert_fits [rotated], rule networkInterface_ConvertToTable_def) (auto simp: networkInterface_headers_def kind_of_to)
  show "table_fits T items node_ConvertToTable ''Node''"
    by (rule convert_fits [rotated], rule node_ConvertToTable_def) (auto simp: node_headers_def kind_of_to)
qed

end

section \<open>Objects in memory\<close>

text \<open>An object is printed as one row, a list as one row per object.\<close>

datatype runtime_object = Item core_object | Items ListMeta "core_object list"

primrec runtime_items :: "runtime_object \<Rightarrow> core_object list" where
  "runtime_items (Item x) = [x]"
| "runtime_items (Items m xs) = xs"

definition mem_rows :: "runtime_object \<Rightarrow> (core_object \<Rightarrow> string \<Rightarrow> string \<Rightarrow> string list outcome) \<Rightarrow> (string list list \<times> go_error option) outcome" where
  "mem_rows obj row =
     (let rs = map (\<lambda>x. row x (om_Name (object_meta x)) ''<unknown>'') (runtime_items obj) in
      if list_all returns rs then Returns (map (\<lambda>r. case r of Returns c \<Rightarrow> c | Panics \<Rightarrow> []) rs, None) else Panics)"

definition mem_table_api :: "runtime_object table_api" where
  "mem_table_api =
     \<lparr>ListAccessor = (\<lambda>obj. case obj of Item _ \<Rightarrow> Inl (ErrMsg ''object does not implement the List interfaces'') | Items m _ \<Rightarrow> Inr m),
      CommonAccessor = (\<lambda>obj. case obj of Item x \<Rightarrow> Inr (om_ResourceVersion (object_meta x)) | Items m _ \<Rightarrow> Inr (lm_ResourceVersion m)),
      MetaToTableRow = mem_rows, SwaggerDoc = (\<lambda>f. f),
      GroupResource_String = (\<lambda>g r. if g = [] then r else r @ ''.'' @ g), KRef_String = (\<lambda>ns n. if ns = [] then n else ns @ ''/'' @ n),
      ta_DerefZero = (\<lambda>x. case x of None \<Rightarrow> 0 | Some v \<Rightarrow> v)\<rparr>"

lemma returned: "returns r \<Longrightarrow> r = Returns (case r of Returns c \<Rightarrow> c | Panics \<Rightarrow> [])"
  by (cases r) auto

lemma mem_table_rows: "table_rows mem_table_api runtime_items"
proof
  fix obj row cells assume "MetaToTableRow mem_table_api obj row = Returns (cells, None)"
  then show "list_all2 (\<lambda>x r. \<exists>age. row x (om_Name (object_meta x)) age = Returns r) (runtime_items obj) cells"
    by (auto simp: mem_table_api_def mem_rows_def Let_def list.rel_map list_all_iff split: if_splits
        intro!: list.rel_refl_strong exI [of _ "''<unknown>''"] returned)
next
  fix obj :: runtime_object and row :: "core_object \<Rightarrow> string \<Rightarrow> string \<Rightarrow> string list outcome"
  assume "\<And>x name age. x \<in> set (runtime_items obj) \<Longrightarrow> returns (row x name age)"
  then show "returns (MetaToTableRow mem_table_api obj row)" by (simp add: mem_table_api_def mem_rows_def Let_def list_all_iff)
qed

interpretation mem_tables: table_rows mem_table_api runtime_items
  by (rule mem_table_rows)

end
