(* ===== verification/Registries.thy ===== *)
theory Registries
  imports Tables IPTransactions
begin

text \<open>
  The storages of the API server, \<open>internal/registry/*/storage.go\<close>, and the server that serves
  them, \<open>internal/apiserver/apiserver.go\<close>. The generic store of \<open>k8s.io/apiserver\<close> is not part of
  the repository: a store is the record of what the program puts into it, and what the library
  does with it is stated by the locales below. The hooks of a store are named here; what
  they do is modelled in \<open>NetworkIDs\<close>, \<open>IPAddresses\<close> and \<open>IPAllocators\<close>.
\<close>

section \<open>Zero values\<close>

definition zero_InstanceSpec :: InstanceSpec where
  "zero_InstanceSpec = \<lparr>is_Type = [], is_LoadBalancerType = [], is_NetworkRef = [], is_IPs = [], is_LoadBalancerPorts = [],
     is_Affinity = None, is_TopologySpreadConstraints = None, is_NodeRef = None\<rparr>"

definition zero_Template :: InstanceTemplate where
  "zero_Template = \<lparr>it_Meta = zero_meta, it_Spec = zero_InstanceSpec\<rparr>"

section \<open>Stores\<close>

datatype hook = IP_hook | LoadBalancer_hook | NATGateway_hook | Network_hook | NetworkInterface_hook

record ('l, 'f, 'o) registry_store =
  NewFunc :: core_object
  NewListFunc :: "string \<times> core_object list"
  PredicateFunc :: "'l \<Rightarrow> 'f \<Rightarrow> ('l, 'f) selection_predicate"
  DefaultQualifiedResource :: string
  SingularQualifiedResource :: string
  CreateStrategy :: strategy
  UpdateStrategy :: strategy
  DeleteStrategy :: strategy
  ResetFieldsStrategy :: "reset_fields option"
  TableConvertor :: "'o convertor"
  BeginCreate :: "hook option"
  BeginUpdate :: "hook option"
  AfterDelete :: "hook option"

record store_options =
  AttrFunc :: "core_object \<Rightarrow> (labels \<times> fields) result"
  TriggerFunc :: "(string \<times> (core_object \<Rightarrow> string outcome)) list"
  so_Indexers :: "(string \<times> (core_object \<Rightarrow> string list result)) list"

text \<open>
  What the server takes from elsewhere: the generic checks and metadata fields, the name of an
  index, and \<open>CompleteWithOptions\<close>, which fills in what a store leaves open or fails.
\<close>

record ('q, 'p, 'r, 'l, 'f, 'o) registry_env =
  re_validators :: "('q, 'p, 'r) validators"
  re_fields :: meta_fields
  re_FieldIndex :: "string \<Rightarrow> string"
  CompleteWithOptions :: "('l, 'f, 'o) registry_store \<Rightarrow> store_options \<Rightarrow> ('l, 'f, 'o) registry_store result"

text \<open>Each package has its own storage type, with the main store and, for some kinds, that of the status.\<close>

record ('l, 'f, 'o) storage =
  stg_Main :: "('l, 'f, 'o) registry_store"
  stg_Status :: "('l, 'f, 'o) registry_store option"

definition plain_options :: "(core_object \<Rightarrow> (labels \<times> fields) result) \<Rightarrow> store_options" where
  "plain_options attrs = \<lparr>AttrFunc = attrs, TriggerFunc = [], so_Indexers = []\<rparr>"

text \<open>The status store is a copy of the main store with another strategy for updates.\<close>

definition status_store :: "('l, 'f, 'o) registry_store \<Rightarrow> strategy \<Rightarrow> reset_fields \<Rightarrow> ('l, 'f, 'o) registry_store" where
  "status_store store S fs = store\<lparr>UpdateStrategy := S, ResetFieldsStrategy := Some fs\<rparr>"

definition daemonSet_NewStorage :: "('q, 'p, 'r, 'l, 'f, 'o) registry_env \<Rightarrow> ('l, 'f, 'o) storage result" where
  "daemonSet_NewStorage E =
     (let strategy = daemonSetStrategy (re_validators E);
          statusStrategy = daemonSetStatusStrategy (re_validators E);
          store = \<lparr>NewFunc = DaemonSet_obj \<lparr>ds_Meta = zero_meta, ds_Spec = \<lparr>dss_Selector = None, dss_Template = zero_Template\<rparr>, ds_Status = \<lparr>dst_CollisionCount = None\<rparr>\<rparr>,
            NewListFunc = (''DaemonSetList'', []), PredicateFunc = MatchDaemonSet (re_fields E),
            DefaultQualifiedResource = ''daemonsets'', SingularQualifiedResource = ''daemonset'',
            CreateStrategy = strategy, UpdateStrategy = strategy, DeleteStrategy = strategy, ResetFieldsStrategy = None,
            TableConvertor = daemonSet_ConvertToTable, BeginCreate = None, BeginUpdate = None, AfterDelete = None\<rparr> in
      case CompleteWithOptions E store (plain_options (daemonSet_GetAttrs (re_fields E))) of
        Inl err \<Rightarrow> Inl err
      | Inr store \<Rightarrow>
          Inr \<lparr>stg_Main = store, stg_Status = Some (status_store store statusStrategy daemonSet_GetResetFields)\<rparr>)"

definition instance_NewStorage :: "('q, 'p, 'r, 'l, 'f, 'o) registry_env \<Rightarrow> ('l, 'f, 'o) storage result" where
  "instance_NewStorage E =
     (let strategy = instanceStrategy (re_validators E);
          statusStrategy = instanceStatusStrategy (re_validators E);
          store = \<lparr>NewFunc = Instance_obj \<lparr>inst_Meta = zero_meta, inst_Spec = zero_InstanceSpec, inst_Status = \<lparr>ist_IPs = [], ist_CollisionCount = None\<rparr>\<rparr>,
            NewListFunc = (''InstanceList'', []), PredicateFunc = MatchInstance (re_fields E),
            DefaultQualifiedResource = ''instances'', SingularQualifiedResource = ''instance'',
            CreateStrategy = strategy, UpdateStrategy = strategy, DeleteStrategy = strategy, ResetFieldsStrategy = None,
            TableConvertor = instance_ConvertToTable, BeginCreate = None, BeginUpdate = None, AfterDelete = None\<rparr> in
      case CompleteWithOptions E store (plain_options (instance_GetAttrs (re_fields E))) of
        Inl err \<Rightarrow> Inl err
      | Inr store \<Rightarrow>
          Inr \<lparr>stg_Main = store, stg_Status = Some (status_store store statusStrategy instance_GetResetFields)\<rparr>)"

definition ip_NewStorage :: "('q, 'p, 'r, 'l, 'f, 'o) registry_env \<Rightarrow> ('l, 'f, 'o) storage result" where
  "ip_NewStorage E =
     (let strategy = ipStrategy (re_validators E);
          store = \<lparr>NewFunc = IP_obj \<lparr>ip_Meta = zero_meta, ip_Spec = \<lparr>ipspec_Type = [], ipspec_IPFamily = [], ipspec_IP = ZeroAddr, ipspec_ClaimRef = None\<rparr>\<rparr>,
            NewListFunc = (''IPList'', []), PredicateFunc = MatchIP (re_fields E),
            DefaultQualifiedResource = ''ips'', SingularQualifiedResource = ''ip'',
            CreateStrategy = strategy, UpdateStrategy = strategy, DeleteStrategy = strategy, ResetFieldsStrategy = None,
            TableConvertor = ip_ConvertToTable, BeginCreate = None, BeginUpdate = None, AfterDelete = None\<rparr> in
      case CompleteWithOptions E store \<lparr>AttrFunc = ip_GetAttrs (re_fields E), TriggerFunc = [(''spec.ip'', IPTriggerFunc)],
          so_Indexers = Indexers (re_FieldIndex E)\<rparr> of
        Inl err \<Rightarrow> Inl err
      | Inr store \<Rightarrow>
          let store = store\<lparr>BeginCreate := Some IP_hook, AfterDelete := Some IP_hook\<rparr> in
          Inr \<lparr>stg_Main = store, stg_Status = None\<rparr>)"

definition ipAddress_NewStorage :: "('q, 'p, 'r, 'l, 'f, 'o) registry_env \<Rightarrow> ('l, 'f, 'o) storage result" where
  "ipAddress_NewStorage E =
     (let strategy = ipAddressStrategy (re_validators E);
          store = \<lparr>NewFunc = IPAddress_obj \<lparr>ia_Meta = zero_meta, ia_Spec = \<lparr>iaspec_IP = ZeroAddr, iaspec_ClaimRef = \<lparr>iaref_Group = [], iaref_Resource = [], iaref_Namespace = [], iaref_Name = [], iaref_UID = []\<rparr>\<rparr>\<rparr>,
            NewListFunc = (''IPAddressList'', []), PredicateFunc = MatchIPAddress (re_fields E),
            DefaultQualifiedResource = ''ipaddresses'', SingularQualifiedResource = ''ipaddress'',
            CreateStrategy = strategy, UpdateStrategy = strategy, DeleteStrategy = strategy, ResetFieldsStrategy = None,
            TableConvertor = ipAddress_ConvertToTable, BeginCreate = None, BeginUpdate = None, AfterDelete = None\<rparr> in
      case CompleteWithOptions E store (plain_options (ipAddress_GetAttrs (re_fields E))) of
        Inl err \<Rightarrow> Inl err
      | Inr store \<Rightarrow>
          Inr \<lparr>stg_Main = store, stg_Status = None\<rparr>)"

definition loadBalancer_NewStorage :: "('q, 'p, 'r, 'l, 'f, 'o) registry_env \<Rightarrow> ('l, 'f, 'o) storage result" where
  "loadBalancer_NewStorage E =
     (let strategy = loadBalancerStrategy (re_validators E);
          statusStrategy = loadBalancerStatusStrategy (re_validators E);
          store = \<lparr>NewFunc = LoadBalancer_obj \<lparr>lb_Meta = zero_meta, lb_Spec = \<lparr>lbs_Type = [], lbs_NetworkRef = [], lbs_IPs = [], lbs_Ports = [], lbs_Selector = None, lbs_Template = zero_Template\<rparr>, lb_Status = \<lparr>lbst_CollisionCount = None\<rparr>\<rparr>,
            NewListFunc = (''LoadBalancerList'', []), PredicateFunc = MatchLoadBalancer (re_fields E),
            DefaultQualifiedResource = ''loadbalancers'', SingularQualifiedResource = ''loadbalancer'',
            CreateStrategy = strategy, UpdateStrategy = strategy, DeleteStrategy = strategy, ResetFieldsStrategy = None,
            TableConvertor = loadBalancer_ConvertToTable, BeginCreate = None, BeginUpdate = None, AfterDelete = None\<rparr> in
      case CompleteWithOptions E store (plain_options (loadBalancer_GetAttrs (re_fields E))) of
        Inl err \<Rightarrow> Inl err
      | Inr store \<Rightarrow>
          let store = store\<lparr>BeginCreate := Some LoadBalancer_hook, BeginUpdate := Some LoadBalancer_hook, AfterDelete := Some LoadBalancer_hook\<rparr> in
          Inr \<lparr>stg_Main = store, stg_Status = Some (status_store store statusStrategy loadBalancer_GetResetFields)\<rparr>)"

definition loadBalancerRouting_NewStorage :: "('q, 'p, 'r, 'l, 'f, 'o) registry_env \<Rightarrow> ('l, 'f, 'o) storage result" where
  "loadBalancerRouting_NewStorage E =
     (let strategy = loadBalancerRoutingStrategy (re_validators E);
          store = \<lparr>NewFunc = LoadBalancerRouting_obj \<lparr>lbr_Meta = zero_meta, lbr_Destinations = []\<rparr>,
            NewListFunc = (''LoadBalancerRoutingList'', []), PredicateFunc = MatchLoadBalancerRouting (re_fields E),
            DefaultQualifiedResource = ''loadbalancerroutings'', SingularQualifiedResource = ''loadbalancerrouting'',
            CreateStrategy = strategy, UpdateStrategy = strategy, DeleteStrategy = strategy, ResetFieldsStrategy = None,
            TableConvertor = loadBalancerRouting_ConvertToTable, BeginCreate = None, BeginUpdate = None, AfterDelete = None\<rparr> in
      case CompleteWithOptions E store (plain_options (loadBalancerRouting_GetAttrs (re_fields E))) of
        Inl err \<Rightarrow> Inl err
      | Inr store \<Rightarrow>
          Inr \<lparr>stg_Main = store, stg_Status = None\<rparr>)"

definition natGateway_NewStorage :: "('q, 'p, 'r, 'l, 'f, 'o) registry_env \<Rightarrow> ('l, 'f, 'o) storage result" where
  "natGateway_NewStorage E =
     (let strategy = natGatewayStrategy (re_validators E);
          statusStrategy = natGatewayStatusStrategy (re_validators E);
          store = \<lparr>NewFunc = NATGateway_obj \<lparr>ng_Meta = zero_meta, ng_Spec = \<lparr>ngs_IPFamily = [], ngs_NetworkRef = [], ngs_IPs = [], ngs_PortsPerNetworkInterface = 0\<rparr>, ng_Status = \<lparr>ngst_UsedNATIPs = 0, ngst_RequestedNATIPs = 0\<rparr>\<rparr>,
            NewListFunc = (''NATGatewayList'', []), PredicateFunc = MatchNATGateway (re_fields E),
            DefaultQualifiedResource = ''natgateways'', SingularQualifiedResource = ''natgateway'',
            CreateStrategy = strategy, UpdateStrategy = strategy, DeleteStrategy = strategy, ResetFieldsStrategy = None,
            TableConvertor = natGateway_ConvertToTable, BeginCreate = None, BeginUpdate = None, AfterDelete = None\<rparr> in
      case CompleteWithOptions E store (plain_options (natGateway_GetAttrs (re_fields E))) of
        Inl err \<Rightarrow> Inl err
      | Inr store \<Rightarrow>
          let store = store\<lparr>BeginCreate := Some NATGateway_hook, BeginUpdate := Some NATGateway_hook, AfterDelete := Some NATGateway_hook\<rparr> in
          Inr \<lparr>stg_Main = store, stg_Status = Some (status_store store statusStrategy natGateway_GetResetFields)\<rparr>)"

definition natGatewayAutoscaler_NewStorage :: "('q, 'p, 'r, 'l, 'f, 'o) registry_env \<Rightarrow> ('l, 'f, 'o) storage result" where
  "natGatewayAutoscaler_NewStorage E =
     (let strategy = natGatewayAutoscalerStrategy (re_validators E);
          statusStrategy = natGatewayAutoscalerStatusStrategy (re_validators E);
          store = \<lparr>NewFunc = NATGatewayAutoscaler_obj \<lparr>nga_Meta = zero_meta, nga_Spec = \<lparr>ngas_NATGatewayRef = [], ngas_MinPublicIPs = None, ngas_MaxPublicIPs = None\<rparr>\<rparr>,
            NewListFunc = (''NATGatewayAutoscalerList'', []), PredicateFunc = MatchNATGatewayAutoscaler (re_fields E),
            DefaultQualifiedResource = ''natgatewayautoscalers'', SingularQualifiedResource = ''natgatewayautoscaler'',
            CreateStrategy = strategy, UpdateStrategy = strategy, DeleteStrategy = strategy, ResetFieldsStrategy = None,
            TableConvertor = natGatewayAutoscaler_ConvertToTable, BeginCreate = None, BeginUpdate = None, AfterDelete = None\<rparr> in
      case CompleteWithOptions E store (plain_options (natGatewayAutoscaler_GetAttrs (re_fields E))) of
        Inl err \<Rightarrow> Inl err
      | Inr store \<Rightarrow>
          Inr \<lparr>stg_Main = store, stg_Status = Some (status_store store statusStrategy natGatewayAutoscaler_GetResetFields)\<rparr>)"

definition natTable_NewStorage :: "('q, 'p, 'r, 'l, 'f, 'o) registry_env \<Rightarrow> ('l, 'f, 'o) storage result" where
  "natTable_NewStorage E =
     (let strategy = natTableStrategy (re_validators E);
          store = \<lparr>NewFunc = NATTable_obj \<lparr>nt_Meta = zero_meta, nt_IPs = []\<rparr>,
            NewListFunc = (''NATTableList'', []), PredicateFunc = MatchNATTable (re_fields E),
            DefaultQualifiedResource = ''nattables'', SingularQualifiedResource = ''nattable'',
            CreateStrategy = strategy, UpdateStrategy = strategy, DeleteStrategy = strategy, ResetFieldsStrategy = None,
            TableConvertor = natTable_ConvertToTable, BeginCreate = None, BeginUpdate = None, AfterDelete = None\<rparr> in
      case CompleteWithOptions E store (plain_options (natTable_GetAttrs (re_fields E))) of
        Inl err \<Rightarrow> Inl err
      | Inr store \<Rightarrow>
          Inr \<lparr>stg_Main = store, stg_Status = None\<rparr>)"

definition network_NewStorage :: "('q, 'p, 'r, 'l, 'f, 'o) registry_env \<Rightarrow> ('l, 'f, 'o) storage result" where
  "network_NewStorage E =
     (let strategy = networkStrategy (re_validators E);
          statusStrategy = networkStatusStrategy (re_validators E);
          store = \<lparr>NewFunc = Network_obj \<lparr>net_Meta = zero_meta, net_Spec = \<lparr>netspec_ID = []\<rparr>\<rparr>,
            NewListFunc = (''NetworkList'', []), PredicateFunc = MatchNetwork (re_fields E),
            DefaultQualifiedResource = ''networks'', SingularQualifiedResource = ''network'',
            CreateStrategy = strategy, UpdateStrategy = strategy, DeleteStrategy = strategy, ResetFieldsStrategy = None,
            TableConvertor = network_ConvertToTable, BeginCreate = None, BeginUpdate = None, AfterDelete = None\<rparr> in
      case CompleteWithOptions E store (plain_options (network_GetAttrs (re_fields E))) of
        Inl err \<Rightarrow> Inl err
      | Inr store \<Rightarrow>
          let store = store\<lparr>BeginCreate := Some Network_hook, AfterDelete := Some Network_hook\<rparr> in
          Inr \<lparr>stg_Main = store, stg_Status = Some (status_store store statusStrategy network_GetResetFields)\<rparr>)"

definition networkID_NewStorage :: "('q, 'p, 'r, 'l, 'f, 'o) registry_env \<Rightarrow> ('l, 'f, 'o) storage result" where
  "networkID_NewStorage E =
     (let strategy = networkIDStrategy (re_validators E);
          store = \<lparr>NewFunc = NetworkID_obj \<lparr>nid_Meta = zero_meta, nid_Spec = \<lparr>nidspec_ClaimRef = \<lparr>nidref_Group = [], nidref_Resource = [], nidref_Namespace = [], nidref_Name = [], nidref_UID = []\<rparr>\<rparr>\<rparr>,
            NewListFunc = (''NetworkIDList'', []), PredicateFunc = MatchNetworkID (re_fields E),
            DefaultQualifiedResource = ''networkids'', SingularQualifiedResource = ''networkid'',
            CreateStrategy = strategy, UpdateStrategy = strategy, DeleteStrategy = strategy, ResetFieldsStrategy = None,
            TableConvertor = networkID_ConvertToTable, BeginCreate = None, BeginUpdate = None, AfterDelete = None\<rparr> in
      case CompleteWithOptions E store (plain_options (networkID_GetAttrs (re_fields E))) of
        Inl err \<Rightarrow> Inl err
      | Inr store \<Rightarrow>
          Inr \<lparr>stg_Main = store, stg_Status = None\<rparr>)"

definition networkInterface_NewStorage :: "('q, 'p, 'r, 'l, 'f, 'o) registry_env \<Rightarrow> ('l, 'f, 'o) storage result" where
  "networkInterface_NewStorage E =
     (let strategy = networkInterfaceStrategy (re_validators E);
          statusStrategy = networkInterfaceStatusStrategy (re_validators E);
          store = \<lparr>NewFunc = NetworkInterface_obj \<lparr>nic_Meta = zero_meta, nic_Spec = \<lparr>nics_NodeRef = [], nics_NetworkRef = [], nics_IPs = [], nics_Prefixes = [], nics_NATs = [], nics_PublicIPs = []\<rparr>, nic_Status = \<lparr>nicst_State = [], nicst_PCIAddress = None, nicst_Prefixes = [], nicst_PublicIPs = [], nicst_NATIPs = []\<rparr>\<rparr>,
            NewListFunc = (''NetworkInterfaceList'', []), PredicateFunc = MatchNetworkInterface (re_fields E),
            DefaultQualifiedResource = ''networkinterfaces'', SingularQualifiedResource = ''networkinterface'',
            CreateStrategy = strategy, UpdateStrategy = strategy, DeleteStrategy = strategy, ResetFieldsStrategy = None,
            TableConvertor = networkInterface_ConvertToTable, BeginCreate = None, BeginUpdate = None, AfterDelete = None\<rparr> in
      case CompleteWithOptions E store (plain_options (networkInterface_GetAttrs (re_fields E))) of
        Inl err \<Rightarrow> Inl err
      | Inr store \<Rightarrow>
          let store = store\<lparr>BeginCreate := Some NetworkInterface_hook, BeginUpdate := Some NetworkInterface_hook, AfterDelete := Some NetworkInterface_hook\<rparr> in
          Inr \<lparr>stg_Main = store, stg_Status = Some (status_store store statusStrategy networkInterface_GetResetFields)\<rparr>)"

definition node_NewStorage :: "('q, 'p, 'r, 'l, 'f, 'o) registry_env \<Rightarrow> ('l, 'f, 'o) storage result" where
  "node_NewStorage E =
     (let strategy = nodeStrategy (re_validators E);
          statusStrategy = nodeStatusStrategy (re_validators E);
          store = \<lparr>NewFunc = Node_obj \<lparr>node_Meta = zero_meta\<rparr>,
            NewListFunc = (''NodeList'', []), PredicateFunc = MatchNode (re_fields E),
            DefaultQualifiedResource = ''nodes'', SingularQualifiedResource = ''node'',
            CreateStrategy = strategy, UpdateStrategy = strategy, DeleteStrategy = strategy, ResetFieldsStrategy = None,
            TableConvertor = node_ConvertToTable, BeginCreate = None, BeginUpdate = None, AfterDelete = None\<rparr> in
      case CompleteWithOptions E store (plain_options (node_GetAttrs (re_fields E))) of
        Inl err \<Rightarrow> Inl err
      | Inr store \<Rightarrow>
          Inr \<lparr>stg_Main = store, stg_Status = Some (status_store store statusStrategy node_GetResetFields)\<rparr>)"

lemmas NewStorage_defs = daemonSet_NewStorage_def
  instance_NewStorage_def
  ip_NewStorage_def
  ipAddress_NewStorage_def
  loadBalancer_NewStorage_def
  loadBalancerRouting_NewStorage_def
  natGateway_NewStorage_def
  natGatewayAutoscaler_NewStorage_def
  natTable_NewStorage_def
  network_NewStorage_def
  networkID_NewStorage_def
  networkInterface_NewStorage_def
  node_NewStorage_def
section \<open>internal/apiserver/apiserver.go\<close>

record server_config =
  MinVNI :: int
  MaxVNI :: int
  PublicPrefix :: "prefix list"

datatype ('l, 'f, 'o) rest_storage = REST "('l, 'f, 'o) registry_store" | StatusREST "('l, 'f, 'o) registry_store"

primrec rest_store :: "('l, 'f, 'o) rest_storage \<Rightarrow> ('l, 'f, 'o) registry_store" where
  "rest_store (REST st) = st"
| "rest_store (StatusREST st) = st"

text \<open>
  The results of the calls of \<open>New\<close> into the generic server: whether the server and the loopback
  client can be made and whether the storages can be installed.
\<close>

record ('q, 'p, 'r, 'l, 'f, 'o) server_env =
  se_registry :: "('q, 'p, 'r, 'l, 'f, 'o) registry_env"
  se_GenericNew :: "go_error option"
  se_NewForConfig :: "go_error option"
  se_PrefixLastIP :: "prefix \<Rightarrow> addr"
  se_InstallAPIGroups :: "(string \<times> ('l, 'f, 'o) rest_storage) list \<Rightarrow> go_error option"

record ('l, 'f, 'o) api_server =
  srv_ipAddrAllocByFamily :: "IPFamily \<rightharpoonup> ia_allocator"
  srv_ipAllocByFamily :: "IPFamily \<rightharpoonup> ip_allocator"
  srv_networkIDAllocator :: nid_allocator
  srv_v1alpha1storage :: "(string \<times> ('l, 'f, 'o) rest_storage) list"

definition allocators_by_family ::
  "(prefix \<Rightarrow> addr) \<Rightarrow> prefix list \<Rightarrow> (IPFamily \<rightharpoonup> ia_allocator) \<times> (IPFamily \<rightharpoonup> ip_allocator)" where
  "allocators_by_family PrefixLastIP prefixes =
     foldl (\<lambda>(addrs, ips) publicPrefix.
         let ipAddrAlloc = ia_New PrefixLastIP publicPrefix; ipAlloc = ipa_New publicPrefix in
         (addrs(ia_family ipAddrAlloc \<mapsto> ipAddrAlloc), ips(ipa_family ipAlloc \<mapsto> ipAlloc)))
       (Map.empty, Map.empty) prefixes"

definition result_bind :: "'a result \<Rightarrow> ('a \<Rightarrow> 'b result) \<Rightarrow> 'b result" where
  "result_bind r f = (case r of Inl err \<Rightarrow> Inl err | Inr x \<Rightarrow> f x)"

text \<open>The entries of one storage; a kind without a status store has one entry only.\<close>

definition storage_entries :: "string \<Rightarrow> ('l, 'f, 'o) storage \<Rightarrow> (string \<times> ('l, 'f, 'o) rest_storage) list" where
  "storage_entries name s =
     (name, REST (stg_Main s)) # (case stg_Status s of None \<Rightarrow> [] | Some st \<Rightarrow> [(name @ ''/status'', StatusREST st)])"

definition completedConfig_New ::
  "('q, 'p, 'r, 'l, 'f, 'o) server_env \<Rightarrow> server_config \<Rightarrow> ('l, 'f, 'o) api_server result" where
  "completedConfig_New E C =
     (case se_GenericNew E of Some err \<Rightarrow> Inl err | None \<Rightarrow>
      case se_NewForConfig E of Some err \<Rightarrow> Inl err | None \<Rightarrow>
      let (ipAddrAllocByFamily, ipAllocByFamily) = allocators_by_family (se_PrefixLastIP E) (PublicPrefix C); R = se_registry E in
      result_bind (NewNetworkIDAllocator (MinVNI C) (MaxVNI C)) (\<lambda>networkIDAllocator.
      result_bind (daemonSet_NewStorage R) (\<lambda>daemonSetStorage.
      result_bind (instance_NewStorage R) (\<lambda>instanceStorage.
      result_bind (ip_NewStorage R) (\<lambda>ipStorage.
      result_bind (ipAddress_NewStorage R) (\<lambda>ipAddressStorage.
      result_bind (loadBalancer_NewStorage R) (\<lambda>loadBalancerStorage.
      result_bind (loadBalancerRouting_NewStorage R) (\<lambda>loadBalancerRoutingStorage.
      result_bind (natGateway_NewStorage R) (\<lambda>natGatewayStorage.
      result_bind (natGatewayAutoscaler_NewStorage R) (\<lambda>natGatewayAutoscalerStorage.
      result_bind (natTable_NewStorage R) (\<lambda>natTableStorage.
      result_bind (network_NewStorage R) (\<lambda>networkStorage.
      result_bind (networkID_NewStorage R) (\<lambda>networkIDStorage.
      result_bind (networkInterface_NewStorage R) (\<lambda>networkInterfaceStorage.
      result_bind (node_NewStorage R) (\<lambda>nodeStorage.
      let v1alpha1storage =
        storage_entries ''daemonsets'' daemonSetStorage @
        storage_entries ''instances'' instanceStorage @
        storage_entries ''ips'' ipStorage @
        storage_entries ''ipaddresses'' ipAddressStorage @
        storage_entries ''loadbalancers'' loadBalancerStorage @
        storage_entries ''loadbalancerroutings'' loadBalancerRoutingStorage @
        storage_entries ''natgateways'' natGatewayStorage @
        storage_entries ''natgatewayautoscalers'' natGatewayAutoscalerStorage @
        storage_entries ''nattables'' natTableStorage @
        storage_entries ''networks'' networkStorage @
        storage_entries ''networkids'' networkIDStorage @
        storage_entries ''networkinterfaces'' networkInterfaceStorage @
        storage_entries ''nodes'' nodeStorage in
      case se_InstallAPIGroups E v1alpha1storage of
        Some err \<Rightarrow> Inl err
      | None \<Rightarrow> Inr \<lparr>srv_ipAddrAllocByFamily = ipAddrAllocByFamily, srv_ipAllocByFamily = ipAllocByFamily,
          srv_networkIDAllocator = networkIDAllocator, srv_v1alpha1storage = v1alpha1storage\<rparr>)))))))))))))))"

text \<open>Completing a store leaves what the program has put into it.\<close>

locale store_completion =
  fixes R :: "('q, 'p, 'r, 'l, 'f, 'o) registry_env"
  assumes completed: "CompleteWithOptions R st opts = Inr st' \<Longrightarrow> st' = st"

text \<open>What holds for the stores of a storage: the objects they create, and the strategies and tables they use.\<close>

definition storage_sound :: "string \<Rightarrow> string \<Rightarrow> strategy \<Rightarrow> strategy option \<Rightarrow> hook option \<Rightarrow> 'o convertor \<Rightarrow> ('l, 'f, 'o) storage \<Rightarrow> bool" where
  "storage_sound resource kind S S' h conv s \<longleftrightarrow>
     (let st = stg_Main s in
      kind_of (NewFunc st) = kind \<and> DefaultQualifiedResource st = resource \<and> CreateStrategy st = S \<and> UpdateStrategy st = S \<and>
      BeginUpdate st = h \<and> TableConvertor st = conv \<and>
      stg_Status s = map_option (\<lambda>S'. status_store st S' [(''apinet.api.onmetal.de/v1alpha1'', [[''spec'']])]) S')"

context store_completion
begin

lemma NewStorage_sound:
  "daemonSet_NewStorage R = Inr s0 \<Longrightarrow> storage_sound ''daemonsets'' ''DaemonSet'' (daemonSetStrategy (re_validators R)) (Some (daemonSetStatusStrategy (re_validators R))) (None) daemonSet_ConvertToTable s0"
  "instance_NewStorage R = Inr s1 \<Longrightarrow> storage_sound ''instances'' ''Instance'' (instanceStrategy (re_validators R)) (Some (instanceStatusStrategy (re_validators R))) (None) instance_ConvertToTable s1"
  "ip_NewStorage R = Inr s2 \<Longrightarrow> storage_sound ''ips'' ''IP'' (ipStrategy (re_validators R)) (None) (None) ip_ConvertToTable s2"
  "ipAddress_NewStorage R = Inr s3 \<Longrightarrow> storage_sound ''ipaddresses'' ''IPAddress'' (ipAddressStrategy (re_validators R)) (None) (None) ipAddress_ConvertToTable s3"
  "loadBalancer_NewStorage R = Inr s4 \<Longrightarrow> storage_sound ''loadbalancers'' ''LoadBalancer'' (loadBalancerStrategy (re_validators R)) (Some (loadBalancerStatusStrategy (re_validators R))) (Some LoadBalancer_hook) loadBalancer_ConvertToTable s4"
  "loadBalancerRouting_NewStorage R = Inr s5 \<Longrightarrow> storage_sound ''loadbalancerroutings'' ''LoadBalancerRouting'' (loadBalancerRoutingStrategy (re_validators R)) (None) (None) loadBalancerRouting_ConvertToTable s5"
  "natGateway_NewStorage R = Inr s6 \<Longrightarrow> storage_sound ''natgateways'' ''NATGateway'' (natGatewayStrategy (re_validators R)) (Some (natGatewayStatusStrategy (re_validators R))) (Some NATGateway_hook) natGateway_ConvertToTable s6"
  "natGatewayAutoscaler_NewStorage R = Inr s7 \<Longrightarrow> storage_sound ''natgatewayautoscalers'' ''NATGatewayAutoscaler'' (natGatewayAutoscalerStrategy (re_validators R)) (Some (natGatewayAutoscalerStatusStrategy (re_validators R))) (None) natGatewayAutoscaler_ConvertToTable s7"
  "natTable_NewStorage R = Inr s8 \<Longrightarrow> storage_sound ''nattables'' ''NATTable'' (natTableStrategy (re_validators R)) (None) (None) natTable_ConvertToTable s8"
  "network_NewStorage R = Inr s9 \<Longrightarrow> storage_sound ''networks'' ''Network'' (networkStrategy (re_validators R)) (Some (networkStatusStrategy (re_validators R))) (None) network_ConvertToTable s9"
  "networkID_NewStorage R = Inr s10 \<Longrightarrow> storage_sound ''networkids'' ''NetworkID'' (networkIDStrategy (re_validators R)) (None) (None) networkID_ConvertToTable s10"
  "networkInterface_NewStorage R = Inr s11 \<Longrightarrow> storage_sound ''networkinterfaces'' ''NetworkInterface'' (networkInterfaceStrategy (re_validators R)) (Some (networkInterfaceStatusStrategy (re_validators R))) (Some NetworkInterface_hook) networkInterface_ConvertToTable s11"
  "node_NewStorage R = Inr s12 \<Longrightarrow> storage_sound ''nodes'' ''Node'' (nodeStrategy (re_validators R)) (Some (nodeStatusStrategy (re_validators R))) (None) node_ConvertToTable s12"
  by (auto simp: NewStorage_defs storage_sound_def Let_def GetResetFields_defs dest: completed split: sum.splits)

end

lemma result_bind_Inr: "result_bind r f = Inr y \<longleftrightarrow> (\<exists>x. r = Inr x \<and> f x = Inr y)"
  by (cases r) (simp_all add: result_bind_def)

text \<open>A store of a server works on one kind: its strategies, its table and the name it is served under fit.\<close>

definition rest_fits :: "'o table_api \<Rightarrow> ('o \<Rightarrow> core_object list) \<Rightarrow> string \<Rightarrow> ('l, 'f, 'o) rest_storage \<Rightarrow> bool" where
  "rest_fits T items name r \<longleftrightarrow>
     (let st = rest_store r; kind = kind_of (NewFunc st) in
      name = DefaultQualifiedResource st @ (case r of REST _ \<Rightarrow> [] | StatusREST _ \<Rightarrow> ''/status'') \<and>
      typed_strategy (CreateStrategy st) kind \<and> typed_strategy (UpdateStrategy st) kind \<and>
      table_fits T items (TableConvertor st) kind)"

lemma entries_fit:
  assumes "(n, r) \<in> set (storage_entries name s)" "storage_sound name kind S S' h conv s"
    and "typed_strategy S kind" "\<And>S''. S' = Some S'' \<Longrightarrow> typed_strategy S'' kind" "table_fits T items conv kind"
  shows "rest_fits T items n r"
proof -
  note sound = assms(2) [unfolded storage_sound_def Let_def]
  consider "n = name" "r = REST (stg_Main s)"
    | S'' where "S' = Some S''" "n = name @ ''/status''"
      "r = StatusREST (status_store (stg_Main s) S'' [(''apinet.api.onmetal.de/v1alpha1'', [[''spec'']])])"
    using assms(1) sound by (auto simp: storage_entries_def split: option.splits)
  then show ?thesis
  proof cases
    case 1
    then show ?thesis using sound assms(3,5) by (simp add: rest_fits_def Let_def)
  next
    case 2
    then show ?thesis using sound assms(3,5) assms(4) [OF 2(1)] by (simp add: rest_fits_def Let_def status_store_def)
  qed
qed

lemma entries_names:
  "storage_sound name kind S S' h conv s \<Longrightarrow>
     map fst (storage_entries name s) = name # (if S' = None then [] else [name @ ''/status''])"
  by (auto simp: storage_sound_def storage_entries_def Let_def split: option.splits)

text \<open>The storages of a server, with the kinds, the strategies and the tables that they were made of.\<close>

context store_completion
begin

lemma New_storages:
  assumes "completedConfig_New E C = Inr srv" "se_registry E = R"
  obtains s0 s1 s2 s3 s4 s5 s6 s7 s8 s9 s10 s11 s12 where
  "srv_v1alpha1storage srv = storage_entries ''daemonsets'' s0 @
      storage_entries ''instances'' s1 @
      storage_entries ''ips'' s2 @
      storage_entries ''ipaddresses'' s3 @
      storage_entries ''loadbalancers'' s4 @
      storage_entries ''loadbalancerroutings'' s5 @
      storage_entries ''natgateways'' s6 @
      storage_entries ''natgatewayautoscalers'' s7 @
      storage_entries ''nattables'' s8 @
      storage_entries ''networks'' s9 @
      storage_entries ''networkids'' s10 @
      storage_entries ''networkinterfaces'' s11 @
      storage_entries ''nodes'' s12"
  "storage_sound ''daemonsets'' ''DaemonSet'' (daemonSetStrategy (re_validators R)) (Some (daemonSetStatusStrategy (re_validators R))) (None) daemonSet_ConvertToTable s0"
  "storage_sound ''instances'' ''Instance'' (instanceStrategy (re_validators R)) (Some (instanceStatusStrategy (re_validators R))) (None) instance_ConvertToTable s1"
  "storage_sound ''ips'' ''IP'' (ipStrategy (re_validators R)) (None) (None) ip_ConvertToTable s2"
  "storage_sound ''ipaddresses'' ''IPAddress'' (ipAddressStrategy (re_validators R)) (None) (None) ipAddress_ConvertToTable s3"
  "storage_sound ''loadbalancers'' ''LoadBalancer'' (loadBalancerStrategy (re_validators R)) (Some (loadBalancerStatusStrategy (re_validators R))) (Some LoadBalancer_hook) loadBalancer_ConvertToTable s4"
  "storage_sound ''loadbalancerroutings'' ''LoadBalancerRouting'' (loadBalancerRoutingStrategy (re_validators R)) (None) (None) loadBalancerRouting_ConvertToTable s5"
  "storage_sound ''natgateways'' ''NATGateway'' (natGatewayStrategy (re_validators R)) (Some (natGatewayStatusStrategy (re_validators R))) (Some NATGateway_hook) natGateway_ConvertToTable s6"
  "storage_sound ''natgatewayautoscalers'' ''NATGatewayAutoscaler'' (natGatewayAutoscalerStrategy (re_validators R)) (Some (natGatewayAutoscalerStatusStrategy (re_validators R))) (None) natGatewayAutoscaler_ConvertToTable s7"
  "storage_sound ''nattables'' ''NATTable'' (natTableStrategy (re_validators R)) (None) (None) natTable_ConvertToTable s8"
  "storage_sound ''networks'' ''Network'' (networkStrategy (re_validators R)) (Some (networkStatusStrategy (re_validators R))) (None) network_ConvertToTable s9"
  "storage_sound ''networkids'' ''NetworkID'' (networkIDStrategy (re_validators R)) (None) (None) networkID_ConvertToTable s10"
  "storage_sound ''networkinterfaces'' ''NetworkInterface'' (networkInterfaceStrategy (re_validators R)) (Some (networkInterfaceStatusStrategy (re_validators R))) (Some NetworkInterface_hook) networkInterface_ConvertToTable s11"
  "storage_sound ''nodes'' ''Node'' (nodeStrategy (re_validators R)) (Some (nodeStatusStrategy (re_validators R))) (None) node_ConvertToTable s12"
proof -
  obtain s0 s1 s2 s3 s4 s5 s6 s7 s8 s9 s10 s11 s12 where
    "srv_v1alpha1storage srv = storage_entries ''daemonsets'' s0 @
      storage_entries ''instances'' s1 @
      storage_entries ''ips'' s2 @
      storage_entries ''ipaddresses'' s3 @
      storage_entries ''loadbalancers'' s4 @
      storage_entries ''loadbalancerroutings'' s5 @
      storage_entries ''natgateways'' s6 @
      storage_entries ''natgatewayautoscalers'' s7 @
      storage_entries ''nattables'' s8 @
      storage_entries ''networks'' s9 @
      storage_entries ''networkids'' s10 @
      storage_entries ''networkinterfaces'' s11 @
      storage_entries ''nodes'' s12"
    "daemonSet_NewStorage R = Inr s0"
    "instance_NewStorage R = Inr s1"
    "ip_NewStorage R = Inr s2"
    "ipAddress_NewStorage R = Inr s3"
    "loadBalancer_NewStorage R = Inr s4"
    "loadBalancerRouting_NewStorage R = Inr s5"
    "natGateway_NewStorage R = Inr s6"
    "natGatewayAutoscaler_NewStorage R = Inr s7"
    "natTable_NewStorage R = Inr s8"
    "network_NewStorage R = Inr s9"
    "networkID_NewStorage R = Inr s10"
    "networkInterface_NewStorage R = Inr s11"
    "node_NewStorage R = Inr s12"
    using assms by (auto simp: completedConfig_New_def result_bind_Inr Let_def split: option.splits prod.splits)
  then show thesis by (intro that NewStorage_sound)
qed

lemma New_fits:
  assumes "completedConfig_New E C = Inr srv" "se_registry E = R" "table_rows T items" "(n, r) \<in> set (srv_v1alpha1storage srv)"
  shows "rest_fits T items n r"
proof -
  note fits = table_rows.convertors_fit [OF assms(3)]
  note typed =
    daemonSet_typed.typed_strategy_axioms daemonSet_status_typed.typed_strategy_axioms
    instance_typed.typed_strategy_axioms instance_status_typed.typed_strategy_axioms
    ip_typed.typed_strategy_axioms
    ipAddress_typed.typed_strategy_axioms
    loadBalancer_typed.typed_strategy_axioms loadBalancer_status_typed.typed_strategy_axioms
    loadBalancerRouting_typed.typed_strategy_axioms
    natGateway_typed.typed_strategy_axioms natGateway_status_typed.typed_strategy_axioms
    natGatewayAutoscaler_typed.typed_strategy_axioms natGatewayAutoscaler_status_typed.typed_strategy_axioms
    natTable_typed.typed_strategy_axioms
    network_typed.typed_strategy_axioms network_status_typed.typed_strategy_axioms
    networkID_typed.typed_strategy_axioms
    networkInterface_typed.typed_strategy_axioms networkInterface_status_typed.typed_strategy_axioms
    node_typed.typed_strategy_axioms node_status_typed.typed_strategy_axioms
  show ?thesis using assms(4)
    by - (rule New_storages [OF assms(1,2)], simp only: set_append Un_iff, elim disjE;
        rule entries_fit, assumption, assumption, auto simp: fits intro: typed)
qed

lemma New_names:
  assumes "completedConfig_New E C = Inr srv" "se_registry E = R"
  shows "distinct (map fst (srv_v1alpha1storage srv))"
  by (rule New_storages [OF assms]) (simp add: entries_names)

end

section \<open>Updates\<close>

text \<open>
  An update through the API names a storage, a key and how the new object is made of the stored
  one. The status storages never create an object.
\<close>

record ('l, 'f, 'o, 's) store_api =
  store_Get :: "('l, 'f, 'o) registry_store \<Rightarrow> 's \<Rightarrow> ObjectKey \<Rightarrow> core_object result"
  store_Update :: "('l, 'f, 'o) registry_store \<Rightarrow> 's \<Rightarrow> ObjectKey \<Rightarrow> (core_object \<Rightarrow> core_object result) \<Rightarrow> bool \<Rightarrow> 's \<times> core_object result"

definition StatusREST_New :: "('l, 'f, 'o) registry_store \<Rightarrow> core_object" where
  "StatusREST_New store = NewFunc store"

definition StatusREST_Get :: "('l, 'f, 'o, 's) store_api \<Rightarrow> ('l, 'f, 'o) registry_store \<Rightarrow> 's \<Rightarrow> ObjectKey \<Rightarrow> core_object result" where
  "StatusREST_Get G store s key = store_Get G store s key"

definition StatusREST_Update ::
  "('l, 'f, 'o, 's) store_api \<Rightarrow> ('l, 'f, 'o) registry_store \<Rightarrow> 's \<Rightarrow> ObjectKey \<Rightarrow> (core_object \<Rightarrow> core_object result) \<Rightarrow> bool \<Rightarrow> 's \<times> core_object result" where
  "StatusREST_Update G store s key objInfo forceAllowCreate = store_Update G store s key objInfo False"

definition StatusREST_GetResetFields :: "('l, 'f, 'o) registry_store \<Rightarrow> reset_fields" where
  "StatusREST_GetResetFields store = (case ResetFieldsStrategy store of None \<Rightarrow> [] | Some fs \<Rightarrow> fs)"

primrec rest_update ::
  "('l, 'f, 'o, 's) store_api \<Rightarrow> ('l, 'f, 'o) rest_storage \<Rightarrow> 's \<Rightarrow> ObjectKey \<Rightarrow> (core_object \<Rightarrow> core_object result) \<Rightarrow> bool \<Rightarrow> 's \<times> core_object result" where
  "rest_update G (REST st) s key objInfo force = store_Update G st s key objInfo force"
| "rest_update G (StatusREST st) s key objInfo force = StatusREST_Update G st s key objInfo force"

text \<open>What the hooks that run after the checks may still change: IPs that are set by the allocators.\<close>

definition after_hook :: "hook option \<Rightarrow> core_object \<Rightarrow> core_object \<Rightarrow> bool" where
  "after_hook h x y \<longleftrightarrow>
     (case h of
        Some NetworkInterface_hook \<Rightarrow> \<exists>n us. x = NetworkInterface_obj n \<and> y = NetworkInterface_obj (set_ips networkInterfaceIPAllocatorAccessor n us)
      | Some NATGateway_hook \<Rightarrow> \<exists>g us. x = NATGateway_obj g \<and> y = NATGateway_obj (set_ips natGatewayIPAllocatorAccessor g us)
      | Some LoadBalancer_hook \<Rightarrow> \<exists>l us. x = LoadBalancer_obj l \<and> y = LoadBalancer_obj (set_ips loadBalancerIPAllocatorAccessor l us)
      | _ \<Rightarrow> y = x)"

lemma AllocateUpdate_sets_ips:
  "AllocateUpdate ord A s obj old dryRun = Returns (s', Inr (obj', txn)) \<Longrightarrow> \<exists>us. obj' = set_ips (al_acc A) obj us"
  by (auto simp: AllocateUpdate_def Let_def split: prod.splits option.splits outcome.splits)

lemma beginUpdate_hook:
  "al_acc A = networkInterfaceIPAllocatorAccessor \<Longrightarrow> networkinterface_beginUpdate ord A s n n0 dry = Returns (s', Inr (n', txn)) \<Longrightarrow>
     after_hook (Some NetworkInterface_hook) (NetworkInterface_obj n) (NetworkInterface_obj n')"
  "al_acc B = natGatewayIPAllocatorAccessor \<Longrightarrow> natgateway_beginUpdate ord B s g g0 dry = Returns (s', Inr (g', txn')) \<Longrightarrow>
     after_hook (Some NATGateway_hook) (NATGateway_obj g) (NATGateway_obj g')"
proof -
  show "al_acc A = networkInterfaceIPAllocatorAccessor \<Longrightarrow> networkinterface_beginUpdate ord A s n n0 dry = Returns (s', Inr (n', txn)) \<Longrightarrow>
     after_hook (Some NetworkInterface_hook) (NetworkInterface_obj n) (NetworkInterface_obj n')"
    using AllocateUpdate_sets_ips [of ord A s n n0 dry s' n' txn] by (simp add: after_hook_def networkinterface_beginUpdate_def)
  show "al_acc B = natGatewayIPAllocatorAccessor \<Longrightarrow> natgateway_beginUpdate ord B s g g0 dry = Returns (s', Inr (g', txn')) \<Longrightarrow>
     after_hook (Some NATGateway_hook) (NATGateway_obj g) (NATGateway_obj g')"
    using AllocateUpdate_sets_ips [of ord B s g g0 dry s' g' txn'] by (simp add: after_hook_def natgateway_beginUpdate_def)
qed

lemma set_ips_snoc: "set_ips acc x (us @ [(i, a)]) = SetIP acc (set_ips acc x us) i a"
  by (simp add: set_ips_def)

lemma SetIP_keeps:
  "identity_kept (NetworkInterface_obj n) (NetworkInterface_obj (SetIP networkInterfaceIPAllocatorAccessor n i a))"
  "identity_kept (NATGateway_obj g) (NATGateway_obj (SetIP natGatewayIPAllocatorAccessor g i a))"
  "identity_kept (LoadBalancer_obj l) (LoadBalancer_obj (SetIP loadBalancerIPAllocatorAccessor l i a))"
  by (simp_all add: networkInterfaceIPAllocatorAccessor_def natGatewayIPAllocatorAccessor_def loadBalancerIPAllocatorAccessor_def)

lemma set_ips_Nil [simp]: "set_ips acc x [] = x"
  by (simp add: set_ips_def)

lemma set_ips_keeps:
  "identity_kept (NetworkInterface_obj n) (NetworkInterface_obj (set_ips networkInterfaceIPAllocatorAccessor n us))"
  "identity_kept (NATGateway_obj g) (NATGateway_obj (set_ips natGatewayIPAllocatorAccessor g us))"
  "identity_kept (LoadBalancer_obj l) (LoadBalancer_obj (set_ips loadBalancerIPAllocatorAccessor l us))"
proof (induction us rule: rev_induct)
  case (snoc u us)
  obtain i a where u: "u = (i, a)" by (cases u)
  show "identity_kept (NetworkInterface_obj n) (NetworkInterface_obj (set_ips networkInterfaceIPAllocatorAccessor n (us @ [u])))"
    "identity_kept (NATGateway_obj g) (NATGateway_obj (set_ips natGatewayIPAllocatorAccessor g (us @ [u])))"
    "identity_kept (LoadBalancer_obj l) (LoadBalancer_obj (set_ips loadBalancerIPAllocatorAccessor l (us @ [u])))"
    unfolding u set_ips_snoc by (rule identity_kept_trans, rule snoc, rule SetIP_keeps)+
qed simp_all

lemma after_hook_keeps: "after_hook h x y \<Longrightarrow> identity_kept x y"
  by (auto simp: after_hook_def set_ips_keeps simp del: identity_kept.simps split: option.splits hook.splits)

lemma SetIP_families:
  "map npub_IPFamily (nics_PublicIPs (nic_Spec (SetIP networkInterfaceIPAllocatorAccessor n i a))) = map npub_IPFamily (nics_PublicIPs (nic_Spec n))"
  by (cases "i < length (nics_PublicIPs (nic_Spec n))")
    (simp_all add: networkInterfaceIPAllocatorAccessor_def map_update list_update_beyond list_update_same_conv)

lemma SetIP_valid:
  "ValidateNetworkInterfaceSpec (nic_Spec (SetIP networkInterfaceIPAllocatorAccessor n i a)) p = [] \<longleftrightarrow>
     ValidateNetworkInterfaceSpec (nic_Spec n) p = []"
  unfolding network_interface_valid_iff SetIP_families by (simp add: networkInterfaceIPAllocatorAccessor_def)

lemma set_ips_valid:
  "ValidateNetworkInterfaceSpec (nic_Spec (set_ips networkInterfaceIPAllocatorAccessor n us)) p = [] \<longleftrightarrow>
     ValidateNetworkInterfaceSpec (nic_Spec n) p = []"
proof (induction us rule: rev_induct)
  case (snoc u us)
  then show ?case by (cases u) (simp add: set_ips_snoc SetIP_valid)
qed simp

lemma after_hook_valid: "after_hook h x y \<Longrightarrow> nic_valid x \<Longrightarrow> nic_valid y"
  by (auto simp: after_hook_def set_ips_valid split: option.splits hook.splits)

text \<open>
  The contract of \<open>Store.Update\<close>, for the objects \<open>objs s (resource, key)\<close> that are stored: it leaves
  an object as it was or replaces the object it was called for by what the update strategy of the
  store prepared and accepted and the hook completed. The metadata are the library's.
\<close>

locale generic_registry =
  fixes G :: "('l, 'f, 'o, 's) store_api" and objs :: "'s \<Rightarrow> string \<times> ObjectKey \<rightharpoonup> core_object"
  assumes update: "store_Update G st s key objInfo force = (s', res) \<Longrightarrow> objs s k = Some old \<Longrightarrow> objs s' k = Some new \<Longrightarrow>
    new = old \<or> k = (DefaultQualifiedResource st, key) \<and>
      (\<exists>obj x y z m. PrepareForUpdate (UpdateStrategy st) obj old = Returns x \<and> st_ValidateUpdate (UpdateStrategy st) x old = Returns [] \<and>
        Canonicalize (UpdateStrategy st) x = Returns y \<and> after_hook (BeginUpdate st) y z \<and> new = set_meta m z)"
begin

lemma update_keeps:
  assumes "keeping_strategy (UpdateStrategy (rest_store r))" "rest_update G r s key objInfo force = (s', res)"
    and "objs s k = Some old" "objs s' k = Some new"
  shows "identity_kept old new \<and> (nic_valid old \<longrightarrow> nic_valid new)"
proof -
  obtain force' where "store_Update G (rest_store r) s key objInfo force' = (s', res)"
    using assms(2) by (cases r) (auto simp: StatusREST_Update_def)
  from update [OF this assms(3,4)] show ?thesis
  proof (elim disjE conjE exE)
    fix obj x y z m
    assume "PrepareForUpdate (UpdateStrategy (rest_store r)) obj old = Returns x" "st_ValidateUpdate (UpdateStrategy (rest_store r)) x old = Returns []"
      "Canonicalize (UpdateStrategy (rest_store r)) x = Returns y" "after_hook (BeginUpdate (rest_store r)) y z" "new = set_meta m z"
    then show ?thesis
      using keeping_strategy.update_keeps [OF assms(1)] keeping_strategy.update_valid [OF assms(1)]
        after_hook_keeps after_hook_valid identity_kept_trans by fastforce
  qed simp
qed

end

text \<open>The life of one stored object: a sequence of updates, of this and of other objects, in which it stays stored.\<close>

inductive lives ::
  "('l, 'f, 'o, 's) store_api \<Rightarrow> ('s \<Rightarrow> string \<times> ObjectKey \<rightharpoonup> core_object) \<Rightarrow> ('l, 'f, 'o) rest_storage set \<Rightarrow>
   string \<times> ObjectKey \<Rightarrow> 's \<Rightarrow> core_object \<Rightarrow> 's \<Rightarrow> core_object \<Rightarrow> bool"
  for G objs R k s x where
  lives_start: "objs s k = Some x \<Longrightarrow> lives G objs R k s x s x"
| lives_update: "lives G objs R k s x s' x' \<Longrightarrow> r \<in> R \<Longrightarrow> rest_update G r s' key objInfo force = (s'', res) \<Longrightarrow>
    objs s'' k = Some x'' \<Longrightarrow> lives G objs R k s x s'' x''"

lemma lives_stored: "lives G objs R k s x s' x' \<Longrightarrow> objs s' k = Some x'"
  by (induction rule: lives.induct) auto

context generic_registry
begin

lemma lives_keeps:
  assumes "lives G objs R k s x s' x'" "\<And>r. r \<in> R \<Longrightarrow> keeping_strategy (UpdateStrategy (rest_store r))"
  shows "identity_kept x x' \<and> (nic_valid x \<longrightarrow> nic_valid x')"
  using assms(1)
proof induction
  case (lives_update s' x' r key objInfo force s'' res x'')
  have "identity_kept x' x'' \<and> (nic_valid x' \<longrightarrow> nic_valid x'')"
    using update_keeps [OF assms(2) [OF lives_update.hyps(2)] lives_update.hyps(3) lives_stored [OF lives_update.hyps(1)] lives_update.hyps(4)] .
  then show ?case using lives_update.IH identity_kept_trans by blast
qed simp

end

lemma entries_keep:
  assumes "(n, r) \<in> set (storage_entries name s)" "storage_sound name kind S S' h conv s" "keeping_strategy S"
    and "\<And>S''. S' = Some S'' \<Longrightarrow> keeping_strategy S''"
  shows "keeping_strategy (UpdateStrategy (rest_store r))"
proof -
  consider "r = REST (stg_Main s)"
    | S'' where "S' = Some S''"
      "r = StatusREST (status_store (stg_Main s) S'' [(''apinet.api.onmetal.de/v1alpha1'', [[''spec'']])])"
    using assms(1) assms(2) [unfolded storage_sound_def Let_def] by (auto simp: storage_entries_def split: option.splits)
  then show ?thesis
    using assms(2-4) by cases (simp_all add: storage_sound_def status_store_def Let_def)
qed

text \<open>The strategies of a server keep the identity of the objects, if the generic checks do what they promise.\<close>

lemma New_keeps:
  assumes "store_completion R" "field_validators (re_validators R) holds"
    and "completedConfig_New E C = Inr srv" "se_registry E = R" "(n, r) \<in> set (srv_v1alpha1storage srv)"
  shows "keeping_strategy (UpdateStrategy (rest_store r))"
proof -
  note keep = field_validators.keeping [OF assms(2)]
  show ?thesis using assms(5)
    by - (rule store_completion.New_storages [OF assms(1,3,4)], simp only: set_append Un_iff, elim disjE;
        rule entries_keep, assumption, assumption, auto intro: keep)
qed

section \<open>Properties\<close>

text \<open>
  C36. A server that starts serves one store under each name, and every store works on the kind of
  object it creates: it is served under the name of its resource, with the suffix of the
  status for a status store; none of its strategies can fail an assertion on objects of the kind;
  and its table has, for each object that is printed, a row with a cell for each column that
  starts with the name of the object.
\<close>

theorem server_stores_typed:
  assumes "store_completion (se_registry E)" "table_rows T items" "completedConfig_New E C = Inr srv"
  shows "distinct (map fst (srv_v1alpha1storage srv)) \<and>
    (\<forall>(name, r)\<in>set (srv_v1alpha1storage srv). rest_fits T items name r)"
  using store_completion.New_names [OF assms(1,3) refl] store_completion.New_fits [OF assms(1,3) refl assms(2)] by auto

text \<open>
  C23. Whatever updates arrive at a server, of an object or its status, through any of its storages
  and between those of other objects, an object keeps what identifies it for as long as it is
  stored: networks their ID, IPs their type, family and address, allocated addresses and IDs
  their claim, interfaces their network, node and IPs, gateways their network and family, load balancers
  their type, network and selector, instances their type, their network, and their node
  once they have one. Deleting a network or an IP therefore releases what it held before the updates.
  A network interface whose spec is valid stays valid, which the controllers rely on.
\<close>

theorem updates_keep_identity:
  assumes "store_completion (se_registry E)" "field_validators (re_validators (se_registry E)) holds" "generic_registry G objs"
    and "completedConfig_New E C = Inr srv" "lives G objs (snd ` set (srv_v1alpha1storage srv)) k s x s' x'"
  shows "identity_kept x x' \<and>
    (\<forall>nic. x = NetworkInterface_obj nic \<and> ValidateNetworkInterfaceSpec (nic_Spec nic) [''spec''] = [] \<longrightarrow>
      (\<exists>nic'. x' = NetworkInterface_obj nic' \<and> ValidateNetworkInterfaceSpec (nic_Spec nic') [''spec''] = [])) \<and>
    (\<forall>n n'. x = Network_obj n \<and> x' = Network_obj n' \<longrightarrow> network_afterDelete ifc t n' dryRun = network_afterDelete ifc t n dryRun) \<and>
    (\<forall>i i'. x = IP_obj i \<and> x' = IP_obj i' \<longrightarrow> ip_afterDelete abf u i' dryRun = ip_afterDelete abf u i dryRun)"
proof -
  have "keeping_strategy (UpdateStrategy (rest_store r))" if "r \<in> snd ` set (srv_v1alpha1storage srv)" for r
    using New_keeps [OF assms(1,2,4) refl] that by auto
  with generic_registry.lives_keeps [OF assms(3,5)] have kept: "identity_kept x x'" "nic_valid x \<longrightarrow> nic_valid x'" by blast+
  have "\<exists>nic'. x' = NetworkInterface_obj nic' \<and> ValidateNetworkInterfaceSpec (nic_Spec nic') [''spec''] = []"
    if "x = NetworkInterface_obj nic" "ValidateNetworkInterfaceSpec (nic_Spec nic) [''spec''] = []" for nic
    using kept that by (auto simp: to_Some split: option.splits)
  then show ?thesis using kept(1) by (auto simp: network_afterDelete_def ip_afterDelete_def cong: option.case_cong)
qed

text \<open>When two public prefixes have the same family, the server allocates from the later one only.\<close>

theorem later_prefix_replaces:
  assumes "Is6 (p_Addr q) = Is6 (p_Addr p)"
  shows "allocators_by_family lastIP [p, q] = allocators_by_family lastIP [q]"
  using assms by (auto simp: allocators_by_family_def ia_New_def ipa_New_def)

section \<open>A server in memory\<close>

definition plain_meta_fields :: meta_fields where
  "plain_meta_fields =
     \<lparr>ObjectMetaFieldsSet = (\<lambda>m ns. (''metadata.name'', om_Name m) # (if ns then [(''metadata.namespace'', om_Namespace m)] else [])),
      AddObjectMetaFieldsSet = (\<lambda>fs m ns. (''metadata.name'', om_Name m) # (if ns then [(''metadata.namespace'', om_Namespace m)] else []) @ fs)\<rparr>"

definition example_registry where
  "example_registry =
     \<lparr>re_validators = plain_validators, re_fields = plain_meta_fields, re_FieldIndex = (\<lambda>f. ''f:'' @ f), CompleteWithOptions = (\<lambda>st opts. Inr st)\<rparr>"

definition example_server_env where
  "example_server_env =
     \<lparr>se_registry = example_registry, se_GenericNew = None, se_NewForConfig = None, se_PrefixLastIP = last_ip4, se_InstallAPIGroups = (\<lambda>_. None)\<rparr>"

lemma example_completion: "store_completion example_registry"
  by unfold_locales (simp add: example_registry_def)

interpretation example_stores: store_completion example_registry
  by (rule example_completion)

lemma example_server_starts: "\<exists>srv. completedConfig_New example_server_env \<lparr>MinVNI = 1, MaxVNI = 10, PublicPrefix = []\<rparr> = Inr srv"
  by (simp add: completedConfig_New_def example_server_env_def example_registry_def result_bind_def NewStorage_defs Let_def
      NewNetworkIDAllocator_def allocators_by_family_def)

text \<open>
  A store in memory: an update reads the object, makes the new one and stores it if it is accepted.
  It refuses an object that the hook of the store is not made for, and lets the hook change nothing.
\<close>

definition hook_accepts :: "hook option \<Rightarrow> core_object \<Rightarrow> bool" where
  "hook_accepts h x =
     (case h of
        Some NetworkInterface_hook \<Rightarrow> kind_of x = ''NetworkInterface''
      | Some NATGateway_hook \<Rightarrow> kind_of x = ''NATGateway''
      | Some LoadBalancer_hook \<Rightarrow> kind_of x = ''LoadBalancer''
      | _ \<Rightarrow> True)"

type_synonym mem_objects = "string \<times> ObjectKey \<Rightarrow> core_object option"

definition mem_update ::
  "('l, 'f, 'o) registry_store \<Rightarrow> mem_objects \<Rightarrow> ObjectKey \<Rightarrow> (core_object \<Rightarrow> core_object result) \<Rightarrow> bool \<Rightarrow> mem_objects \<times> core_object result" where
  "mem_update st s key objInfo force =
     (case s (DefaultQualifiedResource st, key) of
        None \<Rightarrow> (s, Inl (ErrMsg ''not found''))
      | Some old \<Rightarrow>
          (case objInfo old of
             Inl err \<Rightarrow> (s, Inl err)
           | Inr obj \<Rightarrow>
               (case PrepareForUpdate (UpdateStrategy st) obj old of
                  Panics \<Rightarrow> (s, Inl (ErrMsg ''panic''))
                | Returns x \<Rightarrow>
                    if st_ValidateUpdate (UpdateStrategy st) x old \<noteq> Returns [] then (s, Inl (ErrMsg ''invalid''))
                    else (case Canonicalize (UpdateStrategy st) x of
                        Panics \<Rightarrow> (s, Inl (ErrMsg ''panic''))
                      | Returns y \<Rightarrow>
                          if hook_accepts (BeginUpdate st) y then (s((DefaultQualifiedResource st, key) \<mapsto> y), Inr y)
                          else (s, Inl (ErrMsg ''panic''))))))"

definition mem_store_api :: "('l, 'f, 'o, mem_objects) store_api" where
  "mem_store_api =
     \<lparr>store_Get = (\<lambda>st s key. case s (DefaultQualifiedResource st, key) of None \<Rightarrow> Inl (ErrMsg ''not found'') | Some x \<Rightarrow> Inr x),
      store_Update = mem_update\<rparr>"

lemma own_ips: "\<exists>us. x = set_ips acc x us"
  by (rule exI [of _ "[]"]) simp

lemma hook_accepts_unchanged: "hook_accepts h x \<Longrightarrow> after_hook h x x"
  by (auto simp: hook_accepts_def after_hook_def kind_of_to own_ips split: option.splits hook.splits)

lemma set_own_meta: "set_meta (object_meta x) x = x"
  by (cases x) simp_all

lemma mem_registry: "generic_registry mem_store_api (\<lambda>s. s)"
proof
  fix st :: "('a, 'b, 'c) registry_store" and s s' :: mem_objects and key objInfo force res k old new
  assume u: "store_Update mem_store_api st s key objInfo force = (s', res)" and k: "s k = Some old" "s' k = Some new"
  show "new = old \<or> k = (DefaultQualifiedResource st, key) \<and>
      (\<exists>obj x y z m. PrepareForUpdate (UpdateStrategy st) obj old = Returns x \<and> st_ValidateUpdate (UpdateStrategy st) x old = Returns [] \<and>
        Canonicalize (UpdateStrategy st) x = Returns y \<and> after_hook (BeginUpdate st) y z \<and> new = set_meta m z)"
  proof (cases "new = old")
    case False
    then obtain obj x y where "k = (DefaultQualifiedResource st, key)" "PrepareForUpdate (UpdateStrategy st) obj old = Returns x"
      "st_ValidateUpdate (UpdateStrategy st) x old = Returns []" "Canonicalize (UpdateStrategy st) x = Returns y"
      "hook_accepts (BeginUpdate st) y" "new = y"
      using u k by (auto simp: mem_store_api_def mem_update_def split: option.splits sum.splits outcome.splits if_splits)
    then show ?thesis using hook_accepts_unchanged set_own_meta by metis
  qed simp
qed

interpretation mem_registries: generic_registry mem_store_api "\<lambda>s. s"
  by (rule mem_registry)

section \<open>Witnesses\<close>

theorem server_stores_typed_witness:
  "\<exists>srv :: (unit, unit, runtime_object) api_server.
     completedConfig_New example_server_env \<lparr>MinVNI = 1, MaxVNI = 10, PublicPrefix = []\<rparr> = Inr srv \<and>
     distinct (map fst (srv_v1alpha1storage srv)) \<and>
     (\<forall>(name, r)\<in>set (srv_v1alpha1storage srv). rest_fits mem_table_api runtime_items name r)"
proof -
  obtain srv :: "(unit, unit, runtime_object) api_server" where
    srv: "completedConfig_New example_server_env \<lparr>MinVNI = 1, MaxVNI = 10, PublicPrefix = []\<rparr> = Inr srv"
    using example_server_starts by blast
  have "store_completion (se_registry example_server_env)" using example_completion by (simp add: example_server_env_def)
  from server_stores_typed [OF this mem_table_rows srv] srv show ?thesis by blast
qed

lemma networks_served:
  assumes "store_completion R" "completedConfig_New E C = Inr srv" "se_registry E = R"
  obtains st where "REST st \<in> snd ` set (srv_v1alpha1storage srv)" "DefaultQualifiedResource st = ''networks''"
    "UpdateStrategy st = networkStrategy (re_validators R)" "BeginUpdate st = None"
proof (rule store_completion.New_storages [OF assms])
  fix s0 s1 s2 s3 s4 s5 s6 s7 s8 s9 s10 s11 s12
  assume s: "srv_v1alpha1storage srv = storage_entries ''daemonsets'' s0 @
      storage_entries ''instances'' s1 @ storage_entries ''ips'' s2 @ storage_entries ''ipaddresses'' s3 @
      storage_entries ''loadbalancers'' s4 @ storage_entries ''loadbalancerroutings'' s5 @ storage_entries ''natgateways'' s6 @
      storage_entries ''natgatewayautoscalers'' s7 @ storage_entries ''nattables'' s8 @ storage_entries ''networks'' s9 @
      storage_entries ''networkids'' s10 @ storage_entries ''networkinterfaces'' s11 @ storage_entries ''nodes'' s12"
    and n: "storage_sound ''networks'' ''Network'' (networkStrategy (re_validators R)) (Some (networkStatusStrategy (re_validators R)))
      None network_ConvertToTable s9"
  have "(''networks'', REST (stg_Main s9)) \<in> set (srv_v1alpha1storage srv)" by (simp add: s storage_entries_def)
  then have "REST (stg_Main s9) \<in> snd ` set (srv_v1alpha1storage srv)" by (rule rev_image_eqI) simp
  moreover have "DefaultQualifiedResource (stg_Main s9) = ''networks''" "UpdateStrategy (stg_Main s9) = networkStrategy (re_validators R)"
    "BeginUpdate (stg_Main s9) = None"
    using n unfolding storage_sound_def Let_def by simp_all
  ultimately show thesis by (rule that)
qed

definition labelled_network :: core_Network where
  "labelled_network = (example_network ''7'')\<lparr>net_Meta := (net_Meta (example_network ''7''))\<lparr>om_Labels := [(''a'', ''b'')]\<rparr>\<rparr>"

lemma labelled_network_accepted: "ValidateNetworkUpdate plain_validators labelled_network (example_network ''7'') = []"
  by (simp add: labelled_network_def ValidateNetworkUpdate_def ValidateNetwork_def ValidateNetworkSpec_def ValidateNetworkSpecUpdate_def
      plain_validators_def example_network_def)

theorem updates_keep_identity_witness:
  "\<exists>(srv :: (unit, unit, runtime_object) api_server) s'.
     completedConfig_New example_server_env \<lparr>MinVNI = 1, MaxVNI = 10, PublicPrefix = []\<rparr> = Inr srv \<and>
     lives mem_store_api (\<lambda>s. s) (snd ` set (srv_v1alpha1storage srv)) (''networks'', meta_key (net_Meta (example_network ''7'')))
       [(''networks'', meta_key (net_Meta (example_network ''7''))) \<mapsto> Network_obj (example_network ''7'')] (Network_obj (example_network ''7''))
       s' (Network_obj labelled_network) \<and>
     identity_kept (Network_obj (example_network ''7'')) (Network_obj labelled_network) \<and>
     network_afterDelete (nid_iface 10 mem_nid_env example_allocator 0) [] labelled_network False =
       network_afterDelete (nid_iface 10 mem_nid_env example_allocator 0) [] (example_network ''7'') False"
proof -
  let ?n = "example_network ''7''" and ?C = "\<lparr>MinVNI = 1, MaxVNI = 10, PublicPrefix = []\<rparr>"
  let ?key = "meta_key (net_Meta ?n)"
  let ?s = "[(''networks'', ?key) \<mapsto> Network_obj ?n]" and ?s' = "[(''networks'', ?key) \<mapsto> Network_obj labelled_network]"
  obtain srv :: "(unit, unit, runtime_object) api_server" where srv: "completedConfig_New example_server_env ?C = Inr srv"
    using example_server_starts by blast
  have c: "store_completion (se_registry example_server_env)" using example_completion by (simp add: example_server_env_def)
  have v: "field_validators (re_validators (se_registry example_server_env)) label_requirement"
    using plain_field_validators by (simp add: example_server_env_def example_registry_def)
  obtain st where st: "REST st \<in> snd ` set (srv_v1alpha1storage srv)" "DefaultQualifiedResource st = ''networks''"
      "UpdateStrategy st = networkStrategy plain_validators" "BeginUpdate st = None"
    using networks_served [OF c srv refl] by (auto simp: example_server_env_def example_registry_def)
  have u: "rest_update mem_store_api (REST st) ?s ?key (\<lambda>_. Inr (Network_obj labelled_network)) False =
      (?s', Inr (Network_obj labelled_network))"
    using st(2-4) by (simp add: mem_store_api_def mem_update_def networkStrategy_def labelled_network_accepted hook_accepts_def)
  have l: "lives mem_store_api (\<lambda>s. s) (snd ` set (srv_v1alpha1storage srv)) (''networks'', ?key) ?s (Network_obj ?n) ?s' (Network_obj labelled_network)"
    by (rule lives_update [OF lives_start st(1) u]) simp_all
  note k = updates_keep_identity [OF c v mem_registry srv l, where t = "[]" and dryRun = False
      and ifc = "nid_iface 10 mem_nid_env example_allocator 0"]
  show ?thesis
  proof (intro exI conjI)
    show "completedConfig_New example_server_env ?C = Inr srv" by (rule srv)
    show "lives mem_store_api (\<lambda>s. s) (snd ` set (srv_v1alpha1storage srv)) (''networks'', ?key) ?s (Network_obj ?n) ?s' (Network_obj labelled_network)"
      by (rule l)
    show "identity_kept (Network_obj ?n) (Network_obj labelled_network)" using k by (rule conjunct1)
    show "network_afterDelete (nid_iface 10 mem_nid_env example_allocator 0) [] labelled_network False =
        network_afterDelete (nid_iface 10 mem_nid_env example_allocator 0) [] ?n False"
      using conjunct1 [OF conjunct2 [OF conjunct2 [OF k]]] by blast
  qed
qed

end
