(* ===== verification/NetCodec.thy ===== *)
theory NetCodec
  imports Netip
begin

text \<open>
  Text forms of addresses and prefixes: the constructors, parsers and JSON methods of
  \<open>apimachinery/api/net/net.go\<close>, and the command line flag for a list of prefixes of
  \<open>utils/flag/flag.go\<close>. The parsers of \<open>net/netip\<close>, the text of a prefix and the encoding of
  JSON strings are parameters.
\<close>

record net_codec =
  nc_ParseAddr :: "string \<Rightarrow> addr result"
  nc_ParsePrefix :: "string \<Rightarrow> prefix result"
  nc_PrefixString :: "prefix \<Rightarrow> string"
  json_Marshal :: "string \<Rightarrow> string"
  json_Unmarshal :: "string \<Rightarrow> string result"

section \<open>IPs\<close>

text \<open>A method that decodes into its receiver returns the new receiver and the error.\<close>

definition IP_UnmarshalJSON :: "net_codec \<Rightarrow> net_IP \<Rightarrow> string \<Rightarrow> net_IP \<times> go_error option" where
  "IP_UnmarshalJSON J i b =
     (if length b = 4 \<and> b = ''null'' then (ZeroAddr, None)
      else case json_Unmarshal J b of
        Inl err \<Rightarrow> (i, Some err)
      | Inr str \<Rightarrow>
          (case nc_ParseAddr J str of
             Inl err \<Rightarrow> (i, Some err)
           | Inr p \<Rightarrow> (p, None)))"

definition IP_MarshalJSON :: "net_codec \<Rightarrow> net_IP \<Rightarrow> string result" where
  "IP_MarshalJSON J i = (if IP_IsZero (Some i) then Inr ''null'' else Inr (json_Marshal J (addr_String i)))"

definition IP_ToUnstructured :: "net_IP \<Rightarrow> string option" where
  "IP_ToUnstructured i = (if IP_IsZero (Some i) then None else Some (addr_String i))"

definition NewIP :: "addr \<Rightarrow> net_IP" where
  "NewIP ip = ip"

definition ParseIP :: "net_codec \<Rightarrow> string \<Rightarrow> net_IP result" where
  "ParseIP J s = (case nc_ParseAddr J s of Inl err \<Rightarrow> Inl err | Inr a \<Rightarrow> Inr a)"

definition ParseNewIP :: "net_codec \<Rightarrow> string \<Rightarrow> net_IP result" where
  "ParseNewIP J s = (case ParseIP J s of Inl err \<Rightarrow> Inl err | Inr ip \<Rightarrow> Inr ip)"

definition MustParseIP :: "net_codec \<Rightarrow> string \<Rightarrow> net_IP outcome" where
  "MustParseIP J s = (case nc_ParseAddr J s of Inl _ \<Rightarrow> Panics | Inr a \<Rightarrow> Returns a)"

definition MustParseNewIP :: "net_codec \<Rightarrow> string \<Rightarrow> net_IP outcome" where
  "MustParseNewIP J s = (case ParseNewIP J s of Inl _ \<Rightarrow> Panics | Inr ip \<Rightarrow> Returns ip)"

section \<open>Prefixes\<close>

definition IPPrefix_IP :: "net_IPPrefix \<Rightarrow> net_IP" where
  "IPPrefix_IP i = p_Addr i"

definition IPPrefix_UnmarshalJSON :: "net_codec \<Rightarrow> net_IPPrefix \<Rightarrow> string \<Rightarrow> net_IPPrefix \<times> go_error option" where
  "IPPrefix_UnmarshalJSON J i b =
     (if length b = 4 \<and> b = ''null'' then (zero_prefix, None)
      else case json_Unmarshal J b of
        Inl err \<Rightarrow> (i, Some err)
      | Inr str \<Rightarrow>
          (case nc_ParsePrefix J str of
             Inl err \<Rightarrow> (i, Some err)
           | Inr p \<Rightarrow> (p, None)))"

definition IPPrefix_MarshalJSON :: "net_codec \<Rightarrow> net_IPPrefix \<Rightarrow> string result" where
  "IPPrefix_MarshalJSON J i = (if IPPrefix_IsZero (Some i) then Inr ''null'' else Inr (json_Marshal J (nc_PrefixString J i)))"

definition IPPrefix_ToUnstructured :: "net_codec \<Rightarrow> net_IPPrefix \<Rightarrow> string option" where
  "IPPrefix_ToUnstructured J i = (if IPPrefix_IsZero (Some i) then None else Some (nc_PrefixString J i))"

definition ParseIPPrefix :: "net_codec \<Rightarrow> string \<Rightarrow> net_IPPrefix result" where
  "ParseIPPrefix J s = (case nc_ParsePrefix J s of Inl err \<Rightarrow> Inl err | Inr p \<Rightarrow> Inr p)"

definition ParseNewIPPrefix :: "net_codec \<Rightarrow> string \<Rightarrow> net_IPPrefix result" where
  "ParseNewIPPrefix J s = (case ParseIPPrefix J s of Inl err \<Rightarrow> Inl err | Inr p \<Rightarrow> Inr p)"

definition MustParseIPPrefix :: "net_codec \<Rightarrow> string \<Rightarrow> net_IPPrefix outcome" where
  "MustParseIPPrefix J s = (case nc_ParsePrefix J s of Inl _ \<Rightarrow> Panics | Inr p \<Rightarrow> Returns p)"

definition MustParseNewIPPrefix :: "net_codec \<Rightarrow> string \<Rightarrow> net_IPPrefix outcome" where
  "MustParseNewIPPrefix J s = (case ParseNewIPPrefix J s of Inl _ \<Rightarrow> Panics | Inr p \<Rightarrow> Returns p)"

definition EqualIPPrefixes :: "net_IPPrefix \<Rightarrow> net_IPPrefix \<Rightarrow> bool" where
  "EqualIPPrefixes a b = (a = b)"

text \<open>A JSON string starts with a quotation mark and is decoded to what was encoded.\<close>

locale json_strings =
  fixes J :: net_codec
  assumes decode: "json_Unmarshal J (json_Marshal J s) = Inr s"
    and quoted: "\<exists>r. json_Marshal J s = CHR 0x22 # r"
begin

lemma not_null: "json_Marshal J s \<noteq> ''null''"
  using quoted [of s] by auto

end

text \<open>
  An address whose text is parsed to it is encoded and decoded to itself, whatever was in the
  place where it is decoded to; the zero address needs no parser. The same holds for prefixes.
\<close>

theorem ip_json_roundtrip:
  assumes "json_strings J" "IsValid a \<longrightarrow> nc_ParseAddr J (addr_String a) = Inr a"
  shows "\<exists>b. IP_MarshalJSON J a = Inr b \<and> IP_UnmarshalJSON J i b = (a, None)"
  using assms(2) json_strings.decode [OF assms(1)] json_strings.not_null [OF assms(1)]
  by (cases a) (auto simp: IP_MarshalJSON_def IP_UnmarshalJSON_def IP_IsZero_def)

theorem prefix_json_roundtrip:
  assumes "json_strings J" "prefix_IsValid p \<longrightarrow> nc_ParsePrefix J (nc_PrefixString J p) = Inr p"
  shows "\<exists>b. IPPrefix_MarshalJSON J p = Inr b \<and>
    IPPrefix_UnmarshalJSON J i b = (if prefix_IsValid p then p else zero_prefix, None)"
  using assms(2) json_strings.decode [OF assms(1)] json_strings.not_null [OF assms(1)]
  by (auto simp: IPPrefix_MarshalJSON_def IPPrefix_UnmarshalJSON_def IPPrefix_IsZero_def)

section \<open>utils/flag/flag.go\<close>

text \<open>
  The CSV reader on a text without quotation marks reads one record: the first line that is
  not empty, without the carriage return before its end, split at the commas; without such a line it
  reports the end of the input.
\<close>

fun split_at :: "char \<Rightarrow> string \<Rightarrow> string list" where
  "split_at sep [] = [[]]"
| "split_at sep (c # cs) =
     (if c = sep then [] # split_at sep cs
      else case split_at sep cs of [] \<Rightarrow> [[c]] | w # ws \<Rightarrow> (c # w) # ws)"

definition strip_cr :: "string \<Rightarrow> string" where
  "strip_cr line = (if line \<noteq> [] \<and> last line = CHR 0x0D then butlast line else line)"

definition io_EOF :: go_error where
  "io_EOF = Sentinel ''EOF''"

definition readAsCSV :: "string \<Rightarrow> string list \<times> go_error option" where
  "readAsCSV val =
     (if val = [] then ([], None)
      else case filter (\<lambda>line. line \<noteq> []) (map strip_cr (split_at CHR 0x0A val)) of
        [] \<Rightarrow> ([], Some io_EOF)
      | line # _ \<Rightarrow> (split_at CHR '','' line, None))"

record ipPrefixesVar =
  pv_value :: "prefix list"
  pv_changed :: bool

definition newIPPrefixesVar :: "prefix list \<Rightarrow> ipPrefixesVar" where
  "newIPPrefixesVar val = \<lparr>pv_value = val, pv_changed = False\<rparr>"

definition remove_quotes :: "string \<Rightarrow> string" where
  "remove_quotes val = filter (\<lambda>c. c \<notin> {CHR 0x22, CHR 0x27, CHR 0x60}) val"

fun must_parse_prefixes :: "net_codec \<Rightarrow> string list \<Rightarrow> prefix list outcome" where
  "must_parse_prefixes J [] = Returns []"
| "must_parse_prefixes J (s # ss) =
     (case MustParseIPPrefix J s of
        Panics \<Rightarrow> Panics
      | Returns p \<Rightarrow> (case must_parse_prefixes J ss of Panics \<Rightarrow> Panics | Returns ps \<Rightarrow> Returns (p # ps)))"

definition ipPrefixesVar_Set :: "net_codec \<Rightarrow> ipPrefixesVar \<Rightarrow> string \<Rightarrow> (ipPrefixesVar \<times> go_error option) outcome" where
  "ipPrefixesVar_Set J v val =
     (let (ipPrefixStrSlice, err) = readAsCSV (remove_quotes val) in
      if err \<noteq> None \<and> err \<noteq> Some io_EOF then Returns (v, err)
      else case must_parse_prefixes J ipPrefixStrSlice of
        Panics \<Rightarrow> Panics
      | Returns out \<Rightarrow>
          Returns (\<lparr>pv_value = (if \<not> pv_changed v then out else pv_value v @ out), pv_changed = True\<rparr>, None))"

text \<open>The flag is set once for each time it is given.\<close>

fun set_all :: "net_codec \<Rightarrow> ipPrefixesVar \<Rightarrow> string list \<Rightarrow> (ipPrefixesVar \<times> go_error option) outcome" where
  "set_all J v [] = Returns (v, None)"
| "set_all J v (val # vals) =
     (case ipPrefixesVar_Set J v val of
        Returns (v', None) \<Rightarrow> set_all J v' vals
      | r \<Rightarrow> r)"

definition flag_prefixes :: "net_codec \<Rightarrow> string \<Rightarrow> prefix list outcome" where
  "flag_prefixes J val = must_parse_prefixes J (fst (readAsCSV (remove_quotes val)))"

lemma Set_spec:
  "ipPrefixesVar_Set J v val =
     (case flag_prefixes J val of
        Panics \<Rightarrow> Panics
      | Returns ps \<Rightarrow> Returns (\<lparr>pv_value = (if pv_changed v then pv_value v @ ps else ps), pv_changed = True\<rparr>, None))"
  by (auto simp: ipPrefixesVar_Set_def flag_prefixes_def readAsCSV_def split: list.split outcome.split prod.split)

lemma set_all_changed:
  "list_all2 (\<lambda>val ps. flag_prefixes J val = Returns ps) vals pss \<Longrightarrow>
     set_all J \<lparr>pv_value = qs, pv_changed = True\<rparr> vals = Returns (\<lparr>pv_value = qs @ concat pss, pv_changed = True\<rparr>, None)"
  by (induction vals pss arbitrary: qs rule: list_all2_induct) (simp_all add: Set_spec)

text \<open>
  Giving the flag replaces its default by the prefixes of all its occurrences, in their order;
  an occurrence with a text that is no prefix panics instead of reporting an error.
\<close>

theorem flag_replaces_default:
  assumes "vals \<noteq> []" "list_all2 (\<lambda>val ps. flag_prefixes J val = Returns ps) vals pss"
  shows "set_all J (newIPPrefixesVar def) vals = Returns (\<lparr>pv_value = concat pss, pv_changed = True\<rparr>, None)"
  using assms set_all_changed by (cases vals; cases pss) (auto simp: Set_spec newIPPrefixesVar_def)

theorem malformed_flag_panics:
  assumes "s \<in> set (fst (readAsCSV (remove_quotes val)))" "nc_ParsePrefix J s = Inl err"
  shows "ipPrefixesVar_Set J v val = Panics"
proof -
  have "must_parse_prefixes J ss = Panics" if "s \<in> set ss" for ss
    using that assms(2) by (induction ss) (auto simp: MustParseIPPrefix_def split: sum.split outcome.split)
  then show ?thesis using assms(1) by (simp add: Set_spec flag_prefixes_def)
qed

section \<open>An encoding of strings\<close>

definition plain_codec :: net_codec where
  "plain_codec =
     \<lparr>nc_ParseAddr = (\<lambda>s. if s = addr_String (V4 1) then Inr (V4 1) else Inl (ErrMsg ''unable to parse IP'')),
      nc_ParsePrefix = (\<lambda>s. Inl (ErrMsg ''unable to parse prefix'')), nc_PrefixString = (\<lambda>p. addr_String (p_Addr p)),
      json_Marshal = (\<lambda>s. CHR 0x22 # s @ [CHR 0x22]), json_Unmarshal = (\<lambda>b. Inr (butlast (tl b)))\<rparr>"

interpretation plain_json: json_strings plain_codec
  by unfold_locales (simp_all add: plain_codec_def)

lemma ip_json_roundtrip_witness:
  "\<exists>b. IP_MarshalJSON plain_codec (V4 1) = Inr b \<and> IP_UnmarshalJSON plain_codec ZeroAddr b = (V4 1, None)"
  by (rule ip_json_roundtrip [OF plain_json.json_strings_axioms]) (simp add: plain_codec_def)

lemma malformed_flag_panics_witness: "ipPrefixesVar_Set plain_codec (newIPPrefixesVar []) ''a,b'' = Panics"
  by (rule malformed_flag_panics [where s = "''a''" and err = "ErrMsg ''unable to parse prefix''"])
    (simp_all add: plain_codec_def readAsCSV_def remove_quotes_def strip_cr_def)

end
