(* ===== verification/Spec2Isabelle.thy ===== *)
theory Spec2Isabelle
  imports IPTransactions NatGateway Scheduler DaemonSets GarbageCollection Certificates Validation MetalnetInterfaces ApinetInterfaces ApinetLoadBalancers Registries NetCodec
begin

text \<open>
  A verification development for onmetal-api-net, the network control plane of onmetal.

  \<^bold>\<open>The program.\<close> An aggregated API server stores networks, IPs, network interfaces, NAT gateways,
  load balancers, daemon sets, instances and nodes. Its storage hooks hand out virtual network
  identifiers and IP addresses when objects are created and take them back when they are deleted
  or when a request fails. A controller manager reconciles the stored objects: NAT gateways share
  the port ranges of their addresses among network interfaces, load balancers become daemon sets,
  daemon sets become one instance per suitable node, a scheduler places instances on nodes,
  collectors release what vanished objects left behind, and certificate requests of the netlets
  are approved. Two netlets synchronise the API with onmetal-api and with metalnet.

  \<^bold>\<open>Reading the models.\<close> Go functions are HOL functions with the names of the source, prefixed with
  the component where two functions share a name. A call that may change the cluster takes its
  state and returns the new one; the state itself is abstract, and the clients that read and
  write it are records of functions, because the API server is not part of the repository.
  Errors are values of \<open>go_error\<close>, \<open>Inl\<close> being the error of a result; a panic is the value
  \<open>Panics\<close> of the type \<open>outcome\<close>. Machine integers are words or integers with the wrap-around written
  out (\<open>i32\<close>, \<open>i64\<close>). Random draws, clocks and the orders in which Go traverses maps are arguments, so
  that the theorems hold for each of them. Logging, contexts and metrics are left out.

  \<^bold>\<open>The theories.\<close>
  \<^item> \<open>Prelude\<close>: errors, results, panics, integer widths, decimal numerals, and the loops over iterators with
    their first-success lemmas. \<open>Netip\<close>: \<open>netip.Addr\<close> and \<open>netip.Prefix\<close> as used, \<open>utils/netip\<close>,
    \<open>apimachinery/api/net\<close>. \<open>ApiTypes\<close>: the objects of \<open>api/core/v1alpha1\<close> with the fields the modelled code
    touches, and their accessors.
  \<^item> \<open>ApiStore\<close> and \<open>Kube\<close>: the two client interfaces, the locales that state what the program relies on
    (\<open>resource_api\<close>, \<open>reliable_api\<close>, \<open>kube_api\<close>) and in-memory servers that satisfy them; retries with back-off.
  \<^item> \<open>NetworkIDs\<close>: \<open>networkid/networkid.go\<close>, \<open>internal/registry/network\<close> with its allocator.
    \<open>IPAddresses\<close>: \<open>internal/registry/ip\<close> with its allocator. Allocation terminates, yields an identifier
    in range that was free and is then reserved, and reports a full range only when it is full;
    create, roll-back and delete balance.
  \<^item> \<open>IPAllocators\<close> and \<open>IPTransactions\<close>: \<open>internal/registry/ipallocator\<close> and the hooks of network interfaces, NAT
    gateways and load balancers: what a create, an update and a delete hold and release.
  \<^item> \<open>Containers\<close>: \<open>utils/container\<close>, \<open>utils/slots\<close>, \<open>utils/iterator\<close>; key slots refine a set of used pairs.
    \<open>NatAllocation\<close>: \<open>internal/natgateway\<close> and the sizing of the autoscaler; \<open>NatGateway\<close>: the controllers of NAT
    gateways and autoscalers and \<open>internal/client\<close>. With 2 to 64512 ports per interface a reconciliation
    returns, and the table that it applies never gives a port of an address to two interfaces.
  \<^item> \<open>SchedulerCache\<close>: \<open>internal/controllers/scheduler/cache.go\<close>, whose reachable states refine a map from
    instances to their placement. \<open>NodeAffinity\<close>: \<open>internal/nodeaffinity\<close>. \<open>Scheduler\<close>:
    \<open>scheduler_controller.go\<close>; an instance is placed on a least used node among exactly those that
    meet its affinity, its anti-affinity and its topology spread constraints.
  \<^item> \<open>Expectations\<close>: \<open>utils/expectations\<close>, \<open>utils/handler/expectations.go\<close>, \<open>utils/controller/refmanager.go\<close>.
    \<open>DaemonSets\<close>: the controllers of daemon sets and load balancers and \<open>util.go\<close>; the plan of a
    reconciliation leaves every node with exactly the instances it should have.
  \<^item> \<open>GarbageCollection\<close>: the collectors of addresses and network IDs and the release of NATs, as step
    relations next to other clients. They take nothing from a stored object, but they do take the address
    of an \<open>IP\<close> whose creation is under way. \<open>Certificates\<close>: the approval of certificate requests.
  \<^item> \<open>Validation\<close>: \<open>internal/apis/core/validation\<close> and the defaults. The claims that the NAT gateway
    controller sends are accepted, and what is accepted is characterised for network interfaces.
  \<^item> \<open>Strategies\<close>: \<open>internal/registry/*/strategy.go\<close>, over the sum \<open>core_object\<close> of all kinds, so that a failing
    type assertion is a panic. \<open>Tables\<close>: the table convertors and \<open>utils/strings\<close>. \<open>Registries\<close>: the storages and
    \<open>internal/apiserver\<close>. Every store of a server works on one kind, and no sequence of updates
    through any of them changes what identifies an object. \<open>NetCodec\<close>: the text and JSON forms of \<open>apimachinery/api/net\<close>
    and \<open>utils/flag\<close>.
  \<^item> \<open>SourceAware\<close>: \<open>utils/api\<close>, \<open>utils/client\<close>, \<open>utils/handler/sourceaware.go\<close> and the clients of the netlets. Source labels are
    read back as they were written, and an event of a labelled object enqueues its source.
  \<^item> \<open>Netlet\<close>: what the reconcilers of both netlets have in common: a source with a finalizer, its
    targets, and the runs of a handler next to other clients. A guarded source does not go away before its targets.
    \<open>Metalnet\<close>, \<open>MetalnetInstances\<close> and \<open>MetalnetInterfaces\<close>: \<open>metalnetlet/controllers\<close> (\<open>network_controller.go\<close> and \<open>metalnetnode_controller.go\<close>; \<open>instance_controller.go\<close>;
    \<open>networkinterface_controller.go\<close> with \<open>conversion.go\<close>). The load balancers of an instance become exactly its IPs, and no two
    interfaces are given the same port of a NAT address.
  \<^item> \<open>Apinetlet\<close>, \<open>ApinetLoadBalancers\<close> and \<open>ApinetInterfaces\<close>: \<open>apinetlet/provider\<close> and \<open>apinetlet/controllers\<close> (networks, virtual IPs, NAT gateways;
    load balancers; network interfaces). What the netlet writes into network interfaces passes
    the validation, and the instances of a load balancer are kept apart by zone.

  \<^bold>\<open>Interfaces.\<close> Each locale states a contract between a client and its provider: the API server
  (above), \<open>ip_address_allocator\<close> and its kin for allocators, bit sets for slots, \<open>selectors\<close> for label
  and field selectors of apimachinery, \<open>field_validators\<close> for its checks, \<open>absence_cache\<close> and \<open>claim_reader\<close> for the collectors;
  \<open>typed_strategy\<close> and \<open>keeping_strategy\<close> for the strategies, which are interpreted for all kinds, \<open>store_completion\<close>, \<open>generic_registry\<close> and \<open>table_rows\<close>
  for the library of the API server; \<open>source_labels\<close>, \<open>source_api\<close>, \<open>target_api\<close>, \<open>named_netlet\<close>, \<open>labelled_netlet\<close>, \<open>named_handler\<close>, \<open>claim_manager\<close>,
  \<open>patch_source\<close> and \<open>apinet_nics\<close> for the clients of the netlets. The locales
  on code of the repository are interpreted on its models, those on other code on executable
  instances that show the contracts to be satisfiable and serve the witnesses.

  \<^bold>\<open>Bounds.\<close> The loops of the allocators are run with fuel: any number above the size of the range gives
  the result (\<open>allocateNextNetwork_safe\<close>, \<open>ia_allocateNext_safe\<close>). The generation of names draws from a list and
  returns once it has seen enough distinct suffixes. All other recursions are structural.

  \<^bold>\<open>Assumptions.\<close> Reads are answered from the state at the time of the call; stale informer caches are
  covered only where a model takes a separate lister, and lists of the netlets are not paged except in \<open>SourceAware\<close>.
  The goroutine that binds an instance and the collectors are interleaved with other clients
  explicitly; a handler of a netlet runs between the steps of other clients. The types, constants
  and the claim manager of onmetal-api and the types of metalnet are parameters. Data races of the Go memory
  model are outside the models.

  \<^bold>\<open>Not modelled.\<close> Registration of watches (\<open>SetupWithManager\<close>), flags other than the list of prefixes, client configurations and process
  start-up (\<open>cmd\<close>, \<open>internal/app\<close>), the informer cache and test helpers under \<open>utils\<close>, and the generated
  clients, deep copies, conversions and OpenAPI definitions, which hold no logic of their own.
\<close>

end
